(* ===== verification/Prelude.thy ===== *)
theory Prelude
  imports Main "HOL-Library.Word" "HOL-Library.Signed_Division" "HOL-Library.Monad_Syntax"
begin

text \<open>
  Shared vocabulary of the development: the model of the C++ library containers the
  simulator uses (\<open>std::vector\<close> reads and writes with an index that may be out of range,
  \<open>resize\<close>), signed division as C++ defines it, sequencing of computations that can
  fail, and the generic list and option lemmas every component uses.
\<close>

named_theorems vec_simps \<open>reads and writes of model vectors\<close>
named_theorems cxx_arith \<open>C++ integer division on the ranges the code uses\<close>

type_synonym clk = int            \<comment> \<open>\<open>Clk_t\<close>, a 64-bit cycle counter\<close>
type_synonym addr_t = int         \<comment> \<open>\<open>Addr_t\<close>, a 64-bit physical address\<close>
type_synonym addr_vec = "int list" \<comment> \<open>\<open>AddrVec_t\<close>\<close>

section \<open>Vectors\<close>

text \<open>
  \<open>operator[]\<close> of a vector is undefined outside its range. The model returns \<open>None\<close> there,
  so an operation that returns \<open>Some\<close> never left the range.
\<close>

definition vec_at :: "'a list \<Rightarrow> int \<Rightarrow> 'a option" where
  "vec_at xs i = (if 0 \<le> i \<and> i < int (length xs) then Some (xs ! nat i) else None)"

definition vec_set :: "'a list \<Rightarrow> int \<Rightarrow> 'a \<Rightarrow> 'a list option" where
  "vec_set xs i x = (if 0 \<le> i \<and> i < int (length xs) then Some (xs[nat i := x]) else None)"

definition vec_resize :: "'a list \<Rightarrow> nat \<Rightarrow> 'a \<Rightarrow> 'a list" where
  "vec_resize xs n x = take n xs @ replicate (n - length xs) x"

text \<open>A conjunction that stops at the first \<open>False\<close>, as \<open>&&\<close> does.\<close>

fun list_allM :: "('a \<Rightarrow> bool option) \<Rightarrow> 'a list \<Rightarrow> bool option" where
  "list_allM f [] = Some True"
| "list_allM f (x # xs) =
     (case f x of None \<Rightarrow> None | Some False \<Rightarrow> Some False | Some True \<Rightarrow> list_allM f xs)"

text \<open>Sequencing of computations that can throw.\<close>

definition sbind :: "'e + 'a \<Rightarrow> ('a \<Rightarrow> 'e + 'b) \<Rightarrow> 'e + 'b" where
  "sbind m f = (case m of Inl e \<Rightarrow> Inl e | Inr x \<Rightarrow> f x)"

fun smap :: "('a \<Rightarrow> 'e + 'b) \<Rightarrow> 'a list \<Rightarrow> 'e + 'b list" where
  "smap f [] = Inr []"
| "smap f (x # xs) = sbind (f x) (\<lambda>y. sbind (smap f xs) (\<lambda>ys. Inr (y # ys)))"

text \<open>A loop whose body can fail.\<close>

fun foldlM :: "('s \<Rightarrow> 'a \<Rightarrow> 's option) \<Rightarrow> 's \<Rightarrow> 'a list \<Rightarrow> 's option" where
  "foldlM f s [] = Some s"
| "foldlM f s (x # xs) = Option.bind (f s x) (\<lambda>s'. foldlM f s' xs)"

section \<open>Lemmas on vectors\<close>

lemma vec_at_Some [vec_simps]:
  "vec_at xs i = Some x \<longleftrightarrow> 0 \<le> i \<and> i < int (length xs) \<and> x = xs ! nat i"
  by (auto simp: vec_at_def)

lemma vec_at_None [vec_simps]:
  "vec_at xs i = None \<longleftrightarrow> i < 0 \<or> int (length xs) \<le> i"
  by (auto simp: vec_at_def)

lemma vec_at_nat [simp]: "n < length xs \<Longrightarrow> vec_at xs (int n) = Some (xs ! n)"
  by (simp add: vec_at_def)

lemma vec_at_in_set: "vec_at xs i = Some x \<Longrightarrow> x \<in> set xs"
  by (auto simp: vec_at_def split: if_splits)

lemma vec_at_map_upt:
  "vec_at (map (\<lambda>j. f (int j)) [0..<n]) i = Some c \<longleftrightarrow> 0 \<le> i \<and> i < int n \<and> c = f i"
  by (auto simp: vec_at_def)

lemma vec_set_Some [vec_simps]:
  "vec_set xs i x = Some ys \<longleftrightarrow> 0 \<le> i \<and> i < int (length xs) \<and> ys = xs[nat i := x]"
  by (auto simp: vec_set_def)

lemma vec_at_update:
  "0 \<le> i \<Longrightarrow> vec_at (xs[nat i := x]) j = (if i = j \<and> i < int (length xs) then Some x else vec_at xs j)"
  by (auto simp: vec_at_def nth_list_update nat_eq_iff)

lemma length_vec_set: "vec_set xs i x = Some ys \<Longrightarrow> length ys = length xs"
  by (auto simp: vec_simps)

lemma length_vec_resize [simp]: "length (vec_resize xs n x) = n"
  by (simp add: vec_resize_def)

lemma vec_resize_same [simp]: "length xs = n \<Longrightarrow> vec_resize xs n x = xs"
  by (simp add: vec_resize_def)

lemma vec_resize_nth: "i < n \<Longrightarrow> vec_resize xs n x ! i = (if i < length xs then xs ! i else x)"
  by (simp add: vec_resize_def nth_append)

section \<open>Lemmas on options and sums\<close>

lemma those_map_Some:
  "those (map f xs) = Some ys \<longleftrightarrow> list_all2 (\<lambda>x y. f x = Some y) xs ys"
proof (induction xs arbitrary: ys)
  case Nil
  then show ?case by auto
next
  case (Cons x xs)
  show ?case
    by (cases ys) (auto simp: Cons.IH split: option.splits)
qed

lemma those_map_total:
  assumes "\<And>x. x \<in> set xs \<Longrightarrow> f x = Some (g x)"
  shows "those (map f xs) = Some (map g xs)"
  using assms by (induction xs) auto

lemma those_map_ex:
  assumes "\<And>x. x \<in> set xs \<Longrightarrow> \<exists>y. f x = Some y"
  shows "\<exists>ys. those (map f xs) = Some ys"
  using assms
proof (induction xs)
  case Nil
  then show ?case by simp
next
  case (Cons x xs)
  then obtain y ys where "f x = Some y" "those (map f xs) = Some ys"
    by (metis list.set_intros(1) list.set_intros(2))
  then show ?case by simp
qed

lemma list_allM_cong [fundef_cong]:
  assumes "xs = ys" and "\<And>x. x \<in> set ys \<Longrightarrow> f x = g x"
  shows "list_allM f xs = list_allM g ys"
  unfolding assms(1) using assms(2)
  by (induction ys) (auto split: option.splits bool.splits)

lemma list_allM_True:
  "list_allM f xs = Some True \<longleftrightarrow> (\<forall>x\<in>set xs. f x = Some True)"
  by (induction xs) (auto split: option.splits bool.splits)

lemma list_allM_total:
  assumes "\<And>x. x \<in> set xs \<Longrightarrow> f x = Some (p x)"
  shows "list_allM f xs = Some (list_all p xs)"
  using assms by (induction xs) (auto split: bool.splits)

lemma foldlM_append: "foldlM f s (xs @ ys) = Option.bind (foldlM f s xs) (\<lambda>s'. foldlM f s' ys)"
  by (induction xs arbitrary: s) (auto split: bind_splits)

lemma foldlM_cong [fundef_cong]:
  assumes "s = s'" "xs = ys" "\<And>x s. x \<in> set ys \<Longrightarrow> f s x = g s x"
  shows "foldlM f s xs = foldlM g s' ys"
  unfolding assms(1,2) using assms(3) by (induction ys arbitrary: s') (auto intro!: Option.bind_cong)

lemma foldlM_concat: "foldlM f s (concat xss) = foldlM (\<lambda>s xs. foldlM f s xs) s xss"
  by (induction xss arbitrary: s) (auto simp: foldlM_append)

lemma foldlM_map: "foldlM f s (map g xs) = foldlM (\<lambda>s x. f s (g x)) s xs"
  by (induction xs arbitrary: s) (auto intro!: Option.bind_cong)

lemma foldlM_fold:
  assumes "\<And>x s. x \<in> set xs \<Longrightarrow> f s x = Some (g x s)"
  shows "foldlM f s xs = Some (fold g xs s)"
  using assms by (induction xs arbitrary: s) auto

text \<open>An invariant indexed by how far the loop has come.\<close>

lemma foldlM_upt:
  assumes "P a s" "a \<le> b" "\<And>i s. a \<le> i \<Longrightarrow> i < b \<Longrightarrow> P i s \<Longrightarrow> \<exists>s'. f s i = Some s' \<and> P (Suc i) s'"
  shows "\<exists>s'. foldlM f s [a..<b] = Some s' \<and> P b s'"
  using assms
proof (induction "b - a" arbitrary: a s)
  case 0
  then show ?case by simp
next
  case (Suc n)
  then have ab: "a < b" by simp
  with Suc.prems(1,3) obtain s1 where s1: "f s a = Some s1" "P (Suc a) s1" by blast
  have "n = b - Suc a" using Suc.hyps(2) by simp
  from Suc.hyps(1) [OF this, of s1] Suc.prems(3) s1(2) ab
  obtain s' where "foldlM f s1 [Suc a..<b] = Some s'" "P b s'" by auto
  with s1 ab show ?case by (simp add: upt_conv_Cons)
qed

lemma sbind_simps [simp]: "sbind (Inl e) f = Inl e" "sbind (Inr x) f = f x"
  by (simp_all add: sbind_def)

lemma sbind_Inr: "sbind m f = Inr y \<longleftrightarrow> (\<exists>x. m = Inr x \<and> f x = Inr y)"
  by (cases m) auto

lemma smap_Inr: "smap f xs = Inr ys \<longleftrightarrow> list_all2 (\<lambda>x y. f x = Inr y) xs ys"
proof (induction xs arbitrary: ys)
  case Nil
  then show ?case by auto
next
  case (Cons x xs)
  show ?case
    by (cases ys) (auto simp: sbind_Inr Cons.IH)
qed

section \<open>C++ division and remainder\<close>

lemma sdiv_nonneg [cxx_arith]: "0 \<le> a \<Longrightarrow> 0 < b \<Longrightarrow> (a::int) sdiv b = a div b"
  by (cases "a = 0") (auto simp: signed_divide_int_def)

lemma smod_nonneg [cxx_arith]: "0 \<le> a \<Longrightarrow> 0 < b \<Longrightarrow> (a::int) smod b = a mod b"
  by (cases "a = 0") (auto simp: signed_modulo_int_def)

lemma int_div_less: "0 < b \<Longrightarrow> x < a * b \<Longrightarrow> (x :: int) div b < a"
proof (rule ccontr)
  assume b: "0 < b" "x < a * b" and "\<not> x div b < a"
  then have "a * b \<le> x div b * b" by (intro mult_right_mono) auto
  also have "\<dots> \<le> x" using b(1) div_mult_mod_eq [of x b] pos_mod_sign [of b x] by linarith
  finally show False using b(2) by simp
qed

section \<open>Lists updated in place\<close>

lemma fold_length_inv:
  assumes "\<And>x s. length (f x s) = length s"
  shows "length (fold f xs s) = length s"
  by (induction xs arbitrary: s) (simp_all add: assms)

lemma list_update_nth_max:
  "i < length xs \<Longrightarrow> xs[j := y] ! i = (if i = j then y else xs ! i)"
  by (cases "i = j") auto

end
