(* ===== verification/Half_Float.thy ===== *)
theory Half_Float
  imports Prelude "HOL-Library.While_Combinator"
begin

unbundle bit_operations_syntax

text \<open>
  The half-precision type of \<open>src/golden/fp16.h\<close> on its bit patterns (\<open>16 word\<close>), and the binary32
  operations of the language that the functional model uses (\<open>float\<close> as a \<open>32 word\<close>: addition,
  multiplication, comparison, \<open>std::max\<close>), rounding to nearest, ties to even. A \<open>NaN\<close> result is
  the quiet \<open>NaN\<close> \<open>0x7fc00000\<close>.
\<close>

type_synonym fp16 = "16 word"
type_synonym f32 = "32 word"

section \<open>Conversions\<close>

definition fp16_of_f32 :: "f32 \<Rightarrow> fp16" where
  "fp16_of_f32 x =
     (let sgn = drop_bit 16 x AND 0x8000;
          ex = sint ((drop_bit 23 x AND 0xff) - 127 + 15);
          frac = x AND 0x7fffff
      in if x AND 0x7fffffff = 0 then ucast sgn
         else if drop_bit 23 x AND 0xff = 0xff
         then ucast (sgn OR 0x7c00 OR (if frac \<noteq> 0 then 1 else 0))
         else if ex \<ge> 31 then ucast (sgn OR 0x7c00)
         else if ex \<le> 0 then
           (if ex < -10 then ucast sgn
            else ucast (sgn OR drop_bit 13 (drop_bit (nat (1 - ex)) (frac OR 0x800000))))
         else ucast (sgn OR push_bit 10 (word_of_int ex) OR drop_bit 13 frac))"

text \<open>The loop that normalizes a subnormal fraction.\<close>

definition normalize_frac :: "f32 \<Rightarrow> int \<Rightarrow> f32 \<times> int" where
  "normalize_frac frac ex =
     while (\<lambda>(f, e). f AND 0x400 = 0) (\<lambda>(f, e). (push_bit 1 f, e - 1)) (frac, ex)"

definition f32_of_fp16 :: "fp16 \<Rightarrow> f32" where
  "f32_of_fp16 v =
     (let w = (ucast v :: f32); sgn = push_bit 16 (w AND 0x8000);
          ex = drop_bit 10 (w AND 0x7c00); frac = w AND 0x3ff
      in if ex = 0 then
           (if frac = 0 then sgn
            else let (f, e) = normalize_frac frac (127 - 14)
                 in sgn OR push_bit 23 (word_of_int e) OR push_bit 13 (f AND 0x3ff))
         else if ex = 0x1f then sgn OR 0x7f800000 OR (if frac \<noteq> 0 then 0x400000 else 0)
         else sgn OR push_bit 23 (ex + 127 - 15) OR push_bit 13 frac)"

section \<open>Single precision\<close>

definition f32_nan :: f32 where "f32_nan = 0x7fc00000"

definition f32_exp :: "f32 \<Rightarrow> int" where
  "f32_exp x = uint (drop_bit 23 x AND 0xff)"

definition f32_frac :: "f32 \<Rightarrow> int" where
  "f32_frac x = uint (x AND 0x7fffff)"

definition f32_neg :: "f32 \<Rightarrow> bool" where
  "f32_neg x \<longleftrightarrow> bit x 31"

definition f32_is_nan :: "f32 \<Rightarrow> bool" where
  "f32_is_nan x \<longleftrightarrow> f32_exp x = 255 \<and> f32_frac x \<noteq> 0"

definition f32_is_inf :: "f32 \<Rightarrow> bool" where
  "f32_is_inf x \<longleftrightarrow> f32_exp x = 255 \<and> f32_frac x = 0"

text \<open>A finite number is \<open>(-1)^neg * mant * 2 ^ scale\<close>.\<close>

definition f32_mant :: "f32 \<Rightarrow> int" where
  "f32_mant x = (if f32_exp x = 0 then f32_frac x else f32_frac x + 2 ^ 23)"

definition f32_scale :: "f32 \<Rightarrow> int" where
  "f32_scale x = (if f32_exp x = 0 then -149 else f32_exp x - 150)"

definition f32_sign_bit :: "bool \<Rightarrow> f32" where
  "f32_sign_bit s = (if s then 0x80000000 else 0)"

definition f32_inf :: "bool \<Rightarrow> f32" where
  "f32_inf s = f32_sign_bit s OR 0x7f800000"

function bit_length :: "int \<Rightarrow> nat" where
  "bit_length n = (if n \<le> 0 then 0 else Suc (bit_length (n div 2)))"
  by pat_completeness auto
termination by (relation "measure nat") auto

declare bit_length.simps [simp del]

definition round_shift :: "int \<Rightarrow> nat \<Rightarrow> int" where
  "round_shift m k =
     (let q = m div 2 ^ k; r = m mod 2 ^ k
      in if 2 * r > 2 ^ k \<or> 2 * r = 2 ^ k \<and> odd q then q + 1 else q)"

text \<open>The binary32 number nearest to \<open>(-1)^s * m * 2 ^ e\<close> for \<open>m > 0\<close>.\<close>

definition f32_round :: "bool \<Rightarrow> int \<Rightarrow> int \<Rightarrow> f32" where
  "f32_round s m e =
     (let k = max (int (bit_length m) - 24) (-149 - e);
          q = (if k \<le> 0 then m * 2 ^ nat (- k) else round_shift m (nat k));
          (q', e') = (if q = 2 ^ 24 then (2 ^ 23, e + k + 1) else (q, e + k))
      in if q' < 2 ^ 23 then f32_sign_bit s OR word_of_int q'
         else if e' + 150 \<ge> 255 then f32_inf s
         else f32_sign_bit s OR push_bit 23 (word_of_int (e' + 150)) OR word_of_int (q' - 2 ^ 23))"

definition f32_mul :: "f32 \<Rightarrow> f32 \<Rightarrow> f32" where
  "f32_mul x y =
     (let s = (f32_neg x \<noteq> f32_neg y); zx = f32_mant x = 0; zy = f32_mant y = 0
      in if f32_is_nan x \<or> f32_is_nan y then f32_nan
         else if f32_is_inf x \<or> f32_is_inf y
         then (if \<not> f32_is_inf x \<and> zx \<or> \<not> f32_is_inf y \<and> zy then f32_nan else f32_inf s)
         else if zx \<or> zy then f32_sign_bit s
         else f32_round s (f32_mant x * f32_mant y) (f32_scale x + f32_scale y))"

definition f32_add :: "f32 \<Rightarrow> f32 \<Rightarrow> f32" where
  "f32_add x y =
     (if f32_is_nan x \<or> f32_is_nan y then f32_nan
      else if f32_is_inf x then (if f32_is_inf y \<and> f32_neg x \<noteq> f32_neg y then f32_nan else x)
      else if f32_is_inf y then y
      else let e = min (f32_scale x) (f32_scale y);
               v = (\<lambda>z. (if f32_neg z then -1 else 1) * f32_mant z * 2 ^ nat (f32_scale z - e));
               n = v x + v y
           in if f32_mant x = 0 \<and> f32_mant y = 0 then f32_sign_bit (f32_neg x \<and> f32_neg y)
              else if n = 0 then 0
              else f32_round (n < 0) \<bar>n\<bar> e)"

definition f32_neg_of :: "f32 \<Rightarrow> f32" where
  "f32_neg_of x = x XOR 0x80000000"

definition f32_sub :: "f32 \<Rightarrow> f32 \<Rightarrow> f32" where
  "f32_sub x y = f32_add x (f32_neg_of y)"

definition f32_abs :: "f32 \<Rightarrow> f32" where
  "f32_abs x = x AND 0x7fffffff"

text \<open>\<open>x < y\<close>: the magnitudes are ordered like their bit patterns.\<close>

definition f32_less :: "f32 \<Rightarrow> f32 \<Rightarrow> bool" where
  "f32_less x y \<longleftrightarrow> \<not> f32_is_nan x \<and> \<not> f32_is_nan y \<and>
     (let ax = f32_abs x; ay = f32_abs y
      in if ax = 0 \<and> ay = 0 then False
         else if f32_neg x then (if f32_neg y then ay < ax else True)
         else (if f32_neg y then False else ax < ay))"

text \<open>\<open>std::max(a, b)\<close>: \<open>(a < b) ? b : a\<close>.\<close>

definition f32_max :: "f32 \<Rightarrow> f32 \<Rightarrow> f32" where
  "f32_max a b = (if f32_less a b then b else a)"

text \<open>Reference values.\<close>

lemma f32_reference:
  "f32_add 0x3f800000 0x40000000 = 0x40400000"
  "f32_mul 0x3fc00000 0xc0000000 = 0xc0400000"
  "f32_add 0x4b800000 0x3f800000 = 0x4b800000"
  "f32_add 0x4b800001 0x3f800000 = 0x4b800002"
  "f32_mul 0x00800000 0x3f000000 = 0x00400000"
  "f32_mul 0x7f000000 0x40000000 = 0x7f800000"
  by code_simp+

section \<open>Bits of the patterns\<close>

lemma len_f32: "LENGTH(32) = 32"
  by simp

lemma bit_single:
  fixes n :: nat
  shows "bit (0x8000 :: f32) n \<longleftrightarrow> n = 15" "bit (0x400 :: f32) n \<longleftrightarrow> n = 10" "bit (0x800000 :: f32) n \<longleftrightarrow> n = 23"
    "bit (0x400000 :: f32) n \<longleftrightarrow> n = 22"
proof -
  have "(0x8000 :: f32) = 2 ^ 15" "(0x400 :: f32) = 2 ^ 10" "(0x800000 :: f32) = 2 ^ 23" "(0x400000 :: f32) = 2 ^ 22"
    by simp_all
  then show "bit (0x8000 :: f32) n \<longleftrightarrow> n = 15" "bit (0x400 :: f32) n \<longleftrightarrow> n = 10"
    "bit (0x800000 :: f32) n \<longleftrightarrow> n = 23" "bit (0x400000 :: f32) n \<longleftrightarrow> n = 22"
    by (auto simp only: bit_exp_iff possible_bit_word len_f32)
qed

lemma bit_mask_numeral:
  fixes n :: nat
  shows "bit (0xff :: f32) n \<longleftrightarrow> n < 8" "bit (0x7fffff :: f32) n \<longleftrightarrow> n < 23" "bit (0x7fffffff :: f32) n \<longleftrightarrow> n < 31"
    "bit (0x3ff :: f32) n \<longleftrightarrow> n < 10" "bit (0x7c00 :: f32) n \<longleftrightarrow> 10 \<le> n \<and> n < 15" "bit (0x1f :: f32) n \<longleftrightarrow> n < 5"
    "bit (0x7f800000 :: f32) n \<longleftrightarrow> 23 \<le> n \<and> n < 31"
proof -
  have m: "(0xff :: f32) = mask 8" "(0x7fffff :: f32) = mask 23" "(0x7fffffff :: f32) = mask 31"
    "(0x3ff :: f32) = mask 10" "(0x7c00 :: f32) = push_bit 10 (mask 5)" "(0x1f :: f32) = mask 5"
    "(0x7f800000 :: f32) = push_bit 23 (mask 8)"
    by (simp_all add: mask_eq_exp_minus_1 push_bit_eq_mult)
  show "bit (0xff :: f32) n \<longleftrightarrow> n < 8" "bit (0x7fffff :: f32) n \<longleftrightarrow> n < 23" "bit (0x7fffffff :: f32) n \<longleftrightarrow> n < 31"
    "bit (0x3ff :: f32) n \<longleftrightarrow> n < 10" "bit (0x7c00 :: f32) n \<longleftrightarrow> 10 \<le> n \<and> n < 15" "bit (0x1f :: f32) n \<longleftrightarrow> n < 5"
    "bit (0x7f800000 :: f32) n \<longleftrightarrow> 23 \<le> n \<and> n < 31"
    unfolding m by (auto simp only: bit_mask_iff possible_bit_word bit_push_bit_iff len_f32)
qed

lemma bit16:
  fixes n :: nat
  shows "bit (0x7c00 :: fp16) n \<longleftrightarrow> 10 \<le> n \<and> n < 15" "bit (0x3ff :: fp16) n \<longleftrightarrow> n < 10"
    "bit (0x8000 :: fp16) n \<longleftrightarrow> n = 15"
proof -
  have l: "LENGTH(16) = 16" by simp
  have m: "(0x7c00 :: fp16) = push_bit 10 (mask 5)" "(0x3ff :: fp16) = mask 10" "(0x8000 :: fp16) = 2 ^ 15"
    by (simp_all add: mask_eq_exp_minus_1 push_bit_eq_mult)
  show "bit (0x7c00 :: fp16) n \<longleftrightarrow> 10 \<le> n \<and> n < 15" "bit (0x3ff :: fp16) n \<longleftrightarrow> n < 10"
    "bit (0x8000 :: fp16) n \<longleftrightarrow> n = 15"
    unfolding m by (auto simp only: bit_mask_iff possible_bit_word bit_push_bit_iff bit_exp_iff l)
qed

definition in_bits :: "nat \<Rightarrow> nat \<Rightarrow> 'a::len word \<Rightarrow> bool" where
  "in_bits lo hi w \<longleftrightarrow> (\<forall>n. bit w n \<longrightarrow> lo \<le> n \<and> n < hi)"

lemma f32_fields:
  fixes sgn e m :: f32
  assumes "in_bits 31 32 sgn" "in_bits 0 8 e" "in_bits 0 23 m"
  defines "x \<equiv> sgn OR push_bit 23 e OR m"
  shows "drop_bit 23 x AND 0xff = e" "x AND 0x7fffff = m" "drop_bit 16 x AND 0x8000 = drop_bit 16 sgn"
    "x AND 0x7fffffff = push_bit 23 e OR m"
proof -
  note b = assms(1-3) [unfolded in_bits_def]
  show "drop_bit 23 x AND 0xff = e"
    unfolding x_def by (rule bit_word_eqI) (use b in \<open>auto simp: bit_simps bit_single bit_mask_numeral simp del: bit_numeral_word_iff\<close>)
  show "x AND 0x7fffff = m"
    unfolding x_def by (rule bit_word_eqI) (use b in \<open>auto simp: bit_simps bit_single bit_mask_numeral simp del: bit_numeral_word_iff\<close>)
  show "drop_bit 16 x AND 0x8000 = drop_bit 16 sgn"
    unfolding x_def by (rule bit_word_eqI) (use b in \<open>auto simp: bit_simps bit_single bit_mask_numeral simp del: bit_numeral_word_iff\<close>)
  show "x AND 0x7fffffff = push_bit 23 e OR m"
    unfolding x_def by (rule bit_word_eqI) (use b in \<open>auto simp: bit_simps bit_single bit_mask_numeral simp del: bit_numeral_word_iff\<close>)
qed

text \<open>The fields of a half-precision pattern.\<close>

lemma in_bits_small: "unat (w :: 'a::len word) < 2 ^ k \<Longrightarrow> in_bits 0 k w"
proof -
  assume w: "unat w < 2 ^ k"
  have "take_bit k w = w"
    unfolding word_unat_eq_iff unsigned_take_bit_eq using w by (simp add: take_bit_nat_eq_self_iff)
  then show ?thesis unfolding in_bits_def by (metis bit_take_bit_iff le0)
qed

lemma fp16_of_f32_fields:
  fixes sgn e m :: f32
  assumes "in_bits 31 32 sgn" "in_bits 0 8 e" "in_bits 0 23 m"
  shows "fp16_of_f32 (sgn OR push_bit 23 e OR m) =
    (let s = drop_bit 16 sgn; ex = sint (e - 127 + 15)
     in if e = 0 \<and> m = 0 then ucast s
        else if e = 0xff then ucast (s OR 0x7c00 OR (if m \<noteq> 0 then 1 else 0))
        else if ex \<ge> 31 then ucast (s OR 0x7c00)
        else if ex \<le> 0 then
          (if ex < -10 then ucast s
           else ucast (s OR drop_bit 13 (drop_bit (nat (1 - ex)) (m OR 0x800000))))
        else ucast (s OR push_bit 10 (word_of_int ex) OR drop_bit 13 m))"
proof -
  have "push_bit 23 e OR m = 0 \<longleftrightarrow> e = 0 \<and> m = 0"
  proof
    assume z: "push_bit 23 e OR m = 0"
    have "bit e n = False" "bit m n = False" for n
      using arg_cong [OF z, of "\<lambda>w. bit w (23 + n)"] arg_cong [OF z, of "\<lambda>w. bit w n"] assms(2,3)
      by (auto simp: bit_simps in_bits_def)
    then show "e = 0 \<and> m = 0" by (auto intro: bit_word_eqI)
  qed simp
  then show ?thesis unfolding fp16_of_f32_def f32_fields [OF assms] Let_def by simp
qed

lemma and_400_iff: "(f :: f32) AND 0x400 = 0 \<longleftrightarrow> \<not> bit f 10"
proof -
  have "bit (f AND 0x400) n \<longleftrightarrow> n = 10 \<and> bit f 10" for n
    by (auto simp: bit_and_iff bit_single simp del: bit_numeral_word_iff)
  then show ?thesis by (metis bit_0_eq bot_apply bit_eqI bot_bool_def)
qed

lemma normalize_frac_eq:
  "bit f (10 - j) \<Longrightarrow> \<forall>n. bit f n \<longrightarrow> n \<le> 10 - j \<Longrightarrow> j \<le> 10 \<Longrightarrow>
     normalize_frac f ex = (push_bit j f, ex - int j)"
proof (induction j arbitrary: f ex)
  case 0
  then show ?case by (simp add: normalize_frac_def while_unfold and_400_iff)
next
  case (Suc j)
  have n10: "\<not> bit f 10" using Suc.prems(2,3) by (metis Suc_le_mono diff_less le_0_eq not_less not_less_eq_eq
        numeral_eq_Suc zero_less_Suc zero_less_numeral)
  have "normalize_frac f ex = normalize_frac (push_bit 1 f) (ex - 1)"
    unfolding normalize_frac_def by (subst while_unfold) (simp add: n10 and_400_iff)
  also have "\<dots> = (push_bit j (push_bit 1 f), ex - 1 - int j)"
  proof (rule Suc.IH)
    have "10 - j = Suc (10 - Suc j)" using Suc.prems(3) by simp
    then show "bit (push_bit 1 f) (10 - j)" "\<forall>n. bit (push_bit 1 f) n \<longrightarrow> n \<le> 10 - j"
      unfolding bit_push_bit_iff possible_bit_word using Suc.prems by auto
  qed (use Suc.prems(3) in simp)
  finally show ?case by (simp add: push_bit_push_bit)
qed

definition f16_is_nan :: "fp16 \<Rightarrow> bool" where
  "f16_is_nan v \<longleftrightarrow> v AND 0x7c00 = 0x7c00 \<and> v AND 0x3ff \<noteq> 0"

lemma unat_in_bits:
  assumes "in_bits 0 k (w :: 'a::len word)" shows "unat w < 2 ^ k"
proof -
  have "take_bit k w = w"
    by (rule bit_word_eqI) (use assms in \<open>auto simp: bit_simps in_bits_def\<close>)
  then have "unat w = take_bit k (unat w)" by (metis unsigned_take_bit_eq)
  then show ?thesis by (metis take_bit_nat_less_exp)
qed

lemma highest_bit:
  assumes "in_bits 0 k (w :: 'a::len word)" "w \<noteq> 0"
  obtains h where "h < k" "bit w h" "\<forall>n. bit w n \<longrightarrow> n \<le> h"
proof -
  let ?S = "{n. bit w n}"
  have "?S \<subseteq> {..<k}" using assms(1) by (auto simp: in_bits_def)
  then have fin: "finite ?S" using finite_subset by blast
  have ne: "?S \<noteq> {}" using assms(2) by (metis (mono_tags, lifting) Collect_empty_eq bit_eqI bit_0_eq bot_apply bot_bool_def)
  from Max_in [OF fin ne] Max_ge [OF fin] \<open>?S \<subseteq> {..<k}\<close> that show ?thesis by blast
qed

text \<open>Widening, by fields.\<close>

definition f16_widen :: "f32 \<Rightarrow> f32 \<Rightarrow> f32 \<Rightarrow> f32" where
  "f16_widen s e f = (if e = 0 then
           (if f = 0 then push_bit 16 s
            else let (g, x) = normalize_frac f (127 - 14)
                 in push_bit 16 s OR push_bit 23 (word_of_int x) OR push_bit 13 (g AND 0x3ff))
         else if e = 0x1f then push_bit 16 s OR 0x7f800000 OR (if f \<noteq> 0 then 0x400000 else 0)
         else push_bit 16 s OR push_bit 23 (e + 127 - 15) OR push_bit 13 f)"

lemma fp16_split:
  obtains s e f :: f32 where "v = ucast (s OR push_bit 10 e OR f)" "in_bits 15 16 s" "in_bits 0 5 e"
    "in_bits 0 10 f" "f32_of_fp16 v = f16_widen s e f" "f16_is_nan v \<longleftrightarrow> e = 0x1f \<and> f \<noteq> 0"
    "ucast s = v AND 0x8000"
proof -
  define w where "w = (ucast v :: f32)"
  define s where "s = w AND 0x8000"
  define e where "e = drop_bit 10 (w AND 0x7c00)"
  define f where "f = w AND 0x3ff"
  have wb: "bit w n \<longleftrightarrow> bit v n" for n
    by (auto simp: w_def bit_simps dest: bit_imp_le_length)
  have sb: "bit s n \<longleftrightarrow> n = 15 \<and> bit v 15" for n
    by (auto simp: s_def bit_simps bit_single wb simp del: bit_numeral_word_iff)
  have eb: "bit e n \<longleftrightarrow> n < 5 \<and> bit v (10 + n)" for n
    by (auto simp: e_def bit_simps bit_mask_numeral wb simp del: bit_numeral_word_iff)
  have fb: "bit f n \<longleftrightarrow> n < 10 \<and> bit v n" for n
    by (auto simp: f_def bit_simps bit_mask_numeral wb simp del: bit_numeral_word_iff)
  have vbits: "v = ucast (s OR push_bit 10 e OR f)"
  proof (rule bit_word_eqI)
    fix n assume "n < LENGTH(16)"
    then have n: "n < 16" by simp
    consider "n < 10" | "10 \<le> n" "n < 15" | "n = 15" using n by linarith
    then show "bit v n = bit (ucast (s OR push_bit 10 e OR f) :: fp16) n"
      using n by cases (auto simp: bit_simps sb eb fb)
  qed
  have e31: "e = 0x1f \<longleftrightarrow> v AND 0x7c00 = 0x7c00"
  proof -
    have "e = 0x1f \<longleftrightarrow> (\<forall>n < 5. bit v (10 + n))"
    proof -
      have "e = 0x1f \<longleftrightarrow> (\<forall>n. bit e n \<longleftrightarrow> n < 5)" by (metis bit_mask_numeral(6) bit_eqI)
      then show ?thesis unfolding eb by blast
    qed
    moreover have "v AND 0x7c00 = 0x7c00 \<longleftrightarrow> (\<forall>n. 10 \<le> n \<and> n < 15 \<longrightarrow> bit v n)"
    proof -
      have "v AND 0x7c00 = 0x7c00 \<longleftrightarrow> (\<forall>n. bit (v AND 0x7c00) n \<longleftrightarrow> 10 \<le> n \<and> n < 15)"
        by (metis bit16(1) bit_eqI)
      then show ?thesis unfolding bit_and_iff bit16 by blast
    qed
    moreover have "(\<forall>n < 5. bit v (10 + n)) \<longleftrightarrow> (\<forall>n. 10 \<le> n \<and> n < 15 \<longrightarrow> bit v n)"
      by (auto dest: le_Suc_ex)
    ultimately show ?thesis by blast
  qed
  have f0: "f = 0 \<longleftrightarrow> v AND 0x3ff = 0"
  proof -
    have "f = 0 \<longleftrightarrow> (\<forall>n. \<not> bit f n)" "v AND 0x3ff = 0 \<longleftrightarrow> (\<forall>n. \<not> bit (v AND 0x3ff) n)"
      by (metis bit_0_eq bit_eqI bot_apply bot_bool_def)+
    then show ?thesis unfolding bit_and_iff bit16 fb by blast
  qed
  have su: "ucast s = v AND 0x8000"
    by (rule bit_word_eqI) (auto simp: bit_simps sb bit16 simp del: bit_numeral_word_iff)
  have "f32_of_fp16 v = f16_widen s e f"
    by (simp only: f32_of_fp16_def f16_widen_def Let_def w_def [symmetric] s_def [symmetric]
        e_def [symmetric] f_def [symmetric])
  with vbits su e31 f0 show ?thesis
    by (intro that [of s e f]) (auto simp: in_bits_def sb eb fb f16_is_nan_def)
qed

lemma sign_shift:
  assumes "in_bits 15 16 (s :: f32)"
  shows "in_bits 31 32 (push_bit 16 s)" "drop_bit 16 (push_bit 16 s) = s"
proof -
  have b: "bit s n \<Longrightarrow> n = 15" for n using assms unfolding in_bits_def by (metis Suc_leI le_antisym less_Suc_eq_le numeral_eq_Suc pred_numeral_simps(2) pred_numeral_simps(3) semiring_norm(26) semiring_norm(27) semiring_norm(28))
  show "in_bits 31 32 (push_bit 16 s)" by (auto simp: in_bits_def bit_simps dest: b)
  show "drop_bit 16 (push_bit 16 s) = s"
    by (rule bit_word_eqI) (auto simp: bit_simps dest: b)
qed

lemma frac_shift:
  assumes "in_bits 0 10 (f :: f32)"
  shows "in_bits 0 23 (push_bit 13 f)" "drop_bit 13 (push_bit 13 f) = f"
proof -
  have b: "bit f n \<Longrightarrow> n < 10" for n using assms by (auto simp: in_bits_def)
  show "in_bits 0 23 (push_bit 13 f)" by (auto simp: in_bits_def bit_simps dest: b)
  show "drop_bit 13 (push_bit 13 f) = f"
    by (rule bit_word_eqI) (auto simp: bit_simps dest: b)
qed

lemma widen_zero:
  assumes "in_bits 15 16 s"
  shows "fp16_of_f32 (f16_widen s 0 0) = ucast s"
proof -
  have "in_bits 0 8 (0 :: f32)" "in_bits 0 23 (0 :: f32)" by (simp_all add: in_bits_def)
  then show ?thesis
    using fp16_of_f32_fields [OF sign_shift(1) [OF assms], of 0 0]
    by (simp add: sign_shift [OF assms] f16_widen_def)
qed

lemma widen_special:
  assumes "in_bits 15 16 s"
  shows "fp16_of_f32 (f16_widen s 0x1f f) = ucast (s OR 0x7c00 OR (if f \<noteq> 0 then 1 else 0))"
proof -
  define m where "m = (if f \<noteq> 0 then 0x400000 else 0 :: f32)"
  have "f16_widen s 0x1f f = push_bit 16 s OR push_bit 23 0xff OR m"
    by (simp add: f16_widen_def m_def push_bit_eq_mult)
  moreover have "in_bits 0 8 (0xff :: f32)" "in_bits 0 23 m"
    by (auto simp: in_bits_def m_def bit_mask_numeral bit_single simp del: bit_numeral_word_iff)
  ultimately show ?thesis
    using fp16_of_f32_fields [OF sign_shift(1) [OF assms], of "0xff" m]
    by (simp add: sign_shift [OF assms] m_def)
qed

lemma widen_normal:
  assumes "in_bits 15 16 s" "in_bits 0 5 e" "in_bits 0 10 f" and normal: "e \<noteq> 0" "e \<noteq> 0x1f"
  shows "fp16_of_f32 (f16_widen s e f) = ucast (s OR push_bit 10 e OR f)"
proof -
  note sin = sign_shift(1) [OF assms(1)] and s16 = sign_shift(2) [OF assms(1)]
    and fin = frac_shift(1) [OF assms(3)] and fdrop = frac_shift(2) [OF assms(3)]
  have ue: "unat e < 32" using unat_in_bits [OF assms(2)] by simp
  have ue0: "0 < unat e" "unat e \<noteq> 31" using normal by (simp_all add: word_unat_eq_iff)
  define x where "x = e + 127 - 15"
  have ux: "unat x = unat e + 112"
    using ue by (simp add: x_def unat_word_ariths word_unat_eq_iff unat_plus_simple)
  have "in_bits 0 8 x" by (rule in_bits_small) (use ue ux in simp)
  have xe: "x - 127 + 15 = e" by (simp add: x_def)
  have "uint e < 32" using ue uint_nat [of e] by linarith
  then have "- (2 ^ 31) \<le> uint e" "uint e < 2 ^ 31"
    by (auto intro: order_trans [OF _ unsigned_greater_eq])
  then have "signed_take_bit 31 (uint e) = uint e" by (rule signed_take_bit_int_eq_self)
  then have se: "sint e = uint e" by (simp add: sint_uint)
  have k: "0 < uint e" "uint e < 31" using ue ue0 uint_nat [of e] by linarith+
  have "x \<noteq> 0xff" "x \<noteq> 0" using ux ue by auto
  have "f16_widen s e f = push_bit 16 s OR push_bit 23 x OR push_bit 13 f"
    by (simp add: f16_widen_def normal x_def)
  moreover have "(word_of_int (uint e) :: f32) = e" by simp
  ultimately show "fp16_of_f32 (f16_widen s e f) = ucast (s OR push_bit 10 e OR f)"
    using k \<open>x \<noteq> 0xff\<close> \<open>x \<noteq> 0\<close> fp16_of_f32_fields [OF sin \<open>in_bits 0 8 x\<close> fin]
    by (simp add: Let_def s16 fdrop xe se)
qed

lemma widen_subnormal:
  assumes "in_bits 15 16 s" "in_bits 0 10 f" and sub: "f \<noteq> 0"
  shows "fp16_of_f32 (f16_widen s 0 f) = ucast (s OR f)"
proof -
  note sin = sign_shift(1) [OF assms(1)] and s16 = sign_shift(2) [OF assms(1)]
  have fb: "bit f n \<Longrightarrow> n < 10" for n using assms(2) by (auto simp: in_bits_def)
  from highest_bit [OF assms(2) sub] obtain h where h: "h < 10" "bit f h" "\<forall>n. bit f n \<longrightarrow> n \<le> h" by blast
  define j where "j = 10 - h"
  have j: "10 - j = h" "1 \<le> j" "j \<le> 10" using h(1) by (auto simp: j_def)
  have nf: "normalize_frac f 113 = (push_bit j f, 113 - int j)"
    using normalize_frac_eq [of f j 113] h j by simp
  define x where "x = (word_of_int (113 - int j) :: f32)"
  define m where "m = push_bit 13 (push_bit j f AND 0x3ff)"
  have "x = word_of_nat (113 - j)" using j(3) by (simp add: x_def of_nat_diff)
  then have ux: "unat x = 113 - j" by (simp add: unsigned_of_nat take_bit_nat_eq_self)
  have xin: "in_bits 0 8 x" by (rule in_bits_small) (use ux in simp)
  have mb: "bit m n \<longleftrightarrow> 13 + j \<le> n \<and> n < 23 \<and> bit f (n - 13 - j)" for n
    unfolding m_def bit_push_bit_iff bit_and_iff bit_mask_numeral possible_bit_word by auto
  have minm: "in_bits 0 23 m" by (simp add: mb in_bits_def)
  have "f16_widen s 0 f = push_bit 16 s OR push_bit 23 x OR m"
    using nf by (simp add: f16_widen_def sub x_def m_def)
  moreover have "sint (x - 127 + 15) = 1 - int j"
  proof -
    have "x - 127 + 15 = word_of_int (1 - int j)" by (simp add: x_def)
    moreover have "sint (word_of_int (1 - int j) :: f32) = 1 - int j"
      unfolding signed_of_int of_int_eq_id id_apply
      by (rule signed_take_bit_int_eq_self) (use j in auto)
    ultimately show ?thesis by (simp only:)
  qed
  moreover have "x \<noteq> 0" "x \<noteq> 0xff" using ux j by auto
  moreover have "drop_bit 13 (drop_bit j (m OR 0x800000)) = f"
  proof (rule bit_word_eqI)
    fix n assume "n < LENGTH(32)"
    have "bit (drop_bit 13 (drop_bit j (m OR 0x800000))) n \<longleftrightarrow> bit m (n + 13 + j) \<or> n + j = 10"
      by (auto simp: bit_drop_bit_eq bit_or_iff bit_single add.commute add.left_commute
          simp del: bit_numeral_word_iff)
    also have "\<dots> \<longleftrightarrow> n + j < 10 \<and> bit f n \<or> n = h"
      using j h(1) by (auto simp: mb)
    also have "\<dots> \<longleftrightarrow> bit f n" using h j(1) by (auto simp: j_def)
    finally show "bit (drop_bit 13 (drop_bit j (m OR 0x800000))) n = bit f n" .
  qed
  ultimately show "fp16_of_f32 (f16_widen s 0 f) = ucast (s OR f)"
    using fp16_of_f32_fields [OF sin xin minm] j by (simp add: s16 Let_def)
qed

text \<open>C29: widening a half-precision number to \<open>float\<close> and narrowing it again gives the number back,
  for every one of the 65536 patterns, signed zeros, subnormals and infinities included; a \<open>NaN\<close>
  keeps its sign and comes back with the payload 1.\<close>

theorem fp16_round_trip:
  "fp16_of_f32 (f32_of_fp16 v) = (if f16_is_nan v then (v AND 0x8000) OR 0x7c01 else v)"
proof (rule fp16_split [of v])
  fix s e f :: f32
  assume v: "v = ucast (s OR push_bit 10 e OR f)" "in_bits 15 16 s" "in_bits 0 5 e" "in_bits 0 10 f"
    "f32_of_fp16 v = f16_widen s e f" "f16_is_nan v \<longleftrightarrow> e = 0x1f \<and> f \<noteq> 0" "ucast s = v AND 0x8000"
  consider "e = 0" "f = 0" | "e = 0" "f \<noteq> 0" | "e = 0x1f" | "e \<noteq> 0" "e \<noteq> 0x1f" by blast
  then show ?thesis
  proof cases
    case 1
    with v widen_zero [OF v(2)] show ?thesis by simp
  next
    case 2
    with v widen_subnormal [OF v(2,4)] show ?thesis by simp
  next
    case 3
    have "ucast (s OR 0x7c00 OR 1) = (v AND 0x8000) OR 0x7c01" by (simp add: unsigned_or_eq v(7))
    moreover have "ucast (s OR 0x7c00) = v" if "f = 0" using v(1) that 3 by (simp add: push_bit_eq_mult)
    ultimately show ?thesis using v(5,6) 3 widen_special [OF v(2), of f] by auto
  next
    case 4
    with v widen_normal [OF v(2-4)] show ?thesis by auto
  qed
qed

end
