(* ===== verification/Golden_Model.thy ===== *)
theory Golden_Model
  imports Half_Float
begin

text \<open>
  The golden model of the attention kernel (\<open>src/golden/elemax_sdpa.cpp\<close>) and the tensor utilities
  (\<open>tensor_utils.cpp\<close>), bit exact on half- and single-precision patterns. \<open>esef_out\<close> is the
  specification both the golden model and the simulated hardware are proved to compute.
\<close>

section \<open>The specification\<close>

text \<open>One token: \<open>Q K\<close> row by row in single precision, narrowed; ReLU and mask; the mask-skipping
  product with \<open>V\<close>. The order of the additions is part of it.\<close>

definition esef_score :: "nat \<Rightarrow> (nat \<Rightarrow> fp16) \<Rightarrow> (nat \<Rightarrow> nat \<Rightarrow> fp16) \<Rightarrow> nat \<Rightarrow> fp16" where
  "esef_score D q k sk = fp16_of_f32 (fold (\<lambda>d acc.
     f32_add acc (f32_mul (f32_of_fp16 (q d)) (f32_of_fp16 (k sk d)))) [0..<D] 0)"

definition relu_of :: "fp16 \<Rightarrow> f32" where
  "relu_of s = f32_max 0 (f32_of_fp16 s)"

definition mask_of :: "fp16 \<Rightarrow> bool" where
  "mask_of s = f32_less 0 (relu_of s)"

definition prob_of :: "fp16 \<Rightarrow> fp16 \<Rightarrow> fp16" where
  "prob_of we s = fp16_of_f32 (f32_mul (f32_of_fp16 we) (relu_of s))"

definition esef_out ::
  "nat \<Rightarrow> nat \<Rightarrow> (nat \<Rightarrow> fp16) \<Rightarrow> (nat \<Rightarrow> nat \<Rightarrow> fp16) \<Rightarrow> (nat \<Rightarrow> nat \<Rightarrow> fp16) \<Rightarrow> fp16 \<Rightarrow> nat \<Rightarrow> f32" where
  "esef_out S D q k v we d = fold (\<lambda>sk acc.
     let s = esef_score D q k sk
     in if mask_of s
        then f32_add acc (f32_mul (f32_of_fp16 (prob_of we s)) (f32_of_fp16 (v sk d)))
        else acc) [0..<S] 0"

section \<open>The golden model\<close>

record golden =
  gm_batch :: nat
  gm_num_heads :: nat
  gm_num_kv_heads :: nat
  gm_seq_len :: nat
  gm_d_head :: nat
  gm_S :: "fp16 list"
  gm_bitmask :: "bool list"
  gm_P :: "fp16 list"

definition golden_new :: "nat \<Rightarrow> nat \<Rightarrow> nat \<Rightarrow> nat \<Rightarrow> nat \<Rightarrow> golden" where
  "golden_new batch heads kv_heads seq d =
     (let n = batch * heads * seq * seq
      in \<lparr>gm_batch = batch, gm_num_heads = heads, gm_num_kv_heads = kv_heads, gm_seq_len = seq,
          gm_d_head = d, gm_S = replicate n 0, gm_bitmask = replicate n False, gm_P = replicate n 0\<rparr>)"

definition rd :: "'a list \<Rightarrow> nat \<Rightarrow> 'a option" where
  "rd xs i = vec_at xs (int i)"

definition wr :: "'a list \<Rightarrow> nat \<Rightarrow> 'a \<Rightarrow> 'a list option" where
  "wr xs i x = vec_set xs (int i) x"

lemma rd_Some [simp]: "i < length xs \<Longrightarrow> rd xs i = Some (xs ! i)"
  by (simp add: rd_def vec_at_def)

lemma wr_Some [simp]: "i < length xs \<Longrightarrow> wr xs i x = Some (xs[i := x])"
  by (simp add: wr_def vec_set_def)

text \<open>The index computations of \<open>compute\<close>.\<close>

definition q_index :: "golden \<Rightarrow> nat \<Rightarrow> nat \<Rightarrow> nat \<Rightarrow> nat" where
  "q_index g b h sq = b * (gm_num_heads g * gm_seq_len g * gm_d_head g) +
     h * (gm_seq_len g * gm_d_head g) + sq * gm_d_head g"

definition kv_index :: "golden \<Rightarrow> nat \<Rightarrow> nat \<Rightarrow> nat \<Rightarrow> nat" where
  "kv_index g b kv_h sk = b * (gm_num_kv_heads g * gm_seq_len g * gm_d_head g) +
     kv_h * (gm_seq_len g * gm_d_head g) + sk * gm_d_head g"

definition s_index :: "golden \<Rightarrow> nat \<Rightarrow> nat \<Rightarrow> nat \<Rightarrow> nat \<Rightarrow> nat" where
  "s_index g b h sq sk = b * (gm_num_heads g * gm_seq_len g * gm_seq_len g) +
     h * (gm_seq_len g * gm_seq_len g) + sq * gm_seq_len g + sk"

definition we_index :: "golden \<Rightarrow> nat \<Rightarrow> nat \<Rightarrow> nat \<Rightarrow> nat" where
  "we_index g b h sq = b * (gm_num_heads g * gm_seq_len g) + h * gm_seq_len g + sq"

definition golden_score ::
  "fp16 list \<Rightarrow> fp16 list \<Rightarrow> fp16 list \<Rightarrow> nat \<Rightarrow> nat \<Rightarrow> nat \<Rightarrow> nat \<Rightarrow> golden \<Rightarrow> nat \<Rightarrow> golden option" where
  "golden_score q k we b h kv_h sq g sk = do {
     score \<leftarrow> foldlM (\<lambda>acc d. do {
         qx \<leftarrow> rd q (q_index g b h sq + d);
         kx \<leftarrow> rd k (kv_index g b kv_h sk + d);
         Some (f32_add acc (f32_mul (f32_of_fp16 qx) (f32_of_fp16 kx))) }) 0 [0..<gm_d_head g];
     let s = fp16_of_f32 score;
     let i = s_index g b h sq sk;
     let relu_s = f32_max 0 (f32_of_fp16 s);
     S \<leftarrow> wr (gm_S g) i s;
     B \<leftarrow> wr (gm_bitmask g) i (f32_less 0 relu_s);
     w \<leftarrow> rd we (we_index g b h sq);
     P \<leftarrow> wr (gm_P g) i (fp16_of_f32 (f32_mul (f32_of_fp16 w) relu_s));
     Some (g\<lparr>gm_S := S, gm_bitmask := B, gm_P := P\<rparr>) }"

definition golden_pv ::
  "fp16 list \<Rightarrow> nat \<Rightarrow> nat \<Rightarrow> nat \<Rightarrow> nat \<Rightarrow> golden \<Rightarrow> f32 list \<Rightarrow> nat \<Rightarrow> f32 list option" where
  "golden_pv v b h kv_h sq g out d = do {
     acc \<leftarrow> foldlM (\<lambda>acc sk. do {
         m \<leftarrow> rd (gm_bitmask g) (s_index g b h sq sk);
         if m then do {
           p \<leftarrow> rd (gm_P g) (s_index g b h sq sk);
           x \<leftarrow> rd v (kv_index g b kv_h sk + d);
           Some (f32_add acc (f32_mul (f32_of_fp16 p) (f32_of_fp16 x))) }
         else Some acc }) 0 [0..<gm_seq_len g];
     wr out (q_index g b h sq + d) acc }"

definition golden_token ::
  "fp16 list \<Rightarrow> fp16 list \<Rightarrow> fp16 list \<Rightarrow> fp16 list \<Rightarrow> nat \<Rightarrow> nat \<Rightarrow> golden \<times> f32 list \<Rightarrow> nat \<Rightarrow>
     (golden \<times> f32 list) option" where
  "golden_token q k v we b h st sq = do {
     let g = fst st;
     let kv_h = (h * gm_num_kv_heads g) div gm_num_heads g;
     g' \<leftarrow> foldlM (golden_score q k we b h kv_h sq) g [0..<gm_seq_len g];
     out' \<leftarrow> foldlM (golden_pv v b h kv_h sq g') (snd st) [0..<gm_d_head g];
     Some (g', out') }"

definition golden_compute ::
  "fp16 list \<Rightarrow> fp16 list \<Rightarrow> fp16 list \<Rightarrow> fp16 list \<Rightarrow> golden \<Rightarrow> (golden \<times> f32 list) option" where
  "golden_compute q k v we g =
     foldlM (\<lambda>st b. foldlM (\<lambda>st h. foldlM (golden_token q k v we b h) st [0..<gm_seq_len g])
         st [0..<gm_num_heads g])
       (g, replicate (gm_batch g * gm_num_heads g * gm_seq_len g * gm_d_head g) 0) [0..<gm_batch g]"

section \<open>Tensor utilities\<close>

text \<open>
  \<open>gen lo hi i\<close> is the \<open>i\<close>-th number a \<open>uniform_real_distribution(lo, hi)\<close> draws from
  \<open>mt19937(42)\<close>, which the standard leaves to the implementation.
\<close>

type_synonym generator = "f32 \<Rightarrow> f32 \<Rightarrow> nat \<Rightarrow> f32"

definition generate_random_tensor :: "generator \<Rightarrow> nat \<Rightarrow> f32 \<Rightarrow> f32 \<Rightarrow> fp16 list" where
  "generate_random_tensor gen n lo hi = map (\<lambda>i. fp16_of_f32 (gen lo hi i)) [0..<n]"

definition f32_one :: f32 where "f32_one = 0x3f800000"

definition f32_minus_one :: f32 where "f32_minus_one = 0xbf800000"

definition generate_q_tensor :: "generator \<Rightarrow> nat \<Rightarrow> nat \<Rightarrow> nat \<Rightarrow> nat \<Rightarrow> fp16 list" where
  "generate_q_tensor gen batch heads seq d =
     generate_random_tensor gen (batch * heads * seq * d) f32_minus_one f32_one"

definition generate_k_tensor :: "generator \<Rightarrow> nat \<Rightarrow> nat \<Rightarrow> nat \<Rightarrow> nat \<Rightarrow> fp16 list" where
  "generate_k_tensor gen batch kv_heads seq d =
     generate_random_tensor gen (batch * kv_heads * seq * d) f32_minus_one f32_one"

definition generate_v_tensor :: "generator \<Rightarrow> nat \<Rightarrow> nat \<Rightarrow> nat \<Rightarrow> nat \<Rightarrow> fp16 list" where
  "generate_v_tensor gen batch kv_heads seq d =
     generate_random_tensor gen (batch * kv_heads * seq * d) f32_minus_one f32_one"

definition generate_we_tensor :: "generator \<Rightarrow> nat \<Rightarrow> nat \<Rightarrow> nat \<Rightarrow> fp16 list" where
  "generate_we_tensor gen batch heads seq = generate_random_tensor gen (batch * heads * seq) 0 f32_one"

fun tensor_mismatch :: "f32 \<Rightarrow> f32 \<Rightarrow> f32 list \<Rightarrow> f32 list \<Rightarrow> bool" where
  "tensor_mismatch atol rtol (x # xs) (y # ys) =
     (let diff = f32_abs (f32_sub x y)
      in if f32_less atol diff \<and> f32_less (f32_mul rtol (f32_abs y)) diff then True
         else tensor_mismatch atol rtol xs ys)"
| "tensor_mismatch atol rtol _ _ = False"

definition compare_tensors :: "f32 list \<Rightarrow> f32 list \<Rightarrow> f32 \<Rightarrow> f32 \<Rightarrow> bool" where
  "compare_tensors hw gold atol rtol =
     (length hw = length gold \<and> \<not> tensor_mismatch atol rtol hw gold)"

text \<open>the generated key and value tensors are the same. All generators draw from the same seed
  and the same interval, so whatever the generator, \<open>K = V\<close> and \<open>Q\<close> has \<open>K\<close>'s elements in the same
  order: the functional test cannot tell the two tensors apart.\<close>

theorem generated_tensors_coincide:
  "generate_k_tensor gen b kv s d = generate_v_tensor gen b kv s d \<and>
   (\<forall>i < min (length (generate_q_tensor gen b h s d)) (length (generate_k_tensor gen b kv s d)).
      generate_q_tensor gen b h s d ! i = generate_k_tensor gen b kv s d ! i)"
  by (simp add: generate_k_tensor_def generate_v_tensor_def generate_q_tensor_def generate_random_tensor_def)

lemma generated_tensors_coincide_witness:
  "generate_k_tensor (\<lambda>lo hi i. if i = 0 then hi else lo) 1 1 1 2 ! 1 =
   generate_q_tensor (\<lambda>lo hi i. if i = 0 then hi else lo) 1 1 1 2 ! 1"
  using generated_tensors_coincide [of "\<lambda>lo hi i. if i = 0 then hi else lo" 1 1 1 2 1]
  by (simp add: generate_q_tensor_def generate_k_tensor_def generate_random_tensor_def)

lemma f32_sub_nan: "f32_is_nan x \<Longrightarrow> f32_is_nan (f32_abs (f32_sub x y))"
proof -
  assume "f32_is_nan x"
  then have "f32_sub x y = f32_nan" by (simp add: f32_sub_def f32_add_def)
  moreover have "f32_is_nan (f32_abs f32_nan)" by code_simp
  ultimately show ?thesis by simp
qed

lemma f32_less_nan: "f32_is_nan y \<Longrightarrow> \<not> f32_less x y"
  by (simp add: f32_less_def)

text \<open>the comparison accepts \<open>NaN\<close>. A hardware output that consists of \<open>NaN\<close>s passes
  \<open>compare_tensors\<close> against every golden output of its length, for all tolerances, so the reported
  \<open>PASSED\<close> does not exclude a result that is not a number.\<close>

theorem compare_tensors_accepts_nan:
  assumes "length hw = length gold" "\<forall>x \<in> set hw. f32_is_nan x"
  shows "compare_tensors hw gold atol rtol"
proof -
  have "\<not> tensor_mismatch atol rtol hw gold"
    using assms by (induction atol rtol hw gold rule: tensor_mismatch.induct)
      (auto simp: Let_def f32_less_nan f32_sub_nan)
  with assms(1) show ?thesis by (simp add: compare_tensors_def)
qed

lemma compare_tensors_accepts_nan_witness:
  "compare_tensors [f32_nan, f32_nan] [f32_one, 0] 0x3c23d70a 0x3c23d70a"
proof -
  have "f32_is_nan f32_nan" by code_simp
  then show ?thesis by (intro compare_tensors_accepts_nan) simp_all
qed

section \<open>The golden model computes the specification\<close>

definition tensors_ok :: "golden \<Rightarrow> fp16 list \<Rightarrow> fp16 list \<Rightarrow> fp16 list \<Rightarrow> fp16 list \<Rightarrow> bool" where
  "tensors_ok g q k v we \<longleftrightarrow>
     length q = gm_batch g * gm_num_heads g * gm_seq_len g * gm_d_head g \<and>
     length k = gm_batch g * gm_num_kv_heads g * gm_seq_len g * gm_d_head g \<and>
     length v = gm_batch g * gm_num_kv_heads g * gm_seq_len g * gm_d_head g \<and>
     length we = gm_batch g * gm_num_heads g * gm_seq_len g"

definition same_dims :: "golden \<Rightarrow> golden \<Rightarrow> bool" where
  "same_dims g g' \<longleftrightarrow> gm_batch g' = gm_batch g \<and> gm_num_heads g' = gm_num_heads g \<and>
     gm_num_kv_heads g' = gm_num_kv_heads g \<and> gm_seq_len g' = gm_seq_len g \<and> gm_d_head g' = gm_d_head g \<and>
     length (gm_S g') = length (gm_S g) \<and> length (gm_bitmask g') = length (gm_bitmask g) \<and>
     length (gm_P g') = length (gm_P g)"

text \<open>Rows of the flattened tensors, as the loops number them: \<open>(b * H + h) * S + sq\<close>.\<close>

definition tok :: "golden \<Rightarrow> nat \<Rightarrow> nat \<Rightarrow> nat \<Rightarrow> nat" where
  "tok g b h sq = (b * gm_num_heads g + h) * gm_seq_len g + sq"

lemma index2_less: "(a :: nat) < A \<Longrightarrow> i < n \<Longrightarrow> a * n + i < A * n"
  using mult_le_mono1 [of "Suc a" A n] by simp

lemma index2_inj: "(a :: nat) * n + i = b * n + j \<Longrightarrow> i < n \<Longrightarrow> j < n \<Longrightarrow> a = b \<and> i = j"
proof -
  assume eq: "a * n + i = b * n + j" and lt: "i < n" "j < n"
  have "(a * n + i) div n = a" "(b * n + j) div n = b" using lt by simp_all
  with eq have "a = b" by metis
  with eq show ?thesis by simp
qed

lemma q_index_tok: "q_index g b h sq = tok g b h sq * gm_d_head g"
  by (simp add: q_index_def tok_def algebra_simps)

lemma s_index_tok: "s_index g b h sq sk = tok g b h sq * gm_seq_len g + sk"
  by (simp add: s_index_def tok_def algebra_simps)

lemma we_index_tok: "we_index g b h sq = tok g b h sq"
  by (simp add: we_index_def tok_def algebra_simps)

lemma tok_less:
  assumes "b < gm_batch g" "h < gm_num_heads g" "sq < gm_seq_len g"
  shows "tok g b h sq < gm_batch g * gm_num_heads g * gm_seq_len g"
  unfolding tok_def by (intro index2_less assms)

lemma tok_inj:
  assumes "tok g b h sq = tok g b' h' sq'" "h < gm_num_heads g" "h' < gm_num_heads g"
    "sq < gm_seq_len g" "sq' < gm_seq_len g"
  shows "b = b' \<and> h = h' \<and> sq = sq'"
  using assms index2_inj unfolding tok_def by metis

lemma kv_index_less:
  assumes "b < gm_batch g" "kv < gm_num_kv_heads g" "sk < gm_seq_len g" "d < gm_d_head g"
  shows "kv_index g b kv sk + d < gm_batch g * gm_num_kv_heads g * gm_seq_len g * gm_d_head g"
proof -
  have "((b * gm_num_kv_heads g + kv) * gm_seq_len g + sk) * gm_d_head g + d <
      gm_batch g * gm_num_kv_heads g * gm_seq_len g * gm_d_head g"
    by (intro index2_less assms)
  then show ?thesis by (simp add: kv_index_def algebra_simps)
qed

lemma same_dims_index:
  assumes "same_dims g0 g"
  shows "q_index g = q_index g0" "kv_index g = kv_index g0" "s_index g = s_index g0" "we_index g = we_index g0"
    "gm_d_head g = gm_d_head g0" "gm_seq_len g = gm_seq_len g0"
  using assms by (auto simp: same_dims_def q_index_def kv_index_def s_index_def we_index_def fun_eq_iff)

text \<open>The specification for one row of the output.\<close>

definition kv_head :: "golden \<Rightarrow> nat \<Rightarrow> nat" where
  "kv_head g h = (h * gm_num_kv_heads g) div gm_num_heads g"

definition spec_score :: "golden \<Rightarrow> fp16 list \<Rightarrow> fp16 list \<Rightarrow> nat \<Rightarrow> nat \<Rightarrow> nat \<Rightarrow> nat \<Rightarrow> fp16" where
  "spec_score g q k b h sq = esef_score (gm_d_head g) (\<lambda>d. q ! (q_index g b h sq + d))
     (\<lambda>sk d. k ! (kv_index g b (kv_head g h) sk + d))"

definition spec_row ::
  "golden \<Rightarrow> fp16 list \<Rightarrow> fp16 list \<Rightarrow> fp16 list \<Rightarrow> fp16 list \<Rightarrow> nat \<Rightarrow> nat \<Rightarrow> nat \<Rightarrow> nat \<Rightarrow> f32" where
  "spec_row g q k v we b h sq = esef_out (gm_seq_len g) (gm_d_head g) (\<lambda>d. q ! (q_index g b h sq + d))
     (\<lambda>sk d. k ! (kv_index g b (kv_head g h) sk + d)) (\<lambda>sk d. v ! (kv_index g b (kv_head g h) sk + d))
     (we ! we_index g b h sq)"

lemma kv_head_less:
  assumes "h < gm_num_heads g" "0 < gm_num_kv_heads g"
  shows "kv_head g h < gm_num_kv_heads g"
proof -
  have "h * gm_num_kv_heads g < gm_num_kv_heads g * gm_num_heads g"
    using assms by (simp add: mult.commute)
  then show ?thesis using assms(1) by (simp add: kv_head_def div_less_iff_less_mult)
qed

text \<open>The score step of one key.\<close>

lemma golden_score_step:
  assumes "same_dims g0 g" "tensors_ok g0 q k v we" "b < gm_batch g0" "h < gm_num_heads g0"
    and "sq < gm_seq_len g0" "sk < gm_seq_len g0" "0 < gm_num_kv_heads g0"
    and "length (gm_S g0) = gm_batch g0 * gm_num_heads g0 * gm_seq_len g0 * gm_seq_len g0"
    and "length (gm_bitmask g0) = length (gm_S g0)" "length (gm_P g0) = length (gm_S g0)"
  defines "sc \<equiv> spec_score g0 q k b h sq sk" and "i \<equiv> tok g0 b h sq * gm_seq_len g0 + sk"
  shows "golden_score q k we b h (kv_head g0 h) sq g sk = Some (g\<lparr>gm_S := (gm_S g)[i := sc],
    gm_bitmask := (gm_bitmask g)[i := mask_of sc], gm_P := (gm_P g)[i := prob_of (we ! we_index g0 b h sq) sc]\<rparr>)"
proof -
  note dims = same_dims_index [OF assms(1)]
  have T: "tok g0 b h sq < gm_batch g0 * gm_num_heads g0 * gm_seq_len g0" using tok_less assms(3-5) .
  have qr: "rd q (q_index g0 b h sq + d) = Some (q ! (q_index g0 b h sq + d))" if "d < gm_d_head g0" for d
    using assms(2) index2_less [OF T that] by (simp add: tensors_ok_def q_index_tok)
  have kr: "rd k (kv_index g0 b (kv_head g0 h) sk + d) = Some (k ! (kv_index g0 b (kv_head g0 h) sk + d))"
    if "d < gm_d_head g0" for d
    using assms(2) kv_index_less [OF assms(3) kv_head_less [OF assms(4,7)] assms(6) that]
    by (simp add: tensors_ok_def)
  have "foldlM (\<lambda>acc d. do { qx \<leftarrow> rd q (q_index g b h sq + d); kx \<leftarrow> rd k (kv_index g b (kv_head g0 h) sk + d);
      Some (f32_add acc (f32_mul (f32_of_fp16 qx) (f32_of_fp16 kx))) }) 0 [0..<gm_d_head g] =
    Some (fold (\<lambda>d acc. f32_add acc (f32_mul (f32_of_fp16 (q ! (q_index g0 b h sq + d)))
      (f32_of_fp16 (k ! (kv_index g0 b (kv_head g0 h) sk + d))))) [0..<gm_d_head g0] 0)"
    unfolding dims by (rule foldlM_fold) (simp add: qr kr)
  moreover have "i < length (gm_S g)" "i < length (gm_bitmask g)" "i < length (gm_P g)"
    using index2_less [OF T assms(6)] assms(1,8-10) by (simp_all add: i_def same_dims_def)
  moreover have "rd we (we_index g0 b h sq) = Some (we ! we_index g0 b h sq)"
    using assms(2) T by (simp add: tensors_ok_def we_index_tok)
  ultimately show ?thesis
    by (simp add: golden_score_def dims s_index_tok i_def [symmetric] sc_def spec_score_def esef_score_def
        mask_of_def prob_of_def relu_of_def Let_def)
qed

text \<open>What a token needs: sizes, ranges, and the vectors the constructor allocated.\<close>

definition token_ok ::
  "golden \<Rightarrow> fp16 list \<Rightarrow> fp16 list \<Rightarrow> fp16 list \<Rightarrow> fp16 list \<Rightarrow> nat \<Rightarrow> nat \<Rightarrow> nat \<Rightarrow> bool" where
  "token_ok g q k v we b h sq \<longleftrightarrow> tensors_ok g q k v we \<and> b < gm_batch g \<and> h < gm_num_heads g \<and>
     sq < gm_seq_len g \<and> 0 < gm_num_kv_heads g \<and>
     length (gm_S g) = gm_batch g * gm_num_heads g * gm_seq_len g * gm_seq_len g \<and>
     length (gm_bitmask g) = length (gm_S g) \<and> length (gm_P g) = length (gm_S g)"

definition scores_done :: "golden \<Rightarrow> fp16 list \<Rightarrow> fp16 list \<Rightarrow> fp16 list \<Rightarrow> nat \<Rightarrow> nat \<Rightarrow> nat \<Rightarrow> nat \<Rightarrow> golden \<Rightarrow> bool" where
  "scores_done g0 q k we b h sq n g \<longleftrightarrow> same_dims g0 g \<and> (\<forall>sk < n.
     gm_bitmask g ! s_index g0 b h sq sk = mask_of (spec_score g0 q k b h sq sk) \<and>
     gm_P g ! s_index g0 b h sq sk = prob_of (we ! we_index g0 b h sq) (spec_score g0 q k b h sq sk))"

lemma golden_scores:
  assumes ok: "token_ok g0 q k v we b h sq" and "same_dims g0 g"
  shows "\<exists>g'. foldlM (golden_score q k we b h (kv_head g0 h) sq) g [0..<gm_seq_len g0] = Some g' \<and>
    scores_done g0 q k we b h sq (gm_seq_len g0) g'"
proof (rule foldlM_upt)
  show "scores_done g0 q k we b h sq 0 g" using assms(2) by (simp add: scores_done_def)
next
  fix i g1 assume i: "i < gm_seq_len g0" and P: "scores_done g0 q k we b h sq i g1"
  let ?sc = "spec_score g0 q k b h sq i" and ?i = "tok g0 b h sq * gm_seq_len g0 + i"
  let ?g = "g1\<lparr>gm_S := (gm_S g1)[?i := ?sc], gm_bitmask := (gm_bitmask g1)[?i := mask_of ?sc],
    gm_P := (gm_P g1)[?i := prob_of (we ! we_index g0 b h sq) ?sc]\<rparr>"
  have step: "golden_score q k we b h (kv_head g0 h) sq g1 i = Some ?g"
    using golden_score_step [of g0 g1 q k v we b h sq i] ok P i by (simp add: token_ok_def scores_done_def)
  have sd: "same_dims g0 ?g" using P by (simp add: scores_done_def same_dims_def)
  have T: "tok g0 b h sq < gm_batch g0 * gm_num_heads g0 * gm_seq_len g0"
    using tok_less ok by (simp add: token_ok_def)
  have len: "?i < length (gm_bitmask g1)" "?i < length (gm_P g1)"
    using index2_less [OF T i] ok P by (simp_all add: token_ok_def scores_done_def same_dims_def)
  have "scores_done g0 q k we b h sq (Suc i) ?g"
    unfolding scores_done_def s_index_tok
  proof (intro conjI allI impI)
    fix sk assume "sk < Suc i"
    then consider "sk = i" | "sk < i" by linarith
    then show "gm_bitmask ?g ! (tok g0 b h sq * gm_seq_len g0 + sk) = mask_of (spec_score g0 q k b h sq sk)"
      "gm_P ?g ! (tok g0 b h sq * gm_seq_len g0 + sk) =
        prob_of (we ! we_index g0 b h sq) (spec_score g0 q k b h sq sk)"
      using len P by (cases; simp add: scores_done_def s_index_tok)+
  qed (rule sd)
  with step show "\<exists>s'. golden_score q k we b h (kv_head g0 h) sq g1 i = Some s' \<and>
      scores_done g0 q k we b h sq (Suc i) s'" by blast
qed simp

lemma golden_pv_step:
  assumes ok: "token_ok g0 q k v we b h sq" and sd: "scores_done g0 q k we b h sq (gm_seq_len g0) g"
    and "d < gm_d_head g0" "length out = gm_batch g0 * gm_num_heads g0 * gm_seq_len g0 * gm_d_head g0"
  shows "golden_pv v b h (kv_head g0 h) sq g out d =
    Some (out[tok g0 b h sq * gm_d_head g0 + d := spec_row g0 q k v we b h sq d])"
proof -
  have dims: "same_dims g0 g" using sd by (simp add: scores_done_def)
  note idx = same_dims_index [OF dims]
  have T: "tok g0 b h sq < gm_batch g0 * gm_num_heads g0 * gm_seq_len g0"
    using tok_less ok by (simp add: token_ok_def)
  have r: "rd (gm_bitmask g) (s_index g0 b h sq sk) = Some (mask_of (spec_score g0 q k b h sq sk))"
    "rd (gm_P g) (s_index g0 b h sq sk) = Some (prob_of (we ! we_index g0 b h sq) (spec_score g0 q k b h sq sk))"
    "rd v (kv_index g0 b (kv_head g0 h) sk + d) = Some (v ! (kv_index g0 b (kv_head g0 h) sk + d))"
    if "sk < gm_seq_len g0" for sk
  proof -
    have "s_index g0 b h sq sk < length (gm_bitmask g)" "s_index g0 b h sq sk < length (gm_P g)"
      using index2_less [OF T that] ok dims by (simp_all add: s_index_tok token_ok_def same_dims_def)
    then show "rd (gm_bitmask g) (s_index g0 b h sq sk) = Some (mask_of (spec_score g0 q k b h sq sk))"
      "rd (gm_P g) (s_index g0 b h sq sk) = Some (prob_of (we ! we_index g0 b h sq) (spec_score g0 q k b h sq sk))"
      using sd that by (simp_all add: scores_done_def)
    show "rd v (kv_index g0 b (kv_head g0 h) sk + d) = Some (v ! (kv_index g0 b (kv_head g0 h) sk + d))"
      using ok kv_index_less [of b g0 "kv_head g0 h" sk d] kv_head_less [of h g0] that assms(3)
      by (simp add: token_ok_def tensors_ok_def)
  qed
  have "foldlM (\<lambda>acc sk. do {
         m \<leftarrow> rd (gm_bitmask g) (s_index g0 b h sq sk);
         if m then do {
           p \<leftarrow> rd (gm_P g) (s_index g0 b h sq sk);
           x \<leftarrow> rd v (kv_index g0 b (kv_head g0 h) sk + d);
           Some (f32_add acc (f32_mul (f32_of_fp16 p) (f32_of_fp16 x))) }
         else Some acc }) 0 [0..<gm_seq_len g0] =
    Some (spec_row g0 q k v we b h sq d)"
    unfolding spec_row_def esef_out_def Let_def spec_score_def [symmetric]
    by (rule foldlM_fold) (simp add: r)
  moreover have "tok g0 b h sq * gm_d_head g0 + d < length out" using index2_less [OF T assms(3)] assms(4) by simp
  ultimately show ?thesis unfolding golden_pv_def idx q_index_tok by simp
qed

text \<open>A token writes its row of the output and nothing else.\<close>

lemma golden_token_step:
  assumes ok: "token_ok g0 q k v we b h sq" and dims: "same_dims g0 g"
    and len: "length out = gm_batch g0 * gm_num_heads g0 * gm_seq_len g0 * gm_d_head g0"
  shows "\<exists>g' out'. golden_token q k v we b h (g, out) sq = Some (g', out') \<and> same_dims g0 g' \<and>
    length out' = length out \<and>
    (\<forall>t d. d < gm_d_head g0 \<longrightarrow> out' ! (t * gm_d_head g0 + d) =
      (if t = tok g0 b h sq then spec_row g0 q k v we b h sq d else out ! (t * gm_d_head g0 + d)))"
proof -
  let ?D = "gm_d_head g0" and ?t = "tok g0 b h sq"
  have T: "?t < gm_batch g0 * gm_num_heads g0 * gm_seq_len g0"
    using tok_less ok by (simp add: token_ok_def)
  have kvh: "(h * gm_num_kv_heads g) div gm_num_heads g = kv_head g0 h"
    using dims by (simp add: same_dims_def kv_head_def)
  from golden_scores [OF ok dims] obtain g' where
    g': "foldlM (golden_score q k we b h (kv_head g0 h) sq) g [0..<gm_seq_len g0] = Some g'"
      "scores_done g0 q k we b h sq (gm_seq_len g0) g'" by blast
  let ?P = "\<lambda>n o'. length o' = length out \<and> (\<forall>t d. d < ?D \<longrightarrow> o' ! (t * ?D + d) =
      (if t = ?t \<and> d < n then spec_row g0 q k v we b h sq d else out ! (t * ?D + d)))"
  have "\<exists>out'. foldlM (golden_pv v b h (kv_head g0 h) sq g') out [0..<?D] = Some out' \<and> ?P ?D out'"
  proof (rule foldlM_upt [where P = ?P])
    fix i o1 assume i: "i < ?D" and P: "?P i o1"
    have s: "golden_pv v b h (kv_head g0 h) sq g' o1 i =
        Some (o1[?t * ?D + i := spec_row g0 q k v we b h sq i])"
      using golden_pv_step [OF ok g'(2) i] P len by simp
    have "o1[?t * ?D + i := spec_row g0 q k v we b h sq i] ! (t * ?D + d) =
        (if t = ?t \<and> d < Suc i then spec_row g0 q k v we b h sq d else out ! (t * ?D + d))" if "d < ?D" for t d
    proof (cases "t = ?t \<and> d = i")
      case True
      with index2_less [OF T i] P len show ?thesis by simp
    next
      case False
      then have "?t * ?D + i \<noteq> t * ?D + d" using index2_inj [of ?t ?D i t d] i that by auto
      moreover have "d < Suc i \<longleftrightarrow> d < i \<or> d = i" by auto
      ultimately show ?thesis using P that False by auto
    qed
    with s P show "\<exists>s'. golden_pv v b h (kv_head g0 h) sq g' o1 i = Some s' \<and> ?P (Suc i) s'" by simp
  qed auto
  then obtain out' where o': "foldlM (golden_pv v b h (kv_head g0 h) sq g') out [0..<?D] = Some out'" "?P ?D out'"
    by blast
  have "same_dims g0 g'" using g'(2) by (simp add: scores_done_def)
  moreover have "golden_token q k v we b h (g, out) sq = Some (g', out')"
    using g'(1) o'(1) same_dims_index [OF dims] same_dims_index [OF \<open>same_dims g0 g'\<close>]
    by (simp add: golden_token_def kvh Let_def)
  ultimately show ?thesis using o'(2) by auto
qed

text \<open>The rows below \<open>n\<close> hold the specification.\<close>

definition rows_done ::
  "golden \<Rightarrow> fp16 list \<Rightarrow> fp16 list \<Rightarrow> fp16 list \<Rightarrow> fp16 list \<Rightarrow> nat \<Rightarrow> golden \<times> f32 list \<Rightarrow> bool" where
  "rows_done g0 q k v we n st \<longleftrightarrow> same_dims g0 (fst st) \<and>
     length (snd st) = gm_batch g0 * gm_num_heads g0 * gm_seq_len g0 * gm_d_head g0 \<and>
     (\<forall>b h sq d. b < gm_batch g0 \<and> h < gm_num_heads g0 \<and> sq < gm_seq_len g0 \<and> d < gm_d_head g0 \<and>
        tok g0 b h sq < n \<longrightarrow> snd st ! (tok g0 b h sq * gm_d_head g0 + d) = spec_row g0 q k v we b h sq d)"

lemma rows_done_token:
  assumes ok: "token_ok g0 q k v we b h sq" and P: "rows_done g0 q k v we (tok g0 b h sq) st"
  shows "\<exists>st'. golden_token q k v we b h st sq = Some st' \<and> rows_done g0 q k v we (Suc (tok g0 b h sq)) st'"
proof -
  obtain g out where st: "st = (g, out)" by (cases st)
  from P st have dims: "same_dims g0 g"
    and len: "length out = gm_batch g0 * gm_num_heads g0 * gm_seq_len g0 * gm_d_head g0"
    by (simp_all add: rows_done_def)
  from golden_token_step [OF ok dims len] obtain g' out' where
    s: "golden_token q k v we b h (g, out) sq = Some (g', out')" "same_dims g0 g'" "length out' = length out"
    "\<forall>t d. d < gm_d_head g0 \<longrightarrow> out' ! (t * gm_d_head g0 + d) =
      (if t = tok g0 b h sq then spec_row g0 q k v we b h sq d else out ! (t * gm_d_head g0 + d))" by blast
  have "rows_done g0 q k v we (Suc (tok g0 b h sq)) (g', out')"
    unfolding rows_done_def fst_conv snd_conv
  proof (intro conjI allI impI, goal_cases)
    case (3 b' h' sq' d)
    show ?case
    proof (cases "tok g0 b' h' sq' = tok g0 b h sq")
      case True
      with tok_inj [OF True] 3 ok s(4) show ?thesis by (simp add: token_ok_def)
    next
      case False
      with 3 P st s(4) show ?thesis by (simp add: rows_done_def)
    qed
  qed (use s(2,3) len in simp_all)
  with s(1) st show ?thesis by blast
qed

definition golden_fresh :: "golden \<Rightarrow> bool" where
  "golden_fresh g \<longleftrightarrow> g = golden_new (gm_batch g) (gm_num_heads g) (gm_num_kv_heads g) (gm_seq_len g) (gm_d_head g)"

lemma golden_fresh_token_ok:
  assumes "golden_fresh g" "tensors_ok g q k v we" "0 < gm_num_kv_heads g"
    and "b < gm_batch g" "h < gm_num_heads g" "sq < gm_seq_len g"
  shows "token_ok g q k v we b h sq"
proof -
  have "gm_S g = replicate (gm_batch g * gm_num_heads g * gm_seq_len g * gm_seq_len g) 0"
    "gm_bitmask g = replicate (gm_batch g * gm_num_heads g * gm_seq_len g * gm_seq_len g) False"
    "gm_P g = replicate (gm_batch g * gm_num_heads g * gm_seq_len g * gm_seq_len g) 0"
    using assms(1) unfolding golden_fresh_def golden_new_def Let_def by (metis golden.select_convs)+
  with assms show ?thesis by (simp add: token_ok_def)
qed

lemma golden_rows:
  assumes fresh: "golden_fresh g" and t: "tensors_ok g q k v we" "0 < gm_num_kv_heads g"
  shows "\<exists>st. golden_compute q k v we g = Some st \<and>
    rows_done g q k v we (gm_batch g * gm_num_heads g * gm_seq_len g) st"
proof -
  let ?R = "rows_done g q k v we"
  have head: "\<exists>st'. foldlM (golden_token q k v we b h) st [0..<gm_seq_len g] = Some st' \<and> ?R (tok g b (Suc h) 0) st'"
    if b: "b < gm_batch g" and h: "h < gm_num_heads g" and P: "?R (tok g b h 0) st" for b h st
  proof -
    have "\<exists>st'. foldlM (golden_token q k v we b h) st [0..<gm_seq_len g] = Some st' \<and> ?R (tok g b h (gm_seq_len g)) st'"
    proof (rule foldlM_upt [where P = "\<lambda>n. ?R (tok g b h n)"])
      fix i s assume i: "i < gm_seq_len g" and R: "?R (tok g b h i) s"
      have "tok g b h (Suc i) = Suc (tok g b h i)" by (simp add: tok_def)
      with rows_done_token [OF golden_fresh_token_ok [OF fresh t b h i] R]
      show "\<exists>s'. golden_token q k v we b h s i = Some s' \<and> ?R (tok g b h (Suc i)) s'" by simp
    qed (use P in simp_all)
    then show ?thesis by (simp add: tok_def algebra_simps)
  qed
  have batch: "\<exists>st'. foldlM (\<lambda>st h. foldlM (golden_token q k v we b h) st [0..<gm_seq_len g]) st
      [0..<gm_num_heads g] = Some st' \<and> ?R (tok g (Suc b) 0 0) st'"
    if b: "b < gm_batch g" and P: "?R (tok g b 0 0) st" for b st
  proof -
    have "\<exists>st'. foldlM (\<lambda>st h. foldlM (golden_token q k v we b h) st [0..<gm_seq_len g]) st
        [0..<gm_num_heads g] = Some st' \<and> ?R (tok g b (gm_num_heads g) 0) st'"
      by (rule foldlM_upt [where P = "\<lambda>n. ?R (tok g b n 0)"]) (use P head [OF b] in auto)
    then show ?thesis by (simp add: tok_def algebra_simps)
  qed
  let ?st0 = "(g, replicate (gm_batch g * gm_num_heads g * gm_seq_len g * gm_d_head g) 0)"
  have "?R (tok g 0 0 0) ?st0" by (simp add: rows_done_def same_dims_def tok_def)
  then have "\<exists>st. golden_compute q k v we g = Some st \<and> ?R (tok g (gm_batch g) 0 0) st"
    unfolding golden_compute_def
    by (intro foldlM_upt [where P = "\<lambda>n. ?R (tok g n 0 0)"]) (use batch in auto)
  then show ?thesis by (simp add: tok_def)
qed

text \<open>C17: the golden model computes the specification. For tensors of the sizes the dimensions give, a
  fresh golden model's \<open>compute\<close> never indexes out of range, and entry \<open>(b, h, sq, d)\<close> of its output is
  \<open>esef_out\<close> of the query row and of the keys and values of the grouped key head, for every batch,
  head, token and dimension.\<close>

theorem golden_computes_spec:
  assumes "tensors_ok g q k v we" "0 < gm_num_kv_heads g" "golden_fresh g"
  shows "\<exists>g' out. golden_compute q k v we g = Some (g', out) \<and>
    (\<forall>b h sq d. b < gm_batch g \<and> h < gm_num_heads g \<and> sq < gm_seq_len g \<and> d < gm_d_head g \<longrightarrow>
       out ! (q_index g b h sq + d) = spec_row g q k v we b h sq d)"
proof -
  from golden_rows [OF assms(3,1,2)] obtain g' out where
    r: "golden_compute q k v we g = Some (g', out)"
      "rows_done g q k v we (gm_batch g * gm_num_heads g * gm_seq_len g) (g', out)" by auto
  have "out ! (q_index g b h sq + d) = spec_row g q k v we b h sq d"
    if "b < gm_batch g" "h < gm_num_heads g" "sq < gm_seq_len g" "d < gm_d_head g" for b h sq d
    using r(2) tok_less [OF that(1-3)] that by (simp add: rows_done_def q_index_tok)
  with r(1) show ?thesis by blast
qed

lemma golden_computes_spec_witness:
  "\<exists>g' out. golden_compute [0x3c00, 0x4000] [0x3c00, 0x3c00] [0x3c00, 0x4200] [0x3c00] (golden_new 1 1 1 1 2) = Some (g', out) \<and>
     out ! 1 = esef_out 1 2 (\<lambda>d. [0x3c00, 0x4000] ! d) (\<lambda>sk d. [0x3c00, 0x3c00] ! d)
       (\<lambda>sk d. [0x3c00, 0x4200] ! d) 0x3c00 1"
proof -
  let ?g = "golden_new 1 1 1 1 2"
  let ?q = "[0x3c00, 0x4000] :: fp16 list" and ?k = "[0x3c00, 0x3c00] :: fp16 list"
    and ?v = "[0x3c00, 0x4200] :: fp16 list" and ?w = "[0x3c00] :: fp16 list"
  have t: "tensors_ok ?g ?q ?k ?v ?w" by (simp add: tensors_ok_def golden_new_def Let_def)
  have f: "golden_fresh ?g" by (simp add: golden_fresh_def golden_new_def Let_def)
  have d: "gm_batch ?g = 1" "gm_num_heads ?g = 1" "gm_num_kv_heads ?g = 1" "gm_seq_len ?g = 1" "gm_d_head ?g = 2"
    by (simp_all add: golden_new_def Let_def)
  have "0 < gm_num_kv_heads ?g" using d by simp
  from golden_computes_spec [OF t this f] obtain g' out where
    o: "golden_compute ?q ?k ?v ?w ?g = Some (g', out)" and
    s: "\<forall>b h sq d. b < gm_batch ?g \<and> h < gm_num_heads ?g \<and> sq < gm_seq_len ?g \<and> d < gm_d_head ?g \<longrightarrow>
       out ! (q_index ?g b h sq + d) = spec_row ?g ?q ?k ?v ?w b h sq d" by blast
  have "out ! (q_index ?g 0 0 0 + 1) = spec_row ?g ?q ?k ?v ?w 0 0 0 1"
    using s [rule_format, of 0 0 0 1] d by simp
  moreover have "q_index ?g 0 0 0 = 0" by (simp add: q_index_def)
  moreover have "spec_row ?g ?q ?k ?v ?w 0 0 0 1 = esef_out 1 2 (\<lambda>d. ?q ! d) (\<lambda>sk d. ?k ! (sk * 2 + d))
      (\<lambda>sk d. ?v ! (sk * 2 + d)) 0x3c00 1"
    unfolding spec_row_def d q_index_def kv_index_def we_index_def kv_head_def by simp
  moreover have "esef_out 1 2 (\<lambda>d. ?q ! d) (\<lambda>sk d. ?k ! (sk * 2 + d)) (\<lambda>sk d. ?v ! (sk * 2 + d)) 0x3c00 1 =
      esef_out 1 2 (\<lambda>d. ?q ! d) (\<lambda>sk d. ?k ! d) (\<lambda>sk d. ?v ! d) 0x3c00 1"
    by (simp add: esef_out_def esef_score_def Let_def)
  ultimately show ?thesis using o by simp
qed

end
