(* ===== verification/Bank_Store.thy ===== *)
theory Bank_Store
  imports Half_Float
begin

text \<open>
  The bank storage of the functional model (\<open>src/dram_controller/impl/bank_storage.h\<close>): a map from
  packed physical addresses to columns of sixteen half-precision numbers.
\<close>

definition FP16_PER_COLUMN :: nat where "FP16_PER_COLUMN = 16"

text \<open>\<open>static_cast<uint64_t>(int)\<close> wraps a negative index around; the masks cut it to its field.\<close>

definition pack_addr :: "int \<Rightarrow> int \<Rightarrow> int \<Rightarrow> int \<Rightarrow> int \<Rightarrow> int \<Rightarrow> 64 word" where
  "pack_addr channel pch bg bank row col =
     (push_bit 56 (word_of_int channel AND 0xFF) OR push_bit 48 (word_of_int pch AND 0xFF) OR
      push_bit 40 (word_of_int bg AND 0xFF) OR push_bit 32 (word_of_int bank AND 0xFF) OR
      push_bit 16 (word_of_int row AND 0xFFFF) OR (word_of_int col AND 0xFFFF))"

type_synonym bank_storage = "64 word \<rightharpoonup> fp16 list"

definition write_col ::
  "int \<Rightarrow> int \<Rightarrow> int \<Rightarrow> int \<Rightarrow> int \<Rightarrow> int \<Rightarrow> fp16 list \<Rightarrow> bank_storage \<Rightarrow> bank_storage" where
  "write_col channel pch bg bank row col data st =
     st(pack_addr channel pch bg bank row col \<mapsto> vec_resize data FP16_PER_COLUMN 0)"

text \<open>Reading a column that was never written creates it, filled with zeros.\<close>

definition read_col ::
  "int \<Rightarrow> int \<Rightarrow> int \<Rightarrow> int \<Rightarrow> int \<Rightarrow> int \<Rightarrow> bank_storage \<Rightarrow> fp16 list \<times> bank_storage" where
  "read_col channel pch bg bank row col st =
     (let key = pack_addr channel pch bg bank row col
      in case st key of
           Some d \<Rightarrow> (d, st)
         | None \<Rightarrow> (let d = vec_resize [] FP16_PER_COLUMN (fp16_of_f32 0) in (d, st(key \<mapsto> d))))"

definition clear_store :: bank_storage where
  "clear_store = Map.empty"

section \<open>Keys\<close>

lemma mask_bits64:
  fixes n :: nat
  shows "bit (0xFF :: 64 word) n \<longleftrightarrow> n < 8" "bit (0xFFFF :: 64 word) n \<longleftrightarrow> n < 16"
proof -
  have l: "LENGTH(64) = 64" by simp
  have m: "(0xFF :: 64 word) = mask 8" "(0xFFFF :: 64 word) = mask 16"
    by (simp_all add: mask_eq_exp_minus_1)
  show "bit (0xFF :: 64 word) n \<longleftrightarrow> n < 8" "bit (0xFFFF :: 64 word) n \<longleftrightarrow> n < 16"
    unfolding m by (auto simp only: bit_mask_iff possible_bit_word l)
qed

lemma key_field_bit:
  "bit (push_bit k (word_of_int x AND 0xFF) :: 64 word) n \<longleftrightarrow> n < 64 \<and> k \<le> n \<and> n < k + 8 \<and> bit x (n - k)"
  "bit (push_bit k (word_of_int x AND 0xFFFF) :: 64 word) n \<longleftrightarrow> n < 64 \<and> k \<le> n \<and> n < k + 16 \<and> bit x (n - k)"
  "bit (word_of_int x AND 0xFFFF :: 64 word) n \<longleftrightarrow> n < 64 \<and> n < 16 \<and> bit x n"
proof -
  have l: "LENGTH(64) = 64" by simp
  show "bit (push_bit k (word_of_int x AND 0xFF) :: 64 word) n \<longleftrightarrow> n < 64 \<and> k \<le> n \<and> n < k + 8 \<and> bit x (n - k)"
    "bit (push_bit k (word_of_int x AND 0xFFFF) :: 64 word) n \<longleftrightarrow> n < 64 \<and> k \<le> n \<and> n < k + 16 \<and> bit x (n - k)"
    "bit (word_of_int x AND 0xFFFF :: 64 word) n \<longleftrightarrow> n < 64 \<and> n < 16 \<and> bit x n"
    unfolding bit_push_bit_iff bit_and_iff bit_word_of_int_iff mask_bits64 possible_bit_word l by auto
qed

lemma pack_addr_bit:
  "bit (pack_addr ch p g b r c) n \<longleftrightarrow> n < 64 \<and>
     (56 \<le> n \<and> bit ch (n - 56) \<or> 48 \<le> n \<and> n < 56 \<and> bit p (n - 48) \<or>
      40 \<le> n \<and> n < 48 \<and> bit g (n - 40) \<or> 32 \<le> n \<and> n < 40 \<and> bit b (n - 32) \<or>
      16 \<le> n \<and> n < 32 \<and> bit r (n - 16) \<or> n < 16 \<and> bit c n)"
  unfolding pack_addr_def bit_or_iff key_field_bit by auto

lemma pack_addr_fields:
  assumes "pack_addr ch p g b r c = pack_addr ch' p' g' b' r' c'"
  shows "n < 16 \<Longrightarrow> bit c n = bit c' n" "n < 16 \<Longrightarrow> bit r n = bit r' n"
    "n < 8 \<Longrightarrow> bit b n = bit b' n" "n < 8 \<Longrightarrow> bit g n = bit g' n"
    "n < 8 \<Longrightarrow> bit p n = bit p' n" "n < 8 \<Longrightarrow> bit ch n = bit ch' n"
proof -
  have eq: "bit (pack_addr ch p g b r c) m = bit (pack_addr ch' p' g' b' r' c') m" for m
    using assms by simp
  show "n < 16 \<Longrightarrow> bit c n = bit c' n" using eq [of n] unfolding pack_addr_bit by simp
  show "n < 16 \<Longrightarrow> bit r n = bit r' n" using eq [of "n + 16"] unfolding pack_addr_bit by simp
  show "n < 8 \<Longrightarrow> bit b n = bit b' n" using eq [of "n + 32"] unfolding pack_addr_bit by simp
  show "n < 8 \<Longrightarrow> bit g n = bit g' n" using eq [of "n + 40"] unfolding pack_addr_bit by simp
  show "n < 8 \<Longrightarrow> bit p n = bit p' n" using eq [of "n + 48"] unfolding pack_addr_bit by simp
  show "n < 8 \<Longrightarrow> bit ch n = bit ch' n" using eq [of "n + 56"] unfolding pack_addr_bit by simp
qed

lemma int_bits_eq:
  assumes "0 \<le> (x :: int)" "x < 2 ^ k" "0 \<le> y" "y < 2 ^ k" "\<And>n. n < k \<Longrightarrow> bit x n = bit y n"
  shows "x = y"
proof -
  have "x = take_bit k x" using assms(1,2) by (simp add: take_bit_int_eq_self)
  also have "\<dots> = take_bit k y"
    by (rule bit_eqI) (auto simp: bit_take_bit_iff assms(5))
  also have "\<dots> = y" using assms(3,4) by (simp add: take_bit_int_eq_self)
  finally show ?thesis .
qed

definition key_range :: "int \<Rightarrow> int \<Rightarrow> int \<Rightarrow> int \<Rightarrow> int \<Rightarrow> int \<Rightarrow> bool" where
  "key_range ch p g b r c \<longleftrightarrow> (\<forall>x \<in> {ch, p, g, b}. 0 \<le> x \<and> x < 2 ^ 8) \<and> (\<forall>x \<in> {r, c}. 0 \<le> x \<and> x < 2 ^ 16)"

text \<open>Keys identify columns. For channels, pseudochannels, bank groups and banks below 256 and rows
  and columns below 65536, two addresses have the same packed key only if they are equal.\<close>

lemma pack_addr_inj:
  assumes "key_range ch p g b r c" "key_range ch' p' g' b' r' c'"
    and "pack_addr ch p g b r c = pack_addr ch' p' g' b' r' c'"
  shows "ch = ch' \<and> p = p' \<and> g = g' \<and> b = b' \<and> r = r' \<and> c = c'"
proof -
  have r: "0 \<le> x \<and> x < 2 ^ 8" if "x \<in> {ch, p, g, b, ch', p', g', b'}" for x
    using assms(1,2) that unfolding key_range_def by blast
  have r': "0 \<le> x \<and> x < 2 ^ 16" if "x \<in> {r, c, r', c'}" for x
    using assms(1,2) that unfolding key_range_def by blast
  note f = pack_addr_fields [OF assms(3)]
  have "c = c'" using r' [of c] r' [of c'] by (intro int_bits_eq [OF _ _ _ _ f(1)]) simp_all
  moreover have "r = r'" using r' [of r] r' [of r'] by (intro int_bits_eq [OF _ _ _ _ f(2)]) simp_all
  moreover have "b = b'" using r [of b] r [of b'] by (intro int_bits_eq [OF _ _ _ _ f(3)]) simp_all
  moreover have "g = g'" using r [of g] r [of g'] by (intro int_bits_eq [OF _ _ _ _ f(4)]) simp_all
  moreover have "p = p'" using r [of p] r [of p'] by (intro int_bits_eq [OF _ _ _ _ f(5)]) simp_all
  moreover have "ch = ch'" using r [of ch] r [of ch'] by (intro int_bits_eq [OF _ _ _ _ f(6)]) simp_all
  ultimately show ?thesis by blast
qed

section \<open>Reading what was written\<close>

lemma read_write_col:
  assumes "key_range ch p g b r c" "key_range ch' p' g' b' r' c'"
  shows "fst (read_col ch p g b r c (write_col ch' p' g' b' r' c' data st)) =
      (if (ch, p, g, b, r, c) = (ch', p', g', b', r', c') then vec_resize data FP16_PER_COLUMN 0
       else fst (read_col ch p g b r c st))"
  using pack_addr_inj [OF assms] by (auto simp: read_col_def write_col_def Let_def split: option.splits)

lemma read_read_col:
  "fst (read_col ch p g b r c (snd (read_col ch' p' g' b' r' c' st))) = fst (read_col ch p g b r c st)"
  by (auto simp: read_col_def Let_def split: option.splits)

lemma read_clear: "fst (read_col ch p g b r c clear_store) = replicate FP16_PER_COLUMN 0"
proof -
  have "fp16_of_f32 0 = 0" by code_simp
  then show ?thesis by (simp add: read_col_def clear_store_def vec_resize_def Let_def)
qed

text \<open>C16: the storage is a memory. A column read returns the sixteen values last written to it, whatever
  was written to other columns since; a column that was never written reads as zeros, and reading
  does not change what any column reads as.\<close>

theorem read_col_after:
  fixes st :: bank_storage
  assumes "key_range ch p g b r c" "key_range ch' p' g' b' r' c'"
  shows "fst (read_col ch p g b r c (write_col ch' p' g' b' r' c' data st)) =
      (if (ch, p, g, b, r, c) = (ch', p', g', b', r', c') then vec_resize data FP16_PER_COLUMN 0
       else fst (read_col ch p g b r c st)) \<and>
    fst (read_col ch p g b r c (snd (read_col ch' p' g' b' r' c' st))) = fst (read_col ch p g b r c st) \<and>
    fst (read_col ch p g b r c clear_store) = replicate FP16_PER_COLUMN 0"
  using read_write_col [OF assms] read_read_col read_clear by simp

lemma read_col_after_witness:
  "fst (read_col 0 0 0 1 2 3 (write_col 0 0 0 1 2 4 [7] (write_col 0 0 0 1 2 3 [9] clear_store))) =
     9 # replicate 15 0"
proof -
  have k: "key_range 0 0 0 1 2 3" "key_range 0 0 0 1 2 4" by (simp_all add: key_range_def)
  show ?thesis
    using read_col_after [OF k, of "[7]" "write_col 0 0 0 1 2 3 [9] clear_store"]
      read_col_after [OF k(1,1), of "[9]" clear_store]
    by (simp add: vec_resize_def FP16_PER_COLUMN_def)
qed

end
