(* ===== verification/Request_Buffer.thy ===== *)
theory Request_Buffer
  imports Prelude
begin

text \<open>
  Requests and request buffers (\<open>src/base/request.h\<close>, \<open>request.cpp\<close>). The callback of a request
  is the identity of the code to call (\<open>None\<close> for the empty \<open>std::function\<close>); a controller's calls
  to it are part of what the controller's operations return. The payload pointer, which the
  simulator only ever points to a vector of VOC values, is that vector or \<open>None\<close>.
\<close>

record request =
  rq_addr :: addr_t
  rq_addr_vec :: addr_vec
  rq_type :: int
  rq_source :: int
  rq_command :: int
  rq_final :: int
  rq_stat_updated :: bool
  rq_arrive :: clk
  rq_depart :: clk
  rq_scratch :: "int list"
  rq_callback :: "nat option"
  rq_payload :: "int list option"

definition blank_request :: request where
  "blank_request = \<lparr>rq_addr = -1, rq_addr_vec = [], rq_type = -1, rq_source = -1, rq_command = -1,
     rq_final = -1, rq_stat_updated = False, rq_arrive = -1, rq_depart = -1, rq_scratch = [0, 0, 0, 0],
     rq_callback = None, rq_payload = None\<rparr>"

definition request_addr :: "addr_t \<Rightarrow> int \<Rightarrow> request" where
  "request_addr a ty = blank_request\<lparr>rq_addr := a, rq_type := ty\<rparr>"

definition request_vec :: "addr_vec \<Rightarrow> int \<Rightarrow> request" where
  "request_vec av ty = blank_request\<lparr>rq_addr_vec := av, rq_type := ty\<rparr>"

definition request_src :: "addr_t \<Rightarrow> int \<Rightarrow> int \<Rightarrow> nat option \<Rightarrow> request" where
  "request_src a ty src cb = blank_request\<lparr>rq_addr := a, rq_type := ty, rq_source := src, rq_callback := cb\<rparr>"

definition type_Read :: int where "type_Read = 0"

definition type_Write :: int where "type_Write = 1"

section \<open>Buffers\<close>

record req_buffer =
  rb_buffer :: "request list"
  rb_max_size :: nat

definition empty_buffer :: req_buffer where
  "empty_buffer = \<lparr>rb_buffer = [], rb_max_size = 32\<rparr>"

definition rb_enqueue :: "req_buffer \<Rightarrow> request \<Rightarrow> bool \<times> req_buffer" where
  "rb_enqueue b r =
     (if length (rb_buffer b) \<le> rb_max_size b then (True, b\<lparr>rb_buffer := rb_buffer b @ [r]\<rparr>)
      else (False, b))"

text \<open>An iterator into the list is a position.\<close>

definition rb_remove :: "req_buffer \<Rightarrow> nat \<Rightarrow> req_buffer option" where
  "rb_remove b i =
     (if i < length (rb_buffer b)
      then Some (b\<lparr>rb_buffer := take i (rb_buffer b) @ drop (Suc i) (rb_buffer b)\<rparr>) else None)"

text \<open>The requests the buffer accepts from a stream that nothing drains.\<close>

fun rb_fill :: "req_buffer \<Rightarrow> request list \<Rightarrow> req_buffer" where
  "rb_fill b [] = b"
| "rb_fill b (r # rs) = rb_fill (snd (rb_enqueue b r)) rs"

lemma rb_enqueue_max [simp]: "rb_max_size (snd (rb_enqueue b r)) = rb_max_size b"
  by (simp add: rb_enqueue_def)

lemma rb_fill_buffer:
  "length (rb_buffer b) \<le> Suc (rb_max_size b) \<Longrightarrow>
   rb_buffer (rb_fill b rs) = rb_buffer b @ take (Suc (rb_max_size b) - length (rb_buffer b)) rs"
proof (induction rs arbitrary: b)
  case Nil
  then show ?case by simp
next
  case (Cons r rs)
  show ?case
  proof (cases "length (rb_buffer b) \<le> rb_max_size b")
    case True
    then have "Suc (rb_max_size b) - length (rb_buffer b) = Suc (rb_max_size b - length (rb_buffer b))"
      by simp
    with True Cons.IH [of "snd (rb_enqueue b r)"] show ?thesis by (simp add: rb_enqueue_def)
  next
    case False
    with Cons show ?thesis by (simp add: rb_enqueue_def)
  qed
qed

text \<open>C33: the capacity of a request buffer. A buffer that starts empty and is only enqueued to
  accepts, in order, the first \<open>max_size + 1\<close> requests, one more than its \<open>max_size\<close>, and rejects
  every later one.\<close>

theorem req_buffer_capacity:
  "rb_buffer (rb_fill \<lparr>rb_buffer = [], rb_max_size = n\<rparr> rs) = take (n + 1) rs"
  by (simp add: rb_fill_buffer)

lemma rb_remove_mset:
  "rb_remove b i = Some b' \<Longrightarrow> rb_buffer b = take i (rb_buffer b') @ rb_buffer b ! i # drop i (rb_buffer b')"
  by (auto simp: rb_remove_def id_take_nth_drop split: if_splits)

end
