(* ===== verification/Dram_Spec.thy ===== *)
theory Dram_Spec
  imports Prelude
begin

text \<open>
  The data a DRAM standard is made of (\<open>src/dram/spec.h\<close>): name tables that turn the names of
  levels, commands, requests, states and timings into ids (\<open>ImplDef\<close> at compile time,
  \<open>SpecDef\<close> at run time), look-up tables keyed by such names (\<open>LUT\<close>, \<open>SpecLUT\<close>), and the
  timing-constraint matrix that \<open>populate_timingcons\<close> builds from a standard's list of
  initializers. A lookup that throws is \<open>None\<close>.
\<close>

section \<open>Name tables\<close>

type_synonym name_table = "string list"

text \<open>\<open>ImplDef::operator()(name)\<close>: the first position that holds the name.\<close>

fun impl_id :: "name_table \<Rightarrow> string \<Rightarrow> int option" where
  "impl_id [] name = None"
| "impl_id (x # xs) name = (if x = name then Some 0 else map_option (\<lambda>i. i + 1) (impl_id xs name))"

definition impl_name :: "name_table \<Rightarrow> int \<Rightarrow> string option" where
  "impl_name names i = vec_at names i"

text \<open>\<open>SpecDef\<close>: its constructor fills a hash map, a later entry overwriting an earlier one.\<close>

fun specdef_fill :: "int \<Rightarrow> name_table \<Rightarrow> (string \<rightharpoonup> int) \<Rightarrow> (string \<rightharpoonup> int)" where
  "specdef_fill i [] m = m"
| "specdef_fill i (x # xs) m = specdef_fill (i + 1) xs (m(x \<mapsto> i))"

definition specdef_id :: "name_table \<Rightarrow> string \<Rightarrow> int option" where
  "specdef_id names name = specdef_fill 0 names Map.empty name"

definition specdef_contains :: "name_table \<Rightarrow> string \<Rightarrow> bool" where
  "specdef_contains names name \<longleftrightarrow> specdef_fill 0 names Map.empty name \<noteq> None"

definition specdef_name :: "name_table \<Rightarrow> int \<Rightarrow> string option" where
  "specdef_name names i = vec_at names i"

section \<open>Look-up tables\<close>

text \<open>
  \<open>LUT(keys, values, {...})\<close>: every key of the initializer list must be a known key and every
  value a known value. A key the list leaves out has no value; the model makes such a table
  \<open>None\<close> as a whole.
\<close>

definition lut_ids :: "name_table \<Rightarrow> name_table \<Rightarrow> (string \<times> string) list \<Rightarrow> int list option" where
  "lut_ids keys vals entries =
     (if \<forall>(k, v) \<in> set entries. impl_id keys k \<noteq> None \<and> impl_id vals v \<noteq> None
      then those (map (\<lambda>k. Option.bind (map_of entries k) (impl_id vals)) keys)
      else None)"

definition lut_vals :: "name_table \<Rightarrow> (string \<times> 'v) list \<Rightarrow> 'v list option" where
  "lut_vals keys entries =
     (if \<forall>(k, v) \<in> set entries. impl_id keys k \<noteq> None
      then those (map (map_of entries) keys)
      else None)"

text \<open>\<open>SpecLUT::operator()\<close> by name and by id.\<close>

definition speclut_by_name :: "name_table \<Rightarrow> 'v list \<Rightarrow> string \<Rightarrow> 'v option" where
  "speclut_by_name keys vals name = Option.bind (specdef_id keys name) (vec_at vals)"

definition speclut_by_id :: "name_table \<Rightarrow> 'v list \<Rightarrow> int \<Rightarrow> 'v option" where
  "speclut_by_id keys vals i =
     (if 0 \<le> i \<and> i < int (length keys) then vec_at vals i else None)"

record command_meta =
  is_opening :: bool
  is_closing :: bool
  is_accessing :: bool
  is_refreshing :: bool
  is_sb_cmd :: bool

record organization =
  org_density :: int
  org_dq :: int
  org_count :: "int list"

section \<open>Timing constraints\<close>

record tcons_entry =
  tc_cmd :: int
  tc_val :: int
  tc_window :: int
  tc_sibling :: bool

definition mk_tcons_entry :: "int \<Rightarrow> int \<Rightarrow> int \<Rightarrow> bool \<Rightarrow> tcons_entry" where
  "mk_tcons_entry c v w s =
     \<lparr>tc_cmd = c, tc_val = v, tc_window = (if w < 0 then 0 else w), tc_sibling = s\<rparr>"

type_synonym timing_cons = "tcons_entry list list list"

record tcons_init =
  ti_level :: string
  ti_preceding :: "string list"
  ti_following :: "string list"
  ti_latency :: int
  ti_window :: int
  ti_sibling :: bool

definition push_tcons :: "int \<Rightarrow> int \<Rightarrow> tcons_entry \<Rightarrow> timing_cons \<Rightarrow> timing_cons" where
  "push_tcons l p e tcs = tcs[nat l := (tcs ! nat l)[nat p := tcs ! nat l ! nat p @ [e]]]"

text \<open>The three nested loops of \<open>populate_timingcons\<close>; an unknown name throws.\<close>

fun populate_following ::
  "name_table \<Rightarrow> tcons_init \<Rightarrow> int \<Rightarrow> int \<Rightarrow> string list \<Rightarrow> timing_cons \<Rightarrow> timing_cons option" where
  "populate_following cmds ti l p [] tcs = Some tcs"
| "populate_following cmds ti l p (f # fs) tcs =
     (case impl_id cmds f of
        None \<Rightarrow> None
      | Some fc \<Rightarrow> populate_following cmds ti l p fs
          (push_tcons l p (mk_tcons_entry fc (ti_latency ti) (ti_window ti) (ti_sibling ti)) tcs))"

fun populate_preceding ::
  "name_table \<Rightarrow> tcons_init \<Rightarrow> int \<Rightarrow> string list \<Rightarrow> timing_cons \<Rightarrow> timing_cons option" where
  "populate_preceding cmds ti l [] tcs = Some tcs"
| "populate_preceding cmds ti l (p # ps) tcs =
     (case impl_id cmds p of
        None \<Rightarrow> None
      | Some pc \<Rightarrow>
          Option.bind (populate_following cmds ti l pc (ti_following ti) tcs)
            (populate_preceding cmds ti l ps))"

fun populate_inits ::
  "name_table \<Rightarrow> name_table \<Rightarrow> tcons_init list \<Rightarrow> timing_cons \<Rightarrow> timing_cons option" where
  "populate_inits levels cmds [] tcs = Some tcs"
| "populate_inits levels cmds (ti # tis) tcs =
     (case impl_id levels (ti_level ti) of
        None \<Rightarrow> None
      | Some l \<Rightarrow>
          Option.bind (populate_preceding cmds ti l (ti_preceding ti) tcs)
            (populate_inits levels cmds tis))"

definition populate_timingcons ::
  "name_table \<Rightarrow> name_table \<Rightarrow> tcons_init list \<Rightarrow> timing_cons option" where
  "populate_timingcons levels cmds inits =
     populate_inits levels cmds inits (replicate (length levels) (replicate (length cmds) []))"

section \<open>Lemmas on name tables\<close>

lemma impl_id_range: "impl_id names n = Some i \<Longrightarrow> 0 \<le> i \<and> i < int (length names)"
  by (induction names arbitrary: i) (auto split: if_splits)

lemma impl_id_nth: "impl_id names n = Some i \<Longrightarrow> names ! nat i = n"
proof (induction names arbitrary: i)
  case Nil
  then show ?case by simp
next
  case (Cons x xs)
  show ?case
  proof (cases "x = n")
    case True
    with Cons.prems show ?thesis by simp
  next
    case False
    with Cons.prems obtain j where j: "impl_id xs n = Some j" "i = j + 1" by auto
    from impl_id_range [OF j(1)] have "nat i = Suc (nat j)"
      using j(2) by (simp add: nat_add_distrib)
    with Cons.IH [OF j(1)] show ?thesis by simp
  qed
qed

lemma impl_id_None: "impl_id names n = None \<longleftrightarrow> n \<notin> set names"
  by (induction names) auto

lemma specdef_fill_other: "n \<notin> set xs \<Longrightarrow> specdef_fill i xs m n = m n"
  by (induction xs arbitrary: i m) auto

lemma specdef_fill_impl:
  "distinct xs \<Longrightarrow> n \<in> set xs \<Longrightarrow> specdef_fill i xs m n = map_option (\<lambda>j. j + i) (impl_id xs n)"
proof (induction xs arbitrary: i m)
  case Nil
  then show ?case by simp
next
  case (Cons x xs)
  show ?case
  proof (cases "x = n")
    case True
    with Cons.prems show ?thesis by (simp add: specdef_fill_other)
  next
    case False
    with Cons have "specdef_fill (i + 1) xs (m(x \<mapsto> i)) n = map_option (\<lambda>j. j + (i + 1)) (impl_id xs n)"
      by simp
    with False show ?thesis by (simp add: option.map_comp o_def algebra_simps)
  qed
qed

lemma specdef_id_eq_impl_id: "distinct names \<Longrightarrow> specdef_id names n = impl_id names n"
proof (cases "n \<in> set names")
  case True
  assume "distinct names"
  with True show ?thesis
    by (simp add: specdef_id_def specdef_fill_impl option.map_ident)
next
  case False
  then show ?thesis
    using impl_id_None [of names n] by (simp add: specdef_id_def specdef_fill_other)
qed

section \<open>Lemmas on the timing-constraint matrix\<close>

definition tcons_dims :: "nat \<Rightarrow> nat \<Rightarrow> timing_cons \<Rightarrow> bool" where
  "tcons_dims nl nc tcs \<longleftrightarrow> length tcs = nl \<and> (\<forall>row \<in> set tcs. length row = nc)"

lemma tcons_dims_nth: "tcons_dims nl nc tcs \<Longrightarrow> l < nl \<Longrightarrow> length (tcs ! l) = nc"
  by (auto simp: tcons_dims_def)

lemma tcons_dims_push:
  assumes "tcons_dims nl nc tcs" "0 \<le> l" "l < int nl"
  shows "tcons_dims nl nc (push_tcons l p e tcs)"
  using assms tcons_dims_nth [OF assms(1), of "nat l"]
  by (auto simp: tcons_dims_def push_tcons_def dest!: set_update_subset_insert [THEN subsetD])

lemma push_tcons_mem:
  assumes "tcons_dims nl nc tcs" "0 \<le> l" "l < int nl" "0 \<le> p" "p < int nc"
    and "0 \<le> l'" "l' < int nl" "0 \<le> p'" "p' < int nc"
  shows "x \<in> set (push_tcons l p e tcs ! nat l' ! nat p') \<longleftrightarrow>
           x \<in> set (tcs ! nat l' ! nat p') \<or> (l' = l \<and> p' = p \<and> x = e)"
proof -
  have "length tcs = nl" "nat l < nl" "nat p < length (tcs ! nat l)"
    using assms tcons_dims_nth [OF assms(1), of "nat l"] by (auto simp: tcons_dims_def)
  with assms show ?thesis
    by (auto simp: push_tcons_def nth_list_update eq_nat_nat_iff split: if_splits)
qed

text \<open>What one initializer adds to the entry list of level \<open>l\<close> and preceding command \<open>p\<close>.\<close>

definition init_adds :: "name_table \<Rightarrow> name_table \<Rightarrow> tcons_init \<Rightarrow> int \<Rightarrow> int \<Rightarrow> tcons_entry \<Rightarrow> bool" where
  "init_adds levels cmds ti l p e \<longleftrightarrow>
     impl_id levels (ti_level ti) = Some l \<and>
     (\<exists>pn \<in> set (ti_preceding ti). impl_id cmds pn = Some p) \<and>
     (\<exists>fn \<in> set (ti_following ti). \<exists>f. impl_id cmds fn = Some f \<and>
        e = mk_tcons_entry f (ti_latency ti) (ti_window ti) (ti_sibling ti))"

lemma populate_following_mem:
  assumes "populate_following cmds ti l p fs tcs = Some tcs'"
    and "tcons_dims nl nc tcs" "0 \<le> l" "l < int nl" "0 \<le> p" "p < int nc"
    and "0 \<le> l'" "l' < int nl" "0 \<le> p'" "p' < int nc"
  shows "tcons_dims nl nc tcs' \<and>
    (x \<in> set (tcs' ! nat l' ! nat p') \<longleftrightarrow> x \<in> set (tcs ! nat l' ! nat p') \<or>
      (l' = l \<and> p' = p \<and> (\<exists>fn \<in> set fs. \<exists>f. impl_id cmds fn = Some f \<and>
         x = mk_tcons_entry f (ti_latency ti) (ti_window ti) (ti_sibling ti))))"
  using assms(1,2)
proof (induction fs arbitrary: tcs)
  case Nil
  then show ?case by simp
next
  case (Cons fn fs)
  from Cons.prems(1) obtain f where f: "impl_id cmds fn = Some f"
    by (auto split: option.splits)
  let ?e = "mk_tcons_entry f (ti_latency ti) (ti_window ti) (ti_sibling ti)"
  have "populate_following cmds ti l p fs (push_tcons l p ?e tcs) = Some tcs'"
    using Cons.prems(1) f by simp
  from Cons.IH [OF this tcons_dims_push [OF Cons.prems(2) assms(3,4)]]
  show ?case
    using push_tcons_mem [OF Cons.prems(2) assms(3-10)] f by auto
qed

lemma populate_preceding_mem:
  assumes "populate_preceding cmds ti l ps tcs = Some tcs'"
    and "tcons_dims nl (length cmds) tcs" "0 \<le> l" "l < int nl"
    and "0 \<le> l'" "l' < int nl" "0 \<le> p'" "p' < int (length cmds)"
  shows "tcons_dims nl (length cmds) tcs' \<and>
    (x \<in> set (tcs' ! nat l' ! nat p') \<longleftrightarrow> x \<in> set (tcs ! nat l' ! nat p') \<or>
      (l' = l \<and> (\<exists>pn \<in> set ps. impl_id cmds pn = Some p') \<and>
       (\<exists>fn \<in> set (ti_following ti). \<exists>f. impl_id cmds fn = Some f \<and>
         x = mk_tcons_entry f (ti_latency ti) (ti_window ti) (ti_sibling ti))))"
  using assms(1,2)
proof (induction ps arbitrary: tcs)
  case Nil
  then show ?case by simp
next
  case (Cons pn ps)
  from Cons.prems(1) obtain p where p: "impl_id cmds pn = Some p"
    by (auto split: option.splits)
  with Cons.prems(1) obtain tcs1 where
    t1: "populate_following cmds ti l p (ti_following ti) tcs = Some tcs1" and
    t2: "populate_preceding cmds ti l ps tcs1 = Some tcs'"
    by (auto simp: bind_eq_Some_conv)
  from impl_id_range [OF p] have pr: "0 \<le> p" "p < int (length cmds)" by auto
  note m1 = populate_following_mem [OF t1 Cons.prems(2) assms(3,4) pr assms(5-8)]
  from Cons.IH [OF t2] m1 show ?case using p by auto
qed

lemma populate_inits_mem:
  assumes "populate_inits levels cmds tis tcs = Some tcs'"
    and "tcons_dims (length levels) (length cmds) tcs"
    and "0 \<le> l" "l < int (length levels)" "0 \<le> p" "p < int (length cmds)"
  shows "tcons_dims (length levels) (length cmds) tcs' \<and>
    (x \<in> set (tcs' ! nat l ! nat p) \<longleftrightarrow> x \<in> set (tcs ! nat l ! nat p) \<or>
       (\<exists>ti \<in> set tis. init_adds levels cmds ti l p x))"
  using assms(1,2)
proof (induction tis arbitrary: tcs)
  case Nil
  then show ?case by simp
next
  case (Cons ti tis)
  from Cons.prems(1) obtain k where k: "impl_id levels (ti_level ti) = Some k"
    by (auto split: option.splits)
  with Cons.prems(1) obtain tcs1 where
    t1: "populate_preceding cmds ti k (ti_preceding ti) tcs = Some tcs1" and
    t2: "populate_inits levels cmds tis tcs1 = Some tcs'"
    by (auto simp: bind_eq_Some_conv)
  from impl_id_range [OF k] have kr: "0 \<le> k" "k < int (length levels)" by auto
  note m1 = populate_preceding_mem [OF t1 Cons.prems(2) kr assms(3-6), of x]
  from Cons.IH [OF t2] m1 k show ?case
    by (auto simp: init_adds_def)
qed

text \<open>
  The matrix holds exactly the constraints the initializers state: the loops neither lose an
  entry nor put one at another level or command.
\<close>

lemma populate_timingcons_mem:
  assumes "populate_timingcons levels cmds inits = Some tcs"
    and "0 \<le> l" "l < int (length levels)" "0 \<le> p" "p < int (length cmds)"
  shows "x \<in> set (tcs ! nat l ! nat p) \<longleftrightarrow> (\<exists>ti \<in> set inits. init_adds levels cmds ti l p x)"
proof -
  let ?z = "replicate (length levels) (replicate (length cmds) []) :: timing_cons"
  have "tcons_dims (length levels) (length cmds) ?z" by (simp add: tcons_dims_def)
  from populate_inits_mem [OF assms(1) [unfolded populate_timingcons_def] this assms(2-5), of x]
  show ?thesis using assms(2-5) by (simp add: nat_less_iff)
qed

lemma populate_timingcons_dims:
  assumes "populate_timingcons levels cmds inits = Some tcs" "levels \<noteq> []" "cmds \<noteq> []"
  shows "tcons_dims (length levels) (length cmds) tcs"
proof -
  let ?z = "replicate (length levels) (replicate (length cmds) []) :: timing_cons"
  have "tcons_dims (length levels) (length cmds) ?z" by (simp add: tcons_dims_def)
  from populate_inits_mem [OF assms(1) [unfolded populate_timingcons_def] this, of 0 0] assms(2,3)
  show ?thesis by simp
qed

lemma populate_following_ex:
  "\<forall>f \<in> set fs. impl_id cmds f \<noteq> None \<Longrightarrow> \<exists>tcs'. populate_following cmds ti l p fs tcs = Some tcs'"
  by (induction fs arbitrary: tcs) auto

lemma populate_preceding_ex:
  assumes "\<forall>f \<in> set (ti_following ti). impl_id cmds f \<noteq> None"
  shows "\<forall>p \<in> set ps. impl_id cmds p \<noteq> None \<Longrightarrow> \<exists>tcs'. populate_preceding cmds ti l ps tcs = Some tcs'"
proof (induction ps arbitrary: tcs)
  case Nil
  then show ?case by simp
next
  case (Cons p ps)
  then obtain pc where pc: "impl_id cmds p = Some pc" by auto
  obtain t1 where "populate_following cmds ti l pc (ti_following ti) tcs = Some t1"
    using populate_following_ex [OF assms] by blast
  with Cons pc show ?case by simp
qed

definition init_names_ok :: "name_table \<Rightarrow> name_table \<Rightarrow> tcons_init \<Rightarrow> bool" where
  "init_names_ok levels cmds ti \<longleftrightarrow>
     ti_level ti \<in> set levels \<and> set (ti_preceding ti) \<subseteq> set cmds \<and> set (ti_following ti) \<subseteq> set cmds"

lemma populate_inits_ex:
  "\<forall>ti \<in> set tis. init_names_ok levels cmds ti \<Longrightarrow>
     \<exists>tcs'. populate_inits levels cmds tis tcs = Some tcs'"
proof (induction tis arbitrary: tcs)
  case Nil
  then show ?case by simp
next
  case (Cons ti tis)
  then have ok: "init_names_ok levels cmds ti" by simp
  then obtain l where l: "impl_id levels (ti_level ti) = Some l"
    using impl_id_None by (fastforce simp: init_names_ok_def)
  from ok have "\<forall>f \<in> set (ti_following ti). impl_id cmds f \<noteq> None"
    "\<forall>p \<in> set (ti_preceding ti). impl_id cmds p \<noteq> None"
    by (auto simp: init_names_ok_def impl_id_None)
  then obtain t1 where "populate_preceding cmds ti l (ti_preceding ti) tcs = Some t1"
    using populate_preceding_ex by blast
  with Cons l show ?case by simp
qed

lemma populate_timingcons_ex:
  "\<forall>ti \<in> set inits. init_names_ok levels cmds ti \<Longrightarrow>
     \<exists>tcs. populate_timingcons levels cmds inits = Some tcs"
  unfolding populate_timingcons_def by (rule populate_inits_ex)

end
