(* ===== verification/Spare_Config.thy ===== *)
theory Spare_Config
  imports Request_Buffer Dram_Spec
begin

text \<open>
  Configuration and address arithmetic of the SPARE-PIM controller
  (\<open>src/dram_controller/impl/sparepim_controller.cpp\<close>): the parameters of \<open>init\<close>, what \<open>setup\<close>
  reads from the device, and the \<open>make_*_addr\<close> functions. The ESDM address function maps a logical
  column to a row and a column of the device.
\<close>

section \<open>Parameters and setup\<close>

record sp_params =
  pm_queue_size :: int
  pm_mac_commands_per_token :: int
  pm_acc_commands_per_token :: int
  pm_spm_cycles_per_voc :: int
  pm_spm_fixed_cycles :: int
  pm_bgmu_read_as_delay :: bool
  pm_enable_act_spm_pre :: bool
  pm_enable_esdm :: bool
  pm_enable_qk_act_pre :: bool
  pm_kt_row_offset :: int
  pm_v_row_offset :: int
  pm_kt_col_start :: int
  pm_v_col_start :: int
  pm_esdm_columns_per_row :: int
  pm_enable_functional :: bool
  pm_seq_len :: int
  pm_d_head :: int
  pm_num_heads :: int
  pm_num_kv_heads :: int
  pm_batch_size :: int

text \<open>The defaults of \<open>init\<close>.\<close>

definition sp_default_params :: sp_params where
  "sp_default_params = \<lparr>pm_queue_size = 32, pm_mac_commands_per_token = 1,
     pm_acc_commands_per_token = 1, pm_spm_cycles_per_voc = 1, pm_spm_fixed_cycles = 0,
     pm_bgmu_read_as_delay = True, pm_enable_act_spm_pre = True, pm_enable_esdm = True,
     pm_enable_qk_act_pre = True, pm_kt_row_offset = 0, pm_v_row_offset = 1, pm_kt_col_start = 0,
     pm_v_col_start = 0, pm_esdm_columns_per_row = -1, pm_enable_functional = False,
     pm_seq_len = 256, pm_d_head = 64, pm_num_heads = 1, pm_num_kv_heads = 1, pm_batch_size = 1\<rparr>"

text \<open>What the controller holds after \<open>setup\<close>, the device's ids and sizes included.\<close>

record sp_cfg = sp_params +
  sc_channel_id :: int
  sc_num_levels :: int
  sc_channel_level :: int
  sc_pch_level :: int
  sc_bg_level :: int
  sc_bank_level :: int
  sc_row_level :: int
  sc_col_level :: int
  sc_num_pchs :: int
  sc_num_bgs :: int
  sc_num_banks :: int
  sc_num_rows :: int
  sc_num_cols :: int
  sc_req_read :: int
  sc_req_write :: int
  sc_req_sparepim :: int
  sc_req_mac :: int
  sc_req_emul :: int
  sc_req_mov :: int
  sc_req_spm :: int
  sc_req_acc :: int
  sc_cmd_act :: int
  sc_cmd_pre :: int
  sc_cmd_rd :: int
  sc_cmd_wr :: int
  sc_cmd_mac :: int
  sc_cmd_emul :: int
  sc_cmd_mov :: int
  sc_cmd_spm :: int
  sc_cmd_acc :: int

text \<open>The part of \<open>IDRAM\<close> that \<open>setup\<close> reads: name tables and level sizes.\<close>

record dram_tables =
  dt_levels :: name_table
  dt_commands :: name_table
  dt_requests :: name_table
  dt_counts :: "int list"

definition dt_level_size :: "dram_tables \<Rightarrow> string \<Rightarrow> int option" where
  "dt_level_size t n = (case specdef_id (dt_levels t) n of None \<Rightarrow> Some (-1) | Some i \<Rightarrow> vec_at (dt_counts t) i)"

definition get_request_id :: "dram_tables \<Rightarrow> string \<Rightarrow> int" where
  "get_request_id t n = (case specdef_id (dt_requests t) n of None \<Rightarrow> -1 | Some i \<Rightarrow> i)"

text \<open>\<open>None\<close>: a level or command the device does not have, for which \<open>setup\<close> throws.\<close>

definition sp_setup :: "sp_params \<Rightarrow> int \<Rightarrow> dram_tables \<Rightarrow> sp_cfg option" where
  "sp_setup p ch t = do {
     channel \<leftarrow> specdef_id (dt_levels t) ''channel'';
     pch \<leftarrow> specdef_id (dt_levels t) ''pseudochannel'';
     bg \<leftarrow> specdef_id (dt_levels t) ''bankgroup'';
     bank \<leftarrow> specdef_id (dt_levels t) ''bank'';
     row \<leftarrow> specdef_id (dt_levels t) ''row'';
     npch \<leftarrow> dt_level_size t ''pseudochannel'';
     nbg \<leftarrow> dt_level_size t ''bankgroup'';
     nbank \<leftarrow> dt_level_size t ''bank'';
     nrow \<leftarrow> dt_level_size t ''row'';
     ncol \<leftarrow> dt_level_size t ''column'';
     act \<leftarrow> specdef_id (dt_commands t) ''ACT'';
     pre \<leftarrow> specdef_id (dt_commands t) ''PRE'';
     rd \<leftarrow> specdef_id (dt_commands t) ''RD'';
     wr \<leftarrow> specdef_id (dt_commands t) ''WR'';
     mac \<leftarrow> specdef_id (dt_commands t) ''MAC'';
     emul \<leftarrow> specdef_id (dt_commands t) ''EMUL'';
     mov \<leftarrow> specdef_id (dt_commands t) ''MOV'';
     spm \<leftarrow> specdef_id (dt_commands t) ''SPM'';
     acc \<leftarrow> specdef_id (dt_commands t) ''ACC'';
     let nl = int (length (dt_levels t)); cols = max 1 ncol;
         p' = (if pm_esdm_columns_per_row p \<le> 0 then p\<lparr>pm_esdm_columns_per_row := cols\<rparr> else p) in
     Some (sp_params.extend p' (sp_cfg.fields ch nl channel pch bg bank row (nl - 1)
       (max 1 npch) (max 1 nbg) (max 1 nbank) (max 1 nrow) cols
       type_Read type_Write (get_request_id t ''spare-pim'') (get_request_id t ''mac'')
       (get_request_id t ''emul'') (get_request_id t ''mov'') (get_request_id t ''spm'')
       (get_request_id t ''acc'') act pre rd wr mac emul mov spm acc)) }"

text \<open>What every configuration that \<open>setup\<close> returns satisfies, for a device with its row level
  before its column level.\<close>

definition sp_cfg_ok :: "sp_cfg \<Rightarrow> bool" where
  "sp_cfg_ok c \<longleftrightarrow>
     (\<forall>l \<in> {sc_channel_level c, sc_pch_level c, sc_bg_level c, sc_bank_level c, sc_row_level c,
        sc_col_level c}. 0 \<le> l \<and> l < sc_num_levels c) \<and>
     distinct [sc_channel_level c, sc_pch_level c, sc_bg_level c, sc_bank_level c, sc_row_level c, sc_col_level c] \<and>
     distinct [sc_cmd_act c, sc_cmd_pre c, sc_cmd_rd c, sc_cmd_wr c, sc_cmd_mac c, sc_cmd_emul c,
       sc_cmd_mov c, sc_cmd_spm c, sc_cmd_acc c] \<and>
     1 \<le> sc_num_pchs c \<and> 1 \<le> sc_num_bgs c \<and> 1 \<le> sc_num_banks c \<and> 1 \<le> sc_num_rows c \<and>
     1 \<le> sc_num_cols c \<and> 1 \<le> pm_esdm_columns_per_row c"

lemma specdef_id_inj:
  assumes "distinct names" "specdef_id names a = Some i" "specdef_id names b = Some i"
  shows "a = b"
proof -
  have "names ! nat i = a" "names ! nat i = b"
    using impl_id_nth [of names a i] impl_id_nth [of names b i] assms by (simp_all add: specdef_id_eq_impl_id)
  then show ?thesis by simp
qed

lemma specdef_id_bounds:
  "distinct names \<Longrightarrow> specdef_id names a = Some i \<Longrightarrow> 0 \<le> i \<and> i < int (length names)"
  using impl_id_range [of names a i] by (simp add: specdef_id_eq_impl_id)

lemma specdef_ids_distinct:
  assumes "distinct names" "list_all2 (\<lambda>n i. specdef_id names n = Some i) ns is" "distinct ns"
  shows "distinct is"
proof -
  have "is ! a \<noteq> is ! b" if "a < length is" "b < length is" "a \<noteq> b" for a b
  proof
    assume "is ! a = is ! b"
    then have "specdef_id names (ns ! a) = Some (is ! a)" "specdef_id names (ns ! b) = Some (is ! a)"
      using assms(2) that by (auto simp: list_all2_conv_all_nth)
    from specdef_id_inj [OF assms(1) this] have "ns ! a = ns ! b" .
    with that assms(2,3) show False by (auto simp: nth_eq_iff_index_eq list_all2_conv_all_nth)
  qed
  then show ?thesis by (simp add: distinct_conv_nth)
qed

lemma sp_setup_good:
  assumes "sp_setup p ch t = Some c" "distinct (dt_levels t)" "distinct (dt_commands t)"
    and "dt_levels t \<noteq> []" "last (dt_levels t) = ''column''"
  shows "sp_cfg_ok c \<and> sc_channel_id c = ch \<and> sp_params.truncate c =
    p\<lparr>pm_esdm_columns_per_row := pm_esdm_columns_per_row c\<rparr>"
proof -
  let ?l = "specdef_id (dt_levels t)" and ?c = "specdef_id (dt_commands t)"
  let ?n = "int (length (dt_levels t))"
  have col: "?l ''column'' = Some (?n - 1)"
  proof -
    have "impl_id (dt_levels t) ''column'' \<noteq> None"
      using last_in_set [OF assms(4)] assms(5) by (simp add: impl_id_None)
    then obtain i where i: "impl_id (dt_levels t) ''column'' = Some i" by blast
    have "dt_levels t ! nat i = dt_levels t ! (length (dt_levels t) - 1)"
      using impl_id_nth [OF i] assms(4,5) by (simp add: last_conv_nth)
    moreover have "0 \<le> i" "nat i < length (dt_levels t)" using impl_id_range [OF i] by auto
    ultimately have "nat i = length (dt_levels t) - 1"
      using assms(2,4) by (simp add: nth_eq_iff_index_eq)
    with \<open>0 \<le> i\<close> have "i = ?n - 1" using assms(4) by (cases "dt_levels t") auto
    with i show ?thesis using assms(2) by (simp add: specdef_id_eq_impl_id)
  qed
  show ?thesis using assms(1) unfolding sp_setup_def Let_def bind_eq_Some_conv
  proof (elim exE conjE, goal_cases)
    case (1 channel pch bg bank row npch nbg nbank nrow ncol act pre rd wr mac emul mov spm acc)
    note c = 1(20) [THEN option.inject [THEN iffD1], symmetric]
    have cl: "sc_channel_level c = channel" "sc_pch_level c = pch" "sc_bg_level c = bg"
       "sc_bank_level c = bank" "sc_row_level c = row" "sc_col_level c = ?n - 1" "sc_num_levels c = ?n"
      by (simp_all add: c sp_params.defs sp_cfg.defs)
    have sizes: "1 \<le> sc_num_pchs c \<and> 1 \<le> sc_num_bgs c \<and> 1 \<le> sc_num_banks c \<and> 1 \<le> sc_num_rows c \<and>
       1 \<le> sc_num_cols c \<and> 1 \<le> pm_esdm_columns_per_row c"
      by (simp add: c sp_params.defs sp_cfg.defs)
    have rest: "sc_channel_id c = ch"
      "sp_params.truncate c = p\<lparr>pm_esdm_columns_per_row := pm_esdm_columns_per_row c\<rparr>"
      by (simp_all add: c sp_params.defs sp_cfg.defs)
    have cmds: "list_all2 (\<lambda>n i. ?c n = Some i)
       [''ACT'', ''PRE'', ''RD'', ''WR'', ''MAC'', ''EMUL'', ''MOV'', ''SPM'', ''ACC'']
       [sc_cmd_act c, sc_cmd_pre c, sc_cmd_rd c, sc_cmd_wr c, sc_cmd_mac c, sc_cmd_emul c,
       sc_cmd_mov c, sc_cmd_spm c, sc_cmd_acc c]"
      using 1(11-19) by (simp add: c sp_params.defs sp_cfg.defs)
    have "distinct [channel, pch, bg, bank, row, ?n - 1]"
      by (rule specdef_ids_distinct [OF assms(2), of "[''channel'', ''pseudochannel'', ''bankgroup'', ''bank'', ''row'', ''column'']"])
        (simp_all add: 1 col)
    moreover have "distinct [sc_cmd_act c, sc_cmd_pre c, sc_cmd_rd c, sc_cmd_wr c, sc_cmd_mac c,
        sc_cmd_emul c, sc_cmd_mov c, sc_cmd_spm c, sc_cmd_acc c]"
      by (rule specdef_ids_distinct [OF assms(3) cmds]) simp
    moreover have "\<forall>i \<in> {channel, pch, bg, bank, row, ?n - 1}. 0 \<le> i \<and> i < ?n"
      using specdef_id_bounds [OF assms(2)] 1(1-5) col by blast
    ultimately show ?thesis using sizes rest unfolding sp_cfg_ok_def cl by blast
  qed
qed

text \<open>C30: the controller's configuration is well formed. Whenever \<open>setup\<close> returns on a device whose
  level and command names are distinct and whose last level is the column, every level index is a
  level of the device, the levels and the commands are pairwise different, and every size and the
  columns per ESDM row are at least one, so no address function divides by zero or leaves the vector.\<close>

theorem sp_setup_ok:
  assumes "sp_setup p ch t = Some c" "distinct (dt_levels t)" "distinct (dt_commands t)"
    and "dt_levels t \<noteq> []" "last (dt_levels t) = ''column''"
  shows "sp_cfg_ok c \<and> sc_channel_id c = ch \<and> sp_params.truncate c =
    p\<lparr>pm_esdm_columns_per_row := pm_esdm_columns_per_row c\<rparr>"
  by (rule sp_setup_good [OF assms])

section \<open>Addresses\<close>

text \<open>The vectors below have been resized to the number of levels, and the indices are levels.\<close>

definition av_set :: "int \<Rightarrow> int \<Rightarrow> addr_vec \<Rightarrow> addr_vec" where
  "av_set l x av = av[nat l := x]"

definition av_get :: "int \<Rightarrow> addr_vec \<Rightarrow> int" where
  "av_get l av = av ! nat l"

definition normalize_addr :: "sp_cfg \<Rightarrow> addr_vec \<Rightarrow> addr_vec" where
  "normalize_addr c av0 =
     (let av1 = vec_resize av0 (nat (sc_num_levels c)) (-1);
          av2 = av_set (sc_channel_level c) (sc_channel_id c) av1;
          av3 = (if av_get (sc_row_level c) av2 < 0 then av_set (sc_row_level c) 0 av2 else av2)
      in if av_get (sc_col_level c) av3 < 0 then av_set (sc_col_level c) 0 av3 else av3)"

definition columns_per_row :: "sp_cfg \<Rightarrow> int" where
  "columns_per_row c = max 1 (pm_esdm_columns_per_row c)"

definition make_esdm_addr :: "sp_cfg \<Rightarrow> addr_vec \<Rightarrow> int \<Rightarrow> int \<Rightarrow> addr_vec" where
  "make_esdm_addr c av row_offset column =
     (if \<not> pm_enable_esdm c then av
      else let logical_col = max 0 column;
               row_delta = logical_col sdiv columns_per_row c;
               column_id = logical_col smod columns_per_row c;
               base_row = max 0 (av_get (sc_row_level c) av)
           in av_set (sc_col_level c) (column_id smod sc_num_cols c)
                (av_set (sc_row_level c) ((base_row + row_offset + row_delta) smod sc_num_rows c) av))"

definition make_bank_addr :: "sp_cfg \<Rightarrow> addr_vec \<Rightarrow> int \<Rightarrow> int \<Rightarrow> int \<Rightarrow> addr_vec" where
  "make_bank_addr c av pch bg bank =
     av_set (sc_bank_level c) bank (av_set (sc_bg_level c) bg
       (av_set (sc_pch_level c) pch (av_set (sc_channel_level c) (sc_channel_id c) av)))"

definition make_all_bank_addr :: "sp_cfg \<Rightarrow> addr_vec \<Rightarrow> addr_vec" where
  "make_all_bank_addr c av = make_bank_addr c av (-1) (-1) (-1)"

definition make_acc_addr :: "sp_cfg \<Rightarrow> addr_vec \<Rightarrow> int \<Rightarrow> addr_vec" where
  "make_acc_addr c base_addr acc_idx =
     (let banks_per_pch = sc_num_bgs c * sc_num_banks c;
          total_banks = sc_num_pchs c * banks_per_pch;
          bank_idx = (if total_banks > 0 then acc_idx smod total_banks else 0);
          pch = bank_idx sdiv banks_per_pch;
          rem = bank_idx smod banks_per_pch
      in make_bank_addr c base_addr pch (rem sdiv sc_num_banks c) (rem smod sc_num_banks c))"

definition ceil_div :: "int \<Rightarrow> int \<Rightarrow> int" where
  "ceil_div lhs rhs = (lhs + rhs - 1) sdiv rhs"

definition total_bank_count :: "sp_cfg \<Rightarrow> int" where
  "total_bank_count c = sc_num_pchs c * sc_num_bgs c * sc_num_banks c"

lemma length_av_set [simp]: "length (av_set l x av) = length av"
  by (simp add: av_set_def)

lemma av_get_set:
  "0 \<le> l \<Longrightarrow> 0 \<le> m \<Longrightarrow> nat m < length av \<Longrightarrow> av_get l (av_set m x av) = (if l = m then x else av_get l av)"
  by (auto simp: av_get_def av_set_def nth_list_update nat_eq_iff)

lemma length_normalize_addr [simp]: "length (normalize_addr c av) = nat (sc_num_levels c)"
  by (simp add: normalize_addr_def Let_def)

lemma length_make_addr [simp]:
  "length (make_esdm_addr c av ro col) = length av" "length (make_bank_addr c av p g b) = length av"
  "length (make_all_bank_addr c av) = length av" "length (make_acc_addr c av i) = length av"
  by (simp_all add: make_esdm_addr_def make_bank_addr_def make_all_bank_addr_def make_acc_addr_def Let_def)

section \<open>What the address functions return\<close>

definition full_vec :: "sp_cfg \<Rightarrow> addr_vec \<Rightarrow> bool" where
  "full_vec c av \<longleftrightarrow> length av = nat (sc_num_levels c)"

lemma full_vec_make [simp]:
  "full_vec c (normalize_addr c av)"
  "full_vec c (make_esdm_addr c av ro col) \<longleftrightarrow> full_vec c av"
  "full_vec c (make_bank_addr c av p g b) \<longleftrightarrow> full_vec c av"
  "full_vec c (make_all_bank_addr c av) \<longleftrightarrow> full_vec c av"
  by (simp_all add: full_vec_def)

text \<open>Reading one level of a vector that another level was written to.\<close>

definition level :: "sp_cfg \<Rightarrow> int \<Rightarrow> bool" where
  "level c l \<longleftrightarrow> 0 \<le> l \<and> l < sc_num_levels c"

lemma full_vec_set [simp]: "full_vec c (av_set l x av) \<longleftrightarrow> full_vec c av"
  by (simp add: full_vec_def)

lemma level_get_set:
  "full_vec c av \<Longrightarrow> level c l \<Longrightarrow> level c m \<Longrightarrow> av_get l (av_set m x av) = (if l = m then x else av_get l av)"
  by (simp add: full_vec_def level_def av_get_set)

lemma cfg_levels:
  assumes "sp_cfg_ok c"
  shows "level c (sc_channel_level c)" "level c (sc_pch_level c)" "level c (sc_bg_level c)"
    "level c (sc_bank_level c)" "level c (sc_row_level c)" "level c (sc_col_level c)"
  using assms by (auto simp: sp_cfg_ok_def level_def)

lemma cfg_level_neq:
  assumes "sp_cfg_ok c"
  shows "sc_channel_level c \<noteq> sc_pch_level c" "sc_channel_level c \<noteq> sc_bg_level c"
    "sc_channel_level c \<noteq> sc_bank_level c" "sc_channel_level c \<noteq> sc_row_level c"
    "sc_channel_level c \<noteq> sc_col_level c" "sc_pch_level c \<noteq> sc_bg_level c"
    "sc_pch_level c \<noteq> sc_bank_level c" "sc_pch_level c \<noteq> sc_row_level c"
    "sc_pch_level c \<noteq> sc_col_level c" "sc_bg_level c \<noteq> sc_bank_level c"
    "sc_bg_level c \<noteq> sc_row_level c" "sc_bg_level c \<noteq> sc_col_level c"
    "sc_bank_level c \<noteq> sc_row_level c" "sc_bank_level c \<noteq> sc_col_level c"
    "sc_row_level c \<noteq> sc_col_level c"
  using assms by (auto simp: sp_cfg_ok_def)

lemmas cfg_facts = cfg_levels cfg_level_neq cfg_level_neq [symmetric]

lemma cfg_sizes:
  assumes "sp_cfg_ok c"
  shows "1 \<le> sc_num_pchs c" "1 \<le> sc_num_bgs c" "1 \<le> sc_num_banks c" "1 \<le> sc_num_rows c"
    "1 \<le> sc_num_cols c" "1 \<le> pm_esdm_columns_per_row c" "columns_per_row c = pm_esdm_columns_per_row c"
  using assms by (auto simp: sp_cfg_ok_def columns_per_row_def)

lemma esdm_addr_gets:
  assumes "sp_cfg_ok c" "full_vec c av" "pm_enable_esdm c"
  shows "av_get (sc_row_level c) (make_esdm_addr c av ro col) =
      (max 0 (av_get (sc_row_level c) av) + ro + max 0 col div columns_per_row c) smod sc_num_rows c"
    "av_get (sc_col_level c) (make_esdm_addr c av ro col) = max 0 col mod columns_per_row c mod sc_num_cols c"
proof -
  have "0 < columns_per_row c" "0 < sc_num_cols c" using cfg_sizes [OF assms(1)] by auto
  then have e: "max 0 col sdiv columns_per_row c = max 0 col div columns_per_row c"
    "max 0 col smod columns_per_row c = max 0 col mod columns_per_row c"
    "(max 0 col mod columns_per_row c) smod sc_num_cols c = max 0 col mod columns_per_row c mod sc_num_cols c"
    by (simp_all add: sdiv_nonneg smod_nonneg)
  note f = cfg_levels(5,6) [OF assms(1)] cfg_level_neq(15) [OF assms(1)]
  show "av_get (sc_row_level c) (make_esdm_addr c av ro col) =
      (max 0 (av_get (sc_row_level c) av) + ro + max 0 col div columns_per_row c) smod sc_num_rows c"
    "av_get (sc_col_level c) (make_esdm_addr c av ro col) = max 0 col mod columns_per_row c mod sc_num_cols c"
    unfolding make_esdm_addr_def Let_def e using assms(2,3) f by (simp_all add: level_get_set)
qed

lemma esdm_addr_other:
  assumes "sp_cfg_ok c" "full_vec c av" "level c l" "l \<noteq> sc_row_level c" "l \<noteq> sc_col_level c"
  shows "av_get l (make_esdm_addr c av ro col) = av_get l av"
  using assms cfg_facts [OF assms(1)] by (simp add: make_esdm_addr_def Let_def level_get_set)

lemma bank_addr_gets:
  assumes "sp_cfg_ok c" "full_vec c av"
  shows "av_get (sc_channel_level c) (make_bank_addr c av p g b) = sc_channel_id c"
    "av_get (sc_pch_level c) (make_bank_addr c av p g b) = p"
    "av_get (sc_bg_level c) (make_bank_addr c av p g b) = g"
    "av_get (sc_bank_level c) (make_bank_addr c av p g b) = b"
    "av_get (sc_row_level c) (make_bank_addr c av p g b) = av_get (sc_row_level c) av"
    "av_get (sc_col_level c) (make_bank_addr c av p g b) = av_get (sc_col_level c) av"
  using assms cfg_facts [OF assms(1)] by (simp_all add: make_bank_addr_def level_get_set)

lemma all_bank_addr_gets:
  assumes "sp_cfg_ok c" "full_vec c av"
  shows "av_get (sc_channel_level c) (make_all_bank_addr c av) = sc_channel_id c"
    "av_get (sc_pch_level c) (make_all_bank_addr c av) = -1"
    "av_get (sc_bg_level c) (make_all_bank_addr c av) = -1"
    "av_get (sc_bank_level c) (make_all_bank_addr c av) = -1"
    "av_get (sc_row_level c) (make_all_bank_addr c av) = av_get (sc_row_level c) av"
    "av_get (sc_col_level c) (make_all_bank_addr c av) = av_get (sc_col_level c) av"
  using bank_addr_gets [OF assms] by (simp_all add: make_all_bank_addr_def)

lemma normalize_addr_gets:
  assumes "sp_cfg_ok c"
  shows "av_get (sc_channel_level c) (normalize_addr c av) = sc_channel_id c"
    "0 \<le> av_get (sc_row_level c) (normalize_addr c av)" "0 \<le> av_get (sc_col_level c) (normalize_addr c av)"
proof -
  have "full_vec c (vec_resize av (nat (sc_num_levels c)) (-1))" by (simp add: full_vec_def)
  then show "av_get (sc_channel_level c) (normalize_addr c av) = sc_channel_id c"
    "0 \<le> av_get (sc_row_level c) (normalize_addr c av)" "0 \<le> av_get (sc_col_level c) (normalize_addr c av)"
    using cfg_facts [OF assms] by (simp_all add: normalize_addr_def Let_def level_get_set)
qed

text \<open>The row and the column an address names.\<close>

definition position :: "sp_cfg \<Rightarrow> addr_vec \<Rightarrow> int \<times> int" where
  "position c av = (av_get (sc_row_level c) av, av_get (sc_col_level c) av)"

text \<open>C31: the ESDM placement is one to one. As long as a row of the mapping is not wider than a row of
  the device and the rows do not wrap around, two different logical columns are placed at different
  (row, column) positions of a bank.\<close>

theorem esdm_placement_inj:
  assumes "sp_cfg_ok c" "full_vec c av" "pm_enable_esdm c" "columns_per_row c \<le> sc_num_cols c"
    and "0 \<le> i" "0 \<le> j" "0 \<le> av_get (sc_row_level c) av" "0 \<le> ro"
    and "av_get (sc_row_level c) av + ro + i div columns_per_row c < sc_num_rows c"
    and "av_get (sc_row_level c) av + ro + j div columns_per_row c < sc_num_rows c"
    and "i \<noteq> j"
  shows "position c (make_esdm_addr c av ro i) \<noteq> position c (make_esdm_addr c av ro j)"
proof
  let ?w = "columns_per_row c"
  assume pos: "position c (make_esdm_addr c av ro i) = position c (make_esdm_addr c av ro j)"
  have w: "0 < ?w" using cfg_sizes [OF assms(1)] by auto
  have "i mod ?w < sc_num_cols c" "j mod ?w < sc_num_cols c"
    using pos_mod_bound [OF w] assms(4) order_less_le_trans by blast+
  moreover have "0 \<le> i mod ?w" "0 \<le> j mod ?w" using w by auto
  ultimately have m: "i mod ?w = j mod ?w"
    using assms(5,6) pos by (simp add: position_def esdm_addr_gets [OF assms(1-3)])
  have "0 \<le> i div ?w" "0 \<le> j div ?w" using assms(5,6) w by (auto simp: pos_imp_zdiv_nonneg_iff)
  then have "i div ?w = j div ?w"
    using assms(5-10) pos by (simp add: position_def esdm_addr_gets [OF assms(1-3)] smod_nonneg)
  with m have "i = j" by (metis div_mult_mod_eq)
  with assms(11) show False ..
qed

lemma acc_addr_bank:
  assumes "sp_cfg_ok c" "full_vec c av" "0 \<le> i"
  shows "\<exists>p g b. make_acc_addr c av i = make_bank_addr c av p g b \<and>
    0 \<le> p \<and> p < sc_num_pchs c \<and> 0 \<le> g \<and> g < sc_num_bgs c \<and> 0 \<le> b \<and> b < sc_num_banks c \<and>
    (p * sc_num_bgs c + g) * sc_num_banks c + b = i mod total_bank_count c"
proof -
  let ?G = "sc_num_bgs c" and ?B = "sc_num_banks c" and ?P = "sc_num_pchs c"
  have pos: "0 < ?G" "0 < ?B" "0 < ?P" using cfg_sizes [OF assms(1)] by auto
  then have gb: "0 < ?G * ?B" and tot: "0 < ?P * (?G * ?B)" by simp_all
  define x where "x = i mod (?P * (?G * ?B))"
  have x: "0 \<le> x" "x < ?P * (?G * ?B)" using tot by (auto simp: x_def)
  define r where "r = x mod (?G * ?B)"
  have r: "0 \<le> r" "r < ?G * ?B" using gb by (auto simp: r_def)
  have eq: "make_acc_addr c av i = make_bank_addr c av (x div (?G * ?B)) (r div ?B) (r mod ?B)"
    using tot gb pos x r assms(3)
    by (simp add: make_acc_addr_def Let_def smod_nonneg sdiv_nonneg x_def r_def)
  have "(x div (?G * ?B) * ?G + r div ?B) * ?B + r mod ?B = x"
  proof -
    have "(x div (?G * ?B) * ?G + r div ?B) * ?B + r mod ?B = x div (?G * ?B) * (?G * ?B) + r"
      by (simp add: algebra_simps div_mult_mod_eq)
    also have "\<dots> = x" unfolding r_def by (rule div_mult_mod_eq)
    finally show ?thesis .
  qed
  moreover have "x = i mod total_bank_count c" by (simp add: x_def total_bank_count_def mult.assoc)
  moreover have "0 \<le> x div (?G * ?B)" "0 \<le> r div ?B" "0 \<le> r mod ?B" "r mod ?B < ?B"
    using x r gb pos by (auto simp: pos_imp_zdiv_nonneg_iff)
  moreover have "x div (?G * ?B) < ?P"
    by (rule int_div_less [OF gb x(2)])
  moreover have "r div ?B < ?G"
    by (rule int_div_less [OF pos(2) r(2)])
  ultimately show ?thesis using eq by (metis (no_types, lifting))
qed

text \<open>C32: \<open>ACC\<close> commands visit the banks round robin. The \<open>i\<close>-th accumulate command of a token goes
  to bank \<open>i mod total\<close> in the order pseudochannel, bank group, bank, with every index in range.\<close>

theorem acc_addr_round_robin:
  assumes "sp_cfg_ok c" "full_vec c av" "0 \<le> i"
  shows "\<exists>p g b. make_acc_addr c av i = make_bank_addr c av p g b \<and>
    0 \<le> p \<and> p < sc_num_pchs c \<and> 0 \<le> g \<and> g < sc_num_bgs c \<and> 0 \<le> b \<and> b < sc_num_banks c \<and>
    (p * sc_num_bgs c + g) * sc_num_banks c + b = i mod total_bank_count c"
  by (rule acc_addr_bank [OF assms])

end
