(* ===== verification/Spare_Functional.thy ===== *)
theory Spare_Functional
  imports Golden_Model Bank_Store Spare_Config
begin

text \<open>
  The functional data path of the SPARE-PIM controller (\<open>setup_functional_data\<close>,
  \<open>execute_functional_token\<close> and \<open>finalize\<close> of \<open>sparepim_controller.cpp\<close>): tensors laid out in the
  banks through the ESDM mapping, tokens executed from the banks, and the comparison with the
  golden model.
\<close>

section \<open>State\<close>

record fn_state =
  fn_store :: bank_storage
  fn_q :: "fp16 list"
  fn_k :: "fp16 list"
  fn_v :: "fp16 list"
  fn_we :: "fp16 list"
  fn_golden :: "f32 list"
  fn_hw :: "f32 list"
  fn_current_sq :: int

definition fn_empty :: fn_state where
  "fn_empty = \<lparr>fn_store = clear_store, fn_q = [], fn_k = [], fn_v = [], fn_we = [], fn_golden = [],
     fn_hw = [], fn_current_sq = 0\<rparr>"

section \<open>Layout\<close>

definition seq_of :: "sp_cfg \<Rightarrow> nat" where "seq_of c = nat (pm_seq_len c)"

definition dim_of :: "sp_cfg \<Rightarrow> nat" where "dim_of c = nat (pm_d_head c)"

text \<open>\<open>for (int d = 0; d < m_d_head; d += fsu_width)\<close>\<close>

definition chunk_starts :: "sp_cfg \<Rightarrow> nat list" where
  "chunk_starts c = map ((*) FP16_PER_COLUMN) [0..<(dim_of c + FP16_PER_COLUMN - 1) div FP16_PER_COLUMN]"

definition cols_per_kt :: "sp_cfg \<Rightarrow> int" where
  "cols_per_kt c = (pm_d_head c + int FP16_PER_COLUMN - 1) sdiv int FP16_PER_COLUMN"

definition logical_col :: "sp_cfg \<Rightarrow> nat \<Rightarrow> nat \<Rightarrow> int" where
  "logical_col c sk d = int sk * cols_per_kt c + int (d div FP16_PER_COLUMN)"

definition kt_addr :: "sp_cfg \<Rightarrow> nat \<Rightarrow> nat \<Rightarrow> addr_vec" where
  "kt_addr c sk d = make_esdm_addr c (normalize_addr c []) (pm_kt_row_offset c) (pm_kt_col_start c + logical_col c sk d)"

definition v_addr :: "sp_cfg \<Rightarrow> nat \<Rightarrow> nat \<Rightarrow> addr_vec" where
  "v_addr c sk d = make_esdm_addr c (normalize_addr c []) (pm_v_row_offset c) (pm_v_col_start c + logical_col c sk d)"

definition all_banks :: "sp_cfg \<Rightarrow> (int \<times> int \<times> int) list" where
  "all_banks c = [(int p, int g, int b). p \<leftarrow> [0..<nat (sc_num_pchs c)], g \<leftarrow> [0..<nat (sc_num_bgs c)],
     b \<leftarrow> [0..<nat (sc_num_banks c)]]"

lemma all_banks_range:
  "(p, g, b) \<in> set (all_banks c) \<longleftrightarrow>
     0 \<le> p \<and> p < sc_num_pchs c \<and> 0 \<le> g \<and> g < sc_num_bgs c \<and> 0 \<le> b \<and> b < sc_num_banks c"
proof -
  have r: "x \<in> int ` {0..<nat n} \<longleftrightarrow> 0 \<le> x \<and> x < n" for x n :: int
    by (auto simp: image_int_atLeastLessThan)
  have "(p, g, b) \<in> set (all_banks c) \<longleftrightarrow> p \<in> int ` {0..<nat (sc_num_pchs c)} \<and>
      g \<in> int ` {0..<nat (sc_num_bgs c)} \<and> b \<in> int ` {0..<nat (sc_num_banks c)}"
    by (auto simp: all_banks_def)
  then show ?thesis unfolding r by blast
qed

text \<open>One column of a tensor, padded with zeros.\<close>

definition column_data :: "sp_cfg \<Rightarrow> fp16 list \<Rightarrow> nat \<Rightarrow> nat \<Rightarrow> fp16 list option" where
  "column_data c t sk d = do {
     xs \<leftarrow> those (map (\<lambda>i. rd t (sk * dim_of c + d + i)) [0..<min FP16_PER_COLUMN (dim_of c - d)]);
     Some (xs @ replicate (FP16_PER_COLUMN - length xs) (fp16_of_f32 0)) }"

definition write_banks :: "sp_cfg \<Rightarrow> addr_vec \<Rightarrow> fp16 list \<Rightarrow> bank_storage \<Rightarrow> bank_storage" where
  "write_banks c av data st = fold (\<lambda>(p, g, b) st. write_col (sc_channel_id c) p g b
     (av_get (sc_row_level c) av) (av_get (sc_col_level c) av) data st) (all_banks c) st"

definition store_key :: "sp_cfg \<Rightarrow> fp16 list \<Rightarrow> fp16 list \<Rightarrow> bank_storage \<Rightarrow> nat \<Rightarrow> bank_storage option" where
  "store_key c k v st sk = do {
     st1 \<leftarrow> foldlM (\<lambda>st d. do { data \<leftarrow> column_data c k sk d; Some (write_banks c (kt_addr c sk d) data st) })
       st (chunk_starts c);
     foldlM (\<lambda>st d. do { data \<leftarrow> column_data c v sk d; Some (write_banks c (v_addr c sk d) data st) })
       st1 (chunk_starts c) }"

text \<open>
  The dimensions are converted to \<open>size_t\<close>: a negative one asks for a tensor of an impossible size
  or leads the loops out of range.
\<close>

definition setup_functional_data :: "generator \<Rightarrow> sp_cfg \<Rightarrow> fn_state option" where
  "setup_functional_data gen c =
   (if \<exists>n \<in> {pm_batch_size c, pm_num_heads c, pm_num_kv_heads c, pm_seq_len c, pm_d_head c}. n < 0 then None
    else do {
     let B = nat (pm_batch_size c);
     let H = nat (pm_num_heads c);
     let KV = nat (pm_num_kv_heads c);
     let S = seq_of c;
     let D = dim_of c;
     let q = generate_q_tensor gen B H S D;
     let k = generate_k_tensor gen B KV S D;
     let v = generate_v_tensor gen B KV S D;
     let we = generate_we_tensor gen B H S;
     (g, out) \<leftarrow> golden_compute q k v we (golden_new B H KV S D);
     st \<leftarrow> foldlM (store_key c k v) clear_store [0..<S];
     Some \<lparr>fn_store = st, fn_q = q, fn_k = k, fn_v = v, fn_we = we, fn_golden = out,
           fn_hw = replicate (length out) 0, fn_current_sq = 0\<rparr> })"

section \<open>Execution of a token\<close>

definition hw_read :: "sp_cfg \<Rightarrow> addr_vec \<Rightarrow> bank_storage \<Rightarrow> fp16 list \<times> bank_storage" where
  "hw_read c av st = read_col (sc_channel_id c) 0 0 0 (av_get (sc_row_level c) av) (av_get (sc_col_level c) av) st"

definition hw_score :: "sp_cfg \<Rightarrow> fp16 list \<Rightarrow> nat \<Rightarrow> bank_storage \<Rightarrow> nat \<Rightarrow> (fp16 \<times> bank_storage) option" where
  "hw_score c q sq st sk = do {
     (score, st') \<leftarrow> foldlM (\<lambda>(acc, st) d.
       (let (col, st1) = hw_read c (kt_addr c sk d) st in do {
         acc' \<leftarrow> foldlM (\<lambda>acc i. do {
             qx \<leftarrow> rd q (sq * dim_of c + d + i);
             kx \<leftarrow> rd col i;
             Some (f32_add acc (f32_mul (f32_of_fp16 qx) (f32_of_fp16 kx))) })
           acc [0..<min FP16_PER_COLUMN (dim_of c - d)];
         Some (acc', st1) })) (0, st) (chunk_starts c);
     Some (fp16_of_f32 score, st') }"

definition hw_pv :: "sp_cfg \<Rightarrow> fp16 list \<Rightarrow> bool list \<Rightarrow> nat \<Rightarrow> bank_storage \<Rightarrow> (f32 \<times> bank_storage) option" where
  "hw_pv c VB_A bitmask d st = foldlM (\<lambda>(acc, st) sk. do {
     m \<leftarrow> rd bitmask sk;
     if \<not> m then Some (acc, st)
     else (let (col, st1) = hw_read c (v_addr c sk d) st in do {
       p \<leftarrow> rd VB_A sk;
       x \<leftarrow> rd col (d mod FP16_PER_COLUMN);
       Some (f32_add acc (f32_mul (f32_of_fp16 p) (f32_of_fp16 x)), st1) }) }) (0, st) [0..<seq_of c]"

text \<open>The three loops of \<open>execute_functional_token\<close>: scores, ReLU and weights, sparse \<open>PV\<close>.\<close>

definition execute_functional_token :: "sp_cfg \<Rightarrow> nat \<Rightarrow> fn_state \<Rightarrow> fn_state option" where
  "execute_functional_token c sq f = do {
     (VB_B, st1) \<leftarrow> foldlM (\<lambda>(vb, st) sk. do {
         (s, st') \<leftarrow> hw_score c (fn_q f) sq st sk;
         vb' \<leftarrow> wr vb sk s;
         Some (vb', st') }) (replicate (seq_of c) (fp16_of_f32 0), fn_store f) [0..<seq_of c];
     (bitmask, VB_A) \<leftarrow> foldlM (\<lambda>(bm, va) sk. do {
         s \<leftarrow> rd VB_B sk;
         let relu_s = f32_max 0 (f32_of_fp16 s);
         bm' \<leftarrow> wr bm sk (f32_less 0 relu_s);
         w \<leftarrow> rd (fn_we f) sq;
         va' \<leftarrow> wr va sk (fp16_of_f32 (f32_mul (f32_of_fp16 w) relu_s));
         Some (bm', va') })
       (replicate (seq_of c) False, replicate (seq_of c) (fp16_of_f32 0)) [0..<seq_of c];
     (hw, st2) \<leftarrow> foldlM (\<lambda>(hw, st) d. do {
         (pv_acc, st') \<leftarrow> hw_pv c VB_A bitmask d st;
         hw' \<leftarrow> wr hw (sq * dim_of c + d) pv_acc;
         Some (hw', st') }) (fn_hw f, st1) [0..<dim_of c];
     Some (f\<lparr>fn_store := st2, fn_hw := hw\<rparr>) }"

text \<open>The guard in \<open>expand_sparepim_token\<close>.\<close>

definition functional_step :: "sp_cfg \<Rightarrow> fn_state \<Rightarrow> fn_state option" where
  "functional_step c f =
     (if pm_enable_functional c \<and> fn_current_sq f < pm_seq_len c
      then do {
        f' \<leftarrow> execute_functional_token c (nat (fn_current_sq f)) f;
        Some (f'\<lparr>fn_current_sq := fn_current_sq f + 1\<rparr>) }
      else Some f)"

text \<open>\<open>finalize\<close>: resize both outputs to the tokens processed and compare, with tolerances \<open>1e-2f\<close>.\<close>

definition f32_tol :: f32 where "f32_tol = 0x3c23d70a"

definition functional_finalize :: "sp_cfg \<Rightarrow> fn_state \<Rightarrow> bool" where
  "functional_finalize c f =
     (let n = nat (fn_current_sq f * pm_d_head c)
      in compare_tensors (vec_resize (fn_hw f) n 0) (vec_resize (fn_golden f) n 0) f32_tol f32_tol)"

end
