(* ===== verification/Base_Utils.thy ===== *)
theory Base_Utils
  imports Prelude "HOL-Library.Sublist"
begin

text \<open>
  The utility functions of \<open>src/base/utils.h\<close> and \<open>src/base/utils.cpp\<close>: capacity and frequency
  strings, JEDEC rounding of nanoseconds to clock cycles, integer logarithm, bit slicing and
  tokenization, with the standard-library number parsers they use. Unsigned 64-bit results are
  integers reduced modulo \<open>2 ^ 64\<close>.
\<close>

unbundle bit_operations_syntax

section \<open>Fixed-width integers\<close>

definition u64 :: "int \<Rightarrow> int" where
  "u64 x = take_bit 64 x"

definition i32 :: "int \<Rightarrow> int" where
  "i32 x = signed_take_bit 31 x"

section \<open>Number parsing of the standard library\<close>

datatype parse_error = Invalid_argument | Out_of_range

definition is_space :: "char \<Rightarrow> bool" where
  "is_space c \<longleftrightarrow> of_char c \<in> {9::nat, 10, 11, 12, 13, 32}"

definition digit_val :: "nat \<Rightarrow> char \<Rightarrow> nat option" where
  "digit_val base c =
     (let k = of_char c :: nat;
          d = (if 48 \<le> k \<and> k \<le> 57 then Some (k - 48)
               else if 97 \<le> k \<and> k \<le> 122 then Some (k - 87)
               else if 65 \<le> k \<and> k \<le> 90 then Some (k - 55) else None)
      in case d of Some v \<Rightarrow> if v < base then Some v else None | None \<Rightarrow> None)"

fun digits_val :: "nat \<Rightarrow> nat \<Rightarrow> string \<Rightarrow> nat" where
  "digits_val base acc [] = acc"
| "digits_val base acc (c # cs) =
     (case digit_val base c of Some v \<Rightarrow> digits_val base (acc * base + v) cs | None \<Rightarrow> acc)"

text \<open>
  \<open>strtoll\<close>/\<open>strtoull\<close>: leading white space, an optional sign, for base 16 an optional \<open>0x\<close>
  before a hexadecimal digit, then the longest run of digits. No digit is \<open>Invalid_argument\<close>.
\<close>

fun strip_hex :: "nat \<Rightarrow> string \<Rightarrow> string" where
  "strip_hex base (a # b # c # cs) =
     (if base = 16 \<and> a = CHR ''0'' \<and> b \<in> {CHR ''x'', CHR ''X''} \<and> digit_val 16 c \<noteq> None
      then c # cs else a # b # c # cs)"
| "strip_hex base cs = cs"

definition parse_number :: "nat \<Rightarrow> string \<Rightarrow> parse_error + bool \<times> nat" where
  "parse_number base s0 =
     (let s1 = dropWhile is_space s0;
          neg = (s1 \<noteq> [] \<and> hd s1 = CHR ''-'');
          s2 = (if s1 \<noteq> [] \<and> hd s1 \<in> {CHR ''-'', CHR ''+''} then tl s1 else s1);
          s3 = strip_hex base s2
      in if s3 \<noteq> [] \<and> digit_val base (hd s3) \<noteq> None then Inr (neg, digits_val base 0 s3)
         else Inl Invalid_argument)"

definition stoll :: "nat \<Rightarrow> string \<Rightarrow> parse_error + int" where
  "stoll base s = sbind (parse_number base s) (\<lambda>(neg, v).
     let x = (if neg then - int v else int v)
     in if - (2 ^ 63) \<le> x \<and> x < 2 ^ 63 then Inr x else Inl Out_of_range)"

definition stoull :: "nat \<Rightarrow> string \<Rightarrow> parse_error + int" where
  "stoull base s = sbind (parse_number base s) (\<lambda>(neg, v).
     if int v < 2 ^ 64 then Inr (u64 (if neg then - int v else int v)) else Inl Out_of_range)"

section \<open>Searching and tokenizing strings\<close>

text \<open>\<open>line.find(delim, from)\<close>: the first position at or after \<open>from\<close>, within the string.\<close>

function str_find :: "string \<Rightarrow> string \<Rightarrow> nat \<Rightarrow> nat option" where
  "str_find line delim from =
     (if length line < from then None
      else if prefix delim (drop from line) then Some from
      else str_find line delim (Suc from))"
  by pat_completeness auto
termination
  by (relation "measure (\<lambda>(line, delim, from). Suc (length line) - from)") auto

declare str_find.simps [simp del]

lemma str_find_Some:
  "str_find line delim from = Some pos \<Longrightarrow>
     from \<le> pos \<and> pos \<le> length line \<and> prefix delim (drop pos line) \<and>
     (\<forall>j. from \<le> j \<and> j < pos \<longrightarrow> \<not> prefix delim (drop j line))"
proof (induction line delim "from" rule: str_find.induct)
  case (1 line delim "from")
  show ?case
  proof (cases "length line < from \<or> prefix delim (drop from line)")
    case True
    with "1.prems" show ?thesis by (auto simp: str_find.simps [of line delim "from"] split: if_splits)
  next
    case False
    with 1 have *: "Suc from \<le> pos \<and> pos \<le> length line \<and> prefix delim (drop pos line) \<and>
        (\<forall>j. Suc from \<le> j \<and> j < pos \<longrightarrow> \<not> prefix delim (drop j line))"
      by (auto simp: str_find.simps [of line delim "from"])
    moreover have "\<not> prefix delim (drop j line)" if "from \<le> j" "j < pos" for j
      using that False * by (cases "j = from") auto
    ultimately show ?thesis by auto
  qed
qed

lemma str_find_None:
  "str_find line delim from = None \<Longrightarrow> from \<le> j \<Longrightarrow> j \<le> length line \<Longrightarrow> \<not> prefix delim (drop j line)"
proof (induction line delim "from" rule: str_find.induct)
  case (1 line delim "from")
  show ?case
  proof (cases "length line < from \<or> prefix delim (drop from line)")
    case True
    with "1.prems" show ?thesis by (auto simp: str_find.simps [of line delim "from"] split: if_splits)
  next
    case False
    with 1 show ?thesis
      by (cases "j = from") (auto simp: str_find.simps [of line delim "from"])
  qed
qed

definition str_contains :: "string \<Rightarrow> string \<Rightarrow> bool" where
  "str_contains s sub \<longleftrightarrow> str_find s sub 0 \<noteq> None"

text \<open>
  The loop of \<open>tokenize\<close>, which advances by one character past a delimiter. The final
  \<open>substr(last_pos)\<close> throws when \<open>last_pos\<close> has run past the end.
\<close>

function tokenize_from :: "string \<Rightarrow> string \<Rightarrow> nat \<Rightarrow> string list option" where
  "tokenize_from line delim lp =
     (case str_find line delim lp of
        Some pos \<Rightarrow> map_option (\<lambda>ts. take (pos - lp) (drop lp line) # ts)
                      (tokenize_from line delim (Suc pos))
      | None \<Rightarrow> if lp \<le> length line then Some [drop lp line] else None)"
  by pat_completeness auto
termination
proof (relation "measure (\<lambda>(line, delim, lp). Suc (length line) - lp)", goal_cases)
  case 1
  then show ?case by simp
next
  case (2 line delim lp pos)
  then show ?case using str_find_Some [of line delim lp pos] by auto
qed

declare tokenize_from.simps [simp del]

definition tokenize :: "string \<Rightarrow> string \<Rightarrow> string list option" where
  "tokenize line delim = tokenize_from line delim 0"

section \<open>Capacity, frequency, rounding\<close>

fun parse_suffix :: "(string \<times> nat) list \<Rightarrow> string \<Rightarrow> parse_error + int" where
  "parse_suffix [] s = Inr 0"
| "parse_suffix ((sfx, k) # rest) s =
     (if str_contains s sfx then sbind (stoull 10 s) (\<lambda>v. Inr (u64 (push_bit k v)))
      else parse_suffix rest s)"

definition parse_capacity_str :: "string \<Rightarrow> parse_error + int" where
  "parse_capacity_str s = parse_suffix [(''KB'', 10), (''MB'', 20), (''GB'', 30)] s"

definition parse_frequency_str :: "string \<Rightarrow> parse_error + int" where
  "parse_frequency_str s = parse_suffix [(''MHz'', 0), (''GHz'', 10)] s"

text \<open>
  \<open>t_ps\<close> is the number of picoseconds \<open>t_ns * 1000\<close> after its conversion to an integer.
\<close>

definition JEDEC_rounding :: "int \<Rightarrow> int \<Rightarrow> int" where
  "JEDEC_rounding t_ps tCK_ps = u64 (u64 (t_ps * 1000) div u64 tCK_ps + 974) div 1000"

definition JEDEC_rounding_DDR5 :: "int \<Rightarrow> int \<Rightarrow> int" where
  "JEDEC_rounding_DDR5 t_ps tCK_ps = u64 (u64 (t_ps * 997) div u64 tCK_ps + 1000) div 1000"

section \<open>Bits\<close>

text \<open>The shift loop of \<open>calc_log2\<close> on non-negative values.\<close>

fun calc_log2 :: "nat \<Rightarrow> nat" where
  "calc_log2 v = (if v div 2 = 0 then 0 else Suc (calc_log2 (v div 2)))"

declare calc_log2.simps [simp del]

text \<open>\<open>slice_lower_bits\<close>: the low bits, and the shifted address left behind.\<close>

definition slice_lower_bits :: "int \<Rightarrow> nat \<Rightarrow> int \<times> int" where
  "slice_lower_bits a n = (a AND (push_bit n 1 - 1), drop_bit n a)"

section \<open>Lemmas\<close>

lemma u64_small: "0 \<le> x \<Longrightarrow> x < 2 ^ 64 \<Longrightarrow> u64 x = x"
  by (simp add: u64_def take_bit_int_eq_self)

lemma slice_lower_bits_arith: "slice_lower_bits a n = (a mod 2 ^ n, a div 2 ^ n)"
  by (simp add: slice_lower_bits_def push_bit_of_1 mask_eq_exp_minus_1 [symmetric]
      take_bit_eq_mask [symmetric] take_bit_eq_mod drop_bit_eq_div)

lemma slice_lower_bits_join:
  "slice_lower_bits a n = (lo, hi) \<Longrightarrow> hi * 2 ^ n + lo = a \<and> 0 \<le> lo \<and> lo < 2 ^ n"
  by (auto simp: slice_lower_bits_arith div_mult_mod_eq)

lemma calc_log2_bounds: "0 < v \<Longrightarrow> 2 ^ calc_log2 v \<le> v \<and> v < 2 ^ Suc (calc_log2 v)"
proof (induction v rule: calc_log2.induct)
  case (1 v)
  show ?case
  proof (cases "v div 2 = 0")
    case True
    with "1.prems" have "v = 1" by auto
    then show ?thesis by (simp add: calc_log2.simps)
  next
    case False
    then have "2 ^ calc_log2 (v div 2) \<le> v div 2 \<and> v div 2 < 2 ^ Suc (calc_log2 (v div 2))"
      using 1 by simp
    then show ?thesis using False by (subst (1 2) calc_log2.simps) auto
  qed
qed

lemma calc_log2_pow [simp]: "calc_log2 (2 ^ n) = n"
proof (induction n)
  case 0
  then show ?case by (simp add: calc_log2.simps)
next
  case (Suc n)
  then show ?case by (subst calc_log2.simps) simp
qed

text \<open>
  Rounding with the JEDEC correction factor takes at most 2.6 percent of a cycle away from a
  timing and adds less than one cycle.
\<close>

lemma JEDEC_rounding_bounds:
  assumes "0 \<le> t_ps" "t_ps < 2 ^ 53" "0 < tck" "tck < 2 ^ 31"
  shows "t_ps * 1000 - 26 * tck < JEDEC_rounding t_ps tck * tck * 1000"
    and "JEDEC_rounding t_ps tck * tck * 1000 \<le> t_ps * 1000 + 974 * tck"
proof -
  let ?q = "t_ps * 1000 div tck"
  have "?q \<le> t_ps * 1000"
    using assms zdiv_mono2 [of "t_ps * 1000" 1 tck] by simp
  then have q: "0 \<le> ?q" "?q < 2 ^ 63" using assms by (auto simp: pos_imp_zdiv_nonneg_iff)
  have d: "?q * tck \<le> t_ps * 1000" "t_ps * 1000 - tck < ?q * tck"
    using minus_mod_eq_div_mult [of "t_ps * 1000" tck] pos_mod_bound [of tck "t_ps * 1000"]
      pos_mod_sign [of tck "t_ps * 1000"] assms(3) by linarith+
  have eq: "JEDEC_rounding t_ps tck = (?q + 974) div 1000"
    using assms q by (simp add: JEDEC_rounding_def u64_small)
  have "(?q + 974) div 1000 * 1000 \<le> ?q + 974" by simp
  then have "(?q + 974) div 1000 * 1000 * tck \<le> (?q + 974) * tck"
    using assms by (intro mult_right_mono) auto
  also have "\<dots> \<le> t_ps * 1000 + 974 * tck"
    using d by (simp add: algebra_simps)
  finally show "JEDEC_rounding t_ps tck * tck * 1000 \<le> t_ps * 1000 + 974 * tck"
    by (simp add: eq algebra_simps)
  have "?q + 974 - 999 \<le> (?q + 974) div 1000 * 1000" by (simp add: minus_mod_eq_div_mult [symmetric])
  then have "(?q - 25) * tck \<le> (?q + 974) div 1000 * 1000 * tck"
    using assms by (intro mult_right_mono) auto
  with d(2) show "t_ps * 1000 - 26 * tck < JEDEC_rounding t_ps tck * tck * 1000"
    by (simp add: eq algebra_simps)
qed

section \<open>Tokenization splits a line at a one-character delimiter\<close>

fun join_tokens :: "string \<Rightarrow> string list \<Rightarrow> string" where
  "join_tokens delim [] = []"
| "join_tokens delim [t] = t"
| "join_tokens delim (t # ts) = t @ delim @ join_tokens delim ts"

lemma prefix_singleton_drop: "j < length s \<Longrightarrow> prefix [c] (drop j s) \<longleftrightarrow> s ! j = c"
  by (cases "drop j s") (auto simp: nth_via_drop)

lemma tokenize_from_spec:
  assumes "tokenize_from line [c] lp = Some ts" "lp \<le> length line"
  shows "ts \<noteq> [] \<and> join_tokens [c] ts = drop lp line \<and> (\<forall>t \<in> set ts. c \<notin> set t)"
  using assms
proof (induction line "[c]" lp arbitrary: ts rule: tokenize_from.induct)
  case (1 line lp)
  show ?case
  proof (cases "str_find line [c] lp")
    case None
    with "1.prems" have ts: "ts = [drop lp line]"
      by (simp add: tokenize_from.simps [of line "[c]" lp])
    have "c \<notin> set (drop lp line)"
    proof
      assume "c \<in> set (drop lp line)"
      then obtain j where "j < length line - lp" "line ! (lp + j) = c"
        by (auto simp: in_set_conv_nth)
      then show False
        using str_find_None [OF None, of "lp + j"] prefix_singleton_drop [of "lp + j" line c]
        by (simp add: less_diff_conv add.commute)
    qed
    with ts show ?thesis by simp
  next
    case (Some pos)
    note f = str_find_Some [OF Some]
    then have pos: "pos < length line" by (cases "pos = length line") auto
    with f have c: "line ! pos = c" by (simp add: prefix_singleton_drop)
    from "1.prems" Some obtain us where
      us: "tokenize_from line [c] (Suc pos) = Some us" "ts = take (pos - lp) (drop lp line) # us"
      by (auto simp: tokenize_from.simps [of line "[c]" lp])
    from "1.hyps" [OF Some us(1)] pos have
      IH: "us \<noteq> []" "join_tokens [c] us = drop (Suc pos) line" "\<forall>t \<in> set us. c \<notin> set t" by auto
    have "c \<notin> set (take (pos - lp) (drop lp line))"
    proof
      assume "c \<in> set (take (pos - lp) (drop lp line))"
      then obtain j where "j < pos - lp" "line ! (lp + j) = c"
        using pos f by (auto simp: in_set_conv_nth)
      moreover from this pos have "lp \<le> lp + j" "lp + j < pos" "lp + j < length line" by auto
      ultimately show False
        using f prefix_singleton_drop [of "lp + j" line c] by blast
    qed
    moreover have "take (pos - lp) (drop lp line) @ [c] @ drop (Suc pos) line = drop lp line"
    proof -
      have "drop lp line = take (pos - lp) (drop lp line) @ drop (pos - lp) (drop lp line)"
        by (rule append_take_drop_id [symmetric])
      also have "drop (pos - lp) (drop lp line) = line ! pos # drop (Suc pos) line"
        using f pos by (simp add: Cons_nth_drop_Suc)
      finally show ?thesis using c by simp
    qed
    ultimately show ?thesis using IH us(2) by (cases us) auto
  qed
qed

lemma tokenize_from_total: "lp \<le> length line \<Longrightarrow> \<exists>ts. tokenize_from line [c] lp = Some ts"
proof (induction line "[c]" lp rule: tokenize_from.induct)
  case (1 line lp)
  show ?case
  proof (cases "str_find line [c] lp")
    case None
    with "1.prems" show ?thesis by (simp add: tokenize_from.simps [of line "[c]" lp])
  next
    case (Some pos)
    from str_find_Some [OF Some] have "pos < length line" by (cases "pos = length line") auto
    with "1.hyps" [OF Some] obtain us where "tokenize_from line [c] (Suc pos) = Some us" by auto
    with Some show ?thesis by (simp add: tokenize_from.simps [of line "[c]" lp])
  qed
qed

lemma tokenize_total: "\<exists>ts. tokenize line [c] = Some ts"
  unfolding tokenize_def by (rule tokenize_from_total) simp

lemma tokenize_spec:
  "tokenize line [c] = Some ts \<Longrightarrow>
     ts \<noteq> [] \<and> join_tokens [c] ts = line \<and> (\<forall>t \<in> set ts. c \<notin> set t)"
  unfolding tokenize_def using tokenize_from_spec [of line c 0 ts] by simp

end
