(* ===== verification/Spare_Controller.thy ===== *)
theory Spare_Controller
  imports Spare_Functional Base_Utils
begin

text \<open>
  The SPARE-PIM controller as a state machine (\<open>sparepim_controller.cpp\<close>): the request queue, the
  queue of operations a request expands to, and \<open>tick\<close>, which works off one operation at a time. The
  device is a parameter, the record \<open>dram_ops\<close> of the \<open>IDRAM\<close> operations the controller calls.
  \<open>None\<close> is undefined behaviour of the C++ (an index out of range).
\<close>

section \<open>The device interface\<close>

record 'd dram_ops =
  dr_ready :: "'d \<Rightarrow> int \<Rightarrow> addr_vec \<Rightarrow> bool option"
  dr_issue :: "'d \<Rightarrow> int \<Rightarrow> addr_vec \<Rightarrow> 'd option"
  dr_notify :: "'d \<Rightarrow> string \<Rightarrow> int \<Rightarrow> 'd option"
  dr_timing :: "'d \<Rightarrow> string \<Rightarrow> int option"
  dr_translate :: "'d \<Rightarrow> int \<Rightarrow> int option"
  dr_tick :: "'d \<Rightarrow> 'd"

section \<open>State\<close>

datatype op_kind = Command | Delay | ConfigureSPM | Complete

record sp_op =
  op_kind :: op_kind
  op_command :: int
  op_addr_vec :: addr_vec
  op_cycles :: int
  op_request :: request
  op_has_request :: bool

definition blank_op :: sp_op where
  "blank_op = \<lparr>op_kind = Command, op_command = -1, op_addr_vec = [], op_cycles = 0,
     op_request = request_addr 0 type_Read, op_has_request = False\<rparr>"

record voc_summary =
  vs_max_voc :: int
  vs_total_voc :: int
  vs_bgmu_reads :: int
  vs_voc_values :: int
  vs_max_updates :: int

definition voc_zero :: voc_summary where
  "voc_zero = \<lparr>vs_max_voc = 0, vs_total_voc = 0, vs_bgmu_reads = 0, vs_voc_values = 0, vs_max_updates = 0\<rparr>"

record sp_stats =
  st_tokens :: int
  st_mac_cmds :: int
  st_mov_cmds :: int
  st_emul_cmds :: int
  st_spm_cmds :: int
  st_acc_cmds :: int
  st_act_cmds :: int
  st_pre_cmds :: int
  st_bgmu_reads :: int
  st_bgmu_voc_values :: int
  st_bgmu_max_updates :: int
  st_bgmu_read_cycles :: int
  st_spm_cycles :: int
  st_skipped_spm :: int
  st_total_voc :: int
  st_max_voc_sum :: int
  st_completed :: int
  st_rejected :: int
  st_qk_rows :: int
  st_qk_page_hits :: int
  st_pv_rows :: int
  st_pv_page_hits :: int
  st_spm_skipped_act_pre :: int

definition stats_zero :: sp_stats where
  "stats_zero = \<lparr>st_tokens = 0, st_mac_cmds = 0, st_mov_cmds = 0, st_emul_cmds = 0, st_spm_cmds = 0,
     st_acc_cmds = 0, st_act_cmds = 0, st_pre_cmds = 0, st_bgmu_reads = 0, st_bgmu_voc_values = 0,
     st_bgmu_max_updates = 0, st_bgmu_read_cycles = 0, st_spm_cycles = 0, st_skipped_spm = 0,
     st_total_voc = 0, st_max_voc_sum = 0, st_completed = 0, st_rejected = 0, st_qk_rows = 0,
     st_qk_page_hits = 0, st_pv_rows = 0, st_pv_page_hits = 0, st_spm_skipped_act_pre = 0\<rparr>"

record sp_state =
  cs_queue :: "request list"
  cs_ops :: "sp_op list"
  cs_delay_active :: bool
  cs_delay_done_clk :: clk
  cs_clk :: clk
  cs_stats :: sp_stats
  cs_fn :: fn_state

definition sp_start :: "fn_state \<Rightarrow> sp_state" where
  "sp_start f = \<lparr>cs_queue = [], cs_ops = [], cs_delay_active = False, cs_delay_done_clk = -1,
     cs_clk = 0, cs_stats = stats_zero, cs_fn = f\<rparr>"

text \<open>\<open>setup\<close> of the functional part, when it is enabled.\<close>

definition sp_boot :: "generator \<Rightarrow> sp_cfg \<Rightarrow> sp_state option" where
  "sp_boot gen c = (if pm_enable_functional c then map_option sp_start (setup_functional_data gen c)
     else Some (sp_start fn_empty))"

definition upd_stats :: "(sp_stats \<Rightarrow> sp_stats) \<Rightarrow> sp_state \<Rightarrow> sp_state" where
  "upd_stats f s = s\<lparr>cs_stats := f (cs_stats s)\<rparr>"

section \<open>Accepting requests\<close>

definition is_direct_pim_request :: "sp_cfg \<Rightarrow> int \<Rightarrow> bool" where
  "is_direct_pim_request c ty \<longleftrightarrow> ty = sc_req_mac c \<or> ty = sc_req_emul c \<or> ty = sc_req_mov c \<or>
     ty = sc_req_spm c \<or> ty = sc_req_acc c"

text \<open>\<open>m_request_queue.size() >= static_cast<size_t>(m_queue_size)\<close>\<close>

definition queue_full :: "sp_cfg \<Rightarrow> sp_state \<Rightarrow> bool" where
  "queue_full c s \<longleftrightarrow> u64 (pm_queue_size c) \<le> int (length (cs_queue s))"

definition reject :: "sp_state \<Rightarrow> sp_state" where
  "reject = upd_stats (\<lambda>t. t\<lparr>st_rejected := st_rejected t + 1\<rparr>)"

definition sp_send :: "sp_cfg \<Rightarrow> request \<Rightarrow> sp_state \<Rightarrow> bool \<times> sp_state" where
  "sp_send c r s =
     (if queue_full c s then (False, reject s)
      else let r' = r\<lparr>rq_arrive := cs_clk s\<rparr> in
        if rq_type r = sc_req_sparepim c then (True, s\<lparr>cs_queue := cs_queue s @ [r']\<rparr>)
        else if is_direct_pim_request c (rq_type r) \<or> rq_type r = sc_req_read c \<or> rq_type r = sc_req_write c
        then (True, s\<lparr>cs_queue := cs_queue s @ [r']\<rparr>)
        else (False, reject s))"

definition sp_priority_send :: "sp_cfg \<Rightarrow> request \<Rightarrow> sp_state \<Rightarrow> bool \<times> sp_state" where
  "sp_priority_send c r s =
     (if queue_full c s then (False, reject s)
      else (True, s\<lparr>cs_queue := r\<lparr>rq_arrive := cs_clk s\<rparr> # cs_queue s\<rparr>))"

section \<open>Queueing operations\<close>

definition push_op :: "sp_op \<Rightarrow> sp_state \<Rightarrow> sp_state" where
  "push_op op s = s\<lparr>cs_ops := cs_ops s @ [op]\<rparr>"

definition enqueue_command :: "int \<Rightarrow> addr_vec \<Rightarrow> sp_state \<Rightarrow> sp_state" where
  "enqueue_command cmd av = push_op (blank_op\<lparr>op_kind := Command, op_command := cmd, op_addr_vec := av\<rparr>)"

definition enqueue_per_bank_command :: "sp_cfg \<Rightarrow> int \<Rightarrow> addr_vec \<Rightarrow> sp_state \<Rightarrow> sp_state" where
  "enqueue_per_bank_command c cmd av =
     fold (\<lambda>(p, g, b). enqueue_command cmd (make_bank_addr c av p g b)) (all_banks c)"

definition enqueue_configure_spm :: "int \<Rightarrow> sp_state \<Rightarrow> sp_state" where
  "enqueue_configure_spm lat = push_op (blank_op\<lparr>op_kind := ConfigureSPM, op_cycles := lat\<rparr>)"

definition enqueue_complete :: "request \<Rightarrow> sp_state \<Rightarrow> sp_state" where
  "enqueue_complete r = push_op (blank_op\<lparr>op_kind := Complete, op_request := r, op_has_request := True\<rparr>)"

definition bgmu_read_latency :: "'d dram_ops \<Rightarrow> 'd \<Rightarrow> int \<Rightarrow> int option" where
  "bgmu_read_latency D d read_count = do {
     cl \<leftarrow> dr_timing D d ''nCL'';
     ccds \<leftarrow> dr_timing D d ''nCCDS'';
     bl \<leftarrow> dr_timing D d ''nBL'';
     Some (cl + (read_count - 1) * ccds + bl) }"

definition enqueue_bgmu_read_delay ::
  "'d dram_ops \<Rightarrow> 'd \<Rightarrow> sp_cfg \<Rightarrow> int \<Rightarrow> int \<Rightarrow> sp_state \<Rightarrow> sp_state option" where
  "enqueue_bgmu_read_delay D d c bgmu_reads voc_values s = (let read_count = max 1 bgmu_reads in do {
     latency \<leftarrow> bgmu_read_latency D d read_count;
     let s1 = upd_stats (\<lambda>t. t\<lparr>st_bgmu_reads := st_bgmu_reads t + read_count,
           st_bgmu_voc_values := st_bgmu_voc_values t +
             (if voc_values > 0 then voc_values else read_count * sc_num_banks c),
           st_bgmu_read_cycles := st_bgmu_read_cycles t + latency\<rparr>) s;
     Some (if \<not> pm_bgmu_read_as_delay c then s1
           else push_op (blank_op\<lparr>op_kind := Delay, op_cycles := max 1 latency\<rparr>) s1) })"

section \<open>The VOC scan of the BGMUs\<close>

definition bgmu_value :: "int \<Rightarrow> voc_summary \<Rightarrow> voc_summary" where
  "bgmu_value v s = (let tmp = max 0 v;
       s1 = s\<lparr>vs_voc_values := vs_voc_values s + 1, vs_total_voc := vs_total_voc s + tmp\<rparr>
     in if tmp > vs_max_voc s1 then s1\<lparr>vs_max_voc := tmp, vs_max_updates := vs_max_updates s1 + 1\<rparr> else s1)"

text \<open>The inner loop stops at the end of the vector.\<close>

fun bgmu_banks :: "int list \<Rightarrow> nat \<Rightarrow> nat list \<Rightarrow> voc_summary \<Rightarrow> voc_summary" where
  "bgmu_banks vocs base_idx [] s = s"
| "bgmu_banks vocs base_idx (bank # banks) s =
     (if base_idx + bank \<ge> length vocs then s
      else bgmu_banks vocs base_idx banks (bgmu_value (vocs ! (base_idx + bank)) s))"

definition read_bgmu_vocs_and_find_max :: "sp_cfg \<Rightarrow> request \<Rightarrow> voc_summary" where
  "read_bgmu_vocs_and_find_max c r =
     (let vocs = (case rq_payload r of None \<Rightarrow> [] | Some v \<Rightarrow> v)
      in if vocs \<noteq> []
         then let n = max 1 (sc_num_banks c); reads = ceil_div (int (length vocs)) n
              in fold (\<lambda>bg. bgmu_banks vocs (bg * nat n) [0..<nat n]) [0..<nat reads]
                   (voc_zero\<lparr>vs_bgmu_reads := reads\<rparr>)
         else let m = max 0 (rq_scratch r ! 0)
              in \<lparr>vs_max_voc = m, vs_total_voc = max 0 (rq_scratch r ! 1), vs_bgmu_reads = sc_num_bgs c,
                  vs_voc_values = sc_num_bgs c * sc_num_banks c, vs_max_updates = (if m > 0 then 1 else 0)\<rparr>)"

section \<open>The stages of a token\<close>

text \<open>How far a stage that has issued \<open>n\<close> of \<open>count\<close> columns goes on within the open row.\<close>

definition row_chunk :: "sp_cfg \<Rightarrow> int \<Rightarrow> int \<Rightarrow> int \<Rightarrow> int" where
  "row_chunk c start n count =
     min (count - n) (columns_per_row c - (start + n) smod columns_per_row c)"

lemma smod_less: "0 < b \<Longrightarrow> (a :: int) smod b < b"
proof -
  assume "0 < b"
  then have "\<bar>a smod b\<bar> < b" using abs_mod_less [of b "\<bar>a\<bar>"] by (auto simp: signed_modulo_int_def sgn_if)
  then show ?thesis by linarith
qed

lemma row_chunk_pos: "n < count \<Longrightarrow> 0 < row_chunk c start n count"
proof -
  have w: "0 < columns_per_row c" by (simp add: columns_per_row_def)
  assume "n < count"
  with smod_less [OF w, of "start + n"] show ?thesis by (simp add: row_chunk_def)
qed

text \<open>One row of the \<open>QK\<close> stage: open it, a \<open>MAC\<close> per column, close it.\<close>

definition qk_row :: "sp_cfg \<Rightarrow> addr_vec \<Rightarrow> int \<Rightarrow> int \<Rightarrow> sp_state \<Rightarrow> sp_state" where
  "qk_row c base_addr issued chunk s =
     (let row_addr = make_esdm_addr c base_addr (pm_kt_row_offset c) (pm_kt_col_start c + issued);
          s1 = upd_stats (\<lambda>t. t\<lparr>st_qk_rows := st_qk_rows t + 1,
            st_qk_page_hits := (if chunk > 0 then st_qk_page_hits t + (chunk - 1) else st_qk_page_hits t)\<rparr>) s;
          s2 = (if pm_enable_qk_act_pre c then enqueue_per_bank_command c (sc_cmd_act c) row_addr s1 else s1);
          s3 = fold (\<lambda>i. enqueue_command (sc_cmd_mac c) (make_all_bank_addr c
            (make_esdm_addr c base_addr (pm_kt_row_offset c) (pm_kt_col_start c + issued + int i))))
            [0..<nat chunk] s2
      in if pm_enable_qk_act_pre c then enqueue_per_bank_command c (sc_cmd_pre c) row_addr s3 else s3)"

function qk_rows :: "sp_cfg \<Rightarrow> addr_vec \<Rightarrow> int \<Rightarrow> int \<Rightarrow> sp_state \<Rightarrow> sp_state" where
  "qk_rows c base_addr mac_commands issued s =
     (if issued < mac_commands
      then let chunk = row_chunk c (pm_kt_col_start c) issued mac_commands
           in qk_rows c base_addr mac_commands (issued + chunk) (qk_row c base_addr issued chunk s)
      else s)"
  by pat_completeness auto
termination
proof (relation "measure (\<lambda>(c, base, count, n, s). nat (count - n))")
  fix c base count issued s chunk
  assume "issued < (count :: int)" "(chunk :: int) = row_chunk c (pm_kt_col_start c) issued count"
  then have "0 < chunk" "issued < count" using row_chunk_pos by auto
  then show "((c, base, count, issued + chunk, s'), c, base, count, issued, s)
      \<in> measure (\<lambda>(c, base, count, n, s). nat (count - n))" for s' by auto
qed simp_all

declare qk_rows.simps [simp del]

definition enqueue_qk_stage :: "sp_cfg \<Rightarrow> addr_vec \<Rightarrow> int \<Rightarrow> sp_state \<Rightarrow> sp_state" where
  "enqueue_qk_stage c base_addr mac_commands s =
     (if mac_commands \<le> 0 then s
      else if \<not> pm_enable_esdm c
      then fold (\<lambda>i. enqueue_command (sc_cmd_mac c) (make_all_bank_addr c base_addr)) [0..<nat mac_commands] s
      else qk_rows c base_addr mac_commands 0 s)"

definition spm_latency_of :: "sp_cfg \<Rightarrow> int \<Rightarrow> int" where
  "spm_latency_of c vocs = max 1 (pm_spm_fixed_cycles c + vocs * pm_spm_cycles_per_voc c)"

text \<open>One row of the sparse \<open>PV\<close> stage: configure the latency, open, \<open>SPM\<close>, close.\<close>

definition spm_row :: "sp_cfg \<Rightarrow> int \<Rightarrow> addr_vec \<Rightarrow> addr_vec \<Rightarrow> sp_state \<Rightarrow> sp_state" where
  "spm_row c vocs bank_addr all_addr s =
     (let latency = spm_latency_of c vocs;
          s1 = enqueue_configure_spm latency
                 (upd_stats (\<lambda>t. t\<lparr>st_spm_cycles := st_spm_cycles t + latency\<rparr>) s);
          s2 = (if pm_enable_act_spm_pre c then enqueue_per_bank_command c (sc_cmd_act c) bank_addr s1 else s1);
          s3 = enqueue_command (sc_cmd_spm c) all_addr s2
      in if pm_enable_act_spm_pre c then enqueue_per_bank_command c (sc_cmd_pre c) bank_addr s3 else s3)"

function pv_rows :: "sp_cfg \<Rightarrow> addr_vec \<Rightarrow> int \<Rightarrow> int \<Rightarrow> sp_state \<Rightarrow> sp_state" where
  "pv_rows c base_addr max_voc processed s =
     (if processed < max_voc
      then let chunk = row_chunk c (pm_v_col_start c) processed max_voc;
               row_addr = make_esdm_addr c base_addr (pm_v_row_offset c) (pm_v_col_start c + processed);
               s1 = upd_stats (\<lambda>t. t\<lparr>st_pv_rows := st_pv_rows t + 1,
                 st_pv_page_hits := (if chunk > 0 then st_pv_page_hits t + (chunk - 1) else st_pv_page_hits t)\<rparr>) s
           in pv_rows c base_addr max_voc (processed + chunk)
                (spm_row c chunk row_addr (make_all_bank_addr c row_addr) s1)
      else s)"
  by pat_completeness auto
termination
proof (relation "measure (\<lambda>(c, base, count, n, s). nat (count - n))")
  fix c base count processed s chunk
  assume "processed < (count :: int)" "(chunk :: int) = row_chunk c (pm_v_col_start c) processed count"
  then have "0 < chunk" "processed < count" using row_chunk_pos by auto
  then show "((c, base, count, processed + chunk, s'), c, base, count, processed, s)
      \<in> measure (\<lambda>(c, base, count, n, s). nat (count - n))" for s' by auto
qed simp_all

declare pv_rows.simps [simp del]

definition enqueue_sparse_pv_stage :: "sp_cfg \<Rightarrow> addr_vec \<Rightarrow> int \<Rightarrow> sp_state \<Rightarrow> sp_state" where
  "enqueue_sparse_pv_stage c base_addr max_voc s =
     (if \<not> pm_enable_esdm c then spm_row c max_voc base_addr (make_all_bank_addr c base_addr) s
      else pv_rows c base_addr max_voc 0 s)"

section \<open>Expanding a request\<close>

definition expand_sparepim_token ::
  "'d dram_ops \<Rightarrow> 'd \<Rightarrow> sp_cfg \<Rightarrow> request \<Rightarrow> sp_state \<Rightarrow> sp_state option" where
  "expand_sparepim_token D d c r s0 = do {
     f \<leftarrow> functional_step c (cs_fn s0);
     let base_addr = normalize_addr c (rq_addr_vec r);
     let voc = read_bgmu_vocs_and_find_max c r;
     let max_voc = vs_max_voc voc;
     let mac_commands = (if rq_scratch r ! 2 > 0 then rq_scratch r ! 2 else pm_mac_commands_per_token c);
     let acc_commands = (if rq_scratch r ! 3 > 0 then rq_scratch r ! 3 else pm_acc_commands_per_token c);
     let total_voc = (if vs_total_voc voc = 0 \<and> max_voc > 0 then max_voc else vs_total_voc voc);
     let s1 = upd_stats (\<lambda>t. t\<lparr>st_tokens := st_tokens t + 1, st_total_voc := st_total_voc t + total_voc,
           st_max_voc_sum := st_max_voc_sum t + max_voc,
           st_bgmu_max_updates := st_bgmu_max_updates t + vs_max_updates voc\<rparr>) (s0\<lparr>cs_fn := f\<rparr>);
     let s2 = enqueue_qk_stage c base_addr mac_commands s1;
     let elemax_addr = make_all_bank_addr c (make_esdm_addr c base_addr (pm_kt_row_offset c) (pm_kt_col_start c));
     let s3 = enqueue_command (sc_cmd_emul c) elemax_addr (enqueue_command (sc_cmd_mov c) elemax_addr s2);
     s4 \<leftarrow> enqueue_bgmu_read_delay D d c (vs_bgmu_reads voc) (vs_voc_values voc) s3;
     Some (if max_voc = 0
       then enqueue_complete r (upd_stats (\<lambda>t. t\<lparr>st_skipped_spm := st_skipped_spm t + 1,
              st_spm_skipped_act_pre := (if pm_enable_act_spm_pre c
                then st_spm_skipped_act_pre t + total_bank_count c * 2 else st_spm_skipped_act_pre t)\<rparr>) s4)
       else enqueue_complete r
              (fold (\<lambda>i. enqueue_command (sc_cmd_acc c) (make_acc_addr c base_addr (int i))) [0..<nat acc_commands]
                (enqueue_sparse_pv_stage c base_addr max_voc s4))) }"

definition direct_command :: "'d dram_ops \<Rightarrow> 'd \<Rightarrow> sp_cfg \<Rightarrow> int \<Rightarrow> int option" where
  "direct_command D d c ty = (if ty = sc_req_read c then Some (sc_cmd_rd c)
     else if ty = sc_req_write c then Some (sc_cmd_wr c) else dr_translate D d ty)"

definition expand_direct_request ::
  "'d dram_ops \<Rightarrow> 'd \<Rightarrow> sp_cfg \<Rightarrow> request \<Rightarrow> sp_state \<Rightarrow> sp_state option" where
  "expand_direct_request D d c r s = do {
     cmd \<leftarrow> direct_command D d c (rq_type r);
     Some (enqueue_complete r (enqueue_command cmd (normalize_addr c (rq_addr_vec r)) s)) }"

definition expand_request :: "'d dram_ops \<Rightarrow> 'd \<Rightarrow> sp_cfg \<Rightarrow> request \<Rightarrow> sp_state \<Rightarrow> sp_state option" where
  "expand_request D d c r s =
     (if rq_type r = sc_req_sparepim c then expand_sparepim_token D d c r s else expand_direct_request D d c r s)"

section \<open>One tick\<close>

definition pop_op :: "sp_state \<Rightarrow> sp_state" where
  "pop_op s = s\<lparr>cs_ops := tl (cs_ops s)\<rparr>"

definition tick_delay :: "sp_op \<Rightarrow> sp_state \<Rightarrow> sp_state" where
  "tick_delay op s =
     (let s1 = (if \<not> cs_delay_active s
                then s\<lparr>cs_delay_active := True, cs_delay_done_clk := cs_clk s + op_cycles op\<rparr> else s)
      in if cs_clk s1 \<ge> cs_delay_done_clk s1
         then pop_op (s1\<lparr>cs_delay_active := False, cs_delay_done_clk := -1\<rparr>) else s1)"

definition update_command_stats :: "sp_cfg \<Rightarrow> int \<Rightarrow> sp_state \<Rightarrow> sp_state" where
  "update_command_stats c cmd = upd_stats (\<lambda>t.
     if cmd = sc_cmd_mac c then t\<lparr>st_mac_cmds := st_mac_cmds t + 1\<rparr>
     else if cmd = sc_cmd_mov c then t\<lparr>st_mov_cmds := st_mov_cmds t + 1\<rparr>
     else if cmd = sc_cmd_emul c then t\<lparr>st_emul_cmds := st_emul_cmds t + 1\<rparr>
     else if cmd = sc_cmd_spm c then t\<lparr>st_spm_cmds := st_spm_cmds t + 1\<rparr>
     else if cmd = sc_cmd_acc c then t\<lparr>st_acc_cmds := st_acc_cmds t + 1\<rparr>
     else if cmd = sc_cmd_act c then t\<lparr>st_act_cmds := st_act_cmds t + 1\<rparr>
     else if cmd = sc_cmd_pre c then t\<lparr>st_pre_cmds := st_pre_cmds t + 1\<rparr>
     else t)"

definition issue_if_ready :: "'d dram_ops \<Rightarrow> sp_cfg \<Rightarrow> sp_op \<Rightarrow> sp_state \<times> 'd \<Rightarrow> (sp_state \<times> 'd) option" where
  "issue_if_ready D c op sd = (case sd of (s, d) \<Rightarrow> do {
     ready \<leftarrow> dr_ready D d (op_command op) (op_addr_vec op);
     if \<not> ready then Some (s, d)
     else do {
       d' \<leftarrow> dr_issue D d (op_command op) (op_addr_vec op);
       Some (pop_op (update_command_stats c (op_command op) s), d') } })"

text \<open>\<open>complete_request\<close>, and the callback it makes, if any.\<close>

definition complete_request :: "sp_op \<Rightarrow> sp_state \<Rightarrow> sp_state \<times> (nat \<times> request) list" where
  "complete_request op s =
     (if \<not> op_has_request op then (s, [])
      else let r = (op_request op)\<lparr>rq_depart := cs_clk s\<rparr>
           in (upd_stats (\<lambda>t. t\<lparr>st_completed := st_completed t + 1\<rparr>) s,
               case rq_callback r of None \<Rightarrow> [] | Some cb \<Rightarrow> [(cb, r)]))"

text \<open>The state after a tick, the device after it, and the callbacks made.\<close>

definition run_op ::
  "'d dram_ops \<Rightarrow> sp_cfg \<Rightarrow> sp_state \<times> 'd \<Rightarrow> ((sp_state \<times> 'd) \<times> (nat \<times> request) list) option" where
  "run_op D c sd = (case sd of (s, d) \<Rightarrow>
     (case cs_ops s of
        [] \<Rightarrow> Some ((s, d), [])
      | op # _ \<Rightarrow>
          (case op_kind op of
             Delay \<Rightarrow> Some ((tick_delay op s, d), [])
           | ConfigureSPM \<Rightarrow> do { d' \<leftarrow> dr_notify D d ''sparepim_spm_latency'' (op_cycles op); Some ((pop_op s, d'), []) }
           | Complete \<Rightarrow> (case complete_request op s of (s1, cbs) \<Rightarrow> Some ((pop_op s1, d), cbs))
           | Command \<Rightarrow> do { sd' \<leftarrow> issue_if_ready D c op (s, d); Some (sd', []) })))"

definition next_request :: "'d dram_ops \<Rightarrow> sp_cfg \<Rightarrow> sp_state \<times> 'd \<Rightarrow> (sp_state \<times> 'd) option" where
  "next_request D c sd = (case sd of (s, d) \<Rightarrow>
     (case cs_queue s of
        r # rest \<Rightarrow> if cs_ops s = [] then do { s' \<leftarrow> expand_request D d c r (s\<lparr>cs_queue := rest\<rparr>); Some (s', d) }
          else Some (s, d)
      | [] \<Rightarrow> Some (s, d)))"

definition sp_tick ::
  "'d dram_ops \<Rightarrow> sp_cfg \<Rightarrow> sp_state \<times> 'd \<Rightarrow> ((sp_state \<times> 'd) \<times> (nat \<times> request) list) option" where
  "sp_tick D c sd = (case sd of (s, d) \<Rightarrow> do {
     sd' \<leftarrow> next_request D c (s\<lparr>cs_clk := cs_clk s + 1\<rparr>, d);
     run_op D c sd' })"

end
