(* ===== verification/Spare_Stream.thy ===== *)
theory Spare_Stream
  imports Spare_Controller
begin

text \<open>
  The stream of operations a request expands to. Every enqueuing function appends a list of
  operations and touches nothing else but statistics; the lists are \<open>token_ops\<close> and its parts. The
  theorems are about these streams: which commands in which number, the row discipline of every
  bank, and what the statistics add up to.
\<close>

section \<open>What enqueuing leaves alone\<close>

definition frame :: "sp_state \<Rightarrow> request list \<times> bool \<times> clk \<times> clk \<times> fn_state" where
  "frame s = (cs_queue s, cs_delay_active s, cs_delay_done_clk s, cs_clk s, cs_fn s)"

text \<open>\<open>s'\<close> is \<open>s\<close> with \<open>ops\<close> appended and other statistics.\<close>

definition appends :: "sp_state \<Rightarrow> sp_op list \<Rightarrow> sp_state \<Rightarrow> bool" where
  "appends s ops s' \<longleftrightarrow> cs_ops s' = cs_ops s @ ops \<and> frame s' = frame s"

named_theorems stream \<open>what an enqueuing function appends\<close>

lemma appends_trans [trans]: "appends s xs s1 \<Longrightarrow> appends s1 ys s2 \<Longrightarrow> appends s (xs @ ys) s2"
  by (simp add: appends_def)

lemma appends_upd_stats [stream]: "appends s [] (upd_stats f s)"
  by (simp add: appends_def upd_stats_def frame_def)

lemma appends_refl [stream]: "appends s [] s"
  by (simp add: appends_def)

lemma appends_push_op [stream]: "appends s [op] (push_op op s)"
  by (simp add: appends_def push_op_def frame_def)

lemma appends_fold:
  assumes "\<And>x s. x \<in> set xs \<Longrightarrow> appends s [g x] (f x s)"
  shows "appends s (map g xs) (fold f xs s)"
  using assms
proof (induction xs arbitrary: s)
  case (Cons x xs)
  have "appends s [g x] (f x s)" "appends (f x s) (map g xs) (fold f xs (f x s))"
    using Cons by auto
  from appends_trans [OF this] show ?case by simp
qed (simp add: stream)

definition cmd_op :: "int \<Rightarrow> addr_vec \<Rightarrow> sp_op" where
  "cmd_op cmd av = blank_op\<lparr>op_kind := Command, op_command := cmd, op_addr_vec := av\<rparr>"

definition spm_op :: "int \<Rightarrow> sp_op" where
  "spm_op lat = blank_op\<lparr>op_kind := ConfigureSPM, op_cycles := lat\<rparr>"

definition delay_op :: "int \<Rightarrow> sp_op" where
  "delay_op n = blank_op\<lparr>op_kind := Delay, op_cycles := n\<rparr>"

definition complete_op :: "request \<Rightarrow> sp_op" where
  "complete_op r = blank_op\<lparr>op_kind := Complete, op_request := r, op_has_request := True\<rparr>"

lemma op_fields [simp]:
  "op_kind (cmd_op cmd av) = Command" "op_command (cmd_op cmd av) = cmd" "op_addr_vec (cmd_op cmd av) = av"
  "op_kind (spm_op lat) = ConfigureSPM" "op_cycles (spm_op lat) = lat"
  "op_kind (delay_op n) = Delay" "op_cycles (delay_op n) = n"
  "op_kind (complete_op r) = Complete" "op_request (complete_op r) = r" "op_has_request (complete_op r)"
  by (simp_all add: cmd_op_def spm_op_def delay_op_def complete_op_def)

definition bank_ops :: "sp_cfg \<Rightarrow> int \<Rightarrow> addr_vec \<Rightarrow> sp_op list" where
  "bank_ops c cmd av = map (\<lambda>(p, g, b). cmd_op cmd (make_bank_addr c av p g b)) (all_banks c)"

lemma appends_enqueue [stream]:
  "appends s [cmd_op cmd av] (enqueue_command cmd av s)"
  "appends s [spm_op lat] (enqueue_configure_spm lat s)"
  "appends s [complete_op r] (enqueue_complete r s)"
  by (simp_all add: enqueue_command_def enqueue_configure_spm_def enqueue_complete_def cmd_op_def spm_op_def
      complete_op_def stream)

lemma appends_per_bank [stream]: "appends s (bank_ops c cmd av) (enqueue_per_bank_command c cmd av s)"
  unfolding enqueue_per_bank_command_def bank_ops_def
  by (rule appends_fold) (auto simp: stream)

section \<open>The streams\<close>

text \<open>The commands of one row, between activation and precharge.\<close>

definition row_ops :: "bool \<Rightarrow> sp_cfg \<Rightarrow> addr_vec \<Rightarrow> sp_op list \<Rightarrow> sp_op list" where
  "row_ops enable c av body =
     (if enable then bank_ops c (sc_cmd_act c) av @ body @ bank_ops c (sc_cmd_pre c) av else body)"

definition kt_row_addr :: "sp_cfg \<Rightarrow> addr_vec \<Rightarrow> int \<Rightarrow> addr_vec" where
  "kt_row_addr c base n = make_esdm_addr c base (pm_kt_row_offset c) (pm_kt_col_start c + n)"

definition v_row_addr :: "sp_cfg \<Rightarrow> addr_vec \<Rightarrow> int \<Rightarrow> addr_vec" where
  "v_row_addr c base n = make_esdm_addr c base (pm_v_row_offset c) (pm_v_col_start c + n)"

definition mac_ops :: "sp_cfg \<Rightarrow> addr_vec \<Rightarrow> int \<Rightarrow> int \<Rightarrow> sp_op list" where
  "mac_ops c base n chunk =
     map (\<lambda>i. cmd_op (sc_cmd_mac c) (make_all_bank_addr c (kt_row_addr c base (n + int i)))) [0..<nat chunk]"

function row_starts :: "sp_cfg \<Rightarrow> int \<Rightarrow> int \<Rightarrow> int \<Rightarrow> (int \<times> int) list" where
  "row_starts c start count n =
     (if n < count then (n, row_chunk c start n count) # row_starts c start count (n + row_chunk c start n count) else [])"
  by pat_completeness auto
termination
proof (relation "measure (\<lambda>(c, start, count, n). nat (count - n))")
  fix c start count n assume "n < (count :: int)"
  with row_chunk_pos [OF this, of c start]
  show "((c, start, count, n + row_chunk c start n count), c, start, count, n)
      \<in> measure (\<lambda>(c, start, count, n). nat (count - n))" by auto
qed simp

declare row_starts.simps [simp del]

definition qk_ops :: "sp_cfg \<Rightarrow> addr_vec \<Rightarrow> (int \<times> int) list \<Rightarrow> sp_op list" where
  "qk_ops c base rows = concat (map (\<lambda>(n, chunk).
     row_ops (pm_enable_qk_act_pre c) c (kt_row_addr c base n) (mac_ops c base n chunk)) rows)"

definition spm_row_ops :: "sp_cfg \<Rightarrow> int \<Rightarrow> addr_vec \<Rightarrow> sp_op list" where
  "spm_row_ops c vocs av = spm_op (spm_latency_of c vocs) #
     row_ops (pm_enable_act_spm_pre c) c av [cmd_op (sc_cmd_spm c) (make_all_bank_addr c av)]"

definition pv_ops :: "sp_cfg \<Rightarrow> addr_vec \<Rightarrow> (int \<times> int) list \<Rightarrow> sp_op list" where
  "pv_ops c base rows = concat (map (\<lambda>(n, chunk). spm_row_ops c chunk (v_row_addr c base n)) rows)"

definition qk_stage_ops :: "sp_cfg \<Rightarrow> addr_vec \<Rightarrow> int \<Rightarrow> sp_op list" where
  "qk_stage_ops c base macs =
     (if pm_enable_esdm c then qk_ops c base (row_starts c (pm_kt_col_start c) macs 0)
      else replicate (nat macs) (cmd_op (sc_cmd_mac c) (make_all_bank_addr c base)))"

definition pv_stage_ops :: "sp_cfg \<Rightarrow> addr_vec \<Rightarrow> int \<Rightarrow> sp_op list" where
  "pv_stage_ops c base vocs =
     (if pm_enable_esdm c then pv_ops c base (row_starts c (pm_v_col_start c) vocs 0) else spm_row_ops c vocs base)"

definition acc_ops :: "sp_cfg \<Rightarrow> addr_vec \<Rightarrow> int \<Rightarrow> sp_op list" where
  "acc_ops c base n = map (\<lambda>i. cmd_op (sc_cmd_acc c) (make_acc_addr c base (int i))) [0..<nat n]"

definition token_macs :: "sp_cfg \<Rightarrow> request \<Rightarrow> int" where
  "token_macs c r = (if rq_scratch r ! 2 > 0 then rq_scratch r ! 2 else pm_mac_commands_per_token c)"

definition token_accs :: "sp_cfg \<Rightarrow> request \<Rightarrow> int" where
  "token_accs c r = (if rq_scratch r ! 3 > 0 then rq_scratch r ! 3 else pm_acc_commands_per_token c)"

definition elemax_addr :: "sp_cfg \<Rightarrow> addr_vec \<Rightarrow> addr_vec" where
  "elemax_addr c base = make_all_bank_addr c (make_esdm_addr c base (pm_kt_row_offset c) (pm_kt_col_start c))"

definition token_ops :: "sp_cfg \<Rightarrow> request \<Rightarrow> int \<Rightarrow> sp_op list" where
  "token_ops c r latency =
     (let base = normalize_addr c (rq_addr_vec r); voc = vs_max_voc (read_bgmu_vocs_and_find_max c r)
      in qk_stage_ops c base (token_macs c r) @
         [cmd_op (sc_cmd_mov c) (elemax_addr c base), cmd_op (sc_cmd_emul c) (elemax_addr c base)] @
         (if pm_bgmu_read_as_delay c then [delay_op (max 1 latency)] else []) @
         (if voc = 0 then [] else pv_stage_ops c base voc @ acc_ops c base (token_accs c r)) @ [complete_op r])"

section \<open>The code appends them\<close>

lemma appends_mac_ops:
  "appends s (mac_ops c base n chunk) (fold (\<lambda>i. enqueue_command (sc_cmd_mac c) (make_all_bank_addr c
     (make_esdm_addr c base (pm_kt_row_offset c) (pm_kt_col_start c + n + int i)))) [0..<nat chunk] s)"
  unfolding mac_ops_def by (rule appends_fold) (simp add: stream kt_row_addr_def add.assoc)

lemma appends_if: "(b \<Longrightarrow> appends s xs s1) \<Longrightarrow> (\<not> b \<Longrightarrow> appends s ys s2) \<Longrightarrow>
    appends s (if b then xs else ys) (if b then s1 else s2)"
  by simp

text \<open>The activation and the precharge around a row.\<close>

lemma appends_row:
  assumes "\<And>s. appends s body (f s)"
  shows "appends s (row_ops e c av body)
    (if e then enqueue_per_bank_command c (sc_cmd_pre c) av (f (enqueue_per_bank_command c (sc_cmd_act c) av s)) else f s)"
proof (cases e)
  case True
  have "appends s ((bank_ops c (sc_cmd_act c) av @ body) @ bank_ops c (sc_cmd_pre c) av)
    (enqueue_per_bank_command c (sc_cmd_pre c) av (f (enqueue_per_bank_command c (sc_cmd_act c) av s)))"
    by (rule appends_trans [OF appends_trans [OF appends_per_bank assms] appends_per_bank])
  with True show ?thesis by (simp add: row_ops_def)
qed (simp add: row_ops_def assms)

lemma row_starts_less: "n < count \<Longrightarrow> row_starts c start count n =
    (n, row_chunk c start n count) # row_starts c start count (n + row_chunk c start n count)"
  by (subst row_starts.simps) simp

lemma row_starts_end: "\<not> n < count \<Longrightarrow> row_starts c start count n = []"
  by (subst row_starts.simps) simp

lemma appends_qk_row:
  "appends s (row_ops (pm_enable_qk_act_pre c) c (kt_row_addr c base n) (mac_ops c base n chunk)) (qk_row c base n chunk s)"
proof -
  define s1 where "s1 = upd_stats (\<lambda>t. t\<lparr>st_qk_rows := st_qk_rows t + 1,
      st_qk_page_hits := (if chunk > 0 then st_qk_page_hits t + (chunk - 1) else st_qk_page_hits t)\<rparr>) s"
  have "appends s [] s1" unfolding s1_def by (rule appends_upd_stats)
  from appends_trans [OF this appends_row [OF appends_mac_ops, of s1 "pm_enable_qk_act_pre c" c "kt_row_addr c base n" c base n chunk]]
  show ?thesis
    by (cases "pm_enable_qk_act_pre c")
      (simp_all only: qk_row_def Let_def s1_def kt_row_addr_def append_Nil if_True if_False)
qed

lemma qk_rows_less: "n < macs \<Longrightarrow> qk_rows c base macs n s =
    qk_rows c base macs (n + row_chunk c (pm_kt_col_start c) n macs)
      (qk_row c base n (row_chunk c (pm_kt_col_start c) n macs) s)"
  by (subst qk_rows.simps) (simp add: Let_def)

lemma qk_rows_end: "\<not> n < macs \<Longrightarrow> qk_rows c base macs n s = s"
  by (subst qk_rows.simps) simp

lemma appends_qk_rows:
  "appends s (qk_ops c base (row_starts c (pm_kt_col_start c) macs n)) (qk_rows c base macs n s)"
proof (induction "nat (macs - n)" arbitrary: n s rule: less_induct)
  case less
  show ?case
  proof (cases "n < macs")
    case True
    then have "nat (macs - (n + row_chunk c (pm_kt_col_start c) n macs)) < nat (macs - n)"
      using row_chunk_pos [OF True, of c "pm_kt_col_start c"] by simp
    from appends_trans [OF appends_qk_row less [OF this]] show ?thesis
      unfolding qk_rows_less [OF True] row_starts_less [OF True] by (simp add: qk_ops_def)
  qed (simp add: qk_rows_end row_starts_end qk_ops_def stream)
qed

lemma appends_spm_row: "appends s (spm_row_ops c vocs av) (spm_row c vocs av (make_all_bank_addr c av) s)"
proof -
  let ?lat = "spm_latency_of c vocs"
  define s1 where "s1 = enqueue_configure_spm ?lat (upd_stats (\<lambda>t. t\<lparr>st_spm_cycles := st_spm_cycles t + ?lat\<rparr>) s)"
  have "appends s ([] @ [spm_op ?lat]) s1"
    unfolding s1_def by (rule appends_trans [OF appends_upd_stats appends_enqueue(2)])
  also have "appends s1 (row_ops (pm_enable_act_spm_pre c) c av [cmd_op (sc_cmd_spm c) (make_all_bank_addr c av)])
      (spm_row c vocs av (make_all_bank_addr c av) s)"
    using appends_row [of "[cmd_op (sc_cmd_spm c) (make_all_bank_addr c av)]"
        "enqueue_command (sc_cmd_spm c) (make_all_bank_addr c av)" s1 "pm_enable_act_spm_pre c" c av]
    by (simp add: spm_row_def s1_def Let_def stream split: if_splits)
  finally show ?thesis by (simp add: spm_row_ops_def)
qed

lemma appends_pv_rows:
  "appends s (pv_ops c base (row_starts c (pm_v_col_start c) vocs n)) (pv_rows c base vocs n s)"
proof (induction "nat (vocs - n)" arbitrary: n s rule: less_induct)
  case less
  show ?case
  proof (cases "n < vocs")
    case True
    let ?chunk = "row_chunk c (pm_v_col_start c) n vocs"
    define s1 where "s1 = upd_stats (\<lambda>t. t\<lparr>st_pv_rows := st_pv_rows t + 1,
        st_pv_page_hits := (if ?chunk > 0 then st_pv_page_hits t + (?chunk - 1) else st_pv_page_hits t)\<rparr>) s"
    let ?av = "v_row_addr c base n"
    let ?s2 = "spm_row c ?chunk ?av (make_all_bank_addr c ?av) s1"
    have eq: "pv_rows c base vocs n s = pv_rows c base vocs (n + ?chunk) ?s2"
      using True by (subst pv_rows.simps) (simp add: s1_def v_row_addr_def Let_def)
    have "appends s ([] @ spm_row_ops c ?chunk ?av) ?s2"
      unfolding s1_def by (rule appends_trans [OF appends_upd_stats appends_spm_row])
    also have "appends ?s2 (pv_ops c base (row_starts c (pm_v_col_start c) vocs (n + ?chunk)))
        (pv_rows c base vocs (n + ?chunk) ?s2)"
      using True row_chunk_pos [OF True, of c "pm_v_col_start c"] by (intro less) simp
    finally show ?thesis
      unfolding eq row_starts_less [OF True] by (simp add: pv_ops_def)
  next
    case False
    then show ?thesis by (subst pv_rows.simps) (simp add: row_starts_end pv_ops_def stream)
  qed
qed

lemma appends_qk_stage: "appends s (qk_stage_ops c base macs) (enqueue_qk_stage c base macs s)"
proof -
  have "appends s (replicate (nat macs) (cmd_op (sc_cmd_mac c) (make_all_bank_addr c base)))
      (fold (\<lambda>i. enqueue_command (sc_cmd_mac c) (make_all_bank_addr c base)) [0..<nat macs] s)"
    using appends_fold [of "[0..<nat macs]" "\<lambda>_. cmd_op (sc_cmd_mac c) (make_all_bank_addr c base)"]
    by (simp add: stream map_replicate_const)
  then show ?thesis
    using appends_qk_rows [of s c base macs 0]
    by (auto simp: enqueue_qk_stage_def qk_stage_ops_def row_starts_end qk_ops_def stream)
qed

lemma appends_pv_stage: "appends s (pv_stage_ops c base vocs) (enqueue_sparse_pv_stage c base vocs s)"
  using appends_pv_rows appends_spm_row by (simp add: enqueue_sparse_pv_stage_def pv_stage_ops_def)

lemma appends_bgmu:
  assumes "enqueue_bgmu_read_delay D d c reads vals s = Some s'"
  shows "\<exists>latency. bgmu_read_latency D d (max 1 reads) = Some latency \<and>
    appends s (if pm_bgmu_read_as_delay c then [delay_op (max 1 latency)] else []) s'"
  using assms unfolding enqueue_bgmu_read_delay_def Let_def bind_eq_Some_conv
  by (elim exE conjE) (auto simp: appends_def push_op_def upd_stats_def frame_def delay_op_def)


lemma bgmu_total:
  "bgmu_read_latency D d (max 1 reads) = Some latency \<Longrightarrow> \<exists>s'. enqueue_bgmu_read_delay D d c reads vals s = Some s'"
  by (auto simp: enqueue_bgmu_read_delay_def Let_def)

lemma appends_acc_ops:
  "appends s (acc_ops c base n) (fold (\<lambda>i. enqueue_command (sc_cmd_acc c) (make_acc_addr c base (int i))) [0..<nat n] s)"
  unfolding acc_ops_def by (rule appends_fold) (simp add: stream)

lemma expand_token_stream:
  fixes latency :: int
  assumes "functional_step c (cs_fn s) = Some f"
    and "bgmu_read_latency D d (max 1 (vs_bgmu_reads (read_bgmu_vocs_and_find_max c r))) = Some latency"
  shows "\<exists>s'. expand_sparepim_token D d c r s = Some s' \<and> appends (s\<lparr>cs_fn := f\<rparr>) (token_ops c r latency) s'"
proof -
  let ?base = "normalize_addr c (rq_addr_vec r)" and ?v = "read_bgmu_vocs_and_find_max c r"
  let ?voc = "vs_max_voc ?v"
  let ?total = "if vs_total_voc ?v = 0 \<and> ?voc > 0 then ?voc else vs_total_voc ?v"
  define s1 where "s1 = upd_stats (\<lambda>t. t\<lparr>st_tokens := st_tokens t + 1, st_total_voc := st_total_voc t + ?total,
           st_max_voc_sum := st_max_voc_sum t + ?voc,
           st_bgmu_max_updates := st_bgmu_max_updates t + vs_max_updates ?v\<rparr>) (s\<lparr>cs_fn := f\<rparr>)"
  define s3 where "s3 = enqueue_command (sc_cmd_emul c) (elemax_addr c ?base) (enqueue_command (sc_cmd_mov c)
    (elemax_addr c ?base) (enqueue_qk_stage c ?base (token_macs c r) s1))"
  define stage where "stage = qk_stage_ops c ?base (token_macs c r)"
  have "appends (s\<lparr>cs_fn := f\<rparr>) ([] @ stage) (enqueue_qk_stage c ?base (token_macs c r) s1)"
    unfolding s1_def stage_def by (rule appends_trans [OF appends_upd_stats appends_qk_stage])
  from appends_trans [OF appends_trans [OF this appends_enqueue(1)] appends_enqueue(1)]
  have a3: "appends (s\<lparr>cs_fn := f\<rparr>) ((([] @ stage) @ [cmd_op (sc_cmd_mov c) (elemax_addr c ?base)]) @
      [cmd_op (sc_cmd_emul c) (elemax_addr c ?base)]) s3"
    unfolding s3_def .
  obtain s4 where s4: "enqueue_bgmu_read_delay D d c (vs_bgmu_reads ?v) (vs_voc_values ?v) s3 = Some s4"
    using bgmu_total [OF assms(2)] by blast
  have a4: "appends s3 (if pm_bgmu_read_as_delay c then [delay_op (max 1 latency)] else []) s4"
    using appends_bgmu [OF s4] assms(2) by auto
  define s' where "s' = (if ?voc = 0
       then enqueue_complete r (upd_stats (\<lambda>t. t\<lparr>st_skipped_spm := st_skipped_spm t + 1,
              st_spm_skipped_act_pre := (if pm_enable_act_spm_pre c
                then st_spm_skipped_act_pre t + total_bank_count c * 2 else st_spm_skipped_act_pre t)\<rparr>) s4)
       else enqueue_complete r
              (fold (\<lambda>i. enqueue_command (sc_cmd_acc c) (make_acc_addr c ?base (int i))) [0..<nat (token_accs c r)]
                (enqueue_sparse_pv_stage c ?base ?voc s4)))"
  have "appends s4 ((if ?voc = 0 then [] else pv_stage_ops c ?base ?voc @ acc_ops c ?base (token_accs c r)) @ [complete_op r]) s'"
  proof (cases "?voc = 0")
    case True
    then show ?thesis unfolding s'_def
      using appends_trans [OF appends_upd_stats appends_enqueue(3)] by simp
  next
    case False
    then show ?thesis unfolding s'_def
      using appends_trans [OF appends_trans [OF appends_pv_stage appends_acc_ops] appends_enqueue(3)] by simp
  qed
  from appends_trans [OF appends_trans [OF a3 a4] this]
  have "appends (s\<lparr>cs_fn := f\<rparr>) (token_ops c r latency) s'"
    by (simp add: token_ops_def Let_def stage_def)
  moreover have "expand_sparepim_token D d c r s = Some s'"
    unfolding expand_sparepim_token_def assms(1) bind.bind_lunit Let_def token_macs_def [symmetric]
      token_accs_def [symmetric] elemax_addr_def [symmetric] s1_def [symmetric] s3_def [symmetric] s4 s'_def ..
  ultimately show ?thesis by blast
qed

section \<open>Which commands a token issues\<close>

lemma length_all_banks:
  assumes "sp_cfg_ok c"
  shows "int (length (all_banks c)) = total_bank_count c"
proof -
  have l: "length (concat (map (\<lambda>x. concat (map (\<lambda>y. map (h x y) zs) ys)) xs)) = length xs * (length ys * length zs)" for h xs ys zs
  proof -
    have "length (concat (map (\<lambda>y. map (h x y) zs) ys)) = length ys * length zs" for x by (induction ys) auto
    then show ?thesis by (induction xs) auto
  qed
  have "length (all_banks c) = nat (sc_num_pchs c) * (nat (sc_num_bgs c) * nat (sc_num_banks c))"
    unfolding all_banks_def by (simp add: l)
  then show ?thesis using cfg_sizes [OF assms] by (simp add: total_bank_count_def)
qed

definition hits_bank :: "sp_cfg \<Rightarrow> int \<times> int \<times> int \<Rightarrow> addr_vec \<Rightarrow> bool" where
  "hits_bank c x av = (case x of (p, g, b) \<Rightarrow> av_get (sc_pch_level c) av \<in> {-1, p} \<and>
     av_get (sc_bg_level c) av \<in> {-1, g} \<and> av_get (sc_bank_level c) av \<in> {-1, b})"

lemma hits_make_bank:
  assumes "sp_cfg_ok c" "full_vec c av" "x = (p, g, b)" "0 \<le> q" "0 \<le> h" "0 \<le> k"
  shows "hits_bank c x (make_bank_addr c av q h k) \<longleftrightarrow> (q, h, k) = x"
  using assms by (auto simp: hits_bank_def bank_addr_gets [OF assms(1,2)])

lemma hits_all:
  "sp_cfg_ok c \<Longrightarrow> full_vec c av \<Longrightarrow> hits_bank c x (make_all_bank_addr c av)"
  by (cases x) (simp add: hits_bank_def all_bank_addr_gets)

lemma distinct_all_banks: "distinct (all_banks c)"
proof -
  have "distinct (concat (map (\<lambda>p. concat (map (\<lambda>g. map (\<lambda>b. (int p, int g, int b)) [0..<k]) [0..<m])) [0..<n]))"
    for n m k :: nat
  proof -
    have "distinct (concat (map (\<lambda>g. map (\<lambda>b. (int p, int g, int b)) [0..<k]) [0..<m]))" for p :: nat
      by (induction m) (auto simp: distinct_map inj_on_def)
    then show ?thesis by (induction n) auto
  qed
  then show ?thesis by (simp add: all_banks_def)
qed

text \<open>The row chunks lie within the columns of a stage, each within a row.\<close>

lemma row_starts_pos: "(m, k) \<in> set (row_starts c start count n) \<Longrightarrow> 0 < k \<and> n \<le> m \<and> m + k \<le> count \<and>
    k \<le> columns_per_row c - (start + m) smod columns_per_row c"
proof (induction "nat (count - n)" arbitrary: n rule: less_induct)
  case less
  show ?case
  proof (cases "n < count")
    case True
    let ?k = "row_chunk c start n count"
    have k: "0 < ?k" "?k \<le> count - n" "?k \<le> columns_per_row c - (start + n) smod columns_per_row c"
      using row_chunk_pos [OF True] by (simp_all add: row_chunk_def)
    from less.prems consider "m = n" "k = ?k" | "(m, k) \<in> set (row_starts c start count (n + ?k))"
      by (auto simp: row_starts_less [OF True])
    then show ?thesis
    proof cases
      case 1
      with k True show ?thesis by simp
    next
      case 2
      have "nat (count - (n + ?k)) < nat (count - n)" using k True by simp
      from less.hyps [OF this 2] k show ?thesis by simp
    qed
  qed (use less in \<open>simp add: row_starts_end\<close>)
qed

lemma cfg_cmd_neq:
  assumes "sp_cfg_ok c"
  shows "sc_cmd_act c \<noteq> sc_cmd_pre c" "sc_cmd_act c \<noteq> sc_cmd_mac c" "sc_cmd_act c \<noteq> sc_cmd_emul c"
    "sc_cmd_act c \<noteq> sc_cmd_mov c" "sc_cmd_act c \<noteq> sc_cmd_spm c" "sc_cmd_act c \<noteq> sc_cmd_acc c"
    "sc_cmd_pre c \<noteq> sc_cmd_mac c" "sc_cmd_pre c \<noteq> sc_cmd_emul c" "sc_cmd_pre c \<noteq> sc_cmd_mov c"
    "sc_cmd_pre c \<noteq> sc_cmd_spm c" "sc_cmd_pre c \<noteq> sc_cmd_acc c" "sc_cmd_mac c \<noteq> sc_cmd_emul c"
    "sc_cmd_mac c \<noteq> sc_cmd_mov c" "sc_cmd_mac c \<noteq> sc_cmd_spm c" "sc_cmd_mac c \<noteq> sc_cmd_acc c"
    "sc_cmd_emul c \<noteq> sc_cmd_mov c" "sc_cmd_emul c \<noteq> sc_cmd_spm c" "sc_cmd_emul c \<noteq> sc_cmd_acc c"
    "sc_cmd_mov c \<noteq> sc_cmd_spm c" "sc_cmd_mov c \<noteq> sc_cmd_acc c" "sc_cmd_spm c \<noteq> sc_cmd_acc c"
  using assms by (auto simp: sp_cfg_ok_def)

lemmas cmd_neq = cfg_cmd_neq cfg_cmd_neq [symmetric]

text \<open>The rows of the first stage.\<close>

definition qk_row_count :: "sp_cfg \<Rightarrow> int \<Rightarrow> int" where
  "qk_row_count c macs = (if pm_enable_esdm c then int (length (row_starts c (pm_kt_col_start c) macs 0)) else 0)"

text \<open>Where the commands of a stream go, in order.\<close>

definition cmd_addrs :: "int \<Rightarrow> sp_op list \<Rightarrow> addr_vec list" where
  "cmd_addrs cmd ops = map op_addr_vec (filter (\<lambda>op. op_kind op = Command \<and> op_command op = cmd) ops)"

lemma cmd_addrs_simps [simp]:
  "cmd_addrs cmd [] = []" "cmd_addrs cmd (xs @ ys) = cmd_addrs cmd xs @ cmd_addrs cmd ys"
  "cmd_addrs cmd (op # ops) =
     (if op_kind op = Command \<and> op_command op = cmd then [op_addr_vec op] else []) @ cmd_addrs cmd ops"
  by (simp_all add: cmd_addrs_def)

lemma cmd_addrs_map: "cmd_addrs cmd (map (\<lambda>x. cmd_op k (f x)) xs) = (if cmd = k then map f xs else [])"
  by (induction xs) auto

lemma cmd_addrs_concat: "cmd_addrs cmd (concat xss) = concat (map (cmd_addrs cmd) xss)"
  by (induction xss) auto

text \<open>An address in every bank.\<close>

definition bank_addrs :: "sp_cfg \<Rightarrow> addr_vec \<Rightarrow> addr_vec list" where
  "bank_addrs c av = map (\<lambda>(p, g, b). make_bank_addr c av p g b) (all_banks c)"

lemma cmd_addrs_bank_ops: "cmd_addrs cmd (bank_ops c k av) = (if cmd = k then bank_addrs c av else [])"
  using cmd_addrs_map [of cmd k "\<lambda>(p, g, b). make_bank_addr c av p g b" "all_banks c"]
  by (simp add: bank_ops_def bank_addrs_def split_def)

lemma cmd_addrs_row_ops:
  assumes "sp_cfg_ok c"
  shows "cmd_addrs cmd (row_ops e c av body) =
    (if e \<and> cmd = sc_cmd_act c then bank_addrs c av else []) @ cmd_addrs cmd body @
    (if e \<and> cmd = sc_cmd_pre c then bank_addrs c av else [])"
  using cmd_neq [OF assms] by (auto simp: row_ops_def cmd_addrs_bank_ops)

text \<open>The rows of a token, as the addresses they are opened and closed at.\<close>

definition qk_rows_of :: "sp_cfg \<Rightarrow> addr_vec \<Rightarrow> int \<Rightarrow> addr_vec list" where
  "qk_rows_of c base macs =
     (if pm_enable_esdm c then map (\<lambda>(n, k). kt_row_addr c base n) (row_starts c (pm_kt_col_start c) macs 0) else [])"

definition pv_rows_of :: "sp_cfg \<Rightarrow> addr_vec \<Rightarrow> int \<Rightarrow> addr_vec list" where
  "pv_rows_of c base vocs =
     (if pm_enable_esdm c then map (\<lambda>(n, k). v_row_addr c base n) (row_starts c (pm_v_col_start c) vocs 0) else [base])"

definition mac_addrs :: "sp_cfg \<Rightarrow> addr_vec \<Rightarrow> int \<Rightarrow> addr_vec list" where
  "mac_addrs c base macs = map (\<lambda>i. make_all_bank_addr c (if pm_enable_esdm c then kt_row_addr c base (int i) else base)) [0..<nat macs]"

text \<open>Row by row, the columns of the first stage are those from 0 on.\<close>

lemma row_starts_columns:
  "0 \<le> n \<Longrightarrow> n \<le> count \<Longrightarrow> concat (map (\<lambda>(m, k). map (\<lambda>i. f (m + int i)) [0..<nat k]) (row_starts c start count n)) =
     map (\<lambda>i. f (int i)) [nat n..<nat count]"
proof (induction "nat (count - n)" arbitrary: n rule: less_induct)
  case less
  show ?case
  proof (cases "n < count")
    case True
    let ?k = "row_chunk c start n count"
    have k: "0 < ?k" "?k \<le> count - n" using row_chunk_pos [OF True] by (simp_all add: row_chunk_def)
    have "map (\<lambda>i. f (n + int i)) [0..<nat ?k] = map (\<lambda>i. f (int i)) [nat n..<nat (n + ?k)]"
      using less.prems k by (intro nth_equalityI) (auto simp: nat_add_distrib)
    moreover have "[nat n..<nat count] = [nat n..<nat (n + ?k)] @ [nat (n + ?k)..<nat count]"
      using less.prems k upt_add_eq_append [of "nat n" "nat (n + ?k)" "nat count - nat (n + ?k)"] by (simp add: nat_mono)
    moreover have "concat (map (\<lambda>(m, k). map (\<lambda>i. f (m + int i)) [0..<nat k]) (row_starts c start count (n + ?k))) =
        map (\<lambda>i. f (int i)) [nat (n + ?k)..<nat count]"
      using k True less.prems by (intro less) simp_all
    ultimately show ?thesis by (simp add: row_starts_less [OF True])
  qed (use less.prems in \<open>simp add: row_starts_end\<close>)
qed

lemma cmd_addrs_qk:
  assumes "sp_cfg_ok c"
  shows "cmd_addrs cmd (qk_stage_ops c base macs) =
    (if cmd = sc_cmd_mac c then mac_addrs c base macs
     else if pm_enable_qk_act_pre c \<and> (cmd = sc_cmd_act c \<or> cmd = sc_cmd_pre c)
     then concat (map (bank_addrs c) (qk_rows_of c base macs)) else [])"
proof (cases "pm_enable_esdm c")
  case True
  let ?rows = "row_starts c (pm_kt_col_start c) macs 0"
  let ?f = "\<lambda>n. make_all_bank_addr c (kt_row_addr c base n)"
  have m: "cmd_addrs cmd (mac_ops c base n k) = (if cmd = sc_cmd_mac c then map (\<lambda>i. ?f (n + int i)) [0..<nat k] else [])" for n k
    unfolding mac_ops_def by (simp add: cmd_addrs_map)
  have cols: "concat (map (\<lambda>(n, k). map (\<lambda>i. ?f (n + int i)) [0..<nat k]) ?rows) = map (\<lambda>i. ?f (int i)) [0..<nat macs]"
    using row_starts_columns [of 0 macs ?f c "pm_kt_col_start c"] by (cases "0 \<le> macs") (simp_all add: row_starts_end)
  have "cmd_addrs cmd (qk_ops c base ?rows) =
      (if cmd = sc_cmd_mac c then concat (map (\<lambda>(n, k). map (\<lambda>i. ?f (n + int i)) [0..<nat k]) ?rows)
       else if pm_enable_qk_act_pre c \<and> (cmd = sc_cmd_act c \<or> cmd = sc_cmd_pre c)
       then concat (map (\<lambda>(n, k). bank_addrs c (kt_row_addr c base n)) ?rows) else [])"
    using cmd_neq [OF assms]
    by (auto simp: qk_ops_def cmd_addrs_concat comp_def split_def cmd_addrs_row_ops [OF assms] m)
  then show ?thesis using True cols
    by (auto simp: qk_stage_ops_def mac_addrs_def qk_rows_of_def comp_def split_def)
next
  case False
  have "cmd_addrs cmd (replicate n (cmd_op k av)) = (if cmd = k then replicate n av else [])" for n k av
    using cmd_addrs_map [of cmd k "\<lambda>_. av" "[0..<n]"] by (simp add: map_replicate_const)
  with False show ?thesis by (auto simp: qk_stage_ops_def qk_rows_of_def mac_addrs_def map_replicate_const)
qed

lemma cmd_addrs_spm_row:
  assumes "sp_cfg_ok c"
  shows "cmd_addrs cmd (spm_row_ops c vocs av) = (if cmd = sc_cmd_spm c then [make_all_bank_addr c av]
    else if pm_enable_act_spm_pre c \<and> (cmd = sc_cmd_act c \<or> cmd = sc_cmd_pre c) then bank_addrs c av else [])"
  using cmd_neq [OF assms] by (auto simp: spm_row_ops_def cmd_addrs_row_ops [OF assms])

lemma cmd_addrs_pv:
  assumes "sp_cfg_ok c"
  shows "cmd_addrs cmd (pv_stage_ops c base vocs) =
    (if cmd = sc_cmd_spm c then map (make_all_bank_addr c) (pv_rows_of c base vocs)
     else if pm_enable_act_spm_pre c \<and> (cmd = sc_cmd_act c \<or> cmd = sc_cmd_pre c)
     then concat (map (bank_addrs c) (pv_rows_of c base vocs)) else [])"
proof -
  have "concat (map (\<lambda>x. [f x]) xs) = map f xs" for f :: "int \<times> int \<Rightarrow> addr_vec" and xs by (induction xs) simp_all
  then show ?thesis
    by (auto simp: pv_stage_ops_def pv_ops_def pv_rows_of_def cmd_addrs_concat comp_def split_def cmd_addrs_spm_row [OF assms])
qed


text \<open>What goes to one bank.\<close>

lemma bank_addrs_hit:
  assumes "sp_cfg_ok c" "full_vec c av" "(p, g, b) \<in> set (all_banks c)"
  shows "filter (hits_bank c (p, g, b)) (bank_addrs c av) = [make_bank_addr c av p g b]"
proof -
  have hit: "hits_bank c (p, g, b) (make_bank_addr c av q h k) \<longleftrightarrow> (q, h, k) = (p, g, b)" if "(q, h, k) \<in> set (all_banks c)" for q h k
    by (rule hits_make_bank [OF assms(1,2) refl]) (use that in \<open>auto simp: all_banks_range\<close>)
  have one: "filter (\<lambda>x. x = y) xs = [y]" if "distinct xs" "y \<in> set xs" for xs and y :: "int \<times> int \<times> int"
    using that by (induction xs) (auto simp: filter_empty_conv)
  have "filter (hits_bank c (p, g, b)) (bank_addrs c av) =
      map (\<lambda>(p, g, b). make_bank_addr c av p g b) (filter (\<lambda>x. x = (p, g, b)) (all_banks c))"
    unfolding bank_addrs_def filter_map comp_def
    by (intro arg_cong [where f = "map _"] filter_cong) (auto simp: hit)
  then show ?thesis by (simp add: one [OF distinct_all_banks assms(3)])
qed

lemma rows_hit:
  assumes "sp_cfg_ok c" "(p, g, b) \<in> set (all_banks c)" "\<forall>av \<in> set rows. full_vec c av"
  shows "filter (hits_bank c (p, g, b)) (concat (map (bank_addrs c) rows)) = map (\<lambda>av. make_bank_addr c av p g b) rows"
  using assms(3) by (induction rows) (simp_all add: bank_addrs_hit [OF assms(1) _ assms(2)])

definition token_rows :: "sp_cfg \<Rightarrow> request \<Rightarrow> addr_vec list" where
  "token_rows c r = (let base = normalize_addr c (rq_addr_vec r); voc = vs_max_voc (read_bgmu_vocs_and_find_max c r) in
     (if pm_enable_qk_act_pre c then qk_rows_of c base (token_macs c r) else []) @
     (if pm_enable_act_spm_pre c \<and> voc \<noteq> 0 then pv_rows_of c base voc else []))"

lemma token_rows_full: "\<forall>av \<in> set (token_rows c r). full_vec c av"
  by (auto simp: token_rows_def Let_def qk_rows_of_def pv_rows_of_def kt_row_addr_def v_row_addr_def)

text \<open>C13: what a token issues, and where. Expanding a token succeeds whenever the device knows its three
  latencies and the functional step does not leave its tensors, and appends a fixed stream to the
  operation queue: the \<open>MAC\<close> commands asked for, to all banks and column after column, one \<open>MOV\<close> and one
  \<open>EMUL\<close>, and, unless every BPU reported no values, one \<open>SPM\<close> per row, to all banks, and the \<open>ACC\<close> commands
  asked for, each to its bank; the stream ends with the completion of the request. The rows opened are
  \<open>token_rows\<close>: those of the first stage when its activation flag is on (with the ESDM mapping; without it
  that stage opens none), then those of the second when its flag is on. Every bank is sent exactly one
  activation and one precharge for each of them, with this bank's address in this row and in this order,
  and no other. Nothing else of the state but statistics and the functional part changes.\<close>

theorem token_commands:
  assumes "sp_cfg_ok c" "functional_step c (cs_fn s) = Some f"
    and "bgmu_read_latency D d (max 1 (vs_bgmu_reads (read_bgmu_vocs_and_find_max c r))) = Some latency"
  defines "voc \<equiv> vs_max_voc (read_bgmu_vocs_and_find_max c r)" and "base \<equiv> normalize_addr c (rq_addr_vec r)"
  shows "\<exists>s' ops. expand_sparepim_token D d c r s = Some s' \<and>
    cs_ops s' = cs_ops s @ ops @ [complete_op r] \<and> frame s' = frame (s\<lparr>cs_fn := f\<rparr>) \<and>
    cmd_addrs (sc_cmd_mac c) ops = mac_addrs c base (token_macs c r) \<and>
    cmd_addrs (sc_cmd_mov c) ops = [elemax_addr c base] \<and> cmd_addrs (sc_cmd_emul c) ops = [elemax_addr c base] \<and>
    cmd_addrs (sc_cmd_spm c) ops = (if voc = 0 then [] else map (make_all_bank_addr c) (pv_rows_of c base voc)) \<and>
    cmd_addrs (sc_cmd_acc c) ops =
      (if voc = 0 then [] else map (\<lambda>i. make_acc_addr c base (int i)) [0..<nat (token_accs c r)]) \<and>
    (\<forall>(p, g, b) \<in> set (all_banks c). \<forall>cmd \<in> {sc_cmd_act c, sc_cmd_pre c}.
       filter (hits_bank c (p, g, b)) (cmd_addrs cmd ops) = map (\<lambda>av. make_bank_addr c av p g b) (token_rows c r)) \<and>
    int (length (cmd_addrs (sc_cmd_act c) ops)) = total_bank_count c * int (length (token_rows c r)) \<and>
    int (length (cmd_addrs (sc_cmd_pre c) ops)) = total_bank_count c * int (length (token_rows c r))"
proof -
  from expand_token_stream [OF assms(2,3)] obtain s' where
    s': "expand_sparepim_token D d c r s = Some s'" "appends (s\<lparr>cs_fn := f\<rparr>) (token_ops c r latency) s'" by blast
  let ?rest = "(if voc = 0 then [] else pv_stage_ops c base voc @ acc_ops c base (token_accs c r))"
  define ops where "ops = qk_stage_ops c base (token_macs c r) @
      [cmd_op (sc_cmd_mov c) (elemax_addr c base), cmd_op (sc_cmd_emul c) (elemax_addr c base)] @
      (if pm_bgmu_read_as_delay c then [delay_op (max 1 latency)] else []) @ ?rest"
  have acc: "cmd_addrs cmd (acc_ops c base n) = (if cmd = sc_cmd_acc c then map (\<lambda>i. make_acc_addr c base (int i)) [0..<nat n] else [])"
    for cmd n by (simp add: acc_ops_def cmd_addrs_map)
  have rest: "cmd_addrs cmd ?rest = (if voc = 0 then [] else cmd_addrs cmd (pv_stage_ops c base voc) @
      cmd_addrs cmd (acc_ops c base (token_accs c r)))" for cmd by simp
  have delay: "cmd_addrs cmd (if pm_bgmu_read_as_delay c then [delay_op (max 1 latency)] else []) = []" for cmd by simp
  note simps = cmd_addrs_qk [OF assms(1)] cmd_addrs_pv [OF assms(1)] acc rest delay cmd_neq [OF assms(1)]
  have addrs: "cmd_addrs (sc_cmd_mac c) ops = mac_addrs c base (token_macs c r)" "cmd_addrs (sc_cmd_mov c) ops = [elemax_addr c base]"
    "cmd_addrs (sc_cmd_emul c) ops = [elemax_addr c base]"
    "cmd_addrs (sc_cmd_spm c) ops = (if voc = 0 then [] else map (make_all_bank_addr c) (pv_rows_of c base voc))"
    "cmd_addrs (sc_cmd_acc c) ops = (if voc = 0 then [] else map (\<lambda>i. make_acc_addr c base (int i)) [0..<nat (token_accs c r)])"
    unfolding ops_def cmd_addrs_simps(2) by (simp_all add: simps)
  have rows: "cmd_addrs cmd ops = concat (map (bank_addrs c) (token_rows c r))" if "cmd \<in> {sc_cmd_act c, sc_cmd_pre c}" for cmd
    unfolding ops_def cmd_addrs_simps(2) token_rows_def Let_def base_def [symmetric] voc_def [symmetric]
    using that by (auto simp: simps)
  have count: "int (length (concat (map (bank_addrs c) rows))) = total_bank_count c * int (length rows)" for rows
    by (induction rows) (simp_all add: bank_addrs_def length_all_banks [OF assms(1)] distrib_left)
  have "int (length (cmd_addrs (sc_cmd_act c) ops)) = total_bank_count c * int (length (token_rows c r))"
    "int (length (cmd_addrs (sc_cmd_pre c) ops)) = total_bank_count c * int (length (token_rows c r))"
    by (simp_all only: rows insertI1 insertI2 count)
  moreover have "\<forall>(p, g, b) \<in> set (all_banks c). \<forall>cmd \<in> {sc_cmd_act c, sc_cmd_pre c}.
       filter (hits_bank c (p, g, b)) (cmd_addrs cmd ops) = map (\<lambda>av. make_bank_addr c av p g b) (token_rows c r)"
    using rows_hit [OF assms(1) _ token_rows_full] rows by auto
  moreover have "token_ops c r latency = ops @ [complete_op r]"
    by (simp add: token_ops_def ops_def voc_def base_def Let_def)
  ultimately show ?thesis using s' addrs by (auto simp: appends_def frame_def)
qed

section \<open>The row discipline\<close>

text \<open>
  One bank follows a stream: activations only when it is closed, precharges only when it is open,
  \<open>MAC\<close> and \<open>SPM\<close> only on the open row. The outer \<open>None\<close> is a violation, the inner one a closed bank.
\<close>

fun follow :: "sp_cfg \<Rightarrow> int \<times> int \<times> int \<Rightarrow> int option \<Rightarrow> sp_op list \<Rightarrow> int option option" where
  "follow c x st [] = Some st"
| "follow c x st (op # ops) =
     (let row = av_get (sc_row_level c) (op_addr_vec op); cmd = op_command op
      in if op_kind op \<noteq> Command \<or> \<not> hits_bank c x (op_addr_vec op) then follow c x st ops
         else if cmd = sc_cmd_act c then (if st = None then follow c x (Some row) ops else None)
         else if cmd = sc_cmd_pre c then (if st \<noteq> None then follow c x None ops else None)
         else if cmd = sc_cmd_mac c \<or> cmd = sc_cmd_spm c then (if st = Some row then follow c x st ops else None)
         else follow c x st ops)"

lemma follow_append:
  "follow c x st (xs @ ys) = (case follow c x st xs of None \<Rightarrow> None | Some st' \<Rightarrow> follow c x st' ys)"
  by (induction xs arbitrary: st) (auto simp: Let_def)

lemma follow_seq: "follow c x st xs = Some st' \<Longrightarrow> follow c x st (xs @ ys) = follow c x st' ys"
  by (simp add: follow_append)

text \<open>A command to every bank reaches a bank exactly once.\<close>

lemma follow_bank_ops:
  assumes "sp_cfg_ok c" "full_vec c av" "x \<in> set (all_banks c)"
  shows "follow c x None (bank_ops c (sc_cmd_act c) av) = Some (Some (av_get (sc_row_level c) av))"
    "follow c x (Some row) (bank_ops c (sc_cmd_pre c) av) = Some None"
proof -
  let ?ops = "\<lambda>cmd. map (\<lambda>(p, g, b). cmd_op cmd (make_bank_addr c av p g b))"
  obtain p g b where x: "x = (p, g, b)" by (cases x)
  have hit: "hits_bank c x (make_bank_addr c av q h k) \<longleftrightarrow> (q, h, k) = x" if "(q, h, k) \<in> set (all_banks c)" for q h k
    by (rule hits_make_bank [OF assms(1,2) x]) (use that in \<open>auto simp: all_banks_range\<close>)
  note row = bank_addr_gets(5) [OF assms(1,2)]
  have skip: "follow c x st (?ops cmd bs) = Some st" if "set bs \<subseteq> set (all_banks c)" "x \<notin> set bs" for bs st cmd
    using that by (induction bs) (auto simp: hit Let_def)
  have "follow c x None (?ops (sc_cmd_act c) bs) = Some (Some (av_get (sc_row_level c) av))"
    "follow c x (Some row) (?ops (sc_cmd_pre c) bs) = Some None"
    if "set bs \<subseteq> set (all_banks c)" "x \<in> set bs" "distinct bs" for bs
  proof -
    from split_list [OF that(2)] obtain ys zs where bs: "bs = ys @ x # zs" by blast
    have s: "set ys \<subseteq> set (all_banks c)" "x \<notin> set ys" "set zs \<subseteq> set (all_banks c)" "x \<notin> set zs"
      using that(1,3) by (auto simp: bs)
    have "hits_bank c x (make_bank_addr c av p g b)" using hit assms(3) x by simp
    then show "follow c x None (?ops (sc_cmd_act c) bs) = Some (Some (av_get (sc_row_level c) av))"
      "follow c x (Some row) (?ops (sc_cmd_pre c) bs) = Some None"
      using cfg_cmd_neq(1) [OF assms(1)]
      by (simp_all add: bs follow_append skip [OF s(1,2), unfolded x] skip [OF s(3,4), unfolded x] x row Let_def)
  qed
  from this [OF _ assms(3) distinct_all_banks]
  show "follow c x None (bank_ops c (sc_cmd_act c) av) = Some (Some (av_get (sc_row_level c) av))"
    "follow c x (Some row) (bank_ops c (sc_cmd_pre c) av) = Some None"
    by (simp_all add: bank_ops_def)
qed

lemma follow_row:
  assumes "sp_cfg_ok c" "full_vec c av" "x \<in> set (all_banks c)"
    and "follow c x (Some (av_get (sc_row_level c) av)) body = Some (Some (av_get (sc_row_level c) av))"
  shows "follow c x None (row_ops True c av body) = Some None"
  using follow_bank_ops [OF assms(1-3)] assms(4) by (simp add: row_ops_def follow_append)

text \<open>The columns of a chunk lie in one row.\<close>

lemma chunk_row:
  assumes "sp_cfg_ok c" "full_vec c av" "0 \<le> i" "i < k" "k \<le> columns_per_row c - s smod columns_per_row c"
  shows "av_get (sc_row_level c) (make_esdm_addr c av ro (s + i)) = av_get (sc_row_level c) (make_esdm_addr c av ro s)"
proof (cases "pm_enable_esdm c")
  case True
  let ?w = "columns_per_row c"
  have w: "0 < ?w" using cfg_sizes [OF assms(1)] by simp
  have "max 0 (s + i) div ?w = max 0 s div ?w"
  proof (cases "0 \<le> s")
    case True
    have i: "s mod ?w + i < ?w" "0 \<le> s mod ?w + i" using assms(3-5) True w by (simp_all add: smod_nonneg)
    have "s + i = s mod ?w + i + s div ?w * ?w" using div_mult_mod_eq [of s ?w] by simp
    then have "(s + i) div ?w = (s mod ?w + i) div ?w + s div ?w" using w by (metis div_mult_self1 less_irrefl add.commute)
    with i have "(s + i) div ?w = s div ?w" by simp
    then show ?thesis using True assms(3) by simp
  next
    case False
    have "s + i < ?w"
    proof -
      have "s smod ?w = - (- s mod ?w)" using False w by (simp add: signed_modulo_int_def sgn_if)
      then have "i < ?w + (- s) mod ?w" using assms(4,5) by simp
      moreover have "(- s) mod ?w \<le> - s" using False w by (simp add: zmod_le_nonneg_dividend)
      ultimately show ?thesis by linarith
    qed
    with False w show ?thesis by (cases "0 \<le> s + i") simp_all
  qed
  then show ?thesis by (simp add: esdm_addr_gets(1) [OF assms(1,2) True])
qed (simp add: make_esdm_addr_def)

lemma follow_body:
  assumes "sp_cfg_ok c" "\<forall>op \<in> set ops. op_kind op = Command \<and> op_command op \<in> {sc_cmd_mac c, sc_cmd_spm c} \<and>
      av_get (sc_row_level c) (op_addr_vec op) = row"
  shows "follow c x (Some row) ops = Some (Some row)"
  using assms(2) cmd_neq [OF assms(1)] by (induction ops) (auto simp: Let_def)

lemma follow_quiet:
  assumes "\<forall>op \<in> set ops. op_kind op = Command \<longrightarrow>
      op_command op \<notin> {sc_cmd_act c, sc_cmd_pre c, sc_cmd_mac c, sc_cmd_spm c}"
  shows "follow c x st ops = Some st"
  using assms by (induction ops) (auto simp: Let_def)

lemma follow_concat:
  "(\<And>ops. ops \<in> set opss \<Longrightarrow> follow c x st ops = Some st) \<Longrightarrow> follow c x st (concat opss) = Some st"
  by (induction opss) (auto simp: follow_append)

lemma follow_token:
  assumes ok: "sp_cfg_ok c" and en: "pm_enable_esdm c" "pm_enable_qk_act_pre c" "pm_enable_act_spm_pre c"
    and x: "x \<in> set (all_banks c)"
  shows "follow c x None (token_ops c r latency) = Some None"
proof -
  let ?base = "normalize_addr c (rq_addr_vec r)" and ?voc = "vs_max_voc (read_bgmu_vocs_and_find_max c r)"
  note neq = cmd_neq [OF ok]
  have qk: "follow c x None (qk_ops c ?base (row_starts c (pm_kt_col_start c) (token_macs c r) 0)) = Some None"
    unfolding qk_ops_def
  proof (rule follow_concat)
    fix ops assume "ops \<in> set (map (\<lambda>(n, chunk). row_ops (pm_enable_qk_act_pre c) c (kt_row_addr c ?base n)
        (mac_ops c ?base n chunk)) (row_starts c (pm_kt_col_start c) (token_macs c r) 0))"
    then obtain n k where nk: "(n, k) \<in> set (row_starts c (pm_kt_col_start c) (token_macs c r) 0)"
      "ops = row_ops True c (kt_row_addr c ?base n) (mac_ops c ?base n k)" using en(2) by auto
    have full: "full_vec c (kt_row_addr c ?base n)" by (simp add: kt_row_addr_def)
    have "av_get (sc_row_level c) (make_all_bank_addr c (kt_row_addr c ?base (n + int i))) =
        av_get (sc_row_level c) (kt_row_addr c ?base n)" if "i < nat k" for i
      using chunk_row [OF ok, of ?base "int i" k "pm_kt_col_start c + n" "pm_kt_row_offset c"]
        row_starts_pos [OF nk(1)] that
      by (simp add: all_bank_addr_gets(5) [OF ok] kt_row_addr_def add.assoc)
    then have "follow c x (Some (av_get (sc_row_level c) (kt_row_addr c ?base n))) (mac_ops c ?base n k) =
        Some (Some (av_get (sc_row_level c) (kt_row_addr c ?base n)))"
      by (intro follow_body [OF ok]) (auto simp: mac_ops_def)
    from follow_row [OF ok full x this] show "follow c x None ops = Some None" by (simp add: nk(2))
  qed
  have pv: "follow c x None (pv_ops c ?base (row_starts c (pm_v_col_start c) ?voc 0)) = Some None"
    unfolding pv_ops_def
  proof (rule follow_concat)
    fix ops assume "ops \<in> set (map (\<lambda>(n, chunk). spm_row_ops c chunk (v_row_addr c ?base n))
        (row_starts c (pm_v_col_start c) ?voc 0))"
    then obtain n k where ops: "ops = spm_row_ops c k (v_row_addr c ?base n)" by auto
    let ?av = "v_row_addr c ?base n"
    have full: "full_vec c ?av" by (simp add: v_row_addr_def)
    have "follow c x (Some (av_get (sc_row_level c) ?av)) [cmd_op (sc_cmd_spm c) (make_all_bank_addr c ?av)] =
        Some (Some (av_get (sc_row_level c) ?av))"
      by (intro follow_body [OF ok]) (simp add: all_bank_addr_gets(5) [OF ok full])
    from follow_row [OF ok full x this] show "follow c x None ops = Some None"
      using en(3) by (simp add: ops spm_row_ops_def)
  qed
  have mid: "follow c x None [cmd_op (sc_cmd_mov c) (elemax_addr c ?base), cmd_op (sc_cmd_emul c) (elemax_addr c ?base)] = Some None"
    "follow c x None (if pm_bgmu_read_as_delay c then [delay_op (max 1 latency)] else []) = Some None"
    by (intro follow_quiet; use neq in simp)+
  have acc: "follow c x None (acc_ops c ?base n @ [complete_op r]) = Some None" for n
    using neq by (intro follow_quiet) (auto simp: acc_ops_def)
  have fin: "follow c x None [complete_op r] = Some None" by (rule follow_quiet) simp
  have rest: "follow c x None ((if ?voc = 0 then [] else pv_stage_ops c ?base ?voc @ acc_ops c ?base (token_accs c r)) @
      [complete_op r]) = Some None"
  proof (cases "?voc = 0")
    case False
    then show ?thesis using acc follow_seq [OF pv] en(1) by (simp add: pv_stage_ops_def del: follow.simps)
  qed simp
  have "qk_stage_ops c ?base (token_macs c r) = qk_ops c ?base (row_starts c (pm_kt_col_start c) (token_macs c r) 0)"
    using en(1) by (simp add: qk_stage_ops_def)
  then show ?thesis
    unfolding token_ops_def Let_def by (simp only: follow_seq [OF qk] follow_seq [OF mid(1)] follow_seq [OF mid(2)] rest)
qed


text \<open>C5: the row discipline of a token. With the ESDM mapping and both row stages enabled, every bank
  can follow the stream of a token from closed to closed: it is activated only when it is closed,
  precharged only when it is open, and every \<open>MAC\<close> and \<open>SPM\<close> that reaches it names the row that is
  open, whatever the column starts and however the columns are cut into rows.\<close>

theorem token_row_discipline:
  assumes "sp_cfg_ok c" "pm_enable_esdm c" "pm_enable_qk_act_pre c" "pm_enable_act_spm_pre c"
    and "functional_step c (cs_fn s) = Some f" "x \<in> set (all_banks c)"
    and "bgmu_read_latency D d (max 1 (vs_bgmu_reads (read_bgmu_vocs_and_find_max c r))) = Some latency"
  shows "\<exists>s'. expand_sparepim_token D d c r s = Some s' \<and>
    follow c x None (drop (length (cs_ops s)) (cs_ops s')) = Some None"
  using expand_token_stream [OF assms(5,7)] follow_token [OF assms(1-4,6), of r latency]
  by (auto simp: appends_def)

section \<open>Rows and page hits\<close>

lemma upd_stats_stats [simp]: "cs_stats (upd_stats f s) = f (cs_stats s)"
  by (simp add: upd_stats_def)

lemma enqueue_stats [simp]:
  "cs_stats (enqueue_command cmd av s) = cs_stats s" "cs_stats (enqueue_configure_spm lat s) = cs_stats s"
  by (simp_all add: enqueue_command_def enqueue_configure_spm_def push_op_def)

lemma fold_enqueue_stats: "cs_stats (fold (\<lambda>x. enqueue_command (f x) (g x)) xs s) = cs_stats s"
  by (induction xs arbitrary: s) auto

lemma per_bank_stats [simp]: "cs_stats (enqueue_per_bank_command c cmd av s) = cs_stats s"
  by (simp add: enqueue_per_bank_command_def split_def fold_enqueue_stats)

lemma qk_row_stats:
  "st_qk_rows (cs_stats (qk_row c base n k s)) = st_qk_rows (cs_stats s) + 1"
  "0 < k \<Longrightarrow> st_qk_page_hits (cs_stats (qk_row c base n k s)) = st_qk_page_hits (cs_stats s) + (k - 1)"
  by (simp_all add: qk_row_def fold_enqueue_stats Let_def)

lemma qk_rows_stats:
  "st_qk_rows (cs_stats (qk_rows c base macs n s)) = st_qk_rows (cs_stats s) + int (length (row_starts c (pm_kt_col_start c) macs n)) \<and>
   (n \<le> macs \<longrightarrow> st_qk_rows (cs_stats (qk_rows c base macs n s)) + st_qk_page_hits (cs_stats (qk_rows c base macs n s)) =
      st_qk_rows (cs_stats s) + st_qk_page_hits (cs_stats s) + (macs - n))"
proof (induction "nat (macs - n)" arbitrary: n s rule: less_induct)
  case less
  show ?case
  proof (cases "n < macs")
    case True
    let ?k = "row_chunk c (pm_kt_col_start c) n macs"
    have k: "0 < ?k" "?k \<le> macs - n" using row_chunk_pos [OF True] by (simp_all add: row_chunk_def)
    then have "nat (macs - (n + ?k)) < nat (macs - n)" using True by simp
    from less [OF this, of "qk_row c base n ?k s"] show ?thesis
      unfolding qk_rows_less [OF True] row_starts_less [OF True] using k by (simp add: qk_row_stats)
  qed (simp add: qk_rows_end row_starts_end)
qed

text \<open>The number of rows a range of columns touches.\<close>

lemma row_starts_length:
  assumes "0 < columns_per_row c" "0 \<le> start + n" "n < count"
  shows "int (length (row_starts c start count n)) =
    (start + count - 1) div columns_per_row c - (start + n) div columns_per_row c + 1"
  using assms(2,3)
proof (induction "nat (count - n)" arbitrary: n rule: less_induct)
  case less
  let ?w = "columns_per_row c" and ?k = "row_chunk c start n count"
  have k: "0 < ?k" using row_chunk_pos less(3) .
  have kd: "?k = min (count - n) (?w - (start + n) mod ?w)"
    using less(2) assms(1) by (simp add: row_chunk_def smod_nonneg)
  have m: "0 \<le> (start + n) mod ?w" "(start + n) mod ?w < ?w" using assms(1) by simp_all
  have d: "start + n = (start + n) div ?w * ?w + (start + n) mod ?w" by simp
  show ?case
  proof (cases "n + ?k < count")
    case True
    then have k': "?k = ?w - (start + n) mod ?w" using kd by linarith
    have "start + (n + ?k) = (start + n) div ?w * ?w + ?w" using d k' by linarith
    then have "start + (n + ?k) = ((start + n) div ?w + 1) * ?w" by (simp add: distrib_right)
    then have "(start + (n + ?k)) div ?w = (start + n) div ?w + 1" using assms(1) by simp
    moreover have "nat (count - (n + ?k)) < nat (count - n)" using k less(3) by simp
    note less(1) [OF this]
    ultimately show ?thesis using True k less(2) by (simp add: row_starts_less [OF less(3)])
  next
    case False
    then have k': "?k = count - n" using kd by linarith
    then have "(start + n) mod ?w + (count - n - 1) < ?w" using kd by linarith
    moreover have "start + count - 1 = (start + n) mod ?w + (count - n - 1) + (start + n) div ?w * ?w" using d by linarith
    moreover have "0 \<le> (start + n) mod ?w + (count - n - 1)" using m less(3) by linarith
    ultimately have "(start + count - 1) div ?w = (start + n) div ?w"
      by (intro int_div_pos_eq [where r = "(start + n) mod ?w + (count - n - 1)"]) (simp_all add: mult.commute)
    then show ?thesis using False by (simp add: row_starts_less [OF less(3)] row_starts_end)
  qed
qed

text \<open>C34: the row accounting of the \<open>QK\<close> stage. With the ESDM mapping, a positive number of \<open>MAC\<close> commands
  adds exactly the rows that the column range touches to the row counter, and the remaining commands
  to the page hits: no row is opened twice, and rows and hits together are the commands issued.\<close>

theorem qk_row_accounting:
  fixes s :: sp_state and base :: addr_vec
  assumes "sp_cfg_ok c" "pm_enable_esdm c" "0 < macs" "0 \<le> pm_kt_col_start c"
  defines "rows \<equiv> (pm_kt_col_start c + macs - 1) div pm_esdm_columns_per_row c -
    pm_kt_col_start c div pm_esdm_columns_per_row c + 1"
  defines "t \<equiv> cs_stats s" and "t' \<equiv> cs_stats (enqueue_qk_stage c base macs s)"
  shows "st_qk_rows t' = st_qk_rows t + rows \<and> st_qk_page_hits t' = st_qk_page_hits t + (macs - rows) \<and>
    qk_row_count c macs = rows"
proof -
  have w: "0 < columns_per_row c" "columns_per_row c = pm_esdm_columns_per_row c" using cfg_sizes [OF assms(1)] by simp_all
  have e: "enqueue_qk_stage c base macs s = qk_rows c base macs 0 s"
    using assms(2,3) by (simp add: enqueue_qk_stage_def)
  have "int (length (row_starts c (pm_kt_col_start c) macs 0)) = rows"
    using row_starts_length [OF w(1), of "pm_kt_col_start c" 0 macs] assms(3,4) by (simp add: rows_def w(2))
  then show ?thesis
    using qk_rows_stats [of c base macs 0 s] assms(2,3) by (simp add: t_def t'_def e qk_row_count_def)
qed

section \<open>The VOC scan\<close>

lemma bgmu_banks_fold:
  "bgmu_banks vocs base [a..<b] s = fold bgmu_value (take (b - a) (drop (base + a) vocs)) s"
proof (induction "b - a" arbitrary: a s)
  case (Suc n)
  then have ab: "a < b" "n = b - Suc a" by simp_all
  show ?case
  proof (cases "base + a < length vocs")
    case True
    then have "drop (base + a) vocs = vocs ! (base + a) # drop (base + Suc a) vocs" by (simp add: Cons_nth_drop_Suc)
    then show ?thesis using True ab Suc(1) [OF ab(2)] by (simp add: upt_conv_Cons Suc_diff_Suc [symmetric])
  qed (use ab in \<open>simp add: upt_conv_Cons\<close>)
qed simp

lemma bgmu_reads_fold:
  "fold (\<lambda>bg. bgmu_banks vocs (bg * n) [0..<n]) [0..<k] s = fold bgmu_value (take (k * n) vocs) s"
proof (induction k)
  case (Suc k)
  have "take (Suc k * n) vocs = take (k * n) vocs @ take n (drop (k * n) vocs)"
    by (metis add.commute mult_Suc take_add)
  with Suc show ?case by (simp add: bgmu_banks_fold)
qed simp

lemma fold_bgmu_value:
  "0 \<le> vs_max_voc s \<Longrightarrow> vs_max_voc (fold bgmu_value vs s) = fold max vs (vs_max_voc s) \<and>
   vs_total_voc (fold bgmu_value vs s) = vs_total_voc s + sum_list (map (max 0) vs) \<and>
   vs_voc_values (fold bgmu_value vs s) = vs_voc_values s + int (length vs) \<and>
   vs_bgmu_reads (fold bgmu_value vs s) = vs_bgmu_reads s"
proof (induction vs arbitrary: s)
  case (Cons v vs)
  let ?s = "bgmu_value v s"
  have "0 \<le> vs_max_voc ?s" "vs_max_voc ?s = max v (vs_max_voc s)"
    "vs_total_voc ?s = vs_total_voc s + max 0 v" "vs_voc_values ?s = vs_voc_values s + 1" "vs_bgmu_reads ?s = vs_bgmu_reads s"
    using Cons.prems by (auto simp: bgmu_value_def Let_def)
  with Cons.IH [of ?s] show ?case by simp
qed simp

lemma bgmu_scan_values:
  assumes "sp_cfg_ok c" "rq_payload r = Some vocs" "vocs \<noteq> []"
  defines "s \<equiv> read_bgmu_vocs_and_find_max c r"
  shows "vs_max_voc s = fold max vocs 0 \<and> vs_total_voc s = sum_list (map (max 0) vocs) \<and>
    vs_voc_values s = int (length vocs) \<and>
    int (length vocs) \<le> vs_bgmu_reads s * sc_num_banks c \<and>
    (vs_bgmu_reads s - 1) * sc_num_banks c < int (length vocs)"
proof -
  let ?n = "sc_num_banks c" and ?l = "int (length vocs)"
  have n: "0 < ?n" using cfg_sizes [OF assms(1)] by simp
  have reads: "ceil_div ?l ?n = (?l + ?n - 1) div ?n" using n by (simp add: ceil_div_def sdiv_nonneg)
  have m: "(?l + ?n - 1) mod ?n < ?n" "0 \<le> (?l + ?n - 1) mod ?n" using n by simp_all
  have d: "?l + ?n - 1 = (?l + ?n - 1) div ?n * ?n + (?l + ?n - 1) mod ?n" by simp
  then have bounds: "?l \<le> ceil_div ?l ?n * ?n" "(ceil_div ?l ?n - 1) * ?n < ?l"
    using m unfolding reads left_diff_distrib by linarith+
  have "0 \<le> ceil_div ?l ?n" unfolding reads using n by (simp add: pos_imp_zdiv_nonneg_iff)
  then have "int (nat (ceil_div ?l ?n) * nat ?n) = ceil_div ?l ?n * ?n" using n by simp
  then have "length vocs \<le> nat (ceil_div ?l ?n) * nat ?n" using bounds(1) by linarith
  then have "s = fold bgmu_value vocs (voc_zero\<lparr>vs_bgmu_reads := ceil_div ?l ?n\<rparr>)"
    using assms(2,3) n by (simp add: s_def read_bgmu_vocs_and_find_max_def bgmu_reads_fold Let_def)
  then show ?thesis using fold_bgmu_value [of "voc_zero\<lparr>vs_bgmu_reads := ceil_div ?l ?n\<rparr>" vocs] bounds
    by (simp add: voc_zero_def)
qed

text \<open>C35: the VOC scan. For a request that carries a non-empty vector of VOC values, the nested loops of
  \<open>read_bgmu_vocs_and_find_max\<close> visit every entry once and nothing else: the maximum and the sum are
  those of the values with negative ones counted as zero, the number of values is the length of the
  vector, and every BGMU read serves the banks of one bank group, the last one perhaps partly.\<close>

theorem bgmu_scan:
  assumes "sp_cfg_ok c" "rq_payload r = Some vocs" "vocs \<noteq> []"
  defines "s \<equiv> read_bgmu_vocs_and_find_max c r"
  shows "vs_max_voc s = fold max vocs 0 \<and> vs_total_voc s = sum_list (map (max 0) vocs) \<and>
    vs_voc_values s = int (length vocs) \<and>
    int (length vocs) \<le> vs_bgmu_reads s * sc_num_banks c \<and>
    (vs_bgmu_reads s - 1) * sc_num_banks c < int (length vocs)"
  unfolding s_def using bgmu_scan_values [OF assms(1-3)] .

end
