(* ===== verification/Spare_Dataflow.thy ===== *)
theory Spare_Dataflow
  imports Spare_Functional
begin

text \<open>
  The functional data path computes the golden model: what the banks hold after
  \<open>setup_functional_data\<close>, what a token reads from them, and the outcome of \<open>finalize\<close>.
\<close>

section \<open>Loops that thread a store\<close>

lemma foldlM_fold_inv:
  assumes "P st" "\<And>x acc st. x \<in> set xs \<Longrightarrow> P st \<Longrightarrow> \<exists>st'. f (acc, st) x = Some (g x acc, st') \<and> P st'"
  shows "\<exists>st'. foldlM f (a, st) xs = Some (fold g xs a, st') \<and> P st'"
  using assms
proof (induction xs arbitrary: a st)
  case Nil
  then show ?case by simp
next
  case (Cons x xs)
  from Cons.prems(2) [of x st a] Cons.prems(1) obtain s1 where s1: "f (a, st) x = Some (g x a, s1)" "P s1" by auto
  from Cons.IH [OF s1(2), of "g x a"] Cons.prems(2) obtain s2 where
    "foldlM f (g x a, s1) xs = Some (fold g xs (g x a), s2)" "P s2" by auto
  with s1 show ?case by simp
qed

lemma fold_concat_map: "fold f (concat (map h xs)) a = fold (\<lambda>x. fold f (h x)) xs a"
  by (induction xs arbitrary: a) auto

section \<open>Columns\<close>

text \<open>The column at a position of the bank that tokens read, and the cells it can name.\<close>

definition col_at :: "sp_cfg \<Rightarrow> bank_storage \<Rightarrow> int \<times> int \<Rightarrow> fp16 list" where
  "col_at c st rc = fst (read_col (sc_channel_id c) 0 0 0 (fst rc) (snd rc) st)"

definition cell :: "int \<times> int \<Rightarrow> bool" where
  "cell rc \<longleftrightarrow> 0 \<le> fst rc \<and> fst rc < 2 ^ 16 \<and> 0 \<le> snd rc \<and> snd rc < 2 ^ 16"

text \<open>The organization fits the fields of the packed keys.\<close>

definition keys_fit :: "sp_cfg \<Rightarrow> bool" where
  "keys_fit c \<longleftrightarrow> 0 \<le> sc_channel_id c \<and> sc_channel_id c < 2 ^ 8 \<and> sc_num_pchs c \<le> 2 ^ 8 \<and>
     sc_num_bgs c \<le> 2 ^ 8 \<and> sc_num_banks c \<le> 2 ^ 8 \<and> sc_num_rows c \<le> 2 ^ 16 \<and> sc_num_cols c \<le> 2 ^ 16"

lemma hw_read_col: "fst (hw_read c av st) = col_at c st (position c av)"
  by (simp add: hw_read_def col_at_def position_def)

lemma hw_read_keeps: "col_at c (snd (hw_read c av st)) = col_at c st"
  by (rule ext) (simp add: hw_read_def col_at_def read_read_col)

lemma col_at_write_banks:
  assumes "sp_cfg_ok c" "keys_fit c" "cell (position c av)" "cell rc"
  shows "col_at c (write_banks c av data st) rc =
    (if rc = position c av then vec_resize data FP16_PER_COLUMN 0 else col_at c st rc)"
proof -
  let ?w = "\<lambda>(p, g, b) st. write_col (sc_channel_id c) p g b
     (av_get (sc_row_level c) av) (av_get (sc_col_level c) av) data st"
  have key: "key_range (sc_channel_id c) 0 0 0 (fst rc) (snd rc)"
    using assms(2,4) by (auto simp: key_range_def keys_fit_def cell_def)
  have "col_at c (fold ?w bs st) rc = (if rc = position c av \<and> (0, 0, 0) \<in> set bs
      then vec_resize data FP16_PER_COLUMN 0 else col_at c st rc)" if "set bs \<subseteq> set (all_banks c)" for bs
    using that
  proof (induction bs arbitrary: st)
    case (Cons x bs)
    obtain p g b where x: "x = (p, g, b)" by (cases x)
    have "0 \<le> p \<and> p < 2 ^ 8 \<and> 0 \<le> g \<and> g < 2 ^ 8 \<and> 0 \<le> b \<and> b < 2 ^ 8"
      using Cons.prems assms(2) unfolding x keys_fit_def by (force simp: all_banks_range)
    then have "key_range (sc_channel_id c) p g b (av_get (sc_row_level c) av) (av_get (sc_col_level c) av)"
      using assms(2,3) by (auto simp: key_range_def keys_fit_def cell_def position_def)
    note rw = read_write_col [OF key this]
    have "col_at c (write_col (sc_channel_id c) p g b (av_get (sc_row_level c) av) (av_get (sc_col_level c) av) data st) rc =
        (if rc = position c av \<and> (0, 0, 0) = (p, g, b) then vec_resize data FP16_PER_COLUMN 0 else col_at c st rc)" for st
      unfolding col_at_def rw position_def by (cases rc) auto
    then show ?case using Cons by (auto simp: x)
  qed simp
  moreover have "(0, 0, 0) \<in> set (all_banks c)"
    using cfg_sizes [OF assms(1)] by (simp add: all_banks_range)
  ultimately show ?thesis by (simp add: write_banks_def)
qed

text \<open>Writing columns at different positions.\<close>

lemma col_at_writes:
  assumes "sp_cfg_ok c" "keys_fit c" "\<forall>(av, data) \<in> set ws. cell (position c av)"
    and "distinct (map (position c \<circ> fst) ws)" "(av, data) \<in> set ws"
  shows "col_at c (fold (\<lambda>(av, data) st. write_banks c av data st) ws st) (position c av) =
    vec_resize data FP16_PER_COLUMN 0"
  using assms(3-5)
proof (induction ws rule: rev_induct)
  case (snoc w ws)
  obtain av' data' where w: "w = (av', data')" by (cases w)
  note upd = col_at_write_banks [OF assms(1,2), of av']
  have cells: "cell (position c av')" "cell (position c av)" using snoc.prems w by auto
  show ?case
  proof (cases "(av, data) = w")
    case True
    with w show ?thesis by (simp add: upd [OF cells(1,1)])
  next
    case False
    with snoc.prems(3) have in_ws: "(av, data) \<in> set ws" by auto
    with snoc.prems(2) w have "position c av \<noteq> position c av'" by force
    with snoc.IH in_ws snoc.prems(1,2) w show ?thesis by (simp add: upd [OF cells])
  qed
qed simp


section \<open>The layout\<close>

definition layout_addrs :: "sp_cfg \<Rightarrow> addr_vec list" where
  "layout_addrs c = concat (map (\<lambda>sk. map (kt_addr c sk) (chunk_starts c) @ map (v_addr c sk) (chunk_starts c))
     [0..<seq_of c])"

text \<open>Every column of \<open>K\<close> and \<open>V\<close> has a cell of its own.\<close>

definition layout_ok :: "sp_cfg \<Rightarrow> bool" where
  "layout_ok c \<longleftrightarrow> list_all (\<lambda>av. cell (position c av)) (layout_addrs c) \<and>
     distinct (map (position c) (layout_addrs c))"

definition padded :: "sp_cfg \<Rightarrow> fp16 list \<Rightarrow> nat \<Rightarrow> nat \<Rightarrow> fp16 list" where
  "padded c t sk d = (let n = min FP16_PER_COLUMN (dim_of c - d) in
     map (\<lambda>i. t ! (sk * dim_of c + d + i)) [0..<n] @ replicate (FP16_PER_COLUMN - n) 0)"

lemma chunk_starts_iff:
  "d \<in> set (chunk_starts c) \<longleftrightarrow> FP16_PER_COLUMN dvd d \<and> d < dim_of c"
proof -
  have "i < (n + 15) div 16 \<longleftrightarrow> 16 * i < n" for i n :: nat by linarith
  then show ?thesis by (auto simp: chunk_starts_def FP16_PER_COLUMN_def elim!: dvdE)
qed

lemma length_padded: "length (padded c t sk d) = FP16_PER_COLUMN"
  by (simp add: padded_def Let_def)

lemma padded_nth:
  "i < FP16_PER_COLUMN \<Longrightarrow> d + i < dim_of c \<Longrightarrow> padded c t sk d ! i = t ! (sk * dim_of c + d + i)"
  by (auto simp: padded_def Let_def nth_append)

lemma fp16_zero: "fp16_of_f32 0 = 0"
  by code_simp

lemma column_data_padded:
  assumes "sk < seq_of c" "d \<in> set (chunk_starts c)" "seq_of c * dim_of c \<le> length t"
  shows "column_data c t sk d = Some (padded c t sk d)"
proof -
  have "those (map (\<lambda>i. rd t (sk * dim_of c + d + i)) [0..<min FP16_PER_COLUMN (dim_of c - d)]) =
      Some (map (\<lambda>i. t ! (sk * dim_of c + d + i)) [0..<min FP16_PER_COLUMN (dim_of c - d)])"
  proof (rule those_map_total)
    fix i assume "i \<in> set [0..<min FP16_PER_COLUMN (dim_of c - d)]"
    then have "d + i < dim_of c" by auto
    with index2_less [OF assms(1), of "d + i" "dim_of c"] assms(3)
    show "rd t (sk * dim_of c + d + i) = Some (t ! (sk * dim_of c + d + i))" by simp
  qed
  then show ?thesis by (simp add: column_data_def padded_def fp16_zero Let_def)
qed

text \<open>The columns \<open>setup_functional_data\<close> writes, in order.\<close>

definition key_writes :: "sp_cfg \<Rightarrow> fp16 list \<Rightarrow> fp16 list \<Rightarrow> nat \<Rightarrow> (addr_vec \<times> fp16 list) list" where
  "key_writes c k v sk = map (\<lambda>d. (kt_addr c sk d, padded c k sk d)) (chunk_starts c) @
     map (\<lambda>d. (v_addr c sk d, padded c v sk d)) (chunk_starts c)"

definition write_all :: "sp_cfg \<Rightarrow> (addr_vec \<times> fp16 list) list \<Rightarrow> bank_storage \<Rightarrow> bank_storage" where
  "write_all c ws st = fold (\<lambda>(av, data) st. write_banks c av data st) ws st"

lemma store_key_writes:
  assumes "sk < seq_of c" "seq_of c * dim_of c \<le> length k" "seq_of c * dim_of c \<le> length v"
  shows "store_key c k v st sk = Some (write_all c (key_writes c k v sk) st)"
proof -
  have "foldlM (\<lambda>st d. do { data \<leftarrow> column_data c t sk d; Some (write_banks c (f d) data st) }) st (chunk_starts c) =
      Some (write_all c (map (\<lambda>d. (f d, padded c t sk d)) (chunk_starts c)) st)"
    if "seq_of c * dim_of c \<le> length t" for t f st
    unfolding write_all_def fold_map comp_def
    by (rule foldlM_fold) (simp add: column_data_padded [OF assms(1) _ that])
  then show ?thesis using assms by (simp add: store_key_def key_writes_def write_all_def)
qed

lemma layout_writes:
  "map (position c) (layout_addrs c) = map (position c \<circ> fst) (concat (map (key_writes c k v) [0..<seq_of c]))"
proof -
  have "map (position c \<circ> fst) (key_writes c k v sk) =
      map (position c) (map (kt_addr c sk) (chunk_starts c) @ map (v_addr c sk) (chunk_starts c))" for sk
    by (simp add: key_writes_def)
  then show ?thesis by (simp add: layout_addrs_def map_concat comp_def)
qed

text \<open>What the store holds.\<close>

definition holds :: "sp_cfg \<Rightarrow> fp16 list \<Rightarrow> fp16 list \<Rightarrow> bank_storage \<Rightarrow> bool" where
  "holds c k v st \<longleftrightarrow> (\<forall>sk < seq_of c. \<forall>d \<in> set (chunk_starts c).
     col_at c st (position c (kt_addr c sk d)) = padded c k sk d \<and>
     col_at c st (position c (v_addr c sk d)) = padded c v sk d)"

lemma setup_store:
  assumes ok: "sp_cfg_ok c" "keys_fit c" "layout_ok c"
    and "seq_of c * dim_of c \<le> length k" "seq_of c * dim_of c \<le> length v"
  shows "\<exists>st. foldlM (store_key c k v) clear_store [0..<seq_of c] = Some st \<and> holds c k v st"
proof -
  let ?ws = "concat (map (key_writes c k v) [0..<seq_of c])"
  have "foldlM (store_key c k v) clear_store [0..<seq_of c] =
      Some (fold (\<lambda>sk. write_all c (key_writes c k v sk)) [0..<seq_of c] clear_store)"
    by (rule foldlM_fold) (use assms(4,5) in \<open>simp add: store_key_writes\<close>)
  also have "fold (\<lambda>sk. write_all c (key_writes c k v sk)) [0..<seq_of c] clear_store = write_all c ?ws clear_store"
    unfolding write_all_def fold_concat_map by simp
  finally have run: "foldlM (store_key c k v) clear_store [0..<seq_of c] = Some (write_all c ?ws clear_store)" .
  have "set (map (position c \<circ> fst) ?ws) \<subseteq> {rc. cell rc}"
    unfolding layout_writes [symmetric] using ok(3) by (auto simp: layout_ok_def list_all_iff)
  then have cells: "\<forall>(av, data) \<in> set ?ws. cell (position c av)"
    by (simp only: set_map image_subset_iff mem_Collect_eq split_def comp_def)
  have dist: "distinct (map (position c \<circ> fst) ?ws)"
    unfolding layout_writes [symmetric] using ok(3) by (simp add: layout_ok_def)
  have "holds c k v (write_all c ?ws clear_store)"
    unfolding holds_def
  proof (intro allI ballI impI conjI)
    fix sk d assume sk: "sk < seq_of c" and d: "d \<in> set (chunk_starts c)"
    have "(kt_addr c sk d, padded c k sk d) \<in> set ?ws" "(v_addr c sk d, padded c v sk d) \<in> set ?ws"
      using sk d by (auto simp: key_writes_def)
    from this [THEN col_at_writes [OF ok(1,2) cells dist]]
    show "col_at c (write_all c ?ws clear_store) (position c (kt_addr c sk d)) = padded c k sk d"
      "col_at c (write_all c ?ws clear_store) (position c (v_addr c sk d)) = padded c v sk d"
      by (simp_all add: write_all_def length_padded)
  qed
  with run show ?thesis by blast
qed


section \<open>A token\<close>

text \<open>The chunks of sixteen dimensions make up all of them.\<close>

lemma chunks_upt:
  "concat (map (\<lambda>j. map ((+) (16 * j)) [0..<min 16 (D - 16 * j)]) [0..<n]) = [0..<min (16 * n) (D :: nat)]"
proof (induction n)
  case (Suc n)
  have "map ((+) (16 * n)) [0..<min 16 (D - 16 * n)] = [16 * n..<16 * n + min 16 (D - 16 * n)]"
    by (rule nth_equalityI) auto
  moreover have "[0..<min (16 * n) D] @ [16 * n..<16 * n + min 16 (D - 16 * n)] = [0..<min (16 * Suc n) D]"
  proof (cases "D \<le> 16 * n")
    case False
    then have "min (16 * n) D = 16 * n" "min (16 * Suc n) D = 16 * n + min 16 (D - 16 * n)" by auto
    then show ?thesis by (metis le_add1 upt_add_eq_append zero_le)
  qed simp
  ultimately show ?case using Suc by simp
qed simp

lemma fold_chunks:
  "fold (\<lambda>d. fold (\<lambda>i. f (d + i)) [0..<min FP16_PER_COLUMN (dim_of c - d)]) (chunk_starts c) a =
    fold f [0..<dim_of c] a"
proof -
  let ?n = "(15 + dim_of c) div 16"
  have "min (16 * ?n) (dim_of c) = dim_of c" by linarith
  with chunks_upt [of "dim_of c" ?n]
  have "fold f [0..<dim_of c] a = fold f (concat (map (\<lambda>j. map ((+) (16 * j)) [0..<min 16 (dim_of c - 16 * j)]) [0..<?n])) a"
    by simp
  also have "\<dots> = fold (\<lambda>d. fold (\<lambda>i. f (d + i)) [0..<min FP16_PER_COLUMN (dim_of c - d)]) (chunk_starts c) a"
    by (simp add: fold_concat_map fold_map comp_def chunk_starts_def FP16_PER_COLUMN_def)
  finally show ?thesis by simp
qed

lemma kt_addr_chunk: "logical_col c sk d = logical_col c sk (FP16_PER_COLUMN * (d div FP16_PER_COLUMN))"
  by (simp add: logical_col_def FP16_PER_COLUMN_def)

text \<open>The query row of a token, and the rows of \<open>K\<close> and \<open>V\<close>.\<close>

definition row_of :: "sp_cfg \<Rightarrow> fp16 list \<Rightarrow> nat \<Rightarrow> nat \<Rightarrow> fp16" where
  "row_of c t sq d = t ! (sq * dim_of c + d)"

definition hw_spec_score :: "sp_cfg \<Rightarrow> fn_state \<Rightarrow> nat \<Rightarrow> nat \<Rightarrow> fp16" where
  "hw_spec_score c f sq = esef_score (dim_of c) (row_of c (fn_q f) sq) (row_of c (fn_k f))"

definition hw_spec :: "sp_cfg \<Rightarrow> fn_state \<Rightarrow> nat \<Rightarrow> nat \<Rightarrow> f32" where
  "hw_spec c f sq = esef_out (seq_of c) (dim_of c) (row_of c (fn_q f) sq) (row_of c (fn_k f)) (row_of c (fn_v f))
     (fn_we f ! sq)"

lemma hw_score_spec:
  assumes h: "holds c (fn_k f) v st" and "sk < seq_of c" "sq < seq_of c" "seq_of c * dim_of c \<le> length (fn_q f)"
  shows "\<exists>st'. hw_score c (fn_q f) sq st sk = Some (hw_spec_score c f sq sk, st') \<and> col_at c st' = col_at c st"
proof -
  let ?mac = "\<lambda>d acc. f32_add acc (f32_mul (f32_of_fp16 (row_of c (fn_q f) sq d)) (f32_of_fp16 (row_of c (fn_k f) sk d)))"
  have chunk: "foldlM (\<lambda>acc i. do {
             qx \<leftarrow> rd (fn_q f) (sq * dim_of c + d + i);
             kx \<leftarrow> rd (padded c (fn_k f) sk d) i;
             Some (f32_add acc (f32_mul (f32_of_fp16 qx) (f32_of_fp16 kx))) })
           acc [0..<min FP16_PER_COLUMN (dim_of c - d)] =
       Some (fold (\<lambda>i. ?mac (d + i)) [0..<min FP16_PER_COLUMN (dim_of c - d)] acc)"
    if "d \<in> set (chunk_starts c)" for d acc
  proof (rule foldlM_fold)
    fix i s assume "i \<in> set [0..<min FP16_PER_COLUMN (dim_of c - d)]"
    then have i: "i < FP16_PER_COLUMN" "d + i < dim_of c" by auto
    have "rd (fn_q f) (sq * dim_of c + d + i) = Some (row_of c (fn_q f) sq (d + i))"
      using index2_less [OF assms(3) i(2)] assms(4) by (simp add: row_of_def add.assoc)
    moreover have "rd (padded c (fn_k f) sk d) i = Some (row_of c (fn_k f) sk (d + i))"
      using i padded_nth [OF i] by (simp add: length_padded row_of_def add.assoc)
    ultimately show "do { qx \<leftarrow> rd (fn_q f) (sq * dim_of c + d + i); kx \<leftarrow> rd (padded c (fn_k f) sk d) i;
        Some (f32_add s (f32_mul (f32_of_fp16 qx) (f32_of_fp16 kx))) } = Some (?mac (d + i) s)" by simp
  qed
  have "\<exists>st'. foldlM (\<lambda>(acc, st) d.
       (let (col, st1) = hw_read c (kt_addr c sk d) st in do {
         acc' \<leftarrow> foldlM (\<lambda>acc i. do {
             qx \<leftarrow> rd (fn_q f) (sq * dim_of c + d + i);
             kx \<leftarrow> rd col i;
             Some (f32_add acc (f32_mul (f32_of_fp16 qx) (f32_of_fp16 kx))) })
           acc [0..<min FP16_PER_COLUMN (dim_of c - d)];
         Some (acc', st1) })) (0, st) (chunk_starts c) =
      Some (fold (\<lambda>d. fold (\<lambda>i. ?mac (d + i)) [0..<min FP16_PER_COLUMN (dim_of c - d)]) (chunk_starts c) 0, st') \<and>
      col_at c st' = col_at c st"
  proof (rule foldlM_fold_inv [where P = "\<lambda>s. col_at c s = col_at c st"])
    fix d acc s assume d: "d \<in> set (chunk_starts c)" and s: "col_at c s = col_at c st"
    have "fst (hw_read c (kt_addr c sk d) s) = padded c (fn_k f) sk d"
      using h d assms(2) by (simp add: hw_read_col s holds_def)
    then have "hw_read c (kt_addr c sk d) s = (padded c (fn_k f) sk d, snd (hw_read c (kt_addr c sk d) s))"
      by (metis prod.collapse)
    with chunk [OF d] s show "\<exists>st'. (case (acc, s) of (acc, st) \<Rightarrow> \<lambda>d.
       (let (col, st1) = hw_read c (kt_addr c sk d) st in do {
         acc' \<leftarrow> foldlM (\<lambda>acc i. do {
             qx \<leftarrow> rd (fn_q f) (sq * dim_of c + d + i);
             kx \<leftarrow> rd col i;
             Some (f32_add acc (f32_mul (f32_of_fp16 qx) (f32_of_fp16 kx))) })
           acc [0..<min FP16_PER_COLUMN (dim_of c - d)];
         Some (acc', st1) })) d =
       Some (fold (\<lambda>i. ?mac (d + i)) [0..<min FP16_PER_COLUMN (dim_of c - d)] acc, st') \<and> col_at c st' = col_at c st"
      using hw_read_keeps [of c "kt_addr c sk d" s] by (auto simp: Let_def split: prod.splits)
  qed simp
  then show ?thesis
    unfolding fold_chunks [of ?mac c 0] by (auto simp: hw_score_def hw_spec_score_def esef_score_def)
qed

lemma hw_pv_spec:
  assumes h: "holds c k (fn_v f) st" and "d < dim_of c"
    and VB: "VB_A = map (\<lambda>sk. prob_of (fn_we f ! sq) (hw_spec_score c f sq sk)) [0..<seq_of c]"
    and bm: "bitmask = map (\<lambda>sk. mask_of (hw_spec_score c f sq sk)) [0..<seq_of c]"
  shows "\<exists>st'. hw_pv c VB_A bitmask d st = Some (hw_spec c f sq d, st') \<and> col_at c st' = col_at c st"
proof -
  let ?d = "FP16_PER_COLUMN * (d div FP16_PER_COLUMN)"
  have "?d \<le> d" by (simp add: FP16_PER_COLUMN_def)
  then have "?d < dim_of c" using assms(2) by (rule le_less_trans)
  then have chunk: "?d \<in> set (chunk_starts c)" by (simp add: chunk_starts_iff)
  have col: "fst (hw_read c (v_addr c sk d) s) = padded c (fn_v f) sk ?d"
    if "col_at c s = col_at c st" "sk < seq_of c" for s sk
    using h chunk that by (simp add: hw_read_col holds_def v_addr_def kt_addr_chunk [of c sk d])
  have el: "rd (padded c (fn_v f) sk ?d) (d mod FP16_PER_COLUMN) = Some (row_of c (fn_v f) sk d)" for sk
  proof -
    have "d mod FP16_PER_COLUMN < FP16_PER_COLUMN" "?d + d mod FP16_PER_COLUMN = d"
      by (simp_all add: FP16_PER_COLUMN_def)
    with padded_nth [of "d mod FP16_PER_COLUMN" ?d c "fn_v f" sk] assms(2)
    show ?thesis by (simp add: length_padded row_of_def add.assoc)
  qed
  show ?thesis
    unfolding hw_pv_def hw_spec_def esef_out_def Let_def
  proof (rule foldlM_fold_inv [where P = "\<lambda>s. col_at c s = col_at c st"])
    fix sk acc s assume sk: "sk \<in> set [0..<seq_of c]" and s: "col_at c s = col_at c st"
    then have l: "sk < seq_of c" by simp
    obtain s1 where r: "hw_read c (v_addr c sk d) s = (padded c (fn_v f) sk ?d, s1)" "col_at c s1 = col_at c st"
      using col [OF s l] hw_read_keeps [of c "v_addr c sk d" s] s by (metis prod.collapse)
    have "rd VB_A sk = Some (prob_of (fn_we f ! sq) (hw_spec_score c f sq sk))"
      "rd bitmask sk = Some (mask_of (hw_spec_score c f sq sk))" using l by (simp_all add: VB bm)
    then show "\<exists>st'. (case (acc, s) of (acc, st) \<Rightarrow> \<lambda>sk. do {
        m \<leftarrow> rd bitmask sk;
        if \<not> m then Some (acc, st)
        else (case hw_read c (v_addr c sk d) st of (col, st1) \<Rightarrow> do {
          p \<leftarrow> rd VB_A sk;
          x \<leftarrow> rd col (d mod FP16_PER_COLUMN);
          Some (f32_add acc (f32_mul (f32_of_fp16 p) (f32_of_fp16 x)), st1) }) }) sk =
      Some (if mask_of (esef_score (dim_of c) (row_of c (fn_q f) sq) (row_of c (fn_k f)) sk)
            then f32_add acc (f32_mul (f32_of_fp16 (prob_of (fn_we f ! sq)
              (esef_score (dim_of c) (row_of c (fn_q f) sq) (row_of c (fn_k f)) sk)))
              (f32_of_fp16 (row_of c (fn_v f) sk d))) else acc, st') \<and> col_at c st' = col_at c st"
      using r s el by (auto simp: hw_spec_score_def)
  qed simp
qed


text \<open>A loop that fills a vector.\<close>

lemma fill_update:
  "i < n \<Longrightarrow> (map h [0..<i] @ replicate (n - i) z)[i := h i] = map h [0..<Suc i] @ replicate (n - Suc i) z"
  by (rule nth_equalityI) (auto simp: nth_append nth_list_update less_Suc_eq)

lemma foldlM_fill:
  assumes "P st" "\<And>sk st. sk < n \<Longrightarrow> P st \<Longrightarrow> \<exists>st'. g st sk = Some (h sk, st') \<and> P st'"
  shows "\<exists>st'. foldlM (\<lambda>(vb, st) sk. do { (s, st') \<leftarrow> g st sk; vb' \<leftarrow> wr vb sk s; Some (vb', st') })
     (replicate n z, st) [0..<n] = Some (map h [0..<n], st') \<and> P st'"
proof -
  let ?v = "\<lambda>i. map h [0..<i] @ replicate (n - i) z"
  have "\<exists>s'. foldlM (\<lambda>(vb, st) sk. do { (s, st') \<leftarrow> g st sk; vb' \<leftarrow> wr vb sk s; Some (vb', st') })
     (replicate n z, st) [0..<n] = Some s' \<and> fst s' = ?v n \<and> P (snd s')"
  proof (rule foldlM_upt [where P = "\<lambda>i s. fst s = ?v i \<and> P (snd s)"])
    fix i s assume i: "i < n" and s: "fst s = ?v i \<and> P (snd s)"
    from assms(2) [OF i] s obtain st' where "g (snd s) i = Some (h i, st')" "P st'" by blast
    moreover have "wr (?v i) i (h i) = Some (?v (Suc i))"
      using i fill_update [OF i, of h z] by simp
    ultimately show "\<exists>s'. (case s of (vb, st) \<Rightarrow> \<lambda>sk. do { (s, st') \<leftarrow> g st sk; vb' \<leftarrow> wr vb sk s; Some (vb', st') }) i =
        Some s' \<and> fst s' = ?v (Suc i) \<and> P (snd s')" using s by (cases s) auto
  qed (use assms(1) in simp_all)
  then show ?thesis by auto
qed

lemma foldlM_fill2:
  assumes "\<And>sk. sk < n \<Longrightarrow> rd vb sk = Some (s sk)"
  shows "foldlM (\<lambda>(bm, va) sk. do {
         s \<leftarrow> rd vb sk;
         let relu_s = f32_max 0 (f32_of_fp16 s);
         bm' \<leftarrow> wr bm sk (f32_less 0 relu_s);
         w \<leftarrow> Some we;
         va' \<leftarrow> wr va sk (fp16_of_f32 (f32_mul (f32_of_fp16 w) relu_s));
         Some (bm', va') }) (replicate n False, replicate n z) [0..<n] =
    Some (map (\<lambda>sk. mask_of (s sk)) [0..<n], map (\<lambda>sk. prob_of we (s sk)) [0..<n])"
proof -
  let ?b = "\<lambda>i. map (\<lambda>sk. mask_of (s sk)) [0..<i] @ replicate (n - i) False"
  let ?p = "\<lambda>i. map (\<lambda>sk. prob_of we (s sk)) [0..<i] @ replicate (n - i) z"
  let ?f = "\<lambda>(bm, va) sk. do {
         s \<leftarrow> rd vb sk;
         let relu_s = f32_max 0 (f32_of_fp16 s);
         bm' \<leftarrow> wr bm sk (f32_less 0 relu_s);
         w \<leftarrow> Some we;
         va' \<leftarrow> wr va sk (fp16_of_f32 (f32_mul (f32_of_fp16 w) relu_s));
         Some (bm', va') }"
  have "\<exists>r. foldlM ?f (replicate n False, replicate n z) [0..<n] = Some r \<and> r = (?b n, ?p n)"
  proof (rule foldlM_upt [where P = "\<lambda>i r. r = (?b i, ?p i)"])
    fix i r assume i: "i < n" and r: "r = (?b i, ?p i)"
    have "wr (?b i) i (mask_of (s i)) = Some (?b (Suc i))" "wr (?p i) i (prob_of we (s i)) = Some (?p (Suc i))"
      using i fill_update [OF i, of "\<lambda>sk. mask_of (s sk)" False] fill_update [OF i, of "\<lambda>sk. prob_of we (s sk)" z]
      by simp_all
    with assms [OF i] r show "\<exists>s'. ?f r i = Some s' \<and> s' = (?b (Suc i), ?p (Suc i))"
      by (simp add: mask_of_def prob_of_def relu_of_def Let_def)
  qed simp_all
  then show ?thesis by simp
qed

lemma execute_token:
  assumes h: "holds c (fn_k f) (fn_v f) (fn_store f)" and sq: "sq < seq_of c"
    and len: "seq_of c * dim_of c \<le> length (fn_q f)" "seq_of c \<le> length (fn_we f)"
      "seq_of c * dim_of c \<le> length (fn_hw f)"
  shows "\<exists>st hw. execute_functional_token c sq f = Some (f\<lparr>fn_store := st, fn_hw := hw\<rparr>) \<and>
    col_at c st = col_at c (fn_store f) \<and> length hw = length (fn_hw f) \<and>
    (\<forall>t d. d < dim_of c \<longrightarrow> hw ! (t * dim_of c + d) =
      (if t = sq then hw_spec c f sq d else fn_hw f ! (t * dim_of c + d)))"
proof -
  let ?D = "dim_of c" and ?S = "seq_of c"
  let ?same = "\<lambda>s. col_at c s = col_at c (fn_store f)"
  have keep: "holds c (fn_k f) (fn_v f) s" if "?same s" for s using h that by (simp add: holds_def)
  have "\<exists>st'. hw_score c (fn_q f) sq st sk = Some (hw_spec_score c f sq sk, st') \<and> ?same st'"
    if "sk < ?S" "?same st" for st sk
    using hw_score_spec [OF keep [OF that(2)] that(1) sq len(1)] that(2) by simp
  from foldlM_fill [where P = ?same and g = "hw_score c (fn_q f) sq", OF refl this] obtain st1 where
    A: "foldlM (\<lambda>(vb, st) sk. do { (s, st') \<leftarrow> hw_score c (fn_q f) sq st sk; vb' \<leftarrow> wr vb sk s; Some (vb', st') })
      (replicate ?S (fp16_of_f32 0), fn_store f) [0..<?S] = Some (map (hw_spec_score c f sq) [0..<?S], st1)" "?same st1"
    by blast
  have we: "rd (fn_we f) sq = Some (fn_we f ! sq)" using sq len(2) by simp
  define bm where "bm = map (\<lambda>sk. mask_of (hw_spec_score c f sq sk)) [0..<?S]"
  define va where "va = map (\<lambda>sk. prob_of (fn_we f ! sq) (hw_spec_score c f sq sk)) [0..<?S]"
  have B: "foldlM (\<lambda>(bm, va) sk. do {
         s \<leftarrow> rd (map (hw_spec_score c f sq) [0..<?S]) sk;
         let relu_s = f32_max 0 (f32_of_fp16 s);
         bm' \<leftarrow> wr bm sk (f32_less 0 relu_s);
         w \<leftarrow> rd (fn_we f) sq;
         va' \<leftarrow> wr va sk (fp16_of_f32 (f32_mul (f32_of_fp16 w) relu_s));
         Some (bm', va') }) (replicate ?S False, replicate ?S (fp16_of_f32 0)) [0..<?S] = Some (bm, va)"
    unfolding we bm_def va_def by (rule foldlM_fill2) simp
  let ?P = "\<lambda>n r. ?same (snd r) \<and> length (fst r) = length (fn_hw f) \<and> (\<forall>t d. d < ?D \<longrightarrow>
      fst r ! (t * ?D + d) = (if t = sq \<and> d < n then hw_spec c f sq d else fn_hw f ! (t * ?D + d)))"
  let ?g = "\<lambda>(hw, st) d. do { (pv_acc, st') \<leftarrow> hw_pv c va bm d st; hw' \<leftarrow> wr hw (sq * ?D + d) pv_acc; Some (hw', st') }"
  have "\<exists>r. foldlM ?g (fn_hw f, st1) [0..<?D] = Some r \<and> ?P ?D r"
  proof (rule foldlM_upt [where P = ?P])
    fix i r assume i: "i < ?D" and P: "?P i r"
    obtain hw s where r: "r = (hw, s)" by (cases r)
    have same: "?same s" using P r by simp
    then obtain s' where s': "hw_pv c va bm i s = Some (hw_spec c f sq i, s')" "?same s'"
      using hw_pv_spec [OF keep [OF same] i va_def bm_def] by metis
    have "sq * ?D + i < length hw" using index2_less [OF sq i] len(3) P r by simp
    then have g: "?g r i = Some (hw[sq * ?D + i := hw_spec c f sq i], s')" using s' r by simp
    have "?P (Suc i) (hw[sq * ?D + i := hw_spec c f sq i], s')"
    proof (intro conjI allI impI)
      fix t d assume d: "d < ?D"
      have "t * ?D + d = sq * ?D + i \<longleftrightarrow> t = sq \<and> d = i" using index2_inj [OF _ d i] by blast
      with P r d \<open>sq * ?D + i < length hw\<close>
      show "fst (hw[sq * ?D + i := hw_spec c f sq i], s') ! (t * ?D + d) =
        (if t = sq \<and> d < Suc i then hw_spec c f sq d else fn_hw f ! (t * ?D + d))"
        by (auto simp: nth_list_update less_Suc_eq)
    qed (use s' P r in simp_all)
    with g show "\<exists>r'. ?g r i = Some r' \<and> ?P (Suc i) r'" by blast
  qed (use A(2) in simp_all)
  then obtain hw st where C: "foldlM ?g (fn_hw f, st1) [0..<?D] = Some (hw, st)" "?P ?D (hw, st)" by auto
  have "execute_functional_token c sq f = Some (f\<lparr>fn_store := st, fn_hw := hw\<rparr>)"
    unfolding execute_functional_token_def A(1) using B C(1) by simp
  with C(2) show ?thesis by (intro exI [of _ st] exI [of _ hw]) simp
qed


section \<open>Comparing equal tensors\<close>

lemma f32_neg_of_parts:
  "f32_exp (f32_neg_of x) = f32_exp x" "f32_frac (f32_neg_of x) = f32_frac x" "f32_neg (f32_neg_of x) \<longleftrightarrow> \<not> f32_neg x"
proof -
  have s: "bit (0x80000000 :: f32) n \<longleftrightarrow> n = 31" for n :: nat
  proof -
    have "(0x80000000 :: f32) = 2 ^ 31" by simp
    then show ?thesis by (auto simp only: bit_exp_iff possible_bit_word len_f32)
  qed
  have "drop_bit 23 (f32_neg_of x) AND 0xff = drop_bit 23 x AND 0xff"
    unfolding f32_neg_of_def
    by (rule bit_word_eqI) (auto simp only: bit_and_iff bit_drop_bit_eq bit_xor_iff s bit_mask_numeral comp_def)
  then show "f32_exp (f32_neg_of x) = f32_exp x" by (simp add: f32_exp_def)
  have "f32_neg_of x AND 0x7fffff = x AND 0x7fffff"
    unfolding f32_neg_of_def
    by (rule bit_word_eqI) (auto simp: bit_simps s bit_mask_numeral simp del: bit_numeral_word_iff)
  then show "f32_frac (f32_neg_of x) = f32_frac x" by (simp add: f32_frac_def)
  show "f32_neg (f32_neg_of x) \<longleftrightarrow> \<not> f32_neg x"
    by (auto simp: f32_neg_def f32_neg_of_def bit_simps s simp del: bit_numeral_word_iff)
qed

lemma f32_sub_self: "f32_sub x x = 0 \<or> f32_sub x x = f32_nan"
  by (auto simp: f32_sub_def f32_add_def f32_neg_of_parts f32_is_nan_def f32_is_inf_def f32_mant_def
      f32_scale_def f32_sign_bit_def Let_def)

lemma compare_tensors_refl: "compare_tensors xs xs f32_tol rtol"
proof -
  have z: "\<not> f32_less f32_tol (f32_abs 0)" "f32_is_nan f32_nan" by code_simp+
  have "\<not> f32_less f32_tol (f32_abs (f32_sub x x))" for x
  proof (cases "f32_sub x x = 0")
    case True
    with z(1) show ?thesis by simp
  next
    case False
    with f32_sub_self [of x] have "f32_is_nan x \<or> f32_is_nan (f32_abs (f32_sub x x))"
      using z(2) f32_sub_nan [of f32_nan 0] by (simp add: f32_sub_def f32_add_def)
    then show ?thesis using f32_sub_nan [of x x] f32_less_nan by blast
  qed
  then have "\<not> tensor_mismatch f32_tol rtol xs xs"
    by (induction xs) (simp_all add: Let_def)
  then show ?thesis by (simp add: compare_tensors_def)
qed

section \<open>The simulated hardware and the golden model\<close>

text \<open>What holds after \<open>setup\<close> and after every token.\<close>

definition fn_inv :: "sp_cfg \<Rightarrow> fn_state \<Rightarrow> bool" where
  "fn_inv c f \<longleftrightarrow> holds c (fn_k f) (fn_v f) (fn_store f) \<and>
     seq_of c * dim_of c \<le> length (fn_q f) \<and> seq_of c \<le> length (fn_we f) \<and>
     seq_of c * dim_of c \<le> length (fn_hw f) \<and> length (fn_golden f) = length (fn_hw f) \<and>
     (\<forall>sq < seq_of c. \<forall>d < dim_of c. fn_golden f ! (sq * dim_of c + d) = hw_spec c f sq d) \<and>
     0 \<le> fn_current_sq f \<and> fn_current_sq f \<le> int (seq_of c) \<and>
     (\<forall>sq < nat (fn_current_sq f). \<forall>d < dim_of c.
        fn_hw f ! (sq * dim_of c + d) = fn_golden f ! (sq * dim_of c + d))"

definition dims_ok :: "sp_cfg \<Rightarrow> bool" where
  "dims_ok c \<longleftrightarrow> 1 \<le> pm_batch_size c \<and> 1 \<le> pm_num_heads c \<and> 1 \<le> pm_num_kv_heads c \<and>
     0 \<le> pm_seq_len c \<and> 0 \<le> pm_d_head c"

lemma mult_ge_one: "1 \<le> a \<Longrightarrow> 1 \<le> b \<Longrightarrow> (n :: nat) \<le> a * b * n"
  using mult_le_mono [of 1 "a * b" n n] by simp

lemma setup_inv:
  assumes "sp_cfg_ok c" "keys_fit c" "layout_ok c" "dims_ok c"
  shows "\<exists>f. setup_functional_data gen c = Some f \<and> fn_inv c f \<and> fn_current_sq f = 0"
proof -
  define B H KV S D where "B = nat (pm_batch_size c)" and "H = nat (pm_num_heads c)" and
    "KV = nat (pm_num_kv_heads c)" and "S = seq_of c" and "D = dim_of c"
  note dims = B_def H_def KV_def S_def D_def
  have pos: "1 \<le> B" "1 \<le> H" "1 \<le> KV" using assms(4) by (auto simp: dims_ok_def dims)
  define q k v we where "q = generate_q_tensor gen B H S D" and "k = generate_k_tensor gen B KV S D" and
    "v = generate_v_tensor gen B KV S D" and "we = generate_we_tensor gen B H S"
  have len: "length q = B * H * S * D" "length k = B * KV * S * D" "length v = B * KV * S * D" "length we = B * H * S"
    by (simp_all add: q_def k_def v_def we_def generate_q_tensor_def generate_k_tensor_def generate_v_tensor_def
        generate_we_tensor_def generate_random_tensor_def)
  have SD: "S * D \<le> B * H * S * D" "S * D \<le> B * KV * S * D" "S \<le> B * H * S"
    using mult_ge_one [OF pos(1,2), of "S * D"] mult_ge_one [OF pos(1,3), of "S * D"] mult_ge_one [OF pos(1,2), of S]
    by (simp_all add: mult.assoc)
  let ?g = "golden_new B H KV S D"
  have g: "gm_batch ?g = B" "gm_num_heads ?g = H" "gm_num_kv_heads ?g = KV" "gm_seq_len ?g = S" "gm_d_head ?g = D"
    by (simp_all add: golden_new_def Let_def)
  have "golden_fresh ?g" "tensors_ok ?g q k v we" "0 < gm_num_kv_heads ?g"
    using pos by (simp_all add: golden_fresh_def g tensors_ok_def len)
  from golden_rows [OF this] obtain g' out where
    gold: "golden_compute q k v we ?g = Some (g', out)" "rows_done ?g q k v we (B * H * S) (g', out)"
    by (auto simp: g)
  have out: "length out = B * H * S * D" using gold(2) by (simp add: rows_done_def g)
  from setup_store [OF assms(1-3), of k v] obtain st where
    st: "foldlM (store_key c k v) clear_store [0..<seq_of c] = Some st" "holds c k v st"
    using SD len by (auto simp: S_def D_def)
  define f where "f = \<lparr>fn_store = st, fn_q = q, fn_k = k, fn_v = v, fn_we = we, fn_golden = out,
    fn_hw = replicate (length out) 0, fn_current_sq = 0\<rparr>"
  have nn: "\<not> (\<exists>n \<in> {pm_batch_size c, pm_num_heads c, pm_num_kv_heads c, pm_seq_len c, pm_d_head c}. n < 0)"
    using assms(4) by (auto simp: dims_ok_def)
  have run: "setup_functional_data gen c = Some f"
    unfolding setup_functional_data_def if_not_P [OF nn] Let_def dims [symmetric]
    by (simp only: q_def [symmetric] k_def [symmetric] v_def [symmetric] we_def [symmetric] gold(1) bind.bind_lunit
        prod.case st(1) [folded S_def] f_def)
  have golden_row: "out ! (sq * D + d) = hw_spec c f sq d" if sq: "sq < S" and d: "d < D" for sq d
  proof -
    have t: "tok ?g 0 0 sq = sq" by (simp add: tok_def)
    have "sq < B * H * S" using sq SD(3) by (rule less_le_trans)
    then have "out ! (sq * D + d) = spec_row ?g q k v we 0 0 sq d"
      using gold(2) pos sq d unfolding rows_done_def by (metis (no_types, lifting) g t snd_conv less_le_trans zero_less_one)
    also have "\<dots> = hw_spec c f sq d"
      unfolding spec_row_def hw_spec_def g q_index_def kv_index_def we_index_def kv_head_def f_def row_of_def [abs_def]
        S_def [symmetric] D_def [symmetric] by simp
    finally show ?thesis .
  qed
  have "fn_inv c f"
    using st(2) len out SD golden_row by (simp add: fn_inv_def f_def S_def D_def)
  with run show ?thesis by (auto simp: f_def)
qed


lemma step_inv:
  assumes "fn_inv c f"
  shows "\<exists>f'. functional_step c f = Some f' \<and> fn_inv c f' \<and>
    fn_current_sq f' = (if pm_enable_functional c \<and> fn_current_sq f < pm_seq_len c then fn_current_sq f + 1
      else fn_current_sq f)"
proof (cases "pm_enable_functional c \<and> fn_current_sq f < pm_seq_len c")
  case True
  let ?sq = "nat (fn_current_sq f)"
  have cur: "0 \<le> fn_current_sq f" "?sq < seq_of c"
    using assms True by (auto simp: fn_inv_def seq_of_def)
  from execute_token [of c f ?sq] assms cur(2) obtain st hw where
    e: "execute_functional_token c ?sq f = Some (f\<lparr>fn_store := st, fn_hw := hw\<rparr>)"
      "col_at c st = col_at c (fn_store f)" "length hw = length (fn_hw f)"
      "\<forall>t d. d < dim_of c \<longrightarrow> hw ! (t * dim_of c + d) =
        (if t = ?sq then hw_spec c f ?sq d else fn_hw f ! (t * dim_of c + d))"
    unfolding fn_inv_def by blast
  let ?f = "f\<lparr>fn_store := st, fn_hw := hw, fn_current_sq := fn_current_sq f + 1\<rparr>"
  have run: "functional_step c f = Some ?f" using True e(1) by (simp add: functional_step_def)
  have spec: "hw_spec c ?f = hw_spec c f" by (simp add: hw_spec_def fun_eq_iff)
  have rows: "\<forall>sq < nat (fn_current_sq f + 1). \<forall>d < dim_of c.
      hw ! (sq * dim_of c + d) = fn_golden f ! (sq * dim_of c + d)"
  proof (intro allI impI)
    fix sq d assume sq: "sq < nat (fn_current_sq f + 1)" and d: "d < dim_of c"
    show "hw ! (sq * dim_of c + d) = fn_golden f ! (sq * dim_of c + d)"
    proof (cases "sq = ?sq")
      case True
      with e(4) d cur(2) assms show ?thesis by (simp add: fn_inv_def)
    next
      case False
      with sq have "sq < ?sq" by auto
      with e(4) d False assms show ?thesis by (simp add: fn_inv_def)
    qed
  qed
  have "holds c (fn_k f) (fn_v f) st" using assms e(2) by (simp add: fn_inv_def holds_def)
  then have "fn_inv c ?f"
    using assms e(3) cur rows unfolding fn_inv_def spec by simp
  with run True show ?thesis by auto
next
  case False
  then show ?thesis using assms by (auto simp: functional_step_def)
qed

lemma finalize_passes:
  assumes "fn_inv c f" "dims_ok c"
  shows "functional_finalize c f"
proof -
  let ?n = "nat (fn_current_sq f * pm_d_head c)" and ?s = "nat (fn_current_sq f)"
  have n: "?n = ?s * dim_of c" using assms by (simp add: fn_inv_def dim_of_def nat_mult_distrib)
  have "?s \<le> seq_of c" using assms(1) by (simp add: fn_inv_def nat_le_iff)
  then have "?n \<le> length (fn_hw f)" "length (fn_golden f) = length (fn_hw f)"
    using assms(1) mult_le_mono1 [of ?s "seq_of c" "dim_of c"] unfolding n fn_inv_def by linarith+
  moreover have "fn_hw f ! i = fn_golden f ! i" if "i < ?n" for i
  proof -
    have D: "0 < dim_of c" using that by (cases "dim_of c") (simp_all add: n)
    have "i div dim_of c < ?s" using that unfolding n by (simp add: less_mult_imp_div_less)
    moreover have "i div dim_of c * dim_of c + i mod dim_of c = i" "i mod dim_of c < dim_of c" using D by simp_all
    ultimately show ?thesis using assms(1) unfolding fn_inv_def by metis
  qed
  ultimately have "vec_resize (fn_hw f) ?n 0 = vec_resize (fn_golden f) ?n 0"
    by (intro nth_equalityI) (simp_all add: vec_resize_nth)
  then show ?thesis by (simp add: functional_finalize_def compare_tensors_refl Let_def)
qed

text \<open>The state after a number of attention tokens.\<close>

definition functional_run :: "generator \<Rightarrow> sp_cfg \<Rightarrow> nat \<Rightarrow> fn_state option" where
  "functional_run gen c n = do {
     f \<leftarrow> setup_functional_data gen c;
     foldlM (\<lambda>f _. functional_step c f) f [0..<n] }"

lemma run_inv:
  assumes "sp_cfg_ok c" "keys_fit c" "layout_ok c" "dims_ok c" "pm_enable_functional c"
  shows "\<exists>f. functional_run gen c n = Some f \<and> fn_inv c f \<and> fn_current_sq f = min (int n) (pm_seq_len c)"
proof -
  from setup_inv [OF assms(1-4)] obtain f0 where
    f0: "setup_functional_data gen c = Some f0" "fn_inv c f0" "fn_current_sq f0 = 0" by blast
  have s: "0 \<le> pm_seq_len c" using assms(4) by (simp add: dims_ok_def)
  have "\<exists>f. foldlM (\<lambda>f _. functional_step c f) f0 [0..<n] = Some f \<and>
      fn_inv c f \<and> fn_current_sq f = min (int n) (pm_seq_len c)"
  proof (rule foldlM_upt [where P = "\<lambda>i f. fn_inv c f \<and> fn_current_sq f = min (int i) (pm_seq_len c)"])
    fix i f assume "fn_inv c f \<and> fn_current_sq f = min (int i) (pm_seq_len c)"
    with step_inv [of c f] assms(5)
    show "\<exists>f'. functional_step c f = Some f' \<and> fn_inv c f' \<and> fn_current_sq f' = min (int (Suc i)) (pm_seq_len c)"
      by (elim conjE exE) (auto simp: min_def split: if_splits)
  qed (use f0 s in simp_all)
  with f0(1) show ?thesis by (simp add: functional_run_def)
qed

text \<open>C3: the simulated hardware computes the golden model. When the organization fits the packed keys
  and every column of \<open>K\<close> and \<open>V\<close> has a cell of its own, the functional data is set up without an
  index out of range, and after any number of attention tokens every output row computed so far from
  the banks equals the golden model's row bit for bit, whatever the generator, the chunking of the
  head dimension and the masks; \<open>finalize\<close> reports \<open>PASSED\<close>.\<close>

theorem hardware_matches_golden:
  assumes "sp_cfg_ok c" "keys_fit c" "layout_ok c" "dims_ok c" "pm_enable_functional c"
  shows "\<exists>f. functional_run gen c n = Some f \<and> functional_finalize c f \<and>
    fn_current_sq f = min (int n) (pm_seq_len c) \<and>
    (\<forall>sq < nat (fn_current_sq f). \<forall>d < dim_of c.
       fn_hw f ! (sq * dim_of c + d) = fn_golden f ! (sq * dim_of c + d))"
proof -
  from run_inv [OF assms] obtain f where
    "functional_run gen c n = Some f" "fn_inv c f" "fn_current_sq f = min (int n) (pm_seq_len c)" by blast
  with finalize_passes [OF _ assms(4), of f] show ?thesis by (auto simp: fn_inv_def)
qed

end
