(* ===== verification/Spare_System.thy ===== *)
theory Spare_System
  imports Spare_Stream Spare_Dataflow
begin

text \<open>
  The controller driving a device, tick by tick, as the memory system does
  (\<open>GenericDRAMSystem::tick\<close>: first the device's clock, then the controller). The locale \<open>pim_dram\<close>
  states what the controller needs of a device; in it, ticks never fail, requests complete in
  order, and a controller that receives nothing more drains its queues.
\<close>

section \<open>Runs\<close>

definition sys_tick ::
  "'d dram_ops \<Rightarrow> sp_cfg \<Rightarrow> sp_state \<times> 'd \<Rightarrow> ((sp_state \<times> 'd) \<times> (nat \<times> request) list) option" where
  "sys_tick D c sd = sp_tick D c (fst sd, dr_tick D (snd sd))"

fun sys_run ::
  "'d dram_ops \<Rightarrow> sp_cfg \<Rightarrow> nat \<Rightarrow> sp_state \<times> 'd \<Rightarrow> ((sp_state \<times> 'd) \<times> (nat \<times> request) list) option" where
  "sys_run D c 0 sd = Some (sd, [])"
| "sys_run D c (Suc n) sd = do {
     (sd1, cbs1) \<leftarrow> sys_tick D c sd;
     (sd2, cbs2) \<leftarrow> sys_run D c n sd1;
     Some (sd2, cbs1 @ cbs2) }"

text \<open>A history of the controller: clock ticks and requests of the memory system, in any order. The
  result lists the requests accepted (with their arrival time) and the callbacks made.\<close>

datatype sp_event = EvTick | EvSend request | EvPriority request

definition sys_event ::
  "'d dram_ops \<Rightarrow> sp_cfg \<Rightarrow> sp_event \<Rightarrow> sp_state \<times> 'd \<Rightarrow>
   ((sp_state \<times> 'd) \<times> request list \<times> (nat \<times> request) list) option" where
  "sys_event D c e sd = (case e of
     EvTick \<Rightarrow> map_option (\<lambda>(sd', cbs). (sd', [], cbs)) (sys_tick D c sd)
   | EvSend r \<Rightarrow> (let (accepted, s') = sp_send c r (fst sd)
       in Some ((s', snd sd), if accepted then [r\<lparr>rq_arrive := cs_clk (fst sd)\<rparr>] else [], []))
   | EvPriority r \<Rightarrow> (let (accepted, s') = sp_priority_send c r (fst sd)
       in Some ((s', snd sd), if accepted then [r\<lparr>rq_arrive := cs_clk (fst sd)\<rparr>] else [], [])))"

fun sys_events ::
  "'d dram_ops \<Rightarrow> sp_cfg \<Rightarrow> sp_event list \<Rightarrow> sp_state \<times> 'd \<Rightarrow>
   ((sp_state \<times> 'd) \<times> request list \<times> (nat \<times> request) list) option" where
  "sys_events D c [] sd = Some (sd, [], [])"
| "sys_events D c (e # es) sd = do {
     (sd1, acc1, cbs1) \<leftarrow> sys_event D c e sd;
     (sd2, acc2, cbs2) \<leftarrow> sys_events D c es sd1;
     Some (sd2, acc1 @ acc2, cbs1 @ cbs2) }"

definition event_request :: "sp_event \<Rightarrow> request option" where
  "event_request e = (case e of EvTick \<Rightarrow> None | EvSend r \<Rightarrow> Some r | EvPriority r \<Rightarrow> Some r)"

definition is_priority :: "sp_event \<Rightarrow> bool" where
  "is_priority e \<longleftrightarrow> (case e of EvPriority r \<Rightarrow> True | _ \<Rightarrow> False)"

text \<open>The requests whose completion is in a stream.\<close>

definition completions :: "sp_op list \<Rightarrow> request list" where
  "completions ops = map op_request (filter (\<lambda>op. op_kind op = Complete) ops)"

lemma completions_simps [simp]:
  "completions [] = []" "completions (xs @ ys) = completions xs @ completions ys"
  "completions (op # ops) = (if op_kind op = Complete then op_request op # completions ops else completions ops)"
  by (simp_all add: completions_def)

text \<open>The requests accepted and not yet completed, oldest first, and a request up to its departure.\<close>

definition pending :: "sp_state \<Rightarrow> request list" where
  "pending s = completions (cs_ops s) @ cs_queue s"

definition undeparted :: "request \<Rightarrow> request" where
  "undeparted r = r\<lparr>rq_depart := 0\<rparr>"

definition notified :: "(nat \<times> request) list \<Rightarrow> request list" where
  "notified cbs = map (\<lambda>(cb, r). undeparted r) cbs"

definition with_callback :: "request list \<Rightarrow> request list" where
  "with_callback rs = map undeparted (filter (\<lambda>r. rq_callback r \<noteq> None) rs)"

lemma with_callback_append: "with_callback (xs @ ys) = with_callback xs @ with_callback ys"
  by (simp add: with_callback_def)

lemma notified_append: "notified (xs @ ys) = notified xs @ notified ys"
  by (simp add: notified_def)

section \<open>What holds of the queues\<close>

definition op_ok :: "(int \<Rightarrow> addr_vec \<Rightarrow> bool) \<Rightarrow> sp_op \<Rightarrow> bool" where
  "op_ok valid op = (case op_kind op of
     Command \<Rightarrow> valid (op_command op) (op_addr_vec op)
   | Delay \<Rightarrow> 1 \<le> op_cycles op
   | ConfigureSPM \<Rightarrow> True
   | Complete \<Rightarrow> op_has_request op)"

lemma op_ok_simps [simp]:
  "op_ok valid (cmd_op cmd av) \<longleftrightarrow> valid cmd av" "op_ok valid (spm_op lat)" "op_ok valid (complete_op r)"
  "op_ok valid (delay_op n) \<longleftrightarrow> 1 \<le> n"
  by (simp_all add: op_ok_def)

definition request_ok :: "'d dram_ops \<Rightarrow> ('d \<Rightarrow> int \<Rightarrow> addr_vec \<Rightarrow> bool) \<Rightarrow> sp_cfg \<Rightarrow> 'd \<Rightarrow> request \<Rightarrow> bool" where
  "request_ok D valid c d r \<longleftrightarrow> rq_type r = sc_req_sparepim c \<or>
     (\<exists>cmd. direct_command D d c (rq_type r) = Some cmd \<and> valid d cmd (normalize_addr c (rq_addr_vec r)))"

definition delay_ok :: "sp_state \<Rightarrow> bool" where
  "delay_ok s \<longleftrightarrow> (cs_delay_active s \<longrightarrow> cs_ops s \<noteq> [] \<and> op_kind (hd (cs_ops s)) = Delay)"

text \<open>The queue never holds more requests than its size, read as an unsigned number.\<close>

definition queue_bound :: "sp_cfg \<Rightarrow> sp_state \<Rightarrow> bool" where
  "queue_bound c s \<longleftrightarrow> int (length (cs_queue s)) \<le> u64 (pm_queue_size c)"

definition fn_ok :: "sp_cfg \<Rightarrow> fn_state \<Rightarrow> bool" where
  "fn_ok c f \<longleftrightarrow> (pm_enable_functional c \<longrightarrow> fn_inv c f)"

lemma fn_ok_step: "fn_ok c f \<Longrightarrow> \<exists>f'. functional_step c f = Some f' \<and> fn_ok c f'"
  using step_inv [of c f] by (cases "pm_enable_functional c") (auto simp: fn_ok_def functional_step_def)

definition pim_commands :: "sp_cfg \<Rightarrow> int set" where
  "pim_commands c = {sc_cmd_act c, sc_cmd_pre c, sc_cmd_mac c, sc_cmd_emul c, sc_cmd_mov c, sc_cmd_spm c, sc_cmd_acc c}"

section \<open>Completions in the stream of a token\<close>

lemma completions_Nil: "\<forall>op \<in> set ops. op_kind op \<noteq> Complete \<Longrightarrow> completions ops = []"
  by (simp add: completions_def)

lemma completions_concat: "(\<And>ops. ops \<in> set opss \<Longrightarrow> completions ops = []) \<Longrightarrow> completions (concat opss) = []"
  by (induction opss) auto

lemma completions_bank_ops: "completions (bank_ops c cmd av) = []"
  by (rule completions_Nil) (auto simp: bank_ops_def)

lemma completions_rows:
  "completions body = [] \<Longrightarrow> completions (row_ops e c av body) = []"
  "completions (spm_row_ops c vocs av) = []" "completions (mac_ops c base n k) = []"
  "completions (acc_ops c base k) = []"
  by (simp_all add: row_ops_def spm_row_ops_def completions_bank_ops mac_ops_def acc_ops_def completions_Nil)

lemma completions_token: "completions (token_ops c r latency) = [r]"
proof -
  have "completions (qk_stage_ops c base n) = []" for base n
    using completions_Nil [of "replicate (nat n) (cmd_op (sc_cmd_mac c) (make_all_bank_addr c base))"]
    by (auto simp: qk_stage_ops_def qk_ops_def completions_rows intro!: completions_concat)
  moreover have "completions (pv_stage_ops c base n) = []" for base n
    by (auto simp: pv_stage_ops_def pv_ops_def completions_rows intro!: completions_concat)
  ultimately show ?thesis by (simp add: token_ops_def Let_def completions_rows)
qed

lemma token_ops_not_Nil: "token_ops c r latency \<noteq> []"
  by (simp add: token_ops_def Let_def)

text \<open>Expanding does not touch the number of completed requests.\<close>

lemma completed_enqueue [simp]: "cs_stats (enqueue_complete r s) = cs_stats s" "cs_stats (push_op op s) = cs_stats s"
  by (simp_all add: enqueue_complete_def push_op_def)

lemma completed_qk: "st_completed (cs_stats (enqueue_qk_stage c base n s)) = st_completed (cs_stats s)"
proof -
  have "st_completed (cs_stats (qk_rows c base n k s)) = st_completed (cs_stats s)" for k
  proof (induction c base n k s rule: qk_rows.induct)
    case (1 c base n k s)
    then show ?case by (subst qk_rows.simps) (simp add: qk_row_def fold_enqueue_stats Let_def)
  qed
  then show ?thesis by (simp add: enqueue_qk_stage_def fold_enqueue_stats)
qed

lemma completed_pv: "st_completed (cs_stats (enqueue_sparse_pv_stage c base n s)) = st_completed (cs_stats s)"
proof -
  have "st_completed (cs_stats (pv_rows c base n k s)) = st_completed (cs_stats s)" for k
  proof (induction c base n k s rule: pv_rows.induct)
    case (1 c base n k s)
    then show ?case by (subst pv_rows.simps) (simp add: spm_row_def Let_def)
  qed
  then show ?thesis by (simp add: enqueue_sparse_pv_stage_def spm_row_def Let_def)
qed

lemma completed_bgmu: "enqueue_bgmu_read_delay D d c m n s = Some s' \<Longrightarrow> st_completed (cs_stats s') = st_completed (cs_stats s)"
  by (auto simp: enqueue_bgmu_read_delay_def bind_eq_Some_conv Let_def split: if_splits)

lemma expand_token_completed:
  assumes "expand_sparepim_token D d c r s = Some s'"
  shows "st_completed (cs_stats s') = st_completed (cs_stats s)"
proof -
  from assms obtain f s3 s4 a b x y base n k where
    "enqueue_bgmu_read_delay D d c a b (enqueue_command x base (enqueue_command y base (enqueue_qk_stage c n k s3))) = Some s4"
    "st_completed (cs_stats s3) = st_completed (cs_stats s)" "st_completed (cs_stats s') = st_completed (cs_stats s4)"
    unfolding expand_sparepim_token_def bind_eq_Some_conv Let_def
    by (elim exE conjE) (fastforce simp: fold_enqueue_stats completed_pv split: if_splits)
  with completed_bgmu [OF this(1)] show ?thesis by (simp add: completed_qk)
qed

text \<open>What a tick takes from the queue: a token's turn of the functional part comes with its expansion.\<close>

definition took :: "sp_cfg \<Rightarrow> sp_state \<Rightarrow> sp_state \<Rightarrow> bool" where
  "took c s s' \<longleftrightarrow> (if cs_ops s = [] \<and> cs_queue s \<noteq> []
     then cs_queue s' = tl (cs_queue s) \<and>
       (rq_type (hd (cs_queue s)) = sc_req_sparepim c \<longrightarrow> functional_step c (cs_fn s) = Some (cs_fn s'))
     else cs_queue s' = cs_queue s \<and> cs_fn s' = cs_fn s)"

section \<open>What the controller needs of a device\<close>

locale pim_dram =
  fixes D :: "'d dram_ops"
    and ok :: "sp_cfg \<Rightarrow> 'd \<Rightarrow> bool"
    and valid :: "'d \<Rightarrow> int \<Rightarrow> addr_vec \<Rightarrow> bool"
  assumes cfg: "ok c d \<Longrightarrow> sp_cfg_ok c"
    and ready_total: "ok c d \<Longrightarrow> valid d cmd av \<Longrightarrow> \<exists>b. dr_ready D d cmd av = Some b"
    and issue_total: "ok c d \<Longrightarrow> valid d cmd av \<Longrightarrow> \<exists>d'. dr_issue D d cmd av = Some d'"
    and notify_total: "ok c d \<Longrightarrow> \<exists>d'. dr_notify D d key x = Some d'"
    and timing_total: "ok c d \<Longrightarrow> \<exists>latency. bgmu_read_latency D d n = Some latency"
    and ok_tick: "ok c d \<Longrightarrow> ok c (dr_tick D d)"
    and ok_issue: "ok c d \<Longrightarrow> valid d cmd av \<Longrightarrow> dr_ready D d cmd av = Some True \<Longrightarrow>
      dr_issue D d cmd av = Some d' \<Longrightarrow> ok c d'"
    and ok_notify: "ok c d \<Longrightarrow> dr_notify D d key x = Some d' \<Longrightarrow> ok c d'"
    and same_tick: "ok c d \<Longrightarrow> valid (dr_tick D d) = valid d \<and> dr_translate D (dr_tick D d) = dr_translate D d"
    and same_issue: "ok c d \<Longrightarrow> dr_issue D d cmd av = Some d' \<Longrightarrow>
      valid d' = valid d \<and> dr_translate D d' = dr_translate D d"
    and same_notify: "ok c d \<Longrightarrow> dr_notify D d key x = Some d' \<Longrightarrow>
      valid d' = valid d \<and> dr_translate D d' = dr_translate D d"
    and bank_valid: "ok c d \<Longrightarrow> full_vec c av \<Longrightarrow> cmd \<in> pim_commands c \<Longrightarrow>
      (p, g, b) \<in> insert (-1, -1, -1) (set (all_banks c)) \<Longrightarrow> valid d cmd (make_bank_addr c av p g b)"
    and wait: "ok c d \<Longrightarrow> valid d cmd av \<Longrightarrow> \<exists>n. \<forall>m \<ge> n. dr_ready D ((dr_tick D ^^ m) d) cmd av = Some True"
begin

text \<open>What of a device decides which addresses and requests are legal.\<close>

definition same :: "'d \<Rightarrow> 'd \<Rightarrow> bool" where
  "same d d' \<longleftrightarrow> valid d' = valid d \<and> dr_translate D d' = dr_translate D d"

lemma same_refl [simp]: "same d d"
  by (simp add: same_def)

lemma same_trans: "same d d1 \<Longrightarrow> same d1 d2 \<Longrightarrow> same d d2"
  by (simp add: same_def)

lemma same_step:
  "ok c d \<Longrightarrow> same d (dr_tick D d)"
  "ok c d \<Longrightarrow> dr_issue D d cmd av = Some d' \<Longrightarrow> same d d'"
  "ok c d \<Longrightarrow> dr_notify D d key x = Some d' \<Longrightarrow> same d d'"
  unfolding same_def using same_tick same_issue same_notify by blast+

definition sys_inv :: "sp_cfg \<Rightarrow> sp_state \<times> 'd \<Rightarrow> bool" where
  "sys_inv c sd \<longleftrightarrow> ok c (snd sd) \<and> (\<forall>op \<in> set (cs_ops (fst sd)). op_ok (valid (snd sd)) op) \<and>
     (\<forall>r \<in> set (cs_queue (fst sd)). request_ok D valid c (snd sd) r) \<and> delay_ok (fst sd) \<and> fn_ok c (cs_fn (fst sd))"

lemma all_bank_valid:
  "ok c d \<Longrightarrow> full_vec c av \<Longrightarrow> cmd \<in> pim_commands c \<Longrightarrow> valid d cmd (make_all_bank_addr c av)"
  unfolding make_all_bank_addr_def by (rule bank_valid) simp_all

lemma acc_valid:
  assumes "ok c d" "full_vec c av" "cmd \<in> pim_commands c"
  shows "valid d cmd (make_acc_addr c av (int i))"
proof -
  from acc_addr_bank [OF cfg [OF assms(1)] assms(2), of "int i"] obtain p g b where
    "make_acc_addr c av (int i) = make_bank_addr c av p g b" "(p, g, b) \<in> set (all_banks c)"
    by (auto simp: all_banks_range)
  with bank_valid [OF assms, of p g b] show ?thesis by simp
qed

lemma bank_ops_ok:
  "ok c d \<Longrightarrow> full_vec c av \<Longrightarrow> cmd \<in> pim_commands c \<Longrightarrow> \<forall>op \<in> set (bank_ops c cmd av). op_ok (valid d) op"
  using bank_valid by (auto simp: bank_ops_def)

lemma row_ops_ok:
  assumes "ok c d" "full_vec c av" "\<forall>op \<in> set body. op_ok (valid d) op"
  shows "\<forall>op \<in> set (row_ops e c av body). op_ok (valid d) op"
  using bank_ops_ok [OF assms(1,2)] assms(3) by (auto simp: row_ops_def pim_commands_def)

lemma spm_row_ops_ok:
  assumes "ok c d" "full_vec c av"
  shows "\<forall>op \<in> set (spm_row_ops c vocs av). op_ok (valid d) op"
proof -
  have "sc_cmd_spm c \<in> pim_commands c" by (simp add: pim_commands_def)
  then have "\<forall>op \<in> set [cmd_op (sc_cmd_spm c) (make_all_bank_addr c av)]. op_ok (valid d) op"
    using all_bank_valid [OF assms] by simp
  from row_ops_ok [OF assms this] show ?thesis by (simp add: spm_row_ops_def)
qed

lemma token_ops_ok:
  assumes "ok c d"
  shows "\<forall>op \<in> set (token_ops c r latency). op_ok (valid d) op"
proof -
  let ?base = "normalize_addr c (rq_addr_vec r)"
  have full: "full_vec c ?base" "full_vec c (kt_row_addr c ?base n)" "full_vec c (v_row_addr c ?base n)" for n
    by (simp_all add: kt_row_addr_def v_row_addr_def)
  have cmds: "sc_cmd_mac c \<in> pim_commands c" "sc_cmd_mov c \<in> pim_commands c" "sc_cmd_emul c \<in> pim_commands c"
    "sc_cmd_acc c \<in> pim_commands c" by (simp_all add: pim_commands_def)
  have macs: "\<forall>op \<in> set (mac_ops c ?base n k). op_ok (valid d) op" for n k
    using all_bank_valid [OF assms full(2) cmds(1)] by (auto simp: mac_ops_def)
  have "\<forall>op \<in> set (qk_stage_ops c ?base n). op_ok (valid d) op" for n
    using row_ops_ok [OF assms full(2) macs] all_bank_valid [OF assms full(1) cmds(1)]
    by (auto simp: qk_stage_ops_def qk_ops_def)
  moreover have "\<forall>op \<in> set (pv_stage_ops c ?base n). op_ok (valid d) op" for n
    using spm_row_ops_ok [OF assms full(3)] spm_row_ops_ok [OF assms full(1)]
    by (auto simp: pv_stage_ops_def pv_ops_def)
  moreover have "\<forall>op \<in> set (acc_ops c ?base n). op_ok (valid d) op" for n
    using acc_valid [OF assms full(1) cmds(4)] by (auto simp: acc_ops_def)
  moreover have "full_vec c (make_esdm_addr c ?base ro col)" for ro col by simp
  then have "valid d (sc_cmd_mov c) (elemax_addr c ?base)" "valid d (sc_cmd_emul c) (elemax_addr c ?base)"
    using all_bank_valid [OF assms] cmds by (auto simp: elemax_addr_def)
  ultimately show ?thesis by (auto simp: token_ops_def Let_def)
qed

text \<open>Expanding a request: it succeeds, and its stream ends with its completion.\<close>

lemma expand_ok:
  assumes "ok c d" "request_ok D valid c d r" "fn_ok c (cs_fn s)" "cs_ops s = []"
  shows "\<exists>s'. expand_request D d c r s = Some s' \<and> cs_ops s' \<noteq> [] \<and>
    (\<forall>op \<in> set (cs_ops s'). op_ok (valid d) op) \<and> completions (cs_ops s') = [r] \<and> fn_ok c (cs_fn s') \<and>
    cs_queue s' = cs_queue s \<and> cs_delay_active s' = cs_delay_active s \<and> cs_clk s' = cs_clk s \<and>
    st_completed (cs_stats s') = st_completed (cs_stats s) \<and>
    (rq_type r = sc_req_sparepim c \<longrightarrow> functional_step c (cs_fn s) = Some (cs_fn s'))"
proof (cases "rq_type r = sc_req_sparepim c")
  case True
  obtain f where f: "functional_step c (cs_fn s) = Some f" "fn_ok c f" using fn_ok_step [OF assms(3)] by blast
  obtain latency where l: "bgmu_read_latency D d (max 1 (vs_bgmu_reads (read_bgmu_vocs_and_find_max c r))) = Some latency"
    using timing_total [OF assms(1)] by blast
  from expand_token_stream [OF f(1) l] obtain s' where
    s': "expand_sparepim_token D d c r s = Some s'" "appends (s\<lparr>cs_fn := f\<rparr>) (token_ops c r latency) s'" by blast
  have "cs_ops s' = token_ops c r latency" using s'(2) assms(4) by (simp add: appends_def)
  then show ?thesis
    using True s' f token_ops_ok [OF assms(1), of r latency] expand_token_completed [OF s'(1)]
    by (simp add: expand_request_def appends_def frame_def completions_token token_ops_not_Nil)
next
  case False
  with assms(2) obtain cmd where
    "direct_command D d c (rq_type r) = Some cmd" "valid d cmd (normalize_addr c (rq_addr_vec r))"
    by (auto simp: request_ok_def)
  with False show ?thesis
    using assms(3,4) by (simp add: expand_request_def expand_direct_request_def enqueue_complete_def
        enqueue_command_def push_op_def complete_op_def [symmetric] cmd_op_def [symmetric])
qed

section \<open>One tick\<close>

text \<open>The part of the invariant that depends on the device depends on what never changes of it.\<close>

lemma request_ok_cong:
  "same d d' \<Longrightarrow> request_ok D valid c d' r = request_ok D valid c d r"
  by (simp add: same_def request_ok_def direct_command_def)

lemma sys_inv_cong:
  "sys_inv c (s, d) \<Longrightarrow> ok c d' \<Longrightarrow> same d d' \<Longrightarrow> sys_inv c (s, d')"
  using request_ok_cong [of d d' c] by (simp add: sys_inv_def same_def)

lemma sys_inv_clock: "sys_inv c (s, d) \<Longrightarrow> sys_inv c (s\<lparr>cs_clk := n\<rparr>, d)"
  by (simp add: sys_inv_def delay_ok_def)

lemma sys_inv_tick:
  assumes "sys_inv c (s, d)"
  shows "sys_inv c (s, dr_tick D d)"
proof -
  have "ok c d" using assms by (simp add: sys_inv_def)
  from sys_inv_cong [OF assms ok_tick [OF this] same_step(1) [OF this]] show ?thesis .
qed

lemma took_length: "took c s s' \<Longrightarrow> length (cs_queue s') \<le> length (cs_queue s)"
  by (auto simp: took_def split: if_splits)

text \<open>What a step of the controller does to the requests: a list of them completes.\<close>

definition completes :: "sp_state \<Rightarrow> request list \<Rightarrow> sp_state \<Rightarrow> (nat \<times> request) list \<Rightarrow> bool" where
  "completes s rs s' cbs \<longleftrightarrow> pending s = rs @ pending s' \<and> notified cbs = with_callback rs \<and>
     st_completed (cs_stats s') = st_completed (cs_stats s) + int (length rs)"

lemma completes_trans:
  "completes s xs s1 as \<Longrightarrow> completes s1 ys s2 bs \<Longrightarrow> completes s (xs @ ys) s2 (as @ bs)"
  by (simp add: completes_def notified_append with_callback_append)

lemma next_request_ok:
  assumes "sys_inv c (s, d)"
  shows "\<exists>s'. next_request D c (s, d) = Some (s', d) \<and> sys_inv c (s', d) \<and> completes s [] s' [] \<and> cs_clk s' = cs_clk s \<and>
    took c s s'"
proof (cases "cs_queue s = [] \<or> cs_ops s \<noteq> []")
  case True
  with assms show ?thesis
    by (cases "cs_queue s") (auto simp: next_request_def completes_def notified_def with_callback_def took_def)
next
  case False
  then obtain r rest where q: "cs_queue s = r # rest" "cs_ops s = []" by (cases "cs_queue s") auto
  let ?s = "s\<lparr>cs_queue := rest\<rparr>"
  have "\<not> cs_delay_active s" using assms q(2) by (simp add: sys_inv_def delay_ok_def)
  moreover have "ok c d" "request_ok D valid c d r" "fn_ok c (cs_fn ?s)" "cs_ops ?s = []"
    using assms q by (simp_all add: sys_inv_def)
  from expand_ok [OF this] obtain s' where "expand_request D d c r ?s = Some s'" "cs_ops s' \<noteq> []"
    "\<forall>op \<in> set (cs_ops s'). op_ok (valid d) op" "completions (cs_ops s') = [r]" "fn_ok c (cs_fn s')"
    "cs_queue s' = rest" "cs_delay_active s' = cs_delay_active s" "cs_clk s' = cs_clk s"
    "st_completed (cs_stats s') = st_completed (cs_stats s)"
    "rq_type r = sc_req_sparepim c \<longrightarrow> functional_step c (cs_fn s) = Some (cs_fn s')" by auto
  ultimately show ?thesis using assms q
    by (auto simp: took_def next_request_def sys_inv_def delay_ok_def completes_def pending_def notified_def with_callback_def)
qed

lemma run_op_ok:
  assumes "sys_inv c (s, d)"
  shows "\<exists>s' d' cbs rs. run_op D c (s, d) = Some ((s', d'), cbs) \<and> sys_inv c (s', d') \<and> completes s rs s' cbs \<and>
    cs_clk s' = cs_clk s \<and> cs_queue s' = cs_queue s \<and> cs_fn s' = cs_fn s \<and> same d d' \<and> (\<forall>c2. ok c2 d \<longrightarrow> ok c2 d')"
proof (cases "cs_ops s")
  case Nil
  with assms show ?thesis
    by (auto simp: run_op_def completes_def notified_def with_callback_def intro!: exI [of _ "[] :: request list"])
next
  case (Cons op ops)
  have op: "op_ok (valid d) op" "ok c d" using assms Cons by (simp_all add: sys_inv_def)
  have none: "completes s [] s' []" if "cs_queue s' = cs_queue s" "completions (cs_ops s') = completions (cs_ops s)"
    "st_completed (cs_stats s') = st_completed (cs_stats s)" for s'
    using that by (simp add: completes_def pending_def notified_def with_callback_def)
  show ?thesis
  proof (cases "op_kind op")
    case Command
    then have v: "valid d (op_command op) (op_addr_vec op)" and nd: "\<not> cs_delay_active s"
      using op assms Cons by (auto simp: op_ok_def sys_inv_def delay_ok_def)
    obtain ready where ready: "dr_ready D d (op_command op) (op_addr_vec op) = Some ready" using ready_total [OF op(2) v] by blast
    obtain d' where d': "dr_issue D d (op_command op) (op_addr_vec op) = Some d'" using issue_total [OF op(2) v] by blast
    let ?s = "pop_op (update_command_stats c (op_command op) s)"
    have st: "st_completed (cs_stats ?s) = st_completed (cs_stats s)"
      by (simp add: pop_op_def update_command_stats_def)
    have s: "cs_ops ?s = ops" "cs_queue ?s = cs_queue s" "cs_fn ?s = cs_fn s" "cs_clk ?s = cs_clk s" "\<not> cs_delay_active ?s"
      using Cons nd by (simp_all add: pop_op_def update_command_stats_def upd_stats_def)
    show ?thesis
    proof (cases ready)
      case True
      have "ok c d'" using ok_issue [OF op(2) v _ d'] ready True by simp
      then have "sys_inv c (?s, d')"
        using sys_inv_cong [OF assms _ same_step(2) [OF op(2) d']] s Cons by (simp add: sys_inv_def delay_ok_def)
      moreover have "completes s [] ?s []" by (rule none) (simp_all add: s st Cons Command)
      moreover have "\<forall>c2. ok c2 d \<longrightarrow> ok c2 d'" using ok_issue [OF _ v _ d'] ready True by auto
      ultimately show ?thesis using Cons Command ready d' True s same_step(2) [OF op(2) d']
        by (auto simp: run_op_def issue_if_ready_def)
    next
      case False
      then show ?thesis using Cons Command ready assms none [of s] by (auto simp: run_op_def issue_if_ready_def)
    qed
  next
    case Delay
    have "sys_inv c (tick_delay op s, d)" "completes s [] (tick_delay op s) []"
      "cs_clk (tick_delay op s) = cs_clk s" "cs_queue (tick_delay op s) = cs_queue s" "cs_fn (tick_delay op s) = cs_fn s"
      using assms Cons Delay
      by (auto simp: tick_delay_def pop_op_def sys_inv_def delay_ok_def Let_def intro!: none)
    then show ?thesis using Cons Delay by (auto simp: run_op_def)
  next
    case ConfigureSPM
    obtain d' where d': "dr_notify D d ''sparepim_spm_latency'' (op_cycles op) = Some d'"
      using notify_total [OF op(2)] by blast
    have "\<not> cs_delay_active s" using ConfigureSPM assms Cons by (auto simp: sys_inv_def delay_ok_def)
    then have "sys_inv c (pop_op s, d')"
      using sys_inv_cong [OF assms ok_notify [OF op(2) d'] same_step(3) [OF op(2) d']] Cons
      by (simp add: sys_inv_def pop_op_def delay_ok_def)
    moreover have "completes s [] (pop_op s) []" by (rule none) (simp_all add: pop_op_def Cons ConfigureSPM)
    moreover have "\<forall>c2. ok c2 d \<longrightarrow> ok c2 d'" using ok_notify [OF _ d'] by blast
    ultimately show ?thesis using Cons ConfigureSPM d' same_step(3) [OF op(2) d'] by (auto simp: run_op_def pop_op_def)
  next
    case Complete
    obtain s1 cbs where cr: "complete_request op s = (s1, cbs)" by fastforce
    have "op_has_request op" "\<not> cs_delay_active s" using op Complete assms Cons
      by (auto simp: op_ok_def sys_inv_def delay_ok_def)
    then have "sys_inv c (pop_op s1, d)" "completes s [op_request op] (pop_op s1) cbs"
      "cs_clk (pop_op s1) = cs_clk s" "cs_queue (pop_op s1) = cs_queue s" "cs_fn (pop_op s1) = cs_fn s"
      using assms Cons Complete cr
      by (auto simp: complete_request_def pop_op_def upd_stats_def sys_inv_def delay_ok_def completes_def pending_def
          notified_def with_callback_def undeparted_def split: option.splits)
    then show ?thesis using Cons Complete cr by (auto simp: run_op_def)
  qed
qed

lemma sp_tick_ok:
  assumes "sys_inv c (s, d)"
  shows "\<exists>s' d' cbs rs. sp_tick D c (s, d) = Some ((s', d'), cbs) \<and> sys_inv c (s', d') \<and> completes s rs s' cbs \<and>
    cs_clk s' = cs_clk s + 1 \<and> took c s s' \<and> same d d' \<and> (\<forall>c2. ok c2 d \<longrightarrow> ok c2 d')"
proof -
  let ?s = "s\<lparr>cs_clk := cs_clk s + 1\<rparr>"
  from next_request_ok [OF sys_inv_clock [OF assms, of "cs_clk s + 1"]] obtain s1 where
    s1: "next_request D c (?s, d) = Some (s1, d)" "sys_inv c (s1, d)" "completes ?s [] s1 []" "cs_clk s1 = cs_clk s + 1"
    "took c ?s s1" by auto
  from run_op_ok [OF s1(2)] obtain s2 d2 cbs rs where
    s2: "run_op D c (s1, d) = Some ((s2, d2), cbs)" "sys_inv c (s2, d2)" "completes s1 rs s2 cbs" "cs_clk s2 = cs_clk s1"
    "cs_queue s2 = cs_queue s1" "cs_fn s2 = cs_fn s1" "same d d2" "\<forall>c2. ok c2 d \<longrightarrow> ok c2 d2" by blast
  have "took c s s2" using s1(5) s2(5,6) by (auto simp: took_def split: if_splits)
  moreover
  have "completes s rs s2 cbs" using completes_trans [OF s1(3) s2(3)] by (simp add: completes_def pending_def)
  ultimately show ?thesis using s1 s2 by (auto simp: sp_tick_def)
qed

lemma tick_ok:
  assumes "sys_inv c sd"
  shows "\<exists>sd' cbs rs. sys_tick D c sd = Some (sd', cbs) \<and> sys_inv c sd' \<and> completes (fst sd) rs (fst sd') cbs \<and>
    cs_clk (fst sd') = cs_clk (fst sd) + 1 \<and> took c (fst sd) (fst sd') \<and> same (snd sd) (snd sd')"
proof (cases sd)
  case (Pair s d)
  have "ok c d" using assms Pair by (simp add: sys_inv_def)
  have inv: "sys_inv c (s, dr_tick D d)" using sys_inv_tick assms Pair by simp
  from sp_tick_ok [OF inv] obtain s' d' cbs rs where
    "sp_tick D c (s, dr_tick D d) = Some ((s', d'), cbs)" "sys_inv c (s', d')" "completes s rs s' cbs"
    "cs_clk s' = cs_clk s + 1" "took c s s'" "same (dr_tick D d) d'" by blast
  moreover from same_trans [OF same_step(1) [OF \<open>ok c d\<close>] this(6)] have "same d d'" .
  ultimately show ?thesis using Pair by (auto simp: sys_tick_def)
qed

lemma run_ok:
  assumes "sys_inv c sd"
  shows "\<exists>sd' cbs rs. sys_run D c n sd = Some (sd', cbs) \<and> sys_inv c sd' \<and> completes (fst sd) rs (fst sd') cbs \<and>
    cs_clk (fst sd') = cs_clk (fst sd) + int n"
  using assms
proof (induction n arbitrary: sd)
  case 0
  then show ?case by (auto simp: completes_def notified_def with_callback_def intro!: exI [of _ "[] :: request list"])
next
  case (Suc n)
  from tick_ok [OF Suc.prems] obtain sd1 as xs where
    1: "sys_tick D c sd = Some (sd1, as)" "sys_inv c sd1" "completes (fst sd) xs (fst sd1) as"
      "cs_clk (fst sd1) = cs_clk (fst sd) + 1" by blast
  from Suc.IH [OF 1(2)] obtain sd2 bs ys where
    2: "sys_run D c n sd1 = Some (sd2, bs)" "sys_inv c sd2" "completes (fst sd1) ys (fst sd2) bs"
      "cs_clk (fst sd2) = cs_clk (fst sd1) + int n" by blast
  have "sys_run D c (Suc n) sd = Some (sd2, as @ bs)" "cs_clk (fst sd2) = cs_clk (fst sd) + int (Suc n)"
    using 1 2 by simp_all
  with 2(2) completes_trans [OF 1(3) 2(3)] show ?case by blast
qed

section \<open>Progress\<close>

text \<open>While operations are queued a tick runs the oldest.\<close>

lemma tick_busy:
  "cs_ops s = op # ops \<Longrightarrow> sys_tick D c (s, d) = run_op D c (s\<lparr>cs_clk := cs_clk s + 1\<rparr>, dr_tick D d)"
  by (simp add: sys_tick_def sp_tick_def next_request_def split: list.split)

text \<open>The ticks until a command stays ready, if nothing else is issued.\<close>

definition wait_of :: "'d \<Rightarrow> int \<Rightarrow> addr_vec \<Rightarrow> nat" where
  "wait_of d cmd av = (LEAST n. \<forall>m \<ge> n. dr_ready D ((dr_tick D ^^ m) d) cmd av = Some True)"

lemma wait_of_ready:
  assumes "ok c d" "valid d cmd av" "wait_of d cmd av \<le> m"
  shows "dr_ready D ((dr_tick D ^^ m) d) cmd av = Some True"
  using LeastI_ex [OF wait [OF assms(1,2)]] assms(3) unfolding wait_of_def by blast

lemma wait_of_tick:
  assumes "ok c d" "valid d cmd av" "dr_ready D (dr_tick D d) cmd av \<noteq> Some True"
  shows "wait_of (dr_tick D d) cmd av < wait_of d cmd av"
proof (cases "wait_of d cmd av")
  case 0
  then show ?thesis using wait_of_ready [OF assms(1,2), of 1] assms(3) by simp
next
  case (Suc n)
  have "\<forall>m \<ge> n. dr_ready D ((dr_tick D ^^ m) (dr_tick D d)) cmd av = Some True"
  proof (intro allI impI)
    fix m assume "n \<le> m"
    then show "dr_ready D ((dr_tick D ^^ m) (dr_tick D d)) cmd av = Some True"
      using wait_of_ready [OF assms(1,2), of "Suc m"] Suc by (simp add: funpow_swap1)
  qed
  then have "wait_of (dr_tick D d) cmd av \<le> n" unfolding wait_of_def [of "dr_tick D d"] by (rule Least_le)
  with Suc show ?thesis by simp
qed

definition op_wait :: "sp_state \<Rightarrow> 'd \<Rightarrow> nat" where
  "op_wait s d = (case cs_ops s of [] \<Rightarrow> 0 | op # ops \<Rightarrow> (case op_kind op of
     Command \<Rightarrow> wait_of d (op_command op) (op_addr_vec op)
   | Delay \<Rightarrow> if cs_delay_active s then nat (cs_delay_done_clk s - cs_clk s) else nat (op_cycles op) + 1
   | _ \<Rightarrow> 0))"

text \<open>What is left to do: requests not expanded, operations not run, ticks the oldest has to wait.\<close>

definition work :: "sp_state \<times> 'd \<Rightarrow> nat \<times> nat \<times> nat" where
  "work sd = (length (cs_queue (fst sd)), length (cs_ops (fst sd)), op_wait (fst sd) (snd sd))"

definition less_work :: "((nat \<times> nat \<times> nat) \<times> (nat \<times> nat \<times> nat)) set" where
  "less_work = less_than <*lex*> less_than <*lex*> less_than"

lemma wf_less_work: "wf less_work"
  by (simp add: less_work_def wf_lex_prod)

lemma pop_less:
  "cs_ops s = op # ops \<Longrightarrow> cs_ops s' = ops \<Longrightarrow> cs_queue s' = cs_queue s \<Longrightarrow> (work (s', d'), work (s, d)) \<in> less_work"
  by (simp add: work_def less_work_def)

lemma wait_less:
  "cs_ops s' = cs_ops s \<Longrightarrow> cs_queue s' = cs_queue s \<Longrightarrow> op_wait s' d' < op_wait s d \<Longrightarrow>
   (work (s', d'), work (s, d)) \<in> less_work"
  by (simp add: work_def less_work_def)

text \<open>Every tick of a controller that has something to do leaves less to do.\<close>

lemma tick_op_less:
  assumes inv: "sys_inv c (s, d)" and ops: "cs_ops s = op # ops"
    and tick: "sys_tick D c (s, d) = Some ((s', d'), cbs)"
  shows "(work (s', d'), work (s, d)) \<in> less_work"
proof -
  let ?d = "dr_tick D d" and ?s = "s\<lparr>cs_clk := cs_clk s + 1\<rparr>"
  have run: "run_op D c (?s, ?d) = Some ((s', d'), cbs)" using tick ops by (simp add: tick_busy)
  have op: "ok c d" "op_ok (valid d) op" using inv ops by (simp_all add: sys_inv_def)
  show ?thesis
  proof (cases "op_kind op")
    case Command
    then have v: "valid d (op_command op) (op_addr_vec op)" using op(2) by (simp add: op_ok_def)
    from run Command ops consider "s' = pop_op (update_command_stats c (op_command op) ?s)"
      | "dr_ready D ?d (op_command op) (op_addr_vec op) \<noteq> Some True" "s' = ?s" "d' = ?d"
      by (auto simp: run_op_def issue_if_ready_def bind_eq_Some_conv split: if_splits)
    then show ?thesis
    proof cases
      case 1
      then show ?thesis by (intro pop_less [OF ops]) (simp_all add: pop_op_def update_command_stats_def upd_stats_def ops)
    next
      case 2
      with wait_of_tick [OF op(1) v] ops Command show ?thesis by (intro wait_less) (simp_all add: op_wait_def)
    qed
  next
    case Delay
    then have s': "s' = tick_delay op ?s" and n: "1 \<le> op_cycles op"
      using run ops op(2) by (simp_all add: run_op_def op_ok_def)
    show ?thesis
    proof (cases "cs_delay_active s \<and> cs_clk s + 1 \<ge> cs_delay_done_clk s")
      case True
      then show ?thesis by (intro pop_less [OF ops]) (simp_all add: s' tick_delay_def pop_op_def ops)
    next
      case False
      with n have "cs_ops s' = cs_ops s" "cs_queue s' = cs_queue s" "op_wait s' d' < op_wait s d"
        using ops Delay by (auto simp: s' tick_delay_def op_wait_def)
      then show ?thesis by (rule wait_less)
    qed
  next
    case ConfigureSPM
    with run ops have "s' = pop_op ?s" by (auto simp: run_op_def bind_eq_Some_conv)
    then show ?thesis by (intro pop_less [OF ops]) (simp_all add: pop_op_def ops)
  next
    case Complete
    obtain s1 xs where cr: "complete_request op ?s = (s1, xs)" by fastforce
    then have "cs_ops s1 = cs_ops s" "cs_queue s1 = cs_queue s"
      by (auto simp: complete_request_def upd_stats_def split: if_splits)
    moreover have "s' = pop_op s1" using run ops Complete cr by (simp add: run_op_def)
    ultimately show ?thesis by (intro pop_less [OF ops]) (simp_all add: pop_op_def ops)
  qed
qed

lemma tick_less:
  assumes inv: "sys_inv c sd" and busy: "cs_ops (fst sd) \<noteq> [] \<or> cs_queue (fst sd) \<noteq> []"
    and tick: "sys_tick D c sd = Some (sd', cbs)"
  shows "(work sd', work sd) \<in> less_work"
proof -
  obtain s d s' d' where sd: "sd = (s, d)" "sd' = (s', d')" by (metis surj_pair)
  show ?thesis
  proof (cases "cs_ops s")
    case (Cons op ops)
    with tick_op_less inv tick show ?thesis by (simp add: sd)
  next
    case Nil
    from tick_ok [OF inv] tick have "took c s s'" by (auto simp: sd)
    with busy Nil have "cs_queue s' = tl (cs_queue s)" by (simp add: took_def sd)
    with busy Nil show ?thesis by (cases "cs_queue s") (simp_all add: sd work_def less_work_def)
  qed
qed

text \<open>A controller that receives nothing more works off everything it has accepted.\<close>

lemma drains:
  assumes "sys_inv c sd"
  shows "\<exists>n sd' cbs. sys_run D c n sd = Some (sd', cbs) \<and> sys_inv c sd' \<and> cs_ops (fst sd') = [] \<and> cs_queue (fst sd') = []"
  using assms
proof (induction sd rule: wf_induct_rule [OF wf_inv_image [OF wf_less_work, of work]])
  case (1 sd)
  show ?case
  proof (cases "cs_ops (fst sd) \<noteq> [] \<or> cs_queue (fst sd) \<noteq> []")
    case True
    from tick_ok [OF 1(2)] obtain sd1 as where t: "sys_tick D c sd = Some (sd1, as)" "sys_inv c sd1" by blast
    have "(sd1, sd) \<in> inv_image less_work work" using tick_less [OF 1(2) True t(1)] by (simp add: in_inv_image)
    from 1(1) [OF this t(2)] obtain n sd2 bs where
      "sys_run D c n sd1 = Some (sd2, bs)" "sys_inv c sd2" "cs_ops (fst sd2) = []" "cs_queue (fst sd2) = []" by blast
    moreover from this(1) t(1) have "sys_run D c (Suc n) sd = Some (sd2, as @ bs)" by simp
    ultimately show ?thesis by blast
  next
    case False
    with 1(2) show ?thesis by (intro exI [of _ 0] exI [of _ sd] exI [of _ "[]"]) simp
  qed
qed

text \<open>With the completions of the way: everything pending completes, in order.\<close>

lemma drains_in_order:
  assumes "sys_inv c sd"
  shows "\<exists>n sd' cbs. sys_run D c n sd = Some (sd', cbs) \<and> sys_inv c sd' \<and> pending (fst sd') = [] \<and>
    notified cbs = with_callback (pending (fst sd)) \<and>
    st_completed (cs_stats (fst sd')) = st_completed (cs_stats (fst sd)) + int (length (pending (fst sd)))"
proof -
  from drains [OF assms] obtain n sd' cbs where
    n: "sys_run D c n sd = Some (sd', cbs)" "sys_inv c sd'" "cs_ops (fst sd') = []" "cs_queue (fst sd') = []" by blast
  from run_ok [OF assms, of n] n(1) obtain rs where "completes (fst sd) rs (fst sd') cbs" by auto
  moreover have "pending (fst sd') = []" using n(3,4) by (simp add: pending_def)
  ultimately show ?thesis using n(1,2) unfolding completes_def by (metis append_Nil2)
qed

section \<open>Histories\<close>

lemma request_ok_arrive [simp]:
  "request_ok D valid c d (r\<lparr>rq_arrive := t\<rparr>) = request_ok D valid c d r"
  by (simp add: request_ok_def)

lemma send_ok:
  assumes "sys_inv c (s, d)" "request_ok D valid c d r" "sp_send c r s = (b, s')"
  shows "sys_inv c (s', d)" "pending s' = pending s @ (if b then [r\<lparr>rq_arrive := cs_clk s\<rparr>] else [])"
    "st_completed (cs_stats s') = st_completed (cs_stats s)" "queue_bound c s \<Longrightarrow> queue_bound c s'"
  using assms
  by (auto simp: sp_send_def queue_full_def reject_def upd_stats_def sys_inv_def delay_ok_def pending_def queue_bound_def
      Let_def split: if_splits)

lemma priority_send_ok:
  assumes "sys_inv c (s, d)" "request_ok D valid c d r" "sp_priority_send c r s = (b, s')"
  shows "sys_inv c (s', d)" "queue_bound c s \<Longrightarrow> queue_bound c s'"
  using assms
  by (auto simp: sp_priority_send_def queue_full_def reject_def upd_stats_def sys_inv_def delay_ok_def pending_def queue_bound_def
      Let_def split: if_splits)

lemma event_ok:
  assumes "sys_inv c sd" "\<forall>r. event_request e = Some r \<longrightarrow> request_ok D valid c (snd sd) r"
  shows "\<exists>sd' acc cbs. sys_event D c e sd = Some (sd', acc, cbs) \<and> sys_inv c sd' \<and> same (snd sd) (snd sd') \<and>
    (queue_bound c (fst sd) \<longrightarrow> queue_bound c (fst sd')) \<and>
    (\<not> is_priority e \<longrightarrow> (\<exists>rs. pending (fst sd) @ acc = rs @ pending (fst sd') \<and> notified cbs = with_callback rs \<and>
       st_completed (cs_stats (fst sd')) = st_completed (cs_stats (fst sd)) + int (length rs)))"
proof (cases e)
  case EvTick
  from tick_ok [OF assms(1)] obtain sd' cbs rs where
    "sys_tick D c sd = Some (sd', cbs)" "sys_inv c sd'" "completes (fst sd) rs (fst sd') cbs"
    "took c (fst sd) (fst sd')" "same (snd sd) (snd sd')" by blast
  with EvTick show ?thesis
    by (intro exI [of _ sd'] exI [of _ "[]"] exI [of _ cbs]) (auto simp: sys_event_def completes_def queue_bound_def dest: took_length)
next
  case (EvSend r)
  obtain b s' where s': "sp_send c r (fst sd) = (b, s')" by fastforce
  have r: "request_ok D valid c (snd sd) r" using assms(2) EvSend by (simp add: event_request_def)
  have "sys_inv c (fst sd, snd sd)" using assms(1) by simp
  note send_ok [OF this r s']
  with EvSend s' show ?thesis
    by (auto simp: sys_event_def notified_def with_callback_def intro!: exI [of _ "[] :: request list"])
next
  case (EvPriority r)
  obtain b s' where s': "sp_priority_send c r (fst sd) = (b, s')" by fastforce
  have r: "request_ok D valid c (snd sd) r" using assms(2) EvPriority by (simp add: event_request_def)
  have "sys_inv c (fst sd, snd sd)" using assms(1) by simp
  note priority_send_ok [OF this r s']
  with EvPriority s' show ?thesis by (auto simp: sys_event_def is_priority_def)
qed

lemma events_ok:
  assumes "sys_inv c sd" "\<forall>e \<in> set es. \<forall>r. event_request e = Some r \<longrightarrow> request_ok D valid c (snd sd) r"
  shows "\<exists>sd' acc cbs. sys_events D c es sd = Some (sd', acc, cbs) \<and> sys_inv c sd' \<and>
    (queue_bound c (fst sd) \<longrightarrow> queue_bound c (fst sd')) \<and>
    ((\<forall>e \<in> set es. \<not> is_priority e) \<longrightarrow> (\<exists>rs. pending (fst sd) @ acc = rs @ pending (fst sd') \<and>
       notified cbs = with_callback rs \<and>
       st_completed (cs_stats (fst sd')) = st_completed (cs_stats (fst sd)) + int (length rs)))"
  using assms
proof (induction es arbitrary: sd)
  case Nil
  then show ?case by (auto simp: notified_def with_callback_def intro!: exI [of _ "[] :: request list"])
next
  case (Cons e es)
  from event_ok [OF Cons.prems(1), of e] Cons.prems(2) obtain sd1 acc1 cbs1 where
    1: "sys_event D c e sd = Some (sd1, acc1, cbs1)" "sys_inv c sd1" "same (snd sd) (snd sd1)"
      "queue_bound c (fst sd) \<longrightarrow> queue_bound c (fst sd1)"
      "\<not> is_priority e \<longrightarrow> (\<exists>rs. pending (fst sd) @ acc1 = rs @ pending (fst sd1) \<and> notified cbs1 = with_callback rs \<and>
       st_completed (cs_stats (fst sd1)) = st_completed (cs_stats (fst sd)) + int (length rs))" by auto
  have "\<forall>e \<in> set es. \<forall>r. event_request e = Some r \<longrightarrow> request_ok D valid c (snd sd1) r"
    using Cons.prems(2) request_ok_cong [OF 1(3)] by simp
  from Cons.IH [OF 1(2) this] obtain sd2 acc2 cbs2 where
    2: "sys_events D c es sd1 = Some (sd2, acc2, cbs2)" "sys_inv c sd2" "queue_bound c (fst sd1) \<longrightarrow> queue_bound c (fst sd2)"
      "(\<forall>e \<in> set es. \<not> is_priority e) \<longrightarrow> (\<exists>rs. pending (fst sd1) @ acc2 = rs @ pending (fst sd2) \<and>
       notified cbs2 = with_callback rs \<and>
       st_completed (cs_stats (fst sd2)) = st_completed (cs_stats (fst sd1)) + int (length rs))" by blast
  have run: "sys_events D c (e # es) sd = Some (sd2, acc1 @ acc2, cbs1 @ cbs2)" using 1(1) 2(1) by simp
  have "\<exists>rs. pending (fst sd) @ acc1 @ acc2 = rs @ pending (fst sd2) \<and> notified (cbs1 @ cbs2) = with_callback rs \<and>
      st_completed (cs_stats (fst sd2)) = st_completed (cs_stats (fst sd)) + int (length rs)"
    if fifo: "\<forall>e \<in> set (e # es). \<not> is_priority e"
  proof -
    from fifo 1(5) obtain xs where x: "pending (fst sd) @ acc1 = xs @ pending (fst sd1)" "notified cbs1 = with_callback xs"
      "st_completed (cs_stats (fst sd1)) = st_completed (cs_stats (fst sd)) + int (length xs)" by auto
    from fifo 2(4) obtain ys where y: "pending (fst sd1) @ acc2 = ys @ pending (fst sd2)" "notified cbs2 = with_callback ys"
      "st_completed (cs_stats (fst sd2)) = st_completed (cs_stats (fst sd1)) + int (length ys)" by auto
    have "pending (fst sd) @ acc1 @ acc2 = (xs @ ys) @ pending (fst sd2)"
      using x(1) y(1) by (metis append.assoc)
    then show ?thesis using x y by (intro exI [of _ "xs @ ys"]) (simp add: notified_append with_callback_append)
  qed
  with run 1(4) 2(2,3) show ?case by blast
qed

end

end
