(* ===== verification/Addr_Mapper.thy ===== *)
theory Addr_Mapper
  imports Base_Utils Dram_Spec
begin

text \<open>
  The linear address mappers (\<open>src/addr_mapper/impl/linear_mappers.cpp\<close>): \<open>setup\<close> of their common
  base, and the three \<open>apply\<close> functions. \<open>None\<close> is undefined behaviour of the C++ (a shift by a
  negative amount or past the width of \<open>int\<close>, an index out of range), a loop that does not end
  (\<open>calc_log2\<close> of a negative number) or, in \<open>setup\<close>, the exception for a device without rows.
\<close>

unbundle bit_operations_syntax

section \<open>Setup\<close>

text \<open>What the base reads from the device.\<close>

record mapper_dram =
  md_levels :: name_table
  md_count :: "int list"
  md_prefetch :: int
  md_width :: int

record linear_mapper =
  lm_levels :: nat
  lm_bits :: "int list"
  lm_tx :: nat
  lm_row :: int
  lm_col :: int

definition log2_int :: "int \<Rightarrow> nat option" where
  "log2_int v = (if v < 0 then None else Some (calc_log2 (nat v)))"

definition linear_setup :: "mapper_dram \<Rightarrow> linear_mapper option" where
  "linear_setup d = do {
     bits \<leftarrow> those (map log2_int (md_count d));
     pf \<leftarrow> log2_int (md_prefetch d);
     let bits1 = map int bits;
     let n = length bits1;
     b \<leftarrow> vec_at bits1 (int n - 1);
     let bits2 = bits1[n - 1 := b - int pf];
     tx \<leftarrow> log2_int (md_prefetch d * md_width d sdiv 8);
     row \<leftarrow> specdef_id (md_levels d) ''row'';
     Some \<lparr>lm_levels = n, lm_bits = bits2, lm_tx = tx, lm_row = row, lm_col = int n - 1\<rparr> }"

section \<open>The mappings\<close>

text \<open>\<open>slice_lower_bits\<close>, where the shift is defined.\<close>

definition slice :: "int \<Rightarrow> int \<Rightarrow> (int \<times> int) option" where
  "slice a bits = (if 0 \<le> bits \<and> bits < 31 then Some (slice_lower_bits a (nat bits)) else None)"

definition slice_into :: "linear_mapper \<Rightarrow> addr_vec \<times> int \<Rightarrow> int \<Rightarrow> (addr_vec \<times> int) option" where
  "slice_into m s lvl = (case s of (av, a) \<Rightarrow> do {
     b \<leftarrow> vec_at (lm_bits m) lvl;
     (lo, hi) \<leftarrow> slice a b;
     av' \<leftarrow> vec_set av lvl lo;
     Some (av', hi) })"

definition upto_levels :: "int \<Rightarrow> int \<Rightarrow> int list" where
  "upto_levels i j = map (\<lambda>k. i + int k) [0..<nat (j - i)]"

definition ChRaBaRoCo :: "linear_mapper \<Rightarrow> addr_t \<Rightarrow> addr_vec \<Rightarrow> addr_vec option" where
  "ChRaBaRoCo m addr av = do {
     (av', _) \<leftarrow> foldlM (slice_into m) (vec_resize av (lm_levels m) (-1), drop_bit (lm_tx m) addr)
       (rev (upto_levels 0 (int (length (lm_bits m)))));
     Some av' }"

definition RoBaRaCoCh :: "linear_mapper \<Rightarrow> addr_t \<Rightarrow> addr_vec \<Rightarrow> addr_vec option" where
  "RoBaRaCoCh m addr av = do {
     s1 \<leftarrow> slice_into m (vec_resize av (lm_levels m) (-1), drop_bit (lm_tx m) addr) 0;
     s2 \<leftarrow> slice_into m s1 (int (length (lm_bits m)) - 1);
     (av', _) \<leftarrow> foldlM (slice_into m) s2 (upto_levels 1 (lm_row m + 1));
     Some av' }"

text \<open>The loop that XORs the column bits into the levels above.\<close>

definition xor_step :: "linear_mapper \<Rightarrow> addr_vec \<times> int \<Rightarrow> int \<Rightarrow> (addr_vec \<times> int) option" where
  "xor_step m s lvl = (case s of (av, row_xor_index) \<Rightarrow> do {
     b \<leftarrow> vec_at (lm_bits m) lvl;
     if b > 0 then do {
       col \<leftarrow> vec_at av (lm_col m);
       x \<leftarrow> vec_at av lvl;
       if b \<ge> 31 \<or> row_xor_index \<ge> 32 then None
       else do {
         let mask = drop_bit (nat row_xor_index) col AND (push_bit (nat b) 1 - 1);
         av' \<leftarrow> vec_set av lvl (x XOR mask);
         Some (av', row_xor_index + b) } }
     else Some (av, row_xor_index) })"

definition xor_levels :: "linear_mapper \<Rightarrow> addr_vec \<Rightarrow> addr_vec option" where
  "xor_levels m av = map_option fst (foldlM (xor_step m) (av, 0) (upto_levels 0 (lm_col m)))"

definition MOP4CLXOR :: "linear_mapper \<Rightarrow> addr_t \<Rightarrow> addr_vec \<Rightarrow> addr_vec option" where
  "MOP4CLXOR m addr av = do {
     (lo, a1) \<leftarrow> slice (drop_bit (lm_tx m) addr) 2;
     av1 \<leftarrow> vec_set (vec_resize av (lm_levels m) (-1)) (lm_col m) lo;
     (av2, a2) \<leftarrow> foldlM (slice_into m) (av1, a1) (upto_levels 0 (lm_row m));
     cb \<leftarrow> vec_at (lm_bits m) (lm_col m);
     (hi, a3) \<leftarrow> slice a2 (cb - 2);
     c \<leftarrow> vec_at av2 (lm_col m);
     av3 \<leftarrow> vec_set av2 (lm_col m) (c + push_bit 2 hi);
     av4 \<leftarrow> vec_set av3 (lm_row m) (i32 a3);
     xor_levels m av4 }"

section \<open>Mappers that slice every level once\<close>

text \<open>What \<open>setup\<close> gives on a device whose column level has at least as many columns as its prefetch.\<close>

definition linear_ok :: "linear_mapper \<Rightarrow> bool" where
  "linear_ok m \<longleftrightarrow> 2 \<le> lm_levels m \<and> length (lm_bits m) = lm_levels m \<and> lm_row m = int (lm_levels m) - 2 \<and>
     lm_col m = int (lm_levels m) - 1 \<and> (\<forall>b \<in> set (lm_bits m). 0 \<le> b \<and> b < 31)"

definition level_bits :: "linear_mapper \<Rightarrow> int \<Rightarrow> nat" where
  "level_bits m l = nat (lm_bits m ! nat l)"

text \<open>The number that the levels of a vector spell, the first level of the list the least significant.\<close>

fun spell :: "linear_mapper \<Rightarrow> int list \<Rightarrow> addr_vec \<Rightarrow> int" where
  "spell m [] av = 0"
| "spell m (l # ls) av = av ! nat l + 2 ^ level_bits m l * spell m ls av"

fun total_bits :: "linear_mapper \<Rightarrow> int list \<Rightarrow> nat" where
  "total_bits m [] = 0"
| "total_bits m (l # ls) = level_bits m l + total_bits m ls"

definition in_range :: "linear_mapper \<Rightarrow> addr_vec \<Rightarrow> int \<Rightarrow> bool" where
  "in_range m av l \<longleftrightarrow> 0 \<le> av ! nat l \<and> av ! nat l < 2 ^ level_bits m l"

lemma set_upto_levels [simp]: "set (upto_levels i j) = {i..<j}"
proof -
  have "k \<in> (\<lambda>k. i + int k) ` {0..<nat (j - i)}" if "i \<le> k" "k < j" for k
    using that by (intro image_eqI [of _ _ "nat (k - i)"]) auto
  then show ?thesis by (auto simp: upto_levels_def)
qed

lemma distinct_upto_levels [simp]: "distinct (upto_levels i j)"
  by (simp add: upto_levels_def distinct_map inj_on_def)

lemma slice_into_ok:
  assumes "linear_ok m" "length av = lm_levels m" "0 \<le> l" "l < int (lm_levels m)"
  shows "slice_into m (av, a) l = Some (av[nat l := a mod 2 ^ level_bits m l], a div 2 ^ level_bits m l)"
proof -
  have l: "nat l < length (lm_bits m)" "nat l < length av" using assms by (auto simp: linear_ok_def)
  then have "l < int (length (lm_bits m))" "l < int (length av)" "lm_bits m ! nat l \<in> set (lm_bits m)"
    using assms by (auto simp: linear_ok_def)
  moreover from this have "0 \<le> lm_bits m ! nat l" "lm_bits m ! nat l < 31" using assms(1) by (auto simp: linear_ok_def)
  ultimately show ?thesis using assms(3)
    by (simp add: slice_into_def vec_at_def vec_set_def slice_def slice_lower_bits_arith level_bits_def)
qed

lemma slices_ok:
  assumes "linear_ok m" "length av = lm_levels m" "set ls \<subseteq> {0..<int (lm_levels m)}" "distinct ls"
  shows "\<exists>av' a'. foldlM (slice_into m) (av, a) ls = Some (av', a') \<and> length av' = length av \<and>
    (\<forall>l. 0 \<le> l \<and> l \<notin> set ls \<longrightarrow> av' ! nat l = av ! nat l) \<and> (\<forall>l \<in> set ls. in_range m av' l) \<and>
    a = spell m ls av' + 2 ^ total_bits m ls * a'"
  using assms(2-4)
proof (induction ls arbitrary: av a)
  case (Cons l ls)
  let ?av = "av[nat l := a mod 2 ^ level_bits m l]" and ?a = "a div 2 ^ level_bits m l"
  have l: "0 \<le> l" "l < int (lm_levels m)" "nat l < length av" using Cons.prems by auto
  have "length ?av = lm_levels m" "set ls \<subseteq> {0..<int (lm_levels m)}" "distinct ls" using Cons.prems by auto
  from Cons.IH [OF this, of ?a] obtain av' a' where
    run: "foldlM (slice_into m) (?av, ?a) ls = Some (av', a')" and len: "length av' = length av" and
    keep: "\<forall>l. 0 \<le> l \<and> l \<notin> set ls \<longrightarrow> av' ! nat l = ?av ! nat l" and
    range: "\<forall>l \<in> set ls. in_range m av' l" and eq: "?a = spell m ls av' + 2 ^ total_bits m ls * a'" by auto
  have at: "av' ! nat l = a mod 2 ^ level_bits m l" using keep l Cons.prems(3) by simp
  have "a = a mod 2 ^ level_bits m l + 2 ^ level_bits m l * ?a" by simp
  also have "\<dots> = spell m (l # ls) av' + 2 ^ total_bits m (l # ls) * a'"
    unfolding eq by (simp add: at algebra_simps power_add)
  finally have "a = spell m (l # ls) av' + 2 ^ total_bits m (l # ls) * a'" .
  moreover have "av' ! nat k = av ! nat k" if "0 \<le> k" "k \<notin> set (l # ls)" for k
  proof -
    have "nat l \<noteq> nat k" using that l by auto
    then show ?thesis using keep that by simp
  qed
  moreover have "in_range m av' l" by (simp add: in_range_def at)
  ultimately show ?case
    using run len range slice_into_ok [OF assms(1) Cons.prems(1) l(1,2), of a] by auto
qed simp

lemma spell_bounds:
  assumes "\<forall>l \<in> set ls. in_range m av l"
  shows "0 \<le> spell m ls av \<and> spell m ls av < 2 ^ total_bits m ls"
  using assms
proof (induction ls)
  case (Cons l ls)
  then have IH: "0 \<le> spell m ls av" "spell m ls av + 1 \<le> 2 ^ total_bits m ls"
    and l: "0 \<le> av ! nat l" "av ! nat l < 2 ^ level_bits m l" by (auto simp: in_range_def)
  have "2 ^ level_bits m l * (spell m ls av + 1) \<le> 2 ^ level_bits m l * (2 ^ total_bits m ls :: int)"
    by (rule mult_left_mono [OF IH(2)]) simp
  with IH(1) l show ?case by (simp add: power_add algebra_simps)
qed simp

text \<open>A mapper that slices the levels off one by one, in some order.\<close>

locale slicing_mapper =
  fixes apply_mapper :: "linear_mapper \<Rightarrow> addr_t \<Rightarrow> addr_vec \<Rightarrow> addr_vec option"
    and order :: "linear_mapper \<Rightarrow> int list"
  assumes apply_slices: "linear_ok m \<Longrightarrow> apply_mapper m addr av = map_option fst
      (foldlM (slice_into m) (vec_resize av (lm_levels m) (-1), drop_bit (lm_tx m) addr) (order m))"
    and order: "linear_ok m \<Longrightarrow> distinct (order m) \<and> set (order m) = {0..<int (lm_levels m)}"
begin

lemma maps:
  assumes "linear_ok m"
  shows "\<exists>av'. apply_mapper m addr av = Some av' \<and> length av' = lm_levels m \<and>
    (\<forall>l. 0 \<le> l \<and> l < int (lm_levels m) \<longrightarrow> in_range m av' l) \<and>
    spell m (order m) av' = drop_bit (lm_tx m) addr mod 2 ^ total_bits m (order m)"
proof -
  let ?a = "drop_bit (lm_tx m) addr" and ?n = "total_bits m (order m)"
  have "set (order m) \<subseteq> {0..<int (lm_levels m)}" "distinct (order m)" using order [OF assms] by auto
  from slices_ok [OF assms _ this, of "vec_resize av (lm_levels m) (-1)" ?a] obtain av' a' where
    r: "foldlM (slice_into m) (vec_resize av (lm_levels m) (-1), ?a) (order m) = Some (av', a')"
      "length av' = lm_levels m" "\<forall>l \<in> set (order m). in_range m av' l"
      "?a = spell m (order m) av' + 2 ^ ?n * a'" by auto
  have "?a mod 2 ^ ?n = spell m (order m) av'"
    using spell_bounds [OF r(3)] unfolding r(4) by simp
  with r order [OF assms] show ?thesis by (auto simp: apply_slices [OF assms])
qed

text \<open>Two addresses that differ in the bits of the organization have different vectors.\<close>

lemma injective:
  assumes "linear_ok m" "apply_mapper m a1 av1 = apply_mapper m a2 av2"
  shows "drop_bit (lm_tx m) a1 mod 2 ^ total_bits m (order m) = drop_bit (lm_tx m) a2 mod 2 ^ total_bits m (order m)"
  using maps [OF assms(1), of a1 av1] maps [OF assms(1), of a2 av2] assms(2) by auto

end

lemma map_option_fst: "map_option fst x = do { (a, b) \<leftarrow> x; Some a }"
  by (cases x) auto

interpretation ch: slicing_mapper ChRaBaRoCo "\<lambda>m. rev (upto_levels 0 (int (lm_levels m)))"
  by unfold_locales (simp_all add: ChRaBaRoCo_def map_option_fst linear_ok_def)

interpretation ro: slicing_mapper RoBaRaCoCh "\<lambda>m. 0 # (int (lm_levels m) - 1) # upto_levels 1 (int (lm_levels m) - 1)"
proof
  fix m addr av assume ok: "linear_ok m"
  then show "RoBaRaCoCh m addr av = map_option fst (foldlM (slice_into m)
      (vec_resize av (lm_levels m) (-1), drop_bit (lm_tx m) addr)
      (0 # (int (lm_levels m) - 1) # upto_levels 1 (int (lm_levels m) - 1)))"
    using ok unfolding linear_ok_def by (simp add: RoBaRaCoCh_def map_option_fst)
  show "distinct (0 # (int (lm_levels m) - 1) # upto_levels 1 (int (lm_levels m) - 1)) \<and>
      set (0 # (int (lm_levels m) - 1) # upto_levels 1 (int (lm_levels m) - 1)) = {0..<int (lm_levels m)}"
    using ok by (auto simp: linear_ok_def)
qed

text \<open>
  What \<open>setup\<close> reads: the last two levels are the row and the column, the sizes are 32-bit integers, and a
  column level has at least as many columns as the prefetch.
\<close>

definition mapper_dram_ok :: "mapper_dram \<Rightarrow> bool" where
  "mapper_dram_ok d \<longleftrightarrow> 2 \<le> length (md_count d) \<and>
     specdef_id (md_levels d) ''row'' = Some (int (length (md_count d)) - 2) \<and>
     (\<forall>k \<in> set (md_count d). 0 \<le> k \<and> k < 2 ^ 31) \<and> 0 \<le> md_prefetch d \<and> md_prefetch d \<le> last (md_count d)"

text \<open>The bits of a size, and the transactions that the bits of all levels distinguish.\<close>

definition pow2_below :: "int \<Rightarrow> int" where
  "pow2_below k = 2 ^ calc_log2 (nat k)"

definition mapped_transactions :: "mapper_dram \<Rightarrow> int" where
  "mapped_transactions d = prod_list (map pow2_below (md_count d)) div pow2_below (md_prefetch d)"

definition power_of_two :: "int \<Rightarrow> bool" where
  "power_of_two k \<longleftrightarrow> pow2_below k = k"

lemma power_of_two_iff: "power_of_two k \<longleftrightarrow> (\<exists>e. k = 2 ^ e)"
proof
  assume "power_of_two k"
  then show "\<exists>e. k = 2 ^ e" unfolding power_of_two_def pow2_below_def by metis
qed (auto simp: power_of_two_def pow2_below_def nat_power_eq)

lemma calc_log2_mono: "a \<le> b \<Longrightarrow> calc_log2 a \<le> calc_log2 b"
proof (induction b arbitrary: a rule: calc_log2.induct)
  case (1 b)
  show ?case
  proof (cases "a div 2 = 0")
    case True
    then show ?thesis by (subst calc_log2.simps) simp
  next
    case False
    have le: "a div 2 \<le> b div 2" using 1(2) by (rule div_le_mono)
    with False have "b div 2 \<noteq> 0" by simp
    with 1(1) [OF this le] False show ?thesis by (subst (1 2) calc_log2.simps) simp
  qed
qed

lemma calc_log2_less: "0 < n \<Longrightarrow> v < 2 ^ n \<Longrightarrow> calc_log2 v < n"
proof (cases "v = 0")
  case False
  then have "2 ^ calc_log2 v \<le> v" using calc_log2_bounds by simp
  moreover assume "v < 2 ^ n"
  ultimately have "(2 :: nat) ^ calc_log2 v < 2 ^ n" by linarith
  then show ?thesis by simp
qed (simp add: calc_log2.simps)

lemma those_map_Some_on: "(\<And>x. x \<in> set xs \<Longrightarrow> f x = Some (g x)) \<Longrightarrow> those (map f xs) = Some (map g xs)"
  by (induction xs) auto

text \<open>What it gives: the bits of every level, the last one's less those of the prefetch.\<close>

lemma linear_setup_bits:
  assumes "linear_setup d = Some m" "mapper_dram_ok d"
  shows "lm_levels m = length (md_count d)" "lm_row m = int (length (md_count d)) - 2" "lm_col m = int (length (md_count d)) - 1"
    "lm_bits m = (map (\<lambda>k. int (calc_log2 (nat k))) (md_count d))[length (md_count d) - 1 :=
       int (calc_log2 (nat (last (md_count d)))) - int (calc_log2 (nat (md_prefetch d)))]"
proof -
  let ?c = "md_count d"
  have ok: "2 \<le> length ?c" "specdef_id (md_levels d) ''row'' = Some (int (length ?c) - 2)"
    "\<forall>k \<in> set ?c. 0 \<le> k" "0 \<le> md_prefetch d" using assms(2) by (auto simp: mapper_dram_ok_def)
  have "those (map log2_int ?c) = Some (map (\<lambda>k. calc_log2 (nat k)) ?c)"
    using ok(3) by (intro those_map_Some_on) (simp add: log2_int_def not_less)
  moreover have "log2_int (md_prefetch d) = Some (calc_log2 (nat (md_prefetch d)))" using ok(4) by (simp add: log2_int_def)
  moreover have "vec_at (map int (map (\<lambda>k. calc_log2 (nat k)) ?c)) (int (length ?c) - 1) = Some (int (calc_log2 (nat (last ?c))))"
    using ok(1) by (cases ?c rule: rev_cases) (simp_all add: vec_at_def nth_append)
  ultimately show "lm_levels m = length ?c" "lm_row m = int (length ?c) - 2" "lm_col m = int (length ?c) - 1"
    "lm_bits m = (map (\<lambda>k. int (calc_log2 (nat k))) ?c)[length ?c - 1 :=
       int (calc_log2 (nat (last ?c))) - int (calc_log2 (nat (md_prefetch d)))]"
    using assms(1) ok(2) by (auto simp: linear_setup_def bind_eq_Some_conv Let_def comp_def)
qed

lemma linear_setup_ok:
  assumes "linear_setup d = Some m" "mapper_dram_ok d"
  shows "linear_ok m"
proof -
  let ?c = "md_count d"
  note m = linear_setup_bits [OF assms]
  have ok: "2 \<le> length ?c" "\<forall>k \<in> set ?c. k < 2 ^ 31" "0 \<le> md_prefetch d" "md_prefetch d \<le> last ?c"
    using assms(2) by (auto simp: mapper_dram_ok_def)
  have small: "calc_log2 (nat k) < 31" if "k \<in> set ?c" for k
    using ok(2) that by (intro calc_log2_less) (auto simp: nat_less_iff)
  have "last ?c \<in> set ?c" using ok(1) by (cases ?c rule: rev_cases) auto
  then have "calc_log2 (nat (md_prefetch d)) \<le> calc_log2 (nat (last ?c))" "calc_log2 (nat (last ?c)) < 31"
    using calc_log2_mono [of "nat (md_prefetch d)" "nat (last ?c)"] ok(4) small by auto
  then have "\<forall>b \<in> set (lm_bits m). 0 \<le> b \<and> b < 31"
    unfolding m(4) using small by (auto dest!: set_update_subset_insert [THEN subsetD])
  with m ok(1) show ?thesis by (simp add: linear_ok_def)
qed

lemma total_bits_sum: "total_bits m ls = (\<Sum>l\<leftarrow>ls. level_bits m l)"
  by (induction ls) simp_all

lemma total_bits_order:
  assumes "linear_ok m" "distinct ls" "set ls = {0..<int (lm_levels m)}"
  shows "int (total_bits m ls) = sum_list (lm_bits m)"
proof -
  have n: "length (lm_bits m) = lm_levels m" "\<forall>b \<in> set (lm_bits m). 0 \<le> b" using assms(1) by (auto simp: linear_ok_def)
  have "total_bits m ls = (\<Sum>l \<in> {0..<int (lm_levels m)}. level_bits m l)"
    unfolding total_bits_sum assms(3) [symmetric] using assms(2) by (rule sum_list_distinct_conv_sum_set)
  also have "\<dots> = (\<Sum>i \<in> {0..<lm_levels m}. level_bits m (int i))"
    by (rule sum.reindex_bij_witness [of _ int nat]) auto
  finally have "int (total_bits m ls) = (\<Sum>i \<in> {0..<lm_levels m}. lm_bits m ! i)"
    using n by (simp add: level_bits_def)
  then show ?thesis using n(1) by (simp add: sum_list_sum_nth)
qed

lemma pow2_sum: "2 ^ (\<Sum>x\<leftarrow>xs. f x) = (\<Prod>x\<leftarrow>xs. (2 :: int) ^ f x)" for f :: "'a \<Rightarrow> nat"
  by (induction xs) (simp_all add: power_add)

lemma mapped_bits:
  assumes "linear_setup d = Some m" "mapper_dram_ok d" "distinct ls" "set ls = {0..<int (lm_levels m)}"
  shows "2 ^ total_bits m ls * pow2_below (md_prefetch d) = prod_list (map pow2_below (md_count d))"
    "2 ^ total_bits m ls = mapped_transactions d"
proof -
  let ?c = "md_count d" and ?l = "\<lambda>k. calc_log2 (nat k)" and ?p = "calc_log2 (nat (md_prefetch d))"
  obtain cs k where c: "?c = cs @ [k]" using assms(2) by (cases ?c rule: rev_cases) (auto simp: mapper_dram_ok_def)
  have "int (total_bits m ls) = sum_list (lm_bits m)"
    using total_bits_order [OF linear_setup_ok [OF assms(1,2)] assms(3,4)] .
  also have "\<dots> = (\<Sum>x\<leftarrow>cs. int (?l x)) + int (?l k) - int ?p"
    unfolding linear_setup_bits(4) [OF assms(1,2)] c by (simp add: list_update_append)
  also have "(\<Sum>x\<leftarrow>cs. int (?l x)) = int (\<Sum>x\<leftarrow>cs. ?l x)" by (induction cs) simp_all
  finally have "total_bits m ls + ?p = (\<Sum>x\<leftarrow>?c. ?l x)" unfolding c by simp
  then have "(2 :: int) ^ total_bits m ls * 2 ^ ?p = (\<Prod>x\<leftarrow>?c. 2 ^ ?l x)"
    by (metis power_add pow2_sum)
  then show eq: "2 ^ total_bits m ls * pow2_below (md_prefetch d) = prod_list (map pow2_below ?c)"
    by (simp add: pow2_below_def [abs_def])
  show "2 ^ total_bits m ls = mapped_transactions d"
    unfolding mapped_transactions_def eq [symmetric] by (simp add: pow2_below_def)
qed

text \<open>C39: the linear mappings lose nothing within the levels they address. Let \<open>setup\<close> succeed on a device whose
  last two levels are the row and the column, with sizes that are 32-bit integers and at least as many columns as
  the prefetch. For every address, \<open>ChRaBaRoCo\<close> and \<open>RoBaRaCoCh\<close> then return a vector whose levels are all in the
  range of their bits, and from which the transaction number of the address can be read back modulo
  \<open>mapped_transactions\<close>: the product of the sizes over the prefetch, each rounded down to a power of two. When they
  are powers of two this is the capacity of the organization in transactions; otherwise the mapper spans less, and
  addresses that far apart share a place.\<close>

theorem linear_mapping_roundtrip:
  assumes "linear_setup d = Some m" "mapper_dram_ok d"
  defines "n \<equiv> int (lm_levels m)"
  shows "\<exists>u v. ChRaBaRoCo m addr av = Some u \<and> RoBaRaCoCh m addr av = Some v \<and>
    (\<forall>l. 0 \<le> l \<and> l < n \<longrightarrow> in_range m u l \<and> in_range m v l) \<and>
    spell m (rev (upto_levels 0 n)) u = drop_bit (lm_tx m) addr mod mapped_transactions d \<and>
    spell m (0 # (n - 1) # upto_levels 1 (n - 1)) v = drop_bit (lm_tx m) addr mod mapped_transactions d \<and>
    (list_all power_of_two (md_prefetch d # md_count d) \<longrightarrow>
       mapped_transactions d = prod_list (md_count d) div md_prefetch d)"
proof -
  note ok = linear_setup_ok [OF assms(1,2)]
  note bits = mapped_bits(2) [OF assms(1,2)]
  have "map pow2_below (md_count d) = md_count d" if "list_all power_of_two (md_count d)"
    using that by (simp add: list_all_iff power_of_two_def map_idI)
  then have full: "list_all power_of_two (md_prefetch d # md_count d) \<longrightarrow>
       mapped_transactions d = prod_list (md_count d) div md_prefetch d"
    by (simp add: mapped_transactions_def power_of_two_def)
  have b: "2 ^ total_bits m (rev (upto_levels 0 n)) = mapped_transactions d"
    "2 ^ total_bits m (0 # (n - 1) # upto_levels 1 (n - 1)) = mapped_transactions d"
    unfolding n_def by (rule bits; use ch.order [OF ok] ro.order [OF ok] in simp)+
  from ch.maps [OF ok, of addr av] ro.maps [OF ok, of addr av] full show ?thesis
    unfolding n_def [symmetric] b by blast
qed

section \<open>The XOR mapping\<close>

text \<open>All levels above the row fit the 32 bits of the column they are XORed with.\<close>

definition xor_ok :: "linear_mapper \<Rightarrow> bool" where
  "xor_ok m \<longleftrightarrow> linear_ok m \<and> total_bits m (upto_levels 0 (lm_row m)) < 32 \<and> 2 \<le> lm_bits m ! nat (lm_col m)"

lemma xor_steps:
  assumes "linear_ok m" "set ls \<subseteq> {0..<lm_col m}" "distinct ls" "0 \<le> k"
    and "ls \<noteq> [] \<longrightarrow> k + int (total_bits m (butlast ls)) < 32"
  shows "\<exists>M k'. \<forall>av. length av = lm_levels m \<and> av ! nat (lm_col m) = c \<longrightarrow>
    (\<exists>av'. foldlM (xor_step m) (av, k) ls = Some (av', k') \<and> length av' = lm_levels m \<and>
      (\<forall>l \<ge> 0. av' ! nat l = (if l \<in> set ls then av ! nat l XOR M l else av ! nat l)))"
  using assms(2-5)
proof (induction ls arbitrary: k)
  case (Cons l ls)
  let ?b = "lm_bits m ! nat l"
  have n: "length (lm_bits m) = lm_levels m" "lm_col m = int (lm_levels m) - 1" "2 \<le> lm_levels m"
    using assms(1) by (auto simp: linear_ok_def)
  have l: "0 \<le> l" "l < lm_col m" using Cons.prems(1) by auto
  then have nl: "nat l < lm_levels m" "nat l \<noteq> nat (lm_col m)" "nat (lm_col m) < lm_levels m"
    "l < int (lm_levels m)" using n by auto
  then have "?b \<in> set (lm_bits m)" using n by simp
  then have b: "0 \<le> ?b" "?b < 31" using assms(1) by (auto simp: linear_ok_def)
  have k: "k < 32" using Cons.prems(4) by (auto split: if_splits)
  have rest: "ls \<noteq> [] \<longrightarrow> k + ?b + int (total_bits m (butlast ls)) < 32"
    using Cons.prems(4) b by (auto simp: level_bits_def)
  have "set ls \<subseteq> {0..<lm_col m}" "distinct ls" "0 \<le> k + ?b" using Cons.prems b by auto
  from Cons.IH [OF this rest] obtain M k' where
    IH: "\<And>av. length av = lm_levels m \<Longrightarrow> av ! nat (lm_col m) = c \<Longrightarrow>
      \<exists>av'. foldlM (xor_step m) (av, k + ?b) ls = Some (av', k') \<and> length av' = lm_levels m \<and>
        (\<forall>l \<ge> 0. av' ! nat l = (if l \<in> set ls then av ! nat l XOR M l else av ! nat l))" by auto
  define msk where "msk = (if ?b > 0 then drop_bit (nat k) c AND (push_bit (nat ?b) 1 - 1) else 0)"
  have step: "xor_step m (av, k) l = Some (av[nat l := av ! nat l XOR msk], k + ?b)"
    if "length av = lm_levels m" "av ! nat (lm_col m) = c" for av
    using that n b k l nl
    by (auto simp: xor_step_def msk_def vec_at_def vec_set_def Let_def)
  show ?case
  proof (intro exI [of _ "M(l := msk)"] exI [of _ k'] allI impI, elim conjE)
    fix av assume av: "length av = lm_levels m" "av ! nat (lm_col m) = c"
    let ?av = "av[nat l := av ! nat l XOR msk]"
    have "length ?av = lm_levels m" "?av ! nat (lm_col m) = c" using av nl by simp_all
    from IH [OF this] obtain av' where
      av': "foldlM (xor_step m) (?av, k + ?b) ls = Some (av', k')" "length av' = lm_levels m"
        "\<forall>l \<ge> 0. av' ! nat l = (if l \<in> set ls then ?av ! nat l XOR M l else ?av ! nat l)" by blast
    have at: "?av ! nat j = (if j = l then av ! nat l XOR msk else av ! nat j)" if "0 \<le> j" for j
      using that l nl av by (auto simp: nth_list_update)
    have "\<forall>j \<ge> 0. av' ! nat j = (if j \<in> set (l # ls) then av ! nat j XOR (M(l := msk)) j else av ! nat j)"
      using av'(3) at Cons.prems(2) by auto
    with step [OF av] av'(1,2) show "\<exists>av'. foldlM (xor_step m) (av, k) (l # ls) = Some (av', k') \<and>
        length av' = lm_levels m \<and>
        (\<forall>j \<ge> 0. av' ! nat j = (if j \<in> set (l # ls) then av ! nat j XOR (M(l := msk)) j else av ! nat j))"
      by auto
  qed
qed auto

text \<open>The loop is its own inverse: it leaves the column alone.\<close>

lemma xor_levels_involution:
  assumes "xor_ok m" "length av = lm_levels m"
  shows "\<exists>av'. xor_levels m av = Some av' \<and> xor_levels m av' = Some av \<and> length av' = lm_levels m \<and>
    av' ! nat (lm_col m) = av ! nat (lm_col m)"
proof -
  have ok: "linear_ok m" and t: "total_bits m (upto_levels 0 (lm_row m)) < 32" using assms(1) by (auto simp: xor_ok_def)
  have rc: "lm_col m = lm_row m + 1" "0 \<le> lm_row m" using ok by (auto simp: linear_ok_def)
  then have "upto_levels 0 (lm_col m) = upto_levels 0 (lm_row m) @ [lm_row m]"
    by (simp add: upto_levels_def nat_add_distrib)
  then have "butlast (upto_levels 0 (lm_col m)) = upto_levels 0 (lm_row m)" by simp
  then have "upto_levels 0 (lm_col m) \<noteq> [] \<longrightarrow> (0 :: int) + int (total_bits m (butlast (upto_levels 0 (lm_col m)))) < 32"
    using t by simp
  from xor_steps [OF ok _ _ _ this, of "av ! nat (lm_col m)"] obtain M k' where
    run: "\<And>u. length u = lm_levels m \<Longrightarrow> u ! nat (lm_col m) = av ! nat (lm_col m) \<Longrightarrow>
      \<exists>u'. foldlM (xor_step m) (u, 0) (upto_levels 0 (lm_col m)) = Some (u', k') \<and> length u' = lm_levels m \<and>
        (\<forall>l \<ge> 0. u' ! nat l = (if l \<in> set (upto_levels 0 (lm_col m)) then u ! nat l XOR M l else u ! nat l))"
    by auto
  from run [OF assms(2) refl] obtain u where
    u: "foldlM (xor_step m) (av, 0) (upto_levels 0 (lm_col m)) = Some (u, k')" "length u = lm_levels m"
      "\<And>l. 0 \<le> l \<Longrightarrow> u ! nat l = (if l \<in> set (upto_levels 0 (lm_col m)) then av ! nat l XOR M l else av ! nat l)"
    by auto
  have col: "u ! nat (lm_col m) = av ! nat (lm_col m)" using u(3) [of "lm_col m"] rc by simp
  from run [OF u(2) col] obtain w where
    w: "foldlM (xor_step m) (u, 0) (upto_levels 0 (lm_col m)) = Some (w, k')" "length w = lm_levels m"
      "\<And>l. 0 \<le> l \<Longrightarrow> w ! nat l = (if l \<in> set (upto_levels 0 (lm_col m)) then u ! nat l XOR M l else u ! nat l)"
    by auto
  have "w ! n = av ! n" for n
    using w(3) [of "int n"] u(3) [of "int n"] by (auto simp: xor.assoc)
  then have "w = av" using w(2) assms(2) by (simp add: nth_equalityI)
  with u w col show ?thesis by (auto simp: xor_levels_def)
qed

text \<open>Reading the transaction number back from a vector.\<close>

definition mop4_unmap :: "linear_mapper \<Rightarrow> addr_vec \<Rightarrow> int option" where
  "mop4_unmap m av = do {
     u \<leftarrow> xor_levels m av;
     let col = u ! nat (lm_col m);
     let levels = upto_levels 0 (lm_row m);
     Some (col mod 4 + 4 * (spell m levels u + 2 ^ total_bits m levels *
       (col div 4 + 2 ^ (level_bits m (lm_col m) - 2) * u ! nat (lm_row m)))) }"

lemma i32_small: "0 \<le> x \<Longrightarrow> x < 2 ^ 31 \<Longrightarrow> i32 x = x"
  by (simp add: i32_def signed_take_bit_int_eq_self)

lemma spell_cong: "(\<And>l. l \<in> set ls \<Longrightarrow> u ! nat l = v ! nat l) \<Longrightarrow> spell m ls u = spell m ls v"
  by (induction ls) auto

text \<open>C40: the XOR mapping loses nothing either. As long as the row fits a 32-bit integer, the transaction
  number of an address can be read back from its vector, although the levels above the column have
  been XORed with the bits of the column.\<close>

theorem mop4_roundtrip:
  assumes "xor_ok m" "0 \<le> addr"
    and "drop_bit (lm_tx m) addr < 2 ^ (31 + total_bits m (upto_levels 0 (lm_row m)) + level_bits m (lm_col m))"
  shows "\<exists>v. MOP4CLXOR m addr av = Some v \<and> mop4_unmap m v = Some (drop_bit (lm_tx m) addr)"
proof -
  let ?a = "drop_bit (lm_tx m) addr" and ?ls = "upto_levels 0 (lm_row m)" and ?c = "nat (lm_col m)" and ?r = "nat (lm_row m)"
  let ?T = "total_bits m ?ls" and ?cb = "level_bits m (lm_col m)"
  have ok: "linear_ok m" using assms(1) by (simp add: xor_ok_def)
  have n: "length (lm_bits m) = lm_levels m" "lm_col m = int (lm_levels m) - 1" "lm_row m = int (lm_levels m) - 2"
    "2 \<le> lm_levels m" using ok by (auto simp: linear_ok_def)
  then have idx: "?c < lm_levels m" "?r < lm_levels m" "?r \<noteq> ?c" "0 \<le> lm_row m" "0 \<le> lm_col m" by auto
  have "lm_bits m ! ?c \<in> set (lm_bits m)" using idx n by simp
  then have cb: "lm_bits m ! ?c = int ?cb" "2 \<le> ?cb" "?cb < 31"
    using assms(1) by (auto simp: xor_ok_def linear_ok_def level_bits_def)
  define av1 where "av1 = (vec_resize av (lm_levels m) (-1))[?c := ?a mod 4]"
  have l1: "length av1 = lm_levels m" by (simp add: av1_def)
  have "set ?ls \<subseteq> {0..<int (lm_levels m)}" using n by auto
  from slices_ok [OF ok l1 this, of "?a div 4"] obtain av2 a2 where
    s: "foldlM (slice_into m) (av1, ?a div 4) ?ls = Some (av2, a2)" "length av2 = lm_levels m"
      "\<forall>l. 0 \<le> l \<and> l \<notin> set ?ls \<longrightarrow> av2 ! nat l = av1 ! nat l" "\<forall>l \<in> set ?ls. in_range m av2 l"
      "?a div 4 = spell m ?ls av2 + 2 ^ ?T * a2" using l1 by auto
  have c2: "av2 ! ?c = ?a mod 4" using s(3) idx n l1 by (simp add: av1_def)
  define hi a3 where "hi = a2 mod 2 ^ (?cb - 2)" and "a3 = a2 div 2 ^ (?cb - 2)"
  define av4 where "av4 = (av2[?c := ?a mod 4 + 4 * hi])[?r := i32 a3]"
  have sl: "slice a2 (int ?cb - 2) = Some (hi, a3)"
    using cb by (simp add: slice_def slice_lower_bits_arith hi_def a3_def nat_diff_distrib)
  have s2: "slice ?a 2 = Some (?a mod 4, ?a div 4)" by (simp add: slice_def slice_lower_bits_arith)
  have c: "lm_col m < int (lm_levels m)" "lm_row m < int (lm_levels m)" using n by auto
  then have sets: "vec_set (vec_resize av (lm_levels m) (-1)) (lm_col m) (?a mod 4) = Some av1"
    "vec_at (lm_bits m) (lm_col m) = Some (int ?cb)" "vec_at av2 (lm_col m) = Some (?a mod 4)"
    "vec_set av2 (lm_col m) (?a mod 4 + push_bit 2 hi) = Some (av2[?c := ?a mod 4 + 4 * hi])"
    "vec_set (av2[?c := ?a mod 4 + 4 * hi]) (lm_row m) (i32 a3) = Some av4"
    using idx(4,5) n(1) s(2) c2 cb(1) by (simp_all add: vec_set_def vec_at_def av1_def av4_def push_bit_eq_mult mult.commute)
  have map4: "MOP4CLXOR m addr av = xor_levels m av4"
    by (simp only: MOP4CLXOR_def s2 sets s(1) sl bind.bind_lunit prod.case)
  have l4: "length av4 = lm_levels m" by (simp add: av4_def s(2))
  from xor_levels_involution [OF assms(1) l4] obtain v where
    v: "xor_levels m av4 = Some v" "xor_levels m v = Some av4" by blast
  have nn: "0 \<le> ?a" using assms(2) by simp
  have range: "0 \<le> spell m ?ls av2" "spell m ?ls av2 < 2 ^ ?T" using spell_bounds [OF s(4)] by auto
  have a2: "a2 = ?a div 4 div 2 ^ ?T" unfolding s(5) using range by simp
  have "?a < 2 ^ (31 + (?cb - 2)) * (2 ^ ?T * 4)"
    using assms(3) cb(2) by (simp flip: power_add power_Suc2 mult.assoc) (simp add: numeral_eq_Suc algebra_simps)
  then have "?a div (2 ^ ?T * 4) < 2 ^ (31 + (?cb - 2))" by (intro int_div_less) simp_all
  then have a2b: "0 \<le> a2" "a2 < 2 ^ 31 * 2 ^ (?cb - 2)"
    using nn unfolding a2 by (simp_all add: zdiv_zmult2_eq [symmetric] mult.commute power_add pos_imp_zdiv_nonneg_iff)
  then have a3: "i32 a3 = a3"
    by (intro i32_small) (simp_all add: a3_def pos_imp_zdiv_nonneg_iff int_div_less)
  have col: "av4 ! ?c = ?a mod 4 + 4 * hi" using idx s(2) by (simp add: av4_def)
  have row: "av4 ! ?r = a3" using idx s(2) by (simp add: av4_def a3)
  have "spell m ?ls av4 = spell m ?ls av2"
  proof (rule spell_cong)
    fix l assume "l \<in> set ?ls"
    then have "nat l \<noteq> ?c" "nat l \<noteq> ?r" using n by auto
    then show "av4 ! nat l = av2 ! nat l" by (simp add: av4_def)
  qed
  moreover have "(?a mod 4 + 4 * hi) mod 4 = ?a mod 4" "(?a mod 4 + 4 * hi) div 4 = hi" by simp_all
  moreover have "hi + 2 ^ (?cb - 2) * a3 = a2" by (simp add: hi_def a3_def)
  ultimately have "mop4_unmap m v = Some (?a mod 4 + 4 * (?a div 4))"
    by (simp add: mop4_unmap_def v(2) Let_def col row s(5))
  with map4 v(1) show ?thesis by simp
qed

end
