(* ===== verification/Memory_System.thy ===== *)
theory Memory_System
  imports Spare_System Addr_Mapper
begin

text \<open>
  The memory system (\<open>src/memory_system/impl/generic_DRAM_system.cpp\<close>): one device, one controller
  per channel, an address mapper. \<open>send\<close> maps the address of a request and hands it to the controller
  of its channel; \<open>tick\<close> ticks the device and then every controller. Controllers are a parameter, the
  record \<open>ctrl_ops\<close> of the \<open>IDRAMController\<close> operations; \<open>sp_ctrl\<close> is the SPARE-PIM controller as
  one. \<open>None\<close> is undefined behaviour of the C++.
\<close>

section \<open>Controllers\<close>

record ('c, 'd) ctrl_ops =
  ct_send :: "request \<Rightarrow> 'c \<Rightarrow> bool \<times> 'c"
  ct_tick :: "'c \<times> 'd \<Rightarrow> (('c \<times> 'd) \<times> (nat \<times> request) list) option"

definition sp_ctrl :: "'d dram_ops \<Rightarrow> (sp_cfg \<times> sp_state, 'd) ctrl_ops" where
  "sp_ctrl D = \<lparr>
     ct_send = (\<lambda>r (c, s). let (accepted, s') = sp_send c r s in (accepted, (c, s'))),
     ct_tick = (\<lambda>((c, s), d). map_option (\<lambda>((s', d'), cbs). (((c, s'), d'), cbs)) (sp_tick D c (s, d)))\<rparr>"

section \<open>The system\<close>

record ('c, 'd) mem_sys =
  ms_clk :: clk
  ms_dram :: 'd
  ms_ctrls :: "'c list"
  ms_reads :: int
  ms_writes :: int
  ms_others :: int

text \<open>\<open>init\<close>: a controller for every channel, made by \<open>boot\<close>.\<close>

definition mem_init :: "(int \<Rightarrow> 'c option) \<Rightarrow> int \<Rightarrow> 'd \<Rightarrow> ('c, 'd) mem_sys option" where
  "mem_init boot num_channels d = do {
     ctrls \<leftarrow> those (map (\<lambda>i. boot (int i)) [0..<nat num_channels]);
     Some \<lparr>ms_clk = 0, ms_dram = d, ms_ctrls = ctrls, ms_reads = 0, ms_writes = 0, ms_others = 0\<rparr> }"

definition count_request :: "int \<Rightarrow> ('c, 'd) mem_sys \<Rightarrow> ('c, 'd) mem_sys" where
  "count_request ty m =
     (if ty = type_Read then m\<lparr>ms_reads := ms_reads m + 1\<rparr>
      else if ty = type_Write then m\<lparr>ms_writes := ms_writes m + 1\<rparr>
      else m\<lparr>ms_others := ms_others m + 1\<rparr>)"

definition mem_send ::
  "('c, 'd) ctrl_ops \<Rightarrow> (addr_t \<Rightarrow> addr_vec \<Rightarrow> addr_vec option) \<Rightarrow> request \<Rightarrow> ('c, 'd) mem_sys \<Rightarrow>
   (bool \<times> ('c, 'd) mem_sys) option" where
  "mem_send C mapper req m = do {
     av \<leftarrow> mapper (rq_addr req) (rq_addr_vec req);
     channel_id \<leftarrow> vec_at av 0;
     ctrl \<leftarrow> vec_at (ms_ctrls m) channel_id;
     let (is_success, ctrl') = ct_send C (req\<lparr>rq_addr_vec := av\<rparr>) ctrl;
     let m1 = m\<lparr>ms_ctrls := (ms_ctrls m)[nat channel_id := ctrl']\<rparr>;
     Some (is_success, if is_success then count_request (rq_type req) m1 else m1) }"

text \<open>The loop over the controllers, with the callbacks they make.\<close>

fun tick_controllers ::
  "('c, 'd) ctrl_ops \<Rightarrow> 'c list \<Rightarrow> 'd \<Rightarrow> (('c list \<times> 'd) \<times> (nat \<times> request) list) option" where
  "tick_controllers C [] d = Some (([], d), [])"
| "tick_controllers C (ctrl # ctrls) d = do {
     ((ctrl', d1), cbs) \<leftarrow> ct_tick C (ctrl, d);
     ((ctrls', d2), cbs') \<leftarrow> tick_controllers C ctrls d1;
     Some ((ctrl' # ctrls', d2), cbs @ cbs') }"

definition mem_tick ::
  "('c, 'd) ctrl_ops \<Rightarrow> ('d \<Rightarrow> 'd) \<Rightarrow> ('c, 'd) mem_sys \<Rightarrow> (('c, 'd) mem_sys \<times> (nat \<times> request) list) option" where
  "mem_tick C tick m = do {
     ((ctrls, d), cbs) \<leftarrow> tick_controllers C (ms_ctrls m) (tick (ms_dram m));
     Some (m\<lparr>ms_clk := ms_clk m + 1, ms_dram := d, ms_ctrls := ctrls\<rparr>, cbs) }"

lemma sp_ctrl_simps [simp]:
  "ct_send (sp_ctrl D) r (c, s) = (fst (sp_send c r s), (c, snd (sp_send c r s)))"
  "ct_tick (sp_ctrl D) ((c, s), d) = map_option (\<lambda>((s', d'), cbs). (((c, s'), d'), cbs)) (sp_tick D c (s, d))"
  by (simp_all add: sp_ctrl_def split_def Let_def)

lemma count_request_keeps [simp]:
  "ms_ctrls (count_request ty m) = ms_ctrls m" "ms_dram (count_request ty m) = ms_dram m" "ms_clk (count_request ty m) = ms_clk m"
  by (simp_all add: count_request_def)

text \<open>A system with one controller ticks as the controller on its device.\<close>

lemma mem_tick_single:
  assumes "ms_ctrls m = [(c, s)]" "sys_tick D c (s, ms_dram m) = Some ((s', d'), cbs)"
  shows "mem_tick (sp_ctrl D) (dr_tick D) m =
    Some (m\<lparr>ms_clk := ms_clk m + 1, ms_dram := d', ms_ctrls := [(c, s')]\<rparr>, cbs)"
  using assms by (simp add: mem_tick_def sys_tick_def)

lemma mem_send_single:
  assumes "ms_ctrls m = [(c, s)]" "mapper (rq_addr r) (rq_addr_vec r) = Some av" "vec_at av 0 = Some 0"
    and "sp_send c (r\<lparr>rq_addr_vec := av\<rparr>) s = (b, s')"
  shows "\<exists>m'. mem_send (sp_ctrl D) mapper r m = Some (b, m') \<and> ms_ctrls m' = [(c, s')] \<and> ms_dram m' = ms_dram m \<and>
    ms_reads m' + ms_writes m' + ms_others m' = ms_reads m + ms_writes m + ms_others m + (if b then 1 else 0)"
  using assms by (simp add: mem_send_def vec_at_def Let_def) (simp add: count_request_def)

section \<open>Safety of the whole system\<close>

text \<open>Several controllers share the device: what each of them does keeps the others' invariants.\<close>

context pim_dram
begin

definition mem_inv :: "(sp_cfg \<times> sp_state, 'd) mem_sys \<Rightarrow> bool" where
  "mem_inv m \<longleftrightarrow> (\<forall>(c, s) \<in> set (ms_ctrls m). sys_inv c (s, ms_dram m))"

lemma tick_controllers_ok:
  assumes "\<forall>(c, s) \<in> set cs. sys_inv c (s, d)"
  shows "\<exists>cs' d' cbs. tick_controllers (sp_ctrl D) cs d = Some ((cs', d'), cbs) \<and> map fst cs' = map fst cs \<and>
    (\<forall>(c, s) \<in> set cs'. sys_inv c (s, d')) \<and> same d d' \<and> (\<forall>c2. ok c2 d \<longrightarrow> ok c2 d') \<and>
    list_all2 (\<lambda>(c, s) (c', s'). queue_bound c s \<longrightarrow> queue_bound c s') cs cs'"
  using assms
proof (induction cs arbitrary: d)
  case (Cons x cs)
  obtain c s where x: "x = (c, s)" by fastforce
  from sp_tick_ok [of c s d] Cons.prems(1) obtain s1 d1 as where
    1: "sp_tick D c (s, d) = Some ((s1, d1), as)" "sys_inv c (s1, d1)" "same d d1" "\<forall>c2. ok c2 d \<longrightarrow> ok c2 d1"
      "took c s s1" by (auto simp: x)
  have rest: "\<forall>(c, s) \<in> set cs. sys_inv c (s, d1)"
  proof clarify
    fix c2 s2 assume "(c2, s2) \<in> set cs"
    with Cons.prems(1) have inv: "sys_inv c2 (s2, d)" by auto
    then have "ok c2 d1" using 1(4) by (simp add: sys_inv_def)
    with sys_inv_cong [OF inv _ 1(3)] show "sys_inv c2 (s2, d1)" .
  qed
  from Cons.IH [OF this] obtain cs2 d2 bs where
    2: "tick_controllers (sp_ctrl D) cs d1 = Some ((cs2, d2), bs)" "map fst cs2 = map fst cs"
      "\<forall>(c, s) \<in> set cs2. sys_inv c (s, d2)" "same d1 d2" "\<forall>c2. ok c2 d1 \<longrightarrow> ok c2 d2"
      "list_all2 (\<lambda>(c, s) (c', s'). queue_bound c s \<longrightarrow> queue_bound c s') cs cs2" by auto
  have "sys_inv c (s1, d2)"
    using sys_inv_cong [OF 1(2) _ 2(4)] 2(5) 1(2) by (simp add: sys_inv_def)
  moreover have "queue_bound c s \<longrightarrow> queue_bound c s1" using took_length [OF 1(5)] by (simp add: queue_bound_def)
  ultimately show ?case using 1 2 same_trans [OF 1(3) 2(4)] by (auto simp: x)
qed simp

lemma mem_tick_ok:
  assumes "mem_inv m" "ms_ctrls m \<noteq> []"
  shows "\<exists>m' cbs. mem_tick (sp_ctrl D) (dr_tick D) m = Some (m', cbs) \<and> mem_inv m' \<and>
    map fst (ms_ctrls m') = map fst (ms_ctrls m) \<and> same (ms_dram m) (ms_dram m') \<and>
    list_all2 (\<lambda>(c, s) (c', s'). queue_bound c s \<longrightarrow> queue_bound c s') (ms_ctrls m) (ms_ctrls m')"
proof -
  let ?d = "dr_tick D (ms_dram m)"
  have "\<forall>(c, s) \<in> set (ms_ctrls m). sys_inv c (s, ?d)"
    using assms(1) sys_inv_tick by (auto simp: mem_inv_def)
  from tick_controllers_ok [OF this] obtain cs' d' cbs where
    t: "tick_controllers (sp_ctrl D) (ms_ctrls m) ?d = Some ((cs', d'), cbs)" "map fst cs' = map fst (ms_ctrls m)"
      "\<forall>(c, s) \<in> set cs'. sys_inv c (s, d')" "same ?d d'"
      "list_all2 (\<lambda>(c, s) (c', s'). queue_bound c s \<longrightarrow> queue_bound c s') (ms_ctrls m) cs'" by auto
  from assms obtain c s where "(c, s) \<in> set (ms_ctrls m)" by (cases "ms_ctrls m") auto
  with assms(1) have "ok c (ms_dram m)" by (auto simp: mem_inv_def sys_inv_def)
  from same_trans [OF same_step(1) [OF this] t(4)] t show ?thesis by (simp add: mem_tick_def mem_inv_def)
qed

lemma mem_send_ok:
  assumes "mem_inv m" "mapper (rq_addr r) (rq_addr_vec r) = Some av" "vec_at av 0 = Some ch"
    and "vec_at (ms_ctrls m) ch = Some (c, s)" "request_ok D valid c (ms_dram m) (r\<lparr>rq_addr_vec := av\<rparr>)"
  shows "\<exists>b m'. mem_send (sp_ctrl D) mapper r m = Some (b, m') \<and> mem_inv m' \<and> ms_dram m' = ms_dram m \<and>
    map fst (ms_ctrls m') = map fst (ms_ctrls m) \<and>
    list_all2 (\<lambda>(c, s) (c', s'). queue_bound c s \<longrightarrow> queue_bound c s') (ms_ctrls m) (ms_ctrls m')"
proof -
  obtain b s' where s': "sp_send c (r\<lparr>rq_addr_vec := av\<rparr>) s = (b, s')" by fastforce
  from assms(4) have ch: "0 \<le> ch" "nat ch < length (ms_ctrls m)" "ms_ctrls m ! nat ch = (c, s)" by (auto simp: vec_simps)
  then have "sys_inv c (s, ms_dram m)" using assms(1) nth_mem [OF ch(2)] by (auto simp: mem_inv_def)
  note send = send_ok [OF this assms(5) s']
  let ?cs = "(ms_ctrls m)[nat ch := (c, s')]"
  have "\<forall>(c, s) \<in> set ?cs. sys_inv c (s, ms_dram m)"
    using send(1) assms(1) set_update_subset_insert [of "ms_ctrls m" "nat ch" "(c, s')"] by (auto simp: mem_inv_def)
  moreover have "map fst ?cs = map fst (ms_ctrls m)"
    using ch by (simp add: map_update list_update_same_conv)
  moreover have "list_all2 (\<lambda>(c, s) (c', s'). queue_bound c s \<longrightarrow> queue_bound c s') (ms_ctrls m) ?cs"
    using ch send(4) by (auto simp: list_all2_conv_all_nth nth_list_update)
  ultimately show ?thesis using assms(2-4) s' by (auto simp: mem_send_def mem_inv_def Let_def)
qed

end

end
