(* ===== verification/Spare_Trace.thy ===== *)
theory Spare_Trace
  imports Spare_Stream
begin

text \<open>
  The trace frontend of the SPARE-PIM simulations (\<open>src/frontend/impl/sparepim/sparepim_trace.cpp\<close>):
  its parameters, the parser of trace files, the validation of the tokens against the device, and
  \<open>tick\<close>, which sends one token at a time. The file system is a parameter: the lines of the trace file,
  or \<open>None\<close> when it cannot be opened. Every exception is an error value.
\<close>

section \<open>State\<close>

record trace_token =
  tk_addr :: addr_t
  tk_max_voc :: int
  tk_total_voc :: int
  tk_mac :: int
  tk_acc :: int
  tk_voc_count :: int
  tk_vocs :: "int list"

definition blank_token :: trace_token where
  "blank_token = \<lparr>tk_addr = 0, tk_max_voc = 0, tk_total_voc = 0, tk_mac = 0, tk_acc = 0, tk_voc_count = 0, tk_vocs = []\<rparr>"

record trace_params =
  tp_path :: string
  tp_default_addr :: addr_t
  tp_addr_stride :: addr_t
  tp_num_tokens :: int
  tp_fixed_max_voc :: int
  tp_fixed_total_voc :: int
  tp_d_head :: int
  tp_fsu_width :: int
  tp_mac_commands :: int
  tp_acc_commands :: int
  tp_seq_len :: int
  tp_expected_voc_count :: int
  tp_max_voc_per_bpu :: int
  tp_validate_voc_count :: bool

definition trace_default_params :: trace_params where
  "trace_default_params = \<lparr>tp_path = [], tp_default_addr = 0, tp_addr_stride = 64, tp_num_tokens = 0,
     tp_fixed_max_voc = -1, tp_fixed_total_voc = -1, tp_d_head = 0, tp_fsu_width = 16,
     tp_mac_commands = -1, tp_acc_commands = 0, tp_seq_len = 0, tp_expected_voc_count = -1,
     tp_max_voc_per_bpu = -1, tp_validate_voc_count = True\<rparr>"

datatype trace_error =
    Trace_not_found
  | No_tokens
  | Malformed_line nat
  | Bad_number parse_error
  | Bad_substring
  | No_request_type
  | Bad_level_size
  | Voc_count_mismatch nat
  | Max_voc_exceeded nat
  | Max_voc_above_total nat
  | Total_voc_exceeded nat

record spare_trace =
  ft_params :: trace_params
  ft_trace :: "trace_token list"
  ft_idx :: nat
  ft_issued :: nat
  ft_completed :: nat
  ft_req_id :: int
  ft_total_voc :: int
  ft_max_voc_sum :: int

section \<open>Parsing\<close>

definition tr_ceil_div :: "int \<Rightarrow> int \<Rightarrow> int" where
  "tr_ceil_div lhs rhs = (lhs + rhs - 1) sdiv rhs"

definition trim :: "string \<Rightarrow> string" where
  "trim t = rev (dropWhile is_space (rev (dropWhile is_space t)))"

definition parse_int :: "string \<Rightarrow> trace_error + int" where
  "parse_int token =
     (case (if take 2 token = ''0x'' \<or> take 2 token = ''0X'' then stoll 16 (drop 2 token) else stoll 10 token) of
        Inl e \<Rightarrow> Inl (Bad_number e) | Inr v \<Rightarrow> Inr v)"

text \<open>\<open>std::max<int64_t>(0, parse_int(token))\<close>, stored in an \<open>int\<close>.\<close>

definition parse_voc :: "string \<Rightarrow> trace_error + int" where
  "parse_voc token = sbind (parse_int token) (\<lambda>v. Inr (i32 (max 0 v)))"

definition parse_voc_list :: "string \<Rightarrow> trace_error + int list" where
  "parse_voc_list csv = (case tokenize csv '','' of
     None \<Rightarrow> Inl Bad_substring
   | Some tokens \<Rightarrow> smap parse_voc (filter (\<lambda>t. t \<noteq> []) tokens))"

definition make_trace_from_vocs :: "trace_params \<Rightarrow> int list \<Rightarrow> trace_token" where
  "make_trace_from_vocs p vocs = blank_token\<lparr>
     tk_max_voc := (if vocs = [] then 0 else fold max (tl vocs) (hd vocs)),
     tk_total_voc := fold (+) vocs 0,
     tk_mac := tp_mac_commands p, tk_acc := tp_acc_commands p,
     tk_voc_count := int (length vocs), tk_vocs := vocs\<rparr>"

text \<open>The address of the next token, when its line gives none.\<close>

definition next_addr :: "trace_params \<Rightarrow> trace_token list \<Rightarrow> addr_t" where
  "next_addr p trace = tp_default_addr p + int (length trace) * tp_addr_stride p"

text \<open>An optional field of a line: the value at position \<open>i\<close>, or a default.\<close>

definition field_or :: "string list \<Rightarrow> nat \<Rightarrow> int \<Rightarrow> trace_error + int" where
  "field_or tokens i def = (if i < length tokens then parse_int (tokens ! i) else Inr def)"

definition field_or_int :: "string list \<Rightarrow> nat \<Rightarrow> int \<Rightarrow> trace_error + int" where
  "field_or_int tokens i def = (if i < length tokens then sbind (parse_int (tokens ! i)) (\<lambda>v. Inr (i32 v)) else Inr def)"

definition parse_token_line :: "trace_params \<Rightarrow> trace_token list \<Rightarrow> string list \<Rightarrow> nat \<Rightarrow> trace_error + trace_token" where
  "parse_token_line p trace tokens line_num =
     (if length tokens \<ge> 6 \<and> str_contains (tokens ! 5) '',''
      then sbind (parse_voc_list (tokens ! 5)) (\<lambda>vocs.
             let t = (make_trace_from_vocs p vocs)\<lparr>tk_addr := next_addr p trace\<rparr>
             in sbind (field_or_int tokens 6 (tk_mac t)) (\<lambda>mac.
                sbind (field_or_int tokens 7 (tk_acc t)) (\<lambda>acc. Inr (t\<lparr>tk_mac := mac, tk_acc := acc\<rparr>))))
      else if length tokens < 3 then Inl (Malformed_line line_num)
      else sbind (parse_voc (tokens ! 1)) (\<lambda>mx.
           sbind (parse_voc (tokens ! 2)) (\<lambda>tot.
           sbind (field_or tokens 3 (next_addr p trace)) (\<lambda>addr.
           sbind (field_or_int tokens 4 (tp_mac_commands p)) (\<lambda>mac.
           sbind (field_or_int tokens 5 (tp_acc_commands p)) (\<lambda>acc.
             Inr (blank_token\<lparr>tk_addr := addr, tk_max_voc := mx, tk_total_voc := tot, tk_mac := mac, tk_acc := acc\<rparr>)))))))"

definition parse_voc_line ::
  "trace_params \<Rightarrow> trace_token list \<Rightarrow> string list \<Rightarrow> nat \<Rightarrow> nat \<Rightarrow> trace_error + trace_token" where
  "parse_voc_line p trace tokens line_num voc_idx =
     (if length tokens \<le> voc_idx then Inl (Malformed_line line_num)
      else sbind (parse_voc_list (tokens ! voc_idx)) (\<lambda>vocs.
           sbind (field_or tokens (voc_idx + 1) (next_addr p trace)) (\<lambda>addr.
           sbind (field_or_int tokens (voc_idx + 2) (tp_mac_commands p)) (\<lambda>mac.
           sbind (field_or_int tokens (voc_idx + 3) (tp_acc_commands p)) (\<lambda>acc.
             Inr ((make_trace_from_vocs p vocs)\<lparr>tk_addr := addr, tk_mac := mac, tk_acc := acc\<rparr>))))))"

definition parse_bare_line :: "trace_params \<Rightarrow> trace_token list \<Rightarrow> string list \<Rightarrow> nat \<Rightarrow> trace_error + trace_token" where
  "parse_bare_line p trace tokens line_num =
     (if length tokens < 2 then Inl (Malformed_line line_num)
      else sbind (parse_voc (tokens ! 0)) (\<lambda>mx.
           sbind (parse_voc (tokens ! 1)) (\<lambda>tot.
           sbind (field_or tokens 2 (next_addr p trace)) (\<lambda>addr.
           sbind (field_or_int tokens 3 (tp_mac_commands p)) (\<lambda>mac.
           sbind (field_or_int tokens 4 (tp_acc_commands p)) (\<lambda>acc.
             Inr (blank_token\<lparr>tk_addr := addr, tk_max_voc := mx, tk_total_voc := tot, tk_mac := mac, tk_acc := acc\<rparr>)))))))"

definition parse_trace_line :: "trace_params \<Rightarrow> trace_token list \<Rightarrow> string list \<Rightarrow> nat \<Rightarrow> trace_error + trace_token" where
  "parse_trace_line p trace tokens line_num = (case tokens of
     [] \<Rightarrow> Inl (Malformed_line line_num)
   | t # _ \<Rightarrow> if t = ''TOKEN'' then parse_token_line p trace tokens line_num
       else if t = ''VOC'' then parse_voc_line p trace tokens line_num 1
       else if str_contains t '','' then parse_voc_line p trace tokens line_num 0
       else parse_bare_line p trace tokens line_num)"

text \<open>A line without its comment and the white space around it.\<close>

definition strip_line :: "string \<Rightarrow> string" where
  "strip_line line = trim (case str_find line ''#'' 0 of None \<Rightarrow> line | Some pos \<Rightarrow> take pos line)"

fun parse_lines :: "trace_params \<Rightarrow> nat \<Rightarrow> trace_token list \<Rightarrow> string list \<Rightarrow> trace_error + trace_token list" where
  "parse_lines p line_num trace [] = Inr trace"
| "parse_lines p line_num trace (line # lines) =
     (let n = line_num + 1; l = strip_line line in
      if l = [] then parse_lines p n trace lines
      else case tokenize l '' '' of
          None \<Rightarrow> Inl Bad_substring
        | Some tokens \<Rightarrow> sbind (parse_trace_line p trace tokens n) (\<lambda>t. parse_lines p n (trace @ [t]) lines))"

definition init_trace :: "trace_params \<Rightarrow> string list option \<Rightarrow> trace_error + trace_token list" where
  "init_trace p file = (case file of None \<Rightarrow> Inl Trace_not_found | Some lines \<Rightarrow> parse_lines p 0 [] lines)"

definition init_fixed_trace :: "trace_params \<Rightarrow> trace_error + trace_token list" where
  "init_fixed_trace p =
     (if tp_num_tokens p \<le> 0 then Inl No_tokens
      else let mx = max 0 (tp_fixed_max_voc p);
               tot = (if tp_fixed_total_voc p \<ge> 0 then tp_fixed_total_voc p else mx)
           in Inr (map (\<lambda>i. blank_token\<lparr>tk_addr := tp_default_addr p + int i * tp_addr_stride p, tk_max_voc := mx,
                tk_total_voc := tot, tk_mac := tp_mac_commands p, tk_acc := tp_acc_commands p\<rparr>) [0..<nat (tp_num_tokens p)]))"

section \<open>Initialization\<close>

definition fix_params :: "trace_params \<Rightarrow> trace_params" where
  "fix_params p =
     (let p1 = (if tp_mac_commands p < 0
                then p\<lparr>tp_mac_commands := (if tp_d_head p > 0 then tr_ceil_div (tp_d_head p) (max 1 (tp_fsu_width p)) else 0)\<rparr>
                else p)
      in if tp_max_voc_per_bpu p1 \<le> 0 then p1\<lparr>tp_max_voc_per_bpu := max 1 (tp_fsu_width p1)\<rparr> else p1)"

definition trace_init :: "trace_params \<Rightarrow> string list option \<Rightarrow> trace_error + spare_trace" where
  "trace_init p0 file = (let p = fix_params p0 in
     sbind (if tp_path p \<noteq> [] then init_trace p file else init_fixed_trace p) (\<lambda>trace.
       Inr \<lparr>ft_params = p, ft_trace = trace, ft_idx = 0, ft_issued = 0, ft_completed = 0, ft_req_id = -1,
            ft_total_voc = fold (\<lambda>t n. u64 (n + tk_total_voc t)) trace 0,
            ft_max_voc_sum = fold (\<lambda>t n. u64 (n + tk_max_voc t)) trace 0\<rparr>))"

definition validate_token :: "trace_params \<Rightarrow> nat \<Rightarrow> trace_token \<Rightarrow> trace_error option" where
  "validate_token p i t =
     (let max_total_voc = tp_expected_voc_count p * tp_max_voc_per_bpu p in
      if tp_validate_voc_count p \<and> tk_voc_count t > 0 \<and> tp_expected_voc_count p > 0 \<and>
         tk_voc_count t \<noteq> tp_expected_voc_count p then Some (Voc_count_mismatch i)
      else if tk_max_voc t > tp_max_voc_per_bpu p then Some (Max_voc_exceeded i)
      else if tk_total_voc t > 0 \<and> tk_max_voc t > tk_total_voc t then Some (Max_voc_above_total i)
      else if max_total_voc > 0 \<and> tk_total_voc t > max_total_voc then Some (Total_voc_exceeded i)
      else None)"

fun validate_trace :: "trace_params \<Rightarrow> nat \<Rightarrow> trace_token list \<Rightarrow> trace_error option" where
  "validate_trace p i [] = None"
| "validate_trace p i (t # ts) = (case validate_token p i t of Some e \<Rightarrow> Some e | None \<Rightarrow> validate_trace p (i + 1) ts)"

definition trace_setup :: "dram_tables \<Rightarrow> spare_trace \<Rightarrow> trace_error + spare_trace" where
  "trace_setup d f =
     (case specdef_id (dt_requests d) ''spare-pim'' of
        None \<Rightarrow> Inl No_request_type
      | Some rid \<Rightarrow>
          (case (dt_level_size d ''bankgroup'', dt_level_size d ''bank'') of
             (Some nbg, Some nb) \<Rightarrow>
               (let p = ft_params f;
                    p' = (if tp_expected_voc_count p \<le> 0
                          then p\<lparr>tp_expected_voc_count := max 1 nbg * max 1 nb\<rparr> else p)
                in case validate_trace p' 0 (ft_trace f) of
                     Some e \<Rightarrow> Inl e
                   | None \<Rightarrow> Inr (f\<lparr>ft_params := p', ft_req_id := rid\<rparr>))
           | _ \<Rightarrow> Inl Bad_level_size))"

section \<open>Running\<close>

text \<open>The request of a token. Its callback, here number 0, increments the count of completed requests.\<close>

definition token_request :: "int \<Rightarrow> trace_token \<Rightarrow> request" where
  "token_request rid t = (request_src (tk_addr t) rid 0 (Some 0))\<lparr>
     rq_scratch := [tk_max_voc t, tk_total_voc t, tk_mac t, tk_acc t],
     rq_payload := (if tk_vocs t \<noteq> [] then Some (tk_vocs t) else None)\<rparr>"

definition trace_tick ::
  "(request \<Rightarrow> 'm \<Rightarrow> (bool \<times> 'm) option) \<Rightarrow> spare_trace \<times> 'm \<Rightarrow> (spare_trace \<times> 'm) option" where
  "trace_tick send fm = (case fm of (f, m) \<Rightarrow>
     if length (ft_trace f) \<le> ft_idx f then Some (f, m)
     else do {
       (request_sent, m') \<leftarrow> send (token_request (ft_req_id f) (ft_trace f ! ft_idx f)) m;
       Some (if request_sent then f\<lparr>ft_idx := ft_idx f + 1, ft_issued := ft_issued f + 1\<rparr> else f, m') })"

definition trace_callback :: "spare_trace \<Rightarrow> spare_trace" where
  "trace_callback f = f\<lparr>ft_completed := ft_completed f + 1\<rparr>"

definition trace_is_finished :: "spare_trace \<Rightarrow> bool" where
  "trace_is_finished f \<longleftrightarrow> length (ft_trace f) \<le> ft_idx f \<and> length (ft_trace f) \<le> ft_completed f"

end
