(* ===== verification/Spare_Trace_Facts.thy ===== *)
theory Spare_Trace_Facts
  imports Spare_Trace
begin

text \<open>
  What the trace frontend reads and accepts: a printed trace is read back, whatever white space and
  comments surround its lines; the VOC summary a line carries is the one the controller computes
  from the values; and an accepted trace is within the bounds of the device.
\<close>

section \<open>Decimal numbers\<close>

fun dec :: "nat \<Rightarrow> string" where
  "dec n = (if n < 10 then [char_of (48 + n)] else dec (n div 10) @ [char_of (48 + n mod 10)])"

declare dec.simps [simp del]

definition is_digit :: "char \<Rightarrow> bool" where
  "is_digit c \<longleftrightarrow> 48 \<le> (of_char c :: nat) \<and> (of_char c :: nat) \<le> 57"

lemma digit_of: "n < 10 \<Longrightarrow> is_digit (char_of (48 + n :: nat))"
  by (simp add: is_digit_def of_char_of)

lemma digit_val_of: "n < 10 \<Longrightarrow> digit_val 10 (char_of (48 + n :: nat)) = Some n"
  by (simp add: digit_val_def of_char_of Let_def)

lemma dec_digits: "\<forall>c \<in> set (dec n). is_digit c"
proof (induction n rule: dec.induct)
  case (1 n)
  then show ?case by (subst dec.simps) (auto intro!: digit_of)
qed

lemma dec_not_Nil: "dec n \<noteq> []"
  by (subst dec.simps) simp

lemma digits_val_snoc:
  "\<forall>c \<in> set xs. digit_val 10 c \<noteq> None \<Longrightarrow> digits_val 10 acc (xs @ ys) = digits_val 10 (digits_val 10 acc xs) ys"
  by (induction xs arbitrary: acc) (auto split: option.splits)

lemma is_digit_val: "is_digit c \<Longrightarrow> digit_val 10 c \<noteq> None"
proof -
  assume "is_digit c"
  then have "48 \<le> (of_char c :: nat)" "(of_char c :: nat) - 48 < 10" "(of_char c :: nat) \<le> 57"
    unfolding is_digit_def by linarith+
  then show ?thesis by (simp add: digit_val_def Let_def)
qed

lemma digits_val_dec: "digits_val 10 0 (dec n) = n"
proof (induction n rule: dec.induct)
  case (1 n)
  show ?case
  proof (cases "n < 10")
    case True
    then show ?thesis by (subst dec.simps) (simp add: digit_val_of)
  next
    case False
    have "\<forall>c \<in> set (dec (n div 10)). digit_val 10 c \<noteq> None" using dec_digits is_digit_val by blast
    with False 1 [OF False] show ?thesis by (subst dec.simps) (simp add: digits_val_snoc digit_val_of)
  qed
qed

lemma digit_not:
  assumes "is_digit c"
  shows "\<not> is_space c" "c \<noteq> CHR '' ''" "c \<noteq> CHR '',''" "c \<noteq> CHR ''#''" "c \<noteq> CHR ''-''" "c \<noteq> CHR ''+''"
    "c \<noteq> CHR ''x''" "c \<noteq> CHR ''X''"
  using assms by (auto simp: is_digit_def is_space_def)

lemma parse_int_dec:
  assumes "n < 2 ^ 63"
  shows "parse_int (dec n) = Inr (int n)"
proof -
  obtain c cs where d: "dec n = c # cs" using dec_not_Nil [of n] by (cases "dec n") auto
  have dig: "is_digit c" "\<forall>x \<in> set cs. is_digit x" using dec_digits [of n] by (auto simp: d)
  have hex: "take 2 (dec n) \<noteq> ''0x''" "take 2 (dec n) \<noteq> ''0X''"
    using dig digit_not(7,8) by (cases cs; auto simp: d)+
  have sp: "dropWhile is_space (dec n) = dec n" using digit_not(1) [OF dig(1)] by (simp add: d)
  have strip: "strip_hex 10 (dec n) = dec n"
    by (cases "(10 :: nat, dec n)" rule: strip_hex.cases) auto
  have "parse_number 10 (dec n) = Inr (False, n)"
    unfolding parse_number_def sp Let_def
    using digit_not(5,6) [OF dig(1)] is_digit_val [OF dig(1)] strip digits_val_dec [of n] by (simp add: d)
  then show ?thesis using hex assms by (simp add: parse_int_def stoll_def Let_def)
qed

lemma i32_nat: "n < 2 ^ 31 \<Longrightarrow> i32 (int n) = int n"
  by (simp add: i32_def signed_take_bit_int_eq_self)

lemma parse_voc_dec: "n < 2 ^ 31 \<Longrightarrow> parse_voc (dec n) = Inr (int n)"
  using parse_int_dec [of n] by (simp add: parse_voc_def i32_nat)

section \<open>Tokenizing\<close>

lemma join_tokens_Cons: "ts \<noteq> [] \<Longrightarrow> join_tokens d (t # ts) = t @ d @ join_tokens d ts"
  by (cases ts) auto

lemma split_at_first:
  "a @ c # x = b @ c # y \<Longrightarrow> c \<notin> set a \<Longrightarrow> c \<notin> set b \<Longrightarrow> a = b \<and> x = y"
proof (induction a arbitrary: b)
  case Nil
  then show ?case by (cases b) auto
next
  case (Cons z a)
  then show ?case by (cases b) auto
qed

lemma join_inj:
  assumes "join_tokens [c] ts = join_tokens [c] us" "ts \<noteq> []" "us \<noteq> []" "\<forall>t \<in> set ts. c \<notin> set t" "\<forall>t \<in> set us. c \<notin> set t"
  shows "ts = us"
  using assms
proof (induction ts arbitrary: us)
  case (Cons t ts)
  obtain u us' where us: "us = u # us'" using Cons.prems(3) by (cases us) auto
  show ?case
  proof (cases "ts = []")
    case True
    then have "c \<notin> set (join_tokens [c] us)" using Cons.prems(1,4) by simp
    then have "us' = []" by (cases "us' = []") (auto simp: us join_tokens_Cons)
    with True Cons.prems(1) show ?thesis by (simp add: us)
  next
    case False
    then have "c \<in> set (join_tokens [c] us)" using Cons.prems(1) [symmetric] by (simp add: join_tokens_Cons)
    then have us': "us' \<noteq> []" using Cons.prems(5) by (auto simp: us)
    then have "t @ c # join_tokens [c] ts = u @ c # join_tokens [c] us'"
      using Cons.prems(1) False by (simp add: us join_tokens_Cons)
    from split_at_first [OF this] have "t = u" "join_tokens [c] ts = join_tokens [c] us'" using Cons.prems(4,5) by (auto simp: us)
    with Cons.IH [OF this(2) False us'] Cons.prems(4,5) show ?thesis by (simp add: us)
  qed
qed simp

lemma tokenize_join:
  assumes "ts \<noteq> []" "\<forall>t \<in> set ts. c \<notin> set t"
  shows "tokenize (join_tokens [c] ts) [c] = Some ts"
proof -
  obtain us where us: "tokenize (join_tokens [c] ts) [c] = Some us" using tokenize_total by blast
  from tokenize_spec [OF us] have "us = ts" using join_inj [of c us ts] assms by blast
  with us show ?thesis by simp
qed

lemma set_join_tokens: "set (join_tokens d ts) \<subseteq> \<Union> (set ` set ts) \<union> set d"
proof (induction ts)
  case (Cons t ts)
  then show ?case by (cases "ts = []") (auto simp: join_tokens_Cons)
qed simp

lemma str_contains_iff: "str_contains s [c] \<longleftrightarrow> c \<in> set s"
proof
  assume "str_contains s [c]"
  then obtain pos where "str_find s [c] 0 = Some pos" by (auto simp: str_contains_def)
  from str_find_Some [OF this] have "prefix [c] (drop pos s)" by simp
  then have "c \<in> set (drop pos s)" by (auto simp: prefix_def)
  then show "c \<in> set s" by (rule in_set_dropD)
next
  assume "c \<in> set s"
  then obtain j where j: "j < length s" "s ! j = c" by (auto simp: in_set_conv_nth)
  show "str_contains s [c]"
  proof (rule ccontr)
    assume "\<not> str_contains s [c]"
    then have "str_find s [c] 0 = None" by (simp add: str_contains_def)
    from str_find_None [OF this, of j] j prefix_singleton_drop [of j s c] show False by simp
  qed
qed

section \<open>Printing and reading back\<close>

text \<open>A token as a line of a trace file.\<close>

definition dec_int :: "int \<Rightarrow> string" where
  "dec_int x = dec (nat x)"

definition token_fields :: "trace_token \<Rightarrow> string list" where
  "token_fields t =
     (if tk_vocs t = [] then [''TOKEN'', dec_int (tk_max_voc t), dec_int (tk_total_voc t)]
      else [''VOC'', join_tokens '','' (map dec_int (tk_vocs t))]) @
     [dec_int (tk_addr t), dec_int (tk_mac t), dec_int (tk_acc t)]"

definition print_token :: "trace_token \<Rightarrow> string" where
  "print_token t = join_tokens '' '' (token_fields t)"

text \<open>The tokens that can be printed: no negative number, and the summary is that of the values.\<close>

definition fits :: "nat \<Rightarrow> int \<Rightarrow> bool" where
  "fits n x \<longleftrightarrow> 0 \<le> x \<and> x < 2 ^ n"

definition printable :: "trace_params \<Rightarrow> trace_token \<Rightarrow> bool" where
  "printable p t \<longleftrightarrow> fits 63 (tk_addr t) \<and> fits 31 (tk_mac t) \<and> fits 31 (tk_acc t) \<and>
     (if tk_vocs t = [] then fits 31 (tk_max_voc t) \<and> fits 31 (tk_total_voc t) \<and> tk_voc_count t = 0
      else (\<forall>v \<in> set (tk_vocs t). fits 31 v) \<and>
        t = (make_trace_from_vocs p (tk_vocs t))\<lparr>tk_addr := tk_addr t, tk_mac := tk_mac t, tk_acc := tk_acc t\<rparr>)"

lemma parse_dec_int:
  "fits 63 x \<Longrightarrow> parse_int (dec_int x) = Inr x" "fits 31 x \<Longrightarrow> parse_int (dec_int x) = Inr x"
  "fits 31 x \<Longrightarrow> parse_voc (dec_int x) = Inr x" "fits 31 x \<Longrightarrow> i32 x = x"
  using parse_int_dec [of "nat x"] parse_voc_dec [of "nat x"] i32_nat [of "nat x"]
  by (auto simp: fits_def dec_int_def nat_less_iff)

lemma dec_int_digits: "c \<in> set (dec_int x) \<Longrightarrow> is_digit c"
  using dec_digits by (simp add: dec_int_def)

lemma dec_int_not: "dec_int x \<noteq> []" "CHR '' '' \<notin> set (dec_int x)" "CHR '','' \<notin> set (dec_int x)" "CHR ''#'' \<notin> set (dec_int x)"
  using dec_not_Nil dec_int_digits [of _ x] digit_not(2-4) unfolding dec_int_def by blast+

lemma parse_dec_voc_list:
  assumes "vocs \<noteq> []" "\<forall>v \<in> set vocs. fits 31 v"
  shows "parse_voc_list (join_tokens '','' (map dec_int vocs)) = Inr vocs"
proof -
  have "tokenize (join_tokens '','' (map dec_int vocs)) '','' = Some (map dec_int vocs)"
    using assms(1) dec_int_not(3) by (intro tokenize_join) auto
  moreover have "filter (\<lambda>t. t \<noteq> []) (map dec_int vocs) = map dec_int vocs"
    using dec_int_not(1) by (auto simp: filter_id_conv)
  moreover have "smap parse_voc (map dec_int vocs) = Inr vocs"
    using assms(2) parse_dec_int(3) by (auto simp: smap_Inr list_all2_map1 list_all2_conv_all_nth)
  ultimately show ?thesis by (simp add: parse_voc_list_def)
qed

lemma csv_chars: "c \<in> set (join_tokens '','' (map dec_int vocs)) \<Longrightarrow> is_digit c \<or> c = CHR '',''"
  using set_join_tokens [of "'',''" "map dec_int vocs"] dec_int_digits by auto

lemma field_chars:
  "f \<in> set (token_fields t) \<Longrightarrow> c \<in> set f \<Longrightarrow> is_digit c \<or> c = CHR '','' \<or> c \<in> set ''TOKENVOC''"
  using dec_int_digits csv_chars by (auto simp: token_fields_def split: if_splits)

lemma field_not: "f \<in> set (token_fields t) \<Longrightarrow> c \<in> set f \<Longrightarrow> \<not> is_space c \<and> c \<noteq> CHR '' '' \<and> c \<noteq> CHR ''#''"
  using field_chars digit_not by (fastforce simp: is_space_def)

lemma parse_printed:
  assumes "printable p t"
  shows "parse_trace_line p trace (token_fields t) n = Inr t"
proof (cases "tk_vocs t = []")
  case True
  then have f: "fits 63 (tk_addr t)" "fits 31 (tk_mac t)" "fits 31 (tk_acc t)" "fits 31 (tk_max_voc t)"
    "fits 31 (tk_total_voc t)" "tk_voc_count t = 0" using assms by (auto simp: printable_def)
  have "t = blank_token\<lparr>tk_addr := tk_addr t, tk_max_voc := tk_max_voc t, tk_total_voc := tk_total_voc t,
      tk_mac := tk_mac t, tk_acc := tk_acc t\<rparr>"
    using True f(6) by (cases t) (simp add: blank_token_def)
  moreover have "\<not> str_contains (dec_int (tk_acc t)) '',''" using dec_int_not(3) by (simp add: str_contains_iff)
  ultimately show ?thesis using True
    by (simp add: parse_trace_line_def token_fields_def parse_token_line_def field_or_def field_or_int_def parse_dec_int f)
next
  case False
  then have f: "fits 63 (tk_addr t)" "fits 31 (tk_mac t)" "fits 31 (tk_acc t)" "\<forall>v \<in> set (tk_vocs t). fits 31 v"
    "t = (make_trace_from_vocs p (tk_vocs t))\<lparr>tk_addr := tk_addr t, tk_mac := tk_mac t, tk_acc := tk_acc t\<rparr>"
    using assms by (auto simp: printable_def)
  from False show ?thesis
    by (simp add: parse_trace_line_def token_fields_def parse_voc_line_def parse_dec_voc_list [OF False f(4)]
        field_or_def field_or_int_def parse_dec_int f(1-3) f(5) [symmetric])
qed

text \<open>White space and a comment around a printed token.\<close>

lemma trim_around:
  assumes "\<forall>c \<in> set pre. is_space c" "\<forall>c \<in> set post. is_space c" "s \<noteq> []" "\<not> is_space (hd s)" "\<not> is_space (last s)"
  shows "trim (pre @ s @ post) = s"
proof -
  have "dropWhile is_space (pre @ s @ post) = s @ post"
    using assms(1,3,4) by (cases s) (simp_all add: dropWhile_append2)
  moreover have "dropWhile is_space (rev post @ rev s) = rev s"
  proof -
    have "dropWhile is_space (rev post @ rev s) = dropWhile is_space (rev s)"
      using assms(2) by (intro dropWhile_append2) simp
    then show ?thesis using assms(3,5) by (cases s rule: rev_cases) simp_all
  qed
  ultimately show ?thesis by (simp add: trim_def)
qed

lemma find_comment:
  assumes "CHR ''#'' \<notin> set s"
  shows "str_find (s @ ''#'' @ rest) ''#'' 0 = Some (length s)"
proof -
  let ?l = "s @ ''#'' @ rest"
  have "str_contains ?l ''#''" by (simp add: str_contains_iff)
  then obtain pos where pos: "str_find ?l ''#'' 0 = Some pos" by (auto simp: str_contains_def)
  note f = str_find_Some [OF pos]
  have "pos \<le> length s"
  proof (rule ccontr)
    assume "\<not> pos \<le> length s"
    moreover have "\<And>j. j < pos \<Longrightarrow> \<not> prefix ''#'' (drop j ?l)" using f by blast
    ultimately have "\<not> prefix ''#'' (drop (length s) ?l)" using not_le by blast
    then show False by simp
  qed
  moreover have "\<not> pos < length s"
  proof
    assume "pos < length s"
    then have "?l ! pos = CHR ''#''" using f prefix_singleton_drop [of pos ?l "CHR ''#''"] by simp
    then show False using \<open>pos < length s\<close> assms nth_mem [of pos s] by (simp add: nth_append)
  qed
  ultimately show ?thesis using pos by simp
qed

lemma find_no_comment: "CHR ''#'' \<notin> set s \<Longrightarrow> str_find s ''#'' 0 = None"
  using str_contains_iff [of s "CHR ''#''"] by (simp add: str_contains_def)

text \<open>A line of a trace file: a token, or nothing, and a comment, or none.\<close>

type_synonym trace_line = "string \<times> trace_token option \<times> string \<times> string option"

definition print_line :: "trace_line \<Rightarrow> string" where
  "print_line l = (case l of (pre, t, post, cmt) \<Rightarrow>
     pre @ (case t of None \<Rightarrow> [] | Some t \<Rightarrow> print_token t) @ post @ (case cmt of None \<Rightarrow> [] | Some c \<Rightarrow> ''#'' @ c))"

definition line_ok :: "trace_params \<Rightarrow> trace_line \<Rightarrow> bool" where
  "line_ok p l \<longleftrightarrow> (case l of (pre, t, post, cmt) \<Rightarrow>
     (\<forall>c \<in> set pre. is_space c) \<and> (\<forall>c \<in> set post. is_space c) \<and> (case t of None \<Rightarrow> True | Some t \<Rightarrow> printable p t))"

lemma print_token_ends:
  "print_token t \<noteq> []" "\<not> is_space (hd (print_token t))" "\<not> is_space (last (print_token t))" "CHR ''#'' \<notin> set (print_token t)"
proof -
  let ?fs = "token_fields t"
  have ne: "?fs \<noteq> []" by (simp add: token_fields_def)
  have nonempty: "f \<noteq> []" if "f \<in> set ?fs" for f
  proof -
    have "join_tokens '','' (map dec_int vs) \<noteq> []" if "vs \<noteq> []" for vs
      using that dec_int_not(1) by (cases vs; cases "tl vs") (auto simp: join_tokens_Cons)
    then show ?thesis using that dec_int_not(1) dec_int_not(1) [THEN not_sym]
      by (fastforce simp: token_fields_def split: if_splits)
  qed
  have hd: "hd (join_tokens '' '' fs) = hd (hd fs)" "join_tokens '' '' fs \<noteq> []" "last (join_tokens '' '' fs) = last (last fs)"
    if "fs \<noteq> []" "\<forall>f \<in> set fs. f \<noteq> []" for fs :: "string list"
    using that
  proof (induction fs)
    case (Cons f fs)
    { case 1 then show ?case by (cases "fs = []") (simp_all add: join_tokens_Cons) }
    { case 2 then show ?case by (cases "fs = []") (simp_all add: join_tokens_Cons) }
    { case 3 then show ?case using Cons.IH by (cases "fs = []") (simp_all add: join_tokens_Cons) }
  qed simp_all
  have ends: "hd ?fs \<in> set ?fs" "last ?fs \<in> set ?fs" using ne by simp_all
  show "print_token t \<noteq> []" unfolding print_token_def using hd(2) ne nonempty by blast
  show "\<not> is_space (hd (print_token t))" "\<not> is_space (last (print_token t))"
    unfolding print_token_def using hd(1,3) ne nonempty ends field_not [OF ends(1) hd_in_set] field_not [OF ends(2) last_in_set]
    by metis+
  show "CHR ''#'' \<notin> set (print_token t)"
    using set_join_tokens [of "'' ''" ?fs] field_not by (auto simp: print_token_def)
qed

lemma space_no_comment: "\<forall>c \<in> set ws. is_space c \<Longrightarrow> CHR ''#'' \<notin> set ws"
  by (auto simp: is_space_def)

lemma strip_printed:
  assumes "line_ok p (pre, t, post, cmt)"
  shows "strip_line (print_line (pre, t, post, cmt)) = (case t of None \<Rightarrow> [] | Some t \<Rightarrow> print_token t)"
proof -
  have ws: "\<forall>c \<in> set pre. is_space c" "\<forall>c \<in> set post. is_space c" using assms by (auto simp: line_ok_def)
  let ?s = "pre @ (case t of None \<Rightarrow> [] | Some t \<Rightarrow> print_token t) @ post"
  have "CHR ''#'' \<notin> set ?s"
    using space_no_comment [OF ws(1)] space_no_comment [OF ws(2)] print_token_ends(4) by (auto split: option.splits)
  then have "strip_line (print_line (pre, t, post, cmt)) = trim ?s"
    using find_comment [of ?s] find_no_comment [of ?s] by (cases cmt) (simp_all add: strip_line_def print_line_def)
  also have "\<dots> = (case t of None \<Rightarrow> [] | Some t \<Rightarrow> print_token t)"
  proof (cases t)
    case None
    have "dropWhile is_space (pre @ post) = []" using ws by (auto simp: dropWhile_eq_Nil_conv)
    then show ?thesis by (simp only: None trim_def option.case append_Nil rev.simps dropWhile.simps)
  next
    case (Some t)
    with trim_around [OF ws] print_token_ends show ?thesis by simp
  qed
  finally show ?thesis .
qed

lemma parse_lines_printed:
  assumes "\<forall>l \<in> set ls. line_ok p l"
  shows "parse_lines p n trace (map print_line ls) = Inr (trace @ List.map_filter (\<lambda>(pre, t, post, cmt). t) ls)"
  using assms
proof (induction ls arbitrary: n trace)
  case (Cons l ls)
  obtain pre t post cmt where l: "l = (pre, t, post, cmt)" by (metis prod_cases4)
  note strip = strip_printed [of p pre t post cmt]
  show ?case
  proof (cases t)
    case None
    then show ?thesis using Cons strip by (simp add: l List.map_filter_simps Let_def)
  next
    case (Some x)
    have "printable p x" using Cons.prems Some by (simp add: l line_ok_def)
    moreover have "tokenize (print_token x) '' '' = Some (token_fields x)"
    proof -
      have "token_fields x \<noteq> []" by (simp add: token_fields_def)
      then show ?thesis unfolding print_token_def using field_not by (intro tokenize_join) blast+
    qed
    ultimately show ?thesis using Cons strip Some print_token_ends(1) [of x]
      by (simp add: l List.map_filter_simps Let_def parse_printed)
  qed
qed (simp add: List.map_filter_simps)

text \<open>C37: a printed trace is read back. A trace file whose lines hold printed tokens (with a summary or
  with a list of VOC values) or nothing, each with any white space around it and with any comment after it
  or none, is parsed to exactly those tokens, in order.\<close>

theorem trace_file_roundtrip:
  assumes "\<forall>l \<in> set ls. line_ok p l"
  shows "init_trace p (Some (map print_line ls)) = Inr (List.map_filter (\<lambda>(pre, t, post, cmt). t) ls)"
  using parse_lines_printed [OF assms, of 0 "[]"] by (simp add: init_trace_def)

lemma trace_file_roundtrip_witness:
  "init_trace trace_default_params (Some [''  # two tokens'', ''TOKEN 3 5 64 2 1'', [], ''VOC 2,0,1 128 2 1 # last'']) =
   Inr [\<lparr>tk_addr = 64, tk_max_voc = 3, tk_total_voc = 5, tk_mac = 2, tk_acc = 1, tk_voc_count = 0, tk_vocs = []\<rparr>,
        \<lparr>tk_addr = 128, tk_max_voc = 2, tk_total_voc = 3, tk_mac = 2, tk_acc = 1, tk_voc_count = 3, tk_vocs = [2, 0, 1]\<rparr>]"
proof -
  let ?t1 = "\<lparr>tk_addr = 64, tk_max_voc = 3, tk_total_voc = 5, tk_mac = 2, tk_acc = 1, tk_voc_count = 0, tk_vocs = []\<rparr>"
  let ?t2 = "\<lparr>tk_addr = 128, tk_max_voc = 2, tk_total_voc = 3, tk_mac = 2, tk_acc = 1, tk_voc_count = 3, tk_vocs = [2, 0, 1]\<rparr>"
  let ?ls = "[(''  '', None, [], Some '' two tokens''), ([], Some ?t1, [], None), ([], None, [], None),
    ([], Some ?t2, '' '', Some '' last'')]"
  have ok: "\<forall>l \<in> set ?ls. line_ok trace_default_params l" by code_simp
  have "map print_line ?ls = [''  # two tokens'', ''TOKEN 3 5 64 2 1'', [], ''VOC 2,0,1 128 2 1 # last'']" by code_simp
  with trace_file_roundtrip [OF ok] show ?thesis by (simp add: List.map_filter_simps)
qed

section \<open>What the controller sees of an accepted trace\<close>

text \<open>A token with a list of values carries the summary of that list.\<close>

definition token_wf :: "trace_token \<Rightarrow> bool" where
  "token_wf t \<longleftrightarrow> tk_vocs t \<noteq> [] \<longrightarrow> tk_max_voc t = fold max (tl (tk_vocs t)) (hd (tk_vocs t)) \<and>
     tk_total_voc t = fold (+) (tk_vocs t) 0 \<and> tk_voc_count t = int (length (tk_vocs t))"

lemma token_wf_make: "token_wf ((make_trace_from_vocs p vocs)\<lparr>tk_addr := a, tk_mac := m, tk_acc := k\<rparr>)"
  by (simp add: token_wf_def make_trace_from_vocs_def)

lemma token_wf_blank: "tk_vocs t = [] \<Longrightarrow> token_wf t"
  by (simp add: token_wf_def)

lemma parse_trace_line_wf: "parse_trace_line p trace tokens n = Inr t \<Longrightarrow> token_wf t"
  using token_wf_make
  by (auto simp: parse_trace_line_def parse_token_line_def parse_voc_line_def parse_bare_line_def sbind_Inr Let_def
      blank_token_def token_wf_blank split: list.splits if_splits)

lemma parse_lines_wf:
  "parse_lines p n trace lines = Inr ts \<Longrightarrow> \<forall>t \<in> set trace. token_wf t \<Longrightarrow> \<forall>t \<in> set ts. token_wf t"
proof (induction p n trace lines rule: parse_lines.induct)
  case (2 p n trace line lines)
  show ?case
  proof (cases "strip_line line = []")
    case True
    with 2 show ?thesis by (simp add: Let_def)
  next
    case False
    with "2.prems"(1) obtain tokens t where t: "tokenize (strip_line line) '' '' = Some tokens"
      "parse_trace_line p trace tokens (n + 1) = Inr t" "parse_lines p (n + 1) (trace @ [t]) lines = Inr ts"
      by (auto simp: Let_def sbind_Inr split: option.splits)
    have "\<forall>x \<in> set (trace @ [t]). token_wf x" using "2.prems"(2) parse_trace_line_wf [OF t(2)] by auto
    with "2.IH"(2) [OF refl refl False t(1) t(3)] show ?thesis .
  qed
qed simp

lemma trace_init_wf: "trace_init p file = Inr f \<Longrightarrow> \<forall>t \<in> set (ft_trace f). token_wf t"
  using parse_lines_wf [where trace = "[]"]
  by (auto simp: trace_init_def sbind_Inr init_trace_def init_fixed_trace_def blank_token_def token_wf_blank Let_def
      split: if_splits option.splits)

lemma fold_max_pos: "fold max vs (max 0 v) = max 0 (fold max vs (v :: int))"
proof (induction vs arbitrary: v)
  case (Cons a vs)
  have "max a (max 0 v) = max 0 (max a v)" by simp
  with Cons.IH [of "max a v"] show ?case by simp
qed simp

lemma fold_plus: "fold (+) vs (a :: int) = a + sum_list vs"
  by (induction vs arbitrary: a) (simp_all add: algebra_simps)

lemma validate_trace_None:
  "validate_trace p i ts = None \<Longrightarrow> t \<in> set ts \<Longrightarrow> \<exists>j. validate_token p j t = None"
  by (induction p i ts rule: validate_trace.induct) (auto split: option.splits)

text \<open>The banks of a pseudochannel, as the controller counts them.\<close>

lemma sp_setup_banks:
  assumes "sp_setup q ch d = Some c" "dt_level_size d ''bankgroup'' = Some nbg" "dt_level_size d ''bank'' = Some nb"
  shows "sc_num_bgs c = max 1 nbg" "sc_num_banks c = max 1 nb"
proof -
  have "sc_num_bgs c = max 1 nbg \<and> sc_num_banks c = max 1 nb"
    using assms(1) unfolding sp_setup_def Let_def bind_eq_Some_conv
  proof (elim exE conjE, goal_cases)
    case (1 channel pch bg bank row npch nbg' nbank nrow ncol act pre rd wr mac emul mov spm acc)
    note c = 1(20) [THEN option.inject [THEN iffD1], symmetric]
    have "nbg' = nbg" "nbank = nb" using 1(7,8) assms(2,3) by simp_all
    then show ?case by (simp add: c sp_params.defs sp_cfg.defs)
  qed
  then show "sc_num_bgs c = max 1 nbg" "sc_num_banks c = max 1 nb" by simp_all
qed

text \<open>C38: what an accepted trace asks of the controller. For every token of a trace that \<open>init\<close> reads and
  \<open>setup\<close> accepts, the controller set up on the same device that receives its request finds the maximum of the
  VOC values that the line gave or listed, negative ones counted as zero, also when it scans the list itself; the
  maximum is within the bound for a BPU; and a list that was validated has as many values as the parameter asks
  for or, when it is not given, one for every bank of a pseudochannel of that controller.\<close>

theorem accepted_trace_summary:
  assumes "sp_setup q ch d = Some c" "sp_cfg_ok c" "trace_init p file = Inr f" "trace_setup d f = Inr f'" "t \<in> set (ft_trace f')"
  defines "s \<equiv> read_bgmu_vocs_and_find_max c (token_request (ft_req_id f') t)"
  shows "vs_max_voc s = max 0 (tk_max_voc t) \<and> vs_max_voc s \<le> tp_max_voc_per_bpu (ft_params f') \<and>
    ((\<forall>v \<in> set (tk_vocs t). 0 \<le> v) \<longrightarrow> vs_total_voc s = max 0 (tk_total_voc t)) \<and>
    (tk_vocs t \<noteq> [] \<and> tp_validate_voc_count p \<longrightarrow>
       vs_voc_values s = (if 0 < tp_expected_voc_count p then tp_expected_voc_count p else sc_num_bgs c * sc_num_banks c))"
proof -
  from assms(4) obtain nbg nb where sz: "dt_level_size d ''bankgroup'' = Some nbg" "dt_level_size d ''bank'' = Some nb"
    and tr: "ft_trace f' = ft_trace f" and v: "validate_trace (ft_params f') 0 (ft_trace f') = None"
    and ps: "ft_params f' = (if tp_expected_voc_count (ft_params f) \<le> 0
      then (ft_params f)\<lparr>tp_expected_voc_count := max 1 nbg * max 1 nb\<rparr> else ft_params f)"
    by (auto simp: trace_setup_def Let_def split: option.splits if_splits)
  have "ft_params f = fix_params p" using assms(3) by (auto simp: trace_init_def sbind_Inr Let_def)
  moreover have "tp_expected_voc_count (fix_params p) = tp_expected_voc_count p" "tp_validate_voc_count (fix_params p) = tp_validate_voc_count p"
    "0 < tp_max_voc_per_bpu (fix_params p)" by (simp_all add: fix_params_def Let_def less_max_iff_disj)
  ultimately have ex: "tp_expected_voc_count (ft_params f') =
      (if 0 < tp_expected_voc_count p then tp_expected_voc_count p else sc_num_bgs c * sc_num_banks c)"
    "0 < tp_expected_voc_count (ft_params f')" "0 < tp_max_voc_per_bpu (ft_params f')"
    "tp_validate_voc_count (ft_params f') = tp_validate_voc_count p"
    using ps sp_setup_banks [OF assms(1) sz] by (auto simp: zero_less_mult_iff)
  have wf: "token_wf t" using trace_init_wf [OF assms(3)] assms(5) tr by simp
  from validate_trace_None [OF v assms(5)] obtain j where "validate_token (ft_params f') j t = None" by blast
  then have bounds: "tk_max_voc t \<le> tp_max_voc_per_bpu (ft_params f')"
    "tp_validate_voc_count p \<and> 0 < tk_voc_count t \<longrightarrow> tk_voc_count t = tp_expected_voc_count (ft_params f')"
    using ex(2,4) by (auto simp: validate_token_def Let_def split: if_splits)
  show ?thesis
  proof (cases "tk_vocs t")
    case Nil
    then show ?thesis using bounds(1) ex(3)
      by (simp add: s_def read_bgmu_vocs_and_find_max_def token_request_def request_src_def blank_request_def Let_def)
  next
    case (Cons v vs)
    then have "rq_payload (token_request (ft_req_id f') t) = Some (tk_vocs t)" by (simp add: token_request_def)
    note scan = bgmu_scan_values [OF assms(2) this, folded s_def]
    have "fold max (tk_vocs t) 0 = max 0 (tk_max_voc t)"
      using wf Cons fold_max_pos [of vs v] by (simp add: token_wf_def max.commute)
    moreover have "sum_list (map (max 0) (tk_vocs t)) = max 0 (tk_total_voc t)" if "\<forall>v \<in> set (tk_vocs t). 0 \<le> v"
    proof -
      have "map (max 0) (tk_vocs t) = tk_vocs t" using that by (simp add: map_idI)
      moreover have "0 \<le> sum_list (tk_vocs t)" using that by (simp add: sum_list_nonneg)
      ultimately show ?thesis using wf Cons by (simp add: token_wf_def fold_plus)
    qed
    moreover have "0 < tk_voc_count t" using wf Cons by (simp add: token_wf_def)
    then have "tp_validate_voc_count p \<longrightarrow> int (length (tk_vocs t)) = tp_expected_voc_count (ft_params f')"
      using bounds(2) wf Cons by (auto simp: token_wf_def)
    ultimately show ?thesis using scan bounds(1) ex(1,3) Cons by auto
  qed
qed

end
