(* ===== verification/Simulation.thy ===== *)
theory Simulation
  imports Memory_System Spare_Trace_Facts
begin

text \<open>
  The main loop (\<open>src/main.cpp\<close>): frontend and memory system tick at their clock ratio until the
  frontend has finished. For the trace frontend on one SPARE-PIM channel the loop ends, with every
  token completed. The loop is iterated with fuel; the theorem gives the fuel it needs.
\<close>

section \<open>The loop\<close>

text \<open>A frontend with its memory system: their ticks, and what a callback does to the frontend.\<close>

record ('f, 'm) sim_ops =
  so_tick :: "'f \<times> 'm \<Rightarrow> ('f \<times> 'm) option"
  so_finished :: "'f \<Rightarrow> bool"
  so_mem_tick :: "'m \<Rightarrow> ('m \<times> (nat \<times> request) list) option"
  so_callback :: "nat \<times> request \<Rightarrow> 'f \<Rightarrow> 'f"

text \<open>One iteration; the flag says that the loop was left. A product of ratios of zero divides by zero.\<close>

definition sim_iter ::
  "('f, 'm) sim_ops \<Rightarrow> nat \<Rightarrow> nat \<Rightarrow> nat \<Rightarrow> 'f \<times> 'm \<Rightarrow> (bool \<times> 'f \<times> 'm) option" where
  "sim_iter S frontend_ratio mem_ratio i fm = (let tick_mult = frontend_ratio * mem_ratio in
     if tick_mult = 0 then None
     else do {
       (f1, m1) \<leftarrow> (if i mod tick_mult mod mem_ratio = 0 then so_tick S fm else Some fm);
       if so_finished S f1 then Some (True, f1, m1)
       else if i mod tick_mult mod frontend_ratio = 0
       then do { (m2, cbs) \<leftarrow> so_mem_tick S m1; Some (False, fold (so_callback S) cbs f1, m2) }
       else Some (False, f1, m1) })"

lemma sim_iter_eq:
  assumes "(if i mod (ft * mt) mod mt = 0 then so_tick S fm else Some fm) = Some (f1, m1)" "ft * mt \<noteq> 0"
  shows "sim_iter S ft mt i fm = (if so_finished S f1 then Some (True, f1, m1)
     else if i mod (ft * mt) mod ft = 0
     then do { (m2, cbs) \<leftarrow> so_mem_tick S m1; Some (False, fold (so_callback S) cbs f1, m2) }
     else Some (False, f1, m1))"
  using assms(2) by (simp only: sim_iter_def Let_def assms(1) if_False bind.bind_lunit prod.case)

fun sim_loop ::
  "('f, 'm) sim_ops \<Rightarrow> nat \<Rightarrow> nat \<Rightarrow> nat \<Rightarrow> nat \<Rightarrow> 'f \<times> 'm \<Rightarrow> (bool \<times> 'f \<times> 'm) option" where
  "sim_loop S ft mt 0 i fm = Some (False, fm)"
| "sim_loop S ft mt (Suc n) i fm = do {
     (finished, fm1) \<leftarrow> sim_iter S ft mt i fm;
     if finished then Some (True, fm1) else sim_loop S ft mt n (i + 1) fm1 }"

lemma sim_loop_add:
  "sim_loop S ft mt m i fm = Some (False, fm1) \<Longrightarrow>
   sim_loop S ft mt (m + n) i fm = sim_loop S ft mt n (i + m) fm1"
proof (induction m arbitrary: i fm)
  case (Suc m)
  then obtain fm2 where s: "sim_iter S ft mt i fm = Some (False, fm2)" "sim_loop S ft mt m (i + 1) fm2 = Some (False, fm1)"
    by (auto simp: bind_eq_Some_conv split: if_splits)
  from Suc.IH [OF s(2)] s(1) show ?case by simp
qed simp

lemma sim_loop_finished:
  "sim_loop S ft mt m i fm = Some (True, fm1) \<Longrightarrow> sim_loop S ft mt (m + n) i fm = Some (True, fm1)"
proof (induction m arbitrary: i fm)
  case (Suc m)
  then show ?case by (cases "sim_iter S ft mt i fm") (auto split: prod.splits if_splits)
qed simp

section \<open>The trace frontend on a memory system\<close>

definition trace_sim ::
  "'d dram_ops \<Rightarrow> (addr_t \<Rightarrow> addr_vec \<Rightarrow> addr_vec option) \<Rightarrow>
   (spare_trace, (sp_cfg \<times> sp_state, 'd) mem_sys) sim_ops" where
  "trace_sim D mapper = \<lparr>so_tick = trace_tick (mem_send (sp_ctrl D) mapper), so_finished = trace_is_finished,
     so_mem_tick = mem_tick (sp_ctrl D) (dr_tick D), so_callback = (\<lambda>cb. trace_callback)\<rparr>"

lemma trace_sim_simps [simp]:
  "so_tick (trace_sim D mapper) = trace_tick (mem_send (sp_ctrl D) mapper)"
  "so_finished (trace_sim D mapper) = trace_is_finished"
  "so_mem_tick (trace_sim D mapper) = mem_tick (sp_ctrl D) (dr_tick D)"
  "so_callback (trace_sim D mapper) = (\<lambda>cb. trace_callback)"
  by (simp_all add: trace_sim_def)

lemma fold_callbacks:
  "fold (\<lambda>cb. trace_callback) cbs f = f\<lparr>ft_completed := ft_completed f + length cbs\<rparr>"
  by (induction cbs arbitrary: f) (simp_all add: trace_callback_def)

text \<open>One channel: the mapper finds it for every address.\<close>

definition to_channel_0 :: "(addr_t \<Rightarrow> addr_vec \<Rightarrow> addr_vec option) \<Rightarrow> bool" where
  "to_channel_0 mapper \<longleftrightarrow> (\<forall>a v. \<exists>av. mapper a v = Some av \<and> vec_at av 0 = Some 0)"

context pim_dram
begin

text \<open>
  The invariant of the loop. Every token that was sent is completed or pending, every completed one
  was called back, and the functional part has processed every token that left the queue.
\<close>

definition sim_inv :: "sp_cfg \<Rightarrow> trace_token list \<Rightarrow> spare_trace \<times> (sp_cfg \<times> sp_state, 'd) mem_sys \<Rightarrow> bool" where
  "sim_inv c tr fm \<longleftrightarrow> (\<exists>s. ms_ctrls (snd fm) = [(c, s)] \<and> sys_inv c (s, ms_dram (snd fm)) \<and>
     ft_trace (fst fm) = tr \<and> ft_idx (fst fm) \<le> length tr \<and> ft_req_id (fst fm) = sc_req_sparepim c \<and>
     ft_issued (fst fm) = ft_idx (fst fm) \<and>
     ft_idx (fst fm) = ft_completed (fst fm) + length (pending s) \<and>
     st_completed (cs_stats s) = int (ft_completed (fst fm)) \<and>
     (\<forall>r \<in> set (pending s). rq_callback r \<noteq> None) \<and> (\<forall>r \<in> set (cs_queue s). rq_type r = sc_req_sparepim c) \<and>
     (pm_enable_functional c \<longrightarrow>
       fn_current_sq (cs_fn s) = min (int (ft_idx (fst fm) - length (cs_queue s))) (pm_seq_len c)))"

definition sim_work :: "spare_trace \<times> (sp_cfg \<times> sp_state, 'd) mem_sys \<Rightarrow> nat \<times> nat \<times> nat" where
  "sim_work fm = (case work (snd (hd (ms_ctrls (snd fm))), ms_dram (snd fm)) of
     (q, rest) \<Rightarrow> (2 * (length (ft_trace (fst fm)) - ft_idx (fst fm)) + q, rest))"

lemma all_called_back:
  assumes "completes s rs s' cbs" "\<forall>r \<in> set (pending s). rq_callback r \<noteq> None"
  shows "length cbs = length rs"
proof -
  have "\<forall>r \<in> set rs. rq_callback r \<noteq> None" using assms by (auto simp: completes_def)
  then have "length (with_callback rs) = length rs" by (simp add: with_callback_def)
  moreover have "length (with_callback rs) = length cbs"
    using assms(1) by (metis completes_def notified_def length_map)
  ultimately show ?thesis by simp
qed

lemma op_wait_same:
  "cs_ops s' = cs_ops s \<Longrightarrow> cs_delay_active s' = cs_delay_active s \<Longrightarrow> cs_delay_done_clk s' = cs_delay_done_clk s \<Longrightarrow>
   cs_clk s' = cs_clk s \<Longrightarrow> op_wait s' d = op_wait s d"
  by (simp add: op_wait_def split: list.split op_kind.split)

lemma sim_work_less:
  assumes "(work (s', d'), work (s, d)) \<in> less_work" "ms_ctrls m = [(c, s)]" "ms_dram m = d" "ms_ctrls m' = [(c, s')]"
    "ms_dram m' = d'" "ft_trace f' = ft_trace f" "ft_idx f' = ft_idx f"
  shows "(sim_work (f', m'), sim_work (f, m)) \<in> less_work"
  using assms by (auto simp: sim_work_def work_def less_work_def)

text \<open>The functional part keeps up with the queue.\<close>

lemma took_functional:
  assumes "took c s s'" "fn_ok c (cs_fn s)" "\<forall>r \<in> set (cs_queue s). rq_type r = sc_req_sparepim c"
    and "length (cs_queue s) \<le> n" "pm_enable_functional c"
    and "fn_current_sq (cs_fn s) = min (int (n - length (cs_queue s))) (pm_seq_len c)"
  shows "fn_current_sq (cs_fn s') = min (int (n - length (cs_queue s'))) (pm_seq_len c)"
proof (cases "cs_ops s = [] \<and> cs_queue s \<noteq> []")
  case True
  then obtain r q where q: "cs_queue s = r # q" by (cases "cs_queue s") auto
  then have "functional_step c (cs_fn s) = Some (cs_fn s')" "cs_queue s' = q"
    using assms(1,3) True by (auto simp: took_def)
  moreover have "fn_inv c (cs_fn s)" using assms(2,5) by (simp add: fn_ok_def)
  from step_inv [OF this] obtain f' where "functional_step c (cs_fn s) = Some f'"
    "fn_current_sq f' = (if fn_current_sq (cs_fn s) < pm_seq_len c then fn_current_sq (cs_fn s) + 1 else fn_current_sq (cs_fn s))"
    using assms(5) by auto
  ultimately show ?thesis using assms(4,6) q by (auto simp: min_def of_nat_diff split: if_splits)
next
  case False
  then have "cs_queue s' = cs_queue s" "cs_fn s' = cs_fn s" using assms(1) by (auto simp: took_def)
  then show ?thesis using assms(6) by simp
qed

text \<open>A tick of the memory system: progress, unless there is nothing to do.\<close>

lemma sim_mem_tick:
  assumes inv: "sim_inv c tr (f, m)"
  shows "\<exists>m' cbs. mem_tick (sp_ctrl D) (dr_tick D) m = Some (m', cbs) \<and>
    sim_inv c tr (fold (\<lambda>cb. trace_callback) cbs f, m') \<and>
    ((sim_work (fold (\<lambda>cb. trace_callback) cbs f, m'), sim_work (f, m)) \<in> less_work \<or>
     sim_work (fold (\<lambda>cb. trace_callback) cbs f, m') = sim_work (f, m) \<and> pending (snd (hd (ms_ctrls m))) = [])"
proof -
  from inv obtain s where s: "ms_ctrls m = [(c, s)]" "sys_inv c (s, ms_dram m)" "ft_trace f = tr" "ft_idx f \<le> length tr"
    "ft_req_id f = sc_req_sparepim c" "ft_issued f = ft_idx f" "ft_idx f = ft_completed f + length (pending s)"
    "st_completed (cs_stats s) = int (ft_completed f)"
    "\<forall>r \<in> set (pending s). rq_callback r \<noteq> None" "\<forall>r \<in> set (cs_queue s). rq_type r = sc_req_sparepim c"
    "pm_enable_functional c \<longrightarrow> fn_current_sq (cs_fn s) = min (int (ft_idx f - length (cs_queue s))) (pm_seq_len c)"
    unfolding sim_inv_def by auto
  let ?d = "ms_dram m"
  from tick_ok [OF s(2)] obtain s' d' cbs rs where
    t: "sys_tick D c (s, ?d) = Some ((s', d'), cbs)" "sys_inv c (s', d')" "completes s rs s' cbs" "took c s s'" by auto
  let ?f = "fold (\<lambda>cb. trace_callback) cbs f"
  let ?m = "m\<lparr>ms_clk := ms_clk m + 1, ms_dram := d', ms_ctrls := [(c, s')]\<rparr>"
  have mt: "mem_tick (sp_ctrl D) (dr_tick D) m = Some (?m, cbs)" using mem_tick_single [OF s(1) t(1)] .
  have f: "ft_trace ?f = tr" "ft_idx ?f = ft_idx f" "ft_req_id ?f = ft_req_id f" "ft_issued ?f = ft_issued f"
    "ft_completed ?f = ft_completed f + length rs"
    using s(3) all_called_back [OF t(3) s(9)] by (simp_all add: fold_callbacks)
  have p: "pending s = rs @ pending s'" "st_completed (cs_stats s') = st_completed (cs_stats s) + int (length rs)"
    using t(3) by (simp_all add: completes_def)
  have q: "set (cs_queue s') \<subseteq> set (cs_queue s)"
    using t(4) by (auto simp: took_def split: if_splits dest: list.set_sel(2))
  have "length (cs_queue s) \<le> ft_idx f" using s(7) by (simp add: pending_def)
  then have "pm_enable_functional c \<longrightarrow> fn_current_sq (cs_fn s') = min (int (ft_idx f - length (cs_queue s'))) (pm_seq_len c)"
    using took_functional [OF t(4) _ s(10)] s(2,11) by (simp add: sys_inv_def)
  then have "sim_inv c tr (?f, ?m)"
    using t(2) f p q s(4-10) by (auto simp: sim_inv_def)
  moreover have "(sim_work (?f, ?m), sim_work (f, m)) \<in> less_work \<or>
      sim_work (?f, ?m) = sim_work (f, m) \<and> pending (snd (hd (ms_ctrls m))) = []"
  proof (cases "cs_ops s \<noteq> [] \<or> cs_queue s \<noteq> []")
    case True
    from tick_less [OF s(2) _ t(1)] True have "(work (s', d'), work (s, ?d)) \<in> less_work" by simp
    then have "(sim_work (?f, ?m), sim_work (f, m)) \<in> less_work"
      by (rule sim_work_less [OF _ s(1) refl]) (use f s(3) in simp_all)
    then show ?thesis ..
  next
    case False
    then have idle: "cs_ops s = []" "cs_queue s = []" by auto
    then have "s' = s\<lparr>cs_clk := cs_clk s + 1\<rparr>"
      using t(1) by (auto simp: sys_tick_def sp_tick_def next_request_def run_op_def)
    then have "sim_work (?f, ?m) = sim_work (f, m)"
      using f s(1,3) idle by (simp add: sim_work_def work_def op_wait_def)
    with idle s(1) show ?thesis by (simp add: pending_def)
  qed
  ultimately show ?thesis using mt by blast
qed

text \<open>A tick of the frontend: a token is sent, or the queue is full, or all are sent.\<close>

lemma sim_front_tick:
  assumes inv: "sim_inv c tr (f, m)" and map: "to_channel_0 mapper" and size: "1 \<le> u64 (pm_queue_size c)"
  shows "\<exists>f' m'. trace_tick (mem_send (sp_ctrl D) mapper) (f, m) = Some (f', m') \<and> sim_inv c tr (f', m') \<and>
    ((sim_work (f', m'), sim_work (f, m)) \<in> less_work \<or>
     sim_work (f', m') = sim_work (f, m) \<and> (ft_idx f' = length tr \<or> pending (snd (hd (ms_ctrls m'))) \<noteq> []))"
proof -
  from inv obtain s where s: "ms_ctrls m = [(c, s)]" "sys_inv c (s, ms_dram m)" "ft_trace f = tr" "ft_idx f \<le> length tr"
    "ft_req_id f = sc_req_sparepim c" "ft_issued f = ft_idx f" "ft_idx f = ft_completed f + length (pending s)"
    "st_completed (cs_stats s) = int (ft_completed f)"
    "\<forall>r \<in> set (pending s). rq_callback r \<noteq> None" "\<forall>r \<in> set (cs_queue s). rq_type r = sc_req_sparepim c"
    "pm_enable_functional c \<longrightarrow> fn_current_sq (cs_fn s) = min (int (ft_idx f - length (cs_queue s))) (pm_seq_len c)"
    unfolding sim_inv_def by auto
  show ?thesis
  proof (cases "ft_idx f = length tr")
    case True
    then show ?thesis using inv s(3) by (auto simp: trace_tick_def)
  next
    case False
    then have lt: "ft_idx f < length tr" using s(4) by simp
    let ?r = "token_request (ft_req_id f) (tr ! ft_idx f)"
    obtain av where av: "mapper (rq_addr ?r) (rq_addr_vec ?r) = Some av" "vec_at av 0 = Some 0"
      using map unfolding to_channel_0_def by blast
    let ?r' = "?r\<lparr>rq_addr_vec := av\<rparr>"
    have type: "rq_type ?r' = sc_req_sparepim c" "rq_callback ?r' = Some 0"
      using s(5) by (simp_all add: token_request_def request_src_def)
    then have req: "request_ok D valid c (ms_dram m) ?r'" by (simp add: request_ok_def)
    obtain b s' where s': "sp_send c ?r' s = (b, s')" by fastforce
    note send = send_ok [OF s(2) req s']
    from mem_send_single [where r = ?r and mapper = mapper, OF s(1) av s'] obtain m' where
      m': "mem_send (sp_ctrl D) mapper ?r m = Some (b, m')" "ms_ctrls m' = [(c, s')]" "ms_dram m' = ms_dram m" by blast
    let ?f = "if b then f\<lparr>ft_idx := ft_idx f + 1, ft_issued := ft_issued f + 1\<rparr> else f"
    have tick: "trace_tick (mem_send (sp_ctrl D) mapper) (f, m) = Some (?f, m')"
      using lt s(3) m'(1) by (simp add: trace_tick_def)
    have q: "cs_ops s' = cs_ops s" "cs_fn s' = cs_fn s" "cs_queue s' = cs_queue s @ (if b then [?r'\<lparr>rq_arrive := cs_clk s\<rparr>] else [])"
      "cs_delay_active s' = cs_delay_active s" "cs_delay_done_clk s' = cs_delay_done_clk s" "cs_clk s' = cs_clk s"
      using s' type by (auto simp: sp_send_def reject_def upd_stats_def Let_def split: if_splits)
    have "sim_inv c tr (?f, m')"
      using send(1-3) m'(2,3) s(3-11) lt q type by (auto simp: sim_inv_def)
    moreover have "(sim_work (?f, m'), sim_work (f, m)) \<in> less_work \<or>
      sim_work (?f, m') = sim_work (f, m) \<and> (ft_idx ?f = length tr \<or> pending (snd (hd (ms_ctrls m'))) \<noteq> [])"
    proof (cases b)
      case True
      have "2 * (length tr - (ft_idx f + 1)) + (length (cs_queue s) + 1) < 2 * (length tr - ft_idx f) + length (cs_queue s)"
        using lt by simp
      then show ?thesis using True q s(1,3) m'(2,3) by (simp add: sim_work_def work_def less_work_def)
    next
      case False
      then have "queue_full c s" using s' type by (auto simp: sp_send_def Let_def split: if_splits)
      then have "cs_queue s \<noteq> []" using size by (auto simp: queue_full_def)
      moreover have "sim_work (?f, m') = sim_work (f, m)"
        using False q op_wait_same [OF q(1,4-6)] s(1,3) m'(2,3) by (simp add: sim_work_def work_def)
      ultimately show ?thesis using m'(2) q(3) by (simp add: pending_def)
    qed
    ultimately show ?thesis using tick by blast
  qed
qed

lemma not_finished:
  assumes "sim_inv c tr (f, m)" "\<not> trace_is_finished f"
  shows "ft_idx f < length tr \<or> pending (snd (hd (ms_ctrls m))) \<noteq> []"
  using assms by (auto simp: sim_inv_def trace_is_finished_def)

definition sim_le :: "spare_trace \<times> (sp_cfg \<times> sp_state, 'd) mem_sys \<Rightarrow> spare_trace \<times> (sp_cfg \<times> sp_state, 'd) mem_sys \<Rightarrow> bool" where
  "sim_le x y \<longleftrightarrow> sim_work x = sim_work y \<or> (sim_work x, sim_work y) \<in> less_work"

lemma less_work_trans: "(a, b) \<in> less_work \<Longrightarrow> (b, c) \<in> less_work \<Longrightarrow> (a, c) \<in> less_work"
proof -
  have "trans less_work" by (simp add: less_work_def trans_less_than)
  then show "(a, b) \<in> less_work \<Longrightarrow> (b, c) \<in> less_work \<Longrightarrow> (a, c) \<in> less_work" by (rule transD)
qed

lemma sim_le_refl: "sim_le x x"
  by (simp add: sim_le_def)

lemma sim_le_trans: "sim_le x y \<Longrightarrow> sim_le y z \<Longrightarrow> sim_le x z"
  unfolding sim_le_def by (metis less_work_trans)

lemma sim_le_less: "sim_le x y \<Longrightarrow> (sim_work y, sim_work z) \<in> less_work \<Longrightarrow> (sim_work x, sim_work z) \<in> less_work"
  unfolding sim_le_def by (metis less_work_trans)

lemma sim_less_le: "(sim_work x, sim_work y) \<in> less_work \<Longrightarrow> sim_le y z \<Longrightarrow> (sim_work x, sim_work z) \<in> less_work"
  unfolding sim_le_def by (metis less_work_trans)

text \<open>An iteration keeps the invariant and makes no work; one in which both parts tick makes progress.\<close>

lemma sim_iter_ok:
  assumes inv: "sim_inv c tr fm" and map: "to_channel_0 mapper" and size: "1 \<le> u64 (pm_queue_size c)"
    and ratio: "1 \<le> ft" "1 \<le> mt"
  shows "\<exists>b fm'. sim_iter (trace_sim D mapper) ft mt i fm = Some (b, fm') \<and> sim_inv c tr fm' \<and> sim_le fm' fm \<and>
    (b \<longrightarrow> trace_is_finished (fst fm')) \<and>
    (\<not> b \<and> i mod (ft * mt) = 0 \<longrightarrow> (sim_work fm', sim_work fm) \<in> less_work)"
proof -
  obtain f m where fm: "fm = (f, m)" by fastforce
  let ?tm = "ft * mt"
  have front: "\<exists>f1 m1. (if i mod ?tm mod mt = 0 then trace_tick (mem_send (sp_ctrl D) mapper) (f, m) else Some (f, m)) = Some (f1, m1) \<and>
      sim_inv c tr (f1, m1) \<and> sim_le (f1, m1) fm \<and>
      (i mod ?tm mod mt = 0 \<longrightarrow> (sim_work (f1, m1), sim_work fm) \<in> less_work \<or>
         ft_idx f1 = length tr \<or> pending (snd (hd (ms_ctrls m1))) \<noteq> [])"
  proof (cases "i mod ?tm mod mt = 0")
    case True
    with sim_front_tick [OF inv [unfolded fm] map size] show ?thesis by (auto simp: fm sim_le_def)
  next
    case False
    with inv show ?thesis by (auto simp: fm sim_le_refl)
  qed
  then obtain f1 m1 where 1: "(if i mod ?tm mod mt = 0 then trace_tick (mem_send (sp_ctrl D) mapper) (f, m) else Some (f, m)) = Some (f1, m1)"
    "sim_inv c tr (f1, m1)" "sim_le (f1, m1) fm"
    "i mod ?tm mod mt = 0 \<longrightarrow> (sim_work (f1, m1), sim_work fm) \<in> less_work \<or> ft_idx f1 = length tr \<or>
       pending (snd (hd (ms_ctrls m1))) \<noteq> []" by (elim exE conjE) (rule that)
  have tm: "?tm \<noteq> 0" using ratio by simp
  have front: "(if i mod ?tm mod mt = 0 then so_tick (trace_sim D mapper) fm else Some fm) = Some (f1, m1)"
    using 1(1) by (simp only: fm trace_sim_simps)
  note iter = sim_iter_eq [OF front tm]
  show ?thesis
  proof (cases "trace_is_finished f1")
    case True
    then have "sim_iter (trace_sim D mapper) ft mt i fm = Some (True, f1, m1)"
      by (simp add: iter)
    with True 1(2,3) show ?thesis by (intro exI [of _ True] exI [of _ "(f1, m1)"]) simp
  next
    case False
    show ?thesis
    proof (cases "i mod ?tm mod ft = 0")
      case mem: True
      from sim_mem_tick [OF 1(2)] obtain m2 cbs where
        2: "mem_tick (sp_ctrl D) (dr_tick D) m1 = Some (m2, cbs)" "sim_inv c tr (fold (\<lambda>cb. trace_callback) cbs f1, m2)"
        "(sim_work (fold (\<lambda>cb. trace_callback) cbs f1, m2), sim_work (f1, m1)) \<in> less_work \<or>
         sim_work (fold (\<lambda>cb. trace_callback) cbs f1, m2) = sim_work (f1, m1) \<and> pending (snd (hd (ms_ctrls m1))) = []" by blast
      let ?fm = "(fold (\<lambda>cb. trace_callback) cbs f1, m2)"
      have run: "sim_iter (trace_sim D mapper) ft mt i fm = Some (False, ?fm)"
        using 2(1) False mem by (simp add: iter)
      have le: "sim_le ?fm (f1, m1)" using 2(3) by (auto simp: sim_le_def)
      have "(sim_work ?fm, sim_work fm) \<in> less_work" if "i mod ?tm = 0"
      proof (cases "(sim_work ?fm, sim_work (f1, m1)) \<in> less_work")
        case True
        from sim_less_le [OF this 1(3)] show ?thesis .
      next
        case no: False
        then have "pending (snd (hd (ms_ctrls m1))) = []" using 2(3) by blast
        with not_finished [OF 1(2) False] 1(2,4) that have "(sim_work (f1, m1), sim_work fm) \<in> less_work"
          by (auto simp: sim_inv_def)
        with sim_le_less [OF le] show ?thesis .
      qed
      with run 2(2) sim_le_trans [OF le 1(3)] show ?thesis by (intro exI [of _ False] exI [of _ ?fm]) simp
    next
      case no: False
      then have "sim_iter (trace_sim D mapper) ft mt i fm = Some (False, f1, m1)"
        using False by (simp add: iter)
      moreover have "i mod ?tm \<noteq> 0" using no by (metis mod_0)
      ultimately show ?thesis using 1(2,3) by (intro exI [of _ False] exI [of _ "(f1, m1)"]) simp
    qed
  qed
qed

lemma sim_run_ok:
  assumes "sim_inv c tr fm" "to_channel_0 mapper" "1 \<le> u64 (pm_queue_size c)" "1 \<le> ft" "1 \<le> mt"
  shows "\<exists>b fm'. sim_loop (trace_sim D mapper) ft mt n i fm = Some (b, fm') \<and> sim_inv c tr fm' \<and> sim_le fm' fm \<and>
    (b \<longrightarrow> trace_is_finished (fst fm'))"
  using assms(1)
proof (induction n arbitrary: i fm)
  case 0
  then show ?case by (auto simp: sim_le_refl)
next
  case (Suc n)
  from sim_iter_ok [OF Suc.prems assms(2-5), of i] obtain b fm1 where
    1: "sim_iter (trace_sim D mapper) ft mt i fm = Some (b, fm1)" "sim_inv c tr fm1" "sim_le fm1 fm"
      "b \<longrightarrow> trace_is_finished (fst fm1)" by blast
  from Suc.IH [OF 1(2), of "i + 1"] obtain b2 fm2 where
    2: "sim_loop (trace_sim D mapper) ft mt n (i + 1) fm1 = Some (b2, fm2)" "sim_inv c tr fm2" "sim_le fm2 fm1"
      "b2 \<longrightarrow> trace_is_finished (fst fm2)" by blast
  from 1 2 sim_le_trans [OF 2(3) 1(3)] show ?case by (cases b) auto
qed

text \<open>The loop ends.\<close>

lemma sim_terminates:
  assumes "sim_inv c tr fm" "i mod (ft * mt) = 0"
    and hyps: "to_channel_0 mapper" "1 \<le> u64 (pm_queue_size c)" "1 \<le> ft" "1 \<le> mt"
  shows "\<exists>n fm'. sim_loop (trace_sim D mapper) ft mt n i fm = Some (True, fm') \<and> sim_inv c tr fm' \<and> trace_is_finished (fst fm')"
  using assms(1,2)
proof (induction fm arbitrary: i rule: wf_induct_rule [OF wf_inv_image [OF wf_less_work, of sim_work]])
  case (1 fm)
  let ?tm = "ft * mt" and ?S = "trace_sim D mapper"
  from sim_iter_ok [OF 1(2) hyps, of i] 1(3) obtain b fm1 where
    i: "sim_iter ?S ft mt i fm = Some (b, fm1)" "sim_inv c tr fm1" "b \<longrightarrow> trace_is_finished (fst fm1)"
      "\<not> b \<longrightarrow> (sim_work fm1, sim_work fm) \<in> less_work" by blast
  show ?case
  proof (cases b)
    case True
    then have "sim_loop ?S ft mt 1 i fm = Some (True, fm1)" using i(1) by simp
    with True i show ?thesis by blast
  next
    case False
    from sim_run_ok [OF i(2) hyps, of "?tm - 1" "i + 1"] obtain b2 fm2 where
      r: "sim_loop ?S ft mt (?tm - 1) (i + 1) fm1 = Some (b2, fm2)" "sim_inv c tr fm2" "sim_le fm2 fm1"
        "b2 \<longrightarrow> trace_is_finished (fst fm2)" by blast
    have tm: "Suc (?tm - 1) = ?tm" using hyps(3,4) by simp
    have loop: "sim_loop ?S ft mt ?tm i fm = Some (b2, fm2)"
      using i(1) r(1) False by (subst tm [symmetric]) simp
    show ?thesis
    proof (cases b2)
      case True
      then have "sim_loop ?S ft mt ?tm i fm = Some (True, fm2)" "trace_is_finished (fst fm2)" using loop r(4) by simp_all
      with r(2) show ?thesis by blast
    next
      case b2: False
      have "(sim_work fm2, sim_work fm) \<in> less_work" using sim_le_less [OF r(3)] i(4) False by blast
      then have less: "(fm2, fm) \<in> inv_image less_work sim_work" by (simp add: in_inv_image)
      have "(i + ?tm) mod ?tm = 0" using 1(3) by simp
      from 1(1) [OF less r(2) this] obtain n fm3 where "sim_loop ?S ft mt n (i + ?tm) fm2 = Some (True, fm3)"
        "sim_inv c tr fm3" "trace_is_finished (fst fm3)" by blast
      moreover have "sim_loop ?S ft mt (?tm + n) i fm = sim_loop ?S ft mt n (i + ?tm) fm2"
        using loop b2 by (intro sim_loop_add) simp
      ultimately show ?thesis by metis
    qed
  qed
qed

end

end
