(* ===== verification/Pim_Log.thy ===== *)
theory Pim_Log
  imports Simulation
begin

text \<open>
  The commands that are issued. \<open>recording ob D\<close> is the device \<open>D\<close> with a list to which every issued command is
  added, as \<open>ob\<close> sees it; nothing reads the list, so a controller, a memory system and the main loop run on it
  exactly as on \<open>D\<close> (the \<open>forget\<close> lemmas). A property of the list in a run is a property of exactly the
  commands that run has issued.
\<close>

section \<open>The recording device\<close>

definition recording :: "('d \<Rightarrow> int \<Rightarrow> addr_vec \<Rightarrow> 'r) \<Rightarrow> 'd dram_ops \<Rightarrow> ('d \<times> 'r list) dram_ops" where
  "recording ob D = \<lparr>
     dr_ready = (\<lambda>x. dr_ready D (fst x)),
     dr_issue = (\<lambda>x cmd av. map_option (\<lambda>d'. (d', ob (fst x) cmd av # snd x)) (dr_issue D (fst x) cmd av)),
     dr_notify = (\<lambda>x key v. map_option (\<lambda>d'. (d', snd x)) (dr_notify D (fst x) key v)),
     dr_timing = (\<lambda>x. dr_timing D (fst x)),
     dr_translate = (\<lambda>x. dr_translate D (fst x)),
     dr_tick = (\<lambda>x. (dr_tick D (fst x), snd x))\<rparr>"

lemma recording_simps [simp]:
  "dr_ready (recording ob D) x = dr_ready D (fst x)"
  "dr_issue (recording ob D) x cmd av = map_option (\<lambda>d'. (d', ob (fst x) cmd av # snd x)) (dr_issue D (fst x) cmd av)"
  "dr_notify (recording ob D) x key v = map_option (\<lambda>d'. (d', snd x)) (dr_notify D (fst x) key v)"
  "dr_timing (recording ob D) x = dr_timing D (fst x)" "dr_translate (recording ob D) x = dr_translate D (fst x)"
  "dr_tick (recording ob D) x = (dr_tick D (fst x), snd x)"
  by (simp_all add: recording_def)

lemma recording_ticks: "(dr_tick (recording ob D) ^^ n) x = ((dr_tick D ^^ n) (fst x), snd x)"
  by (induction n) simp_all

section \<open>The controller runs on it as on the device\<close>

lemma forget_expand: "expand_request (recording ob D) x c r s = expand_request D (fst x) c r s"
  by (simp add: expand_request_def expand_sparepim_token_def expand_direct_request_def direct_command_def
      enqueue_bgmu_read_delay_def bgmu_read_latency_def)

lemma forget_issue: "issue_if_ready D c op (s, fst x) = map_option (apsnd fst) (issue_if_ready (recording ob D) c op (s, x))"
  by (cases "dr_ready D (fst x) (op_command op) (op_addr_vec op)"; cases "dr_issue D (fst x) (op_command op) (op_addr_vec op)")
    (simp_all add: issue_if_ready_def)

lemma forget_run_op: "run_op D c (s, fst x) = map_option (apfst (apsnd fst)) (run_op (recording ob D) c (s, x))"
proof (cases "cs_ops s")
  case (Cons op ops)
  show ?thesis
  proof (cases "op_kind op")
    case Command
    then show ?thesis using Cons forget_issue [of D c op s x ob]
      by (cases "issue_if_ready (recording ob D) c op (s, x)") (simp_all add: run_op_def)
  next
    case ConfigureSPM
    then show ?thesis using Cons
      by (cases "dr_notify D (fst x) ''sparepim_spm_latency'' (op_cycles op)") (simp_all add: run_op_def)
  qed (use Cons in \<open>simp_all add: run_op_def split: prod.split\<close>)
qed (simp add: run_op_def)

lemma forget_next: "next_request D c (s, fst x) = map_option (apsnd fst) (next_request (recording ob D) c (s, x))"
proof (cases "cs_queue s")
  case (Cons r rest)
  then show ?thesis
    by (cases "expand_request D (fst x) c r (s\<lparr>cs_queue := rest\<rparr>)") (simp_all add: next_request_def forget_expand)
qed (simp add: next_request_def)

lemma forget_tick: "sp_tick D c (s, fst x) = map_option (apfst (apsnd fst)) (sp_tick (recording ob D) c (s, x))"
proof (cases "next_request (recording ob D) c (s\<lparr>cs_clk := cs_clk s + 1\<rparr>, x)")
  case (Some y)
  obtain s' x' where y: "y = (s', x')" by (cases y)
  have "next_request D c (s\<lparr>cs_clk := cs_clk s + 1\<rparr>, fst x) = Some (s', fst x')"
    unfolding forget_next [of D c _ x ob] Some y by simp
  with Some y show ?thesis by (simp add: sp_tick_def forget_run_op [of D c s' x' ob])
next
  case None
  then show ?thesis by (simp add: sp_tick_def forget_next [of D c _ x ob])
qed

lemma forget_event:
  "sys_event D c e (s, fst x) = map_option (apfst (apsnd fst)) (sys_event (recording ob D) c e (s, x))"
proof (cases e)
  case EvTick
  then show ?thesis using forget_tick [of D c s "(dr_tick D (fst x), snd x)" ob]
    by (cases "sp_tick (recording ob D) c (s, dr_tick D (fst x), snd x)") (simp_all add: sys_event_def sys_tick_def split: prod.splits)
qed (simp_all add: sys_event_def split: prod.split)

lemma forget_events:
  "sys_events D c es (s, fst x) = map_option (apfst (apsnd fst)) (sys_events (recording ob D) c es (s, x))"
proof (induction es arbitrary: s x)
  case (Cons e es)
  show ?case
  proof (cases "sys_event (recording ob D) c e (s, x)")
    case None
    then show ?thesis using forget_event [of D c e s x ob] by simp
  next
    case (Some y)
    obtain s1 x1 acc cbs where y: "y = ((s1, x1), acc, cbs)" by (metis prod_cases3 surj_pair)
    have "sys_event D c e (s, fst x) = Some ((s1, fst x1), acc, cbs)"
      unfolding forget_event [of D c e s x ob] Some y by simp
    with Some y Cons [of s1 x1] show ?thesis
      by (cases "sys_events (recording ob D) c es (s1, x1)") (simp_all split: prod.splits)
  qed
qed simp

section \<open>The memory system and the main loop\<close>

definition forget :: "('c, 'd \<times> 'r) mem_sys \<Rightarrow> ('c, 'd) mem_sys" where
  "forget m = \<lparr>ms_clk = ms_clk m, ms_dram = fst (ms_dram m), ms_ctrls = ms_ctrls m, ms_reads = ms_reads m,
     ms_writes = ms_writes m, ms_others = ms_others m\<rparr>"

lemma forget_send:
  "mem_send (sp_ctrl D) mapper r (forget m) =
     map_option (apsnd forget) (mem_send (sp_ctrl (recording ob D)) mapper r m)"
proof (cases "mapper (rq_addr r) (rq_addr_vec r)")
  case None
  then show ?thesis by (simp add: mem_send_def)
next
  case (Some av)
  show ?thesis
  proof (cases "Option.bind (vec_at av 0) (vec_at (ms_ctrls m))")
    case None
    then have "vec_at av 0 = None \<or> (\<exists>ch. vec_at av 0 = Some ch \<and> vec_at (ms_ctrls m) ch = None)"
      by (cases "vec_at av 0") auto
    with Some show ?thesis by (auto simp: mem_send_def forget_def)
  next
    case k: (Some k)
    then obtain ch where ch: "vec_at av 0 = Some ch" "vec_at (ms_ctrls m) ch = Some k" by (cases "vec_at av 0") auto
    with Some show ?thesis
      by (simp add: mem_send_def forget_def sp_ctrl_def count_request_def Let_def split: prod.split)
  qed
qed

lemma forget_controllers:
  "tick_controllers (sp_ctrl D) cs (fst x) =
     map_option (apfst (apsnd fst)) (tick_controllers (sp_ctrl (recording ob D)) cs x)"
proof (induction cs arbitrary: x)
  case (Cons k cs)
  obtain c s where k: "k = (c, s)" by (cases k)
  show ?case
  proof (cases "sp_tick (recording ob D) c (s, x)")
    case None
    then show ?thesis by (simp add: k forget_tick [of D c s x ob])
  next
    case (Some y)
    obtain s1 x1 cbs where y: "y = ((s1, x1), cbs)" by (metis surj_pair)
    have "sp_tick D c (s, fst x) = Some ((s1, fst x1), cbs)" unfolding forget_tick [of D c s x ob] Some y by simp
    with Some y Cons [of x1] show ?thesis
      by (cases "tick_controllers (sp_ctrl (recording ob D)) cs x1") (simp_all add: k split: prod.splits)
  qed
qed simp

lemma forget_mem_tick:
  "mem_tick (sp_ctrl D) (dr_tick D) (forget m) =
     map_option (apfst forget) (mem_tick (sp_ctrl (recording ob D)) (dr_tick (recording ob D)) m)"
  using forget_controllers [of D "ms_ctrls m" "(dr_tick D (fst (ms_dram m)), snd (ms_dram m))" ob]
  by (cases "tick_controllers (sp_ctrl (recording ob D)) (ms_ctrls m) (dr_tick D (fst (ms_dram m)), snd (ms_dram m))")
    (simp_all add: mem_tick_def forget_def split: prod.splits)

lemma forget_front:
  "trace_tick (mem_send (sp_ctrl D) mapper) (f, forget m) =
     map_option (apsnd forget) (trace_tick (mem_send (sp_ctrl (recording ob D)) mapper) (f, m))"
  by (simp add: trace_tick_def forget_send [of D mapper _ m ob] bind_map_option map_option_bind split: prod.split)
    (auto simp: bind_map_option map_option_bind split: bind_split)

lemma forget_iter:
  "sim_iter (trace_sim D mapper) ft mt i (f, forget m) =
     map_option (apsnd (apsnd forget)) (sim_iter (trace_sim (recording ob D) mapper) ft mt i (f, m))"
proof -
  let ?R = "recording ob D"
  have front: "(if b then trace_tick (mem_send (sp_ctrl D) mapper) (f, forget m) else Some (f, forget m)) =
      map_option (apsnd forget) (if b then trace_tick (mem_send (sp_ctrl ?R) mapper) (f, m) else Some (f, m))" for b
    by (simp add: forget_front [of D mapper f m ob])
  show ?thesis
  proof (cases "if i mod (ft * mt) mod mt = 0 then trace_tick (mem_send (sp_ctrl ?R) mapper) (f, m) else Some (f, m)")
    case None
    then show ?thesis unfolding sim_iter_def Let_def trace_sim_simps front by simp
  next
    case (Some y)
    obtain f1 m1 where y: "y = (f1, m1)" by (cases y)
    show ?thesis unfolding sim_iter_def Let_def trace_sim_simps front Some y
      using forget_mem_tick [of D m1 ob]
      by (cases "mem_tick (sp_ctrl ?R) (dr_tick ?R) m1") (simp_all split: prod.splits)
  qed
qed

lemma forget_loop:
  "sim_loop (trace_sim D mapper) ft mt n i (f, forget m) =
     map_option (apsnd (apsnd forget)) (sim_loop (trace_sim (recording ob D) mapper) ft mt n i (f, m))"
proof (induction n arbitrary: i f m)
  case (Suc n)
  show ?case
  proof (cases "sim_iter (trace_sim (recording ob D) mapper) ft mt i (f, m)")
    case None
    then show ?thesis by (simp add: forget_iter [of D mapper ft mt i f m ob])
  next
    case (Some y)
    obtain b f1 m1 where y: "y = (b, f1, m1)" by (metis surj_pair)
    have "sim_iter (trace_sim D mapper) ft mt i (f, forget m) = Some (b, f1, forget m1)"
      unfolding forget_iter [of D mapper ft mt i f m ob] Some y by simp
    with Some y Suc show ?thesis by simp
  qed
qed simp

section \<open>What a device provides, its recording provides\<close>

lemma forget_direct_command: "direct_command (recording ob D) x c ty = direct_command D (fst x) c ty"
  by (simp add: direct_command_def)

lemma forget_request_ok: "request_ok (recording ob D) (\<lambda>x. valid (fst x)) c x r = request_ok D valid c (fst x) r"
  by (simp add: request_ok_def forget_direct_command)

lemma forget_latency: "bgmu_read_latency (recording ob D) x n = bgmu_read_latency D (fst x) n"
  by (simp add: bgmu_read_latency_def)

text \<open>\<open>lg d log\<close> is any relation of the device and the recorded commands that every operation of the controller keeps.\<close>

context pim_dram
begin

lemma recording_pim_dram:
  assumes tick: "\<And>c d l. ok c d \<Longrightarrow> lg d l \<Longrightarrow> lg (dr_tick D d) l"
    and issue: "\<And>c d l cmd av d'. ok c d \<Longrightarrow> lg d l \<Longrightarrow> dr_ready D d cmd av = Some True \<Longrightarrow>
      dr_issue D d cmd av = Some d' \<Longrightarrow> lg d' (ob d cmd av # l)"
    and notify: "\<And>c d l key v d'. ok c d \<Longrightarrow> lg d l \<Longrightarrow> dr_notify D d key v = Some d' \<Longrightarrow> lg d' l"
  shows "pim_dram (recording ob D) (\<lambda>c x. ok c (fst x) \<and> lg (fst x) (snd x)) (\<lambda>x. valid (fst x))"
proof (intro pim_dram.intro, goal_cases)
  case (1 c d)
  then show ?case using cfg by blast
next
  case (2 c d cmd av)
  then show ?case using ready_total [of c "fst d"] by simp
next
  case (3 c d cmd av)
  then show ?case using issue_total by fastforce
next
  case (4 c d key x)
  then show ?case using notify_total by fastforce
next
  case (5 c d n)
  then show ?case using timing_total [of c "fst d" n] by (simp add: forget_latency)
next
  case (6 c d)
  then show ?case using ok_tick [of c "fst d"] tick [of c "fst d"] by simp
next
  case (7 c d cmd av d')
  then show ?case using ok_issue [of c "fst d" cmd av] issue [of c "fst d" "snd d" cmd av] by auto
next
  case (8 c d key x d')
  then show ?case using ok_notify [of c "fst d" key x] notify [of c "fst d" "snd d" key x] by auto
next
  case (9 c d)
  then show ?case using same_tick [of c "fst d"] by simp
next
  case (10 c d cmd av d')
  then show ?case using same_issue [of c "fst d" cmd av] by auto
next
  case (11 c d key x d')
  then show ?case using same_notify [of c "fst d" key x] by auto
next
  case (12 c d av cmd p g b)
  then show ?case using bank_valid by blast
next
  case (13 c d cmd av)
  then show ?case using wait [of c "fst d" cmd av] by (simp add: recording_ticks)
qed

end

end
