(* ===== verification/Dram_Node.thy ===== *)
theory Dram_Node
  imports Dram_Spec
begin

text \<open>
  The device tree of a DRAM channel (\<open>src/dram/node.h\<close>) and the functions a standard hangs on
  it (\<open>src/dram/lambdas/\<close>). A node is its fields and its children; the \<open>std::function\<close> matrices
  of a standard hold names of the lambda templates (\<open>action_fn\<close>, \<open>preq_fn\<close>, \<open>rowhit_fn\<close>,
  \<open>rowopen_fn\<close>) and \<open>run_action\<close>, \<open>run_preq\<close>, ... are the templates' bodies. Methods that
  read an address vector or pick a child return \<open>None\<close> where the C++ would index out of range,
  call an empty static assertion or leave the process.
\<close>

section \<open>Nodes\<close>

datatype node_state = Opened | Closed | PowerUp | NA | Refreshing

record node_info =
  nd_level :: int
  nd_id :: int
  nd_state :: node_state
  nd_ready :: "int list"
  nd_hist :: "int list list"
  nd_rows :: "int \<rightharpoonup> node_state"

datatype dnode = Node (nd: node_info) (kids: "dnode list")

fun node_count :: "dnode \<Rightarrow> nat" where
  "node_count (Node d cs) = Suc (sum_list (map node_count cs))"

section \<open>The functions of a standard\<close>

datatype action_fn =
    Bank_ACT | Bank_PRE | Bank_VRR | Bank_VRR_end
  | BankGroup_PREsb | BankGroup_REFsb | BankGroup_REFsb_end
  | Rank_PREab | Rank_REFab | Rank_REFab_end
  | Channel_PREab

datatype preq_fn =
    Bank_RequireRowOpen | Bank_RequireBankClosed
  | Rank_RequireAllBanksClosed | Rank_RequireSameBanksClosed
  | Channel_RequireAllBanksClosed

datatype rowhit_fn = RowHit_RDWR

datatype rowopen_fn = RowOpen_RDWR

record dram_spec =
  ds_levels :: name_table
  ds_commands :: name_table
  ds_scopes :: "int list"
  ds_init_states :: "node_state list"
  ds_count :: "int list"
  ds_timing_cons :: timing_cons
  ds_actions :: "action_fn option list list"
  ds_preqs :: "preq_fn option list list"
  ds_rowhits :: "rowhit_fn option list list"
  ds_rowopens :: "rowopen_fn option list list"

definition mat_at :: "'a list list \<Rightarrow> int \<Rightarrow> int \<Rightarrow> 'a option" where
  "mat_at m i j = Option.bind (vec_at m i) (\<lambda>row. vec_at row j)"

definition level_gap :: "dram_spec \<Rightarrow> string \<Rightarrow> string \<Rightarrow> int option" where
  "level_gap sp lo hi = do { l \<leftarrow> impl_id (ds_levels sp) lo; h \<leftarrow> impl_id (ds_levels sp) hi; Some (l - h) }"

section \<open>Actions\<close>

definition close_bank :: "node_info \<Rightarrow> node_info" where
  "close_bank d = d\<lparr>nd_state := Closed, nd_rows := Map.empty\<rparr>"

fun map_depth :: "nat \<Rightarrow> (node_info \<Rightarrow> node_info) \<Rightarrow> dnode \<Rightarrow> dnode" where
  "map_depth 0 f (Node d cs) = Node (f d) cs"
| "map_depth (Suc k) f (Node d cs) = Node d (map (map_depth k f) cs)"

fun run_action :: "dram_spec \<Rightarrow> action_fn \<Rightarrow> int \<Rightarrow> dnode \<Rightarrow> dnode option" where
  "run_action sp Bank_ACT target n =
     Some (map_depth 0 (\<lambda>d. d\<lparr>nd_state := Opened, nd_rows := (nd_rows d)(target \<mapsto> Opened)\<rparr>) n)"
| "run_action sp Bank_PRE target n = Some (map_depth 0 close_bank n)"
| "run_action sp Bank_VRR target n = Some (map_depth 0 (\<lambda>d. d\<lparr>nd_state := Refreshing\<rparr>) n)"
| "run_action sp Bank_VRR_end target n = Some (map_depth 0 (\<lambda>d. d\<lparr>nd_state := Closed\<rparr>) n)"
| "run_action sp BankGroup_PREsb target n =
     Some (map_depth 1 (\<lambda>d. if nd_id d = target then close_bank d else d) n)"
| "run_action sp BankGroup_REFsb target n =
     Some (map_depth 1 (\<lambda>d. if nd_id d = target then d\<lparr>nd_state := Refreshing\<rparr> else d) n)"
| "run_action sp BankGroup_REFsb_end target n =
     Some (map_depth 1 (\<lambda>d. if nd_id d = target then close_bank d else d) n)"
| "run_action sp Rank_PREab target n =
     (case level_gap sp ''bank'' ''rank'' of
        Some g \<Rightarrow> if g = 1 then Some (map_depth 1 close_bank n)
                  else if g = 2 then Some (map_depth 2 close_bank n) else None
      | None \<Rightarrow> None)"
| "run_action sp Rank_REFab target n = Some (map_depth 2 (\<lambda>d. d\<lparr>nd_state := Refreshing\<rparr>) n)"
| "run_action sp Rank_REFab_end target n = Some (map_depth 2 (\<lambda>d. d\<lparr>nd_state := Closed\<rparr>) n)"
| "run_action sp Channel_PREab target n =
     (case level_gap sp ''bank'' ''channel'' of
        Some g \<Rightarrow> if g = 2 then Some (map_depth 2 close_bank n)
                  else if g = 3 then Some (map_depth 3 close_bank n) else None
      | None \<Rightarrow> None)"

section \<open>Prerequisites, row hits, open rows\<close>

definition grandkids :: "dnode \<Rightarrow> dnode list" where
  "grandkids n = concat (map kids (kids n))"

definition node_state_of :: "dnode \<Rightarrow> node_state" where
  "node_state_of n = nd_state (nd n)"

text \<open>The loop of \<open>Rank::RequireAllBanksClosed\<close>, which the first bank that is not closed decides.\<close>

fun rank_all_closed :: "dram_spec \<Rightarrow> int \<Rightarrow> dnode list \<Rightarrow> int option" where
  "rank_all_closed sp cmd [] = Some cmd"
| "rank_all_closed sp cmd (b # bs) =
     (case node_state_of b of
        Closed \<Rightarrow> rank_all_closed sp cmd bs
      | Refreshing \<Rightarrow> Some cmd
      | _ \<Rightarrow> impl_id (ds_commands sp) ''PREA'')"

fun channel_all_closed :: "dram_spec \<Rightarrow> int \<Rightarrow> dnode list \<Rightarrow> int option" where
  "channel_all_closed sp cmd [] = Some cmd"
| "channel_all_closed sp cmd (b # bs) =
     (if node_state_of b = Closed then channel_all_closed sp cmd bs
      else impl_id (ds_commands sp) ''PREA'')"

fun run_preq :: "dram_spec \<Rightarrow> preq_fn \<Rightarrow> dnode \<Rightarrow> int \<Rightarrow> addr_vec \<Rightarrow> int option" where
  "run_preq sp Bank_RequireRowOpen n cmd av =
     (case node_state_of n of
        Closed \<Rightarrow> impl_id (ds_commands sp) ''ACT''
      | Opened \<Rightarrow> do {
          rl \<leftarrow> impl_id (ds_levels sp) ''row'';
          row \<leftarrow> vec_at av rl;
          if nd_rows (nd n) row \<noteq> None then Some cmd else impl_id (ds_commands sp) ''PRE'' }
      | Refreshing \<Rightarrow> impl_id (ds_commands sp) ''ACT''
      | _ \<Rightarrow> None)"
| "run_preq sp Bank_RequireBankClosed n cmd av =
     (case node_state_of n of
        Closed \<Rightarrow> Some cmd
      | Opened \<Rightarrow> impl_id (ds_commands sp) ''PRE''
      | Refreshing \<Rightarrow> Some cmd
      | _ \<Rightarrow> None)"
| "run_preq sp Rank_RequireAllBanksClosed n cmd av = do {
     g \<leftarrow> level_gap sp ''bank'' ''rank'';
     if g = 1 then rank_all_closed sp cmd (kids n)
     else if g = 2 then rank_all_closed sp cmd (grandkids n)
     else Some cmd }"
| "run_preq sp Rank_RequireSameBanksClosed n cmd av = do {
     bl \<leftarrow> impl_id (ds_levels sp) ''bank'';
     target \<leftarrow> vec_at av bl;
     if \<forall>b \<in> set (grandkids n). nd_id (nd b) = target \<longrightarrow> node_state_of b \<in> {Closed, Refreshing}
     then Some cmd else impl_id (ds_commands sp) ''PREsb'' }"
| "run_preq sp Channel_RequireAllBanksClosed n cmd av = do {
     g \<leftarrow> level_gap sp ''bank'' ''channel'';
     if g = 2 then channel_all_closed sp cmd (grandkids n)
     else if g = 3 then channel_all_closed sp cmd (concat (map grandkids (kids n)))
     else Some cmd }"

fun run_rowhit :: "rowhit_fn \<Rightarrow> dnode \<Rightarrow> int \<Rightarrow> bool option" where
  "run_rowhit RowHit_RDWR n target =
     (case node_state_of n of
        Closed \<Rightarrow> Some False
      | Opened \<Rightarrow> Some (nd_rows (nd n) target \<noteq> None)
      | Refreshing \<Rightarrow> Some False
      | _ \<Rightarrow> None)"

fun run_rowopen :: "rowopen_fn \<Rightarrow> dnode \<Rightarrow> int \<Rightarrow> bool option" where
  "run_rowopen RowOpen_RDWR n target =
     (case node_state_of n of
        Closed \<Rightarrow> Some False | Opened \<Rightarrow> Some True | Refreshing \<Rightarrow> Some False | _ \<Rightarrow> None)"

lemma node_count_pos [simp]: "0 < node_count n"
  by (cases n) simp

lemma node_count_child: "c \<in> set cs \<Longrightarrow> node_count c < node_count (Node d cs)"
  by (simp add: member_le_sum_list less_Suc_eq_le)

lemma node_count_map_depth [simp]: "node_count (map_depth k f n) = node_count n"
proof (induction k f n rule: map_depth.induct)
  case (1 f d cs)
  then show ?case by simp
next
  case (2 k f d cs)
  have *: "map (node_count \<circ> map_depth k f) cs = map node_count cs"
    using 2 by (intro map_cong) auto
  show ?case by (simp add: *)
qed

lemma node_count_run_action: "run_action sp a t n = Some n' \<Longrightarrow> node_count n' = node_count n"
  by (cases a) (auto split: option.splits if_splits)

section \<open>Construction\<close>

text \<open>
  The history window of a command at a level: the largest window of its constraints there.
\<close>

fun max_window :: "tcons_entry list \<Rightarrow> int" where
  "max_window [] = 0"
| "max_window (t # ts) = max (tc_window t) (max_window ts)"

definition init_hist :: "dram_spec \<Rightarrow> int \<Rightarrow> int list list" where
  "init_hist sp l = map (\<lambda>c. replicate (nat (max_window (ds_timing_cons sp ! nat l ! c))) (-1))
     [0..<length (ds_commands sp)]"

definition init_node :: "dram_spec \<Rightarrow> int \<Rightarrow> int \<Rightarrow> node_info" where
  "init_node sp l i =
     \<lparr>nd_level = l, nd_id = i, nd_state = ds_init_states sp ! nat l,
      nd_ready = replicate (length (ds_commands sp)) (-1),
      nd_hist = init_hist sp l, nd_rows = Map.empty\<rparr>"

text \<open>
  The recursion of the constructor stops when the next level is the row level; the first
  argument counts the levels between this one and the row level.
\<close>

fun build_node :: "dram_spec \<Rightarrow> nat \<Rightarrow> int \<Rightarrow> int \<Rightarrow> dnode" where
  "build_node sp 0 l i = Node (init_node sp l i) []"
| "build_node sp (Suc k) l i =
     Node (init_node sp l i)
       (map (\<lambda>j. build_node sp k (l + 1) (int j)) [0..<nat (ds_count sp ! nat (l + 1))])"

section \<open>Timing of a node\<close>

definition relax :: "int list \<Rightarrow> tcons_entry \<Rightarrow> clk \<Rightarrow> int list" where
  "relax rs t future = rs[nat (tc_cmd t) := max (rs ! nat (tc_cmd t)) future]"

fun sibling_timing :: "clk \<Rightarrow> tcons_entry list \<Rightarrow> int list \<Rightarrow> int list" where
  "sibling_timing now [] rs = rs"
| "sibling_timing now (t # ts) rs =
     sibling_timing now ts (if \<not> tc_sibling t then rs else relax rs t (now + tc_val t))"

fun target_timing :: "int list \<Rightarrow> tcons_entry list \<Rightarrow> int list \<Rightarrow> int list" where
  "target_timing h [] rs = rs"
| "target_timing h (t # ts) rs =
     target_timing h ts
       (if tc_sibling t then rs
        else let past = h ! nat (tc_window t - 1)
             in if past < 0 then rs else relax rs t (past + tc_val t))"

definition push_hist :: "clk \<Rightarrow> int list \<Rightarrow> int list" where
  "push_hist now h = (if h = [] then h else now # butlast h)"

definition node_sibling :: "tcons_entry list \<Rightarrow> clk \<Rightarrow> node_info \<Rightarrow> node_info" where
  "node_sibling ts now d = d\<lparr>nd_ready := sibling_timing now ts (nd_ready d)\<rparr>"

definition node_target :: "tcons_entry list \<Rightarrow> int \<Rightarrow> clk \<Rightarrow> node_info \<Rightarrow> node_info" where
  "node_target ts cmd now d =
     (let h = push_hist now (nd_hist d ! nat cmd)
      in d\<lparr>nd_hist := (nd_hist d)[nat cmd := h], nd_ready := target_timing h ts (nd_ready d)\<rparr>)"

fun update_timing :: "timing_cons \<Rightarrow> int \<Rightarrow> addr_vec \<Rightarrow> clk \<Rightarrow> dnode \<Rightarrow> dnode option" where
  "update_timing tcs cmd av now (Node d cs) = do {
     aid \<leftarrow> vec_at av (nd_level d);
     ts \<leftarrow> mat_at tcs (nd_level d) cmd;
     if nd_id d \<noteq> aid \<and> aid \<noteq> -1 then Some (Node (node_sibling ts now d) cs)
     else do {
       cs' \<leftarrow> those (map (update_timing tcs cmd av now) cs);
       Some (Node (node_target ts cmd now d) cs') } }"

section \<open>State, prerequisites and readiness of a node\<close>

function update_states :: "dram_spec \<Rightarrow> int \<Rightarrow> addr_vec \<Rightarrow> dnode \<Rightarrow> dnode option" where
  "update_states sp cmd av (Node d cs) = do {
     child \<leftarrow> vec_at av (nd_level d + 1);
     act \<leftarrow> mat_at (ds_actions sp) (nd_level d) cmd;
     n' \<leftarrow> (case act of None \<Rightarrow> Some (Node d cs) | Some a \<Rightarrow> run_action sp a child (Node d cs));
     scope \<leftarrow> vec_at (ds_scopes sp) cmd;
     if nd_level d = scope \<or> kids n' = [] then Some n'
     else if child = -1 then do {
       cs' \<leftarrow> those (map (update_states sp cmd av) (kids n'));
       Some (Node (nd n') cs') }
     else do {
       c \<leftarrow> vec_at (kids n') child;
       c' \<leftarrow> update_states sp cmd av c;
       Some (Node (nd n') ((kids n')[nat child := c'])) } }"
  by pat_completeness auto
termination
proof (relation "measure (\<lambda>(sp, cmd, av, n). node_count n)", goal_cases)
  case 1
  then show ?case by simp
next
  case (2 sp cmd av d cs child act n' scope c)
  have "node_count n' = node_count (Node d cs)"
    using 2 by (auto split: option.splits dest: node_count_run_action)
  moreover have "node_count c < node_count n'"
    using 2 node_count_child [of c "kids n'" "nd n'"] by simp
  ultimately show ?case by simp
next
  case (3 sp cmd av d cs child act n' scope c)
  have "node_count n' = node_count (Node d cs)"
    using 3 by (auto split: option.splits dest: node_count_run_action)
  moreover have "node_count c < node_count n'"
    using 3 node_count_child [of c "kids n'" "nd n'"] vec_at_in_set by fastforce
  ultimately show ?case by simp
qed

function get_preq_command :: "dram_spec \<Rightarrow> int \<Rightarrow> addr_vec \<Rightarrow> dnode \<Rightarrow> int option" where
  "get_preq_command sp cmd av (Node d cs) = do {
     child \<leftarrow> vec_at av (nd_level d + 1);
     p \<leftarrow> mat_at (ds_preqs sp) (nd_level d) cmd;
     preq \<leftarrow> (case p of None \<Rightarrow> Some (-1) | Some f \<Rightarrow> run_preq sp f (Node d cs) cmd av);
     if p \<noteq> None \<and> preq \<noteq> -1 then Some preq
     else if cs = [] then Some cmd
     else do { c \<leftarrow> vec_at cs child; get_preq_command sp cmd av c } }"
  by pat_completeness auto
termination
  by (relation "measure (\<lambda>(sp, cmd, av, n). node_count n)")
    (auto dest!: vec_at_in_set node_count_child)

function check_ready :: "dram_spec \<Rightarrow> int \<Rightarrow> addr_vec \<Rightarrow> clk \<Rightarrow> dnode \<Rightarrow> bool option" where
  "check_ready sp cmd av now (Node d cs) = do {
     r \<leftarrow> vec_at (nd_ready d) cmd;
     if r \<noteq> -1 \<and> now < r then Some False
     else do {
       child \<leftarrow> vec_at av (nd_level d + 1);
       scope \<leftarrow> vec_at (ds_scopes sp) cmd;
       if nd_level d = scope \<or> cs = [] then Some True
       else if child = -1 then list_allM (check_ready sp cmd av now) cs
       else do { c \<leftarrow> vec_at cs child; check_ready sp cmd av now c } } }"
  by pat_completeness auto
termination
  by (relation "measure (\<lambda>(sp, cmd, av, now, n). node_count n)")
    (auto dest!: vec_at_in_set node_count_child)

function check_rowbuffer_hit :: "dram_spec \<Rightarrow> int \<Rightarrow> addr_vec \<Rightarrow> dnode \<Rightarrow> bool option" where
  "check_rowbuffer_hit sp cmd av (Node d cs) = do {
     child \<leftarrow> vec_at av (nd_level d + 1);
     h \<leftarrow> mat_at (ds_rowhits sp) (nd_level d) cmd;
     (case h of
        Some f \<Rightarrow> run_rowhit f (Node d cs) child
      | None \<Rightarrow> if cs = [] then Some False
                else do { c \<leftarrow> vec_at cs child; check_rowbuffer_hit sp cmd av c }) }"
  by pat_completeness auto
termination
  by (relation "measure (\<lambda>(sp, cmd, av, n). node_count n)")
    (auto dest!: vec_at_in_set node_count_child)

function check_node_open :: "dram_spec \<Rightarrow> int \<Rightarrow> addr_vec \<Rightarrow> dnode \<Rightarrow> bool option" where
  "check_node_open sp cmd av (Node d cs) = do {
     child \<leftarrow> vec_at av (nd_level d + 1);
     h \<leftarrow> mat_at (ds_rowopens sp) (nd_level d) cmd;
     (case h of
        Some f \<Rightarrow> run_rowopen f (Node d cs) child
      | None \<Rightarrow> if cs = [] then Some False
                else do { c \<leftarrow> vec_at cs child; check_node_open sp cmd av c }) }"
  by pat_completeness auto
termination
  by (relation "measure (\<lambda>(sp, cmd, av, n). node_count n)")
    (auto dest!: vec_at_in_set node_count_child)

declare update_timing.simps [simp del] update_states.simps [simp del]
  get_preq_command.simps [simp del] check_ready.simps [simp del]
  check_rowbuffer_hit.simps [simp del] check_node_open.simps [simp del]

end
