(* ===== verification/Dram_Standard.thy ===== *)
theory Dram_Standard
  imports Dram_Node Base_Utils
begin

text \<open>
  What the files of \<open>src/dram/impl/\<close> have in common: the form of a DRAM standard (name tables, look-up
  tables, function matrices, timing constraints, commands with a future action), the evaluation of its
  configuration, and the operations of a device. A standard is a value of \<open>standard\<close>; the operations
  take it as an argument, since every file repeats the same code over its own tables.
\<close>

section \<open>Tables\<close>

definition cmeta :: "bool \<Rightarrow> bool \<Rightarrow> bool \<Rightarrow> bool \<Rightarrow> command_meta" where
  "cmeta op cl ac re = \<lparr>is_opening = op, is_closing = cl, is_accessing = ac,
     is_refreshing = re, is_sb_cmd = False\<rparr>"

text \<open>
  \<open>resize\<close> followed by assignments at named positions: the entry at a level and a command is the
  one assigned there, if any.
\<close>

definition fn_matrix :: "name_table \<Rightarrow> name_table \<Rightarrow> ((string \<times> string) \<times> 'f) list \<Rightarrow> 'f option list list" where
  "fn_matrix levels cmds entries = map (\<lambda>l. map (\<lambda>c. map_of entries (l, c)) cmds) levels"

definition tinit :: "string \<Rightarrow> string list \<Rightarrow> string list \<Rightarrow> int \<Rightarrow> tcons_init" where
  "tinit lv ps fs lat = \<lparr>ti_level = lv, ti_preceding = ps, ti_following = fs, ti_latency = lat,
     ti_window = 1, ti_sibling = False\<rparr>"

definition tinit_window :: "string \<Rightarrow> string list \<Rightarrow> string list \<Rightarrow> int \<Rightarrow> int \<Rightarrow> tcons_init" where
  "tinit_window lv ps fs lat w = (tinit lv ps fs lat)\<lparr>ti_window := w\<rparr>"

definition tinit_sibling :: "string \<Rightarrow> string list \<Rightarrow> string list \<Rightarrow> int \<Rightarrow> tcons_init" where
  "tinit_sibling lv ps fs lat = (tinit lv ps fs lat)\<lparr>ti_sibling := True\<rparr>"

text \<open>The states of nodes by name; a standard lists the ones it uses.\<close>

definition node_state_named :: "string \<Rightarrow> node_state option" where
  "node_state_named s =
     (if s = ''Opened'' then Some Opened else if s = ''Closed'' then Some Closed
      else if s = ''PowerUp'' then Some PowerUp else if s = ''N/A'' then Some NA
      else if s = ''Refreshing'' then Some Refreshing else None)"

definition lut_states :: "name_table \<Rightarrow> name_table \<Rightarrow> (string \<times> string) list \<Rightarrow> node_state list option" where
  "lut_states levels states entries =
     (if \<forall>(l, s) \<in> set entries. impl_id states s \<noteq> None
      then Option.bind (lut_vals levels entries) (\<lambda>names. those (map node_state_named names)) else None)"

section \<open>Configuration\<close>

text \<open>
  What the YAML file gives: optional parameters by name. \<open>cf_ps\<close> holds a timing given in
  nanoseconds, as the whole number of picoseconds that \<open>JEDEC_rounding\<close> computes from it.
\<close>

record dram_config =
  cf_channel_width :: "int option"
  cf_org_preset :: "string option"
  cf_dq :: "int option"
  cf_count :: "string \<rightharpoonup> int"
  cf_density :: "int option"
  cf_timing_preset :: "string option"
  cf_rate :: "int option"
  cf_cycles :: "string \<rightharpoonup> int"
  cf_ps :: "string \<rightharpoonup> int"

datatype config_error =
    Unrecognized_org_preset string
  | Density_mismatch int int
  | Unrecognized_timing_preset string
  | Rate_with_preset
  | Timing_unspecified string
  | Bad_BRC int
  | Undefined_behaviour

text \<open>\<open>timing_name.replace(0, 1, "t")\<close>\<close>

definition ns_name :: "string \<Rightarrow> string" where
  "ns_name n = CHR ''t'' # drop 1 n"

section \<open>A standard\<close>

text \<open>
  \<open>st_density\<close>: the levels whose sizes the density check multiplies. \<open>st_secondary\<close>: the timings computed
  from the organization and the clock period before the user's values; it fails for an index out of its
  tables. \<open>st_rounding\<close>: the rounding of the user's nanoseconds. \<open>st_future\<close>: for a command, the timing
  after which, and the command with which, its future action changes the states. \<open>st_finish\<close>: what a file
  still changes once all timings are known.
\<close>

record standard =
  st_channel_width :: int
  st_org_presets :: "(string \<times> organization) list"
  st_timing_presets :: "(string \<times> int list) list"
  st_levels :: name_table
  st_commands :: name_table
  st_scopes :: "int list option"
  st_meta :: "command_meta list option"
  st_requests :: name_table
  st_translations :: "int list option"
  st_timings :: name_table
  st_init_states :: "node_state list option"
  st_density :: "string list"
  st_secondary :: "organization \<Rightarrow> int \<Rightarrow> int list \<Rightarrow> config_error + int list"
  st_rounding :: "int \<Rightarrow> int \<Rightarrow> int"
  st_read_latency :: "string list"
  st_constraints :: "(string \<Rightarrow> int) \<Rightarrow> tcons_init list"
  st_finish :: "int list \<Rightarrow> config_error + int list"
  st_actions :: "action_fn option list list"
  st_preqs :: "preq_fn option list list"
  st_rowhits :: "rowhit_fn option list list"
  st_rowopens :: "rowopen_fn option list list"
  st_future :: "(string \<times> string \<times> string) list"

section \<open>Organization\<close>

definition chip_density :: "name_table \<Rightarrow> string list \<Rightarrow> organization \<Rightarrow> int option" where
  "chip_density levels names org = do {
     cs \<leftarrow> those (map (\<lambda>n. Option.bind (impl_id levels n) (vec_at (org_count org))) names);
     Some (u64 (prod_list cs * org_dq org) div 2 ^ 20) }"

definition dev_set_organization :: "standard \<Rightarrow> dram_config \<Rightarrow> config_error + organization" where
  "dev_set_organization st cf =
     (let empty = \<lparr>org_density = -1, org_dq = -1, org_count = replicate (length (st_levels st)) (-1)\<rparr>
      in sbind (case cf_org_preset cf of
            None \<Rightarrow> Inr empty
          | Some p \<Rightarrow> (case map_of (st_org_presets st) p of
                Some org \<Rightarrow> Inr org | None \<Rightarrow> Inl (Unrecognized_org_preset p)))
        (\<lambda>org0.
          let org1 = (case cf_dq cf of None \<Rightarrow> org0 | Some v \<Rightarrow> org0\<lparr>org_dq := v\<rparr>);
              org2 = org1\<lparr>org_count := map (\<lambda>(n, v). case cf_count cf n of None \<Rightarrow> v | Some sz \<Rightarrow> sz)
                       (zip (st_levels st) (org_count org1))\<rparr>;
              org3 = (case cf_density cf of None \<Rightarrow> org2 | Some v \<Rightarrow> org2\<lparr>org_density := v\<rparr>)
          in case chip_density (st_levels st) (st_density st) org3 of
               None \<Rightarrow> Inl Undefined_behaviour
             | Some v \<Rightarrow> if u64 (org_density org3) \<noteq> v then Inl (Density_mismatch v (org_density org3)) else Inr org3))"

section \<open>Timings\<close>

definition timing_pos :: "name_table \<Rightarrow> string \<Rightarrow> nat" where
  "timing_pos names n = (case impl_id names n of Some i \<Rightarrow> nat i | None \<Rightarrow> length names)"

text \<open>\<open>m_timing_vals(name) = v\<close>, and the value of a timing.\<close>

definition set_timing :: "name_table \<Rightarrow> string \<Rightarrow> int \<Rightarrow> int list \<Rightarrow> int list" where
  "set_timing names n v vs = vs[timing_pos names n := v]"

definition timing_val :: "name_table \<Rightarrow> int list \<Rightarrow> string \<Rightarrow> int" where
  "timing_val names vs n = vs ! timing_pos names n"

text \<open>A series of assignments, in order.\<close>

definition set_timings :: "name_table \<Rightarrow> (string \<times> int) list \<Rightarrow> int list \<Rightarrow> int list" where
  "set_timings names asgs vs = foldl (\<lambda>vs (n, v). set_timing names n v vs) vs asgs"

text \<open>The position of a value among the cases of a \<open>switch\<close>; \<open>None\<close> for its \<open>default: return -1\<close>.\<close>

definition case_id :: "int list \<Rightarrow> int \<Rightarrow> nat option" where
  "case_id cs x = find (\<lambda>i. cs ! i = x) [0..<length cs]"

text \<open>What the DDR5 files read beside the organization and the timings.\<close>

record ddr5_options =
  o5_RH_radius :: int
  o5_BRC :: int
  o5_tRAS :: int
  o5_PRAC :: bool

definition user_timings :: "standard \<Rightarrow> dram_config \<Rightarrow> int \<Rightarrow> int list \<Rightarrow> int list" where
  "user_timings st cf tck vs =
     map (\<lambda>i. if 1 \<le> i \<and> i < length (st_timings st) - 1
              then (case cf_cycles cf (st_timings st ! i) of
                      Some v \<Rightarrow> v
                    | None \<Rightarrow> (case cf_ps cf (ns_name (st_timings st ! i)) of
                        Some ps \<Rightarrow> i32 (st_rounding st ps tck) | None \<Rightarrow> vs ! i))
              else vs ! i) [0..<length (st_timings st)]"

definition dev_set_timing_vals :: "standard \<Rightarrow> dram_config \<Rightarrow> organization \<Rightarrow> config_error + int list" where
  "dev_set_timing_vals st cf org =
     sbind (case cf_timing_preset cf of
          None \<Rightarrow> Inr (replicate (length (st_timings st)) (-1))
        | Some p \<Rightarrow> (case map_of (st_timing_presets st) p of
              Some vs \<Rightarrow> Inr vs | None \<Rightarrow> Inl (Unrecognized_timing_preset p)))
      (\<lambda>v0. sbind (case cf_rate cf of
            None \<Rightarrow> Inr v0
          | Some r \<Rightarrow> if cf_timing_preset cf \<noteq> None then Inl Rate_with_preset
                      else Inr (set_timing (st_timings st) ''rate'' r v0))
      (\<lambda>v1. let half = timing_val (st_timings st) v1 ''rate'' sdiv 2; tck = 1000000 sdiv half in
        if half = 0 then Inl Undefined_behaviour
        else if tck = 0 then Inl Undefined_behaviour
        else sbind (st_secondary st org tck (set_timing (st_timings st) ''tCK_ps'' tck v1)) (\<lambda>v2.
          let v3 = user_timings st cf tck v2
          in case find (\<lambda>i. v3 ! i = -1) [0..<length v3] of
               Some i \<Rightarrow> Inl (Timing_unspecified (st_timings st ! i))
             | None \<Rightarrow> st_finish st v3)))"

section \<open>The device\<close>

record future_action =
  fa_cmd :: int
  fa_addr :: addr_vec
  fa_clk :: clk

record device =
  dv_spec :: dram_spec
  dv_org :: organization
  dv_channel_width :: int
  dv_timing_vals :: "int list"
  dv_read_latency :: int
  dv_channels :: "dnode list"
  dv_clk :: clk
  dv_future :: "future_action list"

text \<open>The number of levels below a channel that have nodes: those above the row level.\<close>

definition node_depth :: "name_table \<Rightarrow> nat" where
  "node_depth levels = (case impl_id levels ''row'' of Some r \<Rightarrow> nat r - 1 | None \<Rightarrow> 0)"

definition dev_spec_of :: "standard \<Rightarrow> organization \<Rightarrow> int list \<Rightarrow> dram_spec option" where
  "dev_spec_of st org vs = do {
     scopes \<leftarrow> st_scopes st;
     states \<leftarrow> st_init_states st;
     tcs \<leftarrow> populate_timingcons (st_levels st) (st_commands st) (st_constraints st (timing_val (st_timings st) vs));
     Some \<lparr>ds_levels = st_levels st, ds_commands = st_commands st, ds_scopes = scopes,
           ds_init_states = states, ds_count = org_count org, ds_timing_cons = tcs,
           ds_actions = st_actions st, ds_preqs = st_preqs st,
           ds_rowhits = st_rowhits st, ds_rowopens = st_rowopens st\<rparr> }"

definition dev_create_nodes :: "standard \<Rightarrow> dram_spec \<Rightarrow> dnode list" where
  "dev_create_nodes st sp =
     map (\<lambda>i. build_node sp (node_depth (st_levels st)) 0 (int i)) [0..<nat (ds_count sp ! 0)]"

definition dev_init :: "standard \<Rightarrow> dram_config \<Rightarrow> config_error + device" where
  "dev_init st cf = sbind (dev_set_organization st cf) (\<lambda>org.
     sbind (dev_set_timing_vals st cf org) (\<lambda>vs.
       case dev_spec_of st org vs of
         None \<Rightarrow> Inl Undefined_behaviour
       | Some sp \<Rightarrow> Inr
           \<lparr>dv_spec = sp, dv_org = org,
            dv_channel_width = (case cf_channel_width cf of None \<Rightarrow> st_channel_width st | Some w \<Rightarrow> w),
            dv_timing_vals = vs,
            dv_read_latency = sum_list (map (timing_val (st_timings st) vs) (st_read_latency st)),
            dv_channels = dev_create_nodes st sp, dv_clk = 0, dv_future = []\<rparr>))"

section \<open>Operations\<close>

definition future_of :: "standard \<Rightarrow> int \<Rightarrow> (string \<times> string \<times> string) option" where
  "future_of st cmd = find (\<lambda>(c, _). impl_id (st_commands st) c = Some cmd) (st_future st)"

definition dev_check_future :: "standard \<Rightarrow> int \<Rightarrow> addr_vec \<Rightarrow> device \<Rightarrow> device" where
  "dev_check_future st cmd av d = (case future_of st cmd of
     None \<Rightarrow> d
   | Some (_, latency, _) \<Rightarrow> d\<lparr>dv_future := dv_future d @
       [\<lparr>fa_cmd = cmd, fa_addr = av, fa_clk = dv_clk d + timing_val (st_timings st) (dv_timing_vals d) latency - 1\<rparr>]\<rparr>)"

definition dev_states :: "int \<Rightarrow> addr_vec \<Rightarrow> device \<Rightarrow> device option" where
  "dev_states cmd av d = do {
     ch \<leftarrow> vec_at av 0;
     n \<leftarrow> vec_at (dv_channels d) ch;
     n' \<leftarrow> update_states (dv_spec d) cmd av n;
     Some (d\<lparr>dv_channels := (dv_channels d)[nat ch := n']\<rparr>) }"

definition dev_handle_future :: "standard \<Rightarrow> future_action \<Rightarrow> device \<Rightarrow> device option" where
  "dev_handle_future st fa d = (case future_of st (fa_cmd fa) of
     None \<Rightarrow> Some d
   | Some (_, _, ending) \<Rightarrow> Option.bind (impl_id (st_commands st) ending) (\<lambda>e. dev_states e (fa_addr fa) d))"

text \<open>The loop runs from the newest future action to the oldest and erases those it handles.\<close>

definition dev_tick :: "standard \<Rightarrow> device \<Rightarrow> device option" where
  "dev_tick st d0 =
     (let d = d0\<lparr>dv_clk := dv_clk d0 + 1\<rparr> in do {
        d' \<leftarrow> foldlM (\<lambda>d fa. if fa_clk fa = dv_clk d then dev_handle_future st fa d else Some d) d (rev (dv_future d));
        Some (d'\<lparr>dv_future := filter (\<lambda>fa. fa_clk fa \<noteq> dv_clk d) (dv_future d)\<rparr>) })"

definition dev_issue_command :: "standard \<Rightarrow> device \<Rightarrow> int \<Rightarrow> addr_vec \<Rightarrow> device option" where
  "dev_issue_command st d cmd av = do {
     ch \<leftarrow> vec_at av 0;
     n \<leftarrow> vec_at (dv_channels d) ch;
     n1 \<leftarrow> update_timing (ds_timing_cons (dv_spec d)) cmd av (dv_clk d) n;
     d' \<leftarrow> dev_states cmd av (d\<lparr>dv_channels := (dv_channels d)[nat ch := n1]\<rparr>);
     Some (dev_check_future st cmd av d') }"

definition dev_channel :: "device \<Rightarrow> addr_vec \<Rightarrow> dnode option" where
  "dev_channel d av = Option.bind (vec_at av 0) (vec_at (dv_channels d))"

definition dev_get_preq_command :: "device \<Rightarrow> int \<Rightarrow> addr_vec \<Rightarrow> int option" where
  "dev_get_preq_command d cmd av = Option.bind (dev_channel d av) (get_preq_command (dv_spec d) cmd av)"

definition dev_check_ready :: "device \<Rightarrow> int \<Rightarrow> addr_vec \<Rightarrow> bool option" where
  "dev_check_ready d cmd av = Option.bind (dev_channel d av) (check_ready (dv_spec d) cmd av (dv_clk d))"

definition dev_check_rowbuffer_hit :: "device \<Rightarrow> int \<Rightarrow> addr_vec \<Rightarrow> bool option" where
  "dev_check_rowbuffer_hit d cmd av = Option.bind (dev_channel d av) (check_rowbuffer_hit (dv_spec d) cmd av)"

definition dev_check_node_open :: "device \<Rightarrow> int \<Rightarrow> addr_vec \<Rightarrow> bool option" where
  "dev_check_node_open d cmd av = Option.bind (dev_channel d av) (check_node_open (dv_spec d) cmd av)"

end
