(* ===== verification/HBM3_Device.thy ===== *)
theory HBM3_Device
  imports Dram_Standard
begin

text \<open>
  The HBM3 device of \<open>src/dram/impl/HBM3.cpp\<close> with the SPARE-PIM commands: its presets, name
  tables and look-up tables, the evaluation of its configuration (organization and timing
  parameters, with the exceptions they throw), the timing-constraint table, the function
  matrices, and the device operations the controllers call.
\<close>

section \<open>Presets\<close>

definition hbm3_org_presets :: "(string \<times> organization) list" where
  "hbm3_org_presets =
    [(''HBM3_2Gb'', \<lparr>org_density = 2 * 2 ^ 10, org_dq = 128, org_count = [1, 2, 4, 4, 2 ^ 13, 2 ^ 6]\<rparr>),
     (''HBM3_4Gb'', \<lparr>org_density = 4 * 2 ^ 10, org_dq = 128, org_count = [1, 2, 4, 4, 2 ^ 14, 2 ^ 6]\<rparr>),
     (''HBM3_8Gb'', \<lparr>org_density = 8 * 2 ^ 10, org_dq = 128, org_count = [1, 2, 4, 4, 2 ^ 15, 2 ^ 6]\<rparr>)]"

definition hbm3_timing_presets :: "(string \<times> int list) list" where
  "hbm3_timing_presets =
    [(''HBM3_2Gbps'', [2000, 4, 7, 7, 7, 7, 17, 19, 8, 2, 3, 2, 1, 2, 2, 3, 3, 4, 3, 15,
                       -1, 160, 3900, -1, 8, 1, 1000])]"

section \<open>Organization, commands, requests\<close>

definition hbm3_internal_prefetch_size :: int where
  "hbm3_internal_prefetch_size = 2"

definition hbm3_levels :: name_table where
  "hbm3_levels = [''channel'', ''pseudochannel'', ''bankgroup'', ''bank'', ''row'', ''column'']"

definition hbm3_commands :: name_table where
  "hbm3_commands =
    [''ACT'', ''PRE'', ''PREA'', ''RD'', ''WR'', ''RDA'', ''WRA'', ''REFab'', ''REFsb'',
     ''RFMab'', ''RFMsb'', ''MAC'', ''EMUL'', ''MOV'', ''SPM'', ''ACC'']"

definition hbm3_command_scopes :: "int list option" where
  "hbm3_command_scopes = lut_ids hbm3_commands hbm3_levels
    [(''ACT'', ''row''), (''PRE'', ''bank''), (''PREA'', ''channel''),
     (''RD'', ''column''), (''WR'', ''column''), (''RDA'', ''column''), (''WRA'', ''column''),
     (''REFab'', ''channel''), (''REFsb'', ''bank''), (''RFMab'', ''channel''), (''RFMsb'', ''bank''),
     (''MAC'', ''bank''), (''EMUL'', ''bank''), (''MOV'', ''bank''), (''SPM'', ''bank''),
     (''ACC'', ''bank'')]"

definition hbm3_command_meta :: "command_meta list option" where
  "hbm3_command_meta = lut_vals hbm3_commands
    [(''ACT'', cmeta True False False False), (''PRE'', cmeta False True False False),
     (''PREA'', cmeta False True False False), (''RD'', cmeta False False True False),
     (''WR'', cmeta False False True False), (''RDA'', cmeta False True True False),
     (''WRA'', cmeta False True True False), (''REFab'', cmeta False False False True),
     (''REFsb'', cmeta False False False True), (''RFMab'', cmeta False False False True),
     (''RFMsb'', cmeta False False False True), (''MAC'', cmeta False False True False),
     (''EMUL'', cmeta False False True False), (''MOV'', cmeta False False True False),
     (''SPM'', cmeta False False True False), (''ACC'', cmeta False False True False)]"

definition hbm3_requests :: name_table where
  "hbm3_requests =
    [''read'', ''write'', ''all-bank-refresh'', ''per-bank-refresh'', ''all-bank-rfm'',
     ''per-bank-rfm'', ''mac'', ''emul'', ''mov'', ''spm'', ''acc'', ''spare-pim'']"

definition hbm3_request_translations :: "int list option" where
  "hbm3_request_translations = lut_ids hbm3_requests hbm3_commands
    [(''read'', ''RD''), (''write'', ''WR''), (''all-bank-refresh'', ''REFab''),
     (''per-bank-refresh'', ''REFsb''), (''all-bank-rfm'', ''RFMab''), (''per-bank-rfm'', ''RFMsb''),
     (''mac'', ''MAC''), (''emul'', ''EMUL''), (''mov'', ''MOV''), (''spm'', ''SPM''),
     (''acc'', ''ACC''), (''spare-pim'', ''MAC'')]"

definition hbm3_timings :: name_table where
  "hbm3_timings =
    [''rate'', ''nBL'', ''nCL'', ''nRCDRD'', ''nRCDWR'', ''nRP'', ''nRAS'', ''nRC'', ''nWR'',
     ''nRTPS'', ''nRTPL'', ''nCWL'', ''nCCDS'', ''nCCDL'', ''nRRDS'', ''nRRDL'', ''nWTRS'',
     ''nWTRL'', ''nRTW'', ''nFAW'', ''nRFC'', ''nRFCSB'', ''nREFI'', ''nREFISB'', ''nRREFD'',
     ''nSPM'', ''tCK_ps'']"

definition state_names :: name_table where
  "state_names = [''Opened'', ''Closed'', ''N/A'', ''Refreshing'']"

definition state_of_name :: "string \<Rightarrow> node_state option" where
  "state_of_name s =
     (if s = ''Opened'' then Some Opened else if s = ''Closed'' then Some Closed
      else if s = ''N/A'' then Some NA else if s = ''Refreshing'' then Some Refreshing else None)"

definition hbm3_init_states :: "node_state list option" where
  "hbm3_init_states = Option.bind (lut_vals hbm3_levels
    [(''channel'', ''N/A''), (''pseudochannel'', ''N/A''), (''bankgroup'', ''N/A''),
     (''bank'', ''Closed''), (''row'', ''Closed''), (''column'', ''N/A'')])
    (\<lambda>names. those (map state_of_name names))"

section \<open>Function matrices\<close>

definition hbm3_actions :: "action_fn option list list" where
  "hbm3_actions = fn_matrix hbm3_levels hbm3_commands
    [((''channel'', ''PREA''), Channel_PREab),
     ((''bank'', ''ACT''), Bank_ACT), ((''bank'', ''PRE''), Bank_PRE),
     ((''bank'', ''RDA''), Bank_PRE), ((''bank'', ''WRA''), Bank_PRE)]"

definition hbm3_preqs :: "preq_fn option list list" where
  "hbm3_preqs = fn_matrix hbm3_levels hbm3_commands
    [((''channel'', ''REFab''), Channel_RequireAllBanksClosed),
     ((''bank'', ''REFsb''), Bank_RequireBankClosed),
     ((''bank'', ''RD''), Bank_RequireRowOpen), ((''bank'', ''WR''), Bank_RequireRowOpen)]"

definition hbm3_rowhits :: "rowhit_fn option list list" where
  "hbm3_rowhits = fn_matrix hbm3_levels hbm3_commands
    [((''bank'', ''RD''), RowHit_RDWR), ((''bank'', ''WR''), RowHit_RDWR)]"

definition hbm3_rowopens :: "rowopen_fn option list list" where
  "hbm3_rowopens = fn_matrix hbm3_levels hbm3_commands
    [((''bank'', ''RD''), RowOpen_RDWR), ((''bank'', ''WR''), RowOpen_RDWR)]"

section \<open>Timing constraints\<close>

definition hbm3_constraints :: "(string \<Rightarrow> int) \<Rightarrow> tcons_init list" where
  "hbm3_constraints V =
    [\<comment> \<open>Channel\<close>
     tinit ''channel'' [''ACT''] [''ACT'', ''PRE'', ''PREA'', ''REFab'', ''REFsb'', ''RFMab'', ''RFMsb''] 2,
     \<comment> \<open>Pseudo channel\<close>
     tinit ''pseudochannel'' [''ACT''] [''ACT''] (V ''nRRDS''),
     tinit_window ''pseudochannel'' [''ACT''] [''ACT''] (V ''nFAW'') 4,
     tinit ''pseudochannel'' [''ACT''] [''REFsb'', ''RFMsb''] (V ''nRRDS'' + 1),
     tinit ''pseudochannel'' [''REFsb'', ''RFMsb''] [''REFsb'', ''RFMsb''] (V ''nRREFD''),
     tinit ''pseudochannel'' [''REFsb'', ''RFMsb''] [''ACT''] (V ''nRREFD'' - 1),
     tinit ''pseudochannel'' [''RD'', ''RDA''] [''RD'', ''RDA''] (V ''nBL''),
     tinit ''pseudochannel'' [''WR'', ''WRA''] [''WR'', ''WRA''] (V ''nBL''),
     tinit ''pseudochannel'' [''RD'', ''RDA''] [''RD'', ''RDA''] (V ''nCCDS''),
     tinit ''pseudochannel'' [''WR'', ''WRA''] [''WR'', ''WRA''] (V ''nCCDS''),
     tinit ''pseudochannel'' [''RD'', ''RDA''] [''WR'', ''WRA''] (V ''nCL'' + V ''nBL'' + 2 - V ''nCWL''),
     tinit ''pseudochannel'' [''WR'', ''WRA''] [''RD'', ''RDA''] (V ''nCWL'' + V ''nBL'' + V ''nWTRS''),
     tinit ''pseudochannel'' [''RD''] [''PREA''] (V ''nRTPS''),
     tinit ''pseudochannel'' [''WR''] [''PREA''] (V ''nCWL'' + V ''nBL'' + V ''nWR''),
     tinit ''pseudochannel'' [''ACT''] [''ACT''] (V ''nRRDS''),
     tinit_window ''pseudochannel'' [''ACT''] [''ACT''] (V ''nFAW'') 4,
     tinit ''pseudochannel'' [''ACT''] [''PREA''] (V ''nRAS''),
     tinit ''pseudochannel'' [''PREA''] [''ACT''] (V ''nRP''),
     tinit ''pseudochannel'' [''ACT''] [''REFab'', ''RFMab''] (V ''nRC''),
     tinit ''pseudochannel'' [''PRE'', ''PREA''] [''REFab'', ''RFMab''] (V ''nRP''),
     tinit ''pseudochannel'' [''RDA''] [''REFab'', ''RFMab''] (V ''nRP'' + V ''nRTPS''),
     tinit ''pseudochannel'' [''WRA''] [''REFab'', ''RFMab''] (V ''nCWL'' + V ''nBL'' + V ''nWR'' + V ''nRP''),
     tinit ''pseudochannel'' [''REFab'', ''RFMab''] [''ACT'', ''REFsb'', ''RFMsb''] (V ''nRFC''),
     \<comment> \<open>SPARE-PIM command bus timing\<close>
     tinit ''pseudochannel'' [''MAC'', ''EMUL''] [''MAC'', ''EMUL'', ''MOV'', ''SPM'', ''ACC''] (V ''nCCDL''),
     tinit ''pseudochannel'' [''MOV''] [''MAC'', ''EMUL'', ''MOV'', ''SPM'', ''ACC''] (V ''nCCDS''),
     tinit ''pseudochannel'' [''ACC''] [''MAC'', ''EMUL'', ''MOV'', ''SPM'', ''ACC''] (V ''nCCDL'' + 1),
     tinit ''pseudochannel'' [''SPM''] [''ACT'', ''PRE'', ''PREA'', ''RD'', ''WR'', ''RDA'', ''WRA'', ''MAC'', ''EMUL'', ''MOV'', ''SPM'', ''ACC''] (V ''nSPM''),
     \<comment> \<open>Same bank group\<close>
     tinit ''bankgroup'' [''RD'', ''RDA''] [''RD'', ''RDA''] (V ''nCCDL''),
     tinit ''bankgroup'' [''WR'', ''WRA''] [''WR'', ''WRA''] (V ''nCCDL''),
     tinit ''bankgroup'' [''WR'', ''WRA''] [''RD'', ''RDA''] (V ''nCWL'' + V ''nBL'' + V ''nWTRL''),
     tinit ''bankgroup'' [''ACT''] [''ACT''] (V ''nRRDL''),
     tinit ''bankgroup'' [''ACT''] [''REFsb'', ''RFMsb''] (V ''nRRDL'' + 1),
     tinit ''bankgroup'' [''REFsb'', ''RFMsb''] [''ACT''] (V ''nRRDL'' - 1),
     tinit ''bank'' [''RD''] [''PRE''] (V ''nRTPS''),
     \<comment> \<open>Bank\<close>
     tinit ''bank'' [''ACT''] [''ACT''] (V ''nRC''),
     tinit ''bank'' [''ACT''] [''RD'', ''RDA''] (V ''nRCDRD''),
     tinit ''bank'' [''ACT''] [''WR'', ''WRA''] (V ''nRCDWR''),
     tinit ''bank'' [''ACT''] [''MAC'', ''EMUL'', ''MOV'', ''SPM''] (V ''nRCDRD''),
     tinit ''bank'' [''ACT''] [''PRE''] (V ''nRAS''),
     tinit ''bank'' [''PRE''] [''ACT''] (V ''nRP''),
     tinit ''bank'' [''RD''] [''PRE''] (V ''nRTPL''),
     tinit ''bank'' [''WR''] [''PRE''] (V ''nCWL'' + V ''nBL'' + V ''nWR''),
     tinit ''bank'' [''MAC'', ''EMUL'', ''MOV''] [''PRE''] (V ''nRTPL''),
     tinit ''bank'' [''SPM''] [''PRE''] (V ''nSPM''),
     tinit ''bank'' [''RDA''] [''ACT'', ''REFsb'', ''RFMsb''] (V ''nRTPL'' + V ''nRP''),
     tinit ''bank'' [''WRA''] [''ACT'', ''REFsb'', ''RFMsb''] (V ''nCWL'' + V ''nBL'' + V ''nWR'' + V ''nRP'')]"

section \<open>Configuration\<close>

definition channel_density :: "organization \<Rightarrow> int" where
  "channel_density org =
     (let c = org_count org
      in u64 (c ! 1 * (c ! 2) * (c ! 3) * (c ! 4) * (c ! 5) * org_dq org) div 2 ^ 20)"

definition set_organization :: "dram_config \<Rightarrow> config_error + organization" where
  "set_organization cf =
     (let empty = \<lparr>org_density = -1, org_dq = -1, org_count = replicate (length hbm3_levels) (-1)\<rparr>
      in sbind (case cf_org_preset cf of
            None \<Rightarrow> Inr empty
          | Some p \<Rightarrow> (case map_of hbm3_org_presets p of
                Some org \<Rightarrow> Inr org | None \<Rightarrow> Inl (Unrecognized_org_preset p)))
        (\<lambda>org0.
          let org1 = (case cf_dq cf of None \<Rightarrow> org0 | Some v \<Rightarrow> org0\<lparr>org_dq := v\<rparr>);
              org2 = org1\<lparr>org_count := map (\<lambda>(n, v). case cf_count cf n of None \<Rightarrow> v | Some sz \<Rightarrow> sz)
                       (zip hbm3_levels (org_count org1))\<rparr>;
              org3 = (case cf_density cf of None \<Rightarrow> org2 | Some v \<Rightarrow> org2\<lparr>org_density := v\<rparr>)
          in if u64 (org_density org3) \<noteq> channel_density org3
             then Inl (Density_mismatch (channel_density org3) (org_density org3))
             else Inr org3))"

definition timing_idx :: "string \<Rightarrow> nat" where
  "timing_idx n = (case impl_id hbm3_timings n of Some i \<Rightarrow> nat i | None \<Rightarrow> length hbm3_timings)"

definition density_id :: "int \<Rightarrow> nat option" where
  "density_id d = (if d = 2048 then Some 0 else if d = 4096 then Some 1
                   else if d = 8192 then Some 2 else if d = 16384 then Some 3 else None)"

definition tRFC_TABLE :: "int list" where
  "tRFC_TABLE = [160, 260, 350, 450]"

definition tREFISB_TABLE :: "int list" where
  "tREFISB_TABLE = [4875, 4875, 2438, 2438]"

text \<open>
  The user's values replace those at positions 1 to \<open>size - 2\<close>; neither the rate nor \<open>tCK_ps\<close>.
\<close>

definition override_timings :: "dram_config \<Rightarrow> int \<Rightarrow> int list \<Rightarrow> int list" where
  "override_timings cf tck vs =
     map (\<lambda>i. if 1 \<le> i \<and> i < length hbm3_timings - 1
              then (case cf_cycles cf (hbm3_timings ! i) of
                      Some v \<Rightarrow> v
                    | None \<Rightarrow> (case cf_ps cf (ns_name (hbm3_timings ! i)) of
                        Some ps \<Rightarrow> i32 (JEDEC_rounding ps tck) | None \<Rightarrow> vs ! i))
              else vs ! i) [0..<length hbm3_timings]"

definition set_timing_vals :: "dram_config \<Rightarrow> organization \<Rightarrow> config_error + int list" where
  "set_timing_vals cf org =
     sbind (case cf_timing_preset cf of
          None \<Rightarrow> Inr (replicate (length hbm3_timings) (-1))
        | Some p \<Rightarrow> (case map_of hbm3_timing_presets p of
              Some vs \<Rightarrow> Inr vs | None \<Rightarrow> Inl (Unrecognized_timing_preset p)))
      (\<lambda>v0. sbind (case cf_rate cf of
            None \<Rightarrow> Inr v0
          | Some r \<Rightarrow> if cf_timing_preset cf \<noteq> None then Inl Rate_with_preset
                      else Inr (v0[timing_idx ''rate'' := r]))
      (\<lambda>v1. let half = v1 ! timing_idx ''rate'' sdiv 2; tck = 1000000 sdiv half in
        if half = 0 then Inl Undefined_behaviour
        else case density_id (org_density org) of
          None \<Rightarrow> Inl Undefined_behaviour
        | Some k \<Rightarrow>
            if tck = 0 then Inl Undefined_behaviour
            else
              let v2 = v1[timing_idx ''tCK_ps'' := tck];
                  v3 = v2[timing_idx ''nRFC'' := i32 (JEDEC_rounding (tRFC_TABLE ! k * 1000) tck)];
                  v4 = v3[timing_idx ''nREFISB'' := i32 (JEDEC_rounding (tRFC_TABLE ! k * 1000) tck)];
                  v5 = override_timings cf tck v4;
                  v6 = (if v5 ! timing_idx ''nSPM'' = -1 then v5[timing_idx ''nSPM'' := 1] else v5)
              in case find (\<lambda>i. v6 ! i = -1) [0..<length v6] of
                   Some i \<Rightarrow> Inl (Timing_unspecified (hbm3_timings ! i))
                 | None \<Rightarrow> Inr v6))"

section \<open>The device\<close>

record hbm3 =
  hb_spec :: dram_spec
  hb_org :: organization
  hb_channel_width :: int
  hb_timing_vals :: "int list"
  hb_read_latency :: int
  hb_channels :: "dnode list"
  hb_clk :: clk

definition V_of :: "int list \<Rightarrow> string \<Rightarrow> int" where
  "V_of vs n = vs ! timing_idx n"

definition create_nodes :: "dram_spec \<Rightarrow> dnode list" where
  "create_nodes sp = map (\<lambda>i. build_node sp 3 0 (int i)) [0..<nat (ds_count sp ! 0)]"

definition hbm3_spec_of :: "organization \<Rightarrow> int list \<Rightarrow> dram_spec option" where
  "hbm3_spec_of org vs = do {
     scopes \<leftarrow> hbm3_command_scopes;
     states \<leftarrow> hbm3_init_states;
     tcs \<leftarrow> populate_timingcons hbm3_levels hbm3_commands (hbm3_constraints (V_of vs));
     Some \<lparr>ds_levels = hbm3_levels, ds_commands = hbm3_commands, ds_scopes = scopes,
           ds_init_states = states, ds_count = org_count org, ds_timing_cons = tcs,
           ds_actions = hbm3_actions, ds_preqs = hbm3_preqs,
           ds_rowhits = hbm3_rowhits, ds_rowopens = hbm3_rowopens\<rparr> }"

definition hbm3_init :: "dram_config \<Rightarrow> config_error + hbm3" where
  "hbm3_init cf = sbind (set_organization cf) (\<lambda>org.
     sbind (set_timing_vals cf org) (\<lambda>vs.
       case hbm3_spec_of org vs of
         None \<Rightarrow> Inl Undefined_behaviour
       | Some sp \<Rightarrow> Inr
           \<lparr>hb_spec = sp, hb_org = org,
            hb_channel_width = (case cf_channel_width cf of None \<Rightarrow> 64 | Some w \<Rightarrow> w),
            hb_timing_vals = vs, hb_read_latency = V_of vs ''nCL'' + V_of vs ''nBL'',
            hb_channels = create_nodes sp, hb_clk = 0\<rparr>))"

definition hbm3_tick :: "hbm3 \<Rightarrow> hbm3" where
  "hbm3_tick h = h\<lparr>hb_clk := hb_clk h + 1\<rparr>"

text \<open>Every device operation first picks the channel the address names.\<close>

definition hbm3_channel :: "hbm3 \<Rightarrow> addr_vec \<Rightarrow> dnode option" where
  "hbm3_channel h av = Option.bind (vec_at av 0) (vec_at (hb_channels h))"

definition hbm3_issue_command :: "hbm3 \<Rightarrow> int \<Rightarrow> addr_vec \<Rightarrow> hbm3 option" where
  "hbm3_issue_command h cmd av = do {
     ch \<leftarrow> vec_at av 0;
     n \<leftarrow> vec_at (hb_channels h) ch;
     n1 \<leftarrow> update_timing (ds_timing_cons (hb_spec h)) cmd av (hb_clk h) n;
     n2 \<leftarrow> update_states (hb_spec h) cmd av n1;
     Some (h\<lparr>hb_channels := (hb_channels h)[nat ch := n2]\<rparr>) }"

definition hbm3_get_preq_command :: "hbm3 \<Rightarrow> int \<Rightarrow> addr_vec \<Rightarrow> int option" where
  "hbm3_get_preq_command h cmd av =
     Option.bind (hbm3_channel h av) (get_preq_command (hb_spec h) cmd av)"

definition hbm3_check_ready :: "hbm3 \<Rightarrow> int \<Rightarrow> addr_vec \<Rightarrow> bool option" where
  "hbm3_check_ready h cmd av =
     Option.bind (hbm3_channel h av) (check_ready (hb_spec h) cmd av (hb_clk h))"

definition hbm3_check_rowbuffer_hit :: "hbm3 \<Rightarrow> int \<Rightarrow> addr_vec \<Rightarrow> bool option" where
  "hbm3_check_rowbuffer_hit h cmd av =
     Option.bind (hbm3_channel h av) (check_rowbuffer_hit (hb_spec h) cmd av)"

definition hbm3_check_node_open :: "hbm3 \<Rightarrow> int \<Rightarrow> addr_vec \<Rightarrow> bool option" where
  "hbm3_check_node_open h cmd av =
     Option.bind (hbm3_channel h av) (check_node_open (hb_spec h) cmd av)"

definition set_spm_latency :: "int \<Rightarrow> int \<Rightarrow> timing_cons \<Rightarrow> timing_cons" where
  "set_spm_latency spm lat tcs =
     map (\<lambda>row. row[nat spm := map (\<lambda>e. e\<lparr>tc_val := lat\<rparr>) (row ! nat spm)]) tcs"

text \<open>\<open>value\<close> is a 64-bit unsigned number, converted to \<open>int\<close> when it is positive.\<close>

definition hbm3_notify :: "hbm3 \<Rightarrow> string \<Rightarrow> int \<Rightarrow> hbm3 option" where
  "hbm3_notify h key value =
     (if key \<noteq> ''sparepim_spm_latency'' then Some h
      else do {
        spm \<leftarrow> specdef_id hbm3_commands ''SPM'';
        let lat = (if u64 value > 0 then i32 (u64 value) else 1) in
        Some (h\<lparr>hb_timing_vals := (hb_timing_vals h)[timing_idx ''nSPM'' := lat],
                hb_spec := (hb_spec h)\<lparr>ds_timing_cons :=
                  set_spm_latency spm lat (ds_timing_cons (hb_spec h))\<rparr>\<rparr>) })"

definition get_level_size :: "hbm3 \<Rightarrow> string \<Rightarrow> int option" where
  "get_level_size h n =
     (case specdef_id hbm3_levels n of None \<Rightarrow> Some (-1) | Some i \<Rightarrow> vec_at (org_count (hb_org h)) i)"

end
