(* ===== verification/Dram_Timing.thy ===== *)
theory Dram_Timing
  imports Dram_Node
begin

text \<open>
  What the timing bookkeeping of the device tree means. A node keeps, per command, the earliest
  cycle at which the command may be issued and a short history of issue times; here both are
  related to the log of all commands issued so far. \<open>due\<close> lists the cycles that the timing
  constraints demand of a command at a node, read off the log alone, and \<open>check_ready\<close> is shown
  to answer exactly whether every demanded cycle has been reached at every node the command
  addresses.
\<close>

section \<open>The log of one node\<close>

record nev =
  ev_ts :: "tcons_entry list"
  ev_cmd :: int
  ev_clk :: clk
  ev_target :: bool

definition node_ev :: "nev \<Rightarrow> node_info \<Rightarrow> node_info" where
  "node_ev e d = (if ev_target e then node_target (ev_ts e) (ev_cmd e) (ev_clk e) d
                  else node_sibling (ev_ts e) (ev_clk e) d)"

text \<open>Logs are newest first. \<open>times log c\<close>: when the node itself was the target of \<open>c\<close>.\<close>

definition times :: "nev list \<Rightarrow> int \<Rightarrow> clk list" where
  "times log c = map ev_clk (filter (\<lambda>e. ev_target e \<and> ev_cmd e = c) log)"

text \<open>
  The cycle one constraint entry demands because of event \<open>e\<close>: for a sibling entry the latency
  after \<open>e\<close>; for any other entry the latency after the \<open>window\<close>-th latest issue of the same
  command to this node, counting \<open>e\<close> itself.
\<close>

definition entry_due :: "nev \<Rightarrow> nev list \<Rightarrow> tcons_entry \<Rightarrow> clk option" where
  "entry_due e log t =
     (if tc_sibling t then (if ev_target e then None else Some (ev_clk e + tc_val t))
      else if \<not> ev_target e then None
      else let hs = times (e # log) (ev_cmd e); k = nat (tc_window t - 1)
           in if k < length hs then Some (hs ! k + tc_val t) else None)"

fun due :: "nev list \<Rightarrow> int \<Rightarrow> clk list" where
  "due [] f = []"
| "due (e # log) f =
     List.map_filter (entry_due e log) (filter (\<lambda>t. tc_cmd t = f) (ev_ts e)) @ due log f"

text \<open>Events and nodes that fit each other: ids in range, windows within the kept history.\<close>

definition ev_ok :: "nat \<Rightarrow> (nat \<Rightarrow> nat) \<Rightarrow> nev \<Rightarrow> bool" where
  "ev_ok nc win e \<longleftrightarrow> 0 \<le> ev_cmd e \<and> ev_cmd e < int nc \<and> 0 \<le> ev_clk e \<and>
     (\<forall>t \<in> set (ev_ts e). 0 \<le> tc_cmd t \<and> tc_cmd t < int nc \<and> 1 \<le> tc_window t \<and>
        tc_window t \<le> int (win (nat (ev_cmd e))))"

definition fresh_timing :: "nat \<Rightarrow> (nat \<Rightarrow> nat) \<Rightarrow> node_info \<Rightarrow> bool" where
  "fresh_timing nc win d \<longleftrightarrow> nd_ready d = replicate nc (-1) \<and>
     nd_hist d = map (\<lambda>c. replicate (win c) (-1)) [0..<nc]"

section \<open>The kept history is the recent past\<close>

lemma push_hist_take:
  "push_hist x (take W (hs @ replicate W (-1))) = take W ((x # hs) @ replicate W (-1))"
proof (cases W)
  case 0
  then show ?thesis by (simp add: push_hist_def)
next
  case (Suc V)
  define ys where "ys = hs @ replicate W (-1 :: int)"
  have len: "Suc V \<le> length ys" by (simp add: ys_def Suc)
  then have "take (Suc V) ys \<noteq> []" by auto
  moreover have "butlast (take (Suc V) ys) = take V ys" using butlast_take [OF len] by simp
  ultimately have "push_hist x (take (Suc V) ys) = take (Suc V) (x # ys)"
    by (simp add: push_hist_def)
  then show ?thesis by (simp add: ys_def Suc)
qed

lemma length_relax [simp]: "length (relax rs t x) = length rs"
  by (simp add: relax_def)

lemma length_target_timing [simp]: "length (target_timing h ts rs) = length rs"
  by (induction h ts rs rule: target_timing.induct) (simp_all add: Let_def)

lemma length_sibling_timing [simp]: "length (sibling_timing now ts rs) = length rs"
  by (induction now ts rs rule: sibling_timing.induct) simp_all

lemma relax_nth:
  "f < length rs \<Longrightarrow> 0 \<le> tc_cmd t \<Longrightarrow>
     relax rs t x ! f = (if tc_cmd t = int f then max (rs ! f) x else rs ! f)"
  by (auto simp: relax_def nth_list_update)

lemma sibling_timing_le:
  assumes "f < length rs" "\<forall>t \<in> set ts. 0 \<le> tc_cmd t"
  shows "sibling_timing now ts rs ! f \<le> x \<longleftrightarrow> rs ! f \<le> x \<and>
    (\<forall>t \<in> set ts. tc_sibling t \<and> tc_cmd t = int f \<longrightarrow> now + tc_val t \<le> x)"
  using assms
proof (induction now ts rs rule: sibling_timing.induct)
  case (1 now rs)
  then show ?case by simp
next
  case (2 now t ts rs)
  then show ?case by (auto simp: relax_nth)
qed

lemma target_timing_le:
  assumes "f < length rs" "\<forall>t \<in> set ts. 0 \<le> tc_cmd t"
  shows "target_timing h ts rs ! f \<le> x \<longleftrightarrow> rs ! f \<le> x \<and>
    (\<forall>t \<in> set ts. \<not> tc_sibling t \<and> tc_cmd t = int f \<and> 0 \<le> h ! nat (tc_window t - 1) \<longrightarrow>
       h ! nat (tc_window t - 1) + tc_val t \<le> x)"
  using assms
proof (induction h ts rs rule: target_timing.induct)
  case (1 h rs)
  then show ?case by simp
next
  case (2 h t ts rs)
  then show ?case by (auto simp: relax_nth Let_def not_less)
qed

lemma node_ev_lengths [simp]:
  "length (nd_ready (node_ev e d)) = length (nd_ready d)"
  "length (nd_hist (node_ev e d)) = length (nd_hist d)"
  by (simp_all add: node_ev_def node_target_def node_sibling_def Let_def)

lemma foldr_node_ev_lengths [simp]:
  "length (nd_ready (foldr node_ev log d)) = length (nd_ready d)"
  "length (nd_hist (foldr node_ev log d)) = length (nd_hist d)"
  by (induction log) simp_all

lemma times_Cons:
  "times (e # log) c = (if ev_target e \<and> ev_cmd e = c then [ev_clk e] else []) @ times log c"
  by (simp add: times_def)

lemma hist_of_log:
  assumes "fresh_timing nc win d" "\<forall>e \<in> set log. ev_ok nc win e" "c < nc"
  shows "nd_hist (foldr node_ev log d) ! c =
    take (win c) (times log (int c) @ replicate (win c) (-1))"
  using assms(2)
proof (induction log)
  case Nil
  then show ?case using assms(1,3) by (simp add: fresh_timing_def times_def)
next
  case (Cons e log)
  have len: "length (nd_hist (foldr node_ev log d)) = nc"
    using assms(1) by (simp add: fresh_timing_def)
  have IH: "nd_hist (foldr node_ev log d) ! c =
      take (win c) (times log (int c) @ replicate (win c) (-1))"
    using Cons by simp
  have e: "0 \<le> ev_cmd e" using Cons.prems by (simp add: ev_ok_def)
  show ?case
  proof (cases "ev_target e \<and> ev_cmd e = int c")
    case True
    then have "nd_hist (foldr node_ev (e # log) d) ! c =
        push_hist (ev_clk e) (nd_hist (foldr node_ev log d) ! c)"
      using assms(3) len by (simp add: node_ev_def node_target_def Let_def)
    then show ?thesis using True IH push_hist_take by (simp add: times_Cons)
  next
    case False
    then have "nd_hist (foldr node_ev (e # log) d) ! c = nd_hist (foldr node_ev log d) ! c"
      using e by (auto simp: node_ev_def node_target_def node_sibling_def Let_def nth_list_update)
    then show ?thesis using False IH by (auto simp: times_Cons)
  qed
qed

lemma times_nonneg: "\<forall>e \<in> set log. ev_ok nc win e \<Longrightarrow> x \<in> set (times log c) \<Longrightarrow> 0 \<le> x"
  by (auto simp: times_def ev_ok_def)

lemma take_pad_nth:
  assumes "k < W" "\<forall>x \<in> set hs. 0 \<le> x"
  shows "0 \<le> take W (hs @ replicate W (-1::int)) ! k \<longleftrightarrow> k < length hs"
    and "k < length hs \<Longrightarrow> take W (hs @ replicate W (-1)) ! k = hs ! k"
  using assms by (auto simp: nth_append)

section \<open>The ready clock is the latest due cycle\<close>

lemma map_filter_mem: "y \<in> set (List.map_filter f xs) \<longleftrightarrow> (\<exists>x \<in> set xs. f x = Some y)"
  by (induction xs) (auto simp: List.map_filter_simps split: option.splits)

lemma due_Cons_mem:
  "y \<in> set (due (e # log) f) \<longleftrightarrow>
     (\<exists>t \<in> set (ev_ts e). tc_cmd t = f \<and> entry_due e log t = Some y) \<or> y \<in> set (due log f)"
  by (auto simp: map_filter_mem)

theorem ready_of_log:
  assumes "fresh_timing nc win d" "\<forall>e \<in> set log. ev_ok nc win e" "f < nc"
  shows "nd_ready (foldr node_ev log d) ! f \<le> x \<longleftrightarrow> -1 \<le> x \<and> (\<forall>y \<in> set (due log (int f)). y \<le> x)"
  using assms(2)
proof (induction log)
  case Nil
  then show ?case using assms(1,3) by (simp add: fresh_timing_def)
next
  case (Cons e log)
  let ?d = "foldr node_ev log d"
  have IH: "nd_ready ?d ! f \<le> x \<longleftrightarrow> -1 \<le> x \<and> (\<forall>y \<in> set (due log (int f)). y \<le> x)"
    using Cons by simp
  have fl: "f < length (nd_ready ?d)" using assms(1,3) by (simp add: fresh_timing_def)
  have ok: "ev_ok nc win e" using Cons.prems by simp
  then have nn: "\<forall>t \<in> set (ev_ts e). 0 \<le> tc_cmd t" by (simp add: ev_ok_def)
  show ?case
  proof (cases "ev_target e")
    case False
    then have "nd_ready (foldr node_ev (e # log) d) ! f \<le> x \<longleftrightarrow> nd_ready ?d ! f \<le> x \<and>
        (\<forall>t \<in> set (ev_ts e). tc_sibling t \<and> tc_cmd t = int f \<longrightarrow> ev_clk e + tc_val t \<le> x)"
      using sibling_timing_le [OF fl nn] by (simp add: node_ev_def node_sibling_def)
    also have "\<dots> \<longleftrightarrow> nd_ready ?d ! f \<le> x \<and>
        (\<forall>t \<in> set (ev_ts e). \<forall>y. tc_cmd t = int f \<and> entry_due e log t = Some y \<longrightarrow> y \<le> x)"
      using False by (auto simp: entry_due_def)
    finally show ?thesis unfolding IH by (auto simp: due_Cons_mem simp del: due.simps)
  next
    case True
    let ?c = "nat (ev_cmd e)"
    let ?hs = "times (e # log) (ev_cmd e)"
    let ?h = "take (win ?c) (?hs @ replicate (win ?c) (-1))"
    have c: "?c < nc" "int ?c = ev_cmd e" using ok by (auto simp: ev_ok_def)
    have "push_hist (ev_clk e) (nd_hist ?d ! ?c) = ?h"
      using hist_of_log [OF assms(1) _ c(1), of log] Cons.prems c(2) True push_hist_take
      by (simp add: times_Cons)
    then have step: "nd_ready (foldr node_ev (e # log) d) ! f \<le> x \<longleftrightarrow> nd_ready ?d ! f \<le> x \<and>
        (\<forall>t \<in> set (ev_ts e). \<not> tc_sibling t \<and> tc_cmd t = int f \<and> 0 \<le> ?h ! nat (tc_window t - 1) \<longrightarrow>
           ?h ! nat (tc_window t - 1) + tc_val t \<le> x)"
      using True target_timing_le [OF fl nn] by (simp add: node_ev_def node_target_def Let_def)
    have hs: "\<forall>y \<in> set ?hs. 0 \<le> y" using times_nonneg [OF Cons.prems] by blast
    have entry: "(\<not> tc_sibling t \<and> 0 \<le> ?h ! nat (tc_window t - 1) \<longrightarrow>
          ?h ! nat (tc_window t - 1) + tc_val t \<le> x) \<longleftrightarrow>
        (\<forall>y. entry_due e log t = Some y \<longrightarrow> y \<le> x)" if t: "t \<in> set (ev_ts e)" for t
    proof -
      have "nat (tc_window t - 1) < win ?c" using ok t by (auto simp: ev_ok_def)
      note p = take_pad_nth [OF this hs]
      show ?thesis
      proof (cases "nat (tc_window t - 1) < length ?hs")
        case True
        with p show ?thesis using \<open>ev_target e\<close> by (auto simp: entry_due_def Let_def)
      next
        case False
        with p show ?thesis using \<open>ev_target e\<close> by (auto simp: entry_due_def Let_def)
      qed
    qed
    have "nd_ready (foldr node_ev (e # log) d) ! f \<le> x \<longleftrightarrow> nd_ready ?d ! f \<le> x \<and>
        (\<forall>t \<in> set (ev_ts e). tc_cmd t = int f \<longrightarrow> (\<forall>y. entry_due e log t = Some y \<longrightarrow> y \<le> x))"
      unfolding step using entry by blast
    then show ?thesis unfolding IH by (auto simp: due_Cons_mem simp del: due.simps)
  qed
qed

end
