(* ===== verification/Dram_Tree.thy ===== *)
theory Dram_Tree
  imports Dram_Timing
begin

text \<open>
  The device tree as a whole: which nodes a command's address vector reaches, how
  \<open>update_timing\<close> and \<open>update_states\<close> change the node at a path, and what \<open>check_ready\<close>
  answers for an address that may leave levels open (\<open>-1\<close>).
\<close>

section \<open>Shape and paths\<close>

fun tree_ok :: "int list \<Rightarrow> nat \<Rightarrow> int \<Rightarrow> int \<Rightarrow> dnode \<Rightarrow> bool" where
  "tree_ok cnt 0 l i (Node d cs) \<longleftrightarrow> nd_level d = l \<and> nd_id d = i \<and> cs = []"
| "tree_ok cnt (Suc k) l i (Node d cs) \<longleftrightarrow> nd_level d = l \<and> nd_id d = i \<and>
     length cs = nat (cnt ! nat (l + 1)) \<and>
     (\<forall>j < length cs. tree_ok cnt k (l + 1) (int j) (cs ! j))"

text \<open>The node at a path of child indices below the root.\<close>

fun node_at :: "dnode \<Rightarrow> int list \<Rightarrow> node_info option" where
  "node_at (Node d cs) [] = Some d"
| "node_at (Node d cs) (j # js) = Option.bind (vec_at cs j) (\<lambda>c. node_at c js)"

definition addr_match :: "int \<Rightarrow> int \<Rightarrow> bool" where
  "addr_match a i \<longleftrightarrow> a = i \<or> a = -1"

text \<open>\<open>addressed av l js\<close>: from level \<open>l\<close> on, the address vector names the path \<open>js\<close> or leaves it open.\<close>

fun addressed :: "addr_vec \<Rightarrow> int \<Rightarrow> int list \<Rightarrow> bool" where
  "addressed av l [] \<longleftrightarrow> True"
| "addressed av l (j # js) \<longleftrightarrow> addr_match (av ! nat l) j \<and> addressed av (l + 1) js"

record cmd_rec =
  cr_cons :: timing_cons
  cr_cmd :: int
  cr_addr :: addr_vec
  cr_clk :: clk

text \<open>
  How a command reaches the node with the ids \<open>i # js\<close> from level \<open>l\<close>: as its target, as a
  sibling of the target, or not at all when an ancestor is already a sibling.
\<close>

fun proj :: "cmd_rec \<Rightarrow> int \<Rightarrow> int list \<Rightarrow> nev option" where
  "proj c l [] = None"
| "proj c l [i] = Some \<lparr>ev_ts = cr_cons c ! nat l ! nat (cr_cmd c), ev_cmd = cr_cmd c,
     ev_clk = cr_clk c, ev_target = addr_match (cr_addr c ! nat l) i\<rparr>"
| "proj c l (i # j # js) =
     (if addr_match (cr_addr c ! nat l) i then proj c (l + 1) (j # js) else None)"

definition apply_ev :: "nev option \<Rightarrow> node_info \<Rightarrow> node_info" where
  "apply_ev eo d = (case eo of None \<Rightarrow> d | Some e \<Rightarrow> node_ev e d)"

lemma node_ev_keeps [simp]:
  "nd_level (node_ev e d) = nd_level d" "nd_id (node_ev e d) = nd_id d"
  "nd_state (node_ev e d) = nd_state d" "nd_rows (node_ev e d) = nd_rows d"
  by (simp_all add: node_ev_def node_target_def node_sibling_def Let_def)

lemma tree_ok_root: "tree_ok cnt k l i (Node d cs) \<Longrightarrow> nd_level d = l \<and> nd_id d = i"
  by (cases k) auto

lemma tree_ok_child:
  assumes "tree_ok cnt k l i (Node d cs)" "vec_at cs j = Some c"
  obtains k' where "k = Suc k'" "tree_ok cnt k' (l + 1) j c"
proof (cases k)
  case 0
  with assms show ?thesis by (auto simp: vec_simps)
next
  case (Suc k')
  with assms(1) have all: "\<forall>m < length cs. tree_ok cnt k' (l + 1) (int m) (cs ! m)" by simp
  from assms(2) have j: "0 \<le> j" "nat j < length cs" "c = cs ! nat j" by (auto simp: vec_simps)
  with all have "tree_ok cnt k' (l + 1) (int (nat j)) (cs ! nat j)" by blast
  with j Suc show ?thesis using that by simp
qed

lemma vec_at_list_all2:
  "list_all2 P xs ys \<Longrightarrow> vec_at xs j = Some x \<Longrightarrow> \<exists>y. vec_at ys j = Some y \<and> P x y"
  by (auto simp: vec_simps list_all2_conv_all_nth)

lemma vec_at_list_all2_None:
  "list_all2 P xs ys \<Longrightarrow> vec_at xs j = None \<Longrightarrow> vec_at ys j = None"
  by (auto simp: vec_simps list_all2_conv_all_nth)

lemma mat_at_Some: "mat_at m i j = Some x \<Longrightarrow> 0 \<le> i \<and> 0 \<le> j \<and> x = m ! nat i ! nat j"
  by (auto simp: mat_at_def bind_eq_Some_conv vec_simps)

section \<open>Timing updates, node by node\<close>

lemma update_timing_node_at:
  assumes "tree_ok cnt k l i n"
    and "update_timing (cr_cons c) (cr_cmd c) (cr_addr c) (cr_clk c) n = Some n'"
  shows "node_at n' js = map_option (apply_ev (proj c l (i # js))) (node_at n js)"
  using assms
proof (induction js arbitrary: k l i n n')
  case Nil
  obtain d cs where n: "n = Node d cs" by (cases n)
  with Nil tree_ok_root have r: "nd_level d = l" "nd_id d = i" by auto
  from Nil(2) show ?case
    by (auto simp: n r update_timing.simps bind_eq_Some_conv vec_simps apply_ev_def node_ev_def
        addr_match_def dest!: mat_at_Some split: if_splits)
next
  case (Cons j js)
  obtain d cs where n: "n = Node d cs" by (cases n)
  with Cons.prems tree_ok_root have r: "nd_level d = l" "nd_id d = i" by auto
  show ?case
  proof (cases "addr_match (cr_addr c ! nat l) i")
    case False
    with Cons.prems(2) have "n' = Node (nd n') cs"
      by (auto simp: n r update_timing.simps bind_eq_Some_conv vec_simps addr_match_def split: if_splits)
    then obtain d' where "n' = Node d' cs" by blast
    with False show ?thesis by (simp add: n apply_ev_def option.map_ident)
  next
    case True
    with Cons.prems(2) obtain d' cs' where n': "n' = Node d' cs'" and
      all: "list_all2 (\<lambda>x y. update_timing (cr_cons c) (cr_cmd c) (cr_addr c) (cr_clk c) x = Some y) cs cs'"
      by (auto simp: n r update_timing.simps bind_eq_Some_conv vec_simps addr_match_def
          those_map_Some split: if_splits)
    show ?thesis
    proof (cases "vec_at cs j")
      case None
      with vec_at_list_all2_None [OF all] show ?thesis by (simp add: n n')
    next
      case (Some x)
      with vec_at_list_all2 [OF all] obtain y where y: "vec_at cs' j = Some y"
        "update_timing (cr_cons c) (cr_cmd c) (cr_addr c) (cr_clk c) x = Some y" by blast
      from tree_ok_child [OF Cons.prems(1) [unfolded n] Some] obtain k' where
        "tree_ok cnt k' (l + 1) j x" by blast
      from Cons.IH [OF this y(2)] show ?thesis using Some y True by (simp add: n n')
    qed
  qed
qed

lemma update_timing_tree_ok:
  assumes "tree_ok cnt k l i n" "update_timing tcs cmd av now n = Some n'"
  shows "tree_ok cnt k l i n'"
  using assms
proof (induction k arbitrary: l i n n')
  case 0
  then show ?case
    by (cases n) (auto simp: update_timing.simps bind_eq_Some_conv node_sibling_def node_target_def
        Let_def split: if_splits)
next
  case (Suc k)
  obtain d cs where n: "n = Node d cs" by (cases n)
  with Suc.prems(1) have r: "nd_level d = l" "nd_id d = i" by auto
  from Suc.prems(2) obtain d' cs' where n': "n' = Node d' cs'" and
    d': "nd_level d' = l" "nd_id d' = i" and
    cs': "cs' = cs \<or> list_all2 (\<lambda>x y. update_timing tcs cmd av now x = Some y) cs cs'"
    by (auto simp: n r update_timing.simps bind_eq_Some_conv those_map_Some node_sibling_def
        node_target_def Let_def split: if_splits)
  from cs' show ?case
  proof
    assume "cs' = cs"
    with Suc.prems(1) n n' d' show ?thesis by simp
  next
    assume all: "list_all2 (\<lambda>x y. update_timing tcs cmd av now x = Some y) cs cs'"
    have "tree_ok cnt k (l + 1) (int j) (cs' ! j)" if "j < length cs'" for j
      using that all Suc.prems(1) Suc.IH [of "l + 1" "int j" "cs ! j" "cs' ! j"]
      by (auto simp: n list_all2_conv_all_nth)
    with Suc.prems(1) n n' d' list_all2_lengthD [OF all] show ?thesis by simp
  qed
qed

section \<open>State updates leave timing alone\<close>

definition erase_state :: "node_info \<Rightarrow> node_info" where
  "erase_state d = d\<lparr>nd_state := NA, nd_rows := Map.empty\<rparr>"

fun timing_view :: "dnode \<Rightarrow> dnode" where
  "timing_view (Node d cs) = Node (erase_state d) (map timing_view cs)"

lemma erase_state_fields [simp]:
  "nd_level (erase_state d) = nd_level d" "nd_id (erase_state d) = nd_id d"
  "nd_ready (erase_state d) = nd_ready d" "nd_hist (erase_state d) = nd_hist d"
  by (simp_all add: erase_state_def)

lemma timing_view_map_depth:
  assumes "\<And>d. erase_state (f d) = erase_state d"
  shows "timing_view (map_depth k f n) = timing_view n"
  using assms by (induction k f n rule: map_depth.induct) auto

lemma timing_view_run_action:
  "run_action sp a t n = Some n' \<Longrightarrow> timing_view n' = timing_view n"
  by (cases a) (auto simp: erase_state_def close_bank_def intro!: timing_view_map_depth
      split: option.splits if_splits)

lemma timing_view_kids: "timing_view n = Node (erase_state (nd n)) (map timing_view (kids n))"
  by (cases n) simp

lemma timing_view_update_states:
  "update_states sp cmd av n = Some n' \<Longrightarrow> timing_view n' = timing_view n"
proof (induction sp cmd av n arbitrary: n' rule: update_states.induct)
  case (1 sp cmd av d cs)
  from "1.prems" obtain child act m scope where
    s: "vec_at av (nd_level d + 1) = Some child" "mat_at (ds_actions sp) (nd_level d) cmd = Some act"
    and m: "(case act of None \<Rightarrow> Some (Node d cs) | Some a \<Rightarrow> run_action sp a child (Node d cs)) = Some m"
    and sc: "vec_at (ds_scopes sp) cmd = Some scope"
    by (auto simp: update_states.simps bind_eq_Some_conv)
  have vm: "timing_view m = timing_view (Node d cs)"
    using m by (auto split: option.splits dest: timing_view_run_action)
  have rest: "(if nd_level d = scope \<or> kids m = [] then Some m
      else if child = -1 then do {
        cs' \<leftarrow> those (map (update_states sp cmd av) (kids m)); Some (Node (nd m) cs') }
      else do {
        c \<leftarrow> vec_at (kids m) child; c' \<leftarrow> update_states sp cmd av c;
        Some (Node (nd m) ((kids m)[nat child := c'])) }) = Some n'"
    using "1.prems" by (simp only: update_states.simps s m sc Option.bind.simps)
  consider "nd_level d = scope \<or> kids m = []"
    | "\<not> (nd_level d = scope \<or> kids m = [])" "child = -1"
    | "\<not> (nd_level d = scope \<or> kids m = [])" "child \<noteq> -1" by blast
  then show ?case
  proof cases
    case 1
    with rest vm show ?thesis by auto
  next
    case 2
    with rest obtain cs' where n': "n' = Node (nd m) cs'" and
      all: "list_all2 (\<lambda>x y. update_states sp cmd av x = Some y) (kids m) cs'"
      by (auto simp: bind_eq_Some_conv those_map_Some)
    have "map timing_view cs' = map timing_view (kids m)"
    proof (rule nth_equalityI)
      fix j assume "j < length (map timing_view cs')"
      with all have j: "j < length (kids m)" "update_states sp cmd av (kids m ! j) = Some (cs' ! j)"
        by (auto simp: list_all2_conv_all_nth)
      from "1.IH"(1) [OF s m sc 2 _ j(2)] j(1)
      show "map timing_view cs' ! j = map timing_view (kids m) ! j"
        using list_all2_lengthD [OF all] by simp
    qed (use list_all2_lengthD [OF all] in simp)
    with n' vm show ?thesis by (simp add: timing_view_kids [of m])
  next
    case 3
    with rest obtain c c' where c: "vec_at (kids m) child = Some c"
      "update_states sp cmd av c = Some c'" "n' = Node (nd m) ((kids m)[nat child := c'])"
      by (auto simp: bind_eq_Some_conv)
    from "1.IH"(2) [OF s m sc 3 c(1,2)] have "timing_view c' = timing_view c" .
    moreover from c(1) have "c = kids m ! nat child" "nat child < length (kids m)" by (auto simp: vec_simps)
    ultimately have "map timing_view ((kids m)[nat child := c']) = map timing_view (kids m)"
      by (simp add: map_update list_update_same_conv)
    with c(3) vm show ?thesis by (simp add: timing_view_kids [of m])
  qed
qed

lemma node_at_timing_view: "node_at (timing_view n) js = map_option erase_state (node_at n js)"
proof (induction js arbitrary: n)
  case Nil
  then show ?case by (cases n) simp
next
  case (Cons j js)
  show ?case
    by (cases n) (auto simp: Cons.IH vec_at_def split: if_splits)
qed

lemma tree_ok_timing_view: "tree_ok cnt k l i (timing_view n) \<longleftrightarrow> tree_ok cnt k l i n"
proof (induction k arbitrary: l i n)
  case 0
  then show ?case by (cases n) auto
next
  case (Suc k)
  then show ?case by (cases n) auto
qed

lemma tree_ok_update_states:
  "tree_ok cnt k l i n \<Longrightarrow> update_states sp cmd av n = Some n' \<Longrightarrow> tree_ok cnt k l i n'"
  using timing_view_update_states tree_ok_timing_view by metis

text \<open>The timing fields of the node at a path.\<close>

definition timing_at :: "dnode \<Rightarrow> int list \<Rightarrow> node_info option" where
  "timing_at n js = map_option erase_state (node_at n js)"

lemma timing_at_update_states:
  "update_states sp cmd av n = Some n' \<Longrightarrow> timing_at n' js = timing_at n js"
  using timing_view_update_states node_at_timing_view unfolding timing_at_def by metis

lemma erase_node_ev: "erase_state (node_ev e d) = node_ev e (erase_state d)"
  by (simp add: node_ev_def node_target_def node_sibling_def erase_state_def Let_def)

lemma timing_at_update_timing:
  assumes "tree_ok cnt k l i n"
    and "update_timing (cr_cons c) (cr_cmd c) (cr_addr c) (cr_clk c) n = Some n'"
  shows "timing_at n' js = map_option (apply_ev (proj c l (i # js))) (timing_at n js)"
  by (cases "proj c l (i # js)")
    (simp_all add: timing_at_def update_timing_node_at [OF assms] option.map_comp o_def
      apply_ev_def erase_node_ev)

section \<open>Readiness, node by node\<close>

definition node_ready :: "int \<Rightarrow> clk \<Rightarrow> node_info \<Rightarrow> bool" where
  "node_ready cmd now d \<longleftrightarrow> nd_ready d ! nat cmd = -1 \<or> nd_ready d ! nat cmd \<le> now"

lemma list_allM_False: "list_allM f xs = Some False \<Longrightarrow> \<exists>x \<in> set xs. f x = Some False"
  by (induction xs) (auto split: option.splits bool.splits)

lemma check_ready_iff:
  assumes "tree_ok cnt k l i n" "check_ready sp cmd av now n = Some b"
    and "vec_at (ds_scopes sp) cmd = Some scope" "l \<le> scope"
  shows "b \<longleftrightarrow> (\<forall>js d. node_at n js = Some d \<and> l + int (length js) \<le> scope \<and> addressed av (l + 1) js
           \<longrightarrow> node_ready cmd now d)"
  using assms(1,2,4)
proof (induction k arbitrary: l i n b)
  case 0
  obtain d where n: "n = Node d []" and r: "nd_level d = l"
    using "0.prems"(1) by (cases n) auto
  have paths: "node_at (Node d []) js = Some d' \<longleftrightarrow> js = [] \<and> d' = d" for js d'
    by (cases js) (auto simp: vec_at_def)
  from "0.prems"(2,3) show ?case
    by (auto simp: n r paths check_ready.simps bind_eq_Some_conv vec_simps node_ready_def
        split: if_splits)
next
  case (Suc k)
  obtain d cs where n: "n = Node d cs" by (cases n)
  with Suc.prems(1) have r: "nd_level d = l" "nd_id d = i" by auto
  have root: "node_at n [] = Some d" by (simp add: n)
  from Suc.prems(2) obtain rc where rc: "vec_at (nd_ready d) cmd = Some rc"
    by (auto simp: n check_ready.simps bind_eq_Some_conv)
  then have rn: "node_ready cmd now d \<longleftrightarrow> \<not> (rc \<noteq> -1 \<and> now < rc)"
    by (auto simp: node_ready_def vec_simps)
  show ?case
  proof (cases "rc \<noteq> -1 \<and> now < rc")
    case True
    then have "\<not> b" using Suc.prems(2) rc by (simp add: n check_ready.simps)
    moreover have "\<not> node_ready cmd now d" using True rn by simp
    moreover have "node_at n [] = Some d \<and> l + int (length ([] :: int list)) \<le> scope \<and> addressed av (l + 1) []"
      using root Suc.prems(3) by simp
    ultimately show ?thesis by blast
  next
    case False
    with Suc.prems(2) rc assms(3) r obtain child where child: "vec_at av (l + 1) = Some child"
      and rest: "(if l = scope \<or> cs = [] then Some True
         else if child = -1 then list_allM (check_ready sp cmd av now) cs
         else Option.bind (vec_at cs child) (check_ready sp cmd av now)) = Some b"
      by (auto simp: n check_ready.simps bind_eq_Some_conv)
    have av: "av ! nat (l + 1) = child" using child by (auto simp: vec_simps)
    consider "l = scope \<or> cs = []" | "l \<noteq> scope" "cs \<noteq> []" "child = -1"
      | "l \<noteq> scope" "cs \<noteq> []" "child \<noteq> -1" by blast
    then show ?thesis
    proof cases
      case 1
      then have "js = []" if "node_at n js = Some d'" "l + int (length js) \<le> scope" for js d'
        using that by (cases js) (auto simp: n bind_eq_Some_conv vec_simps)
      with 1 rest rn False root show ?thesis by fastforce
    next
      case 2
      have tc: "tree_ok cnt k (l + 1) (int j) (cs ! j)" if "j < length cs" for j
        using Suc.prems(1) that by (simp add: n)
      have le: "l + 1 \<le> scope" using 2 Suc.prems(3) by simp
      let ?P = "\<lambda>c. \<forall>js d. node_at c js = Some d \<and> l + 1 + int (length js) \<le> scope \<and>
        addressed av (l + 1 + 1) js \<longrightarrow> node_ready cmd now d"
      have cb: "b \<longleftrightarrow> (\<forall>c \<in> set cs. ?P c)"
      proof (cases b)
        case True
        then have "\<forall>c \<in> set cs. check_ready sp cmd av now c = Some True"
          using rest 2 by (simp add: list_allM_True)
        have "?P c" if c: "c \<in> set cs" for c
        proof -
          from c obtain j where j: "j < length cs" "c = cs ! j" by (auto simp: in_set_conv_nth)
          with \<open>\<forall>c \<in> set cs. check_ready sp cmd av now c = Some True\<close>
          have "check_ready sp cmd av now (cs ! j) = Some True" by simp
          from Suc.IH [OF tc [OF j(1)] this le] j(2) show ?thesis by simp
        qed
        with True show ?thesis by simp
      next
        case False
        then have "list_allM (check_ready sp cmd av now) cs = Some False"
          using rest 2 by simp
        then obtain c where c: "c \<in> set cs" "check_ready sp cmd av now c = Some False"
          using list_allM_False by blast
        then obtain j where j: "j < length cs" "c = cs ! j" by (auto simp: in_set_conv_nth)
        from Suc.IH [OF tc [OF j(1)] c(2) [unfolded j(2)] le] j(2) have "\<not> ?P c" by simp
        with c(1) have "\<exists>c \<in> set cs. \<not> ?P c" by blast
        with False show ?thesis by simp
      qed
      show ?thesis
      proof
        assume b
        show "\<forall>js d. node_at n js = Some d \<and> l + int (length js) \<le> scope \<and> addressed av (l + 1) js
           \<longrightarrow> node_ready cmd now d"
        proof (intro allI impI, elim conjE)
          fix js d' assume js: "node_at n js = Some d'" "l + int (length js) \<le> scope" "addressed av (l + 1) js"
          show "node_ready cmd now d'"
          proof (cases js)
            case Nil
            with js root rn False show ?thesis by simp
          next
            case (Cons j js')
            with js obtain c where "vec_at cs j = Some c" "node_at c js' = Some d'"
              by (auto simp: n bind_eq_Some_conv)
            with js Cons \<open>b\<close> cb vec_at_in_set show ?thesis by fastforce
          qed
        qed
      next
        assume all: "\<forall>js d. node_at n js = Some d \<and> l + int (length js) \<le> scope \<and> addressed av (l + 1) js
           \<longrightarrow> node_ready cmd now d"
        have "?P c" if c: "c \<in> set cs" for c
        proof (intro allI impI, elim conjE)
          fix js d' assume js: "node_at c js = Some d'" "l + 1 + int (length js) \<le> scope" "addressed av (l + 1 + 1) js"
          from c obtain j where "j < length cs" "cs ! j = c" by (auto simp: in_set_conv_nth)
          then have "node_at n (int j # js) = Some d'" using js by (simp add: n)
          moreover have "addressed av (l + 1) (int j # js)" using js av 2 by (simp add: addr_match_def)
          moreover have "l + int (length (int j # js)) \<le> scope" using js(2) by simp
          ultimately show "node_ready cmd now d'" using all by blast
        qed
        with cb show b by blast
      qed
    next
      case 3
      with rest obtain c where c: "vec_at cs child = Some c" "check_ready sp cmd av now c = Some b"
        by (auto simp: bind_eq_Some_conv)
      have le: "l + 1 \<le> scope" using 3 Suc.prems(3) by simp
      from tree_ok_child [OF Suc.prems(1) [unfolded n] c(1)] have "tree_ok cnt k (l + 1) child c" by auto
      note IH = Suc.IH [OF this c(2) le]
      have step: "node_at n js = Some d' \<and> l + int (length js) \<le> scope \<and> addressed av (l + 1) js \<longleftrightarrow>
          js = [] \<and> d' = d \<or> (\<exists>js'. js = child # js' \<and> node_at c js' = Some d' \<and>
            l + 1 + int (length js') \<le> scope \<and> addressed av (l + 1 + 1) js')" for js d'
        using 3 le Suc.prems(3)
        by (cases js) (auto simp: n addr_match_def av c(1))
      show ?thesis unfolding step using IH rn False by blast
    qed
  qed
qed

end
