(* ===== verification/Dram_Device.thy ===== *)
theory Dram_Device
  imports Dram_Standard Dram_Tree
begin

text \<open>
  Devices of any standard as they run: \<open>dev_run\<close> is any interleaving of clock ticks and issued commands
  from a configured device, with the log of the commands. The locale \<open>dram_standard\<close> states what the
  tables of a standard must satisfy; in it the readiness test of a device is shown to be exactly the
  timing rules applied to the log, and the device's operations to be defined.
\<close>

section \<open>Constraint matrices\<close>

lemma max_window_ge: "t \<in> set ts \<Longrightarrow> tc_window t \<le> max_window ts"
  by (induction ts) auto

lemma max_window_nonneg: "0 \<le> max_window ts"
  by (induction ts) auto

text \<open>A constraint matrix whose entries name commands and fit the history windows of \<open>tcs0\<close>.\<close>

definition cons_ok :: "nat \<Rightarrow> nat \<Rightarrow> timing_cons \<Rightarrow> timing_cons \<Rightarrow> bool" where
  "cons_ok nl nc tcs0 tcs \<longleftrightarrow> tcons_dims nl nc tcs \<and>
     (\<forall>l < nl. \<forall>p < nc. \<forall>t \<in> set (tcs ! l ! p). 0 \<le> tc_cmd t \<and> tc_cmd t < int nc \<and>
        1 \<le> tc_window t \<and> tc_window t \<le> max_window (tcs0 ! l ! p))"

lemma cons_okD:
  "cons_ok nl nc tcs0 tcs \<Longrightarrow> l < nl \<Longrightarrow> p < nc \<Longrightarrow> t \<in> set (tcs ! l ! p) \<Longrightarrow>
     0 \<le> tc_cmd t \<and> tc_cmd t < int nc \<and> 1 \<le> tc_window t \<and> tc_window t \<le> max_window (tcs0 ! l ! p)"
  by (simp add: cons_ok_def)

lemma populate_cons_ok:
  assumes "populate_timingcons levels cmds inits = Some tcs" "levels \<noteq> []" "cmds \<noteq> []"
    and "\<forall>ti \<in> set inits. 1 \<le> ti_window ti"
  shows "cons_ok (length levels) (length cmds) tcs tcs"
proof -
  have "0 \<le> tc_cmd t \<and> tc_cmd t < int (length cmds) \<and> 1 \<le> tc_window t"
    if "l < length levels" "p < length cmds" "t \<in> set (tcs ! l ! p)" for l p t
  proof -
    from populate_timingcons_mem [OF assms(1), of "int l" "int p" t] that obtain ti where
      "ti \<in> set inits" "init_adds levels cmds ti (int l) (int p) t" by auto
    then show ?thesis
      using assms(4) by (fastforce simp: init_adds_def mk_tcons_entry_def dest: impl_id_range)
  qed
  then show ?thesis
    using populate_timingcons_dims [OF assms(1-3)] by (simp add: cons_ok_def max_window_ge)
qed

lemma mat_at_fn_matrix:
  "0 \<le> l \<Longrightarrow> l < int (length levels) \<Longrightarrow> 0 \<le> c \<Longrightarrow> c < int (length cmds) \<Longrightarrow>
     mat_at (fn_matrix levels cmds es) l c = Some (map_of es (levels ! nat l, cmds ! nat c))"
  by (simp add: mat_at_def fn_matrix_def vec_at_def nat_less_iff)

section \<open>Construction\<close>

lemma tree_ok_build_node: "tree_ok (ds_count sp) k l i (build_node sp k l i)"
  by (induction k arbitrary: l i) (simp_all add: init_node_def)

lemma node_at_build_node:
  "node_at (build_node sp k l i) js = Some d \<Longrightarrow>
     d = init_node sp (l + int (length js)) (last (i # js)) \<and> length js \<le> k"
proof (induction js arbitrary: k l i)
  case Nil
  then show ?case by (cases k) auto
next
  case (Cons j js)
  show ?case
  proof (cases k)
    case 0
    with Cons.prems show ?thesis by (simp add: vec_at_def split: if_splits)
  next
    case (Suc k')
    with Cons.prems have "0 \<le> j" "node_at (build_node sp k' (l + 1) j) js = Some d"
      by (auto simp: bind_eq_Some_conv vec_at_map_upt)
    with Cons.IH [of k' "l + 1" j] Suc show ?thesis by (simp add: algebra_simps)
  qed
qed

lemma fresh_init_node:
  "fresh_timing (length (ds_commands sp))
     (\<lambda>c. nat (max_window (ds_timing_cons sp ! nat l ! c))) (init_node sp l i)"
  by (simp add: fresh_timing_def init_node_def init_hist_def)

section \<open>Logs\<close>

text \<open>What a log holds for the node with the ids \<open>path\<close>, its channel first.\<close>

definition node_log :: "cmd_rec list \<Rightarrow> int list \<Rightarrow> nev list" where
  "node_log log path =
     List.map_filter (\<lambda>c. if cr_addr c ! 0 = hd path then proj c 0 path else None) log"

lemma node_log_Cons:
  "node_log (c # log) path = (if cr_addr c ! 0 = hd path
     then (case proj c 0 path of None \<Rightarrow> [] | Some e \<Rightarrow> [e]) else []) @ node_log log path"
  by (simp add: node_log_def List.map_filter_simps split: option.splits)

lemma proj_fields:
  "proj c l path = Some e \<Longrightarrow> ev_cmd e = cr_cmd c \<and> ev_clk e = cr_clk c \<and>
     ev_ts e = cr_cons c ! nat (l + int (length path) - 1) ! nat (cr_cmd c)"
  by (induction c l path rule: proj.induct) (auto simp: algebra_simps split: if_splits)

text \<open>The records of a log name commands, and their constraints fit the matrix \<open>tcs0\<close>.\<close>

definition rec_ok :: "nat \<Rightarrow> nat \<Rightarrow> timing_cons \<Rightarrow> cmd_rec \<Rightarrow> bool" where
  "rec_ok nl nc tcs0 c \<longleftrightarrow> cons_ok nl nc tcs0 (cr_cons c) \<and> 0 \<le> cr_cmd c \<and> cr_cmd c < int nc \<and> 0 \<le> cr_clk c"

lemma node_log_ok:
  assumes "\<forall>c \<in> set log. rec_ok nl nc tcs0 c" "length js < nl"
  shows "\<forall>e \<in> set (node_log log (i # js)).
    ev_ok nc (\<lambda>c. nat (max_window (tcs0 ! length js ! c))) e"
proof
  fix e assume "e \<in> set (node_log log (i # js))"
  then obtain c where c: "c \<in> set log" "proj c 0 (i # js) = Some e"
    by (auto simp: node_log_def map_filter_mem split: if_splits)
  note f = proj_fields [OF c(2)]
  have lev: "nat (0 + int (length (i # js)) - 1) = length js" using assms(2) by auto
  from assms(1) c(1) have ok: "rec_ok nl nc tcs0 c" by blast
  then have "0 \<le> tc_cmd t \<and> tc_cmd t < int nc \<and> 1 \<le> tc_window t \<and>
      tc_window t \<le> max_window (tcs0 ! length js ! nat (cr_cmd c))" if "t \<in> set (ev_ts e)" for t
  proof -
    from ok have "cons_ok nl nc tcs0 (cr_cons c)" "nat (cr_cmd c) < nc" by (auto simp: rec_ok_def)
    from cons_okD [OF this(1) assms(2) this(2)] that f lev show ?thesis by simp
  qed
  with ok f show "ev_ok nc (\<lambda>c. nat (max_window (tcs0 ! length js ! c))) e"
    by (auto simp: ev_ok_def rec_ok_def max_window_nonneg)
qed

section \<open>From an entry of the table to a due cycle\<close>

lemma due_append_mem: "y \<in> set (due log f) \<Longrightarrow> y \<in> set (due (es @ log) f)"
  by (induction es) auto

lemma due_intro:
  assumes "t \<in> set (ev_ts e)" "tc_cmd t = f" "\<not> tc_sibling t" "ev_target e"
    and "nat (tc_window t - 1) < length (times (e # log) (ev_cmd e))"
  shows "times (e # log) (ev_cmd e) ! nat (tc_window t - 1) + tc_val t \<in> set (due (es @ e # log) f)"
proof (rule due_append_mem)
  have "entry_due e log t = Some (times (e # log) (ev_cmd e) ! nat (tc_window t - 1) + tc_val t)"
    using assms by (simp add: entry_due_def Let_def)
  then show "times (e # log) (ev_cmd e) ! nat (tc_window t - 1) + tc_val t \<in> set (due (e # log) f)"
    using assms(1,2) by (auto simp: due_Cons_mem simp del: due.simps)
qed

lemma times_split:
  "times log c \<noteq> [] \<Longrightarrow> \<exists>es e log'. log = es @ e # log' \<and> ev_target e \<and> ev_cmd e = c \<and>
     times (e # log') c = times log c"
proof (induction log)
  case Nil
  then show ?case by (simp add: times_def)
next
  case (Cons e log)
  show ?case
  proof (cases "ev_target e \<and> ev_cmd e = c")
    case True
    then show ?thesis by (metis append_Nil)
  next
    case False
    then have eq: "times (e # log) c = times log c" by (simp add: times_Cons)
    with Cons obtain es e' log' where "log = es @ e' # log'" "ev_target e'" "ev_cmd e' = c"
      "times (e' # log') c = times log c" by auto
    with eq show ?thesis by (metis append_Cons)
  qed
qed

section \<open>Runs\<close>

inductive dev_run :: "standard \<Rightarrow> device \<Rightarrow> cmd_rec list \<Rightarrow> device \<Rightarrow> bool" for st d0 where
  start: "dev_run st d0 [] d0"
| tick: "dev_run st d0 log d \<Longrightarrow> dev_tick st d = Some d' \<Longrightarrow> dev_run st d0 log d'"
| issue: "dev_run st d0 log d \<Longrightarrow> dev_issue_command st d cmd av = Some d' \<Longrightarrow>
    dev_run st d0 (\<lparr>cr_cons = ds_timing_cons (dv_spec d), cr_cmd = cmd, cr_addr = av, cr_clk = dv_clk d\<rparr> # log) d'"

text \<open>The timing rules: no cycle demanded of \<open>cmd\<close> at an addressed node is still to come.\<close>

definition dev_timing_legal :: "device \<Rightarrow> cmd_rec list \<Rightarrow> int \<Rightarrow> addr_vec \<Rightarrow> clk \<Rightarrow> bool" where
  "dev_timing_legal d0 log cmd av now \<longleftrightarrow>
     (\<forall>js. node_at (dv_channels d0 ! nat (av ! 0)) js \<noteq> None \<and>
        int (length js) \<le> ds_scopes (dv_spec d0) ! nat cmd \<and> addressed av 1 js \<longrightarrow>
        (\<forall>y \<in> set (due (node_log log (av ! 0 # js)) cmd). y \<le> now))"

text \<open>A state update, at an issue or by a future action, changes the states of one channel.\<close>

lemma dev_states_Some:
  "dev_states cmd av d = Some d' \<longleftrightarrow> (\<exists>ch n n'. vec_at av 0 = Some ch \<and> vec_at (dv_channels d) ch = Some n \<and>
     update_states (dv_spec d) cmd av n = Some n' \<and> d' = d\<lparr>dv_channels := (dv_channels d)[nat ch := n']\<rparr>)"
  by (auto simp: dev_states_def bind_eq_Some_conv)

text \<open>Devices that differ in the states of their nodes only.\<close>

definition same_timing :: "device \<Rightarrow> device \<Rightarrow> bool" where
  "same_timing d d' \<longleftrightarrow> d'\<lparr>dv_channels := []\<rparr> = d\<lparr>dv_channels := []\<rparr> \<and>
     map timing_view (dv_channels d') = map timing_view (dv_channels d)"

lemma same_timing_refl [simp]: "same_timing d d"
  by (simp add: same_timing_def)

lemma same_timing_trans: "same_timing d1 d2 \<Longrightarrow> same_timing d2 d3 \<Longrightarrow> same_timing d1 d3"
  by (simp add: same_timing_def)

lemma same_timing_fields:
  assumes "same_timing d d'"
  shows "dv_spec d' = dv_spec d" "dv_clk d' = dv_clk d" "dv_future d' = dv_future d"
    "dv_timing_vals d' = dv_timing_vals d" "dv_read_latency d' = dv_read_latency d" "dv_org d' = dv_org d"
    "length (dv_channels d') = length (dv_channels d)"
proof -
  have eq: "d'\<lparr>dv_channels := []\<rparr> = d\<lparr>dv_channels := []\<rparr>" using assms by (simp add: same_timing_def)
  show "dv_spec d' = dv_spec d" "dv_clk d' = dv_clk d" "dv_future d' = dv_future d"
    "dv_timing_vals d' = dv_timing_vals d" "dv_read_latency d' = dv_read_latency d" "dv_org d' = dv_org d"
    using eq by (cases d; cases d'; simp)+
  show "length (dv_channels d') = length (dv_channels d)"
    using assms map_eq_imp_length_eq unfolding same_timing_def by blast
qed

lemma same_timing_states: "dev_states cmd av d = Some d' \<Longrightarrow> same_timing d d'"
  by (auto simp: dev_states_Some same_timing_def map_update vec_simps timing_view_update_states
      intro!: list_update_same_conv [THEN iffD2])

lemma same_timing_handle: "dev_handle_future st fa d = Some d' \<Longrightarrow> same_timing d d'"
  by (auto simp: dev_handle_future_def bind_eq_Some_conv same_timing_states split: option.splits)

lemma same_timing_loop:
  "foldlM (\<lambda>d fa. if fa_clk fa = dv_clk d then dev_handle_future st fa d else Some d) d fas = Some d' \<Longrightarrow> same_timing d d'"
proof (induction fas arbitrary: d)
  case (Cons fa fas)
  from Cons.prems obtain d1 where d1: "(if fa_clk fa = dv_clk d then dev_handle_future st fa d else Some d) = Some d1"
    "foldlM (\<lambda>d fa. if fa_clk fa = dv_clk d then dev_handle_future st fa d else Some d) d1 fas = Some d'"
    by (auto simp: bind_eq_Some_conv)
  have "same_timing d d1" using d1(1) same_timing_handle by (auto split: if_splits)
  from same_timing_trans [OF this Cons.IH [OF d1(2)]] show ?case .
qed simp

text \<open>A tick advances the clock and leaves every timing field of the tree alone.\<close>

lemma dev_tick_fields:
  assumes "dev_tick st d = Some d'"
  shows "dv_clk d' = dv_clk d + 1" "dv_spec d' = dv_spec d" "map timing_view (dv_channels d') = map timing_view (dv_channels d)"
    "dv_timing_vals d' = dv_timing_vals d" "dv_read_latency d' = dv_read_latency d" "dv_org d' = dv_org d"
    "dv_future d' = filter (\<lambda>fa. fa_clk fa \<noteq> dv_clk d + 1) (dv_future d)"
proof -
  from assms obtain d1 where "same_timing (d\<lparr>dv_clk := dv_clk d + 1\<rparr>) d1"
    "d' = d1\<lparr>dv_future := filter (\<lambda>fa. fa_clk fa \<noteq> dv_clk d + 1) (dv_future d)\<rparr>"
    by (auto simp: dev_tick_def Let_def bind_eq_Some_conv dest: same_timing_loop)
  with same_timing_fields [OF this(1)] show "dv_clk d' = dv_clk d + 1" "dv_spec d' = dv_spec d"
    "map timing_view (dv_channels d') = map timing_view (dv_channels d)"
    "dv_timing_vals d' = dv_timing_vals d" "dv_read_latency d' = dv_read_latency d" "dv_org d' = dv_org d"
    "dv_future d' = filter (\<lambda>fa. fa_clk fa \<noteq> dv_clk d + 1) (dv_future d)"
    by (simp_all add: same_timing_def)
qed

lemma timing_at_view: "map timing_view xs = map timing_view ys \<Longrightarrow> i < length xs \<Longrightarrow> timing_at (xs ! i) js = timing_at (ys ! i) js"
  using node_at_timing_view unfolding timing_at_def by (metis length_map nth_map)

lemma tree_ok_view: "map timing_view xs = map timing_view ys \<Longrightarrow> i < length xs \<Longrightarrow> tree_ok cnt k l j (xs ! i) = tree_ok cnt k l j (ys ! i)"
  using tree_ok_timing_view by (metis length_map nth_map)

end
