(* ===== verification/HBM3_Facts.thy ===== *)
theory HBM3_Facts
  imports HBM3_Device Dram_Device
begin

text \<open>
  Evaluated facts about the HBM3 tables: the ids of commands and levels, the scopes and initial
  states the look-up tables yield, the constraint entries between commands, and the
  well-formedness of the constraint matrix that \<open>notify\<close> preserves.
\<close>

abbreviation (input) cmd_ACT :: int where "cmd_ACT \<equiv> 0"
abbreviation (input) cmd_PRE :: int where "cmd_PRE \<equiv> 1"
abbreviation (input) cmd_PREA :: int where "cmd_PREA \<equiv> 2"
abbreviation (input) cmd_RD :: int where "cmd_RD \<equiv> 3"
abbreviation (input) cmd_WR :: int where "cmd_WR \<equiv> 4"
abbreviation (input) cmd_RDA :: int where "cmd_RDA \<equiv> 5"
abbreviation (input) cmd_WRA :: int where "cmd_WRA \<equiv> 6"
abbreviation (input) cmd_REFab :: int where "cmd_REFab \<equiv> 7"
abbreviation (input) cmd_REFsb :: int where "cmd_REFsb \<equiv> 8"
abbreviation (input) cmd_RFMab :: int where "cmd_RFMab \<equiv> 9"
abbreviation (input) cmd_RFMsb :: int where "cmd_RFMsb \<equiv> 10"
abbreviation (input) cmd_MAC :: int where "cmd_MAC \<equiv> 11"
abbreviation (input) cmd_EMUL :: int where "cmd_EMUL \<equiv> 12"
abbreviation (input) cmd_MOV :: int where "cmd_MOV \<equiv> 13"
abbreviation (input) cmd_SPM :: int where "cmd_SPM \<equiv> 14"
abbreviation (input) cmd_ACC :: int where "cmd_ACC \<equiv> 15"

section \<open>Ids\<close>

lemma length_hbm3_commands [simp]: "length hbm3_commands = 16"
  by (simp add: hbm3_commands_def)

lemma length_hbm3_levels [simp]: "length hbm3_levels = 6"
  by (simp add: hbm3_levels_def)

lemma length_hbm3_timings [simp]: "length hbm3_timings = 27"
  by (simp add: hbm3_timings_def)

lemma hbm3_cmd_ids [simp]:
  "impl_id hbm3_commands ''ACT'' = Some cmd_ACT" "impl_id hbm3_commands ''PRE'' = Some cmd_PRE"
  "impl_id hbm3_commands ''PREA'' = Some cmd_PREA" "impl_id hbm3_commands ''RD'' = Some cmd_RD"
  "impl_id hbm3_commands ''WR'' = Some cmd_WR" "impl_id hbm3_commands ''RDA'' = Some cmd_RDA"
  "impl_id hbm3_commands ''WRA'' = Some cmd_WRA" "impl_id hbm3_commands ''REFab'' = Some cmd_REFab"
  "impl_id hbm3_commands ''REFsb'' = Some cmd_REFsb" "impl_id hbm3_commands ''RFMab'' = Some cmd_RFMab"
  "impl_id hbm3_commands ''RFMsb'' = Some cmd_RFMsb" "impl_id hbm3_commands ''MAC'' = Some cmd_MAC"
  "impl_id hbm3_commands ''EMUL'' = Some cmd_EMUL" "impl_id hbm3_commands ''MOV'' = Some cmd_MOV"
  "impl_id hbm3_commands ''SPM'' = Some cmd_SPM" "impl_id hbm3_commands ''ACC'' = Some cmd_ACC"
  by (simp_all add: hbm3_commands_def)

lemma hbm3_level_ids [simp]:
  "impl_id hbm3_levels ''channel'' = Some 0" "impl_id hbm3_levels ''pseudochannel'' = Some 1"
  "impl_id hbm3_levels ''bankgroup'' = Some 2" "impl_id hbm3_levels ''bank'' = Some 3"
  "impl_id hbm3_levels ''row'' = Some 4" "impl_id hbm3_levels ''column'' = Some 5"
  by (simp_all add: hbm3_levels_def)

lemma distinct_hbm3_commands [simp]: "distinct hbm3_commands"
  by code_simp

lemma distinct_hbm3_levels [simp]: "distinct hbm3_levels"
  by code_simp

lemma distinct_hbm3_requests [simp]: "distinct hbm3_requests"
  by code_simp

lemma hbm3_scopes: "hbm3_command_scopes = Some [4, 3, 0, 5, 5, 5, 5, 0, 3, 0, 3, 3, 3, 3, 3, 3]"
  by code_simp

lemma hbm3_states: "hbm3_init_states = Some [NA, NA, NA, Closed, Closed, NA]"
  by code_simp

lemma hbm3_translations:
  "hbm3_request_translations = Some [cmd_RD, cmd_WR, cmd_REFab, cmd_REFsb, cmd_RFMab, cmd_RFMsb,
     cmd_MAC, cmd_EMUL, cmd_MOV, cmd_SPM, cmd_ACC, cmd_MAC]"
  by code_simp

text \<open>Every key of the static tables is covered, so no entry is left uninitialized.\<close>

lemma hbm3_meta_total: "hbm3_command_meta \<noteq> None"
  by code_simp

section \<open>Constraints\<close>

lemma hbm3_constraint_names: "\<forall>ti \<in> set (hbm3_constraints V). init_names_ok hbm3_levels hbm3_commands ti"
  by (simp add: hbm3_constraints_def tinit_def tinit_window_def init_names_ok_def hbm3_levels_def
      hbm3_commands_def)

lemma hbm3_constraints_ex:
  "\<exists>tcs. populate_timingcons hbm3_levels hbm3_commands (hbm3_constraints V) = Some tcs"
  by (rule populate_timingcons_ex [OF hbm3_constraint_names])

lemma hbm3_constraint_windows:
  "\<forall>ti \<in> set (hbm3_constraints V). 1 \<le> ti_window ti \<and> \<not> ti_sibling ti"
  by (simp add: hbm3_constraints_def tinit_def tinit_window_def)

lemma cons_ok_set_spm:
  assumes "cons_ok nl nc tcs0 tcs"
  shows "cons_ok nl nc tcs0 (set_spm_latency spm lat tcs)"
proof -
  have rows: "(set_spm_latency spm lat tcs) ! l =
      (tcs ! l)[nat spm := map (\<lambda>e. e\<lparr>tc_val := lat\<rparr>) (tcs ! l ! nat spm)]" if "l < nl" for l
    using that assms by (simp add: set_spm_latency_def cons_ok_def tcons_dims_def)
  have "0 \<le> tc_cmd t \<and> tc_cmd t < int nc \<and> 1 \<le> tc_window t \<and> tc_window t \<le> max_window (tcs0 ! l ! p)"
    if "l < nl" "p < nc" "t \<in> set (set_spm_latency spm lat tcs ! l ! p)" for l p t
    using that assms tcons_dims_nth [of nl nc tcs l]
    by (cases "p = nat spm") (auto simp: rows cons_ok_def)
  moreover have "tcons_dims nl nc (set_spm_latency spm lat tcs)"
    using assms by (auto simp: cons_ok_def tcons_dims_def set_spm_latency_def)
  ultimately show ?thesis by (simp add: cons_ok_def)
qed

section \<open>A configured device\<close>

lemma hbm3_spec_of_Some:
  assumes "hbm3_spec_of org vs = Some sp"
  shows "ds_scopes sp = [4, 3, 0, 5, 5, 5, 5, 0, 3, 0, 3, 3, 3, 3, 3, 3]"
    and "ds_commands sp = hbm3_commands" and "ds_levels sp = hbm3_levels"
    and "ds_init_states sp = [NA, NA, NA, Closed, Closed, NA]" and "ds_count sp = org_count org"
    and "ds_actions sp = hbm3_actions" and "ds_preqs sp = hbm3_preqs"
    and "ds_rowhits sp = hbm3_rowhits" and "ds_rowopens sp = hbm3_rowopens"
    and "populate_timingcons hbm3_levels hbm3_commands (hbm3_constraints (V_of vs)) = Some (ds_timing_cons sp)"
proof -
  from assms obtain tcs where
    tcs: "populate_timingcons hbm3_levels hbm3_commands (hbm3_constraints (V_of vs)) = Some tcs" and
    sp: "Some \<lparr>ds_levels = hbm3_levels, ds_commands = hbm3_commands,
      ds_scopes = [4, 3, 0, 5, 5, 5, 5, 0, 3, 0, 3, 3, 3, 3, 3, 3],
      ds_init_states = [NA, NA, NA, Closed, Closed, NA], ds_count = org_count org,
      ds_timing_cons = tcs, ds_actions = hbm3_actions, ds_preqs = hbm3_preqs,
      ds_rowhits = hbm3_rowhits, ds_rowopens = hbm3_rowopens\<rparr> = Some sp"
    unfolding hbm3_spec_of_def hbm3_scopes hbm3_states bind_eq_Some_conv by blast
  note eq = option.inject [THEN iffD1, OF sp, symmetric]
  show "ds_scopes sp = [4, 3, 0, 5, 5, 5, 5, 0, 3, 0, 3, 3, 3, 3, 3, 3]"
    and "ds_commands sp = hbm3_commands" and "ds_levels sp = hbm3_levels"
    and "ds_init_states sp = [NA, NA, NA, Closed, Closed, NA]" and "ds_count sp = org_count org"
    and "ds_actions sp = hbm3_actions" and "ds_preqs sp = hbm3_preqs"
    and "ds_rowhits sp = hbm3_rowhits" and "ds_rowopens sp = hbm3_rowopens"
    and "populate_timingcons hbm3_levels hbm3_commands (hbm3_constraints (V_of vs)) = Some (ds_timing_cons sp)"
    using tcs by (simp_all add: eq)
qed

lemma hbm3_init_Inr:
  assumes "hbm3_init cf = Inr h"
  shows "set_organization cf = Inr (hb_org h)" "set_timing_vals cf (hb_org h) = Inr (hb_timing_vals h)"
    "hbm3_spec_of (hb_org h) (hb_timing_vals h) = Some (hb_spec h)"
    "hb_channels h = create_nodes (hb_spec h)" "hb_clk h = 0"
    "hb_read_latency h = V_of (hb_timing_vals h) ''nCL'' + V_of (hb_timing_vals h) ''nBL''"
proof -
  from assms obtain org vs sp where
    eqs: "set_organization cf = Inr org" "set_timing_vals cf org = Inr vs"
      "hbm3_spec_of org vs = Some sp" and
    h: "h = \<lparr>hb_spec = sp, hb_org = org,
            hb_channel_width = (case cf_channel_width cf of None \<Rightarrow> 64 | Some w \<Rightarrow> w),
            hb_timing_vals = vs, hb_read_latency = V_of vs ''nCL'' + V_of vs ''nBL'',
            hb_channels = create_nodes sp, hb_clk = 0\<rparr>"
    unfolding hbm3_init_def sbind_Inr by (metis (no_types, lifting) Inl_Inr_False Inr_inject
        option.case_eq_if option.collapse)
  show "set_organization cf = Inr (hb_org h)" "set_timing_vals cf (hb_org h) = Inr (hb_timing_vals h)"
    "hbm3_spec_of (hb_org h) (hb_timing_vals h) = Some (hb_spec h)"
    "hb_channels h = create_nodes (hb_spec h)" "hb_clk h = 0"
    "hb_read_latency h = V_of (hb_timing_vals h) ''nCL'' + V_of (hb_timing_vals h) ''nBL''"
    using eqs by (simp_all add: h)
qed

end
