(* ===== verification/HBM3_Timing.thy ===== *)
theory HBM3_Timing
  imports HBM3_Facts
begin

text \<open>
  The HBM3 device as it runs: \<open>hbm3_run\<close> is any interleaving of clock ticks, latency
  notifications and issued commands from a configured device, with the log of the commands
  issued. The theorems say that the device's readiness test is exactly the timing rules applied
  to that log, for any addressing with open levels.
\<close>

section \<open>Runs\<close>

inductive hbm3_run :: "hbm3 \<Rightarrow> cmd_rec list \<Rightarrow> hbm3 \<Rightarrow> bool" for h0 where
  start: "hbm3_run h0 [] h0"
| tick: "hbm3_run h0 log h \<Longrightarrow> hbm3_run h0 log (hbm3_tick h)"
| notify: "hbm3_run h0 log h \<Longrightarrow> hbm3_notify h key value = Some h' \<Longrightarrow> hbm3_run h0 log h'"
| issue: "hbm3_run h0 log h \<Longrightarrow> hbm3_issue_command h cmd av = Some h' \<Longrightarrow>
    hbm3_run h0 (\<lparr>cr_cons = ds_timing_cons (hb_spec h), cr_cmd = cmd, cr_addr = av,
                  cr_clk = hb_clk h\<rparr> # log) h'"

text \<open>The timing rules: no cycle demanded of \<open>cmd\<close> at an addressed node is still to come.\<close>

definition timing_legal :: "hbm3 \<Rightarrow> cmd_rec list \<Rightarrow> int \<Rightarrow> addr_vec \<Rightarrow> clk \<Rightarrow> bool" where
  "timing_legal h0 log cmd av now \<longleftrightarrow>
     (\<forall>js. node_at (hb_channels h0 ! nat (av ! 0)) js \<noteq> None \<and>
        int (length js) \<le> ds_scopes (hb_spec h0) ! nat cmd \<and> addressed av 1 js \<longrightarrow>
        (\<forall>y \<in> set (due (node_log log (av ! 0 # js)) cmd). y \<le> now))"

section \<open>The run invariant\<close>

definition spec_but_timing :: "dram_spec \<Rightarrow> dram_spec \<Rightarrow> bool" where
  "spec_but_timing sp sp' \<longleftrightarrow> sp'\<lparr>ds_timing_cons := []\<rparr> = sp\<lparr>ds_timing_cons := []\<rparr>"

definition channel_inv :: "hbm3 \<Rightarrow> cmd_rec list \<Rightarrow> nat \<Rightarrow> dnode \<Rightarrow> bool" where
  "channel_inv h0 log i n \<longleftrightarrow> tree_ok (ds_count (hb_spec h0)) 3 0 (int i) n \<and>
     (\<forall>js. timing_at n js = map_option (foldr node_ev (node_log log (int i # js)))
        (timing_at (hb_channels h0 ! i) js))"

definition run_inv :: "hbm3 \<Rightarrow> cmd_rec list \<Rightarrow> hbm3 \<Rightarrow> bool" where
  "run_inv h0 log h \<longleftrightarrow> 0 \<le> hb_clk h \<and> length (hb_channels h) = length (hb_channels h0) \<and>
     spec_but_timing (hb_spec h0) (hb_spec h) \<and>
     cons_ok 6 16 (ds_timing_cons (hb_spec h0)) (ds_timing_cons (hb_spec h)) \<and>
     (\<forall>c \<in> set log. rec_ok 6 16 (ds_timing_cons (hb_spec h0)) c) \<and>
     (\<forall>i < length (hb_channels h). channel_inv h0 log i (hb_channels h ! i))"

definition hbm3_wf :: "hbm3 \<Rightarrow> bool" where
  "hbm3_wf h \<longleftrightarrow> hb_clk h = 0 \<and> hb_channels h = create_nodes (hb_spec h) \<and>
     (\<exists>org vs. hbm3_spec_of org vs = Some (hb_spec h))"

lemma hbm3_wf_init: "hbm3_init cf = Inr h \<Longrightarrow> hbm3_wf h"
  using hbm3_init_Inr unfolding hbm3_wf_def by blast

lemma spec_but_timing_fields:
  assumes "spec_but_timing sp sp'"
  shows "ds_scopes sp' = ds_scopes sp" "ds_commands sp' = ds_commands sp"
    "ds_levels sp' = ds_levels sp" "ds_count sp' = ds_count sp" "ds_actions sp' = ds_actions sp"
    "ds_preqs sp' = ds_preqs sp" "ds_rowhits sp' = ds_rowhits sp" "ds_rowopens sp' = ds_rowopens sp"
  using assms by (auto simp: spec_but_timing_def dest: arg_cong [where f = ds_scopes]
      arg_cong [where f = ds_commands] arg_cong [where f = ds_levels] arg_cong [where f = ds_count]
      arg_cong [where f = ds_actions] arg_cong [where f = ds_preqs]
      arg_cong [where f = ds_rowhits] arg_cong [where f = ds_rowopens])

lemma hbm3_wf_spec:
  assumes "hbm3_wf h"
  shows "ds_scopes (hb_spec h) = [4, 3, 0, 5, 5, 5, 5, 0, 3, 0, 3, 3, 3, 3, 3, 3]"
    and "ds_commands (hb_spec h) = hbm3_commands" and "ds_levels (hb_spec h) = hbm3_levels"
    and "ds_init_states (hb_spec h) = [NA, NA, NA, Closed, Closed, NA]"
    and "ds_actions (hb_spec h) = hbm3_actions" and "ds_preqs (hb_spec h) = hbm3_preqs"
    and "ds_rowhits (hb_spec h) = hbm3_rowhits" and "ds_rowopens (hb_spec h) = hbm3_rowopens"
    and "cons_ok 6 16 (ds_timing_cons (hb_spec h)) (ds_timing_cons (hb_spec h))"
proof -
  from assms obtain org vs where sp: "hbm3_spec_of org vs = Some (hb_spec h)"
    by (auto simp: hbm3_wf_def)
  note f = hbm3_spec_of_Some [OF sp]
  have "cons_ok (length hbm3_levels) (length hbm3_commands)
      (ds_timing_cons (hb_spec h)) (ds_timing_cons (hb_spec h))"
    using hbm3_constraint_windows
    by (intro populate_cons_ok [OF f(10)]) (auto simp: hbm3_levels_def hbm3_commands_def)
  then show "ds_scopes (hb_spec h) = [4, 3, 0, 5, 5, 5, 5, 0, 3, 0, 3, 3, 3, 3, 3, 3]"
    and "ds_commands (hb_spec h) = hbm3_commands" and "ds_levels (hb_spec h) = hbm3_levels"
    and "ds_init_states (hb_spec h) = [NA, NA, NA, Closed, Closed, NA]"
    and "ds_actions (hb_spec h) = hbm3_actions" and "ds_preqs (hb_spec h) = hbm3_preqs"
    and "ds_rowhits (hb_spec h) = hbm3_rowhits" and "ds_rowopens (hb_spec h) = hbm3_rowopens"
    and "cons_ok 6 16 (ds_timing_cons (hb_spec h)) (ds_timing_cons (hb_spec h))"
    using f by simp_all
qed

lemma length_create_nodes [simp]: "length (create_nodes sp) = nat (ds_count sp ! 0)"
  by (simp add: create_nodes_def)

lemma run_inv_start:
  assumes "hbm3_wf h0"
  shows "run_inv h0 [] h0"
proof -
  have "channel_inv h0 [] i (hb_channels h0 ! i)" if "i < length (hb_channels h0)" for i
    using assms that tree_ok_build_node
    by (simp add: channel_inv_def hbm3_wf_def create_nodes_def node_log_def
        List.map_filter_simps option.map_id)
  then show ?thesis
    using assms hbm3_wf_spec(9) [OF assms]
    by (simp add: run_inv_def hbm3_wf_def spec_but_timing_def)
qed

lemma run_inv_tick: "run_inv h0 log h \<Longrightarrow> run_inv h0 log (hbm3_tick h)"
  by (simp add: run_inv_def hbm3_tick_def)

lemma run_inv_notify:
  "run_inv h0 log h \<Longrightarrow> hbm3_notify h key value = Some h' \<Longrightarrow> run_inv h0 log h'"
  by (auto simp: run_inv_def hbm3_notify_def specdef_id_eq_impl_id spec_but_timing_def Let_def
      intro: cons_ok_set_spm split: if_splits)

lemma run_inv_issue:
  assumes inv: "run_inv h0 log h" and "hbm3_issue_command h cmd av = Some h'"
  shows "run_inv h0 (\<lparr>cr_cons = ds_timing_cons (hb_spec h), cr_cmd = cmd, cr_addr = av,
                  cr_clk = hb_clk h\<rparr> # log) h'"
proof -
  let ?c = "\<lparr>cr_cons = ds_timing_cons (hb_spec h), cr_cmd = cmd, cr_addr = av, cr_clk = hb_clk h\<rparr>"
  from assms(2) obtain ch n n1 n2 where
    ch: "vec_at av 0 = Some ch" "vec_at (hb_channels h) ch = Some n" and
    n1: "update_timing (ds_timing_cons (hb_spec h)) cmd av (hb_clk h) n = Some n1" and
    n2: "update_states (hb_spec h) cmd av n1 = Some n2" and
    h': "h' = h\<lparr>hb_channels := (hb_channels h)[nat ch := n2]\<rparr>"
    by (auto simp: hbm3_issue_command_def bind_eq_Some_conv)
  from ch have ch': "0 \<le> ch" "nat ch < length (hb_channels h)" "n = hb_channels h ! nat ch" "av ! 0 = ch"
    by (auto simp: vec_simps)
  have cinv: "channel_inv h0 log (nat ch) n" using inv ch' by (simp add: run_inv_def)
  then have tn: "tree_ok (ds_count (hb_spec h0)) 3 0 ch n" using ch' by (simp add: channel_inv_def)
  have n1': "update_timing (cr_cons ?c) (cr_cmd ?c) (cr_addr ?c) (cr_clk ?c) n = Some n1"
    using n1 by simp
  have cmd: "0 \<le> cmd \<and> cmd < 16"
  proof -
    obtain d cs where "n = Node d cs" by (cases n)
    with n1 obtain ts where ts: "mat_at (ds_timing_cons (hb_spec h)) (nd_level d) cmd = Some ts"
      by (auto simp: update_timing.simps bind_eq_Some_conv)
    have "tcons_dims 6 16 (ds_timing_cons (hb_spec h))" using inv by (simp add: run_inv_def cons_ok_def)
    with ts show ?thesis
      by (auto simp: mat_at_def bind_eq_Some_conv tcons_dims_def dest!: vec_at_in_set
          simp: vec_simps)
  qed
  have new: "channel_inv h0 (?c # log) (nat ch) n2"
  proof -
    have "timing_at n2 js = map_option (foldr node_ev (node_log (?c # log) (ch # js)))
        (timing_at (hb_channels h0 ! nat ch) js)" for js
    proof -
      have "timing_at n2 js = map_option (apply_ev (proj ?c 0 (ch # js))) (timing_at n js)"
        using timing_at_update_states [OF n2] timing_at_update_timing [OF tn n1'] by simp
      moreover have "timing_at n js = map_option (foldr node_ev (node_log log (ch # js)))
          (timing_at (hb_channels h0 ! nat ch) js)"
        using cinv ch' by (simp add: channel_inv_def)
      ultimately show ?thesis
        using ch' by (cases "proj ?c 0 (ch # js)")
          (simp_all add: node_log_Cons apply_ev_def option.map_comp o_def)
    qed
    moreover have "tree_ok (ds_count (hb_spec h0)) 3 0 ch n2"
      using tree_ok_update_states [OF update_timing_tree_ok [OF tn n1] n2] .
    ultimately show ?thesis using ch' by (simp add: channel_inv_def)
  qed
  have old: "channel_inv h0 (?c # log) i (hb_channels h ! i)"
    if "i < length (hb_channels h)" "i \<noteq> nat ch" for i
  proof -
    have "channel_inv h0 log i (hb_channels h ! i)" using inv that by (simp add: run_inv_def)
    moreover have "node_log (?c # log) (int i # js) = node_log log (int i # js)" for js
      using that ch' by (auto simp: node_log_Cons)
    ultimately show ?thesis by (simp add: channel_inv_def)
  qed
  show ?thesis
    using inv new old cmd ch'
    by (auto simp: run_inv_def h' rec_ok_def nth_list_update)
qed

theorem hbm3_run_inv: "hbm3_run h0 log h \<Longrightarrow> hbm3_wf h0 \<Longrightarrow> run_inv h0 log h"
  by (induction rule: hbm3_run.induct)
    (auto intro: run_inv_start run_inv_tick run_inv_notify run_inv_issue)

section \<open>Readiness is timing legality\<close>

lemma timing_at_channel0:
  assumes "hbm3_wf h0" "i < length (hb_channels h0)" "timing_at (hb_channels h0 ! i) js = Some d"
  shows "length js \<le> 3 \<and> fresh_timing 16
    (\<lambda>c. nat (max_window (ds_timing_cons (hb_spec h0) ! length js ! c))) d"
proof -
  from assms obtain d0 where d0: "node_at (build_node (hb_spec h0) 3 0 (int i)) js = Some d0"
    "d = erase_state d0"
    by (auto simp: timing_at_def hbm3_wf_def create_nodes_def)
  from node_at_build_node [OF d0(1)] fresh_init_node [of "hb_spec h0" "int (length js)"]
  show ?thesis
    using hbm3_wf_spec(2) [OF assms(1)] d0(2) by (auto simp: fresh_timing_def)
qed

lemma node_from_log:
  assumes "hbm3_wf h0" "run_inv h0 log h" "i < length (hb_channels h)"
    and "node_at (hb_channels h ! i) js = Some d"
  obtains d0 where "length js \<le> 3" "fresh_timing 16
      (\<lambda>c. nat (max_window (ds_timing_cons (hb_spec h0) ! length js ! c))) d0"
    "nd_ready d = nd_ready (foldr node_ev (node_log log (int i # js)) d0)" "length (nd_ready d) = 16"
proof -
  have ci: "channel_inv h0 log i (hb_channels h ! i)" and i: "i < length (hb_channels h0)"
    using assms(2,3) by (auto simp: run_inv_def)
  from ci have "map_option erase_state (node_at (hb_channels h ! i) js) =
      map_option (foldr node_ev (node_log log (int i # js))) (timing_at (hb_channels h0 ! i) js)"
    by (simp add: channel_inv_def timing_at_def)
  with assms(4) obtain d0 where d0: "timing_at (hb_channels h0 ! i) js = Some d0"
    "erase_state d = foldr node_ev (node_log log (int i # js)) d0"
    by (cases "timing_at (hb_channels h0 ! i) js") auto
  note fr = timing_at_channel0 [OF assms(1) i d0(1)]
  have r: "nd_ready d = nd_ready (foldr node_ev (node_log log (int i # js)) d0)"
    using arg_cong [OF d0(2), of nd_ready] by simp
  with fr have "length (nd_ready d) = 16" by (simp add: fresh_timing_def)
  with fr r that show ?thesis by blast
qed

lemma node_ready_iff_due:
  assumes "hbm3_wf h0" "run_inv h0 log h" "i < length (hb_channels h)"
    and "node_at (hb_channels h ! i) js = Some d" "0 \<le> cmd" "cmd < 16" "-1 \<le> now"
  shows "node_ready cmd now d \<longleftrightarrow> (\<forall>y \<in> set (due (node_log log (int i # js)) cmd). y \<le> now)"
proof -
  let ?log = "node_log log (int i # js)"
  have lok: "\<forall>c \<in> set log. rec_ok 6 16 (ds_timing_cons (hb_spec h0)) c"
    using assms(2) by (simp add: run_inv_def)
  from node_from_log [OF assms(1-4)] obtain d0 where js: "length js \<le> 3"
    and fr: "fresh_timing 16 (\<lambda>c. nat (max_window (ds_timing_cons (hb_spec h0) ! length js ! c))) d0"
    and eq: "nd_ready d = nd_ready (foldr node_ev ?log d0)" by blast
  have jl: "length js < 6" using js by simp
  have "nat cmd < 16" using assms(5,6) by simp
  note r = ready_of_log [OF fr node_log_ok [OF lok jl, of "int i"] this]
  have "node_ready cmd now d \<longleftrightarrow> nd_ready d ! nat cmd \<le> now"
    using assms(7) by (auto simp: node_ready_def)
  with r [of now] eq show ?thesis using assms(5,7) by simp
qed

lemma check_ready_due:
  assumes "hbm3_init cf = Inr h0" "hbm3_run h0 log h" "hbm3_check_ready h cmd av = Some b"
  shows "b \<longleftrightarrow> (\<forall>js. node_at (hb_channels h0 ! nat (av ! 0)) js \<noteq> None \<and>
      int (length js) \<le> ds_scopes (hb_spec h0) ! nat cmd \<and> addressed av 1 js \<longrightarrow>
      (\<forall>y \<in> set (due (node_log log (av ! 0 # js)) cmd). y \<le> hb_clk h))"
proof -
  have wf: "hbm3_wf h0" using hbm3_wf_init assms(1) .
  have inv: "run_inv h0 log h" using hbm3_run_inv [OF assms(2) wf] .
  from assms(3) obtain ch n where ch: "vec_at av 0 = Some ch" "vec_at (hb_channels h) ch = Some n"
    and b: "check_ready (hb_spec h) cmd av (hb_clk h) n = Some b"
    by (auto simp: hbm3_check_ready_def hbm3_channel_def bind_eq_Some_conv)
  from ch have ch': "0 \<le> ch" "nat ch < length (hb_channels h)" "n = hb_channels h ! nat ch" "av ! 0 = ch"
    by (auto simp: vec_simps)
  then have cinv: "channel_inv h0 log (nat ch) n" using inv by (auto simp: run_inv_def)
  then have tn: "tree_ok (ds_count (hb_spec h0)) 3 0 ch n" using ch' by (simp add: channel_inv_def)
  have nodes: "node_at n js = None \<longleftrightarrow> node_at (hb_channels h0 ! nat ch) js = None" for js
  proof -
    have "map_option erase_state (node_at n js) = map_option (foldr node_ev (node_log log (ch # js)))
        (map_option erase_state (node_at (hb_channels h0 ! nat ch) js))"
      using cinv ch' by (simp add: channel_inv_def timing_at_def)
    then show ?thesis
      by (cases "node_at n js"; cases "node_at (hb_channels h0 ! nat ch) js") auto
  qed
  have sc: "ds_scopes (hb_spec h) = ds_scopes (hb_spec h0)"
    using inv by (simp add: run_inv_def spec_but_timing_fields)
  have cmd: "0 \<le> cmd \<and> cmd < 16"
  proof -
    obtain d cs where n: "n = Node d cs" by (cases n)
    then have "node_at (hb_channels h ! nat ch) [] = Some d" using ch' by simp
    from node_from_log [OF wf inv ch'(2) this] have "length (nd_ready d) = 16" by blast
    with b n show ?thesis by (auto simp: check_ready.simps bind_eq_Some_conv vec_simps)
  qed
  then have scope: "vec_at (ds_scopes (hb_spec h)) cmd = Some (ds_scopes (hb_spec h0) ! nat cmd)"
    using hbm3_wf_spec(1) [OF wf] by (simp add: sc vec_at_def)
  have nn: "0 \<le> ds_scopes (hb_spec h0) ! nat cmd"
    using cmd hbm3_wf_spec(1) [OF wf] by (auto simp: nth_Cons' nat_eq_iff)
  have "b \<longleftrightarrow> (\<forall>js d. node_at n js = Some d \<and> int (length js) \<le> ds_scopes (hb_spec h0) ! nat cmd \<and>
      addressed av 1 js \<longrightarrow> node_ready cmd (hb_clk h) d)"
    using check_ready_iff [OF tn b scope nn] by simp
  also have "\<dots> \<longleftrightarrow> (\<forall>js. node_at n js \<noteq> None \<and> int (length js) \<le> ds_scopes (hb_spec h0) ! nat cmd \<and>
      addressed av 1 js \<longrightarrow> (\<forall>y \<in> set (due (node_log log (ch # js)) cmd). y \<le> hb_clk h))"
  proof -
    have "node_ready cmd (hb_clk h) d \<longleftrightarrow> (\<forall>y \<in> set (due (node_log log (ch # js)) cmd). y \<le> hb_clk h)"
      if "node_at n js = Some d" for js d
      using node_ready_iff_due [OF wf inv ch'(2), of js d cmd "hb_clk h"] that cmd ch' inv
      by (simp add: run_inv_def)
    then show ?thesis by (metis not_None_eq)
  qed
  finally show ?thesis unfolding ch'(4) by (simp only: nodes simp_thms)
qed

lemma node_at_depth:
  assumes "hbm3_wf h0" "i < length (hb_channels h0)" "node_at (hb_channels h0 ! i) js \<noteq> None"
  shows "length js \<le> 3"
proof -
  from assms(3) obtain d where "timing_at (hb_channels h0 ! i) js = Some d"
    by (auto simp: timing_at_def)
  from timing_at_channel0 [OF assms(1,2) this] show ?thesis by simp
qed

text \<open>C14: after any run of the configured HBM3 device (clock ticks, latency notifications and
  issued commands, in any order), \<open>check_ready\<close> answers \<open>True\<close> for a command and an address,
  open levels included, exactly when the timing-constraint table, applied to the log of all the
  commands issued so far, demands no later cycle at any addressed node down to the command's
  scope. The incremental ready clocks and bounded histories lose no constraint and add none.\<close>

theorem hbm3_check_ready_exact:
  assumes "hbm3_init cf = Inr h0" "hbm3_run h0 log h" "hbm3_check_ready h cmd av = Some b"
  shows "b \<longleftrightarrow> timing_legal h0 log cmd av (hb_clk h)"
  using check_ready_due [OF assms] by (simp add: timing_legal_def)

end
