(* ===== verification/HBM3_Rules.thy ===== *)
theory HBM3_Rules
  imports HBM3_Timing
begin

text \<open>
  Single timing rules of the HBM3 device, derived from the exactness of \<open>check_ready\<close>: the
  four-activation window of a pseudochannel and the dynamic latency of the sparse command
  \<open>SPM\<close>, which the controller sets with \<open>notify\<close> and which blocks the pseudochannel.
\<close>

section \<open>Which rows of the table \<open>notify\<close> leaves alone\<close>

definition cons_same :: "timing_cons \<Rightarrow> timing_cons \<Rightarrow> bool" where
  "cons_same tcs0 tcs \<longleftrightarrow> (\<forall>l < 6. \<forall>p < 16. p \<noteq> 14 \<longrightarrow> tcs ! l ! p = tcs0 ! l ! p) \<and>
     (\<forall>l < 6. map (\<lambda>t. t\<lparr>tc_val := 0\<rparr>) (tcs ! l ! 14) = map (\<lambda>t. t\<lparr>tc_val := 0\<rparr>) (tcs0 ! l ! 14))"

lemma set_spm_latency_nth:
  assumes "tcons_dims 6 16 tcs" "l < 6"
  shows "set_spm_latency 14 lat tcs ! l ! p =
    (if p = 14 then map (\<lambda>t. t\<lparr>tc_val := lat\<rparr>) (tcs ! l ! 14) else tcs ! l ! p)"
  using assms tcons_dims_nth [OF assms] by (auto simp: set_spm_latency_def tcons_dims_def)

lemma cons_same_set_spm:
  "tcons_dims 6 16 tcs \<Longrightarrow> cons_same tcs0 tcs \<Longrightarrow> cons_same tcs0 (set_spm_latency 14 lat tcs)"
  by (auto simp: cons_same_def set_spm_latency_nth o_def)

lemma run_cons_same:
  assumes "hbm3_run h0 log h" "hbm3_wf h0"
  shows "cons_same (ds_timing_cons (hb_spec h0)) (ds_timing_cons (hb_spec h)) \<and>
    (\<forall>c \<in> set log. cons_same (ds_timing_cons (hb_spec h0)) (cr_cons c))"
  using assms
proof (induction rule: hbm3_run.induct)
  case start
  then show ?case by (simp add: cons_same_def)
next
  case (tick log h)
  then show ?case by (simp add: hbm3_tick_def)
next
  case (notify log h key v h')
  have "tcons_dims 6 16 (ds_timing_cons (hb_spec h))"
    using hbm3_run_inv [OF notify(1,4)] by (simp add: run_inv_def cons_ok_def)
  with notify cons_same_set_spm show ?case
    by (auto simp: hbm3_notify_def specdef_id_eq_impl_id Let_def split: if_splits)
next
  case (issue log h cmd av h')
  then show ?case by (auto simp: hbm3_issue_command_def bind_eq_Some_conv)
qed

text \<open>The constraint matrix of a configured device, in terms of its timing values.\<close>

lemma hbm3_init_tcons:
  assumes "hbm3_init cf = Inr h0" "0 \<le> l" "l < 6" "0 \<le> p" "p < 16"
    and "ti \<in> set (hbm3_constraints (V_of (hb_timing_vals h0)))"
    and "init_adds hbm3_levels hbm3_commands ti l p t"
  shows "t \<in> set (ds_timing_cons (hb_spec h0) ! nat l ! nat p)"
proof -
  note sp = hbm3_spec_of_Some [OF hbm3_init_Inr(3) [OF assms(1)]]
  from populate_timingcons_mem [OF sp(10), of l p t] assms show ?thesis by auto
qed

section \<open>The four-activation window\<close>

lemma node_log_event:
  assumes "e \<in> set (node_log log path)" "\<forall>c \<in> set log. cons_same tcs0 (cr_cons c)"
    and "path \<noteq> []" "length path \<le> 6" "ev_cmd e \<noteq> 14" "0 \<le> ev_cmd e" "ev_cmd e < 16"
  shows "ev_ts e = tcs0 ! (length path - 1) ! nat (ev_cmd e)"
proof -
  from assms(1) obtain c where c: "c \<in> set log" "proj c 0 path = Some e"
    by (auto simp: node_log_def map_filter_mem split: if_splits)
  have "nat (0 + int (length path) - 1) = length path - 1" using assms(3) by (cases path) auto
  with proj_fields [OF c(2)] have
    f: "ev_cmd e = cr_cmd c" "ev_ts e = cr_cons c ! (length path - 1) ! nat (ev_cmd e)"
    by simp_all
  have "length path - 1 < 6" "nat (ev_cmd e) < 16" "nat (ev_cmd e) \<noteq> 14" using assms by auto
  with assms(2) c(1) f show ?thesis by (auto simp: cons_same_def)
qed

text \<open>A row of the table at work: the cycle it demands of a following command at a node.\<close>

lemma row_due:
  assumes "hbm3_init cf = Inr h0" "hbm3_run h0 log h"
    and "ti \<in> set (hbm3_constraints (V_of (hb_timing_vals h0)))"
    and "impl_id hbm3_levels (ti_level ti) = Some l" "length path = nat l + 1" "l < 4"
    and "pn \<in> set (ti_preceding ti)" "impl_id hbm3_commands pn = Some p" "p \<noteq> cmd_SPM"
    and "fn \<in> set (ti_following ti)" "impl_id hbm3_commands fn = Some f"
    and "nat (ti_window ti) \<le> length (times (node_log log path) p)"
  shows "times (node_log log path) p ! nat (ti_window ti - 1) + ti_latency ti
    \<in> set (due (node_log log path) f)"
proof -
  have wf: "hbm3_wf h0" using hbm3_wf_init assms(1) .
  have win: "1 \<le> ti_window ti" "\<not> ti_sibling ti" using hbm3_constraint_windows assms(3) by auto
  have rng: "0 \<le> l" "0 \<le> p" "p < 16" using impl_id_range [OF assms(4)] impl_id_range [OF assms(8)] by auto
  have len: "path \<noteq> []" "length path \<le> 6" "length path - 1 = nat l" using assms(5,6) by auto
  let ?log = "node_log log path"
  have "times ?log p \<noteq> []" using assms(12) win by auto
  from times_split [OF this] obtain es e log' where
    split: "?log = es @ e # log'" "ev_target e" "ev_cmd e = p" "times (e # log') p = times ?log p"
    by force
  let ?t = "mk_tcons_entry f (ti_latency ti) (ti_window ti) (ti_sibling ti)"
  have "?t \<in> set (ds_timing_cons (hb_spec h0) ! nat l ! nat p)"
    using assms rng by (intro hbm3_init_tcons [OF assms(1) _ _ _ _ assms(3)]) (auto simp: init_adds_def)
  moreover have "ev_ts e = ds_timing_cons (hb_spec h0) ! nat l ! nat p"
    using node_log_event [of e log path "ds_timing_cons (hb_spec h0)"] run_cons_same [OF assms(2) wf]
      split assms(9) rng len by auto
  ultimately have "?t \<in> set (ev_ts e)" by simp
  from due_intro [OF this _ _ split(2), of f log' es] split assms(12) win
  show ?thesis by (simp add: mk_tcons_entry_def)
qed

text \<open>An accepted command meets what is due at each addressed node down to its scope.\<close>

lemma ready_due:
  assumes "hbm3_init cf = Inr h0" "hbm3_run h0 log h" "hbm3_check_ready h f av = Some True"
    and "node_at (hb_channels h0 ! nat (av ! 0)) js \<noteq> None" "addressed av 1 js"
    and "int (length js) \<le> ds_scopes (hb_spec h0) ! nat f" "y \<in> set (due (node_log log (av ! 0 # js)) f)"
  shows "y \<le> hb_clk h"
  using check_ready_due [OF assms(1-3)] assms(4-7) by blast

text \<open>C18: a row of the timing table is enforced at every level within the scope of the command that follows. Take a
  row of \<open>hbm3_constraints\<close> at the level of a node, one of its preceding commands (other than \<open>SPM\<close>, whose latency is
  dynamic) and one of its following commands whose scope in \<open>m_command_scopes\<close> reaches that level. When \<open>check_ready\<close>
  accepts the following command for an address through the node, the row's latency has passed since the \<open>window\<close>-th
  latest preceding command at that node. Rows at a level below the scope of their following command are not
  checked at all: those are the gaps of the all-bank commands that C28 states.\<close>

theorem hbm3_constraint_enforced:
  assumes "hbm3_init cf = Inr h0" "hbm3_run h0 log h" "hbm3_check_ready h f av = Some True"
    and "ti \<in> set (hbm3_constraints (V_of (hb_timing_vals h0)))"
    and "impl_id hbm3_levels (ti_level ti) = Some (int (length js))"
    and "pn \<in> set (ti_preceding ti)" "impl_id hbm3_commands pn = Some p" "p \<noteq> cmd_SPM"
    and "fn \<in> set (ti_following ti)" "impl_id hbm3_commands fn = Some f"
    and "node_at (hb_channels h0 ! nat (av ! 0)) js \<noteq> None" "addressed av 1 js"
    and "int (length js) \<le> ds_scopes (hb_spec h0) ! nat f"
    and "nat (ti_window ti) \<le> length (times (node_log log (av ! 0 # js)) p)"
  shows "times (node_log log (av ! 0 # js)) p ! nat (ti_window ti - 1) + ti_latency ti \<le> hb_clk h"
proof (rule ready_due [OF assms(1-3,11-13)])
  have wf: "hbm3_wf h0" using hbm3_wf_init assms(1) .
  have "nat (av ! 0) < length (hb_channels h)"
    using assms(3) by (auto simp: hbm3_check_ready_def hbm3_channel_def bind_eq_Some_conv vec_simps)
  with hbm3_run_inv [OF assms(2) wf] have "nat (av ! 0) < length (hb_channels h0)"
    by (simp add: run_inv_def)
  from node_at_depth [OF wf this assms(11)] have "length js \<le> 3" .
  then show "times (node_log log (av ! 0 # js)) p ! nat (ti_window ti - 1) + ti_latency ti
      \<in> set (due (node_log log (av ! 0 # js)) f)"
    using assms by (intro row_due [OF assms(1,2,4,5) _ _ assms(6-10)]) auto
qed

text \<open>C19: the four-activation window. When \<open>check_ready\<close> accepts an \<open>ACT\<close> for a pseudochannel
  that has already seen at least four activations, at least \<open>nFAW\<close> cycles have passed since the
  fourth latest of them, so no five activations of a pseudochannel fall into one window.\<close>

theorem hbm3_four_activation_window:
  assumes "hbm3_init cf = Inr h0" "hbm3_run h0 log h" "hbm3_check_ready h cmd_ACT av = Some True"
    and "node_at (hb_channels h0 ! nat (av ! 0)) [av ! 1] \<noteq> None"
    and "4 \<le> length (times (node_log log [av ! 0, av ! 1]) cmd_ACT)"
  shows "times (node_log log [av ! 0, av ! 1]) cmd_ACT ! 3 + V_of (hb_timing_vals h0) ''nFAW'' \<le> hb_clk h"
proof (rule ready_due [OF assms(1-4)])
  have mem: "tinit_window ''pseudochannel'' [''ACT''] [''ACT''] (V_of (hb_timing_vals h0) ''nFAW'') 4
      \<in> set (hbm3_constraints (V_of (hb_timing_vals h0)))"
    by (simp add: hbm3_constraints_def)
  show "times (node_log log [av ! 0, av ! 1]) cmd_ACT ! 3 + V_of (hb_timing_vals h0) ''nFAW''
      \<in> set (due (node_log log [av ! 0, av ! 1]) cmd_ACT)"
    using row_due [OF assms(1,2) mem, of 1 "[av ! 0, av ! 1]" "''ACT''" 0 "''ACT''" 0] assms(5)
    by (simp add: tinit_window_def tinit_def)
  show "int (length [av ! 1]) \<le> ds_scopes (hb_spec h0) ! nat cmd_ACT"
    using hbm3_wf_spec(1) [OF hbm3_wf_init [OF assms(1)]] by simp
qed (simp add: addr_match_def)

section \<open>The dynamic latency of the sparse command\<close>

lemma hbm3_run_trans: "hbm3_run h1 log' h2 \<Longrightarrow> hbm3_run h0 log h1 \<Longrightarrow> hbm3_run h0 (log' @ log) h2"
  by (induction rule: hbm3_run.induct) (auto intro: hbm3_run.intros)

lemma node_log_append: "node_log (log' @ log) path = node_log log' path @ node_log log path"
  by (simp add: node_log_def List.map_filter_def)

definition spm_latency :: "int \<Rightarrow> int" where
  "spm_latency v = (if u64 v > 0 then i32 (u64 v) else 1)"

text \<open>The commands an \<open>SPM\<close> holds back in its pseudochannel.\<close>

definition spm_blocked :: "string list" where
  "spm_blocked = [''ACT'', ''PRE'', ''RD'', ''WR'', ''RDA'', ''WRA'', ''MAC'', ''EMUL'', ''MOV'', ''SPM'', ''ACC'']"

lemma spm_row:
  assumes "hbm3_init cf = Inr h0" "hbm3_run h0 log h" "fn \<in> set spm_blocked"
    and "impl_id hbm3_commands fn = Some f" "hbm3_notify h ''sparepim_spm_latency'' L = Some h1"
  shows "mk_tcons_entry f (spm_latency L) 1 False \<in> set (ds_timing_cons (hb_spec h1) ! 1 ! 14)"
proof -
  have wf: "hbm3_wf h0" using hbm3_wf_init assms(1) .
  let ?t0 = "mk_tcons_entry f (V_of (hb_timing_vals h0) ''nSPM'') 1 False"
  have mem: "tinit ''pseudochannel'' [''SPM''] [''ACT'', ''PRE'', ''PREA'', ''RD'', ''WR'', ''RDA'',
        ''WRA'', ''MAC'', ''EMUL'', ''MOV'', ''SPM'', ''ACC''] (V_of (hb_timing_vals h0) ''nSPM'')
      \<in> set (hbm3_constraints (V_of (hb_timing_vals h0)))"
    by (simp add: hbm3_constraints_def)
  have "?t0 \<in> set (ds_timing_cons (hb_spec h0) ! nat 1 ! nat 14)"
    using assms(3,4) by (intro hbm3_init_tcons [OF assms(1) _ _ _ _ mem]) (auto simp: init_adds_def tinit_def spm_blocked_def)
  then have "?t0\<lparr>tc_val := 0\<rparr> \<in> set (map (\<lambda>t. t\<lparr>tc_val := 0\<rparr>) (ds_timing_cons (hb_spec h0) ! 1 ! 14))"
    by simp
  also have "map (\<lambda>t. t\<lparr>tc_val := 0\<rparr>) (ds_timing_cons (hb_spec h0) ! 1 ! 14) =
      map (\<lambda>t. t\<lparr>tc_val := 0\<rparr>) (ds_timing_cons (hb_spec h) ! 1 ! 14)"
    using run_cons_same [OF assms(2) wf] by (simp add: cons_same_def)
  finally obtain t where t: "t \<in> set (ds_timing_cons (hb_spec h) ! 1 ! 14)" "t\<lparr>tc_val := 0\<rparr> = ?t0\<lparr>tc_val := 0\<rparr>"
    by auto
  from t(2) have "t\<lparr>tc_val := spm_latency L\<rparr> = mk_tcons_entry f (spm_latency L) 1 False"
    by (cases t) (simp add: mk_tcons_entry_def)
  moreover have "tcons_dims 6 16 (ds_timing_cons (hb_spec h))"
    using hbm3_run_inv [OF assms(2) wf] by (simp add: run_inv_def cons_ok_def)
  then have "ds_timing_cons (hb_spec h1) ! 1 ! 14 =
      map (\<lambda>t. t\<lparr>tc_val := spm_latency L\<rparr>) (ds_timing_cons (hb_spec h) ! 1 ! 14)"
    using assms(5) by (auto simp: hbm3_notify_def specdef_id_eq_impl_id Let_def spm_latency_def
        set_spm_latency_nth)
  ultimately show ?thesis using t(1) by (metis (no_types, lifting) image_eqI list.set_map)
qed

text \<open>C20: the dynamic SPM latency. After the controller has notified the device of a latency and
  issued \<open>SPM\<close> at that point, every run that follows keeps \<open>check_ready\<close> from accepting a row,
  column or PIM command (\<open>spm_blocked\<close>) for the same pseudochannel before that latency has passed.
  Later notifications do not shorten it.\<close>

theorem hbm3_spm_blocks:
  assumes "hbm3_init cf = Inr h0" "hbm3_run h0 log h"
    and "hbm3_notify h ''sparepim_spm_latency'' L = Some h1" "hbm3_issue_command h1 cmd_SPM av = Some h2"
    and "hbm3_run h2 log' h3" "hbm3_check_ready h3 f av' = Some True"
    and "fn \<in> set spm_blocked" "impl_id hbm3_commands fn = Some f"
    and "av' ! 0 = av ! 0" "av' ! 1 = av ! 1"
    and "node_at (hb_channels h0 ! nat (av ! 0)) [av ! 1] \<noteq> None"
  shows "hb_clk h + spm_latency L \<le> hb_clk h3"
proof -
  let ?c = "\<lparr>cr_cons = ds_timing_cons (hb_spec h1), cr_cmd = cmd_SPM, cr_addr = av, cr_clk = hb_clk h1\<rparr>"
  let ?e = "\<lparr>ev_ts = ds_timing_cons (hb_spec h1) ! 1 ! 14, ev_cmd = 14, ev_clk = hb_clk h1, ev_target = True\<rparr>"
  let ?path = "[av ! 0, av ! 1]"
  have run: "hbm3_run h0 (log' @ ?c # log) h3"
    using hbm3_run_trans [OF assms(5) hbm3_run.issue [OF hbm3_run.notify [OF assms(2,3)] assms(4)]] .
  have clk: "hb_clk h1 = hb_clk h"
    using assms(3) by (auto simp: hbm3_notify_def specdef_id_eq_impl_id Let_def)
  have log: "node_log (log' @ ?c # log) ?path = node_log log' ?path @ ?e # node_log log ?path"
    by (simp add: node_log_append node_log_Cons addr_match_def)
  have "hb_clk h1 + spm_latency L \<in> set (due (node_log (log' @ ?c # log) ?path) f)"
    unfolding log using due_intro [of "mk_tcons_entry f (spm_latency L) 1 False" ?e f
        "node_log log ?path" "node_log log' ?path"] spm_row [OF assms(1,2,7,8,3)]
    by (simp add: mk_tcons_entry_def times_Cons)
  moreover have "1 \<le> ds_scopes (hb_spec h0) ! nat f"
    using assms(7,8) hbm3_wf_spec(1) [OF hbm3_wf_init [OF assms(1)]] by (auto simp: spm_blocked_def)
  ultimately show ?thesis
    using ready_due [OF assms(1) run assms(6), of "[av ! 1]" "hb_clk h1 + spm_latency L"] assms(9-11) clk
    by (simp add: addr_match_def)
qed

end
