(* ===== verification/Dram_Access.thy ===== *)
theory Dram_Access
  imports Dram_Device
begin

text \<open>
  Which node operations are defined: with an address that fits the organization, \<open>check_ready\<close>,
  \<open>update_timing\<close> and \<open>update_states\<close> never index out of range. Levels below the channel may be open.
\<close>

section \<open>Addresses that fit the organization\<close>

definition fits :: "nat \<Rightarrow> int list \<Rightarrow> addr_vec \<Rightarrow> bool" where
  "fits depth cnt av \<longleftrightarrow> depth + 2 \<le> length av \<and>
     (\<forall>l \<in> {1..depth}. av ! l = -1 \<or> 0 \<le> av ! l \<and> av ! l < cnt ! l)"

lemma fits_child:
  assumes "fits depth cnt av" "l + int (Suc k) = int depth" "0 \<le> l"
  shows "vec_at av (l + 1) = Some (av ! nat (l + 1))"
    "av ! nat (l + 1) = -1 \<or> 0 \<le> av ! nat (l + 1) \<and> av ! nat (l + 1) < cnt ! nat (l + 1)"
proof -
  have "nat (l + 1) \<in> {1..depth}" using assms(2,3) by auto
  then show "vec_at av (l + 1) = Some (av ! nat (l + 1))"
    "av ! nat (l + 1) = -1 \<or> 0 \<le> av ! nat (l + 1) \<and> av ! nat (l + 1) < cnt ! nat (l + 1)"
    using assms by (auto simp: fits_def vec_at_def)
qed

lemma fits_leaf: "fits depth cnt av \<Longrightarrow> l = int depth \<Longrightarrow> vec_at av (l + 1) = Some (av ! nat (l + 1))"
  by (simp add: fits_def vec_at_def)

text \<open>An address of a device: a channel it has, and below it levels that exist or are open.\<close>

definition dev_on :: "standard \<Rightarrow> device \<Rightarrow> addr_vec \<Rightarrow> bool" where
  "dev_on st d av \<longleftrightarrow> fits (node_depth (st_levels st)) (ds_count (dv_spec d)) av \<and>
     0 \<le> av ! 0 \<and> av ! 0 < ds_count (dv_spec d) ! 0"

lemma node_at_kid: "j < length cs \<Longrightarrow> node_at (cs ! j) js = node_at (Node d cs) (int j # js)"
  by simp

lemma tree_ok_kid:
  "tree_ok cnt (Suc k) l i (Node d cs) \<Longrightarrow> c \<in> set cs \<Longrightarrow> \<exists>j. tree_ok cnt k (l + 1) j c \<and>
     (\<forall>js. node_at c js = node_at (Node d cs) (j # js))"
proof -
  assume t: "tree_ok cnt (Suc k) l i (Node d cs)" and "c \<in> set cs"
  then obtain j where j: "j < length cs" "c = cs ! j" by (auto simp: in_set_conv_nth)
  with t have "tree_ok cnt k (l + 1) (int j) c \<and> (\<forall>js. node_at c js = node_at (Node d cs) (int j # js))"
    by simp
  then show ?thesis by blast
qed

section \<open>Readiness is defined\<close>

lemma check_ready_total:
  assumes "tree_ok cnt k l i n" "l + int k = int depth" "0 \<le> l" "fits depth cnt av"
    and "\<forall>js d. node_at n js = Some d \<longrightarrow> length (nd_ready d) = nc"
    and "0 \<le> cmd" "nat cmd < nc" "length (ds_scopes sp) = nc"
  shows "\<exists>b. check_ready sp cmd av now n = Some b"
  using assms(1-3,5)
proof (induction k arbitrary: l i n)
  case 0
  obtain d where n: "n = Node d []" and r: "nd_level d = l" using "0.prems"(1) by (cases n) auto
  have "length (nd_ready d) = nc" using "0.prems"(4) [rule_format, of "[]"] n by simp
  moreover have "vec_at av (l + 1) = Some (av ! nat (l + 1))" using fits_leaf [OF assms(4)] "0.prems"(2) by simp
  ultimately show ?case using assms(6-8)
    by (auto simp: n r check_ready.simps vec_at_def nat_less_iff)
next
  case (Suc k)
  obtain d cs where n: "n = Node d cs" by (cases n)
  with Suc.prems(1) have r: "nd_level d = l" and len: "length cs = nat (cnt ! nat (l + 1))" by auto
  have rl: "length (nd_ready d) = nc" using Suc.prems(4) [rule_format, of "[]"] n by simp
  note child = fits_child [OF assms(4) Suc.prems(2,3)]
  have kids: "\<exists>b. check_ready sp cmd av now c = Some b" if c: "c \<in> set cs" for c
  proof -
    from tree_ok_kid [OF Suc.prems(1) [unfolded n] c] obtain j where
      j: "tree_ok cnt k (l + 1) j c" "\<forall>js. node_at c js = node_at n (j # js)" by (auto simp: n)
    show ?thesis using Suc.IH [OF j(1)] Suc.prems(2,3,4) j(2) by simp
  qed
  then have "\<exists>b. list_allM (check_ready sp cmd av now) cs = Some b"
    using list_allM_total [of cs "check_ready sp cmd av now" "\<lambda>c. the (check_ready sp cmd av now c)"] by fastforce
  moreover have "\<exists>b. Option.bind (vec_at cs (av ! nat (l + 1))) (check_ready sp cmd av now) = Some b"
    if "av ! nat (l + 1) \<noteq> -1"
    using child(2) that kids len by (auto simp: vec_at_def)
  moreover have "vec_at (nd_ready d) cmd = Some (nd_ready d ! nat cmd)"
    "vec_at (ds_scopes sp) cmd = Some (ds_scopes sp ! nat cmd)"
    using rl assms(6-8) by (auto simp: vec_at_def nat_less_iff)
  ultimately show ?case by (auto simp: n r child(1) check_ready.simps)
qed

section \<open>Issuing is defined\<close>

lemma mat_at_dims:
  assumes "length m = nl" "\<forall>row \<in> set m. length row = nc" "0 \<le> l" "l < int nl" "0 \<le> c" "c < int nc"
  shows "mat_at m l c = Some (m ! nat l ! nat c)" "m ! nat l ! nat c \<in> set (m ! nat l)" "m ! nat l \<in> set m"
proof -
  have l: "nat l < length m" using assms by simp
  then show mem: "m ! nat l \<in> set m" by simp
  then have "nat c < length (m ! nat l)" using assms by simp
  then show "mat_at m l c = Some (m ! nat l ! nat c)" "m ! nat l ! nat c \<in> set (m ! nat l)"
    using assms l by (auto simp: mat_at_def vec_at_def)
qed

lemma update_timing_total:
  assumes "tree_ok cnt k l i n" "l + int k = int depth" "0 \<le> l" "depth < length av" "depth < nl"
    and "tcons_dims nl nc tcs" "0 \<le> cmd" "cmd < int nc"
  shows "\<exists>n'. update_timing tcs cmd av now n = Some n'"
  using assms(1-3)
proof (induction k arbitrary: l i n)
  case 0
  obtain d where n: "n = Node d []" and r: "nd_level d = l" using "0.prems"(1) by (cases n) auto
  have "mat_at tcs l cmd \<noteq> None"
    using mat_at_dims(1) [of tcs nl nc l cmd] "0.prems"(2,3) assms(5-8) by (simp add: tcons_dims_def)
  moreover have "vec_at av l \<noteq> None" using "0.prems"(2) assms(4) by (simp add: vec_at_def)
  ultimately show ?case by (auto simp: n r update_timing.simps)
next
  case (Suc k)
  obtain d cs where n: "n = Node d cs" by (cases n)
  with Suc.prems(1) have r: "nd_level d = l" by auto
  have "mat_at tcs l cmd \<noteq> None"
    using mat_at_dims(1) [of tcs nl nc l cmd] Suc.prems(2,3) assms(5-8) by (simp add: tcons_dims_def)
  moreover have "vec_at av l \<noteq> None" using Suc.prems(2,3) assms(4) by (simp add: vec_at_def)
  moreover have "\<exists>cs'. those (map (update_timing tcs cmd av now) cs) = Some cs'"
  proof (rule those_map_ex)
    fix c assume "c \<in> set cs"
    from tree_ok_kid [OF Suc.prems(1) [unfolded n] this] obtain j where "tree_ok cnt k (l + 1) j c" by blast
    from Suc.IH [OF this] Suc.prems(2,3) show "\<exists>y. update_timing tcs cmd av now c = Some y" by simp
  qed
  ultimately show ?case by (auto simp: n r update_timing.simps)
qed

text \<open>The actions that walk down to the banks know how many levels that takes.\<close>

definition level_dist :: "name_table \<Rightarrow> string \<Rightarrow> string \<Rightarrow> int option" where
  "level_dist levels lo hi = do { l \<leftarrow> impl_id levels lo; h \<leftarrow> impl_id levels hi; Some (l - h) }"

lemma level_gap_dist: "level_gap sp lo hi = level_dist (ds_levels sp) lo hi"
  by (simp add: level_gap_def level_dist_def)

definition action_defined :: "name_table \<Rightarrow> action_fn \<Rightarrow> bool" where
  "action_defined levels a \<longleftrightarrow> (case a of
     Rank_PREab \<Rightarrow> level_dist levels ''bank'' ''rank'' \<in> {Some 1, Some 2}
   | Channel_PREab \<Rightarrow> level_dist levels ''bank'' ''channel'' \<in> {Some 2, Some 3}
   | _ \<Rightarrow> True)"

lemma run_action_total: "action_defined (ds_levels sp) a \<Longrightarrow> \<exists>n'. run_action sp a target n = Some n'"
  by (cases a) (auto simp: action_defined_def level_gap_dist)

text \<open>A matrix of actions with a row for every level and an entry for every command.\<close>

definition actions_ok :: "nat \<Rightarrow> nat \<Rightarrow> name_table \<Rightarrow> action_fn option list list \<Rightarrow> bool" where
  "actions_ok nl nc levels m \<longleftrightarrow> length m = nl \<and> (\<forall>row \<in> set m. length row = nc \<and>
     (\<forall>a \<in> set row. case a of None \<Rightarrow> True | Some f \<Rightarrow> action_defined levels f))"

lemma node_action_total:
  assumes "actions_ok nl nc (ds_levels sp) (ds_actions sp)" "0 \<le> l" "l < int nl" "0 \<le> cmd" "cmd < int nc"
  shows "\<exists>act n'. mat_at (ds_actions sp) l cmd = Some act \<and>
    (case act of None \<Rightarrow> Some n | Some a \<Rightarrow> run_action sp a target n) = Some n'"
proof -
  have dims: "length (ds_actions sp) = nl" "\<forall>row \<in> set (ds_actions sp). length row = nc"
    using assms(1) by (simp_all add: actions_ok_def)
  note m = mat_at_dims [OF dims assms(2-5)]
  have "case ds_actions sp ! nat l ! nat cmd of None \<Rightarrow> True | Some f \<Rightarrow> action_defined (ds_levels sp) f"
    using assms(1) m(2,3) unfolding actions_ok_def by blast
  with m(1) run_action_total show ?thesis
    by (cases "ds_actions sp ! nat l ! nat cmd") auto
qed

lemma update_states_total:
  assumes "tree_ok cnt k l i n" "l + int k = int depth" "0 \<le> l" "fits depth cnt av" "depth < nl"
    and "actions_ok nl nc (ds_levels sp) (ds_actions sp)" "length (ds_scopes sp) = nc"
    and "0 \<le> cmd" "cmd < int nc"
  shows "\<exists>n'. update_states sp cmd av n = Some n'"
  using assms(1-3)
proof (induction k arbitrary: l i n)
  case 0
  obtain d where n: "n = Node d []" and r: "nd_level d = l" using "0.prems"(1) by (cases n) auto
  have av: "vec_at av (l + 1) = Some (av ! nat (l + 1))" using fits_leaf [OF assms(4)] "0.prems"(2) by simp
  have sc: "vec_at (ds_scopes sp) cmd = Some (ds_scopes sp ! nat cmd)"
    using assms(7-9) by (simp add: vec_at_def)
  have "l < int nl" using "0.prems"(2) assms(5) by simp
  from node_action_total [OF assms(6) "0.prems"(3) this assms(8,9), of n "av ! nat (l + 1)"] obtain act n' where
    n': "mat_at (ds_actions sp) l cmd = Some act"
      "(case act of None \<Rightarrow> Some n | Some a \<Rightarrow> run_action sp a (av ! nat (l + 1)) n) = Some n'" by blast
  have "timing_view n' = timing_view n"
    using n'(2) by (auto split: option.splits dest: timing_view_run_action)
  then have "kids n' = []" by (simp add: timing_view_kids n)
  then show ?case using n' unfolding n by (simp add: r update_states.simps av sc)
next
  case (Suc k)
  obtain d cs where n: "n = Node d cs" by (cases n)
  with Suc.prems(1) have r: "nd_level d = l" by auto
  note av = fits_child [OF assms(4) Suc.prems(2,3)]
  have sc: "vec_at (ds_scopes sp) cmd = Some (ds_scopes sp ! nat cmd)"
    using assms(7-9) by (simp add: vec_at_def)
  have "l < int nl" using Suc.prems(2) assms(5) by simp
  from node_action_total [OF assms(6) Suc.prems(3) this assms(8,9), of n "av ! nat (l + 1)"] obtain act m where
    m: "mat_at (ds_actions sp) l cmd = Some act"
      "(case act of None \<Rightarrow> Some n | Some a \<Rightarrow> run_action sp a (av ! nat (l + 1)) n) = Some m" by blast
  have "timing_view m = timing_view n"
    using m(2) by (auto split: option.splits dest: timing_view_run_action)
  then have tm: "tree_ok cnt (Suc k) l i m" using tree_ok_timing_view Suc.prems(1) by metis
  obtain dm cm where mm: "m = Node dm cm" by (cases m)
  have kids: "\<exists>y. update_states sp cmd av c = Some y" if c: "c \<in> set cm" for c
  proof -
    from tree_ok_kid [OF tm [unfolded mm] c] obtain j where "tree_ok cnt k (l + 1) j c" by blast
    from Suc.IH [OF this] Suc.prems(2,3) show ?thesis by simp
  qed
  have len: "length cm = nat (cnt ! nat (l + 1))" using tm by (simp add: mm)
  have "\<exists>cs'. those (map (update_states sp cmd av) cm) = Some cs'"
    by (rule those_map_ex) (rule kids)
  moreover have "\<exists>c c'. vec_at cm (av ! nat (l + 1)) = Some c \<and> update_states sp cmd av c = Some c'"
    if "av ! nat (l + 1) \<noteq> -1"
    using av(2) that kids len by (auto simp: vec_at_def)
  ultimately show ?case using m unfolding n
    by (auto simp: r update_states.simps av(1) sc mm)
qed

end
