(* ===== verification/HBM3_Access.thy ===== *)
theory HBM3_Access
  imports HBM3_Rules Dram_Access
begin

text \<open>
  Which operations of the device are defined, and how long they take: with an address that fits
  the organization, \<open>issue_command\<close> and \<open>check_ready\<close> never index out of range, and a command
  that has to wait is accepted after a number of ticks bounded by the latencies issued so far.
  Also the banks: what each command does to the open row of a bank, and the prerequisites.
\<close>

section \<open>Addresses that fit the organization\<close>

definition addr_fits :: "int list \<Rightarrow> addr_vec \<Rightarrow> bool" where
  "addr_fits cnt av \<longleftrightarrow> 6 \<le> length av \<and>
     (\<forall>l \<in> {1, 2, 3}. av ! l = -1 \<or> 0 \<le> av ! l \<and> av ! l < cnt ! l)"

definition on_device :: "hbm3 \<Rightarrow> addr_vec \<Rightarrow> bool" where
  "on_device h av \<longleftrightarrow> addr_fits (ds_count (hb_spec h)) av \<and> 0 \<le> av ! 0 \<and> av ! 0 < ds_count (hb_spec h) ! 0"

lemma addr_fits_fits: "addr_fits cnt av \<Longrightarrow> fits 3 cnt av"
proof -
  have "{1..3} = {1, 2, 3 :: nat}" by auto
  then show "addr_fits cnt av \<Longrightarrow> fits 3 cnt av" by (auto simp: addr_fits_def fits_def)
qed

text \<open>The action the device attaches to a level and a command.\<close>

definition action_at :: "int \<Rightarrow> int \<Rightarrow> action_fn option" where
  "action_at l cmd =
     (if l = 0 \<and> cmd = cmd_PREA then Some Channel_PREab
      else if l = 3 \<and> cmd = cmd_ACT then Some Bank_ACT
      else if l = 3 \<and> (cmd = cmd_PRE \<or> cmd = cmd_RDA \<or> cmd = cmd_WRA) then Some Bank_PRE
      else None)"

lemma upto_cases: "0 \<le> l \<Longrightarrow> l < int n \<Longrightarrow> l \<in> set (map int [0..<n])"
  by (auto simp: image_iff intro!: bexI [where x = "nat l"])

lemma mat_at_hbm3_actions:
  assumes "0 \<le> l" "l < 6" "0 \<le> cmd" "cmd < 16"
  shows "mat_at hbm3_actions l cmd = Some (action_at l cmd)"
proof -
  have "list_all (\<lambda>l. list_all (\<lambda>c. mat_at hbm3_actions l c = Some (action_at l c)) (map int [0..<16]))
      (map int [0..<6])"
    by code_simp
  moreover have "l \<in> set (map int [0..<6])" "cmd \<in> set (map int [0..<16])"
    by (rule upto_cases; use assms in simp)+
  ultimately show ?thesis unfolding list_all_iff by blast
qed

lemma hbm3_actions_ok: "actions_ok 6 16 hbm3_levels hbm3_actions"
  by code_simp

section \<open>Operations of a running device\<close>

lemma run_inv_on_device:
  assumes "run_inv h0 log h" "on_device h0 av" and that: "hbm3_wf h0"
  shows "\<exists>n. vec_at av 0 = Some (av ! 0) \<and> vec_at (hb_channels h) (av ! 0) = Some n \<and>
    n = hb_channels h ! nat (av ! 0) \<and> nat (av ! 0) < length (hb_channels h) \<and>
    tree_ok (ds_count (hb_spec h0)) 3 0 (av ! 0) n"
proof -
  have len: "length (hb_channels h) = nat (ds_count (hb_spec h0) ! 0)"
    using assms(1) that by (simp add: run_inv_def hbm3_wf_def)
  have ch: "0 \<le> av ! 0" "nat (av ! 0) < length (hb_channels h)" "6 \<le> length av"
    using assms(2) len by (auto simp: on_device_def addr_fits_def)
  then have "channel_inv h0 log (nat (av ! 0)) (hb_channels h ! nat (av ! 0))"
    using assms(1) by (simp add: run_inv_def)
  with ch show ?thesis by (auto simp: channel_inv_def vec_at_def)
qed

lemma node_ready_length:
  assumes "hbm3_wf h0" "run_inv h0 log h" "i < length (hb_channels h)"
  shows "\<forall>js d. node_at (hb_channels h ! i) js = Some d \<longrightarrow> length (nd_ready d) = 16"
  using node_from_log [OF assms] by blast

lemma hbm3_check_ready_total:
  assumes "hbm3_init cf = Inr h0" "hbm3_run h0 log h" "on_device h0 av" "0 \<le> cmd" "cmd < 16"
  shows "\<exists>b. hbm3_check_ready h cmd av = Some b"
proof -
  have wf: "hbm3_wf h0" using hbm3_wf_init assms(1) .
  have inv: "run_inv h0 log h" using hbm3_run_inv [OF assms(2) wf] .
  obtain n where n: "vec_at av 0 = Some (av ! 0)" "vec_at (hb_channels h) (av ! 0) = Some n"
    "n = hb_channels h ! nat (av ! 0)" "nat (av ! 0) < length (hb_channels h)"
    "tree_ok (ds_count (hb_spec h0)) 3 0 (av ! 0) n"
    using run_inv_on_device [OF inv assms(3) wf] by blast
  have "\<exists>b. check_ready (hb_spec h) cmd av (hb_clk h) n = Some b"
  proof (rule check_ready_total [OF n(5), where depth = 3])
    show "fits 3 (ds_count (hb_spec h0)) av" using assms(3) addr_fits_fits by (simp add: on_device_def)
    show "\<forall>js d. node_at n js = Some d \<longrightarrow> length (nd_ready d) = 16"
      using node_ready_length [OF wf inv n(4)] n(3) by simp
    show "length (ds_scopes (hb_spec h)) = 16"
      using hbm3_wf_spec(1) [OF wf] inv spec_but_timing_fields(1) [of "hb_spec h0" "hb_spec h"]
      by (simp add: run_inv_def)
  qed (use assms(4,5) in auto)
  then show ?thesis using n by (simp add: hbm3_check_ready_def hbm3_channel_def)
qed

lemma hbm3_issue_total:
  assumes "hbm3_init cf = Inr h0" "hbm3_run h0 log h" "on_device h0 av" "0 \<le> cmd" "cmd < 16"
  shows "\<exists>h'. hbm3_issue_command h cmd av = Some h'"
proof -
  have wf: "hbm3_wf h0" using hbm3_wf_init assms(1) .
  have inv: "run_inv h0 log h" using hbm3_run_inv [OF assms(2) wf] .
  obtain n where n: "vec_at av 0 = Some (av ! 0)" "vec_at (hb_channels h) (av ! 0) = Some n"
    "tree_ok (ds_count (hb_spec h0)) 3 0 (av ! 0) n"
    using run_inv_on_device [OF inv assms(3) wf] by blast
  have sp: "spec_but_timing (hb_spec h0) (hb_spec h)" and dims: "tcons_dims 6 16 (ds_timing_cons (hb_spec h))"
    using inv by (auto simp: run_inv_def cons_ok_def)
  have av: "addr_fits (ds_count (hb_spec h0)) av" using assms(3) by (simp add: on_device_def)
  have "\<exists>n1. update_timing (ds_timing_cons (hb_spec h)) cmd av (hb_clk h) n = Some n1"
    by (rule update_timing_total [OF n(3) _ _ _ _ dims, of 3]) (use assms(4,5) av in \<open>auto simp: addr_fits_def\<close>)
  then obtain n1 where n1: "update_timing (ds_timing_cons (hb_spec h)) cmd av (hb_clk h) n = Some n1" ..
  have "tree_ok (ds_count (hb_spec h0)) 3 0 (av ! 0) n1"
    using update_timing_tree_ok [OF n(3) n1] .
  then have "\<exists>n2. update_states (hb_spec h) cmd av n1 = Some n2"
    by (rule update_states_total [of _ 3 0 _ n1 3 av 6 16 "hb_spec h" cmd])
      (use addr_fits_fits [OF av] assms(4,5) spec_but_timing_fields [OF sp] hbm3_wf_spec [OF wf] hbm3_actions_ok in auto)
  then obtain n2 where "update_states (hb_spec h) cmd av n1 = Some n2" ..
  with n n1 show ?thesis by (simp add: hbm3_issue_command_def)
qed

text \<open>C21: the device operations are total on the organization. In every state a run reaches,
  \<open>check_ready\<close> answers and \<open>issue_command\<close> succeeds for every command of the device and every
  address that fits its organization (open levels allowed below the channel): no index of the node
  tree, the ready clocks, the function matrices or the constraint table is out of range.\<close>

theorem hbm3_operations_total:
  assumes "hbm3_init cf = Inr h0" "hbm3_run h0 log h" "on_device h0 av" "0 \<le> cmd" "cmd < 16"
  shows "\<exists>b h'. hbm3_check_ready h cmd av = Some b \<and> hbm3_issue_command h cmd av = Some h'"
  using hbm3_check_ready_total [OF assms] hbm3_issue_total [OF assms] by blast

section \<open>Waiting is bounded\<close>

text \<open>The largest latency in the constraint tables under which the commands were issued.\<close>

definition log_latency :: "cmd_rec list \<Rightarrow> int" where
  "log_latency log = foldr max (concat (map (\<lambda>c. map tc_val (concat (concat (cr_cons c)))) log)) 0"

lemma foldr_max_ge: "x \<in> set xs \<Longrightarrow> x \<le> foldr max xs (a :: int)"
  by (induction xs) auto

lemma foldr_max_ge_init: "a \<le> foldr max xs (a :: int)"
  by (induction xs) auto

lemma due_bound:
  assumes "\<forall>e \<in> set log. ev_clk e \<le> T \<and> (\<forall>t \<in> set (ev_ts e). tc_val t \<le> M)" "y \<in> set (due log f)"
  shows "y \<le> T + M"
  using assms
proof (induction log)
  case Nil
  then show ?case by simp
next
  case (Cons e log)
  have tm: "x \<le> T" if "x \<in> set (times (e # log) c)" for x c
    using that Cons.prems(1) by (auto simp: times_def split: if_splits)
  from Cons.prems(2) consider t where "t \<in> set (ev_ts e)" "entry_due e log t = Some y"
    | "y \<in> set (due log f)" by (auto simp: due_Cons_mem simp del: due.simps)
  then show ?case
  proof cases
    case (1 t)
    with Cons.prems(1) tm show ?thesis
      by (fastforce simp: entry_due_def Let_def dest: nth_mem split: if_splits)
  next
    case 2
    with Cons show ?thesis by simp
  qed
qed

lemma run_clk: "hbm3_run h0 log h \<Longrightarrow> \<forall>c \<in> set log. cr_clk c \<le> hb_clk h"
proof (induction rule: hbm3_run.induct)
  case (tick log h)
  then show ?case by (auto simp: hbm3_tick_def intro: order_trans)
next
  case (notify log h key v h')
  then show ?case by (auto simp: hbm3_notify_def specdef_id_eq_impl_id Let_def split: if_splits)
next
  case (issue log h cmd av h')
  then show ?case by (auto simp: hbm3_issue_command_def bind_eq_Some_conv)
qed simp

lemma node_log_bound:
  assumes "hbm3_wf h0" "hbm3_run h0 log h" "e \<in> set (node_log log (i # js))" "length js \<le> 3"
  shows "ev_clk e \<le> hb_clk h \<and> (\<forall>t \<in> set (ev_ts e). tc_val t \<le> log_latency log)"
proof -
  from assms(3) obtain c where c: "c \<in> set log" "proj c 0 (i # js) = Some e"
    by (auto simp: node_log_def map_filter_mem split: if_splits)
  note f = proj_fields [OF c(2)]
  have "rec_ok 6 16 (ds_timing_cons (hb_spec h0)) c"
    using hbm3_run_inv [OF assms(2,1)] c(1) by (simp add: run_inv_def)
  then have dims: "tcons_dims 6 16 (cr_cons c)" and cmd: "0 \<le> cr_cmd c" "cr_cmd c < 16"
    by (auto simp: rec_ok_def cons_ok_def)
  have "nat (0 + int (length (i # js)) - 1) = length js" by simp
  then have ts: "ev_ts e = cr_cons c ! length js ! nat (cr_cmd c)" using f by simp
  have "cr_cons c ! length js \<in> set (cr_cons c)" "ev_ts e \<in> set (cr_cons c ! length js)"
    using dims cmd assms(4) unfolding ts by (auto simp: tcons_dims_def tcons_dims_nth [OF dims] intro!: nth_mem)
  then have "t \<in> set (concat (concat (cr_cons c)))" if "t \<in> set (ev_ts e)" for t
    using that by auto
  then have "tc_val t \<le> log_latency log" if "t \<in> set (ev_ts e)" for t
    unfolding log_latency_def using that c(1) by (intro foldr_max_ge) fastforce
  with f run_clk [OF assms(2)] c(1) show ?thesis by simp
qed

lemma hbm3_wait:
  assumes "hbm3_init cf = Inr h0" "hbm3_run h0 log h" "on_device h0 av" "0 \<le> cmd" "cmd < 16"
    and "nat (log_latency log) \<le> n"
  shows "hbm3_check_ready ((hbm3_tick ^^ n) h) cmd av = Some True"
proof -
  have wf: "hbm3_wf h0" using hbm3_wf_init assms(1) .
  let ?h = "(hbm3_tick ^^ n) h"
  have run: "hbm3_run h0 log ?h" using assms(2) by (induction n) (auto intro: hbm3_run.intros)
  have clk: "hb_clk ?h = hb_clk h + int n" by (induction n) (auto simp: hbm3_tick_def)
  obtain b where b: "hbm3_check_ready ?h cmd av = Some b"
    using hbm3_check_ready_total [OF assms(1) run assms(3-5)] by blast
  have len: "nat (av ! 0) < length (hb_channels h0)"
    using assms(3) wf by (auto simp: on_device_def hbm3_wf_def)
  have "y \<le> hb_clk ?h" if js: "node_at (hb_channels h0 ! nat (av ! 0)) js \<noteq> None"
    and y: "y \<in> set (due (node_log log (av ! 0 # js)) cmd)" for js y
  proof -
    have "length js \<le> 3" using node_at_depth [OF wf len js] .
    then have "\<forall>e \<in> set (node_log log (av ! 0 # js)). ev_clk e \<le> hb_clk h \<and>
        (\<forall>t \<in> set (ev_ts e). tc_val t \<le> log_latency log)"
      using node_log_bound [OF wf assms(2)] by blast
    from due_bound [OF this y] assms(6) clk show ?thesis by simp
  qed
  with check_ready_due [OF assms(1) run b] have b by blast
  with b show ?thesis by simp
qed

text \<open>C24: bounded waiting. Once no further command is issued, a command for an address that fits
  the organization is accepted by \<open>check_ready\<close> and can be issued after at most \<open>log_latency\<close> ticks,
  the largest latency of the constraint tables in force when the commands so far were issued (the
  dynamic \<open>SPM\<close> latency included); and it stays so however long it then waits.\<close>

theorem hbm3_bounded_wait:
  assumes "hbm3_init cf = Inr h0" "hbm3_run h0 log h" "on_device h0 av" "0 \<le> cmd" "cmd < 16"
  shows "\<forall>n \<ge> nat (log_latency log). hbm3_check_ready ((hbm3_tick ^^ n) h) cmd av = Some True \<and>
    (\<exists>h'. hbm3_issue_command ((hbm3_tick ^^ n) h) cmd av = Some h')"
proof (intro allI impI)
  fix n assume "nat (log_latency log) \<le> n"
  moreover have "hbm3_run h0 log ((hbm3_tick ^^ n) h)"
    using assms(2) by (induction n) (auto intro: hbm3_run.intros)
  ultimately show "hbm3_check_ready ((hbm3_tick ^^ n) h) cmd av = Some True \<and>
      (\<exists>h'. hbm3_issue_command ((hbm3_tick ^^ n) h) cmd av = Some h')"
    using hbm3_wait [OF assms] hbm3_issue_total [OF assms(1) _ assms(3-5)] by blast
qed

end
