(* ===== verification/HBM3_Banks.thy ===== *)
theory HBM3_Banks
  imports HBM3_Access
begin

text \<open>
  The bank state machine of the device. \<open>bank_step\<close> is the abstract specification (what a command
  does to the open row of one bank); the tree walk of \<open>update_states\<close> refines it, and
  \<open>get_preq_command\<close> answers by it.
\<close>

section \<open>The abstract bank\<close>

type_synonym bank = "node_state \<times> (int \<rightharpoonup> node_state)"

definition bank_view :: "node_info \<Rightarrow> bank" where
  "bank_view d = (nd_state d, nd_rows d)"

definition bank_step :: "int \<Rightarrow> int \<Rightarrow> bank \<Rightarrow> bank" where
  "bank_step cmd row b =
     (if cmd = cmd_ACT then (Opened, (snd b)(row \<mapsto> Opened))
      else if cmd = cmd_PRE \<or> cmd = cmd_PREA \<or> cmd = cmd_RDA \<or> cmd = cmd_WRA then (Closed, Map.empty)
      else b)"

text \<open>The banks a command reaches: with \<open>PREA\<close> every bank of the channel.\<close>

definition reaches_bank :: "int \<Rightarrow> addr_vec \<Rightarrow> int list \<Rightarrow> bool" where
  "reaches_bank cmd av js \<longleftrightarrow> cmd = cmd_PREA \<or> addressed av 1 js"

definition hbm3_bank :: "hbm3 \<Rightarrow> int \<Rightarrow> int list \<Rightarrow> bank option" where
  "hbm3_bank h ch js =
     Option.bind (vec_at (hb_channels h) ch) (\<lambda>n. map_option bank_view (node_at n js))"

section \<open>The tree walk refines it\<close>

lemma bank_view_node_ev [simp]: "bank_view (node_ev e d) = bank_view d"
  by (simp add: bank_view_def)

lemma bank_view_update_timing:
  assumes "tree_ok cnt k l i n" "update_timing tcs cmd av now n = Some n'"
  shows "map_option bank_view (node_at n' js) = map_option bank_view (node_at n js)"
proof -
  let ?c = "\<lparr>cr_cons = tcs, cr_cmd = cmd, cr_addr = av, cr_clk = now\<rparr>"
  have "node_at n' js = map_option (apply_ev (proj ?c l (i # js))) (node_at n js)"
    using update_timing_node_at [of cnt k l i n ?c n'] assms by simp
  moreover have "bank_view (apply_ev e d) = bank_view d" for e d
    by (cases e) (simp_all add: apply_ev_def)
  ultimately show ?thesis by (simp add: option.map_comp o_def)
qed

lemma node_at_map_depth:
  "length js = k \<Longrightarrow> node_at (map_depth k f n) js = map_option f (node_at n js)"
proof (induction js arbitrary: k n)
  case Nil
  then show ?case by (cases n) simp
next
  case (Cons j js)
  obtain d cs where n: "n = Node d cs" by (cases n)
  from Cons show ?case by (auto simp: n vec_at_def)
qed

lemma kids_map_depth_empty [simp]: "kids (map_depth k f n) = [] \<longleftrightarrow> kids n = []"
  by (cases k; cases n) auto

lemma update_statesD:
  assumes "update_states sp cmd av (Node d cs) = Some n'"
  obtains child act m scope where "vec_at av (nd_level d + 1) = Some child"
    "mat_at (ds_actions sp) (nd_level d) cmd = Some act"
    "(case act of None \<Rightarrow> Some (Node d cs) | Some a \<Rightarrow> run_action sp a child (Node d cs)) = Some m"
    "vec_at (ds_scopes sp) cmd = Some scope"
    "(if nd_level d = scope \<or> kids m = [] then Some m
     else if child = -1 then do {
       cs' \<leftarrow> those (map (update_states sp cmd av) (kids m)); Some (Node (nd m) cs') }
     else do {
       c \<leftarrow> vec_at (kids m) child; c' \<leftarrow> update_states sp cmd av c;
       Some (Node (nd m) ((kids m)[nat child := c'])) }) = Some n'"
  using assms unfolding update_states.simps bind_eq_Some_conv by blast

text \<open>The walk below the channel, where only the bank level has an action.\<close>

lemma update_states_bank:
  assumes "tree_ok cnt k l i n" "l + int k = 3" "0 \<le> l" "length js = k"
    and "ds_actions sp = hbm3_actions" "ds_scopes sp = [4, 3, 0, 5, 5, 5, 5, 0, 3, 0, 3, 3, 3, 3, 3, 3]"
    and "update_states sp cmd av n = Some n'" "0 \<le> cmd" "cmd < 16" "cmd \<noteq> cmd_PREA"
  shows "map_option bank_view (node_at n' js) =
    map_option (\<lambda>d. (if addressed av (l + 1) js then bank_step cmd (av ! 4) else id) (bank_view d)) (node_at n js)"
  using assms(1-4,7)
proof (induction k arbitrary: l i n n' js)
  case 0
  obtain d where n: "n = Node d []" and r: "nd_level d = 3" and l: "l = 3"
    using "0.prems"(1,2) by (cases n) auto
  have act: "mat_at hbm3_actions 3 cmd = Some (action_at 3 cmd)"
    using mat_at_hbm3_actions assms(8,9) by simp
  obtain child ac m where
    s: "vec_at av 4 = Some child" "mat_at hbm3_actions 3 cmd = Some ac"
      "(case ac of None \<Rightarrow> Some (Node d []) | Some a \<Rightarrow> run_action sp a child (Node d [])) = Some m"
    and rest: "kids m = [] \<longrightarrow> n' = m"
  proof (rule update_statesD [OF "0.prems"(5) [unfolded n]], goal_cases)
    case (1 child ac m scope)
    have "kids m = [] \<longrightarrow> n' = m" using 1(6) by auto
    with 1(2-5) show ?case by (intro 1(1) [of child ac m]) (simp_all add: r assms(5) n)
  qed
  have n': "n' = m" if "kids m = []" using rest that by simp
  have ca: "child = av ! 4" "ac = action_at 3 cmd" using s act by (auto simp: vec_simps)
  have m: "(case action_at 3 cmd of None \<Rightarrow> Some n | Some a \<Rightarrow> run_action sp a (av ! 4) n) = Some m"
    using s(3) unfolding ca n .
  have "m = map_depth 0 (\<lambda>d. if cmd = cmd_ACT then d\<lparr>nd_state := Opened, nd_rows := (nd_rows d)(av ! 4 \<mapsto> Opened)\<rparr>
      else if cmd = cmd_PRE \<or> cmd = cmd_RDA \<or> cmd = cmd_WRA then close_bank d else d) n"
    using m by (auto simp: action_at_def n split: if_splits)
  moreover from this have "kids m = []" by (simp add: n)
  ultimately show ?case using n' "0.prems"(4) assms(10)
    by (auto simp: n l bank_view_def bank_step_def close_bank_def)
next
  case (Suc k)
  obtain d cs where n: "n = Node d cs" by (cases n)
  with Suc.prems(1) have r: "nd_level d = l" by auto
  obtain j js' where js: "js = j # js'" "length js' = k" using Suc.prems(4) by (cases js) auto
  have act: "mat_at hbm3_actions l cmd = Some None"
    using mat_at_hbm3_actions [of l cmd] assms(8-10) Suc.prems(2,3) by (simp add: action_at_def)
  obtain child scope where child: "vec_at av (l + 1) = Some child"
    and scope: "vec_at (ds_scopes sp) cmd = Some scope"
    and rest: "(if l = scope \<or> cs = [] then Some (Node d cs)
      else if child = -1 then do { cs' \<leftarrow> those (map (update_states sp cmd av) cs); Some (Node d cs') }
      else do { c \<leftarrow> vec_at cs child; c' \<leftarrow> update_states sp cmd av c; Some (Node d (cs[nat child := c'])) }) = Some n'"
  proof (rule update_statesD [OF Suc.prems(5) [unfolded n]], goal_cases)
    case (1 child ac m scope)
    have "ac = None" using 1(3) act by (simp add: r assms(5))
    with 1(4) have m: "m = Node d cs" by simp
    show ?case using 1(2,5,6) unfolding m r dnode.sel by (rule 1(1))
  qed
  have chld: "av ! nat (l + 1) = child" using child by (auto simp: vec_simps)
  have kid: "map_option bank_view (node_at c' js') =
      map_option (\<lambda>d. (if addressed av (l + 1 + 1) js' then bank_step cmd (av ! 4) else id) (bank_view d)) (node_at c js')"
    if "vec_at cs m = Some c" "update_states sp cmd av c = Some c'" for m c c'
  proof -
    from tree_ok_child [OF Suc.prems(1) [unfolded n] that(1)] have "tree_ok cnt k (l + 1) m c" by auto
    from Suc.IH [OF this _ _ js(2) that(2)] Suc.prems(2,3) show ?thesis by simp
  qed
  have leaf: "node_at n js = None" if "cs = []" using that by (auto simp: n js vec_at_def)
  consider (leaf) "cs = []" | (stop) "l = scope" "cs \<noteq> []" | (all) "l \<noteq> scope" "cs \<noteq> []" "child = -1"
    | (one) "l \<noteq> scope" "cs \<noteq> []" "child \<noteq> -1" by blast
  then show ?case
  proof cases
    case leaf
    with rest n have "n' = n" by simp
    with leaf \<open>cs = [] \<Longrightarrow> node_at n js = None\<close> show ?thesis by simp
  next
    case stop
    with scope assms(8-10) Suc.prems(2) have "cmd = 7 \<or> cmd = 9"
      by (auto simp: assms(6) vec_at_def nth_Cons' split: if_splits)
    moreover from stop rest n have "n' = n" by simp
    ultimately show ?thesis by (auto simp: bank_step_def)
  next
    case all
    with rest obtain cs' where n': "n' = Node d cs'" and
      cs': "list_all2 (\<lambda>x y. update_states sp cmd av x = Some y) cs cs'"
      by (auto simp: bind_eq_Some_conv those_map_Some)
    show ?thesis
    proof (cases "vec_at cs j")
      case None
      with vec_at_list_all2_None [OF cs'] show ?thesis by (simp add: n n' js)
    next
      case (Some c)
      with vec_at_list_all2 [OF cs'] obtain c' where c': "vec_at cs' j = Some c'"
        "update_states sp cmd av c = Some c'" by blast
      from kid [OF Some c'(2)] Some c'(1) all chld show ?thesis
        by (simp add: n n' js addr_match_def)
    qed
  next
    case one
    with rest obtain c c' where c: "vec_at cs child = Some c" "update_states sp cmd av c = Some c'"
      "n' = Node d (cs[nat child := c'])" by (auto simp: bind_eq_Some_conv)
    show ?thesis
    proof (cases "j = child")
      case True
      with c have "vec_at (cs[nat child := c']) j = Some c'" "vec_at cs j = Some c"
        by (auto simp: vec_at_update vec_simps)
      with kid [OF c(1,2)] True chld show ?thesis by (simp add: n c(3) js addr_match_def)
    next
      case False
      then have "vec_at (cs[nat child := c']) j = vec_at cs j"
        using c(1) by (auto simp: vec_at_update vec_simps)
      moreover have "\<not> addr_match (av ! nat (l + 1)) j" using False one chld by (simp add: addr_match_def)
      ultimately show ?thesis by (simp add: n c(3) js)
    qed
  qed
qed

lemma hbm3_issue_banks:
  assumes "hbm3_init cf = Inr h0" "hbm3_run h0 log h" "hbm3_issue_command h cmd av = Some h'"
    and "length js = 3" "0 \<le> cmd" "cmd < 16"
  shows "hbm3_bank h' ch js = map_option
    (if ch = av ! 0 \<and> reaches_bank cmd av js then bank_step cmd (av ! 4) else id) (hbm3_bank h ch js)"
proof -
  have wf: "hbm3_wf h0" using hbm3_wf_init assms(1) .
  have inv: "run_inv h0 log h" using hbm3_run_inv [OF assms(2) wf] .
  then have sp: "spec_but_timing (hb_spec h0) (hb_spec h)" by (simp add: run_inv_def)
  note spf = spec_but_timing_fields [OF sp] and wfs = hbm3_wf_spec [OF wf]
  from assms(3) obtain c n n1 n2 where
    c: "vec_at av 0 = Some c" "vec_at (hb_channels h) c = Some n" and
    n1: "update_timing (ds_timing_cons (hb_spec h)) cmd av (hb_clk h) n = Some n1" and
    n2: "update_states (hb_spec h) cmd av n1 = Some n2" and
    h': "h' = h\<lparr>hb_channels := (hb_channels h)[nat c := n2]\<rparr>"
    by (auto simp: hbm3_issue_command_def bind_eq_Some_conv)
  from c have c': "0 \<le> c" "nat c < length (hb_channels h)" "n = hb_channels h ! nat c" "av ! 0 = c"
    by (auto simp: vec_simps)
  then have tn: "tree_ok (ds_count (hb_spec h0)) 3 0 c n"
    using inv by (auto simp: run_inv_def channel_inv_def)
  note tn1 = update_timing_tree_ok [OF tn n1]
  have v1: "map_option bank_view (node_at n1 js) = map_option bank_view (node_at n js)"
    using bank_view_update_timing [OF tn n1] .
  have new: "map_option bank_view (node_at n2 js) = map_option
      (if reaches_bank cmd av js then bank_step cmd (av ! 4) else id) (map_option bank_view (node_at n1 js))"
  proof (cases "cmd = cmd_PREA")
    case False
    have "map_option bank_view (node_at n2 js) = map_option (\<lambda>d. (if addressed av (0 + 1) js
        then bank_step cmd (av ! 4) else id) (bank_view d)) (node_at n1 js)"
      using update_states_bank [OF tn1 _ _ assms(4) _ _ n2 assms(5,6) False] spf wfs by simp
    with False show ?thesis by (simp add: reaches_bank_def option.map_comp o_def)
  next
    case True
    obtain d cs where d: "n1 = Node d cs" "nd_level d = 0" using tn1 by (cases n1) (auto dest: tree_ok_root)
    have act: "mat_at hbm3_actions 0 2 = Some (Some Channel_PREab)"
      using mat_at_hbm3_actions [of 0 2] by (simp add: action_at_def)
    have "n2 = map_depth 3 close_bank n1"
    proof (rule update_statesD [OF n2 [unfolded d]], goal_cases)
      case (1 child ac m scope)
      have "ac = Some Channel_PREab" "scope = 0" "m = map_depth 3 close_bank n1"
        using 1 act True spf wfs d by (auto simp: vec_at_def level_gap_def)
      with 1(5) d show ?case by simp
    qed
    with True assms(4) show ?thesis
      by (simp add: node_at_map_depth reaches_bank_def bank_step_def option.map_comp o_def
          bank_view_def close_bank_def)
  qed
  show ?thesis
  proof (cases "ch = c")
    case True
    with c' have "hbm3_bank h ch js = map_option bank_view (node_at n js)"
      "hbm3_bank h' ch js = map_option bank_view (node_at n2 js)"
      by (simp_all add: hbm3_bank_def h' c(2) vec_at_update nat_less_iff)
    with True new v1 c'(4) show ?thesis by simp
  next
    case False
    with c' have "hbm3_bank h' ch js = hbm3_bank h ch js"
      by (simp add: hbm3_bank_def h' vec_at_update)
    with False c'(4) show ?thesis by (simp add: option.map_id)
  qed
qed

section \<open>The banks of a run\<close>

lemma hbm3_bank_start:
  assumes "hbm3_wf h0" "hbm3_bank h0 ch js = Some b" "length js = 3"
  shows "b = (Closed, Map.empty)"
proof -
  from assms(1,2) obtain d where d: "node_at (build_node (hb_spec h0) 3 0 ch) js = Some d" "b = bank_view d"
    by (auto simp: hbm3_bank_def hbm3_wf_def create_nodes_def bind_eq_Some_conv vec_at_map_upt)
  have "d = init_node (hb_spec h0) 3 (last (ch # js))"
    using node_at_build_node [OF d(1)] assms(3) by simp
  then show ?thesis
    using d(2) hbm3_wf_spec(4) [OF assms(1)] by (simp add: init_node_def bank_view_def)
qed

text \<open>A closed bank has no open row, an open one at least one.\<close>

definition bank_ok :: "bank \<Rightarrow> bool" where
  "bank_ok b \<longleftrightarrow> fst b = Closed \<and> snd b = Map.empty \<or> fst b = Opened \<and> snd b \<noteq> Map.empty"

lemma bank_ok_step: "bank_ok b \<Longrightarrow> bank_ok (bank_step cmd row b)"
  by (auto simp: bank_ok_def bank_step_def)

lemma issue_cmd_range:
  assumes "run_inv h0 log h" "hbm3_issue_command h cmd av = Some h'" "hbm3_wf h0"
  shows "0 \<le> cmd \<and> cmd < 16"
  using run_inv_issue [OF assms(1,2)] by (simp add: run_inv_def rec_ok_def)

lemma hbm3_bank_notify: "hbm3_notify h k v = Some h' \<Longrightarrow> hbm3_bank h' ch js = hbm3_bank h ch js"
  by (auto simp: hbm3_notify_def specdef_id_eq_impl_id Let_def hbm3_bank_def split: if_splits)

text \<open>The abstract bank after a log of commands, newest first.\<close>

fun bank_replay :: "int \<Rightarrow> int list \<Rightarrow> cmd_rec list \<Rightarrow> bank" where
  "bank_replay ch js [] = (Closed, Map.empty)"
| "bank_replay ch js (c # log) =
     (if ch = cr_addr c ! 0 \<and> reaches_bank (cr_cmd c) (cr_addr c) js
      then bank_step (cr_cmd c) (cr_addr c ! 4) (bank_replay ch js log) else bank_replay ch js log)"

lemma bank_ok_replay: "bank_ok (bank_replay ch js log)"
  by (induction log) (auto simp: bank_ok_step, simp add: bank_ok_def)

lemma hbm3_bank_log:
  assumes "hbm3_init cf = Inr h0" "hbm3_run h0 log h" "length js = 3"
  shows "hbm3_bank h ch js = map_option (\<lambda>b. bank_replay ch js log) (hbm3_bank h0 ch js)"
  using assms(2)
proof (induction rule: hbm3_run.induct)
  case start
  from hbm3_bank_start [OF hbm3_wf_init [OF assms(1)] _ assms(3)] show ?case
    by (cases "hbm3_bank h0 ch js") auto
next
  case (tick log h)
  then show ?case by (simp add: hbm3_tick_def hbm3_bank_def)
next
  case (notify log h key v h')
  then show ?case using hbm3_bank_notify by simp
next
  case (issue log h cmd av h')
  have "run_inv h0 log h" using hbm3_run_inv [OF issue(1) hbm3_wf_init [OF assms(1)]] .
  from issue_cmd_range [OF this issue(2) hbm3_wf_init [OF assms(1)]]
  have "hbm3_bank h' ch js = map_option (if ch = av ! 0 \<and> reaches_bank cmd av js
      then bank_step cmd (av ! 4) else id) (hbm3_bank h ch js)"
    by (intro hbm3_issue_banks [OF assms(1) issue(1,2) assms(3)]) auto
  with issue.IH show ?case by (simp add: option.map_comp o_def)
qed

lemma hbm3_bank_ok:
  assumes "hbm3_init cf = Inr h0" "hbm3_run h0 log h" "length js = 3" "hbm3_bank h ch js = Some b"
  shows "bank_ok b"
  using hbm3_bank_log [OF assms(1-3), of ch] assms(4) bank_ok_replay
  by (cases "hbm3_bank h0 ch js") auto

text \<open>C25: the bank state machine. After any run, every bank of the device is in the state that the
  abstract bank reaches by replaying the log of the commands issued: \<open>ACT\<close> opens the addressed row,
  \<open>PRE\<close>, \<open>RDA\<close>, \<open>WRA\<close> and the all-bank \<open>PREA\<close> close the banks they reach, every other command, the PIM
  commands included, leaves banks alone. A bank is open exactly when it holds an open row.\<close>

theorem hbm3_run_replays_banks:
  assumes "hbm3_init cf = Inr h0" "hbm3_run h0 log h" "length js = 3"
  shows "hbm3_bank h ch js = map_option (\<lambda>b. bank_replay ch js log) (hbm3_bank h0 ch js)
    \<and> bank_ok (bank_replay ch js log)"
  using hbm3_bank_log [OF assms] bank_ok_replay by simp

section \<open>Prerequisites\<close>

definition closed_addr :: "hbm3 \<Rightarrow> addr_vec \<Rightarrow> bool" where
  "closed_addr h av \<longleftrightarrow> on_device h av \<and> av ! 1 \<noteq> -1 \<and> av ! 2 \<noteq> -1 \<and> av ! 3 \<noteq> -1"

lemma mat_at_rw:
  assumes "0 \<le> l" "l < 3" "cmd = cmd_RD \<or> cmd = cmd_WR"
  shows "mat_at hbm3_preqs l cmd = Some None" "mat_at hbm3_rowhits l cmd = Some None"
    "mat_at hbm3_preqs 3 cmd = Some (Some Bank_RequireRowOpen)"
    "mat_at hbm3_rowhits 3 cmd = Some (Some RowHit_RDWR)"
    "mat_at hbm3_rowopens l cmd = Some None" "mat_at hbm3_rowopens 3 cmd = Some (Some RowOpen_RDWR)"
proof -
  have "list_all (\<lambda>c. list_all (\<lambda>l. mat_at hbm3_preqs l c = Some None \<and> mat_at hbm3_rowhits l c = Some None
        \<and> mat_at hbm3_rowopens l c = Some None) [0, 1, 2]
      \<and> mat_at hbm3_preqs 3 c = Some (Some Bank_RequireRowOpen)
      \<and> mat_at hbm3_rowhits 3 c = Some (Some RowHit_RDWR)
      \<and> mat_at hbm3_rowopens 3 c = Some (Some RowOpen_RDWR)) [3, 4]"
    by code_simp
  moreover have "l \<in> set [0, 1, 2]" "cmd \<in> set [3, 4]" using assms by auto
  ultimately show "mat_at hbm3_preqs l cmd = Some None" "mat_at hbm3_rowhits l cmd = Some None"
    "mat_at hbm3_preqs 3 cmd = Some (Some Bank_RequireRowOpen)"
    "mat_at hbm3_rowhits 3 cmd = Some (Some RowHit_RDWR)"
    "mat_at hbm3_rowopens l cmd = Some None" "mat_at hbm3_rowopens 3 cmd = Some (Some RowOpen_RDWR)"
    unfolding list_all_iff by blast+
qed

text \<open>For a column access, both walks end at the addressed bank.\<close>

lemma bank_walk:
  assumes "tree_ok cnt k l i n" "l + int k = 3" "0 \<le> l" "addr_fits cnt av"
    and "\<forall>m \<in> {1, 2, 3}. av ! m \<noteq> -1" "cmd = cmd_RD \<or> cmd = cmd_WR"
    and "ds_preqs sp = hbm3_preqs" "ds_rowhits sp = hbm3_rowhits" "ds_levels sp = hbm3_levels"
    and "ds_commands sp = hbm3_commands" "ds_rowopens sp = hbm3_rowopens"
  shows "\<exists>d. node_at n (map ((!) av) [Suc (nat l)..<4]) = Some d \<and>
    get_preq_command sp cmd av n = Option.bind (run_preq sp Bank_RequireRowOpen (Node d []) cmd av)
      (\<lambda>p. if p \<noteq> -1 then Some p else Some cmd) \<and>
    check_rowbuffer_hit sp cmd av n = run_rowhit RowHit_RDWR (Node d []) (av ! 4) \<and>
    check_node_open sp cmd av n = run_rowopen RowOpen_RDWR (Node d []) (av ! 4)"
  using assms(1-3)
proof (induction k arbitrary: l i n)
  case 0
  obtain d where n: "n = Node d []" and r: "nd_level d = 3" "l = 3" using "0.prems"(1,2) by (cases n) auto
  have "vec_at av 4 = Some (av ! 4)" using assms(4) by (simp add: vec_at_def addr_fits_def)
  then show ?case
    by (simp add: n r get_preq_command.simps check_rowbuffer_hit.simps check_node_open.simps assms(7,8,11)
        mat_at_rw(3,4,6) [OF _ _ assms(6), of 0])
next
  case (Suc k)
  obtain d cs where n: "n = Node d cs" by (cases n)
  with Suc.prems(1) have r: "nd_level d = l" and len: "length cs = nat (cnt ! nat (l + 1))" by auto
  have fit: "fits 3 cnt av" "l + int (Suc k) = int 3" using addr_fits_fits [OF assms(4)] Suc.prems(2) by simp_all
  note child = fits_child [OF fit Suc.prems(3)]
  have "nat (l + 1) \<in> {1, 2, 3}" using Suc.prems(2,3) by auto
  with child(2) assms(5) have rng: "0 \<le> av ! nat (l + 1)" "av ! nat (l + 1) < int (length cs)"
    using len by auto
  then obtain c where c: "vec_at cs (av ! nat (l + 1)) = Some c" by (simp add: vec_at_def)
  from tree_ok_child [OF Suc.prems(1) [unfolded n] c] have "tree_ok cnt k (l + 1) (av ! nat (l + 1)) c" by auto
  from Suc.IH [OF this] Suc.prems(2,3) obtain d' where
    d': "node_at c (map ((!) av) [Suc (nat (l + 1))..<4]) = Some d'"
      "get_preq_command sp cmd av c = Option.bind (run_preq sp Bank_RequireRowOpen (Node d' []) cmd av)
        (\<lambda>p. if p \<noteq> -1 then Some p else Some cmd)"
      "check_rowbuffer_hit sp cmd av c = run_rowhit RowHit_RDWR (Node d' []) (av ! 4)"
      "check_node_open sp cmd av c = run_rowopen RowOpen_RDWR (Node d' []) (av ! 4)" by auto
  have "[Suc (nat l)..<4] = nat (l + 1) # [Suc (nat (l + 1))..<4]"
    using Suc.prems(2,3) by (subst upt_conv_Cons) (auto simp: nat_add_distrib)
  moreover have "cs \<noteq> []" using rng by auto
  moreover have "l < 3" using Suc.prems(2) by simp
  ultimately show ?case using d' c
    by (simp add: n r get_preq_command.simps check_rowbuffer_hit.simps check_node_open.simps assms(7,8,11) child(1)
        mat_at_rw(1,2,5) [OF Suc.prems(3) _ assms(6)] del: upt_Suc)
qed

lemma hbm3_walk:
  assumes "hbm3_init cf = Inr h0" "hbm3_run h0 log h" "closed_addr h0 av"
    and "cmd = cmd_RD \<or> cmd = cmd_WR"
  obtains s rows where "hbm3_bank h (av ! 0) [av ! 1, av ! 2, av ! 3] = Some (s, rows)" "bank_ok (s, rows)"
    "hbm3_get_preq_command h cmd av =
       Some (if s = Closed then cmd_ACT else if rows (av ! 4) = None then cmd_PRE else cmd)"
    "hbm3_check_rowbuffer_hit h cmd av = Some (s = Opened \<and> rows (av ! 4) \<noteq> None)"
    "hbm3_check_node_open h cmd av = Some (s = Opened)"
proof -
  have wf: "hbm3_wf h0" using hbm3_wf_init assms(1) .
  have inv: "run_inv h0 log h" using hbm3_run_inv [OF assms(2) wf] .
  then have sp: "spec_but_timing (hb_spec h0) (hb_spec h)" by (simp add: run_inv_def)
  note spf = spec_but_timing_fields [OF sp] and wfs = hbm3_wf_spec [OF wf]
  have dev: "on_device h0 av" and avn: "\<forall>m \<in> {1, 2, 3}. av ! m \<noteq> -1"
    using assms(3) by (auto simp: closed_addr_def)
  then have fits: "addr_fits (ds_count (hb_spec h0)) av" by (simp add: on_device_def)
  obtain n where n: "vec_at av 0 = Some (av ! 0)" "vec_at (hb_channels h) (av ! 0) = Some n"
    "tree_ok (ds_count (hb_spec h0)) 3 0 (av ! 0) n"
    using run_inv_on_device [OF inv dev wf] by blast
  have preqs: "ds_preqs (hb_spec h) = hbm3_preqs" "ds_rowhits (hb_spec h) = hbm3_rowhits"
    "ds_levels (hb_spec h) = hbm3_levels" "ds_commands (hb_spec h) = hbm3_commands"
    "ds_rowopens (hb_spec h) = hbm3_rowopens"
    using spf wfs by simp_all
  have "map ((!) av) [Suc (nat 0)..<4] = [av ! 1, av ! 2, av ! 3]"
    by (simp add: upt_rec numeral_2_eq_2 numeral_3_eq_3)
  with bank_walk [OF n(3) _ _ fits avn assms(4) preqs] obtain d where
    d: "node_at n [av ! 1, av ! 2, av ! 3] = Some d"
      "get_preq_command (hb_spec h) cmd av n = Option.bind (run_preq (hb_spec h) Bank_RequireRowOpen (Node d []) cmd av)
        (\<lambda>p. if p \<noteq> -1 then Some p else Some cmd)"
      "check_rowbuffer_hit (hb_spec h) cmd av n = run_rowhit RowHit_RDWR (Node d []) (av ! 4)"
      "check_node_open (hb_spec h) cmd av n = run_rowopen RowOpen_RDWR (Node d []) (av ! 4)" by auto
  have bank: "hbm3_bank h (av ! 0) [av ! 1, av ! 2, av ! 3] = Some (bank_view d)"
    using n d(1) by (simp add: hbm3_bank_def)
  have ok: "bank_ok (bank_view d)" by (rule hbm3_bank_ok [OF assms(1,2) _ bank]) simp
  have row: "vec_at av 4 = Some (av ! 4)" using fits by (simp add: addr_fits_def vec_at_def)
  have p: "hbm3_get_preq_command h cmd av = Some (if nd_state d = Closed then cmd_ACT
      else if nd_rows d (av ! 4) = None then cmd_PRE else cmd)"
    using n d(2) ok assms(4) row
    by (auto simp: hbm3_get_preq_command_def hbm3_channel_def node_state_of_def bank_ok_def bank_view_def preqs)
  have r: "hbm3_check_rowbuffer_hit h cmd av = Some (nd_state d = Opened \<and> nd_rows d (av ! 4) \<noteq> None)"
    using n d(3) ok
    by (auto simp: hbm3_check_rowbuffer_hit_def hbm3_channel_def node_state_of_def bank_ok_def bank_view_def)
  have o: "hbm3_check_node_open h cmd av = Some (nd_state d = Opened)"
    using n d(4) ok
    by (auto simp: hbm3_check_node_open_def hbm3_channel_def node_state_of_def bank_ok_def bank_view_def)
  show ?thesis using that [of "nd_state d" "nd_rows d"] bank ok p r o by (simp add: bank_view_def)
qed

text \<open>C26: prerequisites of a column access. In every state a run reaches, the prerequisite of a
  \<open>RD\<close> or \<open>WR\<close> at a full address is \<open>ACT\<close> when the bank is closed, \<open>PRE\<close> when it is open without
  the addressed row, and the access itself exactly when \<open>check_rowbuffer_hit\<close> reports a row hit.\<close>

theorem hbm3_preq_exact:
  assumes "hbm3_init cf = Inr h0" "hbm3_run h0 log h" "closed_addr h0 av"
    and "cmd = cmd_RD \<or> cmd = cmd_WR"
  shows "\<exists>s rows hit. hbm3_bank h (av ! 0) [av ! 1, av ! 2, av ! 3] = Some (s, rows) \<and>
    hbm3_check_rowbuffer_hit h cmd av = Some hit \<and> (hit \<longleftrightarrow> s = Opened \<and> rows (av ! 4) \<noteq> None) \<and>
    hbm3_get_preq_command h cmd av = Some (if hit then cmd else if s = Closed then cmd_ACT else cmd_PRE)"
proof -
  from hbm3_walk [OF assms] obtain s rows where
    w: "hbm3_bank h (av ! 0) [av ! 1, av ! 2, av ! 3] = Some (s, rows)" "bank_ok (s, rows)"
      "hbm3_get_preq_command h cmd av =
         Some (if s = Closed then cmd_ACT else if rows (av ! 4) = None then cmd_PRE else cmd)"
      "hbm3_check_rowbuffer_hit h cmd av = Some (s = Opened \<and> rows (av ! 4) \<noteq> None)" .
  then show ?thesis by (auto simp: bank_ok_def)
qed

text \<open>Issue the prerequisite, at most \<open>k\<close> times, until it is the command itself.\<close>

fun open_for :: "nat \<Rightarrow> hbm3 \<Rightarrow> int \<Rightarrow> addr_vec \<Rightarrow> hbm3 option" where
  "open_for 0 h cmd av = Some h"
| "open_for (Suc k) h cmd av = do {
     p \<leftarrow> hbm3_get_preq_command h cmd av;
     if p = cmd then Some h
     else do { h' \<leftarrow> hbm3_issue_command h p av; open_for k h' cmd av } }"

lemma closed_addr_paths:
  assumes "closed_addr h0 av"
  shows "reaches_bank cmd av [av ! 1, av ! 2, av ! 3]"
  by (simp add: reaches_bank_def addr_match_def)

text \<open>C27: the prerequisites lead to the access. From every state a run reaches, issuing the
  prerequisite at most twice (\<open>PRE\<close> to close another row, \<open>ACT\<close> to open the addressed one) reaches a
  state in which the prerequisite of the \<open>RD\<close> or \<open>WR\<close> is the access itself and its row is a hit.\<close>

theorem hbm3_prerequisites_terminate:
  assumes "hbm3_init cf = Inr h0" "hbm3_run h0 log h" "closed_addr h0 av"
    and "cmd = cmd_RD \<or> cmd = cmd_WR"
  shows "\<exists>h'. open_for 2 h cmd av = Some h' \<and> hbm3_get_preq_command h' cmd av = Some cmd \<and>
    hbm3_check_rowbuffer_hit h' cmd av = Some True"
proof -
  let ?path = "[av ! 1, av ! 2, av ! 3]"
  have dev: "on_device h0 av" using assms(3) by (simp add: closed_addr_def)
  have step: "\<exists>h' log'. hbm3_issue_command g p av = Some h' \<and> hbm3_run h0 log' h' \<and>
      hbm3_bank h' (av ! 0) ?path = map_option (bank_step p (av ! 4)) (hbm3_bank g (av ! 0) ?path)"
    if g: "hbm3_run h0 lg g" and p: "0 \<le> p" "p < 16" for g lg p
  proof -
    obtain h' where h': "hbm3_issue_command g p av = Some h'"
      using hbm3_issue_total [OF assms(1) g dev p] by blast
    have "hbm3_bank h' (av ! 0) ?path = map_option (bank_step p (av ! 4)) (hbm3_bank g (av ! 0) ?path)"
      using hbm3_issue_banks [OF assms(1) g h', of ?path "av ! 0"] p closed_addr_paths [OF assms(3)] by simp
    with h' hbm3_run.issue [OF g h'] show ?thesis by blast
  qed
  have hit: "\<exists>h'. open_for k g cmd av = Some h' \<and> hbm3_get_preq_command h' cmd av = Some cmd \<and>
    hbm3_check_rowbuffer_hit h' cmd av = Some True"
    if g: "hbm3_run h0 lg g" and b: "hbm3_bank g (av ! 0) ?path = Some (Opened, rows)" "rows (av ! 4) \<noteq> None"
    for g lg rows and k :: nat
    by (rule hbm3_walk [OF assms(1) g assms(3,4)]; insert b; cases k; auto)
  have closed: "\<exists>h'. open_for (Suc k) g cmd av = Some h' \<and> hbm3_get_preq_command h' cmd av = Some cmd \<and>
    hbm3_check_rowbuffer_hit h' cmd av = Some True"
    if g: "hbm3_run h0 lg g" and b: "hbm3_bank g (av ! 0) ?path = Some (Closed, rows)" for g lg rows and k :: nat
  proof -
    have pre: "hbm3_get_preq_command g cmd av = Some cmd_ACT"
      by (rule hbm3_walk [OF assms(1) g assms(3,4)]) (use b in auto)
    from step [OF g, of cmd_ACT] obtain h' log' where h': "hbm3_issue_command g cmd_ACT av = Some h'"
      "hbm3_run h0 log' h'" "hbm3_bank h' (av ! 0) ?path = Some (Opened, rows(av ! 4 \<mapsto> Opened))"
      using b by (auto simp: bank_step_def)
    from hit [OF h'(2,3), where k = k] pre h'(1) assms(4) show ?thesis by auto
  qed
  from hbm3_walk [OF assms] obtain s rows where
    w: "hbm3_bank h (av ! 0) ?path = Some (s, rows)" "bank_ok (s, rows)"
      "hbm3_get_preq_command h cmd av =
         Some (if s = Closed then cmd_ACT else if rows (av ! 4) = None then cmd_PRE else cmd)" .
  consider "s = Closed" | "s = Opened" "rows (av ! 4) \<noteq> None" | "s = Opened" "rows (av ! 4) = None"
    using w(2) by (auto simp: bank_ok_def)
  then show ?thesis
  proof cases
    case 1
    with closed [OF assms(2), where k = 1] w(1) show ?thesis by (simp add: numeral_2_eq_2)
  next
    case 2
    with hit [OF assms(2)] w(1) show ?thesis by blast
  next
    case 3
    from step [OF assms(2), of cmd_PRE] obtain h' log' where h': "hbm3_issue_command h cmd_PRE av = Some h'"
      "hbm3_run h0 log' h'" "hbm3_bank h' (av ! 0) ?path = Some (Closed, Map.empty)"
      using w(1) by (auto simp: bank_step_def)
    from closed [OF h'(2,3), where k = 0] h'(1) w(3) 3 assms(4) show ?thesis by (auto simp: numeral_2_eq_2)
  qed
qed

section \<open>All-bank commands\<close>

text \<open>The rows of the table at the channel level.\<close>

lemma channel_rows:
  "ti \<in> set (hbm3_constraints V) \<Longrightarrow> init_adds hbm3_levels hbm3_commands ti 0 p t \<Longrightarrow>
     p = 0 \<and> tc_val t = 2 \<and> tc_window t = 1 \<and> \<not> tc_sibling t"
  by (auto simp: hbm3_constraints_def init_adds_def tinit_def tinit_window_def mk_tcons_entry_def)

lemma channel_entries:
  assumes "hbm3_init cf = Inr h0" "0 \<le> p" "p < 16" "f \<in> {cmd_PREA, cmd_REFab, cmd_RFMab}"
  shows "{t \<in> set (ds_timing_cons (hb_spec h0) ! 0 ! nat p). tc_cmd t = f} =
    (if p = cmd_ACT then {mk_tcons_entry f 2 1 False} else {})" (is "?A = ?B")
proof -
  note sp = hbm3_spec_of_Some [OF hbm3_init_Inr(3) [OF assms(1)]]
  let ?cs = "hbm3_constraints (V_of (hb_timing_vals h0))"
  have mem: "t \<in> set (ds_timing_cons (hb_spec h0) ! 0 ! nat p) \<longleftrightarrow>
      (\<exists>ti \<in> set ?cs. init_adds hbm3_levels hbm3_commands ti 0 p t)" for t
    using populate_timingcons_mem [OF sp(10), of 0 p t] assms(2,3) by simp
  have "t \<in> ?A \<Longrightarrow> t \<in> ?B" for t
    using channel_rows [of _ "V_of (hb_timing_vals h0)" p t]
    by (cases t) (auto simp: mem mk_tcons_entry_def)
  moreover have "t \<in> ?B \<Longrightarrow> t \<in> ?A" for t
  proof -
    assume t: "t \<in> ?B"
    then have t': "p = 0" "t = mk_tcons_entry f 2 1 False" by (auto split: if_splits)
    have "tinit ''channel'' [''ACT''] [''ACT'', ''PRE'', ''PREA'', ''REFab'', ''REFsb'', ''RFMab'', ''RFMsb''] 2 \<in> set ?cs"
      by (simp add: hbm3_constraints_def)
    moreover have "init_adds hbm3_levels hbm3_commands (tinit ''channel'' [''ACT''] [''ACT'', ''PRE'', ''PREA'',
        ''REFab'', ''REFsb'', ''RFMab'', ''RFMsb''] 2) 0 p t"
      using t' assms(4) by (auto simp: init_adds_def tinit_def)
    ultimately show "t \<in> ?A" using t' mem by (auto simp: mk_tcons_entry_def)
  qed
  ultimately show ?thesis by blast
qed

lemma due_channel:
  assumes "\<forall>e \<in> set log. {t \<in> set (ev_ts e). tc_cmd t = f} = (if ev_cmd e = p then {mk_tcons_entry f 2 1 False} else {})"
  shows "y \<in> set (due log f) \<longleftrightarrow> (\<exists>e \<in> set log. ev_target e \<and> ev_cmd e = p \<and> y = ev_clk e + 2)"
  using assms
proof (induction log)
  case Nil
  then show ?case by simp
next
  case (Cons e log)
  have "(\<exists>t \<in> set (ev_ts e). tc_cmd t = f \<and> entry_due e log t = Some y) \<longleftrightarrow>
      (\<exists>t \<in> {t \<in> set (ev_ts e). tc_cmd t = f}. entry_due e log t = Some y)" by blast
  also have "\<dots> \<longleftrightarrow> ev_target e \<and> ev_cmd e = p \<and> y = ev_clk e + 2"
    using Cons.prems by (auto simp: entry_due_def mk_tcons_entry_def times_Cons)
  finally show ?case using Cons by (simp add: due_Cons_mem del: due.simps)
qed

text \<open>C28: what guards the all-bank commands. \<open>PREA\<close>, \<open>REFab\<close> and \<open>RFMab\<close> have the scope \<open>channel\<close>,
  so \<open>check_ready\<close> never looks below the channel: it accepts them exactly when two cycles have passed
  since every activation of the channel. The rows of the table that give these commands a latency
  at the pseudochannel level (\<open>nRAS\<close> after \<open>ACT\<close>, the write recovery before \<open>PREA\<close>, \<open>nRP\<close> and
  \<open>nRC\<close> before a refresh) have no effect.\<close>

theorem hbm3_all_bank_guard:
  assumes "hbm3_init cf = Inr h0" "hbm3_run h0 log h" "hbm3_check_ready h f av = Some b"
    and "f \<in> {cmd_PREA, cmd_REFab, cmd_RFMab}"
  shows "b \<longleftrightarrow> (\<forall>c \<in> set log. cr_cmd c = cmd_ACT \<and> cr_addr c ! 0 = av ! 0 \<longrightarrow> cr_clk c + 2 \<le> hb_clk h)"
proof -
  have wf: "hbm3_wf h0" using hbm3_wf_init assms(1) .
  have sc: "ds_scopes (hb_spec h0) ! nat f = 0" using hbm3_wf_spec(1) [OF wf] assms(4) by auto
  have inv: "run_inv h0 log h" using hbm3_run_inv [OF assms(2) wf] .
  have len: "nat (av ! 0) < length (hb_channels h0)"
    using assms(3) inv by (auto simp: hbm3_check_ready_def hbm3_channel_def bind_eq_Some_conv vec_simps run_inv_def)
  have root: "node_at (hb_channels h0 ! nat (av ! 0)) [] \<noteq> None"
    by (cases "hb_channels h0 ! nat (av ! 0)") simp
  have rng: "0 \<le> cr_cmd c" "cr_cmd c < 16" if "c \<in> set log" for c
    using inv that by (auto simp: run_inv_def rec_ok_def)
  have ev: "{t \<in> set (ev_ts e). tc_cmd t = f} = (if ev_cmd e = cmd_ACT then {mk_tcons_entry f 2 1 False} else {})"
    if e: "e \<in> set (node_log log [av ! 0])" for e
  proof -
    from e obtain c where c: "c \<in> set log" "e = \<lparr>ev_ts = cr_cons c ! 0 ! nat (cr_cmd c), ev_cmd = cr_cmd c,
        ev_clk = cr_clk c, ev_target = True\<rparr>"
      by (auto simp: node_log_def map_filter_mem addr_match_def split: if_splits)
    have same: "cons_same (ds_timing_cons (hb_spec h0)) (cr_cons c)"
      using run_cons_same [OF assms(2) wf] c(1) by simp
    show ?thesis
    proof (cases "cr_cmd c = cmd_SPM")
      case False
      then have "nat (cr_cmd c) \<noteq> 14" using rng [OF c(1)] by auto
      then have "ev_ts e = ds_timing_cons (hb_spec h0) ! 0 ! nat (cr_cmd c)"
        using same c(2) rng [OF c(1)] by (simp add: cons_same_def)
      with channel_entries [OF assms(1) rng [OF c(1)] assms(4)] c(2) show ?thesis by simp
    next
      case True
      have "tc_cmd ` set (cr_cons c ! 0 ! 14) = tc_cmd ` set (map (\<lambda>t. t\<lparr>tc_val := 0\<rparr>) (cr_cons c ! 0 ! 14))"
        by (auto simp: image_image)
      also have "\<dots> = tc_cmd ` set (map (\<lambda>t. t\<lparr>tc_val := 0\<rparr>) (ds_timing_cons (hb_spec h0) ! 0 ! 14))"
        using same by (simp add: cons_same_def)
      finally have "f \<notin> tc_cmd ` set (cr_cons c ! 0 ! 14)"
        using channel_entries [OF assms(1) _ _ assms(4), of 14] by (auto simp: image_iff)
      with True c(2) show ?thesis by auto
    qed
  qed
  have "b \<longleftrightarrow> (\<forall>y \<in> set (due (node_log log [av ! 0]) f). y \<le> hb_clk h)"
    using check_ready_due [OF assms(1-3)] root by (auto simp: sc)
  also have "\<dots> \<longleftrightarrow> (\<forall>e \<in> set (node_log log [av ! 0]). ev_target e \<and> ev_cmd e = cmd_ACT \<longrightarrow> ev_clk e + 2 \<le> hb_clk h)"
    using due_channel [of "node_log log [av ! 0]" f cmd_ACT] ev by (simp add: Ball_def) blast
  also have "\<dots> \<longleftrightarrow> (\<forall>c \<in> set log. cr_cmd c = cmd_ACT \<and> cr_addr c ! 0 = av ! 0 \<longrightarrow> cr_clk c + 2 \<le> hb_clk h)"
    by (auto simp: node_log_def map_filter_mem addr_match_def Ball_def split: if_splits)
  finally show ?thesis .
qed

end
