(* ===== verification/HBM3_Example.thy ===== *)
theory HBM3_Example
  imports HBM3_Banks
begin

text \<open>
  The theorems about the device applied to a concrete configured device: one channel and one
  pseudochannel with one bank group of two banks, and a schedule of commands on it.
\<close>

definition ex_config :: dram_config where
  "ex_config = \<lparr>cf_channel_width = Some 64, cf_org_preset = Some ''HBM3_2Gb'', cf_dq = None,
     cf_count = [''pseudochannel'' \<mapsto> 1, ''bankgroup'' \<mapsto> 1, ''bank'' \<mapsto> 2, ''row'' \<mapsto> 2 ^ 17],
     cf_density = None, cf_timing_preset = Some ''HBM3_2Gbps'', cf_rate = None,
     cf_cycles = Map.empty, cf_ps = Map.empty\<rparr>"

definition ex_dev :: hbm3 where
  "ex_dev = (case hbm3_init ex_config of Inr h \<Rightarrow> h | Inl e \<Rightarrow> undefined)"

lemma ex_init: "hbm3_init ex_config = Inr ex_dev"
proof -
  have "case hbm3_init ex_config of Inr h \<Rightarrow> True | Inl e \<Rightarrow> False" by code_simp
  then show ?thesis by (auto simp: ex_dev_def split: sum.splits)
qed

lemma ex_count: "ds_count (hb_spec ex_dev) = [1, 1, 1, 2, 131072, 64]"
  by code_simp

lemma ex_timings: "V_of (hb_timing_vals ex_dev) ''nFAW'' = 15" "V_of (hb_timing_vals ex_dev) ''nRC'' = 19"
  by code_simp+

lemma ex_nodes: "node_at (hb_channels ex_dev ! 0) [0] \<noteq> None" "node_at (hb_channels ex_dev ! 0) [0, 0, 0] \<noteq> None"
  by code_simp+

lemma ex_bank: "hbm3_bank ex_dev 0 [0, 0, 0] \<noteq> None"
  using ex_nodes(2) ex_count
  by (auto simp: hbm3_bank_def vec_at_def hbm3_init_Inr(4) [OF ex_init])

lemma ex_scopes: "ds_scopes (hb_spec ex_dev) = [4, 3, 0, 5, 5, 5, 5, 0, 3, 0, 3, 3, 3, 3, 3, 3]"
  by (rule hbm3_wf_spec(1) [OF hbm3_wf_init [OF ex_init]])

text \<open>A schedule: wait some ticks, then issue a command.\<close>

definition rec_sig :: "cmd_rec \<Rightarrow> clk \<times> int \<times> addr_vec" where
  "rec_sig c = (cr_clk c, cr_cmd c, cr_addr c)"

fun sched_sig :: "clk \<Rightarrow> (nat \<times> int \<times> addr_vec) list \<Rightarrow> (clk \<times> int \<times> addr_vec) list" where
  "sched_sig t [] = []"
| "sched_sig t ((n, c, av) # ops) = sched_sig (t + int n) ops @ [(t + int n, c, av)]"

lemma hbm3_run_ticks: "hbm3_run h0 log h \<Longrightarrow> hbm3_run h0 log ((hbm3_tick ^^ n) h)"
  by (induction n) (auto intro: hbm3_run.intros)

lemma clk_ticks [simp]: "hb_clk ((hbm3_tick ^^ n) h) = hb_clk h + int n"
  by (induction n) (auto simp: hbm3_tick_def)

lemma clk_issue: "hbm3_issue_command h cmd av = Some h' \<Longrightarrow> hb_clk h' = hb_clk h"
  by (auto simp: hbm3_issue_command_def bind_eq_Some_conv)

lemma ex_schedule:
  assumes "hbm3_run ex_dev log h" "\<forall>(n, c, av) \<in> set ops. 0 \<le> c \<and> c < 16 \<and> on_device ex_dev av"
  shows "\<exists>log' h'. hbm3_run ex_dev (log' @ log) h' \<and> map rec_sig log' = sched_sig (hb_clk h) ops"
  using assms
proof (induction ops arbitrary: log h)
  case Nil
  then show ?case by (intro exI [of _ "[]"]) auto
next
  case (Cons op ops)
  obtain n c av where op: "op = (n, c, av)" by (cases op)
  let ?h = "(hbm3_tick ^^ n) h"
  have run: "hbm3_run ex_dev log ?h" using hbm3_run_ticks Cons.prems(1) .
  obtain h1 where h1: "hbm3_issue_command ?h c av = Some h1"
    using hbm3_issue_total [OF ex_init run, of av c] Cons.prems(2) op by auto
  from Cons.IH [OF hbm3_run.issue [OF run h1]] Cons.prems(2) obtain log' h' where
    "hbm3_run ex_dev (log' @ \<lparr>cr_cons = ds_timing_cons (hb_spec ?h), cr_cmd = c, cr_addr = av,
       cr_clk = hb_clk ?h\<rparr> # log) h'" "map rec_sig log' = sched_sig (hb_clk h1) ops" by auto
  then show ?case
    by (intro exI [of _ "log' @ [\<lparr>cr_cons = ds_timing_cons (hb_spec ?h), cr_cmd = c, cr_addr = av,
       cr_clk = hb_clk ?h\<rparr>]"] exI [of _ h']) (simp add: op clk_issue [OF h1], simp add: rec_sig_def)
qed

text \<open>Two activations of each bank, eight ticks apart, and what a run of them looks like.\<close>

definition ex_ops :: "(nat \<times> int \<times> addr_vec) list" where
  "ex_ops = [(0, 0, [0, 0, 0, 0, 5, 0]), (8, 0, [0, 0, 0, 1, 7, 0]),
     (8, 0, [0, 0, 0, 0, 5, 0]), (8, 0, [0, 0, 0, 1, 7, 0])]"

lemma ex_on_device: "on_device ex_dev [0, 0, 0, 0, r, 0]" "on_device ex_dev [0, 0, 0, 1, r, 0]"
  by (simp_all add: on_device_def addr_fits_def ex_count)

definition ex_sigs :: "(clk \<times> int \<times> addr_vec) list" where
  "ex_sigs = [(24, 0, [0, 0, 0, 1, 7, 0]), (16, 0, [0, 0, 0, 0, 5, 0]), (8, 0, [0, 0, 0, 1, 7, 0]), (0, 0, [0, 0, 0, 0, 5, 0])]"

lemma ex_run:
  "\<exists>log h. hbm3_run ex_dev log h \<and> map rec_sig log = ex_sigs \<and>
     (\<forall>f. 0 \<le> f \<and> f < 16 \<longrightarrow> hbm3_check_ready h f [0, 0, 0, 0, 9, 0] = Some True)"
proof -
  have "hb_clk ex_dev = 0" using hbm3_init_Inr(5) [OF ex_init] .
  with ex_schedule [OF hbm3_run.start, of ex_ops] obtain log h where
    r: "hbm3_run ex_dev log h" "map rec_sig log = sched_sig 0 ex_ops"
    by (auto simp: ex_ops_def ex_on_device)
  have "hbm3_check_ready ((hbm3_tick ^^ nat (log_latency log)) h) f [0, 0, 0, 0, 9, 0] = Some True"
    if "0 \<le> f" "f < 16" for f
    using hbm3_wait [OF ex_init r(1) ex_on_device(1) that] by simp
  moreover have "map rec_sig log = ex_sigs" using r(2) by (simp add: ex_ops_def ex_sigs_def)
  ultimately show ?thesis using hbm3_run_ticks [OF r(1)] by blast
qed

lemma ex_len: "map rec_sig log = ex_sigs \<Longrightarrow> length log = 4"
  by (auto simp: ex_sigs_def)

lemma ex_log:
  assumes "map rec_sig log = ex_sigs"
  shows "times (node_log log [0, 0]) 0 = [24, 16, 8, 0]" "times (node_log log [0, 0, 0, 0]) 0 = [16, 0]"
  using assms by (auto simp: ex_sigs_def rec_sig_def node_log_Cons times_Cons addr_match_def)
    (simp_all add: node_log_def times_def List.map_filter_simps)

section \<open>The theorems on it\<close>

lemma hbm3_check_ready_exact_witness:
  "\<exists>log h. hbm3_run ex_dev log h \<and> length log = 4 \<and> timing_legal ex_dev log cmd_ACT [0, 0, 0, 0, 9, 0] (hb_clk h)"
proof -
  obtain log h where r: "hbm3_run ex_dev log h" "map rec_sig log = ex_sigs"
    "\<forall>f. 0 \<le> f \<and> f < 16 \<longrightarrow> hbm3_check_ready h f [0, 0, 0, 0, 9, 0] = Some True" using ex_run by blast
  have "hbm3_check_ready h cmd_ACT [0, 0, 0, 0, 9, 0] = Some True" using r(3) by simp
  from hbm3_check_ready_exact [OF ex_init r(1) this] r(1) ex_len [OF r(2)] show ?thesis by blast
qed

lemma hbm3_four_activation_window_witness:
  "\<exists>log h. hbm3_run ex_dev log h \<and> times (node_log log [0, 0]) cmd_ACT = [24, 16, 8, 0] \<and> 0 + 15 \<le> hb_clk h"
proof -
  obtain log h where r: "hbm3_run ex_dev log h" "map rec_sig log = ex_sigs"
    "\<forall>f. 0 \<le> f \<and> f < 16 \<longrightarrow> hbm3_check_ready h f [0, 0, 0, 0, 9, 0] = Some True" using ex_run by blast
  have "hbm3_check_ready h cmd_ACT [0, 0, 0, 0, 9, 0] = Some True" using r(3) by simp
  from hbm3_four_activation_window [OF ex_init r(1) this] ex_nodes(1) ex_log(1) [OF r(2)] ex_timings(1) r(1)
  show ?thesis by auto
qed

lemma hbm3_constraint_enforced_witness:
  "\<exists>log h. hbm3_run ex_dev log h \<and> times (node_log log [0, 0, 0, 0]) cmd_ACT = [16, 0] \<and> 16 + 19 \<le> hb_clk h"
proof -
  obtain log h where r: "hbm3_run ex_dev log h" "map rec_sig log = ex_sigs"
    "\<forall>f. 0 \<le> f \<and> f < 16 \<longrightarrow> hbm3_check_ready h f [0, 0, 0, 0, 9, 0] = Some True" using ex_run by blast
  have rdy: "hbm3_check_ready h cmd_ACT [0, 0, 0, 0, 9, 0] = Some True" using r(3) by simp
  have m: "tinit ''bank'' [''ACT''] [''ACT''] (V_of (hb_timing_vals ex_dev) ''nRC'')
      \<in> set (hbm3_constraints (V_of (hb_timing_vals ex_dev)))"
    by (simp add: hbm3_constraints_def)
  show ?thesis
    using hbm3_constraint_enforced [OF ex_init r(1) rdy m, of "[0, 0, 0]" "''ACT''" 0 "''ACT''"]
      ex_nodes(2) ex_log(2) [OF r(2)] ex_timings(2) ex_scopes r(1)
    by (auto simp: tinit_def addr_match_def)
qed

lemma hbm3_spm_blocks_witness:
  "\<exists>h h1 h2 h3 n. hbm3_notify h ''sparepim_spm_latency'' 6 = Some h1 \<and>
     hbm3_issue_command h1 cmd_SPM [0, 0, 0, 1, 7, 0] = Some h2 \<and> h3 = (hbm3_tick ^^ n) h2 \<and>
     hbm3_check_ready h3 cmd_MAC [0, 0, 0, 0, 9, 0] = Some True \<and> hb_clk h + 6 \<le> hb_clk h3"
proof -
  have start: "hbm3_run ex_dev [] ex_dev" by (rule hbm3_run.start)
  obtain h1 where n: "hbm3_notify ex_dev ''sparepim_spm_latency'' 6 = Some h1"
    by (auto simp: hbm3_notify_def specdef_id_eq_impl_id Let_def)
  note run1 = hbm3_run.notify [OF start n]
  obtain h2 where i: "hbm3_issue_command h1 cmd_SPM [0, 0, 0, 1, 7, 0] = Some h2"
    using hbm3_issue_total [OF ex_init run1 ex_on_device(2), of cmd_SPM] by auto
  note run2 = hbm3_run.issue [OF run1 i]
  obtain k where k: "hbm3_check_ready ((hbm3_tick ^^ k) h2) cmd_MAC [0, 0, 0, 0, 9, 0] = Some True"
    using hbm3_wait [OF ex_init run2 ex_on_device(1), of cmd_MAC] by auto
  have s: "spm_latency 6 = 6" by code_simp
  have "hb_clk ex_dev + 6 \<le> hb_clk ((hbm3_tick ^^ k) h2)"
    using hbm3_spm_blocks [OF ex_init start n i hbm3_run_ticks [OF hbm3_run.start] k, of "''MAC''"] ex_nodes(1) s
    by (simp add: spm_blocked_def)
  with n i k show ?thesis by blast
qed

lemma hbm3_operations_total_witness:
  "\<exists>b h'. hbm3_check_ready ex_dev cmd_MAC [0, 0, 0, 1, 7, 0] = Some b \<and>
     hbm3_issue_command ex_dev cmd_MAC [0, 0, 0, 1, 7, 0] = Some h'"
  using hbm3_operations_total [OF ex_init hbm3_run.start ex_on_device(2), of cmd_MAC] by simp

lemma hbm3_bounded_wait_witness:
  "hbm3_check_ready ex_dev cmd_RD [0, 0, 0, 0, 5, 0] = Some True"
  using hbm3_bounded_wait [OF ex_init hbm3_run.start ex_on_device(1) [of 5], of cmd_RD]
  by (auto simp: log_latency_def dest!: spec [of _ 0])

lemma hbm3_run_replays_banks_witness:
  "\<exists>log h. hbm3_run ex_dev log h \<and> length log = 4 \<and>
     hbm3_bank h 0 [0, 0, 0] = Some (Opened, [5 \<mapsto> Opened])"
proof -
  obtain log h where r: "hbm3_run ex_dev log h" "map rec_sig log = ex_sigs"
    "\<forall>f. 0 \<le> f \<and> f < 16 \<longrightarrow> hbm3_check_ready h f [0, 0, 0, 0, 9, 0] = Some True" using ex_run by blast
  have "bank_replay 0 [0, 0, 0] log = (Opened, [5 \<mapsto> Opened])"
    using r(2) by (auto simp: ex_sigs_def rec_sig_def bank_step_def reaches_bank_def addr_match_def fun_eq_iff)
  with hbm3_run_replays_banks [OF ex_init r(1), of "[0, 0, 0]" 0] ex_bank r(1) ex_len [OF r(2)] show ?thesis
    by (intro exI [of _ log] exI [of _ h]) auto
qed

lemma hbm3_preq_exact_witness:
  "hbm3_get_preq_command ex_dev cmd_RD [0, 0, 0, 0, 5, 0] = Some cmd_ACT"
proof -
  have c: "closed_addr ex_dev [0, 0, 0, 0, 5, 0]" using ex_on_device(1) by (simp add: closed_addr_def)
  obtain b where b: "hbm3_bank ex_dev 0 [0, 0, 0] = Some b" using ex_bank by blast
  then have "b = (Closed, Map.empty)" using hbm3_bank_start [OF hbm3_wf_init [OF ex_init]] by simp
  with hbm3_preq_exact [OF ex_init hbm3_run.start c, of cmd_RD] b show ?thesis by auto
qed

lemma hbm3_prerequisites_terminate_witness:
  "\<exists>h'. open_for 2 ex_dev cmd_RD [0, 0, 0, 0, 5, 0] = Some h' \<and>
     hbm3_check_rowbuffer_hit h' cmd_RD [0, 0, 0, 0, 5, 0] = Some True"
proof -
  have c: "closed_addr ex_dev [0, 0, 0, 0, 5, 0]" using ex_on_device(1) by (simp add: closed_addr_def)
  show ?thesis using hbm3_prerequisites_terminate [OF ex_init hbm3_run.start c, of cmd_RD] by auto
qed

text \<open>Two cycles after an activation the whole channel may be precharged; \<open>nRAS\<close> is 17.\<close>

lemma hbm3_all_bank_guard_witness:
  "\<exists>h h'. hbm3_issue_command ex_dev cmd_ACT [0, 0, 0, 0, 5, 0] = Some h \<and> h' = (hbm3_tick ^^ 2) h \<and>
     hbm3_check_ready h' cmd_PREA [0, -1, -1, -1, -1, -1] = Some True"
proof -
  obtain h where h: "hbm3_issue_command ex_dev cmd_ACT [0, 0, 0, 0, 5, 0] = Some h"
    using hbm3_issue_total [OF ex_init hbm3_run.start ex_on_device(1), of cmd_ACT] by auto
  note run = hbm3_run_ticks [OF hbm3_run.issue [OF hbm3_run.start h], of 2]
  have "on_device ex_dev [0, -1, -1, -1, -1, -1]" by (simp add: on_device_def addr_fits_def ex_count)
  then obtain b where b: "hbm3_check_ready ((hbm3_tick ^^ 2) h) cmd_PREA [0, -1, -1, -1, -1, -1] = Some b"
    using hbm3_check_ready_total [OF ex_init run] by fastforce
  with hbm3_all_bank_guard [OF ex_init run b] h clk_issue [OF h] show ?thesis by auto
qed

end
