(* ===== verification/Spare_Example.thy ===== *)
theory Spare_Example
  imports Spare_Config HBM3_Example
begin

text \<open>
  The SPARE-PIM controller set up on the concrete HBM3 device of \<open>HBM3_Example\<close>, and the theorems
  about its configuration applied to it.
\<close>

text \<open>The tables that \<open>setup\<close> reads from an HBM3 device.\<close>

definition hbm3_tables :: "hbm3 \<Rightarrow> dram_tables" where
  "hbm3_tables h = \<lparr>dt_levels = hbm3_levels, dt_commands = hbm3_commands, dt_requests = hbm3_requests,
     dt_counts = org_count (hb_org h)\<rparr>"

lemma hbm3_tables_ok:
  "distinct (dt_levels (hbm3_tables h))" "distinct (dt_commands (hbm3_tables h))"
  "dt_levels (hbm3_tables h) \<noteq> []" "last (dt_levels (hbm3_tables h)) = ''column''"
  by (simp_all add: hbm3_tables_def hbm3_levels_def hbm3_commands_def)

lemma ex_tables: "hbm3_tables ex_dev = \<lparr>dt_levels = hbm3_levels, dt_commands = hbm3_commands,
    dt_requests = hbm3_requests, dt_counts = [1, 1, 1, 2, 131072, 64]\<rparr>"
proof -
  have "org_count (hb_org ex_dev) = [1, 1, 1, 2, 131072, 64]" by code_simp
  then show ?thesis by (simp add: hbm3_tables_def)
qed

definition ex_params :: sp_params where
  "ex_params = sp_default_params\<lparr>pm_esdm_columns_per_row := 8\<rparr>"

definition ex_cfg :: sp_cfg where
  "ex_cfg = the (sp_setup ex_params 0 \<lparr>dt_levels = hbm3_levels, dt_commands = hbm3_commands,
     dt_requests = hbm3_requests, dt_counts = [1, 1, 1, 2, 131072, 64]\<rparr>)"

lemma ex_setup: "sp_setup ex_params 0 (hbm3_tables ex_dev) = Some ex_cfg"
proof -
  have "sp_setup ex_params 0 \<lparr>dt_levels = hbm3_levels, dt_commands = hbm3_commands,
     dt_requests = hbm3_requests, dt_counts = [1, 1, 1, 2, 131072, 64]\<rparr> \<noteq> None" by code_simp
  then show ?thesis by (auto simp: ex_cfg_def ex_tables)
qed

lemma sp_setup_ok_witness: "sp_cfg_ok ex_cfg \<and> sc_channel_id ex_cfg = 0"
  using sp_setup_ok [OF ex_setup hbm3_tables_ok] by simp

lemma ex_cfg_ok: "sp_cfg_ok ex_cfg"
  by code_simp

definition ex_base :: addr_vec where
  "ex_base = normalize_addr ex_cfg [0, 0, 0, 1, 5, 3]"

lemma ex_base_full: "full_vec ex_cfg ex_base"
  by (simp add: ex_base_def)

lemma esdm_placement_inj_witness:
  "position ex_cfg (make_esdm_addr ex_cfg ex_base 1 9) \<noteq> position ex_cfg (make_esdm_addr ex_cfg ex_base 1 17)"
proof -
  have e: "pm_enable_esdm ex_cfg" "columns_per_row ex_cfg \<le> sc_num_cols ex_cfg"
    "0 \<le> av_get (sc_row_level ex_cfg) ex_base"
    "av_get (sc_row_level ex_cfg) ex_base + 1 + 9 div columns_per_row ex_cfg < sc_num_rows ex_cfg"
    "av_get (sc_row_level ex_cfg) ex_base + 1 + 17 div columns_per_row ex_cfg < sc_num_rows ex_cfg"
    by code_simp+
  show ?thesis
    using esdm_placement_inj [OF ex_cfg_ok ex_base_full e(1,2), of 9 17 1] e by simp
qed

lemma acc_addr_round_robin_witness:
  "\<exists>p g b. make_acc_addr ex_cfg ex_base 3 = make_bank_addr ex_cfg ex_base p g b \<and>
    (p * sc_num_bgs ex_cfg + g) * sc_num_banks ex_cfg + b = 1"
proof -
  have "3 mod total_bank_count ex_cfg = 1" by code_simp
  then show ?thesis
    using acc_addr_round_robin [OF ex_cfg_ok ex_base_full, of 3] by fastforce
qed

end
