(* ===== verification/Spare_Layout.thy ===== *)
theory Spare_Layout
  imports Spare_Dataflow Spare_Example
begin

text \<open>
  When the ESDM mapping keeps \<open>K\<close> and \<open>V\<close> apart: a condition on the row ranges of the two tensors that
  gives every column a cell of its own, and the default offsets, which do not.
\<close>

section \<open>Logical columns\<close>

text \<open>The logical columns of one tensor.\<close>

definition tensor_cols :: "sp_cfg \<Rightarrow> int" where
  "tensor_cols c = int (seq_of c) * cols_per_kt c"

lemma cols_per_kt_div:
  assumes "0 \<le> pm_d_head c"
  shows "cols_per_kt c = int ((dim_of c + 15) div 16)"
  using assms by (simp add: cols_per_kt_def dim_of_def FP16_PER_COLUMN_def sdiv_nonneg zdiv_int)

lemma logical_col_range:
  assumes "0 \<le> pm_d_head c" "sk < seq_of c" "d < dim_of c"
  shows "0 \<le> logical_col c sk d \<and> logical_col c sk d < tensor_cols c"
proof -
  let ?n = "(dim_of c + 15) div 16"
  have "d div 16 < ?n" using assms(3) by linarith
  from index2_less [OF assms(2) this] show ?thesis
    by (simp add: logical_col_def tensor_cols_def cols_per_kt_div [OF assms(1)] FP16_PER_COLUMN_def
        flip: of_nat_mult of_nat_add)
qed

lemma logical_col_inj:
  assumes "0 \<le> pm_d_head c" "d \<in> set (chunk_starts c)" "e \<in> set (chunk_starts c)"
    and "logical_col c sk d = logical_col c tk e"
  shows "sk = tk \<and> d = e"
proof -
  let ?n = "(dim_of c + 15) div 16"
  have de: "d div 16 < ?n" "e div 16 < ?n" "16 dvd d" "16 dvd e"
    using assms(2,3) unfolding chunk_starts_iff FP16_PER_COLUMN_def by (linarith, linarith, simp_all)
  have "int (sk * ?n + d div 16) = int (tk * ?n + e div 16)"
    using assms(4) by (simp add: logical_col_def cols_per_kt_div [OF assms(1)] FP16_PER_COLUMN_def)
  then have "sk * ?n + d div 16 = tk * ?n + e div 16" by linarith
  from index2_inj [OF this de(1,2)] de(3,4) show ?thesis by (metis dvd_div_eq_iff)
qed

text \<open>The cell of a logical column, with no wrap-around of the rows.\<close>

lemma esdm_position:
  assumes "sp_cfg_ok c" "pm_enable_esdm c" "columns_per_row c \<le> sc_num_cols c" "0 \<le> ro" "0 \<le> col"
    and "ro + col div columns_per_row c < sc_num_rows c"
  shows "position c (make_esdm_addr c (normalize_addr c []) ro col) =
    (ro + col div columns_per_row c, col mod columns_per_row c)"
proof -
  let ?av = "normalize_addr c []"
  have f: "full_vec c (vec_resize [] (nat (sc_num_levels c)) (-1))" by (simp add: full_vec_def)
  have "av_get (sc_row_level c) ?av = 0"
  proof -
    have "av_get (sc_row_level c) (vec_resize [] (nat (sc_num_levels c)) (-1)) = -1"
      using cfg_levels(5) [OF assms(1)] by (simp add: av_get_def vec_resize_nth level_def)
    then show ?thesis
      using f cfg_facts [OF assms(1)] by (simp add: normalize_addr_def Let_def level_get_set)
  qed
  moreover have w: "0 < columns_per_row c" using cfg_sizes [OF assms(1)] by simp
  moreover have "col mod columns_per_row c < sc_num_cols c"
    using pos_mod_bound [OF w, of col] assms(3) by linarith
  moreover have "0 \<le> col div columns_per_row c" "0 \<le> col mod columns_per_row c"
    using w assms(5) by (simp_all add: pos_imp_zdiv_nonneg_iff)
  ultimately show ?thesis
    using esdm_addr_gets [OF assms(1) _ assms(2), of ?av ro col] assms(4-6)
    by (simp add: position_def smod_nonneg)
qed

section \<open>Separate row ranges\<close>

definition first_row :: "sp_cfg \<Rightarrow> int \<Rightarrow> int \<Rightarrow> int" where
  "first_row c ro start = ro + start div columns_per_row c"

definition last_row :: "sp_cfg \<Rightarrow> int \<Rightarrow> int \<Rightarrow> int" where
  "last_row c ro start = ro + (start + tensor_cols c - 1) div columns_per_row c"

definition layout_separate :: "sp_cfg \<Rightarrow> bool" where
  "layout_separate c \<longleftrightarrow> pm_enable_esdm c \<and> columns_per_row c \<le> sc_num_cols c \<and> 0 \<le> pm_d_head c \<and>
     0 \<le> pm_kt_row_offset c \<and> 0 \<le> pm_v_row_offset c \<and> 0 \<le> pm_kt_col_start c \<and> 0 \<le> pm_v_col_start c \<and>
     last_row c (pm_kt_row_offset c) (pm_kt_col_start c) < first_row c (pm_v_row_offset c) (pm_v_col_start c) \<and>
     last_row c (pm_v_row_offset c) (pm_v_col_start c) < sc_num_rows c"

definition layout_index :: "sp_cfg \<Rightarrow> (bool \<times> nat \<times> nat) list" where
  "layout_index c = concat (map (\<lambda>sk. map (\<lambda>d. (True, sk, d)) (chunk_starts c) @ map (\<lambda>d. (False, sk, d)) (chunk_starts c))
     [0..<seq_of c])"

definition index_addr :: "sp_cfg \<Rightarrow> bool \<times> nat \<times> nat \<Rightarrow> addr_vec" where
  "index_addr c x = (case x of (key, sk, d) \<Rightarrow> if key then kt_addr c sk d else v_addr c sk d)"

lemma layout_addrs_index: "layout_addrs c = map (index_addr c) (layout_index c)"
  by (simp add: layout_addrs_def layout_index_def index_addr_def map_concat comp_def)

lemma layout_index_iff: "(key, sk, d) \<in> set (layout_index c) \<longleftrightarrow> sk < seq_of c \<and> d \<in> set (chunk_starts c)"
  by (cases key) (auto simp: layout_index_def)

lemma distinct_layout_index: "distinct (layout_index c)"
proof -
  have c: "distinct (chunk_starts c)" by (auto simp: chunk_starts_def distinct_map FP16_PER_COLUMN_def inj_on_def)
  have "distinct (concat (map (\<lambda>sk. map (\<lambda>d. (True, sk, d)) (chunk_starts c) @ map (\<lambda>d. (False, sk, d)) (chunk_starts c))
     [0..<n]))" for n :: nat
    using c by (induction n) (auto simp: distinct_map inj_on_def)
  then show ?thesis by (simp add: layout_index_def)
qed

lemma index_position:
  assumes "sp_cfg_ok c" "layout_separate c" "(key, sk, d) \<in> set (layout_index c)"
  defines "ro \<equiv> (if key then pm_kt_row_offset c else pm_v_row_offset c)"
    and "s \<equiv> (if key then pm_kt_col_start c else pm_v_col_start c)"
  defines "l \<equiv> s + logical_col c sk d"
  shows "position c (index_addr c (key, sk, d)) = (ro + l div columns_per_row c, l mod columns_per_row c)"
    and "first_row c ro s \<le> ro + l div columns_per_row c" "ro + l div columns_per_row c \<le> last_row c ro s"
    and "0 \<le> ro + l div columns_per_row c" "ro + l div columns_per_row c < sc_num_rows c"
proof -
  have w: "0 < columns_per_row c" using cfg_sizes [OF assms(1)] by simp
  have sep: "0 \<le> ro" "0 \<le> s" "0 \<le> pm_d_head c" "pm_enable_esdm c" "columns_per_row c \<le> sc_num_cols c"
    using assms(2) by (auto simp: ro_def s_def layout_separate_def)
  have "0 \<le> logical_col c sk d \<and> logical_col c sk d < tensor_cols c"
    using logical_col_range [OF sep(3)] assms(3) by (simp add: layout_index_iff chunk_starts_iff)
  then have l: "s \<le> l" "l \<le> s + tensor_cols c - 1" by (auto simp: l_def)
  show lo: "first_row c ro s \<le> ro + l div columns_per_row c"
    and hi: "ro + l div columns_per_row c \<le> last_row c ro s"
    using zdiv_mono1 [OF l(1) w] zdiv_mono1 [OF l(2) w] by (simp_all add: first_row_def last_row_def)
  have "0 \<le> s div columns_per_row c" "0 \<le> pm_v_col_start c div columns_per_row c"
    using w sep assms(2) by (simp_all add: pos_imp_zdiv_nonneg_iff layout_separate_def)
  moreover have "first_row c (pm_v_row_offset c) (pm_v_col_start c) \<le> last_row c (pm_v_row_offset c) (pm_v_col_start c)"
    using zdiv_mono1 [OF _ w, of "pm_v_col_start c" "pm_v_col_start c + tensor_cols c - 1"] l
    by (simp add: first_row_def last_row_def)
  moreover have rows: "last_row c ro s < sc_num_rows c"
    using assms(2) calculation(3) by (auto simp: ro_def s_def layout_separate_def)
  ultimately show "0 \<le> ro + l div columns_per_row c" "ro + l div columns_per_row c < sc_num_rows c"
    using lo hi sep by (auto simp: first_row_def)
  then show "position c (index_addr c (key, sk, d)) = (ro + l div columns_per_row c, l mod columns_per_row c)"
    using esdm_position [OF assms(1) sep(4,5,1), of l] l sep(2)
    by (cases key) (simp_all add: index_addr_def kt_addr_def v_addr_def ro_def s_def l_def)
qed

text \<open>separate row ranges give a sound layout. When the rows of \<open>K\<close> end before the rows of \<open>V\<close>
  begin, both end within the bank, and an ESDM row is not wider than a row of the device, every
  column of the two tensors has a cell of its own.\<close>

theorem layout_separate_ok:
  assumes "sp_cfg_ok c" "keys_fit c" "layout_separate c"
  shows "layout_ok c"
proof -
  let ?w = "columns_per_row c"
  note ip = index_position [OF assms(1,3)]
  have w: "0 < ?w" "?w \<le> sc_num_cols c" using cfg_sizes [OF assms(1)] assms(3) by (simp_all add: layout_separate_def)
  have "inj_on (\<lambda>x. position c (index_addr c x)) (set (layout_index c))"
  proof (rule inj_onI)
    fix x y assume x: "x \<in> set (layout_index c)" and y: "y \<in> set (layout_index c)"
      and eq: "position c (index_addr c x) = position c (index_addr c y)"
    obtain kx sx dx ky sy dy where xy: "x = (kx, sx, dx)" "y = (ky, sy, dy)" by (cases x, cases y)
    note px = ip [OF x [unfolded xy]] and py = ip [OF y [unfolded xy]]
    have k: "kx = ky"
    proof (rule ccontr)
      assume "kx \<noteq> ky"
      with px(1-3) py(1-3) eq xy assms(3) show False
        by (cases kx; cases ky) (auto simp: layout_separate_def)
    qed
    let ?s = "if kx then pm_kt_col_start c else pm_v_col_start c"
    let ?l = "?s + logical_col c sx dx" and ?m = "?s + logical_col c sy dy"
    have "?l div ?w = ?m div ?w" "?l mod ?w = ?m mod ?w"
      using px(1) py(1) eq unfolding xy k by simp_all
    then have "?l = ?m" using div_mult_mod_eq [of ?l ?w] div_mult_mod_eq [of ?m ?w] by metis
    then have "logical_col c sx dx = logical_col c sy dy" by simp
    with logical_col_inj [of c dx dy sx sy] x y xy k assms(3)
    show "x = y" by (simp add: layout_index_iff layout_separate_def)
  qed
  then have d: "distinct (map (position c) (layout_addrs c))"
    using distinct_layout_index by (simp add: layout_addrs_index distinct_map comp_def)
  have "cell (position c (index_addr c x))" if "x \<in> set (layout_index c)" for x
  proof -
    obtain key sk e where x: "x = (key, sk, e)" by (cases x)
    note p = ip [OF that [unfolded x]]
    have m: "0 \<le> m mod ?w" "m mod ?w < 2 ^ 16" for m
      using w pos_mod_bound [OF w(1), of m] assms(2) unfolding keys_fit_def by (simp, linarith)
    show ?thesis using p(1,4,5) m assms(2) by (simp add: x cell_def keys_fit_def)
  qed
  then have "list_all (\<lambda>av. cell (position c av)) (layout_addrs c)"
    by (auto simp: list_all_iff layout_addrs_index)
  with d show ?thesis by (simp add: layout_ok_def)
qed


section \<open>The default offsets\<close>

text \<open>C36: the default offsets make \<open>K\<close> overwrite \<open>V\<close>. With the default row offsets and column starts,
  as soon as \<open>K\<close> has more columns than an ESDM row, one of its columns is placed in the cell of the
  first column of \<open>V\<close>, so the layout is not sound.\<close>

theorem default_layout_overlaps:
  assumes "sp_cfg_ok c" "pm_enable_esdm c" "columns_per_row c \<le> sc_num_cols c" "0 \<le> pm_d_head c"
    and "pm_kt_row_offset c = 0" "pm_v_row_offset c = 1" "pm_kt_col_start c = 0" "pm_v_col_start c = 0"
    and "columns_per_row c < tensor_cols c" "1 < sc_num_rows c"
  shows "\<not> layout_ok c \<and> (\<exists>sk < seq_of c. \<exists>d \<in> set (chunk_starts c).
    position c (kt_addr c sk d) = position c (v_addr c 0 0))"
proof -
  let ?n = "(dim_of c + 15) div 16"
  define w where "w = nat (columns_per_row c)"
  have w: "0 < columns_per_row c" "int w = columns_per_row c" using cfg_sizes [OF assms(1)] by (simp_all add: w_def)
  have t: "tensor_cols c = int (seq_of c * ?n)" by (simp add: tensor_cols_def cols_per_kt_div [OF assms(4)])
  then have wn: "w < seq_of c * ?n" using assms(9) w(2) by linarith
  then have n: "0 < ?n" by (cases ?n) simp_all
  let ?sk = "w div ?n" and ?d = "16 * (w mod ?n)"
  have sk: "?sk < seq_of c" using wn by (simp add: less_mult_imp_div_less)
  have less: "16 * m < dim_of c" if "m < ?n" for m using that by linarith
  have d: "?d \<in> set (chunk_starts c)"
    unfolding chunk_starts_iff FP16_PER_COLUMN_def using less [of "w mod ?n"] n by simp
  have zero: "0 \<in> set (chunk_starts c)" using less [OF n] unfolding chunk_starts_iff by simp
  have l: "logical_col c ?sk ?d = int w"
    using div_mult_mod_eq [of w ?n]
    by (simp add: logical_col_def cols_per_kt_div [OF assms(4)] FP16_PER_COLUMN_def flip: of_nat_mult of_nat_add)
  have "position c (kt_addr c ?sk ?d) = (1, 0)"
    unfolding kt_addr_def l using esdm_position [OF assms(1-3), of 0 "int w"] assms(5,7,10) w by simp
  moreover have "position c (v_addr c 0 0) = (1, 0)"
    unfolding v_addr_def using esdm_position [OF assms(1-3), of 1 0] assms(6,8,10) by (simp add: logical_col_def)
  ultimately have eq: "position c (kt_addr c ?sk ?d) = position c (v_addr c 0 0)" by simp
  have "\<not> distinct (map (\<lambda>x. position c (index_addr c x)) (layout_index c))"
  proof
    assume "distinct (map (\<lambda>x. position c (index_addr c x)) (layout_index c))"
    then have inj: "inj_on (\<lambda>x. position c (index_addr c x)) (set (layout_index c))" by (simp add: distinct_map)
    have "(True, ?sk, ?d) \<in> set (layout_index c)" "(False, 0, 0) \<in> set (layout_index c)"
      using sk d zero by (simp_all add: layout_index_iff)
    from inj_onD [OF inj _ this] eq show False by (simp add: index_addr_def)
  qed
  then have "\<not> layout_ok c" by (simp add: layout_ok_def layout_addrs_index comp_def)
  with sk d eq show ?thesis by blast
qed

section \<open>On the example device\<close>

definition ex_fn_cfg :: sp_cfg where
  "ex_fn_cfg = ex_cfg\<lparr>sc_num_rows := 8192, pm_enable_functional := True, pm_seq_len := 2, pm_d_head := 20\<rparr>"

lemma ex_fn_cfg_ok: "sp_cfg_ok ex_fn_cfg" "keys_fit ex_fn_cfg" "layout_separate ex_fn_cfg" "dims_ok ex_fn_cfg"
  "pm_enable_functional ex_fn_cfg"
  by code_simp+

lemma layout_separate_ok_witness: "layout_ok ex_fn_cfg"
  by (rule layout_separate_ok [OF ex_fn_cfg_ok(1-3)])

lemma ex_fn_layout: "layout_ok ex_fn_cfg"
  by code_simp

lemma hardware_matches_golden_witness:
  "\<exists>f. functional_run (\<lambda>lo hi i. if even i then hi else lo) ex_fn_cfg 2 = Some f \<and> functional_finalize ex_fn_cfg f \<and>
     fn_hw f ! 39 = fn_golden f ! 39"
proof -
  have d: "dim_of ex_fn_cfg = 20" "pm_seq_len ex_fn_cfg = 2" by code_simp+
  from hardware_matches_golden [OF ex_fn_cfg_ok(1,2) ex_fn_layout ex_fn_cfg_ok(4,5), of "\<lambda>lo hi i. if even i then hi else lo" 2]
  obtain f where f: "functional_run (\<lambda>lo hi i. if even i then hi else lo) ex_fn_cfg 2 = Some f"
    "functional_finalize ex_fn_cfg f" "fn_current_sq f = 2"
    "\<forall>sq < nat (fn_current_sq f). \<forall>d < dim_of ex_fn_cfg.
       fn_hw f ! (sq * dim_of ex_fn_cfg + d) = fn_golden f ! (sq * dim_of ex_fn_cfg + d)"
    by (auto simp: d)
  from f(4) [rule_format, of 1 19] f(1-3) d show ?thesis by auto
qed

lemma default_layout_overlaps_witness:
  "\<not> layout_ok (ex_fn_cfg\<lparr>pm_seq_len := 256, pm_d_head := 64\<rparr>)"
proof -
  let ?c = "ex_fn_cfg\<lparr>pm_seq_len := 256, pm_d_head := 64\<rparr>"
  have "sp_cfg_ok ?c" "pm_enable_esdm ?c" "columns_per_row ?c \<le> sc_num_cols ?c" "0 \<le> pm_d_head ?c"
    "pm_kt_row_offset ?c = 0" "pm_v_row_offset ?c = 1" "pm_kt_col_start ?c = 0" "pm_v_col_start ?c = 0"
    "columns_per_row ?c < tensor_cols ?c" "1 < sc_num_rows ?c"
    by code_simp+
  from default_layout_overlaps [OF this] show ?thesis by blast
qed

end
