(* ===== verification/Spare_HBM3.thy ===== *)
theory Spare_HBM3
  imports Pim_Log Spare_Layout
begin

text \<open>
  The controller on the HBM3 device: the device as a \<open>dram_ops\<close> record, the interpretation of
  \<open>pim_dram\<close> for every run in which the controller's commands were timing-legal when issued, also for the
  device that records them, and the theorems about the whole: no index out of range, timing-legal traffic,
  completion in order, progress.
\<close>

section \<open>The device as the controller calls it\<close>

definition hbm3_get_timing :: "hbm3 \<Rightarrow> string \<Rightarrow> int option" where
  "hbm3_get_timing h n = do { i \<leftarrow> impl_id hbm3_timings n; vec_at (hb_timing_vals h) i }"

definition hbm3_translate :: "int \<Rightarrow> int option" where
  "hbm3_translate ty = do { lut \<leftarrow> hbm3_request_translations; vec_at lut ty }"

definition hbm3_ops :: "hbm3 dram_ops" where
  "hbm3_ops = \<lparr>dr_ready = hbm3_check_ready, dr_issue = hbm3_issue_command, dr_notify = hbm3_notify,
     dr_timing = hbm3_get_timing, dr_translate = (\<lambda>h. hbm3_translate), dr_tick = hbm3_tick\<rparr>"

lemma hbm3_ops_simps [simp]:
  "dr_ready hbm3_ops = hbm3_check_ready" "dr_issue hbm3_ops = hbm3_issue_command"
  "dr_notify hbm3_ops = hbm3_notify" "dr_timing hbm3_ops = hbm3_get_timing"
  "dr_translate hbm3_ops h = hbm3_translate" "dr_tick hbm3_ops = hbm3_tick"
  by (simp_all add: hbm3_ops_def)

section \<open>Runs whose commands were legal\<close>

text \<open>Every command of the log was timing-legal in the cycle it was issued.\<close>

fun legal_log :: "hbm3 \<Rightarrow> cmd_rec list \<Rightarrow> bool" where
  "legal_log h0 [] \<longleftrightarrow> True"
| "legal_log h0 (r # log) \<longleftrightarrow> timing_legal h0 log (cr_cmd r) (cr_addr r) (cr_clk r) \<and> legal_log h0 log"

definition channel_of :: "hbm3 \<Rightarrow> int \<Rightarrow> bool" where
  "channel_of h0 ch \<longleftrightarrow> 0 \<le> ch \<and> ch < ds_count (hb_spec h0) ! 0 \<and>
     1 \<le> ds_count (hb_spec h0) ! 1 \<and> 1 \<le> ds_count (hb_spec h0) ! 2 \<and> 1 \<le> ds_count (hb_spec h0) ! 3"

text \<open>A controller set up on a configured device, and the device in a run of legal commands.\<close>

definition pim_on :: "hbm3 \<Rightarrow> sp_cfg \<Rightarrow> hbm3 \<Rightarrow> bool" where
  "pim_on h0 c d \<longleftrightarrow> (\<exists>cf p ch log. hbm3_init cf = Inr h0 \<and> sp_setup p ch (hbm3_tables h0) = Some c \<and>
     channel_of h0 ch \<and> hbm3_run h0 log d \<and> legal_log h0 log)"

definition hbm3_valid :: "hbm3 \<Rightarrow> int \<Rightarrow> addr_vec \<Rightarrow> bool" where
  "hbm3_valid d cmd av \<longleftrightarrow> 0 \<le> cmd \<and> cmd < 16 \<and> on_device d av"

lemma run_count: "hbm3_init cf = Inr h0 \<Longrightarrow> hbm3_run h0 log d \<Longrightarrow> ds_count (hb_spec d) = ds_count (hb_spec h0)"
  using hbm3_run_inv [OF _ hbm3_wf_init] spec_but_timing_fields(4) by (metis run_inv_def)

lemma hbm3_ids:
  "specdef_id hbm3_levels ''channel'' = Some 0" "specdef_id hbm3_levels ''pseudochannel'' = Some 1"
  "specdef_id hbm3_levels ''bankgroup'' = Some 2" "specdef_id hbm3_levels ''bank'' = Some 3"
  "specdef_id hbm3_levels ''row'' = Some 4" "specdef_id hbm3_levels ''column'' = Some 5"
  "specdef_id hbm3_commands ''ACT'' = Some 0" "specdef_id hbm3_commands ''PRE'' = Some 1"
  "specdef_id hbm3_commands ''RD'' = Some 3" "specdef_id hbm3_commands ''WR'' = Some 4"
  "specdef_id hbm3_commands ''MAC'' = Some 11" "specdef_id hbm3_commands ''EMUL'' = Some 12"
  "specdef_id hbm3_commands ''MOV'' = Some 13" "specdef_id hbm3_commands ''SPM'' = Some 14"
  "specdef_id hbm3_commands ''ACC'' = Some 15" "length hbm3_levels = 6"
  by code_simp+

lemma vec_at_max: "vec_at xs i = Some x \<Longrightarrow> x = xs ! nat i"
  by (auto simp: vec_simps)

lemma hbm3_setup_values:
  assumes "hbm3_init cf = Inr h0" "sp_setup p ch (hbm3_tables h0) = Some c"
  shows "sp_cfg_ok c" "sc_num_levels c = 6" "sc_channel_id c = ch"
    "sc_channel_level c = 0" "sc_pch_level c = 1" "sc_bg_level c = 2" "sc_bank_level c = 3"
    "sc_num_pchs c = max 1 (ds_count (hb_spec h0) ! 1)" "sc_num_bgs c = max 1 (ds_count (hb_spec h0) ! 2)"
    "sc_num_banks c = max 1 (ds_count (hb_spec h0) ! 3)" "pim_commands c \<subseteq> {0..<16}"
proof -
  have count: "org_count (hb_org h0) = ds_count (hb_spec h0)"
    using hbm3_spec_of_Some [OF hbm3_init_Inr(3) [OF assms(1)]] by simp
  have tables: "dt_levels (hbm3_tables h0) = hbm3_levels" "dt_commands (hbm3_tables h0) = hbm3_commands"
    "dt_counts (hbm3_tables h0) = ds_count (hb_spec h0)" by (simp_all add: hbm3_tables_def count)
  show "sp_cfg_ok c" "sc_channel_id c = ch" using sp_setup_good [OF assms(2) hbm3_tables_ok] by simp_all
  from assms(2) obtain np ng nb nr nc where v:
    "vec_at (ds_count (hb_spec h0)) 1 = Some np" "vec_at (ds_count (hb_spec h0)) 2 = Some ng"
    "vec_at (ds_count (hb_spec h0)) 3 = Some nb" and
    c: "c = (let p' = (if pm_esdm_columns_per_row p \<le> 0 then p\<lparr>pm_esdm_columns_per_row := max 1 nc\<rparr> else p) in
      sp_params.extend p' (sp_cfg.fields ch 6 0 1 2 3 4 5 (max 1 np) (max 1 ng) (max 1 nb) (max 1 nr) (max 1 nc)
       type_Read type_Write (get_request_id (hbm3_tables h0) ''spare-pim'') (get_request_id (hbm3_tables h0) ''mac'')
       (get_request_id (hbm3_tables h0) ''emul'') (get_request_id (hbm3_tables h0) ''mov'')
       (get_request_id (hbm3_tables h0) ''spm'') (get_request_id (hbm3_tables h0) ''acc'')
       0 1 3 4 11 12 13 14 15))"
    unfolding sp_setup_def dt_level_size_def tables hbm3_ids Let_def bind.bind_lunit option.simps
    by (auto simp: bind_eq_Some_conv)
  have f: "sc_num_levels c = 6" "sc_channel_level c = 0" "sc_pch_level c = 1" "sc_bg_level c = 2" "sc_bank_level c = 3"
    "sc_num_pchs c = max 1 np" "sc_num_bgs c = max 1 ng" "sc_num_banks c = max 1 nb" "sc_cmd_act c = 0" "sc_cmd_pre c = 1"
    "sc_cmd_mac c = 11" "sc_cmd_emul c = 12" "sc_cmd_mov c = 13" "sc_cmd_spm c = 14" "sc_cmd_acc c = 15"
    by (simp_all add: c Let_def sp_params.defs sp_cfg.defs)
  show "sc_num_levels c = 6" "sc_channel_level c = 0" "sc_pch_level c = 1" "sc_bg_level c = 2" "sc_bank_level c = 3"
    "sc_num_pchs c = max 1 (ds_count (hb_spec h0) ! 1)" "sc_num_bgs c = max 1 (ds_count (hb_spec h0) ! 2)"
    "sc_num_banks c = max 1 (ds_count (hb_spec h0) ! 3)" "pim_commands c \<subseteq> {0..<16}"
    using vec_at_max [OF v(1)] vec_at_max [OF v(2)] vec_at_max [OF v(3)] f by (simp_all add: pim_commands_def)
qed

lemma hbm3_spare_pim_id: "specdef_id hbm3_requests ''spare-pim'' = Some 11"
  by code_simp

lemma hbm3_request_id:
  "sp_setup p ch (hbm3_tables h0) = Some c \<Longrightarrow> sc_req_sparepim c = 11"
  unfolding sp_setup_def Let_def bind_eq_Some_conv
  by (elim exE conjE) (auto simp: sp_params.defs sp_cfg.defs get_request_id_def hbm3_tables_def hbm3_spare_pim_id)

lemma pim_onE:
  assumes "pim_on h0 c d"
  obtains cf p ch log where "hbm3_init cf = Inr h0" "sp_setup p ch (hbm3_tables h0) = Some c" "channel_of h0 ch"
    "hbm3_run h0 log d" "legal_log h0 log"
  using assms by (auto simp: pim_on_def)

lemma on_device_count: "ds_count (hb_spec d') = ds_count (hb_spec d) \<Longrightarrow> hbm3_valid d' = hbm3_valid d"
  by (simp add: hbm3_valid_def on_device_def fun_eq_iff)

lemma on_device_run: "hbm3_init cf = Inr h0 \<Longrightarrow> hbm3_run h0 log d \<Longrightarrow> on_device d av = on_device h0 av"
  using run_count by (simp add: on_device_def)

lemma hbm3_bank_addr_valid:
  assumes "pim_on h0 c d" "full_vec c av" "cmd \<in> pim_commands c" "(p, g, b) \<in> insert (-1, -1, -1) (set (all_banks c))"
  shows "hbm3_valid d cmd (make_bank_addr c av p g b)"
proof -
  from pim_onE [OF assms(1)] obtain cf pp ch log where on: "hbm3_init cf = Inr h0"
    "sp_setup pp ch (hbm3_tables h0) = Some c" "channel_of h0 ch" "hbm3_run h0 log d" by metis
  note v = hbm3_setup_values [OF on(1,2)]
  have len: "length av = 6" using assms(2) v(2) by (simp add: full_vec_def)
  have "make_bank_addr c av p g b = av[0 := ch, 1 := p, 2 := g, 3 := b]"
    by (simp add: make_bank_addr_def av_set_def v)
  moreover have "(p = -1 \<or> 0 \<le> p \<and> p < ds_count (hb_spec h0) ! 1) \<and> (g = -1 \<or> 0 \<le> g \<and> g < ds_count (hb_spec h0) ! 2) \<and>
      (b = -1 \<or> 0 \<le> b \<and> b < ds_count (hb_spec h0) ! 3)"
    using assms(4) on(3) by (auto simp: all_banks_range v channel_of_def)
  ultimately have "on_device h0 (make_bank_addr c av p g b)"
    using len on(3) by (auto simp: on_device_def addr_fits_def channel_of_def)
  moreover have "0 \<le> cmd" "cmd < 16" using assms(3) v(11) by auto
  ultimately show ?thesis using on_device_run [OF on(1,4)] by (simp add: hbm3_valid_def)
qed

lemma legal_issue:
  assumes "hbm3_init cf = Inr h0" "hbm3_run h0 log d" "legal_log h0 log" "hbm3_check_ready d cmd av = Some True"
    "hbm3_issue_command d cmd av = Some d'"
  shows "\<exists>log'. hbm3_run h0 log' d' \<and> legal_log h0 log'"
proof -
  let ?r = "\<lparr>cr_cons = ds_timing_cons (hb_spec d), cr_cmd = cmd, cr_addr = av, cr_clk = hb_clk d\<rparr>"
  have "timing_legal h0 log cmd av (hb_clk d)"
    using check_ready_due [OF assms(1,2,4)] by (simp add: timing_legal_def)
  then have "legal_log h0 (?r # log)" using assms(3) by simp
  with hbm3_run.issue [OF assms(2,5)] show ?thesis by blast
qed

lemma override_timings_length: "length (override_timings cf tck vs) = 27"
  by (simp add: override_timings_def hbm3_timings_def)

lemma set_timing_vals_length:
  assumes "set_timing_vals cf org = Inr vs"
  shows "length vs = 27"
proof -
  from assms obtain v1 :: "int list" where
    "(let half = v1 ! timing_idx ''rate'' sdiv 2; tck = 1000000 sdiv half in
        if half = 0 then Inl Undefined_behaviour
        else case density_id (org_density org) of
          None \<Rightarrow> Inl Undefined_behaviour
        | Some k \<Rightarrow>
            if tck = 0 then Inl Undefined_behaviour
            else
              let v2 = v1[timing_idx ''tCK_ps'' := tck];
                  v3 = v2[timing_idx ''nRFC'' := i32 (JEDEC_rounding (tRFC_TABLE ! k * 1000) tck)];
                  v4 = v3[timing_idx ''nREFISB'' := i32 (JEDEC_rounding (tRFC_TABLE ! k * 1000) tck)];
                  v5 = override_timings cf tck v4;
                  v6 = (if v5 ! timing_idx ''nSPM'' = -1 then v5[timing_idx ''nSPM'' := 1] else v5)
              in case find (\<lambda>i. v6 ! i = -1) [0..<length v6] of
                   Some i \<Rightarrow> Inl (Timing_unspecified (hbm3_timings ! i))
                 | None \<Rightarrow> Inr v6) = Inr vs"
    unfolding set_timing_vals_def sbind_Inr by blast
  then show ?thesis
    by (auto simp only: Let_def sum.distinct sum.inject length_list_update override_timings_length
        split: if_split_asm option.split_asm)
qed

lemma hbm3_latency:
  assumes "length (hb_timing_vals d) = 27" "n \<in> set hbm3_timings"
  shows "\<exists>latency. hbm3_get_timing d n = Some latency"
proof -
  obtain i where i: "impl_id hbm3_timings n = Some i" using assms(2) impl_id_None [of hbm3_timings n] by auto
  have "0 \<le> i" "nat i < 27" using impl_id_range [OF i] by (auto simp: hbm3_timings_def)
  then show ?thesis using i assms(1) by (auto simp: hbm3_get_timing_def vec_simps)
qed

lemma run_timing_vals:
  "hbm3_run h0 log d \<Longrightarrow> length (hb_timing_vals d) = length (hb_timing_vals h0)"
proof (induction rule: hbm3_run.induct)
  case (notify log h key v h')
  then show ?case by (auto simp: hbm3_notify_def bind_eq_Some_conv Let_def split: if_splits)
qed (auto simp: hbm3_tick_def hbm3_issue_command_def bind_eq_Some_conv)

interpretation hbm: pim_dram hbm3_ops "pim_on h0" hbm3_valid for h0
proof (unfold_locales, simp_all only: hbm3_ops_simps)
  fix c d cmd av d' key x n p g b
  show "sp_cfg_ok c" if "pim_on h0 c d"
    using pim_onE [OF that] hbm3_setup_values(1) by metis
  show "\<exists>b. hbm3_check_ready d cmd av = Some b" if "pim_on h0 c d" "hbm3_valid d cmd av"
    using pim_onE [OF that(1)] hbm3_check_ready_total on_device_run that(2) by (metis hbm3_valid_def)
  show "\<exists>d'. hbm3_issue_command d cmd av = Some d'" if "pim_on h0 c d" "hbm3_valid d cmd av"
    using pim_onE [OF that(1)] hbm3_issue_total on_device_run that(2) by (metis hbm3_valid_def)
  show "\<exists>d'. hbm3_notify d key x = Some d'"
    by (simp add: hbm3_notify_def hbm3_ids Let_def)
  show "\<exists>latency. bgmu_read_latency hbm3_ops d n = Some latency" if "pim_on h0 c d"
  proof -
    from pim_onE [OF that] obtain cf log where on: "hbm3_init cf = Inr h0" "hbm3_run h0 log d" by metis
    have "length (hb_timing_vals d) = 27" using run_timing_vals [OF on(2)] set_timing_vals_length [OF hbm3_init_Inr(2) [OF on(1)]] by simp
    note lat = hbm3_latency [OF this]
    have "\<exists>l. hbm3_get_timing d ''nCL'' = Some l" "\<exists>l. hbm3_get_timing d ''nCCDS'' = Some l"
      "\<exists>l. hbm3_get_timing d ''nBL'' = Some l" by (rule lat; simp add: hbm3_timings_def)+
    then show ?thesis by (auto simp: bgmu_read_latency_def)
  qed
  show "pim_on h0 c (hbm3_tick d)" if "pim_on h0 c d"
    using that hbm3_run.tick unfolding pim_on_def by metis
  show "pim_on h0 c d'" if "pim_on h0 c d" "hbm3_check_ready d cmd av = Some True" "hbm3_issue_command d cmd av = Some d'"
    using that legal_issue unfolding pim_on_def by metis
  show "pim_on h0 c d'" if "pim_on h0 c d" "hbm3_notify d key x = Some d'"
    using that hbm3_run.notify unfolding pim_on_def by metis
  show "hbm3_valid (hbm3_tick d) = hbm3_valid d \<and> hbm3_translate = hbm3_translate"
    using on_device_count [of "hbm3_tick d" d] by (simp add: hbm3_tick_def)
  show "hbm3_valid d' = hbm3_valid d \<and> hbm3_translate = hbm3_translate" if "hbm3_issue_command d cmd av = Some d'"
    using that on_device_count [of d' d] by (auto simp: hbm3_issue_command_def bind_eq_Some_conv)
  show "hbm3_valid d' = hbm3_valid d \<and> hbm3_translate = hbm3_translate" if "hbm3_notify d key x = Some d'"
    using that on_device_count [of d' d] by (auto simp: hbm3_notify_def bind_eq_Some_conv Let_def split: if_splits)
  show "hbm3_valid d cmd (make_bank_addr c av p g b)" if "pim_on h0 c d" "full_vec c av" "cmd \<in> pim_commands c"
    "(p, g, b) \<in> insert (-1, -1, -1) (set (all_banks c))"
    using hbm3_bank_addr_valid that .
  show "\<exists>n. \<forall>m\<ge>n. hbm3_check_ready ((hbm3_tick ^^ m) d) cmd av = Some True" if "pim_on h0 c d" "hbm3_valid d cmd av"
    using pim_onE [OF that(1)] hbm3_wait on_device_run that(2) by (metis hbm3_valid_def)
qed

section \<open>The recorded device\<close>

text \<open>What is noted of a command that is issued: the constraints in force, the command, its address and the cycle.\<close>

definition hbm3_record :: "hbm3 \<Rightarrow> int \<Rightarrow> addr_vec \<Rightarrow> cmd_rec" where
  "hbm3_record d cmd av = \<lparr>cr_cons = ds_timing_cons (hb_spec d), cr_cmd = cmd, cr_addr = av, cr_clk = hb_clk d\<rparr>"

abbreviation recorded_ops :: "(hbm3 \<times> cmd_rec list) dram_ops" where
  "recorded_ops \<equiv> recording hbm3_record hbm3_ops"

text \<open>The list is the log of the device, and every command in it was legal.\<close>

definition hbm3_logged :: "hbm3 \<Rightarrow> hbm3 \<Rightarrow> cmd_rec list \<Rightarrow> bool" where
  "hbm3_logged h0 d log \<longleftrightarrow> (\<exists>cf. hbm3_init cf = Inr h0) \<and> hbm3_run h0 log d \<and> legal_log h0 log"

lemma logged_issue:
  assumes "hbm3_logged h0 d log" "hbm3_check_ready d cmd av = Some True" "hbm3_issue_command d cmd av = Some d'"
  shows "hbm3_logged h0 d' (hbm3_record d cmd av # log)"
proof -
  from assms(1) obtain cf where on: "hbm3_init cf = Inr h0" "hbm3_run h0 log d" "legal_log h0 log"
    by (auto simp: hbm3_logged_def)
  have "timing_legal h0 log cmd av (hb_clk d)"
    using check_ready_due [OF on(1,2) assms(2)] by (simp add: timing_legal_def)
  with on hbm3_run.issue [OF on(2) assms(3)] show ?thesis by (auto simp: hbm3_logged_def hbm3_record_def)
qed

lemma logged_tick: "hbm3_logged h0 d log \<Longrightarrow> hbm3_logged h0 (hbm3_tick d) log"
  unfolding hbm3_logged_def using hbm3_run.tick by blast

lemma logged_notify: "hbm3_logged h0 d log \<Longrightarrow> hbm3_notify d key v = Some d' \<Longrightarrow> hbm3_logged h0 d' log"
  unfolding hbm3_logged_def using hbm3_run.notify by blast

interpretation rhbm: pim_dram recorded_ops "\<lambda>c x. pim_on h0 c (fst x) \<and> hbm3_logged h0 (fst x) (snd x)" "\<lambda>x. hbm3_valid (fst x)" for h0
  by (rule hbm.recording_pim_dram) (simp_all add: logged_tick logged_issue logged_notify)

lemma recorded_inv: "rhbm.sys_inv h0 c (s, d, log) \<longleftrightarrow> hbm.sys_inv h0 c (s, d) \<and> hbm3_logged h0 d log"
  by (auto simp: rhbm.sys_inv_def hbm.sys_inv_def forget_request_ok)

lemma logged_start: "hbm3_init cf = Inr h0 \<Longrightarrow> hbm3_logged h0 h0 []"
  by (auto simp: hbm3_logged_def hbm3_run.start)

section \<open>From the start\<close>

text \<open>What the functional mode needs, if it is on.\<close>

definition fn_ready :: "sp_cfg \<Rightarrow> bool" where
  "fn_ready c \<longleftrightarrow> (pm_enable_functional c \<longrightarrow> keys_fit c \<and> layout_ok c \<and> dims_ok c)"

text \<open>A controller set up for one channel of a configured device.\<close>

definition pim_system :: "dram_config \<Rightarrow> sp_params \<Rightarrow> int \<Rightarrow> hbm3 \<Rightarrow> sp_cfg \<Rightarrow> bool" where
  "pim_system cf p ch h0 c \<longleftrightarrow> hbm3_init cf = Inr h0 \<and> channel_of h0 ch \<and>
     sp_setup p ch (hbm3_tables h0) = Some c \<and> fn_ready c"

definition requests_ok :: "sp_cfg \<Rightarrow> hbm3 \<Rightarrow> sp_event list \<Rightarrow> bool" where
  "requests_ok c h0 es \<longleftrightarrow> (\<forall>e \<in> set es. \<forall>r. event_request e = Some r \<longrightarrow> request_ok hbm3_ops hbm3_valid c h0 r)"

lemma pim_system_on: "pim_system cf p ch h0 c \<Longrightarrow> pim_on h0 c h0"
  unfolding pim_system_def pim_on_def
  by (intro exI [of _ cf] exI [of _ p] exI [of _ ch] exI [of _ "[]"]) (simp add: hbm3_run.start)

lemma pim_start:
  assumes "pim_system cf p ch h0 c"
  shows "\<exists>s0. sp_boot gen c = Some s0 \<and> hbm.sys_inv h0 c (s0, h0) \<and> pending s0 = [] \<and> queue_bound c s0 \<and>
    st_completed (cs_stats s0) = 0 \<and> (pm_enable_functional c \<longrightarrow> fn_current_sq (cs_fn s0) = 0)"
proof -
  have ok: "pim_on h0 c h0" using pim_system_on [OF assms] .
  have cfg: "sp_cfg_ok c" using hbm.cfg [OF ok] .
  have "\<exists>f. (if pm_enable_functional c then setup_functional_data gen c = Some f \<and> fn_inv c f \<and> fn_current_sq f = 0 else f = fn_empty)"
    using setup_inv [OF cfg] assms by (auto simp: pim_system_def fn_ready_def)
  then obtain f where f: "if pm_enable_functional c then setup_functional_data gen c = Some f \<and> fn_inv c f \<and> fn_current_sq f = 0 else f = fn_empty" ..
  then have "sp_boot gen c = Some (sp_start f)" by (auto simp: sp_boot_def split: if_splits)
  moreover have "0 \<le> u64 (pm_queue_size c)" by (simp add: u64_def)
  ultimately show ?thesis using ok f
    by (auto simp: hbm.sys_inv_def sp_start_def delay_ok_def fn_ok_def pending_def queue_bound_def stats_zero_def)
qed

text \<open>C2: the controller never fails on the HBM3 device, and never breaks its timing. For a controller set
  up on a configured device, with the functional mode off or with tensors and a layout that fit (\<open>fn_ready\<close>),
  any history of clock ticks and of requests (attention tokens, direct reads, writes and PIM commands with an
  address on the device, priority requests) runs without an index out of range. Run on the device that records
  what it is sent, the controller does exactly the same, and the recorded list, which has an entry for each
  command issued and nothing else, is the log of the device, and every command in it was timing-legal in the
  cycle it was issued, by the constraint table and all the commands before it. The queue never outgrows its size.\<close>

theorem pim_system_safe:
  assumes "pim_system cf p ch h0 c" "requests_ok c h0 es"
  shows "\<exists>s0 s d log acc cbs. sp_boot gen c = Some s0 \<and>
    sys_events recorded_ops c es (s0, (h0, [])) = Some ((s, (d, log)), acc, cbs) \<and>
    sys_events hbm3_ops c es (s0, h0) = Some ((s, d), acc, cbs) \<and>
    hbm3_run h0 log d \<and> legal_log h0 log \<and> int (length (cs_queue s)) \<le> u64 (pm_queue_size c)"
proof -
  from pim_start [OF assms(1)] obtain s0 where s0: "sp_boot gen c = Some s0" "hbm.sys_inv h0 c (s0, h0)" "queue_bound c s0" by blast
  have inv: "rhbm.sys_inv h0 c (s0, h0, [])"
    using s0(2) assms(1) logged_start by (auto simp: recorded_inv pim_system_def)
  have "\<forall>e \<in> set es. \<forall>r. event_request e = Some r \<longrightarrow> request_ok recorded_ops (\<lambda>x. hbm3_valid (fst x)) c (h0, []) r"
    using assms(2) by (simp add: requests_ok_def forget_request_ok)
  with rhbm.events_ok [OF inv, of es] s0(3) obtain x acc cbs where
    run: "sys_events recorded_ops c es (s0, h0, []) = Some (x, acc, cbs)" "queue_bound c (fst x)" "rhbm.sys_inv h0 c x"
    unfolding fst_conv snd_conv by blast
  obtain s d log where x: "x = (s, d, log)" by (cases x) auto
  have "sys_events hbm3_ops c es (s0, h0) = Some ((s, d), acc, cbs)"
    using forget_events [of hbm3_ops c es s0 "(h0, [])" hbm3_record] run(1) x by simp
  moreover have "hbm3_logged h0 d log" using run(3) unfolding x recorded_inv by blast
  ultimately show ?thesis using s0(1) run(1,2) x by (auto simp: queue_bound_def hbm3_logged_def)
qed

text \<open>C6: requests complete in order. For a controller set up on a configured device, with the functional
  mode off or with tensors and a layout that fit, and a history without priority requests, the requests
  accepted are, in the order they were accepted, the completed ones followed by the pending ones; exactly
  the completed ones that carry a callback are called back, in that order and once each; and the counter
  of completed requests is their number.\<close>

theorem pim_system_fifo:
  assumes "pim_system cf p ch h0 c" "requests_ok c h0 es" "\<forall>e \<in> set es. \<not> is_priority e"
  shows "\<exists>s0 s d acc cbs rs. sp_boot gen c = Some s0 \<and> sys_events hbm3_ops c es (s0, h0) = Some ((s, d), acc, cbs) \<and>
    acc = rs @ pending s \<and> notified cbs = with_callback rs \<and> st_completed (cs_stats s) = int (length rs)"
proof -
  from pim_start [OF assms(1)] obtain s0 where s0: "sp_boot gen c = Some s0" "hbm.sys_inv h0 c (s0, h0)" "pending s0 = []"
    "st_completed (cs_stats s0) = 0" by blast
  from hbm.events_ok [OF s0(2), of es] assms(2,3) obtain sd acc cbs rs where
    "sys_events hbm3_ops c es (s0, h0) = Some (sd, acc, cbs)" "pending s0 @ acc = rs @ pending (fst sd)"
    "notified cbs = with_callback rs" "st_completed (cs_stats (fst sd)) = st_completed (cs_stats s0) + int (length rs)"
    unfolding requests_ok_def fst_conv snd_conv by blast
  with s0 show ?thesis by (cases sd) auto
qed

text \<open>C4: the controller drains. For a controller set up on a configured device, with the functional mode off
  or with tensors and a layout that fit: after any history, when it receives nothing more, it completes
  everything that is pending within some number of ticks: every command is eventually ready, every
  delay ends, and the queues are empty, with the callbacks of all pending requests made in order.\<close>

theorem pim_system_drains:
  assumes "pim_system cf p ch h0 c" "requests_ok c h0 es"
  shows "\<exists>s0 sd acc cbs n s' d' cbs'. sp_boot gen c = Some s0 \<and>
    sys_events hbm3_ops c es (s0, h0) = Some (sd, acc, cbs) \<and> sys_run hbm3_ops c n sd = Some ((s', d'), cbs') \<and>
    pending s' = [] \<and> notified cbs' = with_callback (pending (fst sd))"
proof -
  from pim_start [OF assms(1)] obtain s0 where s0: "sp_boot gen c = Some s0" "hbm.sys_inv h0 c (s0, h0)" by blast
  from hbm.events_ok [OF s0(2), of es] assms(2) obtain sd acc cbs where
    run: "sys_events hbm3_ops c es (s0, h0) = Some (sd, acc, cbs)" "hbm.sys_inv h0 c sd"
    unfolding requests_ok_def fst_conv snd_conv by blast
  from hbm.drains_in_order [OF run(2)] obtain n sd' cbs' where
    "sys_run hbm3_ops c n sd = Some (sd', cbs')" "pending (fst sd') = []" "notified cbs' = with_callback (pending (fst sd))"
    by blast
  moreover obtain s' d' where "sd' = (s', d')" by fastforce
  ultimately show ?thesis using s0(1) run(1) by fastforce
qed

section \<open>On the example device\<close>

lemma ex_system: "pim_system ex_config ex_params 0 ex_dev ex_cfg"
proof -
  have "\<not> pm_enable_functional ex_cfg" by code_simp
  then show ?thesis by (simp add: pim_system_def ex_init ex_setup channel_of_def ex_count fn_ready_def)
qed

definition ex_token :: "nat \<Rightarrow> request" where
  "ex_token i = (request_src 0 11 0 (Some i))\<lparr>rq_addr_vec := [0, 0, 0, 0, int i, 0], rq_payload := Some [2, 0]\<rparr>"

definition ex_history :: "sp_event list" where
  "ex_history = [EvSend (ex_token 1), EvTick, EvSend (ex_token 2), EvTick]"

lemma ex_requests_ok: "requests_ok ex_cfg ex_dev ex_history" "\<forall>e \<in> set ex_history. \<not> is_priority e"
proof -
  have ty: "sc_req_sparepim ex_cfg = 11" by code_simp
  then show "requests_ok ex_cfg ex_dev ex_history" "\<forall>e \<in> set ex_history. \<not> is_priority e"
    by (auto simp: requests_ok_def ex_history_def event_request_def request_ok_def ex_token_def request_src_def
        is_priority_def)
qed

lemma pim_system_safe_witness:
  "\<exists>s0 s d log acc cbs. sp_boot (\<lambda>lo hi i. lo) ex_cfg = Some s0 \<and>
     sys_events recorded_ops ex_cfg ex_history (s0, (ex_dev, [])) = Some ((s, (d, log)), acc, cbs) \<and> legal_log ex_dev log"
  using pim_system_safe [OF ex_system ex_requests_ok(1)] by blast

lemma pim_system_fifo_witness:
  "\<exists>s0 s d acc cbs rs. sp_boot (\<lambda>lo hi i. lo) ex_cfg = Some s0 \<and>
     sys_events hbm3_ops ex_cfg ex_history (s0, ex_dev) = Some ((s, d), acc, cbs) \<and> acc = rs @ pending s"
  using pim_system_fifo [OF ex_system ex_requests_ok] by blast

lemma pim_system_drains_witness:
  "\<exists>s0 sd acc cbs n s' d' cbs'. sp_boot (\<lambda>lo hi i. lo) ex_cfg = Some s0 \<and>
     sys_events hbm3_ops ex_cfg ex_history (s0, ex_dev) = Some (sd, acc, cbs) \<and>
     sys_run hbm3_ops ex_cfg n sd = Some ((s', d'), cbs') \<and> pending s' = []"
  using pim_system_drains [OF ex_system ex_requests_ok(1)] by blast

lemma ex_latency: "\<exists>latency. bgmu_read_latency hbm3_ops ex_dev n = Some latency"
  using hbm.timing_total [OF pim_system_on [OF ex_system]] .

lemma ex_step: "functional_step ex_cfg (cs_fn (sp_start fn_empty)) = Some fn_empty"
proof -
  have "\<not> pm_enable_functional ex_cfg" by code_simp
  then show ?thesis by (simp add: functional_step_def sp_start_def)
qed

lemma token_commands_witness:
  "\<exists>s' ops. expand_sparepim_token hbm3_ops ex_dev ex_cfg (ex_token 1) (sp_start fn_empty) = Some s' \<and>
     cs_ops s' = ops @ [complete_op (ex_token 1)] \<and> length (cmd_addrs (sc_cmd_mac ex_cfg) ops) = 1 \<and>
     filter (hits_bank ex_cfg (0, 0, 1)) (cmd_addrs (sc_cmd_act ex_cfg) ops) = [[0, 0, 0, 1, 1, 0], [0, 0, 0, 1, 2, 0]]"
proof -
  obtain latency where l: "bgmu_read_latency hbm3_ops ex_dev
      (max 1 (vs_bgmu_reads (read_bgmu_vocs_and_find_max ex_cfg (ex_token 1)))) = Some latency" using ex_latency by blast
  have m: "length (mac_addrs ex_cfg (normalize_addr ex_cfg (rq_addr_vec (ex_token 1))) (token_macs ex_cfg (ex_token 1))) = 1"
    "map (\<lambda>av. make_bank_addr ex_cfg av 0 0 1) (token_rows ex_cfg (ex_token 1)) = [[0, 0, 0, 1, 1, 0], [0, 0, 0, 1, 2, 0]]"
    "(0, 0, 1) \<in> set (all_banks ex_cfg)" by code_simp+
  have "cs_ops (sp_start fn_empty) = []" by (simp add: sp_start_def)
  with token_commands [OF ex_cfg_ok ex_step l] m show ?thesis by fastforce
qed

lemma token_row_discipline_witness:
  "\<exists>s'. expand_sparepim_token hbm3_ops ex_dev ex_cfg (ex_token 1) (sp_start fn_empty) = Some s' \<and>
     follow ex_cfg (0, 0, 1) None (cs_ops s') = Some None"
proof -
  obtain latency where l: "bgmu_read_latency hbm3_ops ex_dev
      (max 1 (vs_bgmu_reads (read_bgmu_vocs_and_find_max ex_cfg (ex_token 1)))) = Some latency" using ex_latency by blast
  have e: "pm_enable_esdm ex_cfg" "pm_enable_qk_act_pre ex_cfg" "pm_enable_act_spm_pre ex_cfg"
    "(0, 0, 1) \<in> set (all_banks ex_cfg)" by code_simp+
  have "cs_ops (sp_start fn_empty) = []" by (simp add: sp_start_def)
  with token_row_discipline [OF ex_cfg_ok e(1-3) ex_step e(4) l] show ?thesis by auto
qed

lemma qk_row_accounting_witness:
  "st_qk_rows (cs_stats (enqueue_qk_stage ex_cfg ex_base 20 (sp_start fn_empty))) = 3 \<and>
   st_qk_page_hits (cs_stats (enqueue_qk_stage ex_cfg ex_base 20 (sp_start fn_empty))) = 17"
proof -
  have e: "pm_enable_esdm ex_cfg" "pm_kt_col_start ex_cfg = 0" "pm_esdm_columns_per_row ex_cfg = 8" by code_simp+
  show ?thesis
    using qk_row_accounting [OF ex_cfg_ok e(1), where macs = 20 and s = "sp_start fn_empty" and base = ex_base] e(2,3)
    by (simp add: sp_start_def stats_zero_def)
qed

lemma bgmu_scan_witness:
  "vs_max_voc (read_bgmu_vocs_and_find_max ex_cfg (ex_token 1)) = 2 \<and>
   vs_total_voc (read_bgmu_vocs_and_find_max ex_cfg (ex_token 1)) = 2"
proof -
  have "rq_payload (ex_token 1) = Some [2, 0]" by (simp add: ex_token_def)
  from bgmu_scan [OF ex_cfg_ok this] show ?thesis by simp
qed

end
