(* ===== verification/Simulation_HBM3.thy ===== *)
theory Simulation_HBM3
  imports Spare_HBM3
begin

text \<open>
  The whole program: a trace, the trace frontend, an address mapper, one SPARE-PIM channel of a
  configured HBM3 device, and the main loop. The simulation ends, every token is completed, all the
  traffic was timing-legal and, in functional mode, the outputs match the golden model.
\<close>

section \<open>Addresses reach the channel\<close>

definition hbm3_mapper_dram :: "hbm3 \<Rightarrow> mapper_dram" where
  "hbm3_mapper_dram h = \<lparr>md_levels = hbm3_levels, md_count = org_count (hb_org h),
     md_prefetch = hbm3_internal_prefetch_size, md_width = hb_channel_width h\<rparr>"

lemma log2_one: "log2_int 1 = Some 0"
  by (simp add: log2_int_def calc_log2.simps)

lemma those_length: "those xs = Some ys \<Longrightarrow> length ys = length xs"
  by (induction xs arbitrary: ys) (auto split: option.splits)

lemma those_nth: "those xs = Some ys \<Longrightarrow> i < length xs \<Longrightarrow> xs ! i = Some (ys ! i) \<and> length ys = length xs"
proof (induction xs arbitrary: ys i)
  case (Cons x xs)
  then obtain y ys' where "x = Some y" "those xs = Some ys'" "ys = y # ys'" by (auto split: option.splits)
  then show ?case using Cons.IH [of ys'] Cons.prems(2) by (cases i; cases xs) auto
qed simp

lemma linear_setup_channel:
  assumes "linear_setup d = Some lm" "md_count d ! 0 = 1" "2 \<le> length (md_count d)"
  shows "level_bits lm 0 = 0"
proof -
  from assms(1) obtain bits pf b where bits: "those (map log2_int (md_count d)) = Some bits"
    and lm: "lm_bits lm = (map int bits)[length bits - 1 := b - int pf]"
    unfolding linear_setup_def bind_eq_Some_conv Let_def by auto
  have zero: "bits ! 0 = 0" and len: "length bits = length (md_count d)"
    using bits those_nth [of "map log2_int (md_count d)" bits 0] those_length [of "map log2_int (md_count d)" bits] assms(2,3) log2_one
    by (cases "md_count d"; auto)+
  have "length bits - 1 \<noteq> 0" "0 < length bits" using len assms(3) by linarith+
  then have "lm_bits lm ! 0 = int (bits ! 0)" unfolding lm by (subst nth_list_update_neq) (auto simp: nth_map)
  then show ?thesis using zero by (simp add: level_bits_def)
qed

lemma linear_setup_length: "linear_setup d = Some lm \<Longrightarrow> lm_levels lm = length (md_count d)"
  unfolding linear_setup_def bind_eq_Some_conv Let_def by (auto simp: those_length)

lemma mapper_channel:
  assumes "linear_ok lm" "level_bits lm 0 = 0" "mapper \<in> {ChRaBaRoCo lm, RoBaRaCoCh lm}"
  shows "to_channel_0 mapper"
proof -
  have n: "2 \<le> lm_levels lm" using assms(1) by (simp add: linear_ok_def)
  have zero: "vec_at v 0 = Some 0" if "length v = lm_levels lm" "in_range lm v 0" for v
    using that n assms(2) by (simp add: vec_at_def in_range_def)
  have "\<exists>v. ChRaBaRoCo lm a av = Some v \<and> vec_at v 0 = Some 0" "\<exists>v. RoBaRaCoCh lm a av = Some v \<and> vec_at v 0 = Some 0" for a av
    using ch.maps [OF assms(1), of a av] ro.maps [OF assms(1), of a av] zero n by (metis of_nat_0_less_iff order_refl
      less_le_trans zero_less_numeral)+
  with assms(3) show ?thesis by (auto simp: to_channel_0_def)
qed

section \<open>The simulation\<close>

text \<open>C1: the simulation completes. Take one channel of a configured HBM3 device with its controller, the
  functional mode off or with tensors and a layout that fit (\<open>fn_ready\<close>: the organization fits the packed
  keys, every column of keys and values has a cell of its own, at least one batch and head; the default layout
  does not fit, see C36), a queue of at least one entry, a linear mapper set up with valid bits for every
  level, any trace that the frontend reads and accepts and any positive clock ratios. The main
  loop then ends: no index is out of range and no division is by zero
  (integers are unbounded here), every token of the trace has been sent, completed and called back once, and
  nothing is pending. The same loop on the device that records what it is sent does exactly the same, and the
  recorded list, one entry for each command issued, is the log of the device, and every command in it was
  timing-legal when it was issued. In functional mode one row of outputs per token (up to the sequence length)
  has been computed from the banks, and \<open>finalize\<close> finds them equal to the golden model's.\<close>

theorem simulation_completes:
  assumes "pim_system cf p 0 h0 c" "ds_count (hb_spec h0) ! 0 = 1" "1 \<le> u64 (pm_queue_size c)"
    and "linear_setup (hbm3_mapper_dram h0) = Some lm" "linear_ok lm" "mapper \<in> {ChRaBaRoCo lm, RoBaRaCoCh lm}"
    and "trace_init tp file = Inr f0" "trace_setup (hbm3_tables h0) f0 = Inr f" "1 \<le> ft" "1 \<le> mt"
  shows "\<exists>r0 m0 n f' r' m' s log.
    mem_init (\<lambda>i. map_option (\<lambda>s. (c, s)) (sp_boot gen c)) 1 (h0, []) = Some r0 \<and>
    sim_loop (trace_sim recorded_ops mapper) ft mt n 0 (f, r0) = Some (True, f', r') \<and>
    mem_init (\<lambda>i. map_option (\<lambda>s. (c, s)) (sp_boot gen c)) 1 h0 = Some m0 \<and>
    sim_loop (trace_sim hbm3_ops mapper) ft mt n 0 (f, m0) = Some (True, f', m') \<and>
    ft_issued f' = length (ft_trace f) \<and> ft_completed f' = length (ft_trace f) \<and>
    ms_ctrls m' = [(c, s)] \<and> pending s = [] \<and> st_completed (cs_stats s) = int (length (ft_trace f)) \<and>
    ms_dram r' = (ms_dram m', log) \<and> hbm3_run h0 log (ms_dram m') \<and> legal_log h0 log \<and>
    (pm_enable_functional c \<longrightarrow> functional_finalize c (cs_fn s) \<and>
       fn_current_sq (cs_fn s) = min (int (length (ft_trace f))) (pm_seq_len c))"
proof -
  from pim_start [OF assms(1)] obtain s0 where s0: "sp_boot gen c = Some s0" "hbm.sys_inv h0 c (s0, h0)" "pending s0 = []"
    "st_completed (cs_stats s0) = 0" "pm_enable_functional c \<longrightarrow> fn_current_sq (cs_fn s0) = 0" by blast
  let ?r0 = "\<lparr>ms_clk = 0, ms_dram = (h0, [] :: cmd_rec list), ms_ctrls = [(c, s0)], ms_reads = 0, ms_writes = 0, ms_others = 0\<rparr>"
  let ?m0 = "\<lparr>ms_clk = 0, ms_dram = h0, ms_ctrls = [(c, s0)], ms_reads = 0, ms_writes = 0, ms_others = 0\<rparr>"
  have init: "mem_init (\<lambda>i. map_option (\<lambda>s. (c, s)) (sp_boot gen c)) 1 (h0, []) = Some ?r0"
    "mem_init (\<lambda>i. map_option (\<lambda>s. (c, s)) (sp_boot gen c)) 1 h0 = Some ?m0"
    using s0(1) by (simp_all add: mem_init_def)
  have sys: "hbm3_init cf = Inr h0" "sp_setup p 0 (hbm3_tables h0) = Some c" "fn_ready c"
    using assms(1) by (auto simp: pim_system_def)
  have req: "sc_req_sparepim c = 11" using hbm3_request_id [OF sys(2)] .
  from assms(7,8) have f: "ft_idx f = 0" "ft_issued f = 0" "ft_completed f = 0" "ft_req_id f = 11"
    using hbm3_spare_pim_id by (auto simp: trace_init_def trace_setup_def hbm3_tables_def sbind_Inr Let_def split: option.splits if_splits)
  have "rhbm.sys_inv h0 c (s0, h0, [])" using s0(2) logged_start [OF sys(1)] by (simp only: recorded_inv)
  moreover have "0 \<le> pm_seq_len c" if "pm_enable_functional c" using sys(3) that by (simp add: fn_ready_def dims_ok_def)
  ultimately have inv: "rhbm.sim_inv h0 c (ft_trace f) (f, ?r0)"
    using s0(3-5) f req by (auto simp: rhbm.sim_inv_def pending_def)
  have count: "org_count (hb_org h0) = ds_count (hb_spec h0)"
    using hbm3_spec_of_Some [OF hbm3_init_Inr(3) [OF sys(1)]] by simp
  have len: "2 \<le> length (org_count (hb_org h0))" using linear_setup_length [OF assms(4)] assms(5) by (simp add: hbm3_mapper_dram_def linear_ok_def)
  have "level_bits lm 0 = 0"
    using linear_setup_channel [OF assms(4)] assms(2) len by (simp add: hbm3_mapper_dram_def count)
  note map = mapper_channel [OF assms(5) this assms(6)]
  from rhbm.sim_terminates [OF inv _ map assms(3,9,10), of 0] obtain n fm where
    fin: "sim_loop (trace_sim recorded_ops mapper) ft mt n 0 (f, ?r0) = Some (True, fm)"
      "rhbm.sim_inv h0 c (ft_trace f) fm" "trace_is_finished (fst fm)" by auto
  obtain f' r' where fm: "fm = (f', r')" by fastforce
  obtain d log where d: "ms_dram r' = (d, log)" by fastforce
  from fin(2) obtain s where s: "ms_ctrls r' = [(c, s)]" "rhbm.sys_inv h0 c (s, d, log)" "ft_trace f' = ft_trace f"
    "ft_idx f' \<le> length (ft_trace f)" "ft_issued f' = ft_idx f'" "ft_idx f' = ft_completed f' + length (pending s)"
    "st_completed (cs_stats s) = int (ft_completed f')"
    "pm_enable_functional c \<longrightarrow> fn_current_sq (cs_fn s) = min (int (ft_idx f' - length (cs_queue s))) (pm_seq_len c)"
    unfolding fm rhbm.sim_inv_def by (auto simp: d)
  have done': "ft_idx f' = length (ft_trace f)" "ft_completed f' = length (ft_trace f)" "pending s = []"
    using fin(3) s(3,4,6) by (auto simp: fm trace_is_finished_def)
  have "sim_loop (trace_sim hbm3_ops mapper) ft mt n 0 (f, forget (?r0)) = Some (True, f', forget r')"
    using forget_loop [of hbm3_ops mapper ft mt n 0 f "?r0" hbm3_record] fin(1) fm by simp
  then have plain: "sim_loop (trace_sim hbm3_ops mapper) ft mt n 0 (f, ?m0) = Some (True, f', forget r')"
    by (simp add: forget_def)
  have log: "hbm.sys_inv h0 c (s, d)" "hbm3_logged h0 d log" using s(2) unfolding recorded_inv by blast+
  then have "fn_ok c (cs_fn s)" by (simp add: hbm.sys_inv_def)
  then have "functional_finalize c (cs_fn s)" if "pm_enable_functional c"
    using finalize_passes [of c "cs_fn s"] sys(3) that by (simp add: fn_ok_def fn_ready_def)
  moreover have "cs_queue s = []" using done'(3) by (simp add: pending_def)
  ultimately show ?thesis
    by (intro exI [of _ "?r0"] exI [of _ "?m0"] exI [of _ n] exI [of _ f'] exI [of _ r'] exI [of _ "forget r'"]
        exI [of _ s] exI [of _ log])
      (use init fin(1) plain s log d done' fm in \<open>simp add: forget_def hbm3_logged_def\<close>)
qed

section \<open>On the example device\<close>

definition ex_mapper :: linear_mapper where
  "ex_mapper = \<lparr>lm_levels = 6, lm_bits = [0, 0, 0, 1, 17, 5], lm_tx = 4, lm_row = 4, lm_col = 5\<rparr>"

lemma ex_logs: "calc_log2 131072 = 17" "calc_log2 (Suc 0) = 0" "calc_log2 2 = 1" "calc_log2 64 = 6" "calc_log2 16 = 4"
  using calc_log2_pow [of 17] calc_log2_pow [of 0] calc_log2_pow [of 1] calc_log2_pow [of 6] calc_log2_pow [of 4]
  by simp_all

lemma ex_mapper_of: "hbm3_mapper_dram ex_dev = \<lparr>md_levels = hbm3_levels, md_count = [1, 1, 1, 2, 131072, 64],
    md_prefetch = 2, md_width = 64\<rparr>"
proof -
  have "hb_channel_width ex_dev = 64"
  proof -
    have "cf_channel_width ex_config = Some 64" by (simp add: ex_config_def)
    with ex_init show ?thesis by (auto simp: hbm3_init_def sbind_Inr split: option.splits simp del: not_None_eq
      dest!: arg_cong [of _ ex_dev hb_channel_width])
  qed
  moreover have "org_count (hb_org ex_dev) = [1, 1, 1, 2, 131072, 64]"
    using arg_cong [OF ex_tables, of dt_counts] by (simp add: hbm3_tables_def)
  ultimately show ?thesis by (simp add: hbm3_mapper_dram_def hbm3_internal_prefetch_size_def)
qed

lemma ex_mapper_setup: "linear_setup (hbm3_mapper_dram ex_dev) = Some ex_mapper" "linear_ok ex_mapper"
  unfolding ex_mapper_of
  by (simp add: linear_setup_def log2_int_def ex_logs ex_mapper_def vec_at_def specdef_id_def hbm3_levels_def) code_simp

lemma ex_mapper_dram: "mapper_dram_ok (hbm3_mapper_dram ex_dev)"
  unfolding ex_mapper_of by (simp add: mapper_dram_ok_def specdef_id_def hbm3_levels_def)

definition ex_trace_params :: trace_params where
  "ex_trace_params = trace_default_params\<lparr>tp_path := ''trace''\<rparr>"

definition ex_file :: "string list" where
  "ex_file = [''VOC 2,0 64 3'', ''TOKEN 1 2 # summary only'']"

definition ex_front :: spare_trace where
  "ex_front = \<lparr>ft_params = (fix_params ex_trace_params)\<lparr>tp_expected_voc_count := 2\<rparr>,
     ft_trace = [\<lparr>tk_addr = 64, tk_max_voc = 2, tk_total_voc = 2, tk_mac = 3, tk_acc = 0, tk_voc_count = 2, tk_vocs = [2, 0]\<rparr>,
       \<lparr>tk_addr = 64, tk_max_voc = 1, tk_total_voc = 2, tk_mac = 0, tk_acc = 0, tk_voc_count = 0, tk_vocs = []\<rparr>],
     ft_idx = 0, ft_issued = 0, ft_completed = 0, ft_req_id = 11, ft_total_voc = 4, ft_max_voc_sum = 3\<rparr>"

lemma ex_front_init: "\<exists>f0. trace_init ex_trace_params (Some ex_file) = Inr f0 \<and> trace_setup (hbm3_tables ex_dev) f0 = Inr ex_front"
proof -
  let ?f0 = "ex_front\<lparr>ft_params := fix_params ex_trace_params, ft_req_id := -1\<rparr>"
  have "trace_init ex_trace_params (Some ex_file) = Inr ?f0" by code_simp
  moreover have "trace_setup \<lparr>dt_levels = hbm3_levels, dt_commands = hbm3_commands,
    dt_requests = hbm3_requests, dt_counts = [1, 1, 1, 2, 131072, 64]\<rparr> ?f0 = Inr ex_front" by code_simp
  ultimately show ?thesis by (auto simp: ex_tables)
qed

lemma simulation_completes_witness:
  "\<exists>r0 m0 n f' r' m' s log. mem_init (\<lambda>i. map_option (\<lambda>s. (ex_cfg, s)) (sp_boot (\<lambda>lo hi i. lo) ex_cfg)) 1 ex_dev = Some m0 \<and>
     sim_loop (trace_sim hbm3_ops (RoBaRaCoCh ex_mapper)) 8 3 n 0 (ex_front, m0) = Some (True, f', m') \<and>
     sim_loop (trace_sim recorded_ops (RoBaRaCoCh ex_mapper)) 8 3 n 0 (ex_front, r0) = Some (True, f', r') \<and>
     ms_dram r' = (ms_dram m', log) \<and> legal_log ex_dev log \<and>
     ft_completed f' = 2 \<and> ms_ctrls m' = [(ex_cfg, s)] \<and> st_completed (cs_stats s) = 2"
proof -
  have q: "1 \<le> u64 (pm_queue_size ex_cfg)" by code_simp
  have one: "ds_count (hb_spec ex_dev) ! 0 = 1" by (simp add: ex_count)
  obtain f0 where f0: "trace_init ex_trace_params (Some ex_file) = Inr f0" "trace_setup (hbm3_tables ex_dev) f0 = Inr ex_front"
    using ex_front_init by blast
  have len: "length (ft_trace ex_front) = 2" by (simp add: ex_front_def)
  show ?thesis
    using simulation_completes [OF ex_system one q ex_mapper_setup _ f0, of "RoBaRaCoCh ex_mapper" 8 3 "\<lambda>lo hi i. lo"] len
    by fastforce
qed

lemma accepted_trace_summary_witness:
  "vs_max_voc (read_bgmu_vocs_and_find_max ex_cfg (token_request 11 (hd (ft_trace ex_front)))) = 2 \<and>
   vs_voc_values (read_bgmu_vocs_and_find_max ex_cfg (token_request 11 (hd (ft_trace ex_front)))) = 2"
proof -
  obtain f0 where f0: "trace_init ex_trace_params (Some ex_file) = Inr f0" "trace_setup (hbm3_tables ex_dev) f0 = Inr ex_front"
    using ex_front_init by blast
  have t: "hd (ft_trace ex_front) \<in> set (ft_trace ex_front)" "tk_max_voc (hd (ft_trace ex_front)) = 2" "ft_req_id ex_front = 11"
    "tk_vocs (hd (ft_trace ex_front)) \<noteq> []"
    by (simp_all add: ex_front_def)
  have p: "tp_validate_voc_count ex_trace_params" "tp_expected_voc_count ex_trace_params = -1"
    by (simp_all add: ex_trace_params_def trace_default_params_def)
  have "sc_num_bgs ex_cfg * sc_num_banks ex_cfg = 2" by code_simp
  then show ?thesis using accepted_trace_summary [OF ex_setup ex_cfg_ok f0 t(1)] t(2-4) p by simp
qed

lemma linear_mapping_roundtrip_witness:
  "\<exists>u v. ChRaBaRoCo ex_mapper 12345 [] = Some u \<and> RoBaRaCoCh ex_mapper 12345 [] = Some v \<and> in_range ex_mapper v 3"
proof -
  have "lm_levels ex_mapper = 6" by (simp add: ex_mapper_def)
  with linear_mapping_roundtrip [OF ex_mapper_setup(1) ex_mapper_dram, of 12345 "[]"] show ?thesis by fastforce
qed

lemma mop4_roundtrip_witness:
  "\<exists>v. MOP4CLXOR ex_mapper 12345 [] = Some v \<and> mop4_unmap ex_mapper v = Some 771"
proof -
  have "xor_ok ex_mapper" by code_simp
  moreover have "drop_bit (lm_tx ex_mapper) 12345 = (771 :: int)" by code_simp
  moreover have "total_bits ex_mapper (upto_levels 0 (lm_row ex_mapper)) = 1" "level_bits ex_mapper (lm_col ex_mapper) = 5"
    by code_simp+
  ultimately show ?thesis using mop4_roundtrip [of ex_mapper 12345 "[]"] by simp
qed

end
