(* ===== verification/Frfcfs.thy ===== *)
theory Frfcfs
  imports Request_Buffer Dram_Spec
begin

text \<open>
  The scheduler of the generic DRAM controller (\<open>src/dram_controller/impl/scheduler/generic_scheduler.cpp\<close>)
  and what controllers and schedulers call on a device, the record \<open>gdram\<close> (\<open>src/dram/dram.h\<close>). An
  iterator into a buffer is a position; \<open>None\<close> is undefined behaviour or an exception of the device.
\<close>

section \<open>The device as controllers see it\<close>

record 'd gdram =
  gd_preq :: "'d \<Rightarrow> int \<Rightarrow> addr_vec \<Rightarrow> int option"
  gd_ready :: "'d \<Rightarrow> int \<Rightarrow> addr_vec \<Rightarrow> bool option"
  gd_issue :: "'d \<Rightarrow> int \<Rightarrow> addr_vec \<Rightarrow> 'd option"
  gd_rowhit :: "'d \<Rightarrow> int \<Rightarrow> addr_vec \<Rightarrow> bool option"
  gd_rowopen :: "'d \<Rightarrow> int \<Rightarrow> addr_vec \<Rightarrow> bool option"
  gd_translate :: "'d \<Rightarrow> int \<Rightarrow> int option"
  gd_meta :: "'d \<Rightarrow> int \<Rightarrow> command_meta option"
  gd_scope :: "'d \<Rightarrow> int \<Rightarrow> int option"
  gd_read_latency :: "'d \<Rightarrow> clk"
  gd_tick :: "'d \<Rightarrow> 'd"

section \<open>FRFCFS\<close>

definition rq_ready :: "'d gdram \<Rightarrow> 'd \<Rightarrow> request \<Rightarrow> bool option" where
  "rq_ready D d r = gd_ready D d (rq_command r) (rq_addr_vec r)"

definition frfcfs_compare :: "'d gdram \<Rightarrow> 'd \<Rightarrow> request list \<Rightarrow> nat \<Rightarrow> nat \<Rightarrow> nat option" where
  "frfcfs_compare D d buf req1 req2 = do {
     ready1 \<leftarrow> rq_ready D d (buf ! req1);
     ready2 \<leftarrow> rq_ready D d (buf ! req2);
     Some (if ready1 \<noteq> ready2 then (if ready1 then req1 else req2)
           else if rq_arrive (buf ! req1) \<le> rq_arrive (buf ! req2) then req1 else req2) }"

text \<open>The loop that asks for the command each request needs next.\<close>

definition with_preq :: "'d gdram \<Rightarrow> 'd \<Rightarrow> request \<Rightarrow> request option" where
  "with_preq D d r = map_option (\<lambda>p. r\<lparr>rq_command := p\<rparr>) (gd_preq D d (rq_final r) (rq_addr_vec r))"

definition frfcfs_best :: "'d gdram \<Rightarrow> 'd \<Rightarrow> request list \<Rightarrow> (nat option \<times> request list) option" where
  "frfcfs_best D d buf =
     (if buf = [] then Some (None, buf)
      else do {
        buf' \<leftarrow> those (map (with_preq D d) buf);
        candidate \<leftarrow> foldlM (frfcfs_compare D d buf') 0 [1..<length buf'];
        Some (Some candidate, buf') })"

section \<open>The contract of a scheduler\<close>

text \<open>
  \<open>prepared\<close>: the requests as before, each with the command it needs next. \<open>rank_of\<close> orders requests by
  readiness and then by arrival.
\<close>

definition prepared :: "'d gdram \<Rightarrow> 'd \<Rightarrow> request list \<Rightarrow> request list \<Rightarrow> bool" where
  "prepared D d buf buf' \<longleftrightarrow> list_all2 (\<lambda>r r'. with_preq D d r = Some r') buf buf'"

definition rank_of :: "'d gdram \<Rightarrow> 'd \<Rightarrow> request \<Rightarrow> bool \<times> clk" where
  "rank_of D d r = (rq_ready D d r \<noteq> Some True, rq_arrive r)"

definition rank_le :: "bool \<times> clk \<Rightarrow> bool \<times> clk \<Rightarrow> bool" where
  "rank_le a b \<longleftrightarrow> fst a < fst b \<or> fst a = fst b \<and> snd a \<le> snd b"

lemma rank_le_total: "rank_le a b \<or> rank_le b a"
  by (cases "fst a"; cases "fst b") (auto simp: rank_le_def)

lemma rank_le_trans: "rank_le a b \<Longrightarrow> rank_le b c \<Longrightarrow> rank_le a c"
  by (cases "fst a"; cases "fst b"; cases "fst c") (auto simp: rank_le_def)

lemma rank_le_refl [simp]: "rank_le a a"
  by (simp add: rank_le_def)

locale request_scheduler =
  fixes D :: "'d gdram" and best :: "'d \<Rightarrow> request list \<Rightarrow> (nat option \<times> request list) option"
  assumes best_total: "\<forall>r \<in> set buf. \<exists>p b. gd_preq D d (rq_final r) (rq_addr_vec r) = Some p \<and>
      gd_ready D d p (rq_addr_vec r) = Some b \<Longrightarrow> \<exists>res. best d buf = Some res"
    and best_prepared: "best d buf = Some (res, buf') \<Longrightarrow> prepared D d buf buf'"
    and best_none: "best d buf = Some (res, buf') \<Longrightarrow> res = None \<longleftrightarrow> buf = []"
    and best_index: "best d buf = Some (Some i, buf') \<Longrightarrow> i < length buf'"
    and best_ready: "best d buf = Some (Some i, buf') \<Longrightarrow> r \<in> set buf' \<Longrightarrow> rq_ready D d r = Some True \<Longrightarrow>
      rq_ready D d (buf' ! i) = Some True"
begin

lemma best_length: "best d buf = Some (res, buf') \<Longrightarrow> length buf' = length buf"
  using best_prepared list_all2_lengthD unfolding prepared_def by metis

lemma best_nth:
  "best d buf = Some (Some i, buf') \<Longrightarrow> i < length buf \<and> with_preq D d (buf ! i) = Some (buf' ! i)"
  using best_prepared best_index best_length unfolding prepared_def list_all2_conv_all_nth by metis

text \<open>No selected request is ready: then none is.\<close>

lemma best_unready:
  "best d buf = Some (Some i, buf') \<Longrightarrow> rq_ready D d (buf' ! i) \<noteq> Some True \<Longrightarrow>
   r \<in> set buf' \<Longrightarrow> rq_ready D d r \<noteq> Some True"
  using best_ready by blast

end

section \<open>FRFCFS meets it\<close>

lemma those_map_list_all2: "those (map f xs) = Some ys \<longleftrightarrow> list_all2 (\<lambda>x y. f x = Some y) xs ys"
proof (induction xs arbitrary: ys)
  case (Cons x xs)
  then show ?case by (cases ys) (auto split: option.splits)
qed (simp add: eq_commute)

lemma those_map_defined: "(\<forall>x \<in> set xs. \<exists>y. f x = Some y) \<Longrightarrow> \<exists>ys. those (map f xs) = Some ys"
  by (induction xs) (auto split: option.splits)

lemma foldlM_total:
  assumes "\<And>s x. x \<in> set xs \<Longrightarrow> Q s \<Longrightarrow> \<exists>s'. f s x = Some s' \<and> Q s'" "Q s"
  shows "\<exists>s'. foldlM f s xs = Some s' \<and> Q s'"
  using assms
proof (induction xs arbitrary: s)
  case (Cons x xs)
  obtain s1 where "f s x = Some s1" "Q s1" using Cons.prems(1) [of x s] Cons.prems(2) by auto
  with Cons.IH [of s1] Cons.prems(1) show ?case by auto
qed simp

text \<open>The candidate after looking at the first \<open>n\<close> requests: of the best rank, the earliest of those.\<close>

definition leads :: "'d gdram \<Rightarrow> 'd \<Rightarrow> request list \<Rightarrow> nat \<Rightarrow> nat \<Rightarrow> bool" where
  "leads D d buf n i \<longleftrightarrow> i < n \<and> (\<forall>j < n. rank_le (rank_of D d (buf ! i)) (rank_of D d (buf ! j)) \<and>
     (j < i \<longrightarrow> \<not> rank_le (rank_of D d (buf ! j)) (rank_of D d (buf ! i))))"

lemma compare_leads:
  assumes "leads D d buf n i" "frfcfs_compare D d buf i n = Some k"
  shows "leads D d buf (Suc n) k"
proof -
  let ?R = "\<lambda>j. rank_of D d (buf ! j)"
  from assms(2) have k: "k = (if rank_le (?R i) (?R n) then i else n)"
    by (auto simp: frfcfs_compare_def bind_eq_Some_conv rank_le_def rank_of_def split: if_splits)
  show ?thesis
  proof (cases "rank_le (?R i) (?R n)")
    case True
    then show ?thesis using assms(1) k by (auto simp: leads_def less_Suc_eq)
  next
    case False
    then have ni: "rank_le (?R n) (?R i)" using rank_le_total by blast
    have "rank_le (?R n) (?R j) \<and> \<not> rank_le (?R j) (?R n)" if "j < n" for j
    proof -
      have "rank_le (?R i) (?R j)" using assms(1) that by (simp add: leads_def)
      then show ?thesis using ni False rank_le_trans by blast
    qed
    then show ?thesis using False k by (auto simp: leads_def less_Suc_eq)
  qed
qed

lemma candidate_leads:
  "foldlM (frfcfs_compare D d buf) 0 [1..<Suc n] = Some k \<Longrightarrow> leads D d buf (Suc n) k"
proof (induction n arbitrary: k)
  case 0
  then show ?case by (simp add: leads_def)
next
  case (Suc n)
  then obtain i where i: "foldlM (frfcfs_compare D d buf) 0 [1..<Suc n] = Some i"
    "frfcfs_compare D d buf i (Suc n) = Some k"
    by (auto simp: foldlM_append bind_eq_Some_conv)
  from compare_leads [OF Suc.IH [OF i(1)] i(2)] show ?case .
qed

lemma frfcfs_best_leads:
  assumes "frfcfs_best D d buf = Some (res, buf')"
  shows "prepared D d buf buf'" "res = None \<longleftrightarrow> buf = []"
    "res = Some i \<Longrightarrow> leads D d buf' (length buf') i"
proof -
  show "prepared D d buf buf'"
    using assms by (auto simp: frfcfs_best_def prepared_def those_map_list_all2 bind_eq_Some_conv split: if_splits)
  show "res = None \<longleftrightarrow> buf = []"
    using assms by (auto simp: frfcfs_best_def bind_eq_Some_conv split: if_splits)
  assume "res = Some i"
  with assms have c: "foldlM (frfcfs_compare D d buf') 0 [1..<length buf'] = Some i" "buf \<noteq> []"
    "those (map (with_preq D d) buf) = Some buf'"
    by (auto simp: frfcfs_best_def bind_eq_Some_conv split: if_splits)
  then have "length buf' = length buf" using list_all2_lengthD by (fastforce simp: those_map_list_all2)
  then obtain n where "length buf' = Suc n" using c(2) by (cases buf) auto
  with c(1) candidate_leads show "leads D d buf' (length buf') i" by metis
qed

lemma frfcfs_best_total:
  assumes "\<forall>r \<in> set buf. \<exists>p b. gd_preq D d (rq_final r) (rq_addr_vec r) = Some p \<and> gd_ready D d p (rq_addr_vec r) = Some b"
  shows "\<exists>res. frfcfs_best D d buf = Some res"
proof (cases "buf = []")
  case False
  from assms have "\<forall>r \<in> set buf. \<exists>r'. with_preq D d r = Some r'" by (fastforce simp: with_preq_def)
  from those_map_defined [OF this] obtain buf' where b: "those (map (with_preq D d) buf) = Some buf'" by blast
  have "\<exists>x. rq_ready D d r' = Some x" if r': "r' \<in> set buf'" for r'
  proof -
    from b r' obtain r where "r \<in> set buf" "with_preq D d r = Some r'"
      by (auto simp: those_map_list_all2 list_all2_conv_all_nth in_set_conv_nth) (metis)
    with assms show ?thesis by (fastforce simp: with_preq_def rq_ready_def)
  qed
  note rdy = this
  have step: "\<exists>k'. frfcfs_compare D d buf' k j = Some k' \<and> k' < length buf'" if "k < length buf'" "j < length buf'" for k j
  proof -
    note kj = that
    obtain x y where "rq_ready D d (buf' ! k) = Some x" "rq_ready D d (buf' ! j) = Some y"
      using rdy [OF nth_mem [OF kj(1)]] rdy [OF nth_mem [OF kj(2)]] by auto
    then show ?thesis using kj by (simp add: frfcfs_compare_def)
  qed
  have "0 < length buf'" using list_all2_lengthD [OF b [unfolded those_map_list_all2]] False by (cases buf) auto
  then have "\<exists>k. foldlM (frfcfs_compare D d buf') 0 [1..<length buf'] = Some k \<and> k < length buf'"
    by (intro foldlM_total) (simp_all add: step)
  with b False show ?thesis by (auto simp: frfcfs_best_def)
qed (simp add: frfcfs_best_def)

interpretation frfcfs: request_scheduler D "frfcfs_best D" for D :: "'d gdram"
proof
  fix d buf i buf' r
  assume best: "frfcfs_best D d buf = Some (Some i, buf')"
  note leads = frfcfs_best_leads(3) [OF best refl]
  then show "i < length buf'" by (simp add: leads_def)
  assume "r \<in> set buf'" "rq_ready D d r = Some True"
  then obtain j where "j < length buf'" "r = buf' ! j" by (auto simp: in_set_conv_nth)
  with leads \<open>rq_ready D d r = Some True\<close> show "rq_ready D d (buf' ! i) = Some True"
    by (auto simp: leads_def rank_le_def rank_of_def)
qed (fact frfcfs_best_total frfcfs_best_leads(1) frfcfs_best_leads(2))+

text \<open>C15: the scheduler picks the oldest ready request. Of a non-empty buffer \<open>get_best_request\<close> first
  records for every request the command it needs next; the request it returns is then ready if any is,
  no other request of the same readiness arrived before it, and none in front of it in the buffer
  arrived in the same cycle or earlier. An empty buffer gives \<open>end()\<close>.\<close>

theorem frfcfs_picks_oldest_ready:
  assumes "frfcfs_best D d buf = Some (res, buf')"
  shows "list_all2 (\<lambda>r r'. \<exists>p. gd_preq D d (rq_final r) (rq_addr_vec r) = Some p \<and> r' = r\<lparr>rq_command := p\<rparr>) buf buf' \<and>
    (case res of None \<Rightarrow> buf = []
     | Some i \<Rightarrow> i < length buf' \<and> (\<forall>j < length buf'.
         (rq_ready D d (buf' ! j) = Some True \<longrightarrow> rq_ready D d (buf' ! i) = Some True) \<and>
         ((rq_ready D d (buf' ! i) = Some True) = (rq_ready D d (buf' ! j) = Some True) \<longrightarrow>
            rq_arrive (buf' ! i) \<le> rq_arrive (buf' ! j) \<and>
            (j < i \<longrightarrow> rq_arrive (buf' ! i) < rq_arrive (buf' ! j)))))"
proof -
  have "list_all2 (\<lambda>r r'. \<exists>p. gd_preq D d (rq_final r) (rq_addr_vec r) = Some p \<and> r' = r\<lparr>rq_command := p\<rparr>) buf buf'"
    using frfcfs_best_leads(1) [OF assms] by (auto simp: prepared_def with_preq_def elim!: list_all2_mono)
  moreover have "case res of None \<Rightarrow> buf = [] | Some i \<Rightarrow> leads D d buf' (length buf') i"
    using frfcfs_best_leads(2,3) [OF assms] by (cases res) auto
  ultimately show ?thesis
    by (auto simp: leads_def rank_le_def rank_of_def split: option.splits)
qed

end
