(* ===== verification/Generic_Controller.thy ===== *)
theory Generic_Controller
  imports Frfcfs Half_Float Spare_Config
begin

text \<open>
  The generic DRAM controller (\<open>src/dram_controller/impl/generic_dram_controller.cpp\<close>) with its refresh
  manager (\<open>refresh/all_bank_refresh.cpp\<close>) and row policies (\<open>rowpolicy/basic_rowpolicies.cpp\<close>):
  queues, write mode, scheduling, statistics, \<open>send\<close>, \<open>priority_send\<close> and \<open>tick\<close>. The scheduler is
  an argument. A plugin is a function that sees the request about to be served and answers with the
  requests it sends with priority. \<open>None\<close> is undefined behaviour or an exception of the device;
  exceptions of the controller are errors. Counters are unbounded.
\<close>

section \<open>State\<close>

record gstats =
  gs_row_hits :: int
  gs_row_misses :: int
  gs_row_conflicts :: int
  gs_read_row_hits :: int
  gs_read_row_misses :: int
  gs_read_row_conflicts :: int
  gs_write_row_hits :: int
  gs_write_row_misses :: int
  gs_write_row_conflicts :: int
  gs_core_hits :: "int list"
  gs_core_misses :: "int list"
  gs_core_conflicts :: "int list"
  gs_num_read :: int
  gs_num_write :: int
  gs_num_other :: int
  gs_queue_len :: int
  gs_read_queue_len :: int
  gs_write_queue_len :: int
  gs_priority_queue_len :: int
  gs_read_latency :: int

definition gstats_init :: "nat \<Rightarrow> gstats" where
  "gstats_init cores = \<lparr>gs_row_hits = 0, gs_row_misses = 0, gs_row_conflicts = 0, gs_read_row_hits = 0,
     gs_read_row_misses = 0, gs_read_row_conflicts = 0, gs_write_row_hits = 0, gs_write_row_misses = 0,
     gs_write_row_conflicts = 0, gs_core_hits = replicate cores 0, gs_core_misses = replicate cores 0,
     gs_core_conflicts = replicate cores 0, gs_num_read = 0, gs_num_write = 0, gs_num_other = 0,
     gs_queue_len = 0, gs_read_queue_len = 0, gs_write_queue_len = 0, gs_priority_queue_len = 0,
     gs_read_latency = 0\<rparr>"

text \<open>The refresh manager.\<close>

record ab_refresh =
  ar_clk :: clk
  ar_levels :: nat
  ar_num_ranks :: int
  ar_nrefi :: int
  ar_req_id :: int
  ar_next :: clk

text \<open>The state of \<open>ClosedRowPolicy\<close>: its limit, the levels and the sizes it reads, the column accesses of every bank.\<close>

record closed_row =
  cr_cap :: int
  cr_rank_level :: int
  cr_bankgroup_level :: int
  cr_bank_level :: int
  cr_num_ranks :: int
  cr_num_bankgroups :: int
  cr_num_banks :: int
  cr_pre_req_id :: int
  cr_col_accesses :: "int list"
  cr_num_close :: int

datatype row_policy = OpenRow | ClosedRow closed_row

record gctl_cfg =
  gc_channel_id :: int
  gc_bank_idx :: int
  gc_wr_low :: f32
  gc_wr_high :: f32

record gctl =
  gc_clk :: clk
  gc_pending :: "request list"
  gc_active :: req_buffer
  gc_priority :: req_buffer
  gc_read :: req_buffer
  gc_write :: req_buffer
  gc_write_mode :: bool
  gc_refresh :: ab_refresh
  gc_policy :: row_policy
  gc_stats :: gstats

datatype ctl_error = Invalid_request_type | Refresh_not_sent | Undefined

text \<open>A plugin: its state, and what it does with the request found in this cycle.\<close>

type_synonym 'p plugin = "request option \<Rightarrow> 'p \<Rightarrow> ('p \<times> request list) option"

section \<open>send and priority\_send\<close>

definition ctl_count :: "int \<Rightarrow> gstats \<Rightarrow> gstats" where
  "ctl_count ty st =
     (if ty = type_Read then st\<lparr>gs_num_read := gs_num_read st + 1\<rparr>
      else if ty = type_Write then st\<lparr>gs_num_write := gs_num_write st + 1\<rparr>
      else st\<lparr>gs_num_other := gs_num_other st + 1\<rparr>)"

definition gctl_send :: "'d gdram \<Rightarrow> 'd \<Rightarrow> request \<Rightarrow> gctl \<Rightarrow> ctl_error + (bool \<times> gctl)" where
  "gctl_send D d r0 g0 = (case gd_translate D d (rq_type r0) of
     None \<Rightarrow> Inl Undefined
   | Some final \<Rightarrow>
      let r = r0\<lparr>rq_final := final\<rparr>; g = g0\<lparr>gc_stats := ctl_count (rq_type r0) (gc_stats g0)\<rparr> in
      if rq_type r = type_Read \<and> (\<exists>w \<in> set (rb_buffer (gc_write g)). rq_addr w = rq_addr r)
      then Inr (True, g\<lparr>gc_pending := gc_pending g @ [r\<lparr>rq_depart := gc_clk g + 1\<rparr>]\<rparr>)
      else let r1 = r\<lparr>rq_arrive := gc_clk g\<rparr> in
        if rq_type r = type_Read then
          (let (is_success, b) = rb_enqueue (gc_read g) r1 in Inr (is_success, g\<lparr>gc_read := b\<rparr>))
        else if rq_type r = type_Write then
          (let (is_success, b) = rb_enqueue (gc_write g) r1 in Inr (is_success, g\<lparr>gc_write := b\<rparr>))
        else Inl Invalid_request_type)"

definition gctl_priority_send :: "'d gdram \<Rightarrow> 'd \<Rightarrow> request \<Rightarrow> gctl \<Rightarrow> (bool \<times> gctl) option" where
  "gctl_priority_send D d r g = do {
     final \<leftarrow> gd_translate D d (rq_type r);
     let (is_success, b) = rb_enqueue (gc_priority g) (r\<lparr>rq_final := final\<rparr>);
     Some (is_success, g\<lparr>gc_priority := b\<rparr>) }"

section \<open>Refresh\<close>

definition refresh_request :: "gctl_cfg \<Rightarrow> ab_refresh \<Rightarrow> int \<Rightarrow> request option" where
  "refresh_request c a rank = do {
     v1 \<leftarrow> vec_set (replicate (ar_levels a) (-1)) 0 (gc_channel_id c);
     v2 \<leftarrow> vec_set v1 1 rank;
     Some (request_vec v2 (ar_req_id a)) }"

fun send_refreshes :: "'d gdram \<Rightarrow> 'd \<Rightarrow> gctl_cfg \<Rightarrow> int list \<Rightarrow> gctl \<Rightarrow> ctl_error + gctl" where
  "send_refreshes D d c [] g = Inr g"
| "send_refreshes D d c (rank # ranks) g =
     (case Option.bind (refresh_request c (gc_refresh g) rank) (\<lambda>r. gctl_priority_send D d r g) of
        None \<Rightarrow> Inl Undefined
      | Some (is_success, g') \<Rightarrow>
          if is_success then send_refreshes D d c ranks g' else Inl Refresh_not_sent)"

definition refresh_tick :: "'d gdram \<Rightarrow> 'd \<Rightarrow> gctl_cfg \<Rightarrow> gctl \<Rightarrow> ctl_error + gctl" where
  "refresh_tick D d c g =
     (let a = (gc_refresh g)\<lparr>ar_clk := ar_clk (gc_refresh g) + 1\<rparr> in
      if ar_clk a = ar_next a
      then send_refreshes D d c (map int [0..<nat (ar_num_ranks a)])
             (g\<lparr>gc_refresh := a\<lparr>ar_next := ar_next a + ar_nrefi a\<rparr>\<rparr>)
      else Inr (g\<lparr>gc_refresh := a\<rparr>))"

section \<open>Row policies\<close>

definition flat_bank :: "closed_row \<Rightarrow> int \<Rightarrow> int \<Rightarrow> int \<Rightarrow> int" where
  "flat_bank p rank bg b = b + bg * cr_num_banks p + rank * cr_num_banks p * cr_num_bankgroups p"

definition clear_accesses :: "closed_row \<Rightarrow> int list \<Rightarrow> closed_row option" where
  "clear_accesses p ids = map_option (\<lambda>v. p\<lparr>cr_col_accesses := v\<rparr>)
     (foldlM (\<lambda>v i. vec_set v i 0) (cr_col_accesses p) ids)"

text \<open>The accesses the policy forgets when a command closes banks.\<close>

definition closed_banks :: "closed_row \<Rightarrow> addr_vec \<Rightarrow> int list option" where
  "closed_banks p av = do {
     bg \<leftarrow> vec_at av (cr_bankgroup_level p);
     b \<leftarrow> vec_at av (cr_bank_level p);
     rank \<leftarrow> vec_at av (cr_rank_level p);
     let all_banks = map int [0..<nat (cr_num_banks p)];
     let all_groups = map int [0..<nat (cr_num_bankgroups p)];
     Some (if bg = -1 \<and> b = -1 then concat (map (\<lambda>b. map (\<lambda>bg. flat_bank p rank bg b) all_groups) all_banks)
           else if bg = -1 then map (\<lambda>bg. flat_bank p rank bg b) all_groups
           else [flat_bank p rank bg b]) }"

text \<open>\<open>m_cap\<close> is an \<open>int\<close> compared with an unsigned counter.\<close>

definition closed_row_update ::
  "'d gdram \<Rightarrow> 'd \<Rightarrow> request \<Rightarrow> closed_row \<Rightarrow> (closed_row \<times> request list) option" where
  "closed_row_update D d r p = do {
     m \<leftarrow> gd_meta D d (rq_command r);
     if is_closing m \<or> is_refreshing m then do {
       ids \<leftarrow> closed_banks p (rq_addr_vec r);
       p' \<leftarrow> clear_accesses p ids;
       Some (p', []) }
     else if is_accessing m then do {
       b \<leftarrow> vec_at (rq_addr_vec r) (cr_bank_level p);
       bg \<leftarrow> vec_at (rq_addr_vec r) (cr_bankgroup_level p);
       rank \<leftarrow> vec_at (rq_addr_vec r) (cr_rank_level p);
       let i = flat_bank p rank bg b;
       n \<leftarrow> vec_at (cr_col_accesses p) i;
       let n' = (n + 1) mod 2 ^ 64;
       if n' \<ge> cr_cap p mod 2 ^ 64 then do {
         v \<leftarrow> vec_set (cr_col_accesses p) i 0;
         Some (p\<lparr>cr_col_accesses := v, cr_num_close := cr_num_close p + 1\<rparr>,
               [request_vec (rq_addr_vec r) (cr_pre_req_id p)]) }
       else do {
         v \<leftarrow> vec_set (cr_col_accesses p) i n';
         Some (p\<lparr>cr_col_accesses := v\<rparr>, []) } }
     else Some (p, []) }"

definition row_policy_update ::
  "'d gdram \<Rightarrow> 'd \<Rightarrow> request option \<Rightarrow> row_policy \<Rightarrow> (row_policy \<times> request list) option" where
  "row_policy_update D d found policy = (case (policy, found) of
     (ClosedRow p, Some r) \<Rightarrow> map_option (\<lambda>(p', rs). (ClosedRow p', rs)) (closed_row_update D d r p)
   | _ \<Rightarrow> Some (policy, []))"

text \<open>What policies and plugins send: whether it was accepted is ignored.\<close>

definition send_all :: "'d gdram \<Rightarrow> 'd \<Rightarrow> request list \<Rightarrow> gctl \<Rightarrow> gctl option" where
  "send_all D d rs g = foldlM (\<lambda>g r. map_option snd (gctl_priority_send D d r g)) g rs"

section \<open>Scheduling\<close>

definition f32_of_nat :: "nat \<Rightarrow> f32" where
  "f32_of_nat n = (if n = 0 then 0 else f32_round False (int n) 0)"

definition set_write_mode :: "gctl_cfg \<Rightarrow> gctl \<Rightarrow> gctl" where
  "set_write_mode c g =
     (let rd = length (rb_buffer (gc_read g)); wr = f32_of_nat (length (rb_buffer (gc_write g)));
          mx = f32_of_nat (rb_max_size (gc_write g)) in
      if \<not> gc_write_mode g
      then (if f32_less (f32_mul (gc_wr_high c) mx) wr \<or> rd = 0 then g\<lparr>gc_write_mode := True\<rparr> else g)
      else (if f32_less wr (f32_mul (gc_wr_low c) mx) \<and> rd \<noteq> 0 then g\<lparr>gc_write_mode := False\<rparr> else g))"

text \<open>The buffers, and an iterator into one of them.\<close>

datatype buf_id = ActiveB | PriorityB | ReadB | WriteB

fun get_buf :: "buf_id \<Rightarrow> gctl \<Rightarrow> req_buffer" where
  "get_buf ActiveB g = gc_active g"
| "get_buf PriorityB g = gc_priority g"
| "get_buf ReadB g = gc_read g"
| "get_buf WriteB g = gc_write g"

fun put_buf :: "buf_id \<Rightarrow> req_buffer \<Rightarrow> gctl \<Rightarrow> gctl" where
  "put_buf ActiveB b g = g\<lparr>gc_active := b\<rparr>"
| "put_buf PriorityB b g = g\<lparr>gc_priority := b\<rparr>"
| "put_buf ReadB b g = g\<lparr>gc_read := b\<rparr>"
| "put_buf WriteB b g = g\<lparr>gc_write := b\<rparr>"

definition put_requests :: "buf_id \<Rightarrow> request list \<Rightarrow> gctl \<Rightarrow> gctl" where
  "put_requests k rs g = put_buf k ((get_buf k g)\<lparr>rb_buffer := rs\<rparr>) g"

text \<open>Ask the scheduler for the best request of a buffer, and whether it can be served now.\<close>

type_synonym 'd scheduler = "'d \<Rightarrow> request list \<Rightarrow> (nat option \<times> request list) option"

definition best_of :: "'d gdram \<Rightarrow> 'd scheduler \<Rightarrow> 'd \<Rightarrow> buf_id \<Rightarrow> gctl \<Rightarrow> ((buf_id \<times> nat) option \<times> gctl) option" where
  "best_of D best d k g = do {
     (res, rs) \<leftarrow> best d (rb_buffer (get_buf k g));
     let g' = put_requests k rs g;
     case res of
       None \<Rightarrow> Some (None, g')
     | Some i \<Rightarrow> do {
         ready \<leftarrow> rq_ready D d (rs ! i);
         Some (if ready then Some (k, i) else None, g') } }"

text \<open>The head of the priority buffer, with the command it needs next.\<close>

definition best_priority :: "'d gdram \<Rightarrow> 'd \<Rightarrow> gctl \<Rightarrow> ((buf_id \<times> nat) option \<times> gctl) option" where
  "best_priority D d g = (case rb_buffer (gc_priority g) of
     [] \<Rightarrow> None
   | r0 # rs \<Rightarrow> do {
       r \<leftarrow> with_preq D d r0;
       ready \<leftarrow> rq_ready D d r;
       Some (if ready then Some (PriorityB, 0) else None, put_requests PriorityB (r # rs) g) })"

text \<open>\<open>is_matching\<close>: equal, or open, at every level down to the bank.\<close>

definition rowgroup_match :: "gctl_cfg \<Rightarrow> addr_vec \<Rightarrow> addr_vec \<Rightarrow> bool option" where
  "rowgroup_match c av bv = list_allM (\<lambda>i. do {
     x \<leftarrow> vec_at av i;
     y \<leftarrow> vec_at bv i;
     Some (\<not> (x \<noteq> y \<and> x \<noteq> -1 \<and> y \<noteq> -1)) }) (map int [0..<nat (gc_bank_idx c + 1)])"

fun any_match :: "gctl_cfg \<Rightarrow> addr_vec \<Rightarrow> request list \<Rightarrow> bool option" where
  "any_match c av [] = Some False"
| "any_match c av (r # rs) = do {
     m \<leftarrow> rowgroup_match c (rq_addr_vec r) av;
     if m then Some True else any_match c av rs }"

definition closes_active :: "'d gdram \<Rightarrow> 'd \<Rightarrow> gctl_cfg \<Rightarrow> request \<Rightarrow> gctl \<Rightarrow> bool option" where
  "closes_active D d c r g = do {
     m \<leftarrow> gd_meta D d (rq_command r);
     if is_closing m then any_match c (rq_addr_vec r) (rb_buffer (gc_active g)) else Some False }"

definition request_at :: "buf_id \<times> nat \<Rightarrow> gctl \<Rightarrow> request" where
  "request_at it g = rb_buffer (get_buf (fst it) g) ! snd it"

definition schedule_request ::
  "'d gdram \<Rightarrow> 'd scheduler \<Rightarrow> gctl_cfg \<Rightarrow> 'd \<Rightarrow> gctl \<Rightarrow> ((buf_id \<times> nat) option \<times> gctl) option" where
  "schedule_request D best c d g = do {
     (act, g1) \<leftarrow> best_of D best d ActiveB g;
     (found, g2) \<leftarrow>
       (if act \<noteq> None then Some (act, g1)
        else if rb_buffer (gc_priority g1) \<noteq> [] then best_priority D d g1
        else let g' = set_write_mode c g1 in best_of D best d (if gc_write_mode g' then WriteB else ReadB) g');
     case found of
       None \<Rightarrow> Some (None, g2)
     | Some it \<Rightarrow> do {
         blocked \<leftarrow> closes_active D d c (request_at it g2) g2;
         Some (if blocked then None else Some it, g2) } }"

section \<open>Statistics of a served request\<close>

definition bump_core :: "int list \<Rightarrow> int \<Rightarrow> int list option" where
  "bump_core v source =
     (if source = -1 then Some v else Option.bind (vec_at v source) (\<lambda>n. vec_set v source (n + 1)))"

definition update_read_stats :: "bool \<Rightarrow> bool option \<Rightarrow> int \<Rightarrow> gstats \<Rightarrow> gstats option" where
  "update_read_stats hit opened source st =
     (if hit then map_option (\<lambda>v. st\<lparr>gs_read_row_hits := gs_read_row_hits st + 1, gs_row_hits := gs_row_hits st + 1,
          gs_core_hits := v\<rparr>) (bump_core (gs_core_hits st) source)
      else Option.bind opened (\<lambda>op.
        if op then map_option (\<lambda>v. st\<lparr>gs_read_row_conflicts := gs_read_row_conflicts st + 1,
          gs_row_conflicts := gs_row_conflicts st + 1, gs_core_conflicts := v\<rparr>) (bump_core (gs_core_conflicts st) source)
        else map_option (\<lambda>v. st\<lparr>gs_read_row_misses := gs_read_row_misses st + 1,
          gs_row_misses := gs_row_misses st + 1, gs_core_misses := v\<rparr>) (bump_core (gs_core_misses st) source)))"

definition update_write_stats :: "bool \<Rightarrow> bool option \<Rightarrow> gstats \<Rightarrow> gstats option" where
  "update_write_stats hit opened st =
     (if hit then Some (st\<lparr>gs_write_row_hits := gs_write_row_hits st + 1, gs_row_hits := gs_row_hits st + 1\<rparr>)
      else map_option (\<lambda>op.
        if op then st\<lparr>gs_write_row_conflicts := gs_write_row_conflicts st + 1, gs_row_conflicts := gs_row_conflicts st + 1\<rparr>
        else st\<lparr>gs_write_row_misses := gs_write_row_misses st + 1, gs_row_misses := gs_row_misses st + 1\<rparr>) opened)"

definition update_request_stats :: "'d gdram \<Rightarrow> 'd \<Rightarrow> request \<Rightarrow> gstats \<Rightarrow> gstats option" where
  "update_request_stats D d r st =
     (if rq_type r = type_Read \<or> rq_type r = type_Write then do {
        hit \<leftarrow> gd_rowhit D d (rq_final r) (rq_addr_vec r);
        let opened = gd_rowopen D d (rq_final r) (rq_addr_vec r);
        (if rq_type r = type_Read then update_read_stats hit opened (rq_source r) st
         else update_write_stats hit opened st) }
      else Some st)"

section \<open>tick\<close>

definition count_queues :: "gctl \<Rightarrow> gstats" where
  "count_queues g =
     (let st = gc_stats g; sz = (\<lambda>k. int (length (rb_buffer (get_buf k g)))); pd = int (length (gc_pending g)) in
      st\<lparr>gs_queue_len := gs_queue_len st + (sz ReadB + sz WriteB + sz PriorityB + pd),
         gs_read_queue_len := gs_read_queue_len st + (sz ReadB + pd),
         gs_write_queue_len := gs_write_queue_len st + sz WriteB,
         gs_priority_queue_len := gs_priority_queue_len st + sz PriorityB\<rparr>)"

text \<open>The callback that is called, with its request.\<close>

definition serve_completed_reads :: "gctl \<Rightarrow> gctl \<times> (nat \<times> request) list" where
  "serve_completed_reads g = (case gc_pending g of
     [] \<Rightarrow> (g, [])
   | r # rest \<Rightarrow>
      if rq_depart r \<le> gc_clk g
      then (let st = gc_stats g; latency = rq_depart r - rq_arrive r;
                st' = (if latency > 1 then st\<lparr>gs_read_latency := gs_read_latency st + latency\<rparr> else st)
            in (g\<lparr>gc_pending := rest, gc_stats := st'\<rparr>,
                case rq_callback r of None \<Rightarrow> [] | Some cb \<Rightarrow> [(cb, r)]))
      else (g, []))"

text \<open>The command of the found request is issued; the request leaves its buffer when this was its last.\<close>

definition serve_request :: "'d gdram \<Rightarrow> buf_id \<times> nat \<Rightarrow> gctl \<times> 'd \<Rightarrow> (gctl \<times> 'd) option" where
  "serve_request D it gd = (case gd of (g, d) \<Rightarrow> do {
     let r0 = request_at it g;
     st \<leftarrow> (if rq_stat_updated r0 then Some (gc_stats g) else update_request_stats D d r0 (gc_stats g));
     let r = r0\<lparr>rq_stat_updated := True\<rparr>;
     let b = get_buf (fst it) g;
     let g1 = put_requests (fst it) ((rb_buffer b)[snd it := r]) (g\<lparr>gc_stats := st\<rparr>);
     d' \<leftarrow> gd_issue D d (rq_command r) (rq_addr_vec r);
     if rq_command r = rq_final r then do {
       let g2 = (if rq_type r = type_Read
                 then g1\<lparr>gc_pending := gc_pending g1 @ [r\<lparr>rq_depart := gc_clk g1 + gd_read_latency D d'\<rparr>]\<rparr> else g1);
       b' \<leftarrow> rb_remove (get_buf (fst it) g2) (snd it);
       Some (put_buf (fst it) b' g2, d') }
     else do {
       m \<leftarrow> gd_meta D d' (rq_command r);
       (if is_opening m
        then (let (is_success, a) = rb_enqueue (gc_active g1) r in
              if is_success then do {
                let g2 = g1\<lparr>gc_active := a\<rparr>;
                b' \<leftarrow> rb_remove (get_buf (fst it) g2) (snd it);
                Some (put_buf (fst it) b' g2, d') }
              else Some (g1, d'))
        else Some (g1, d')) } })"

fun run_plugins ::
  "'d gdram \<Rightarrow> 'd \<Rightarrow> ('d \<Rightarrow> 'p plugin) \<Rightarrow> request option \<Rightarrow> 'p list \<Rightarrow> gctl \<Rightarrow> ('p list \<times> gctl) option" where
  "run_plugins D d upd found [] g = Some ([], g)"
| "run_plugins D d upd found (p # ps) g = do {
     (p', rs) \<leftarrow> upd d found p;
     g1 \<leftarrow> send_all D d rs g;
     (ps', g2) \<leftarrow> run_plugins D d upd found ps g1;
     Some (p' # ps', g2) }"

definition gctl_tick ::
  "'d gdram \<Rightarrow> 'd scheduler \<Rightarrow> ('d \<Rightarrow> 'p plugin) \<Rightarrow> gctl_cfg \<Rightarrow> (gctl \<times> 'p list) \<times> 'd \<Rightarrow>
   ctl_error + ((gctl \<times> 'p list) \<times> 'd) \<times> (nat \<times> request) list" where
  "gctl_tick D best upd c s = (case s of ((g0, ps), d) \<Rightarrow>
     let g1 = g0\<lparr>gc_clk := gc_clk g0 + 1\<rparr>;
         (g2, cbs) = serve_completed_reads (g1\<lparr>gc_stats := count_queues g1\<rparr>)
     in sbind (refresh_tick D d c g2) (\<lambda>g3.
       case do {
         (found, g4) \<leftarrow> schedule_request D best c d g3;
         let seen = map_option (\<lambda>it. request_at it g4) found;
         (policy, rs) \<leftarrow> row_policy_update D d seen (gc_policy g4);
         g5 \<leftarrow> send_all D d rs (g4\<lparr>gc_policy := policy\<rparr>);
         (ps', g6) \<leftarrow> run_plugins D d upd seen ps g5;
         case found of
           None \<Rightarrow> Some ((g6, ps'), d)
         | Some it \<Rightarrow> map_option (\<lambda>(g7, d'). ((g7, ps'), d')) (serve_request D it (g6, d)) }
       of None \<Rightarrow> Inl Undefined | Some s' \<Rightarrow> Inr (s', cbs)))"

section \<open>Setup\<close>

text \<open>What the refresh manager reads from the device; \<open>None\<close> for a request or a timing it does not have.\<close>

definition refresh_setup :: "dram_tables \<Rightarrow> (string \<Rightarrow> int option) \<Rightarrow> ab_refresh option" where
  "refresh_setup t timing = do {
     ranks \<leftarrow> dt_level_size t ''rank'';
     nrefi \<leftarrow> timing ''nREFI'';
     rid \<leftarrow> specdef_id (dt_requests t) ''all-bank-refresh'';
     Some \<lparr>ar_clk = 0, ar_levels = length (dt_levels t), ar_num_ranks = ranks, ar_nrefi = nrefi,
           ar_req_id = rid, ar_next = nrefi\<rparr> }"

definition closed_row_setup :: "dram_tables \<Rightarrow> int \<Rightarrow> closed_row option" where
  "closed_row_setup t cap = do {
     rank \<leftarrow> specdef_id (dt_levels t) ''rank'';
     bg \<leftarrow> specdef_id (dt_levels t) ''bankgroup'';
     bank \<leftarrow> specdef_id (dt_levels t) ''bank'';
     _ \<leftarrow> specdef_id (dt_levels t) ''row'';
     pre \<leftarrow> specdef_id (dt_requests t) ''close-row'';
     nr \<leftarrow> dt_level_size t ''rank'';
     nbg \<leftarrow> dt_level_size t ''bankgroup'';
     nb \<leftarrow> dt_level_size t ''bank'';
     Some \<lparr>cr_cap = cap, cr_rank_level = rank, cr_bankgroup_level = bg, cr_bank_level = bank,
           cr_num_ranks = nr, cr_num_bankgroups = nbg, cr_num_banks = nb, cr_pre_req_id = pre,
           cr_col_accesses = replicate (nat (nb * nbg * nr)) 0, cr_num_close = 0\<rparr> }"

text \<open>The default watermarks 0.2 and 0.8, as binary32 numbers.\<close>

definition gctl_setup :: "dram_tables \<Rightarrow> int \<Rightarrow> gctl_cfg option" where
  "gctl_setup t channel = do {
     bank \<leftarrow> specdef_id (dt_levels t) ''bank'';
     Some \<lparr>gc_channel_id = channel, gc_bank_idx = bank, gc_wr_low = 0x3e4ccccd, gc_wr_high = 0x3f4ccccd\<rparr> }"

definition gctl_boot :: "nat \<Rightarrow> ab_refresh \<Rightarrow> row_policy \<Rightarrow> gctl" where
  "gctl_boot cores refresh policy = \<lparr>gc_clk = 0, gc_pending = [], gc_active = empty_buffer,
     gc_priority = empty_buffer\<lparr>rb_max_size := 512 * 3 + 32\<rparr>, gc_read = empty_buffer, gc_write = empty_buffer,
     gc_write_mode = False, gc_refresh = refresh, gc_policy = policy, gc_stats = gstats_init cores\<rparr>"

end
