(* ===== verification/Generic_Safety.thy ===== *)
theory Generic_Safety
  imports Generic_Controller "HOL-Library.Multiset"
begin

text \<open>
  What the generic controller guarantees on any device and with any scheduler, row policy and plugins
  that keep their contracts, the locales \<open>ctl_dram\<close> and \<open>ctl_parts\<close>: its operations are defined, it
  issues only prerequisites that the device reports ready, an activated row stays open until the
  request that activated it is served, and reads are neither lost nor completed twice.
\<close>

section \<open>Requests and what a controller changes in them\<close>

text \<open>The part of a request no controller changes.\<close>

definition rq_origin :: "request \<Rightarrow> request" where
  "rq_origin r = r\<lparr>rq_command := 0, rq_final := 0, rq_stat_updated := False, rq_arrive := 0, rq_depart := 0\<rparr>"

lemma rq_origin_simps [simp]:
  "rq_origin (r\<lparr>rq_command := p\<rparr>) = rq_origin r" "rq_origin (r\<lparr>rq_final := p\<rparr>) = rq_origin r"
  "rq_origin (r\<lparr>rq_stat_updated := b\<rparr>) = rq_origin r" "rq_origin (r\<lparr>rq_arrive := t\<rparr>) = rq_origin r"
  "rq_origin (r\<lparr>rq_depart := t\<rparr>) = rq_origin r" "rq_origin (rq_origin r) = rq_origin r"
  "rq_type (rq_origin r) = rq_type r" "rq_callback (rq_origin r) = rq_callback r"
  "rq_addr_vec (rq_origin r) = rq_addr_vec r" "rq_source (rq_origin r) = rq_source r"
  by (simp_all add: rq_origin_def)

text \<open>The reads somebody waits for.\<close>

definition tracked :: "request \<Rightarrow> bool" where
  "tracked r \<longleftrightarrow> rq_type r = type_Read \<and> rq_callback r \<noteq> None"

lemma tracked_origin [simp]: "tracked (rq_origin r) = tracked r"
  by (simp add: tracked_def)

lemma tracked_updates [simp]:
  "tracked (r\<lparr>rq_command := p\<rparr>) = tracked r" "tracked (r\<lparr>rq_final := p\<rparr>) = tracked r"
  "tracked (r\<lparr>rq_stat_updated := b\<rparr>) = tracked r" "tracked (r\<lparr>rq_arrive := t\<rparr>) = tracked r"
  "tracked (r\<lparr>rq_depart := t\<rparr>) = tracked r"
  by (simp_all add: tracked_def)

definition all_requests :: "gctl \<Rightarrow> request list" where
  "all_requests g = gc_pending g @ rb_buffer (gc_active g) @ rb_buffer (gc_priority g) @
     rb_buffer (gc_read g) @ rb_buffer (gc_write g)"

definition tracked_origins :: "request list \<Rightarrow> request multiset" where
  "tracked_origins rs = mset (map rq_origin (filter tracked rs))"

definition in_flight :: "gctl \<Rightarrow> request multiset" where
  "in_flight g = tracked_origins (all_requests g)"

lemma tracked_origins_simps [simp]:
  "tracked_origins [] = {#}" "tracked_origins (xs @ ys) = tracked_origins xs + tracked_origins ys"
  "tracked_origins (r # rs) = (if tracked r then {#rq_origin r#} else {#}) + tracked_origins rs"
  by (simp_all add: tracked_origins_def)

lemma tracked_origins_map: "map rq_origin xs = map rq_origin ys \<Longrightarrow> tracked_origins xs = tracked_origins ys"
proof -
  assume eq: "map rq_origin xs = map rq_origin ys"
  have "map rq_origin (filter tracked zs) = filter tracked (map rq_origin zs)" for zs
    by (simp add: filter_map o_def)
  with eq show ?thesis by (simp add: tracked_origins_def)
qed

lemma in_flight_alt:
  "in_flight g = tracked_origins (gc_pending g) + tracked_origins (rb_buffer (gc_active g)) +
     tracked_origins (rb_buffer (gc_priority g)) + tracked_origins (rb_buffer (gc_read g)) + tracked_origins (rb_buffer (gc_write g))"
  by (simp add: in_flight_def all_requests_def)

section \<open>Buffers\<close>

lemma get_put_buf [simp]: "get_buf k (put_buf k' b g) = (if k = k' then b else get_buf k g)"
  by (cases k; cases k') simp_all

lemma put_buf_fields [simp]:
  "gc_pending (put_buf k b g) = gc_pending g" "gc_clk (put_buf k b g) = gc_clk g"
  "gc_refresh (put_buf k b g) = gc_refresh g" "gc_policy (put_buf k b g) = gc_policy g"
  "gc_stats (put_buf k b g) = gc_stats g"
  by (cases k; simp)+

lemma get_buf_updates [simp]:
  "get_buf k (g\<lparr>gc_stats := st\<rparr>) = get_buf k g" "get_buf k (g\<lparr>gc_pending := p\<rparr>) = get_buf k g"
  "get_buf k (g\<lparr>gc_clk := t\<rparr>) = get_buf k g" "get_buf k (g\<lparr>gc_refresh := a\<rparr>) = get_buf k g"
  "get_buf k (g\<lparr>gc_policy := pol\<rparr>) = get_buf k g" "get_buf k (g\<lparr>gc_write_mode := m\<rparr>) = get_buf k g"
  "get_buf k (g\<lparr>gc_priority := b\<rparr>) = (if k = PriorityB then b else get_buf k g)"
  "get_buf k (g\<lparr>gc_active := b\<rparr>) = (if k = ActiveB then b else get_buf k g)"
  "get_buf k (g\<lparr>gc_read := b\<rparr>) = (if k = ReadB then b else get_buf k g)"
  "get_buf k (g\<lparr>gc_write := b\<rparr>) = (if k = WriteB then b else get_buf k g)"
  by (cases k; simp)+

lemma put_requests_get [simp]:
  "rb_buffer (get_buf k (put_requests k' rs g)) = (if k = k' then rs else rb_buffer (get_buf k g))"
  "rb_max_size (get_buf k (put_requests k' rs g)) = rb_max_size (get_buf k g)"
  "gc_pending (put_requests k' rs g) = gc_pending g" "gc_clk (put_requests k' rs g) = gc_clk g"
  "gc_refresh (put_requests k' rs g) = gc_refresh g" "gc_policy (put_requests k' rs g) = gc_policy g"
  "gc_stats (put_requests k' rs g) = gc_stats g"
  by (simp_all add: put_requests_def)

lemma put_requests_bufs [simp]:
  "rb_buffer (gc_active (put_requests k rs g)) = (if k = ActiveB then rs else rb_buffer (gc_active g))"
  "rb_buffer (gc_priority (put_requests k rs g)) = (if k = PriorityB then rs else rb_buffer (gc_priority g))"
  "rb_buffer (gc_read (put_requests k rs g)) = (if k = ReadB then rs else rb_buffer (gc_read g))"
  "rb_buffer (gc_write (put_requests k rs g)) = (if k = WriteB then rs else rb_buffer (gc_write g))"
  by (cases k; simp add: put_requests_def)+

lemma all_buf_ids: "(\<forall>k. P k) \<longleftrightarrow> P ActiveB \<and> P PriorityB \<and> P ReadB \<and> P WriteB"
  by (metis buf_id.exhaust)

text \<open>The same request, with another command to issue next.\<close>

definition recmd :: "request \<Rightarrow> request \<Rightarrow> bool" where
  "recmd r r' \<longleftrightarrow> (\<exists>p. r' = r\<lparr>rq_command := p\<rparr>)"

lemma recmd_refl [simp]: "recmd r r"
  unfolding recmd_def by (rule exI [of _ "rq_command r"]) simp

lemma recmd_trans: "recmd r1 r2 \<Longrightarrow> recmd r2 r3 \<Longrightarrow> recmd r1 r3"
  by (auto simp: recmd_def)

lemma recmd_fields:
  assumes "recmd r r'"
  shows "rq_origin r' = rq_origin r" "rq_final r' = rq_final r" "rq_addr_vec r' = rq_addr_vec r"
    "rq_type r' = rq_type r" "rq_source r' = rq_source r" "rq_callback r' = rq_callback r"
  using assms by (auto simp: recmd_def)

text \<open>States that differ in the commands their requests need next, and in the write mode.\<close>

definition recommanded :: "gctl \<Rightarrow> gctl \<Rightarrow> bool" where
  "recommanded g g' \<longleftrightarrow> (\<forall>k. list_all2 recmd (rb_buffer (get_buf k g)) (rb_buffer (get_buf k g'))
      \<and> rb_max_size (get_buf k g') = rb_max_size (get_buf k g)) \<and>
     gc_pending g' = gc_pending g \<and> gc_clk g' = gc_clk g \<and> gc_refresh g' = gc_refresh g \<and>
     gc_policy g' = gc_policy g \<and> gc_stats g' = gc_stats g"

lemma recommanded_refl [simp]: "recommanded g g"
  by (simp add: recommanded_def list.rel_refl)

lemma recommanded_trans: "recommanded g1 g2 \<Longrightarrow> recommanded g2 g3 \<Longrightarrow> recommanded g1 g3"
  unfolding recommanded_def using list_all2_trans [of recmd recmd recmd, OF recmd_trans] by fastforce

lemma recommanded_write_mode [simp]: "recommanded g (set_write_mode c g)"
  by (simp add: recommanded_def set_write_mode_def Let_def list.rel_refl)

lemma recommand_origin: "list_all2 recmd xs ys \<Longrightarrow> map rq_origin xs = map rq_origin ys"
  by (induction rule: list_all2_induct) (auto simp: recmd_fields)

lemma recommanded_in_flight: "recommanded g g' \<Longrightarrow> in_flight g' = in_flight g"
  using recommand_origin tracked_origins_map unfolding recommanded_def all_buf_ids in_flight_alt
  by (metis get_buf.simps)

lemma recommanded_put:
  "list_all2 recmd (rb_buffer (get_buf k g)) rs \<Longrightarrow> recommanded g (put_requests k rs g)"
  by (simp add: recommanded_def list.rel_refl)

lemma with_preq_recmd: "with_preq D d r = Some r' \<Longrightarrow> recmd r r'"
  by (auto simp: with_preq_def recmd_def)

lemma recommanded_mem:
  assumes "recommanded g g'" "r' \<in> set (rb_buffer (get_buf k g'))"
  obtains r where "r \<in> set (rb_buffer (get_buf k g))" "recmd r r'"
proof -
  from assms(2) obtain i where "i < length (rb_buffer (get_buf k g'))" "r' = rb_buffer (get_buf k g') ! i"
    by (auto simp: in_set_conv_nth)
  then show ?thesis
    using that [of "rb_buffer (get_buf k g) ! i"] assms(1) by (auto simp: recommanded_def list_all2_conv_all_nth)
qed

section \<open>The contract of a device\<close>

text \<open>
  \<open>valid d f av\<close>: the device serves the final command \<open>f\<close> at the address \<open>av\<close>. \<open>bank\<close> is the level of a
  bank. Two addresses conflict when no level down to the bank tells them apart.
\<close>

definition same_bank :: "int \<Rightarrow> addr_vec \<Rightarrow> addr_vec \<Rightarrow> bool" where
  "same_bank bank av bv \<longleftrightarrow> (\<forall>i \<in> {0..bank}. av ! nat i = bv ! nat i \<or> av ! nat i = -1 \<or> bv ! nat i = -1)"

locale ctl_dram = request_scheduler D best
  for D :: "'d gdram" and best :: "'d scheduler" +
  fixes ok :: "'d \<Rightarrow> bool" and valid :: "'d \<Rightarrow> int \<Rightarrow> addr_vec \<Rightarrow> bool" and bank :: int
  assumes bank_nonneg: "0 \<le> bank"
    and valid_length: "valid d f av \<Longrightarrow> nat bank < length av"
    and preq_total: "ok d \<Longrightarrow> valid d f av \<Longrightarrow> \<exists>p b m. gd_preq D d f av = Some p \<and> gd_ready D d p av = Some b \<and> gd_meta D d p = Some m"
    and stats_total: "ok d \<Longrightarrow> valid d f av \<Longrightarrow> \<exists>h b. gd_rowhit D d f av = Some h \<and> gd_rowopen D d f av = Some b"
    and issue_total: "ok d \<Longrightarrow> valid d f av \<Longrightarrow> gd_preq D d f av = Some p \<Longrightarrow> \<exists>d'. gd_issue D d p av = Some d'"
    and ok_issue: "ok d \<Longrightarrow> valid d f av \<Longrightarrow> gd_preq D d f av = Some p \<Longrightarrow> gd_ready D d p av = Some True \<Longrightarrow>
      gd_issue D d p av = Some d' \<Longrightarrow> ok d'"
    and same_issue: "ok d \<Longrightarrow> gd_issue D d p av = Some d' \<Longrightarrow>
      valid d' = valid d \<and> gd_translate D d' = gd_translate D d \<and> gd_meta D d' = gd_meta D d"
    and ok_tick: "ok d \<Longrightarrow> ok (gd_tick D d)"
    and same_tick: "ok d \<Longrightarrow> valid (gd_tick D d) = valid d \<and> gd_translate D (gd_tick D d) = gd_translate D d \<and>
      gd_meta D (gd_tick D d) = gd_meta D d"
    and hit_tick: "ok d \<Longrightarrow> gd_rowhit D (gd_tick D d) f av = gd_rowhit D d f av"
    and hit_open: "ok d \<Longrightarrow> valid d f av \<Longrightarrow> gd_preq D d f av = Some p \<Longrightarrow> gd_meta D d p = Some m \<Longrightarrow> is_opening m \<Longrightarrow>
      gd_issue D d p av = Some d' \<Longrightarrow> gd_rowhit D d' f av = Some True"
    and hit_keep: "ok d \<Longrightarrow> valid d f av \<Longrightarrow> gd_rowhit D d f av = Some True \<Longrightarrow> valid d f' av' \<Longrightarrow>
      gd_preq D d f' av' = Some p \<Longrightarrow> gd_meta D d p = Some m \<Longrightarrow> \<not> (is_closing m \<and> same_bank bank av av') \<Longrightarrow>
      gd_issue D d p av' = Some d' \<Longrightarrow> gd_rowhit D d' f av = Some True"
begin

definition same :: "'d \<Rightarrow> 'd \<Rightarrow> bool" where
  "same d d' \<longleftrightarrow> valid d' = valid d \<and> gd_translate D d' = gd_translate D d \<and> gd_meta D d' = gd_meta D d"

lemma same_refl [simp]: "same d d"
  by (simp add: same_def)

lemma same_trans: "same d1 d2 \<Longrightarrow> same d2 d3 \<Longrightarrow> same d1 d3"
  by (simp add: same_def)

text \<open>What a queued request must satisfy; \<open>cores\<close> is the number of cores with statistics.\<close>

definition req_ok :: "nat \<Rightarrow> 'd \<Rightarrow> request \<Rightarrow> bool" where
  "req_ok cores d r \<longleftrightarrow> valid d (rq_final r) (rq_addr_vec r) \<and>
     (rq_source r = -1 \<or> 0 \<le> rq_source r \<and> rq_source r < int cores)"

text \<open>A request that may be sent, also with priority.\<close>

definition sendable :: "nat \<Rightarrow> 'd \<Rightarrow> request \<Rightarrow> bool" where
  "sendable cores d r \<longleftrightarrow> (\<exists>f. gd_translate D d (rq_type r) = Some f \<and> req_ok cores d (r\<lparr>rq_final := f\<rparr>))"

definition refreshes_ok :: "gctl_cfg \<Rightarrow> nat \<Rightarrow> 'd \<Rightarrow> ab_refresh \<Rightarrow> bool" where
  "refreshes_ok c cores d a \<longleftrightarrow> (\<forall>rank \<in> {0..<ar_num_ranks a}. \<exists>r. refresh_request c a rank = Some r \<and> sendable cores d r)"

definition stats_ok :: "nat \<Rightarrow> gstats \<Rightarrow> bool" where
  "stats_ok cores st \<longleftrightarrow> length (gs_core_hits st) = cores \<and> length (gs_core_misses st) = cores \<and>
     length (gs_core_conflicts st) = cores"

definition ctl_inv :: "gctl_cfg \<Rightarrow> nat \<Rightarrow> gctl \<Rightarrow> 'd \<Rightarrow> bool" where
  "ctl_inv c cores g d \<longleftrightarrow> ok d \<and> gc_bank_idx c = bank \<and>
     (\<forall>k. \<forall>r \<in> set (rb_buffer (get_buf k g)). req_ok cores d r) \<and>
     (\<forall>r \<in> set (gc_pending g). rq_type r = type_Read) \<and> stats_ok cores (gc_stats g) \<and>
     refreshes_ok c cores d (gc_refresh g) \<and>
     (\<forall>r \<in> set (rb_buffer (gc_active g)). gd_rowhit D d (rq_final r) (rq_addr_vec r) = Some True)"

lemma same_ok:
  "same d d' \<Longrightarrow> req_ok cores d' = req_ok cores d"
  "same d d' \<Longrightarrow> sendable cores d' = sendable cores d"
  "same d d' \<Longrightarrow> refreshes_ok c cores d' = refreshes_ok c cores d"
  by (auto simp: fun_eq_iff same_def req_ok_def sendable_def refreshes_ok_def)

lemma ctl_inv_tick: "ctl_inv c cores g d \<Longrightarrow> ctl_inv c cores g (gd_tick D d)"
  using ok_tick same_tick hit_tick same_ok [of d "gd_tick D d"] by (simp add: ctl_inv_def same_def)

lemma req_ok_recmd: "recmd r r' \<Longrightarrow> req_ok cores d r' = req_ok cores d r"
  by (simp add: req_ok_def recmd_fields)

lemma ctl_inv_recommanded:
  assumes "ctl_inv c cores g d" "recommanded g g'"
  shows "ctl_inv c cores g' d"
proof -
  have "req_ok cores d r' \<and> (k = ActiveB \<longrightarrow> gd_rowhit D d (rq_final r') (rq_addr_vec r') = Some True)"
    if r': "r' \<in> set (rb_buffer (get_buf k g'))" for k r'
  proof -
    from recommanded_mem [OF assms(2) r'] obtain r where "r \<in> set (rb_buffer (get_buf k g))" "recmd r r'" .
    with assms(1) show ?thesis by (auto simp: ctl_inv_def req_ok_recmd recmd_fields)
  qed
  note mem = this
  have "\<forall>k. \<forall>r \<in> set (rb_buffer (get_buf k g')). req_ok cores d r" using mem by blast
  moreover have "\<forall>r \<in> set (rb_buffer (gc_active g')). gd_rowhit D d (rq_final r) (rq_addr_vec r) = Some True"
    using mem [of _ ActiveB] by simp
  ultimately show ?thesis using assms by (simp add: ctl_inv_def recommanded_def)
qed

section \<open>Scheduling\<close>

text \<open>What is known of the request found: its command is its prerequisite, and the device is ready for it.\<close>

definition found_ok :: "gctl \<Rightarrow> 'd \<Rightarrow> buf_id \<times> nat \<Rightarrow> bool" where
  "found_ok g d it \<longleftrightarrow> snd it < length (rb_buffer (get_buf (fst it) g)) \<and>
     gd_preq D d (rq_final (request_at it g)) (rq_addr_vec (request_at it g)) = Some (rq_command (request_at it g)) \<and>
     rq_ready D d (request_at it g) = Some True"

lemma req_ready_total:
  assumes "ok d" "req_ok cores d r"
  shows "\<exists>p b. gd_preq D d (rq_final r) (rq_addr_vec r) = Some p \<and> gd_ready D d p (rq_addr_vec r) = Some b"
  using preq_total [OF assms(1)] assms(2) unfolding req_ok_def by blast

lemma best_of_ok:
  assumes "ctl_inv c cores g d"
  shows "\<exists>found g'. best_of D best d k g = Some (found, g') \<and> recommanded g g' \<and>
    (case found of None \<Rightarrow> True | Some it \<Rightarrow> fst it = k \<and> found_ok g' d it)"
proof -
  let ?b = "rb_buffer (get_buf k g)"
  have ok: "ok d" "\<forall>r \<in> set ?b. req_ok cores d r" using assms by (auto simp: ctl_inv_def)
  then obtain res rs where b: "best d ?b = Some (res, rs)"
    using best_total [of ?b d] req_ready_total by (metis surj_pair)
  have "list_all2 recmd ?b rs"
    using best_prepared [OF b] with_preq_recmd unfolding prepared_def by (rule list_all2_mono)
  then have rec: "recommanded g (put_requests k rs g)" by (rule recommanded_put)
  show ?thesis
  proof (cases res)
    case None
    then show ?thesis using b rec by (simp add: best_of_def)
  next
    case (Some i)
    note i = best_nth [OF b [unfolded Some]] best_length [OF b]
    have "req_ok cores d (?b ! i)" using ok(2) i(1) nth_mem by blast
    from req_ready_total [OF ok(1) this] obtain p ready where
      p: "gd_preq D d (rq_final (?b ! i)) (rq_addr_vec (?b ! i)) = Some p" "gd_ready D d p (rq_addr_vec (?b ! i)) = Some ready"
      by blast
    then have rsi: "rs ! i = (?b ! i)\<lparr>rq_command := p\<rparr>" using i by (simp add: with_preq_def)
    with p have "rq_ready D d (rs ! i) = Some ready" by (simp add: rq_ready_def)
    moreover have "gd_preq D d (rq_final (rs ! i)) (rq_addr_vec (rs ! i)) = Some (rq_command (rs ! i))"
      using p rsi by simp
    ultimately show ?thesis
      using b rec i Some by (auto simp: best_of_def found_ok_def request_at_def)
  qed
qed

lemma best_priority_ok:
  assumes "ctl_inv c cores g d" "rb_buffer (gc_priority g) \<noteq> []"
  shows "\<exists>found g'. best_priority D d g = Some (found, g') \<and> recommanded g g' \<and>
    (case found of None \<Rightarrow> True | Some it \<Rightarrow> fst it = PriorityB \<and> found_ok g' d it)"
proof -
  obtain r rs where b: "rb_buffer (gc_priority g) = r # rs" using assms(2) by (cases "rb_buffer (gc_priority g)") auto
  then have "\<forall>r \<in> set (rb_buffer (get_buf PriorityB g)). req_ok cores d r" using assms(1) unfolding ctl_inv_def by blast
  then have "req_ok cores d r" using b by simp
  with assms(1) obtain p x where p: "gd_preq D d (rq_final r) (rq_addr_vec r) = Some p" "gd_ready D d p (rq_addr_vec r) = Some x"
    using req_ready_total unfolding ctl_inv_def by blast
  then have w: "with_preq D d r = Some (r\<lparr>rq_command := p\<rparr>)" by (simp add: with_preq_def)
  have "recommanded g (put_requests PriorityB (r\<lparr>rq_command := p\<rparr> # rs) g)"
    using b by (intro recommanded_put) (auto simp: recmd_def list.rel_refl)
  then show ?thesis using b p w by (auto simp: best_priority_def rq_ready_def found_ok_def request_at_def)
qed

lemma list_allM_match:
  assumes "\<forall>i \<in> set is. 0 \<le> i \<and> i < int (length av) \<and> i < int (length bv)"
  shows "list_allM (\<lambda>i. do { x \<leftarrow> vec_at av i; y \<leftarrow> vec_at bv i; Some (\<not> (x \<noteq> y \<and> x \<noteq> -1 \<and> y \<noteq> -1)) }) is =
    Some (\<forall>i \<in> set is. av ! nat i = bv ! nat i \<or> av ! nat i = -1 \<or> bv ! nat i = -1)"
  using assms by (induction "is") (simp_all add: vec_at_def split: bool.split)

lemma rowgroup_match_exact:
  assumes "nat bank < length av" "nat bank < length bv" "gc_bank_idx c = bank"
  shows "rowgroup_match c av bv = Some (same_bank bank av bv)"
proof -
  let ?is = "map int [0..<nat (bank + 1)]"
  have s: "set ?is = {0..bank}"
    using bank_nonneg by (simp add: image_int_atLeastLessThan) auto
  have "\<forall>i \<in> set ?is. 0 \<le> i \<and> i < int (length av) \<and> i < int (length bv)"
    unfolding s using assms(1,2) by auto
  from list_allM_match [OF this] show ?thesis
    unfolding rowgroup_match_def assms(3) same_bank_def by (simp only: s)
qed

lemma any_match_exact:
  assumes "\<forall>r \<in> set rs. nat bank < length (rq_addr_vec r)" "nat bank < length av" "gc_bank_idx c = bank"
  shows "any_match c av rs = Some (\<exists>r \<in> set rs. same_bank bank (rq_addr_vec r) av)"
  using assms by (induction rs) (auto simp: rowgroup_match_exact)

lemma found_req_ok: "ctl_inv c cores g d \<Longrightarrow> found_ok g d it \<Longrightarrow> req_ok cores d (request_at it g)"
  unfolding ctl_inv_def found_ok_def request_at_def using nth_mem by blast

lemma closes_active_exact:
  assumes "ctl_inv c cores g d" "found_ok g d it"
  obtains m where "gd_meta D d (rq_command (request_at it g)) = Some m"
    "closes_active D d c (request_at it g) g =
      Some (is_closing m \<and> (\<exists>r \<in> set (rb_buffer (gc_active g)). same_bank bank (rq_addr_vec r) (rq_addr_vec (request_at it g))))"
proof -
  let ?r = "request_at it g"
  have r: "valid d (rq_final ?r) (rq_addr_vec ?r)" using found_req_ok [OF assms] by (simp add: req_ok_def)
  have "ok d" using assms(1) by (simp add: ctl_inv_def)
  from preq_total [OF this r] assms(2) obtain m where m: "gd_meta D d (rq_command ?r) = Some m" by (auto simp: found_ok_def)
  have "\<forall>r \<in> set (rb_buffer (get_buf ActiveB g)). req_ok cores d r" using assms(1) unfolding ctl_inv_def by blast
  then have "\<forall>r \<in> set (rb_buffer (gc_active g)). nat bank < length (rq_addr_vec r)"
    using valid_length by (auto simp: req_ok_def)
  from any_match_exact [OF this valid_length [OF r]] assms(1)
  have "any_match c (rq_addr_vec ?r) (rb_buffer (gc_active g)) =
      Some (\<exists>r \<in> set (rb_buffer (gc_active g)). same_bank bank (rq_addr_vec r) (rq_addr_vec ?r))"
    by (simp add: ctl_inv_def)
  with m that show ?thesis by (simp add: closes_active_def)
qed

text \<open>The request to serve closes no row of a request in the active buffer.\<close>

definition spares_active :: "gctl \<Rightarrow> 'd \<Rightarrow> buf_id \<times> nat \<Rightarrow> bool" where
  "spares_active g d it \<longleftrightarrow> (\<forall>m. gd_meta D d (rq_command (request_at it g)) = Some m \<and> is_closing m \<longrightarrow>
     (\<forall>r \<in> set (rb_buffer (gc_active g)). \<not> same_bank bank (rq_addr_vec r) (rq_addr_vec (request_at it g))))"

lemma schedule_ok:
  assumes "ctl_inv c cores g d"
  shows "\<exists>found g'. schedule_request D best c d g = Some (found, g') \<and> recommanded g g' \<and>
    (case found of None \<Rightarrow> True | Some it \<Rightarrow> found_ok g' d it \<and> spares_active g' d it)"
proof -
  from best_of_ok [OF assms, of ActiveB] obtain act g1 where
    1: "best_of D best d ActiveB g = Some (act, g1)" "recommanded g g1"
      "case act of None \<Rightarrow> True | Some it \<Rightarrow> fst it = ActiveB \<and> found_ok g1 d it" by blast
  note inv1 = ctl_inv_recommanded [OF assms 1(2)]
  let ?rest = "if act \<noteq> None then Some (act, g1)
        else if rb_buffer (gc_priority g1) \<noteq> [] then best_priority D d g1
        else let g' = set_write_mode c g1 in best_of D best d (if gc_write_mode g' then WriteB else ReadB) g'"
  have "\<exists>found g2. ?rest = Some (found, g2) \<and> recommanded g1 g2 \<and> (case found of None \<Rightarrow> True | Some it \<Rightarrow> found_ok g2 d it)"
  proof (cases "act \<noteq> None")
    case True
    then show ?thesis using 1(3) by (auto split: option.splits)
  next
    case False
    show ?thesis
    proof (cases "rb_buffer (gc_priority g1) \<noteq> []")
      case True
      from best_priority_ok [OF inv1 True] obtain found g2 where "best_priority D d g1 = Some (found, g2)" "recommanded g1 g2"
        "case found of None \<Rightarrow> True | Some it \<Rightarrow> fst it = PriorityB \<and> found_ok g2 d it" by blast
      then show ?thesis using False True by (intro exI [of _ found] exI [of _ g2]) (auto split: option.splits)
    next
      case empty: False
      let ?g = "set_write_mode c g1"
      from best_of_ok [OF ctl_inv_recommanded [OF inv1, of ?g], of "if gc_write_mode ?g then WriteB else ReadB"]
      obtain found g2 where "best_of D best d (if gc_write_mode ?g then WriteB else ReadB) ?g = Some (found, g2)"
        "recommanded ?g g2"
        "case found of None \<Rightarrow> True | Some it \<Rightarrow> fst it = (if gc_write_mode ?g then WriteB else ReadB) \<and> found_ok g2 d it"
        using recommanded_write_mode by blast
      then show ?thesis using False empty recommanded_trans [of g1 ?g g2]
        by (intro exI [of _ found] exI [of _ g2]) (auto simp: Let_def split: option.splits)
    qed
  qed
  then obtain found g2 where 2: "?rest = Some (found, g2)" "recommanded g1 g2"
    "case found of None \<Rightarrow> True | Some it \<Rightarrow> found_ok g2 d it" by blast
  note rec = recommanded_trans [OF 1(2) 2(2)]
  note inv2 = ctl_inv_recommanded [OF assms rec]
  show ?thesis
  proof (cases found)
    case None
    then show ?thesis using 1(1) 2(1) rec by (simp add: schedule_request_def)
  next
    case (Some it)
    then have it: "found_ok g2 d it" using 2(3) by simp
    from closes_active_exact [OF inv2 it] obtain m where
      "gd_meta D d (rq_command (request_at it g2)) = Some m"
      "closes_active D d c (request_at it g2) g2 = Some (is_closing m \<and>
        (\<exists>r \<in> set (rb_buffer (gc_active g2)). same_bank bank (rq_addr_vec r) (rq_addr_vec (request_at it g2))))" .
    then show ?thesis using 1(1) 2(1) rec it Some by (auto simp: schedule_request_def spares_active_def)
  qed
qed

section \<open>Sending with priority\<close>

text \<open>\<open>g'\<close> is \<open>g\<close> with requests appended to the priority buffer.\<close>

definition queued :: "request list \<Rightarrow> gctl \<Rightarrow> gctl \<Rightarrow> bool" where
  "queued rs g g' \<longleftrightarrow> (\<exists>b. g' = g\<lparr>gc_priority := b\<rparr> \<and> rb_max_size b = rb_max_size (gc_priority g) \<and>
     rb_buffer b = rb_buffer (gc_priority g) @ rs)"

lemma queued_refl [simp]: "queued [] g g"
  unfolding queued_def by (rule exI [of _ "gc_priority g"]) simp

lemma queuedI:
  "rb_max_size b = rb_max_size (gc_priority g) \<Longrightarrow> rb_buffer b = rb_buffer (gc_priority g) @ rs \<Longrightarrow>
   queued rs g (g\<lparr>gc_priority := b\<rparr>)"
  unfolding queued_def by blast

lemma queued_trans: "queued xs g1 g2 \<Longrightarrow> queued ys g2 g3 \<Longrightarrow> queued (xs @ ys) g1 g3"
  by (auto simp: queued_def)

lemma queued_in_flight: "queued rs g g' \<Longrightarrow> in_flight g' = in_flight g + tracked_origins rs"
  by (auto simp: queued_def in_flight_alt)

lemma queued_request_at:
  "queued rs g g' \<Longrightarrow> snd it < length (rb_buffer (get_buf (fst it) g)) \<Longrightarrow>
   request_at it g' = request_at it g \<and> snd it < length (rb_buffer (get_buf (fst it) g'))"
  by (cases "fst it") (auto simp: queued_def request_at_def nth_append)

lemma queued_keeps:
  assumes "queued rs g g'"
  shows "gc_active g' = gc_active g" "gc_refresh g' = gc_refresh g" "gc_pending g' = gc_pending g"
    "gc_clk g' = gc_clk g" "gc_stats g' = gc_stats g" "gc_policy g' = gc_policy g"
  using assms by (auto simp: queued_def)

lemma found_ok_queued:
  "queued rs g g' \<Longrightarrow> found_ok g d it \<Longrightarrow> found_ok g' d it"
  using queued_request_at unfolding found_ok_def by metis

lemma spares_active_queued:
  "queued rs g g' \<Longrightarrow> found_ok g d it \<Longrightarrow> spares_active g d it \<Longrightarrow> spares_active g' d it"
  using queued_request_at queued_keeps(1) unfolding found_ok_def spares_active_def by metis

lemma ctl_inv_queued:
  "ctl_inv c cores g d \<Longrightarrow> queued rs g g' \<Longrightarrow> \<forall>r \<in> set rs. req_ok cores d r \<Longrightarrow> ctl_inv c cores g' d"
  by (auto simp: ctl_inv_def queued_def all_buf_ids)

text \<open>Accepted or not, the request is legal where it is queued.\<close>

lemma priority_send_ok:
  assumes "sendable cores d r"
  shows "\<exists>b rs g'. gctl_priority_send D d r g = Some (b, g') \<and> queued rs g g' \<and> (\<forall>r \<in> set rs. req_ok cores d r) \<and>
    tracked_origins rs = (if b then tracked_origins [r] else {#}) \<and>
    (b \<longleftrightarrow> length (rb_buffer (gc_priority g)) \<le> rb_max_size (gc_priority g)) \<and> length rs = (if b then 1 else 0)"
proof -
  from assms obtain f where f: "gd_translate D d (rq_type r) = Some f" "req_ok cores d (r\<lparr>rq_final := f\<rparr>)"
    by (auto simp: sendable_def)
  show ?thesis
  proof (cases "length (rb_buffer (gc_priority g)) \<le> rb_max_size (gc_priority g)")
    case True
    then show ?thesis using f
      by (intro exI [of _ True] exI [of _ "[r\<lparr>rq_final := f\<rparr>]"])
        (auto simp: gctl_priority_send_def rb_enqueue_def tracked_def intro: queuedI)
  next
    case False
    then show ?thesis using f
      by (intro exI [of _ False] exI [of _ "[]"]) (simp add: gctl_priority_send_def rb_enqueue_def)
  qed
qed

lemma send_all_ok:
  assumes "\<forall>r \<in> set rs. sendable cores d r \<and> rq_callback r = None"
  shows "\<exists>qs g'. send_all D d rs g = Some g' \<and> queued qs g g' \<and> (\<forall>r \<in> set qs. req_ok cores d r) \<and> tracked_origins qs = {#}"
  using assms
proof (induction rs arbitrary: g)
  case Nil
  then show ?case by (intro exI [of _ "[]"] exI [of _ g]) (simp add: send_all_def)
next
  case (Cons r rs)
  then have "sendable cores d r" "\<not> tracked r" by (simp_all add: tracked_def)
  from priority_send_ok [OF this(1), of g] this(2) obtain b qs g1 where
    1: "gctl_priority_send D d r g = Some (b, g1)" "queued qs g g1" "\<forall>r \<in> set qs. req_ok cores d r" "tracked_origins qs = {#}"
    by (auto split: if_splits)
  from Cons.IH [of g1] Cons.prems obtain qs' g' where
    2: "send_all D d rs g1 = Some g'" "queued qs' g1 g'" "\<forall>r \<in> set qs'. req_ok cores d r" "tracked_origins qs' = {#}" by auto
  show ?case using 1 2 queued_trans [OF 1(2) 2(2)]
    by (intro exI [of _ "qs @ qs'"] exI [of _ g']) (auto simp: send_all_def)
qed

section \<open>Refresh\<close>

lemma refresh_request_blank: "refresh_request c a rank = Some r \<Longrightarrow> rq_callback r = None"
  by (auto simp: refresh_request_def bind_eq_Some_conv request_vec_def blank_request_def)

lemma send_refreshes_ok:
  assumes "\<forall>rank \<in> set ranks. \<exists>r. refresh_request c (gc_refresh g) rank = Some r \<and> sendable cores d r"
  shows "(\<exists>qs g'. send_refreshes D d c ranks g = Inr g' \<and> queued qs g g' \<and> (\<forall>r \<in> set qs. req_ok cores d r) \<and> tracked_origins qs = {#}) \<or>
    send_refreshes D d c ranks g = Inl Refresh_not_sent \<and> ranks \<noteq> [] \<and>
      rb_max_size (gc_priority g) < length (rb_buffer (gc_priority g)) + length ranks"
  using assms
proof (induction ranks arbitrary: g)
  case Nil
  have "send_refreshes D d c [] g = Inr g \<and> queued [] g g" by simp
  then show ?case by fastforce
next
  case (Cons rank ranks)
  then obtain r where r: "refresh_request c (gc_refresh g) rank = Some r" "sendable cores d r" by auto
  from priority_send_ok [OF r(2), of g] refresh_request_blank [OF r(1)] obtain b qs g1 where
    1: "gctl_priority_send D d r g = Some (b, g1)" "queued qs g g1" "\<forall>r \<in> set qs. req_ok cores d r" "tracked_origins qs = {#}"
      "b \<longleftrightarrow> length (rb_buffer (gc_priority g)) \<le> rb_max_size (gc_priority g)" "length qs = (if b then 1 else 0)"
    by (auto simp: tracked_def split: if_splits)
  show ?case
  proof (cases b)
    case True
    have "\<forall>rank \<in> set ranks. \<exists>r. refresh_request c (gc_refresh g1) rank = Some r \<and> sendable cores d r"
      using Cons.prems queued_keeps(2) [OF 1(2)] by simp
    from Cons.IH [OF this] show ?thesis
    proof (elim disjE exE conjE)
      fix qs' g' assume 2: "send_refreshes D d c ranks g1 = Inr g'" "queued qs' g1 g'" "\<forall>r \<in> set qs'. req_ok cores d r" "tracked_origins qs' = {#}"
      then show ?thesis using True 1 r(1) queued_trans [OF 1(2) 2(2)]
        by (intro disjI1 exI [of _ "qs @ qs'"] exI [of _ g']) auto
    next
      assume "send_refreshes D d c ranks g1 = Inl Refresh_not_sent"
        "rb_max_size (gc_priority g1) < length (rb_buffer (gc_priority g1)) + length ranks"
      then show ?thesis using True 1 r(1) by (auto simp: queued_def)
    qed
  next
    case False
    then show ?thesis using 1 r(1) by (auto split: if_splits)
  qed
qed

text \<open>The refresh manager keeps what its requests depend on.\<close>

lemma refresh_request_cong:
  "ar_levels a = ar_levels a' \<Longrightarrow> ar_req_id a = ar_req_id a' \<Longrightarrow> refresh_request c a = refresh_request c a'"
  by (simp add: fun_eq_iff refresh_request_def)

lemma refresh_tick_ok:
  assumes "ctl_inv c cores g d"
  shows "(\<exists>g'. refresh_tick D d c g = Inr g' \<and> ctl_inv c cores g' d \<and> in_flight g' = in_flight g \<and> gc_clk g' = gc_clk g) \<or>
    refresh_tick D d c g = Inl Refresh_not_sent \<and> 0 < ar_num_ranks (gc_refresh g) \<and>
      int (rb_max_size (gc_priority g)) < int (length (rb_buffer (gc_priority g))) + ar_num_ranks (gc_refresh g)"
proof -
  let ?a = "(gc_refresh g)\<lparr>ar_clk := ar_clk (gc_refresh g) + 1\<rparr>"
  have ok: "refreshes_ok c cores d (gc_refresh g)" using assms by (simp add: ctl_inv_def)
  have a: "refreshes_ok c cores d a'" if "ar_levels a' = ar_levels (gc_refresh g)" "ar_req_id a' = ar_req_id (gc_refresh g)"
    "ar_num_ranks a' = ar_num_ranks (gc_refresh g)" for a'
    using ok that refresh_request_cong [OF that(1,2), of c] by (simp add: refreshes_ok_def)
  have inv: "ctl_inv c cores (g\<lparr>gc_refresh := a'\<rparr>) d" if "refreshes_ok c cores d a'" for a'
    using assms that by (auto simp: ctl_inv_def)
  show ?thesis
  proof (cases "ar_clk ?a = ar_next ?a")
    case True
    let ?a' = "?a\<lparr>ar_next := ar_next ?a + ar_nrefi ?a\<rparr>"
    let ?g = "g\<lparr>gc_refresh := ?a'\<rparr>" and ?ranks = "map int [0..<nat (ar_num_ranks ?a)]"
    have ra: "refreshes_ok c cores d ?a'" by (rule a) simp_all
    then have "\<forall>rank \<in> set ?ranks. \<exists>r. refresh_request c (gc_refresh ?g) rank = Some r \<and> sendable cores d r"
      by (auto simp: refreshes_ok_def)
    from send_refreshes_ok [OF this] show ?thesis
    proof (elim disjE exE conjE)
      fix qs g' assume 2: "send_refreshes D d c ?ranks ?g = Inr g'" "queued qs ?g g'" "\<forall>r \<in> set qs. req_ok cores d r"
        "tracked_origins qs = {#}"
      have "in_flight ?g = in_flight g" by (simp add: in_flight_alt)
      then show ?thesis
        using True 2 ctl_inv_queued [OF inv [OF ra] 2(2,3)] queued_in_flight [OF 2(2)] queued_keeps(4) [OF 2(2)]
        by (simp add: refresh_tick_def Let_def)
    next
      assume *: "send_refreshes D d c ?ranks ?g = Inl Refresh_not_sent" "?ranks \<noteq> []"
        "rb_max_size (gc_priority ?g) < length (rb_buffer (gc_priority ?g)) + length ?ranks"
      then show ?thesis using True by (intro disjI2) (simp add: refresh_tick_def Let_def)
    qed
  next
    case False
    have "refreshes_ok c cores d ?a" by (rule a) simp_all
    with inv False show ?thesis by (simp add: refresh_tick_def Let_def in_flight_alt)
  qed
qed

end

end
