(* ===== verification/Generic_System.thy ===== *)
theory Generic_System
  imports Generic_Safety
begin

text \<open>
  The steps of the generic controller on a device of the locale \<open>ctl_dram\<close>: serving reads and
  requests, the contract of row policies and plugins (\<open>ctl_parts\<close>), and runs of ticks and sends.
\<close>

section \<open>Accounting\<close>

lemma in_flight_put_buf:
  "in_flight (put_buf k b g) + tracked_origins (rb_buffer (get_buf k g)) = in_flight g + tracked_origins (rb_buffer b)"
  by (cases k) (simp_all add: in_flight_alt ac_simps)

lemma in_flight_updates:
  "in_flight (g\<lparr>gc_pending := gc_pending g @ [r]\<rparr>) = in_flight g + tracked_origins [r]"
  "in_flight (g\<lparr>gc_stats := st\<rparr>) = in_flight g" "in_flight (g\<lparr>gc_clk := t\<rparr>) = in_flight g"
  "in_flight (g\<lparr>gc_policy := pol\<rparr>) = in_flight g"
  by (simp_all add: in_flight_alt ac_simps)

lemma tracked_update: "i < length xs \<Longrightarrow> rq_origin r = rq_origin (xs ! i) \<Longrightarrow> tracked_origins (xs[i := r]) = tracked_origins xs"
  by (intro tracked_origins_map) (simp add: map_update list_update_same_conv)

lemma rb_remove_origins:
  assumes "rb_remove b i = Some b'"
  shows "tracked_origins (rb_buffer b) = tracked_origins (rb_buffer b') + tracked_origins [rb_buffer b ! i]"
    "set (rb_buffer b') \<subseteq> set (rb_buffer b)"
proof -
  from assms have b: "i < length (rb_buffer b)" "rb_buffer b' = take i (rb_buffer b) @ drop (Suc i) (rb_buffer b)"
    by (auto simp: rb_remove_def split: if_splits)
  have "tracked_origins (rb_buffer b) =
      tracked_origins (take i (rb_buffer b) @ rb_buffer b ! i # drop (Suc i) (rb_buffer b))"
    using id_take_nth_drop [OF b(1)] by simp
  then show "tracked_origins (rb_buffer b) = tracked_origins (rb_buffer b') + tracked_origins [rb_buffer b ! i]"
    using b(2) by (simp add: ac_simps)
  show "set (rb_buffer b') \<subseteq> set (rb_buffer b)" using b(2) set_take_subset set_drop_subset by fastforce
qed

lemma rb_remove_total: "i < length (rb_buffer b) \<Longrightarrow> \<exists>b'. rb_remove b i = Some b'"
  by (simp add: rb_remove_def)

text \<open>The request at an iterator leaves its buffer.\<close>

lemma in_flight_remove:
  assumes "rb_remove (get_buf k g) i = Some b'"
  shows "in_flight g = in_flight (put_buf k b' g) + tracked_origins [rb_buffer (get_buf k g) ! i]"
proof -
  have "in_flight (put_buf k b' g) + tracked_origins [rb_buffer (get_buf k g) ! i] + tracked_origins (rb_buffer b') =
      in_flight g + tracked_origins (rb_buffer b')"
    using in_flight_put_buf [of k b' g] rb_remove_origins(1) [OF assms] by (simp add: ac_simps)
  then show ?thesis by simp
qed

section \<open>Serving\<close>

context ctl_dram
begin

lemma serve_completed_ok:
  assumes "ctl_inv c cores g d" "serve_completed_reads g = (g', cbs)"
  shows "ctl_inv c cores g' d" "in_flight g = in_flight g' + mset (map (\<lambda>x. rq_origin (snd x)) cbs)"
    "gc_clk g' = gc_clk g" "gc_priority g' = gc_priority g" "gc_refresh g' = gc_refresh g"
proof -
  have "\<forall>r \<in> set (gc_pending g). rq_type r = type_Read" using assms(1) by (simp add: ctl_inv_def)
  then show "in_flight g = in_flight g' + mset (map (\<lambda>x. rq_origin (snd x)) cbs)"
    using assms(2) by (auto simp: serve_completed_reads_def in_flight_alt Let_def tracked_def split: list.splits if_splits option.splits)
  show "ctl_inv c cores g' d"
    using assms by (auto simp: serve_completed_reads_def ctl_inv_def stats_ok_def Let_def split: list.splits if_splits)
  show "gc_clk g' = gc_clk g" "gc_priority g' = gc_priority g" "gc_refresh g' = gc_refresh g"
    using assms(2) by (auto simp: serve_completed_reads_def Let_def split: list.splits if_splits)
qed

lemma bump_core_ok:
  "length v = cores \<Longrightarrow> source = -1 \<or> 0 \<le> source \<and> source < int cores \<Longrightarrow>
   \<exists>v'. bump_core v source = Some v' \<and> length v' = cores"
  by (auto simp: bump_core_def vec_at_def vec_set_def)

lemma update_stats_ok:
  assumes "ok d" "req_ok cores d r" "stats_ok cores st"
  shows "\<exists>st'. update_request_stats D d r st = Some st' \<and> stats_ok cores st'"
proof -
  obtain h b where hb: "gd_rowhit D d (rq_final r) (rq_addr_vec r) = Some h"
    "gd_rowopen D d (rq_final r) (rq_addr_vec r) = Some b"
    using stats_total [OF assms(1)] assms(2) unfolding req_ok_def by blast
  note src = assms(2) [unfolded req_ok_def, THEN conjunct2]
  obtain v1 v2 v3 where v: "bump_core (gs_core_hits st) (rq_source r) = Some v1" "length v1 = cores"
    "bump_core (gs_core_misses st) (rq_source r) = Some v2" "length v2 = cores"
    "bump_core (gs_core_conflicts st) (rq_source r) = Some v3" "length v3 = cores"
    using bump_core_ok [OF _ src] assms(3) unfolding stats_ok_def by metis
  show ?thesis
    using hb v assms(3)
    by (auto simp: update_request_stats_def update_read_stats_def update_write_stats_def stats_ok_def Let_def)
qed

text \<open>The part of the invariant about queued requests, for the requests of a list.\<close>

lemma hits_after_issue:
  assumes "ctl_inv c cores g d" "found_ok g d it" "spares_active g d it"
    and "gd_issue D d (rq_command (request_at it g)) (rq_addr_vec (request_at it g)) = Some d'"
    and "r \<in> set (rb_buffer (gc_active g))"
  shows "gd_rowhit D d' (rq_final r) (rq_addr_vec r) = Some True"
proof -
  let ?r = "request_at it g"
  have ok: "ok d" and r: "req_ok cores d r" "gd_rowhit D d (rq_final r) (rq_addr_vec r) = Some True"
    using assms(1,5) unfolding ctl_inv_def by (metis get_buf.simps(1))+
  have v: "valid d (rq_final ?r) (rq_addr_vec ?r)" using found_req_ok [OF assms(1,2)] by (simp add: req_ok_def)
  have p: "gd_preq D d (rq_final ?r) (rq_addr_vec ?r) = Some (rq_command ?r)" using assms(2) by (simp add: found_ok_def)
  from preq_total [OF ok v] p obtain m where m: "gd_meta D d (rq_command ?r) = Some m" by auto
  have "\<not> (is_closing m \<and> same_bank bank (rq_addr_vec r) (rq_addr_vec ?r))"
    using assms(3,5) m by (auto simp: spares_active_def)
  with hit_keep [OF ok _ r(2) v p m _ assms(4)] r(1) show ?thesis by (simp add: req_ok_def)
qed

lemma serve_request_ok:
  assumes inv: "ctl_inv c cores g d" and it: "found_ok g d it" and sp: "spares_active g d it"
  shows "\<exists>g' d'. serve_request D it (g, d) = Some (g', d') \<and> ctl_inv c cores g' d' \<and> same d d' \<and> in_flight g' = in_flight g \<and>
    gd_issue D d (rq_command (request_at it g)) (rq_addr_vec (request_at it g)) = Some d'"
proof -
  define k i where "k = fst it" and "i = snd it"
  let ?q = "request_at it g"
  let ?r = "?q\<lparr>rq_stat_updated := True\<rparr>"
  have ok: "ok d" and st0: "stats_ok cores (gc_stats g)" using inv by (simp_all add: ctl_inv_def)
  have r0: "req_ok cores d ?q" using found_req_ok [OF inv it] .
  then have v: "valid d (rq_final ?q) (rq_addr_vec ?q)" by (simp add: req_ok_def)
  have i: "i < length (rb_buffer (get_buf k g))" and r0_eq: "?q = rb_buffer (get_buf k g) ! i"
    and p: "gd_preq D d (rq_final ?q) (rq_addr_vec ?q) = Some (rq_command ?q)"
    and rdy: "gd_ready D d (rq_command ?q) (rq_addr_vec ?q) = Some True"
    using it by (simp_all add: found_ok_def request_at_def rq_ready_def k_def i_def)
  obtain st where st: "(if rq_stat_updated ?q then Some (gc_stats g) else update_request_stats D d ?q (gc_stats g)) = Some st"
    "stats_ok cores st" using update_stats_ok [OF ok r0 st0] st0 by (cases "rq_stat_updated ?q") auto
  obtain d' where d': "gd_issue D d (rq_command ?q) (rq_addr_vec ?q) = Some d'" using issue_total [OF ok v p] by blast
  have ok': "ok d'" using ok_issue [OF ok v p rdy d'] .
  have same: "same d d'" using same_issue [OF ok d'] by (simp add: same_def)
  obtain m where m: "gd_meta D d' (rq_command ?q) = Some m" using preq_total [OF ok v] p same by (auto simp: same_def)
  define g1 where "g1 = put_requests k ((rb_buffer (get_buf k g))[i := ?r]) (g\<lparr>gc_stats := st\<rparr>)"
  have flight1: "in_flight g1 = in_flight g"
  proof -
    have "tracked_origins ((rb_buffer (get_buf k g))[i := ?r]) = tracked_origins (rb_buffer (get_buf k g))"
      by (rule tracked_update [OF i]) (simp add: r0_eq)
    then show ?thesis
      using in_flight_put_buf [of k "(get_buf k (g\<lparr>gc_stats := st\<rparr>))\<lparr>rb_buffer := (rb_buffer (get_buf k g))[i := ?r]\<rparr>" "g\<lparr>gc_stats := st\<rparr>"]
      by (simp add: g1_def put_requests_def in_flight_updates)
  qed
  have mem1: "\<exists>y \<in> set (rb_buffer (get_buf k' g)). rq_final x = rq_final y \<and> rq_addr_vec x = rq_addr_vec y \<and> rq_source x = rq_source y"
    if "x \<in> set (rb_buffer (get_buf k' g1))" for k' x
  proof (cases "k' = k \<and> x = ?r")
    case True
    then show ?thesis using nth_mem [OF i] by (intro bexI [of _ "?q"]) (simp_all add: r0_eq)
  next
    case False
    with that have "x \<in> set (rb_buffer (get_buf k' g))"
      using set_update_subset_insert [of "rb_buffer (get_buf k g)" i ?r] by (auto simp: g1_def split: if_splits)
    then show ?thesis by blast
  qed
  have at1: "i < length (rb_buffer (get_buf k g1))" "rb_buffer (get_buf k g1) ! i = ?r"
    using i by (simp_all add: g1_def)
  have hits: "gd_rowhit D d' (rq_final x) (rq_addr_vec x) = Some True" if "x \<in> set (rb_buffer (gc_active g1))" for x
    using mem1 [of x ActiveB] that hits_after_issue [OF inv it sp d'] by auto
  have inv1: "ctl_inv c cores g1 d'"
  proof -
    have "req_ok cores d' x" if "x \<in> set (rb_buffer (get_buf k' g1))" for k' x
    proof -
      from mem1 [OF that] obtain y where y: "y \<in> set (rb_buffer (get_buf k' g))" "rq_final x = rq_final y"
        "rq_addr_vec x = rq_addr_vec y" "rq_source x = rq_source y" by blast
      then have "req_ok cores d y" using inv by (auto simp: ctl_inv_def)
      then show ?thesis using y same_ok(1) [OF same] by (simp add: req_ok_def)
    qed
    then show ?thesis using inv ok' st(2) same_ok(3) [OF same] hits by (simp add: ctl_inv_def g1_def)
  qed
  have drop: "\<exists>b'. rb_remove (get_buf k h) i = Some b' \<and> ctl_inv c cores (put_buf k b' h) d' \<and>
      in_flight h = in_flight (put_buf k b' h) + tracked_origins [?r]"
    if h: "ctl_inv c cores h d'" "i < length (rb_buffer (get_buf k h))" "rb_buffer (get_buf k h) ! i = ?r" for h
  proof -
    from rb_remove_total [OF h(2)] obtain b' where b': "rb_remove (get_buf k h) i = Some b'" by blast
    have "ctl_inv c cores (put_buf k b' h) d'"
      using h(1) rb_remove_origins(2) [OF b'] by (cases k) (auto simp: ctl_inv_def all_buf_ids)
    then show ?thesis using b' in_flight_remove [OF b'] h(3) by simp
  qed
  have serve: "serve_request D it (g, d) =
    (if rq_command ?r = rq_final ?r then
       (let g2 = (if rq_type ?r = type_Read
                  then g1\<lparr>gc_pending := gc_pending g1 @ [?r\<lparr>rq_depart := gc_clk g1 + gd_read_latency D d'\<rparr>]\<rparr> else g1)
        in map_option (\<lambda>b'. (put_buf k b' g2, d')) (rb_remove (get_buf k g2) i))
     else if is_opening m \<and> fst (rb_enqueue (gc_active g1) ?r) then
       (let g2 = g1\<lparr>gc_active := snd (rb_enqueue (gc_active g1) ?r)\<rparr>
        in map_option (\<lambda>b'. (put_buf k b' g2, d')) (rb_remove (get_buf k g2) i))
     else Some (g1, d'))"
    unfolding serve_request_def prod.case Let_def
    by (subst st(1)) (simp add: d' m g1_def [unfolded k_def i_def, symmetric] k_def i_def split_def map_conv_bind_option o_def)
  consider "rq_command ?q = rq_final ?q" "rq_type ?q = type_Read"
    | "rq_command ?q = rq_final ?q" "rq_type ?q \<noteq> type_Read"
    | "rq_command ?q \<noteq> rq_final ?q" "is_opening m" "fst (rb_enqueue (gc_active g1) ?r)"
    | "rq_command ?q \<noteq> rq_final ?q" "\<not> (is_opening m \<and> fst (rb_enqueue (gc_active g1) ?r))" by blast
  then show ?thesis
  proof cases
    case 1
    note last_read = this
    let ?h = "g1\<lparr>gc_pending := gc_pending g1 @ [?r\<lparr>rq_depart := gc_clk g1 + gd_read_latency D d'\<rparr>]\<rparr>"
    have "ctl_inv c cores ?h d'" using inv1 last_read by (auto simp: ctl_inv_def)
    from drop [OF this] at1 obtain b' where "rb_remove (get_buf k ?h) i = Some b'" "ctl_inv c cores (put_buf k b' ?h) d'"
      "in_flight ?h = in_flight (put_buf k b' ?h) + tracked_origins [?r]" by auto
    moreover have "in_flight ?h = in_flight g1 + tracked_origins [?r]"
      by (simp add: in_flight_updates tracked_def)
    ultimately show ?thesis using serve last_read same flight1 d' by (simp add: Let_def)
  next
    case 2
    note last_other = this
    from drop [OF inv1 at1] obtain b' where "rb_remove (get_buf k g1) i = Some b'" "ctl_inv c cores (put_buf k b' g1) d'"
      "in_flight g1 = in_flight (put_buf k b' g1) + tracked_origins [?r]" by auto
    moreover have "tracked_origins [?r] = {#}" using last_other by (simp add: tracked_def)
    ultimately show ?thesis using serve last_other same flight1 d' by (simp add: Let_def)
  next
    case 3
    note opens = this
    define a where "a = snd (rb_enqueue (gc_active g1) ?r)"
    have a: "rb_buffer a = rb_buffer (gc_active g1) @ [?r]" using opens(3) by (auto simp: a_def rb_enqueue_def split: if_splits)
    let ?h = "g1\<lparr>gc_active := a\<rparr>"
    have "gd_meta D d (rq_command ?q) = Some m" using m same by (simp add: same_def)
    from hit_open [OF ok v p this opens(2) d'] have "gd_rowhit D d' (rq_final ?r) (rq_addr_vec ?r) = Some True" by simp
    moreover have "req_ok cores d' ?r" using r0 same_ok(1) [OF same] by (simp add: req_ok_def)
    ultimately have "ctl_inv c cores ?h d'" using inv1 a by (auto simp: ctl_inv_def all_buf_ids)
    moreover have "i < length (rb_buffer (get_buf k ?h))" "rb_buffer (get_buf k ?h) ! i = ?r"
      using at1 a by (cases k; simp add: nth_append)+
    ultimately obtain b' where "rb_remove (get_buf k ?h) i = Some b'" "ctl_inv c cores (put_buf k b' ?h) d'"
      "in_flight ?h = in_flight (put_buf k b' ?h) + tracked_origins [?r]" using drop by blast
    moreover have "in_flight ?h = in_flight g1 + tracked_origins [?r]"
      using a by (simp add: in_flight_alt ac_simps)
    ultimately show ?thesis using serve opens same flight1 d' by (simp add: Let_def a_def)
  next
    case 4
    note stays = this
    then show ?thesis using serve inv1 same flight1 d' by auto
  qed
qed

lemma enqueue_ok:
  assumes "ctl_inv c cores g d" "req_ok cores d r" "k \<noteq> ActiveB" "rb_enqueue (get_buf k g) r = (b, q)"
  shows "ctl_inv c cores (put_buf k q g) d"
    "in_flight (put_buf k q g) = in_flight g + (if b then tracked_origins [r] else {#})"
proof -
  have q: "rb_buffer q = rb_buffer (get_buf k g) @ (if b then [r] else [])"
    using assms(4) by (auto simp: rb_enqueue_def split: if_splits)
  show "ctl_inv c cores (put_buf k q g) d"
    using assms(1-3) q by (cases k) (auto simp: ctl_inv_def all_buf_ids split: if_splits)
  show "in_flight (put_buf k q g) = in_flight g + (if b then tracked_origins [r] else {#})"
    using in_flight_put_buf [of k q g] q by (simp split: if_splits)
qed

lemma send_ok:
  assumes "ctl_inv c cores g d" "rq_type r = type_Read \<or> rq_type r = type_Write" "sendable cores d r"
  shows "\<exists>b g'. gctl_send D d r g = Inr (b, g') \<and> ctl_inv c cores g' d \<and>
    in_flight g' = in_flight g + (if b then tracked_origins [r] else {#}) \<and>
    gc_refresh g' = gc_refresh g \<and> gc_policy g' = gc_policy g"
proof -
  from assms(3) obtain f where f: "gd_translate D d (rq_type r) = Some f" "req_ok cores d (r\<lparr>rq_final := f\<rparr>)"
    by (auto simp: sendable_def)
  let ?g = "g\<lparr>gc_stats := ctl_count (rq_type r) (gc_stats g)\<rparr>"
  have inv: "ctl_inv c cores ?g d" using assms(1) by (auto simp: ctl_inv_def stats_ok_def ctl_count_def)
  have req: "req_ok cores d (r\<lparr>rq_final := f, rq_arrive := t\<rparr>)" for t using f(2) by (simp add: req_ok_def)
  have types: "type_Read \<noteq> type_Write" by (simp add: type_Read_def type_Write_def)
  consider "rq_type r = type_Read" "\<exists>w \<in> set (rb_buffer (gc_write g)). rq_addr w = rq_addr r"
    | "rq_type r = type_Read" "\<not> (\<exists>w \<in> set (rb_buffer (gc_write g)). rq_addr w = rq_addr r)"
    | "rq_type r = type_Write" using assms(2) by blast
  then show ?thesis
  proof cases
    case 1
    let ?h = "?g\<lparr>gc_pending := gc_pending g @ [r\<lparr>rq_final := f, rq_depart := gc_clk g + 1\<rparr>]\<rparr>"
    have "ctl_inv c cores ?h d" using inv 1(1) by (auto simp: ctl_inv_def)
    moreover have "in_flight ?h = in_flight g + tracked_origins [r]" by (simp add: in_flight_alt tracked_def ac_simps)
    ultimately show ?thesis using 1 f(1) by (intro exI [of _ True] exI [of _ ?h]) (simp add: gctl_send_def)
  next
    case 2
    obtain b q where e: "rb_enqueue (get_buf ReadB ?g) (r\<lparr>rq_final := f, rq_arrive := gc_clk g\<rparr>) = (b, q)" by fastforce
    from enqueue_ok [OF inv req _ e] have "ctl_inv c cores (put_buf ReadB q ?g) d"
      "in_flight (put_buf ReadB q ?g) = in_flight g + (if b then tracked_origins [r] else {#})"
      by (simp_all add: in_flight_updates)
    then show ?thesis using 2 f(1) e types by (intro exI [of _ b] exI [of _ "put_buf ReadB q ?g"]) (simp add: gctl_send_def Let_def)
  next
    case 3
    obtain b q where e: "rb_enqueue (get_buf WriteB ?g) (r\<lparr>rq_final := f, rq_arrive := gc_clk g\<rparr>) = (b, q)" by fastforce
    from enqueue_ok [OF inv req _ e] have "ctl_inv c cores (put_buf WriteB q ?g) d"
      "in_flight (put_buf WriteB q ?g) = in_flight g + (if b then tracked_origins [r] else {#})"
      by (simp_all add: in_flight_updates)
    then show ?thesis using 3 f(1) e types by (intro exI [of _ b] exI [of _ "put_buf WriteB q ?g"]) (simp add: gctl_send_def Let_def)
  qed
qed

text \<open>What a controller serves, and the maintenance requests policies and plugins send.\<close>

definition served :: "'d \<Rightarrow> request option \<Rightarrow> bool" where
  "served d found \<longleftrightarrow> (case found of None \<Rightarrow> True | Some r \<Rightarrow> valid d (rq_final r) (rq_addr_vec r) \<and>
     gd_preq D d (rq_final r) (rq_addr_vec r) = Some (rq_command r))"

definition maintenance :: "'d \<Rightarrow> request \<Rightarrow> bool" where
  "maintenance d r \<longleftrightarrow> (\<exists>f. gd_translate D d (rq_type r) = Some f \<and> valid d f (rq_addr_vec r)) \<and>
     rq_source r = -1 \<and> rq_callback r = None"

lemma maintenance_sendable: "maintenance d r \<Longrightarrow> sendable cores d r \<and> rq_callback r = None"
  by (auto simp: maintenance_def sendable_def req_ok_def)

end

text \<open>What the steps leave alone.\<close>

lemma priority_send_policy:
  "gctl_priority_send D d r g = Some (b, g') \<Longrightarrow> gc_policy g' = gc_policy g \<and> gc_refresh g' = gc_refresh g"
  by (auto simp: gctl_priority_send_def bind_eq_Some_conv Let_def split_def)

lemma send_refreshes_policy:
  "send_refreshes D d c ranks g = Inr g' \<Longrightarrow> gc_policy g' = gc_policy g \<and> gc_refresh g' = gc_refresh g"
  by (induction ranks arbitrary: g) (auto simp: bind_eq_Some_conv dest!: priority_send_policy split: option.splits if_splits)

lemma refresh_tick_policy:
  "refresh_tick D d c g = Inr g' \<Longrightarrow> gc_policy g' = gc_policy g \<and> ar_num_ranks (gc_refresh g') = ar_num_ranks (gc_refresh g)"
  by (auto simp: refresh_tick_def Let_def dest!: send_refreshes_policy split: if_splits)

lemma serve_request_policy:
  "serve_request D it (g, d) = Some (g', d') \<Longrightarrow> gc_policy g' = gc_policy g \<and> gc_refresh g' = gc_refresh g"
  by (auto simp: serve_request_def Let_def bind_eq_Some_conv split: if_splits prod.splits)

section \<open>The parts of a controller\<close>

text \<open>
  The row policy and the plugins of a controller: defined on every request that is served, keeping
  invariants of their own, and sending only maintenance requests the device can serve.
\<close>

locale ctl_parts = ctl_dram D best ok valid bank
  for D :: "'d gdram" and best ok valid bank +
  fixes upd :: "'d \<Rightarrow> 'p plugin" and pol_ok :: "'d \<Rightarrow> row_policy \<Rightarrow> bool" and plug_ok :: "'d \<Rightarrow> 'p \<Rightarrow> bool"
  assumes policy_step: "ok d \<Longrightarrow> pol_ok d pol \<Longrightarrow> served d found \<Longrightarrow>
      \<exists>pol' rs. row_policy_update D d found pol = Some (pol', rs) \<and> pol_ok d pol' \<and> (\<forall>r \<in> set rs. maintenance d r)"
    and plugin_step: "ok d \<Longrightarrow> plug_ok d p \<Longrightarrow> served d found \<Longrightarrow>
      \<exists>p' rs. upd d found p = Some (p', rs) \<and> plug_ok d p' \<and> (\<forall>r \<in> set rs. maintenance d r)"
    and parts_same: "same d d' \<Longrightarrow> pol_ok d' = pol_ok d \<and> plug_ok d' = plug_ok d"
begin

definition parts_inv :: "gctl_cfg \<Rightarrow> nat \<Rightarrow> (gctl \<times> 'p list) \<times> 'd \<Rightarrow> bool" where
  "parts_inv c cores s \<longleftrightarrow> (case s of ((g, ps), d) \<Rightarrow>
     ctl_inv c cores g d \<and> pol_ok d (gc_policy g) \<and> (\<forall>p \<in> set ps. plug_ok d p))"

lemma run_plugins_ok:
  assumes "ok d" "\<forall>p \<in> set ps. plug_ok d p" "served d found"
  shows "\<exists>ps' g' qs. run_plugins D d upd found ps g = Some (ps', g') \<and> (\<forall>p \<in> set ps'. plug_ok d p) \<and>
    queued qs g g' \<and> (\<forall>r \<in> set qs. req_ok cores d r) \<and> tracked_origins qs = {#}"
  using assms(2)
proof (induction ps arbitrary: g)
  case Nil
  have "queued [] g g" by simp
  then show ?case by (intro exI [of _ "[]"] exI [of _ g]) simp
next
  case (Cons p ps)
  have "plug_ok d p" using Cons.prems by simp
  from plugin_step [OF assms(1) this assms(3)] obtain p' rs where
    p: "upd d found p = Some (p', rs)" "plug_ok d p'" "\<forall>r \<in> set rs. maintenance d r" by blast
  then have "\<forall>r \<in> set rs. sendable cores d r \<and> rq_callback r = None" using maintenance_sendable by blast
  from send_all_ok [OF this, of g] obtain qs g1 where
    1: "send_all D d rs g = Some g1" "queued qs g g1" "\<forall>r \<in> set qs. req_ok cores d r" "tracked_origins qs = {#}" by blast
  from Cons.IH [of g1] Cons.prems obtain ps' g' qs' where
    2: "run_plugins D d upd found ps g1 = Some (ps', g')" "\<forall>p \<in> set ps'. plug_ok d p" "queued qs' g1 g'"
      "\<forall>r \<in> set qs'. req_ok cores d r" "tracked_origins qs' = {#}" by auto
  show ?case using p 1 2 queued_trans [OF 1(2) 2(3)]
    by (intro exI [of _ "p' # ps'"] exI [of _ g'] exI [of _ "qs @ qs'"]) auto
qed

text \<open>Row policy and plugins, between scheduling and serving.\<close>

lemma parts_step_ok:
  assumes "ctl_inv c cores g d" "pol_ok d (gc_policy g)" "\<forall>p \<in> set ps. plug_ok d p" "served d found"
  shows "\<exists>policy rs g5 ps' g6 qs. row_policy_update D d found (gc_policy g) = Some (policy, rs) \<and>
    send_all D d rs (g\<lparr>gc_policy := policy\<rparr>) = Some g5 \<and> run_plugins D d upd found ps g5 = Some (ps', g6) \<and>
    queued qs (g\<lparr>gc_policy := policy\<rparr>) g6 \<and> parts_inv c cores ((g6, ps'), d) \<and> in_flight g6 = in_flight g"
proof -
  have ok: "ok d" using assms(1) by (simp add: ctl_inv_def)
  from policy_step [OF ok assms(2,4)] obtain policy rs where
    1: "row_policy_update D d found (gc_policy g) = Some (policy, rs)" "pol_ok d policy" "\<forall>r \<in> set rs. maintenance d r" by blast
  let ?g = "g\<lparr>gc_policy := policy\<rparr>"
  have inv: "ctl_inv c cores ?g d" using assms(1) by (simp add: ctl_inv_def)
  have "\<forall>r \<in> set rs. sendable cores d r \<and> rq_callback r = None" using 1(3) maintenance_sendable by blast
  from send_all_ok [OF this, of ?g] obtain qs g5 where
    2: "send_all D d rs ?g = Some g5" "queued qs ?g g5" "\<forall>r \<in> set qs. req_ok cores d r" "tracked_origins qs = {#}" by blast
  from run_plugins_ok [OF ok assms(3,4), of g5 cores] obtain ps' g6 qs' where
    3: "run_plugins D d upd found ps g5 = Some (ps', g6)" "\<forall>p \<in> set ps'. plug_ok d p" "queued qs' g5 g6"
      "\<forall>r \<in> set qs'. req_ok cores d r" "tracked_origins qs' = {#}" by blast
  note q = queued_trans [OF 2(2) 3(3)]
  have "ctl_inv c cores g6 d" using ctl_inv_queued [OF inv q] 2(3) 3(4) by auto
  moreover have "gc_policy g6 = policy" using queued_keeps(6) [OF q] by simp
  moreover have "in_flight g6 = in_flight g" using queued_in_flight [OF q] 2(4) 3(5) by (simp add: in_flight_updates)
  ultimately show ?thesis using 1 2(1) 3(1,2) q by (auto simp: parts_inv_def)
qed

lemma found_served: "ctl_inv c cores g d \<Longrightarrow> found_ok g d it \<Longrightarrow> served d (Some (request_at it g))"
  using found_req_ok by (auto simp: served_def req_ok_def found_ok_def)

lemma parts_inv_same:
  "parts_inv c cores ((g, ps), d) \<Longrightarrow> ctl_inv c cores g' d' \<Longrightarrow> gc_policy g' = gc_policy g \<Longrightarrow> same d d' \<Longrightarrow>
   parts_inv c cores ((g', ps), d')"
  using parts_same [of d d'] by (simp add: parts_inv_def)

lemma tick_ok:
  assumes "parts_inv c cores ((g0, ps), d)"
  shows "(\<exists>g ps' d' cbs. gctl_tick D best upd c ((g0, ps), d) = Inr (((g, ps'), d'), cbs) \<and> parts_inv c cores ((g, ps'), d') \<and>
      same d d' \<and> in_flight g0 = in_flight g + mset (map (\<lambda>x. rq_origin (snd x)) cbs) \<and>
      ar_num_ranks (gc_refresh g) = ar_num_ranks (gc_refresh g0)) \<or>
    gctl_tick D best upd c ((g0, ps), d) = Inl Refresh_not_sent \<and> 0 < ar_num_ranks (gc_refresh g0) \<and>
      int (rb_max_size (gc_priority g0)) < int (length (rb_buffer (gc_priority g0))) + ar_num_ranks (gc_refresh g0)"
proof -
  define g1 where "g1 = g0\<lparr>gc_clk := gc_clk g0 + 1\<rparr>"
  obtain g2 cbs where s2: "serve_completed_reads (g1\<lparr>gc_stats := count_queues g1\<rparr>) = (g2, cbs)" by fastforce
  have inv0: "ctl_inv c cores g0 d" and pol: "pol_ok d (gc_policy g0)" and plug: "\<forall>p \<in> set ps. plug_ok d p"
    using assms by (simp_all add: parts_inv_def)
  have inv1: "ctl_inv c cores (g1\<lparr>gc_stats := count_queues g1\<rparr>) d"
    using inv0 by (simp add: ctl_inv_def g1_def count_queues_def stats_ok_def Let_def)
  note c2 = serve_completed_ok [OF inv1 s2]
  have fl: "in_flight g0 = in_flight g2 + mset (map (\<lambda>x. rq_origin (snd x)) cbs)"
    using c2(2) by (simp add: in_flight_updates g1_def)
  have pol2: "gc_policy g2 = gc_policy g0"
    using s2 by (auto simp: serve_completed_reads_def g1_def Let_def split: list.splits if_splits)
  have keeps: "gc_priority g2 = gc_priority g0" "gc_refresh g2 = gc_refresh g0"
    using c2(4,5) by (simp_all add: g1_def)
  have tick: "gctl_tick D best upd c ((g0, ps), d) = sbind (refresh_tick D d c g2) (\<lambda>g3.
       case do {
         (found, g4) \<leftarrow> schedule_request D best c d g3;
         let seen = map_option (\<lambda>it. request_at it g4) found;
         (policy, rs) \<leftarrow> row_policy_update D d seen (gc_policy g4);
         g5 \<leftarrow> send_all D d rs (g4\<lparr>gc_policy := policy\<rparr>);
         (ps', g6) \<leftarrow> run_plugins D d upd seen ps g5;
         case found of
           None \<Rightarrow> Some ((g6, ps'), d)
         | Some it \<Rightarrow> map_option (\<lambda>(g7, d'). ((g7, ps'), d')) (serve_request D it (g6, d)) }
       of None \<Rightarrow> Inl Undefined | Some s' \<Rightarrow> Inr (s', cbs))"
    using s2 by (simp add: gctl_tick_def g1_def)
  from refresh_tick_ok [OF c2(1)] show ?thesis
  proof (elim disjE exE conjE)
    assume "refresh_tick D d c g2 = Inl Refresh_not_sent" "0 < ar_num_ranks (gc_refresh g2)"
      "int (rb_max_size (gc_priority g2)) < int (length (rb_buffer (gc_priority g2))) + ar_num_ranks (gc_refresh g2)"
    then show ?thesis using keeps unfolding tick by (intro disjI2) (simp add: sbind_def)
  next
    fix g3 assume r: "refresh_tick D d c g2 = Inr g3" "ctl_inv c cores g3 d" "in_flight g3 = in_flight g2"
    have pol3: "gc_policy g3 = gc_policy g2" and ranks: "ar_num_ranks (gc_refresh g3) = ar_num_ranks (gc_refresh g2)"
      using refresh_tick_policy [OF r(1)] by simp_all
    from schedule_ok [OF r(2)] obtain found g4 where s: "schedule_request D best c d g3 = Some (found, g4)" "recommanded g3 g4"
      "case found of None \<Rightarrow> True | Some it \<Rightarrow> found_ok g4 d it \<and> spares_active g4 d it" by blast
    note inv4 = ctl_inv_recommanded [OF r(2) s(2)]
    have pol4: "pol_ok d (gc_policy g4)" using s(2) pol pol2 pol3 by (simp add: recommanded_def)
    let ?seen = "map_option (\<lambda>it. request_at it g4) found"
    have seen: "served d ?seen" using found_served [OF inv4] s(3) by (cases found) (simp_all add: served_def)
    from parts_step_ok [OF inv4 pol4 plug seen] obtain policy rs g5 ps' g6 qs where
      p: "row_policy_update D d ?seen (gc_policy g4) = Some (policy, rs)" "send_all D d rs (g4\<lparr>gc_policy := policy\<rparr>) = Some g5"
        "run_plugins D d upd ?seen ps g5 = Some (ps', g6)" "queued qs (g4\<lparr>gc_policy := policy\<rparr>) g6"
        "parts_inv c cores ((g6, ps'), d)" "in_flight g6 = in_flight g4" by blast
    have inv6: "ctl_inv c cores g6 d" using p(5) by (simp add: parts_inv_def)
    have flight: "in_flight g6 = in_flight g2" using p(6) recommanded_in_flight [OF s(2)] r(3) by simp
    have clk: "ar_num_ranks (gc_refresh g6) = ar_num_ranks (gc_refresh g0)"
      using queued_keeps(2) [OF p(4)] s(2) ranks keeps by (simp add: recommanded_def)
    show ?thesis
    proof (cases found)
      case None
      then show ?thesis using r(1) s(1) p(1-3,5) flight fl clk unfolding tick by (intro disjI1) (simp add: sbind_def)
    next
      case (Some it)
      have it: "found_ok g4 d it" "spares_active g4 d it" using s(3) Some by simp_all
      have it': "found_ok (g4\<lparr>gc_policy := policy\<rparr>) d it" "spares_active (g4\<lparr>gc_policy := policy\<rparr>) d it"
        using it by (simp_all add: found_ok_def spares_active_def request_at_def)
      from serve_request_ok [OF inv6 found_ok_queued [OF p(4) it'(1)] spares_active_queued [OF p(4) it']] obtain g7 d' where
        v: "serve_request D it (g6, d) = Some (g7, d')" "ctl_inv c cores g7 d'" "same d d'" "in_flight g7 = in_flight g6" by blast
      have k: "gc_policy g7 = gc_policy g6 \<and> gc_refresh g7 = gc_refresh g6" using serve_request_policy [OF v(1)] .
      have "parts_inv c cores ((g7, ps'), d')" using parts_inv_same [OF p(5) v(2) _ v(3)] k by simp
      then show ?thesis using r(1) s(1) p(1-3) v k flight fl clk Some unfolding tick by (intro disjI1) (simp add: sbind_def)
    qed
  qed
qed

end

section \<open>Runs\<close>

text \<open>A system of the device and one controller: a tick of both, or a request from outside.\<close>

datatype gev = GTick | GSend request | GPriority request

definition gctl_event ::
  "'d gdram \<Rightarrow> 'd scheduler \<Rightarrow> ('d \<Rightarrow> 'p plugin) \<Rightarrow> gctl_cfg \<Rightarrow> gev \<Rightarrow> (gctl \<times> 'p list) \<times> 'd \<Rightarrow>
   ctl_error + ((gctl \<times> 'p list) \<times> 'd) \<times> request list \<times> (nat \<times> request) list" where
  "gctl_event D best upd c e s = (case s of ((g, ps), d) \<Rightarrow> (case e of
     GTick \<Rightarrow> sbind (gctl_tick D best upd c ((g, ps), gd_tick D d)) (\<lambda>(s', cbs). Inr (s', [], cbs))
   | GSend r \<Rightarrow> sbind (gctl_send D d r g) (\<lambda>(b, g'). Inr (((g', ps), d), if b then [r] else [], []))
   | GPriority r \<Rightarrow> (case gctl_priority_send D d r g of
       None \<Rightarrow> Inl Undefined
     | Some (b, g') \<Rightarrow> Inr (((g', ps), d), if b then [r] else [], []))))"

fun gctl_events ::
  "'d gdram \<Rightarrow> 'd scheduler \<Rightarrow> ('d \<Rightarrow> 'p plugin) \<Rightarrow> gctl_cfg \<Rightarrow> gev list \<Rightarrow> (gctl \<times> 'p list) \<times> 'd \<Rightarrow>
   ctl_error + ((gctl \<times> 'p list) \<times> 'd) \<times> request list \<times> (nat \<times> request) list" where
  "gctl_events D best upd c [] s = Inr (s, [], [])"
| "gctl_events D best upd c (e # es) s =
     sbind (gctl_event D best upd c e s) (\<lambda>(s1, acc, cbs).
     sbind (gctl_events D best upd c es s1) (\<lambda>(s2, acc', cbs'). Inr (s2, acc @ acc', cbs @ cbs')))"

context ctl_parts
begin

definition gev_ok :: "nat \<Rightarrow> 'd \<Rightarrow> gev \<Rightarrow> bool" where
  "gev_ok cores d e \<longleftrightarrow> (case e of GTick \<Rightarrow> True
     | GSend r \<Rightarrow> (rq_type r = type_Read \<or> rq_type r = type_Write) \<and> sendable cores d r
     | GPriority r \<Rightarrow> sendable cores d r)"

lemma gev_ok_same: "same d d' \<Longrightarrow> gev_ok cores d' = gev_ok cores d"
  by (auto simp: fun_eq_iff gev_ok_def same_ok(2) split: gev.splits)

lemma same_gd_tick: "ok d \<Longrightarrow> same d (gd_tick D d)"
  using same_tick by (simp add: same_def)

text \<open>The accounting of one step or of a run.\<close>

definition accounted :: "gctl \<Rightarrow> request list \<Rightarrow> gctl \<Rightarrow> (nat \<times> request) list \<Rightarrow> bool" where
  "accounted g acc g' cbs \<longleftrightarrow>
     in_flight g + tracked_origins acc = in_flight g' + mset (map (\<lambda>x. rq_origin (snd x)) cbs) \<and>
     ar_num_ranks (gc_refresh g') = ar_num_ranks (gc_refresh g)"

lemma accounted_trans:
  assumes "accounted g1 acc g2 cbs" "accounted g2 acc' g3 cbs'"
  shows "accounted g1 (acc @ acc') g3 (cbs @ cbs')"
proof -
  have "in_flight g1 + (tracked_origins acc + tracked_origins acc') =
      (in_flight g2 + tracked_origins acc') + mset (map (\<lambda>x. rq_origin (snd x)) cbs)"
    using assms(1) by (simp add: accounted_def ac_simps)
  also have "\<dots> = (in_flight g3 + mset (map (\<lambda>x. rq_origin (snd x)) cbs')) + mset (map (\<lambda>x. rq_origin (snd x)) cbs)"
    using assms(2) by (simp only: accounted_def)
  finally show ?thesis using assms by (simp add: accounted_def ac_simps)
qed

lemma event_ok:
  assumes inv: "parts_inv c cores ((g, ps), d)" and ev: "gev_ok cores d e"
  shows "(\<exists>g' ps' d' acc cbs. gctl_event D best upd c e ((g, ps), d) = Inr (((g', ps'), d'), acc, cbs) \<and>
      parts_inv c cores ((g', ps'), d') \<and> same d d' \<and> accounted g acc g' cbs) \<or>
    gctl_event D best upd c e ((g, ps), d) = Inl Refresh_not_sent \<and> 0 < ar_num_ranks (gc_refresh g)"
proof (cases e)
  case GTick
  have ok: "ok d" using inv by (simp add: parts_inv_def ctl_inv_def)
  have "parts_inv c cores ((g, ps), gd_tick D d)"
    using inv ctl_inv_tick parts_same [OF same_gd_tick [OF ok]] by (simp add: parts_inv_def)
  from tick_ok [OF this] show ?thesis
  proof (elim disjE exE conjE)
    fix g' ps' d' cbs
    assume 1: "gctl_tick D best upd c ((g, ps), gd_tick D d) = Inr (((g', ps'), d'), cbs)" "parts_inv c cores ((g', ps'), d')"
      "same (gd_tick D d) d'" "in_flight g = in_flight g' + mset (map (\<lambda>x. rq_origin (snd x)) cbs)"
      "ar_num_ranks (gc_refresh g') = ar_num_ranks (gc_refresh g)"
    then have "accounted g [] g' cbs" by (simp add: accounted_def)
    with 1 same_trans [OF same_gd_tick [OF ok] 1(3)] GTick show ?thesis
      by (intro disjI1 exI [of _ g'] exI [of _ ps'] exI [of _ d'] exI [of _ "[]"] exI [of _ cbs]) (simp add: gctl_event_def sbind_def)
  qed (use GTick in \<open>simp add: gctl_event_def sbind_def\<close>)
next
  case (GSend r)
  from inv ev GSend send_ok [of c cores g d r] obtain b g' where
    s: "gctl_send D d r g = Inr (b, g')" "ctl_inv c cores g' d" "in_flight g' = in_flight g + (if b then tracked_origins [r] else {#})"
      "gc_refresh g' = gc_refresh g" "gc_policy g' = gc_policy g" by (auto simp: parts_inv_def gev_ok_def)
  have "accounted g (if b then [r] else []) g' []" using s(3,4) by (simp add: accounted_def)
  moreover have "parts_inv c cores ((g', ps), d)" using parts_inv_same [OF inv s(2,5) same_refl] .
  ultimately show ?thesis using s(1) GSend
    by (intro disjI1 exI [of _ g'] exI [of _ ps] exI [of _ d] exI [of _ "if b then [r] else []"] exI [of _ "[]"])
      (simp add: gctl_event_def sbind_def)
next
  case (GPriority r)
  with ev have "sendable cores d r" by (simp add: gev_ok_def)
  from priority_send_ok [OF this, of g] obtain b rs g' where
    s: "gctl_priority_send D d r g = Some (b, g')" "queued rs g g'" "\<forall>r \<in> set rs. req_ok cores d r"
      "tracked_origins rs = (if b then tracked_origins [r] else {#})" by blast
  have "ctl_inv c cores g' d" using ctl_inv_queued [OF _ s(2,3)] inv by (simp add: parts_inv_def)
  then have "parts_inv c cores ((g', ps), d)" using parts_inv_same [OF inv _ _ same_refl] queued_keeps(6) [OF s(2)] by blast
  moreover have "accounted g (if b then [r] else []) g' []"
    using queued_in_flight [OF s(2)] s(4) queued_keeps(2) [OF s(2)] by (simp add: accounted_def)
  ultimately show ?thesis using s(1) GPriority
    by (intro disjI1 exI [of _ g'] exI [of _ ps] exI [of _ d] exI [of _ "if b then [r] else []"] exI [of _ "[]"])
      (simp add: gctl_event_def)
qed

lemma events_ok:
  assumes "parts_inv c cores ((g, ps), d)" "\<forall>e \<in> set es. gev_ok cores d e"
  shows "(\<exists>g' ps' d' acc cbs. gctl_events D best upd c es ((g, ps), d) = Inr (((g', ps'), d'), acc, cbs) \<and>
      parts_inv c cores ((g', ps'), d') \<and> same d d' \<and> accounted g acc g' cbs) \<or>
    gctl_events D best upd c es ((g, ps), d) = Inl Refresh_not_sent \<and> 0 < ar_num_ranks (gc_refresh g)"
  using assms
proof (induction es arbitrary: g ps d)
  case Nil
  then show ?case
    by (intro disjI1 exI [of _ g] exI [of _ ps] exI [of _ d] exI [of _ "[]"]) (simp add: accounted_def)
next
  case (Cons e es)
  have "gev_ok cores d e" using Cons.prems(2) by simp
  from event_ok [OF Cons.prems(1) this] show ?case
  proof (elim disjE exE conjE)
    fix g1 ps1 d1 acc cbs
    assume 1: "gctl_event D best upd c e ((g, ps), d) = Inr (((g1, ps1), d1), acc, cbs)" "parts_inv c cores ((g1, ps1), d1)"
      "same d d1" "accounted g acc g1 cbs"
    have "\<forall>e \<in> set es. gev_ok cores d1 e" using Cons.prems(2) gev_ok_same [OF 1(3)] by simp
    from Cons.IH [OF 1(2) this] show ?thesis
    proof (elim disjE exE conjE)
      fix g2 ps2 d2 acc' cbs'
      assume 2: "gctl_events D best upd c es ((g1, ps1), d1) = Inr (((g2, ps2), d2), acc', cbs')"
        "parts_inv c cores ((g2, ps2), d2)" "same d1 d2" "accounted g1 acc' g2 cbs'"
      then show ?thesis using 1 same_trans [OF 1(3) 2(3)] accounted_trans [OF 1(4) 2(4)]
        by (intro disjI1 exI [of _ g2] exI [of _ ps2] exI [of _ d2] exI [of _ "acc @ acc'"] exI [of _ "cbs @ cbs'"])
          (simp add: sbind_def)
    next
      assume "gctl_events D best upd c es ((g1, ps1), d1) = Inl Refresh_not_sent" "0 < ar_num_ranks (gc_refresh g1)"
      then show ?thesis using 1 by (simp add: sbind_def accounted_def)
    qed
  qed (simp add: sbind_def)
qed

end

end
