(* ===== verification/Generic_Log.thy ===== *)
theory Generic_Log
  imports Generic_System
begin

text \<open>
  The commands that the generic controller issues. \<open>recording_gd ob D\<close> is the device \<open>D\<close> with a list to which
  every issued command is added, as \<open>ob\<close> sees it. Nothing reads the list: scheduler, row policy, plugins and
  controller run on it as on \<open>D\<close> (the \<open>forget\<close> lemmas), and a device of the contracts \<open>ctl_dram\<close> and
  \<open>ctl_parts\<close> keeps them while it is recorded.
\<close>

section \<open>The recording device\<close>

definition recording_gd :: "('d \<Rightarrow> int \<Rightarrow> addr_vec \<Rightarrow> 'r) \<Rightarrow> 'd gdram \<Rightarrow> ('d \<times> 'r list) gdram" where
  "recording_gd ob D = \<lparr>
     gd_preq = (\<lambda>x. gd_preq D (fst x)), gd_ready = (\<lambda>x. gd_ready D (fst x)),
     gd_issue = (\<lambda>x cmd av. map_option (\<lambda>d'. (d', ob (fst x) cmd av # snd x)) (gd_issue D (fst x) cmd av)),
     gd_rowhit = (\<lambda>x. gd_rowhit D (fst x)), gd_rowopen = (\<lambda>x. gd_rowopen D (fst x)),
     gd_translate = (\<lambda>x. gd_translate D (fst x)), gd_meta = (\<lambda>x. gd_meta D (fst x)),
     gd_scope = (\<lambda>x. gd_scope D (fst x)), gd_read_latency = (\<lambda>x. gd_read_latency D (fst x)),
     gd_tick = (\<lambda>x. (gd_tick D (fst x), snd x))\<rparr>"

lemma recording_gd_simps [simp]:
  "gd_preq (recording_gd ob D) x = gd_preq D (fst x)" "gd_ready (recording_gd ob D) x = gd_ready D (fst x)"
  "gd_issue (recording_gd ob D) x cmd av = map_option (\<lambda>d'. (d', ob (fst x) cmd av # snd x)) (gd_issue D (fst x) cmd av)"
  "gd_rowhit (recording_gd ob D) x = gd_rowhit D (fst x)" "gd_rowopen (recording_gd ob D) x = gd_rowopen D (fst x)"
  "gd_translate (recording_gd ob D) x = gd_translate D (fst x)" "gd_meta (recording_gd ob D) x = gd_meta D (fst x)"
  "gd_read_latency (recording_gd ob D) x = gd_read_latency D (fst x)"
  "gd_tick (recording_gd ob D) x = (gd_tick D (fst x), snd x)"
  by (simp_all add: recording_gd_def)

section \<open>The controller runs on it as on the device\<close>

named_theorems forget_gd \<open>functions that only read the device\<close>

lemma forget_requests [forget_gd]:
  "with_preq (recording_gd ob D) x = with_preq D (fst x)" "rq_ready (recording_gd ob D) x = rq_ready D (fst x)"
  unfolding with_preq_def [abs_def] rq_ready_def [abs_def] recording_gd_simps by (rule refl)+

lemma forget_frfcfs: "frfcfs_best (recording_gd ob D) x = frfcfs_best D (fst x)"
proof -
  have "frfcfs_compare (recording_gd ob D) x = frfcfs_compare D (fst x)"
    by (intro ext, unfold frfcfs_compare_def forget_gd) (rule refl)
  then show ?thesis by (intro ext, unfold frfcfs_best_def forget_gd) (simp only:)
qed

lemma forget_sends [forget_gd]:
  "gctl_send (recording_gd ob D) x = gctl_send D (fst x)"
  "gctl_priority_send (recording_gd ob D) x = gctl_priority_send D (fst x)"
  unfolding gctl_send_def [abs_def] gctl_priority_send_def [abs_def] recording_gd_simps by (rule refl)+

lemma forget_send_refreshes [forget_gd]: "send_refreshes (recording_gd ob D) x = send_refreshes D (fst x)"
proof (intro ext)
  show "send_refreshes (recording_gd ob D) x c ranks g = send_refreshes D (fst x) c ranks g" for c ranks g
    by (induction ranks arbitrary: g) (simp_all add: forget_gd split: option.split)
qed

lemma forget_closed_row [forget_gd]: "closed_row_update (recording_gd ob D) x = closed_row_update D (fst x)"
  by (intro ext, unfold closed_row_update_def recording_gd_simps, rule refl)

lemma forget_parts [forget_gd]:
  "refresh_tick (recording_gd ob D) x = refresh_tick D (fst x)"
  "row_policy_update (recording_gd ob D) x = row_policy_update D (fst x)"
  "send_all (recording_gd ob D) x = send_all D (fst x)"
  "best_priority (recording_gd ob D) x = best_priority D (fst x)"
  "closes_active (recording_gd ob D) x = closes_active D (fst x)"
  "update_request_stats (recording_gd ob D) x = update_request_stats D (fst x)"
  unfolding refresh_tick_def [abs_def] row_policy_update_def [abs_def] send_all_def [abs_def] best_priority_def [abs_def]
    closes_active_def [abs_def] update_request_stats_def [abs_def] forget_gd recording_gd_simps by (rule refl)+

lemma forget_schedule [forget_gd]:
  "schedule_request (recording_gd ob D) (\<lambda>x. best (fst x)) c x = schedule_request D best c (fst x)"
  by (intro ext, unfold schedule_request_def best_of_def forget_gd, rule refl)

lemma forget_plugins [forget_gd]:
  "run_plugins (recording_gd ob D) x (\<lambda>x. upd (fst x)) found ps g = run_plugins D (fst x) upd found ps g"
  by (induction ps arbitrary: g) (simp_all add: forget_gd)

text \<open>The one function that issues.\<close>

lemma forget_serve:
  "serve_request D it (g, fst x) = map_option (apsnd fst) (serve_request (recording_gd ob D) it (g, x))"
proof -
  let ?r = "request_at it g"
  have stats: "(if rq_stat_updated ?r then Some (gc_stats g) else update_request_stats (recording_gd ob D) x ?r (gc_stats g)) =
      (if rq_stat_updated ?r then Some (gc_stats g) else update_request_stats D (fst x) ?r (gc_stats g))"
    by (simp only: forget_gd)
  show ?thesis
  proof (cases "(if rq_stat_updated ?r then Some (gc_stats g) else update_request_stats D (fst x) ?r (gc_stats g))")
    case None
    then show ?thesis unfolding serve_request_def prod.case Let_def stats None by simp
  next
    case (Some st)
    show ?thesis
    proof (cases "gd_issue D (fst x) (rq_command ?r) (rq_addr_vec ?r)")
      case None
      then show ?thesis unfolding serve_request_def prod.case Let_def stats Some by simp
    next
      case issued: (Some d')
      show ?thesis
        unfolding serve_request_def prod.case Let_def stats Some
        by (simp add: issued bind_map_option map_option_bind split: prod.split bind_split)
    qed
  qed
qed

lemma forget_gctl_tick:
  "gctl_tick D best upd c (gp, fst x) =
     map_sum id (apfst (apsnd fst)) (gctl_tick (recording_gd ob D) (\<lambda>x. best (fst x)) (\<lambda>x. upd (fst x)) c (gp, x))"
proof -
  obtain g0 ps where gp: "gp = (g0, ps)" by (cases gp)
  let ?g1 = "g0\<lparr>gc_clk := gc_clk g0 + 1\<rparr>"
  obtain g2 cbs where s: "serve_completed_reads (?g1\<lparr>gc_stats := count_queues ?g1\<rparr>) = (g2, cbs)" by fastforce
  have serve: "map_option (\<lambda>(g7, d'). ((g7, ps'), d')) (serve_request D it (g6, fst x)) =
      map_option (apsnd fst) (map_option (\<lambda>(g7, d'). ((g7, ps'), d')) (serve_request (recording_gd ob D) it (g6, x)))" for ps' it g6
    unfolding forget_serve [of D it g6 x ob] by (simp add: option.map_comp comp_def split_def apsnd_def)
  show ?thesis
    unfolding gctl_tick_def prod.case gp Let_def s forget_gd serve
    by (auto simp: sbind_def bind_map_option split: sum.split option.split bind_split prod.split)
qed

lemma forget_gctl_event:
  "gctl_event D best upd c e (gp, fst x) =
     map_sum id (apfst (apsnd fst)) (gctl_event (recording_gd ob D) (\<lambda>x. best (fst x)) (\<lambda>x. upd (fst x)) c e (gp, x))"
proof (cases e)
  case GTick
  obtain g ps where gp: "gp = (g, ps)" by (cases gp)
  have "gctl_tick D best upd c ((g, ps), gd_tick D (fst x)) = map_sum id (apfst (apsnd fst))
      (gctl_tick (recording_gd ob D) (\<lambda>x. best (fst x)) (\<lambda>x. upd (fst x)) c ((g, ps), gd_tick D (fst x), snd x))"
    using forget_gctl_tick [of D best upd c "(g, ps)" "(gd_tick D (fst x), snd x)" ob] by simp
  then show ?thesis by (simp add: gctl_event_def GTick gp sbind_def split: sum.split)
next
  case (GSend r)
  then show ?thesis by (cases gp) (simp add: gctl_event_def forget_gd sbind_def split: sum.split)
next
  case (GPriority r)
  then show ?thesis by (cases gp) (simp add: gctl_event_def forget_gd split: option.split)
qed

lemma forget_gctl_events:
  "gctl_events D best upd c es (gp, fst x) =
     map_sum id (apfst (apsnd fst)) (gctl_events (recording_gd ob D) (\<lambda>x. best (fst x)) (\<lambda>x. upd (fst x)) c es (gp, x))"
proof (induction es arbitrary: gp x)
  case (Cons e es)
  let ?R = "recording_gd ob D" and ?best = "\<lambda>x. best (fst x)" and ?upd = "\<lambda>x. upd (fst x)"
  note step = forget_gctl_event [of D best upd c e gp x ob]
  show ?case
  proof (cases "gctl_event ?R ?best ?upd c e (gp, x)")
    case (Inl err)
    then show ?thesis using step by (simp add: sbind_def)
  next
    case (Inr y)
    obtain gp1 x1 acc cbs where y: "y = ((gp1, x1), acc, cbs)" by (metis surj_pair)
    with step Inr have "gctl_event D best upd c e (gp, fst x) = Inr ((gp1, fst x1), acc, cbs)" by simp
    with Inr y Cons.IH [of gp1 x1] show ?thesis by (simp add: sbind_def split: sum.split)
  qed
qed simp

section \<open>A recorded device keeps the contracts\<close>

context ctl_dram
begin

lemma recording_ctl_dram:
  assumes tick: "\<And>d l. ok d \<Longrightarrow> lg d l \<Longrightarrow> lg (gd_tick D d) l"
    and issue: "\<And>d l p av d'. ok d \<Longrightarrow> lg d l \<Longrightarrow> gd_ready D d p av = Some True \<Longrightarrow> gd_issue D d p av = Some d' \<Longrightarrow>
      lg d' (ob d p av # l)"
  shows "ctl_dram (recording_gd ob D) (\<lambda>x. best (fst x)) (\<lambda>x. ok (fst x) \<and> lg (fst x) (snd x)) (\<lambda>x. valid (fst x)) bank"
proof (intro ctl_dram.intro ctl_dram_axioms.intro request_scheduler.intro, goal_cases)
  case (1 buf d)
  then show ?case using best_total by simp
next
  case (2 d buf res buf')
  then show ?case using best_prepared by (simp add: prepared_def forget_gd)
next
  case (3 d buf res buf')
  then show ?case using best_none by blast
next
  case (4 d buf i buf')
  then show ?case using best_index by blast
next
  case (5 d buf i buf' r)
  then show ?case using best_ready by (simp add: forget_gd)
next
  case 6
  show ?case by (rule bank_nonneg)
next
  case (7 d f av)
  then show ?case by (rule valid_length)
next
  case (8 d f av)
  then show ?case using preq_total by simp
next
  case (9 d f av)
  then show ?case using stats_total by simp
next
  case (10 d f av p)
  then show ?case using issue_total by fastforce
next
  case (11 d f av p d')
  then show ?case using ok_issue issue by auto
next
  case (12 d p av d')
  then show ?case using same_issue by auto
next
  case (13 d)
  then show ?case using ok_tick tick by simp
next
  case (14 d)
  then show ?case using same_tick by simp
next
  case (15 d f av)
  then show ?case using hit_tick by simp
next
  case (16 d f av p m d')
  then show ?case using hit_open by auto
next
  case (17 d f av f' av' p m d')
  then show ?case using hit_keep by auto
qed

end

context ctl_parts
begin

lemma recording_ctl_parts:
  assumes tick: "\<And>d l. ok d \<Longrightarrow> lg d l \<Longrightarrow> lg (gd_tick D d) l"
    and issue: "\<And>d l p av d'. ok d \<Longrightarrow> lg d l \<Longrightarrow> gd_ready D d p av = Some True \<Longrightarrow> gd_issue D d p av = Some d' \<Longrightarrow>
      lg d' (ob d p av # l)"
  shows "ctl_parts (recording_gd ob D) (\<lambda>x. best (fst x)) (\<lambda>x. ok (fst x) \<and> lg (fst x) (snd x)) (\<lambda>x. valid (fst x)) bank
    (\<lambda>x. upd (fst x)) (\<lambda>x. pol_ok (fst x)) (\<lambda>x. plug_ok (fst x))"
proof -
  have rec: "ctl_dram (recording_gd ob D) (\<lambda>x. best (fst x)) (\<lambda>x. ok (fst x) \<and> lg (fst x) (snd x)) (\<lambda>x. valid (fst x)) bank"
    by (rule recording_ctl_dram) (use tick issue in blast)+
  note defs = ctl_dram.served_def [OF rec] ctl_dram.maintenance_def [OF rec] ctl_dram.same_def [OF rec]
  have served: "ctl_dram.served (recording_gd ob D) (\<lambda>x. valid (fst x)) x found = served (fst x) found" for x found
    unfolding defs served_def recording_gd_simps by (rule refl)
  have maintenance: "ctl_dram.maintenance (recording_gd ob D) (\<lambda>x. valid (fst x)) x r = maintenance (fst x) r" for x r
    unfolding defs maintenance_def recording_gd_simps by (rule refl)
  have same: "ctl_dram.same (recording_gd ob D) (\<lambda>x. valid (fst x)) x y = same (fst x) (fst y)" for x y
    unfolding defs same_def recording_gd_simps by (rule refl)
  show ?thesis
  proof (intro ctl_parts.intro ctl_parts_axioms.intro rec, goal_cases)
    case (1 d pol found)
    then show ?case using policy_step unfolding served maintenance by (simp add: forget_gd)
  next
    case (2 d p found)
    then show ?case using plugin_step unfolding served maintenance by simp
  next
    case (3 d d')
    then show ?case using parts_same unfolding same by simp
  qed
qed

end

end
