(* ===== verification/Monitors.thy ===== *)
theory Monitors
  imports Generic_Controller
begin

text \<open>
  The plugins that only watch (\<open>src/dram_controller/impl/plugin/cmd_counter.cpp\<close>, \<open>trace_recorder.cpp\<close>):
  a counter of the commands issued and a recorder of their trace. The files they write are their
  state: the counters, and the lines of the trace as clock, command name and address.
\<close>

datatype monitor =
    CommandCounter "int \<rightharpoonup> int"
  | TraceRecorder clk "(clk \<times> string \<times> addr_vec) list"

text \<open>\<open>setup\<close> of the counter; an unknown command is a configuration error.\<close>

definition counter_setup :: "name_table \<Rightarrow> string list \<Rightarrow> monitor option" where
  "counter_setup cmds names = map_option CommandCounter
     (foldlM (\<lambda>m n. map_option (\<lambda>i. m(i \<mapsto> 0)) (specdef_id cmds n)) Map.empty names)"

definition count_command :: "(int \<rightharpoonup> int) \<Rightarrow> int \<Rightarrow> (int \<rightharpoonup> int)" where
  "count_command m cmd = m(cmd \<mapsto> (case m cmd of None \<Rightarrow> 0 | Some n \<Rightarrow> n) + 1)"

definition recorder_update :: "name_table \<Rightarrow> request option \<Rightarrow> clk \<Rightarrow> (clk \<times> string \<times> addr_vec) list \<Rightarrow> monitor option" where
  "recorder_update cmds found clk0 lines = (case found of
     None \<Rightarrow> Some (TraceRecorder (clk0 + 1) lines)
   | Some r \<Rightarrow> map_option (\<lambda>name. TraceRecorder (clk0 + 1) (lines @ [(clk0 + 1, name, rq_addr_vec r)]))
       (specdef_name cmds (rq_command r)))"

definition monitor_update :: "name_table \<Rightarrow> monitor plugin" where
  "monitor_update cmds found p = (case p of
     CommandCounter m \<Rightarrow> Some (CommandCounter (case found of None \<Rightarrow> m | Some r \<Rightarrow> count_command m (rq_command r)), [])
   | TraceRecorder clk0 lines \<Rightarrow> map_option (\<lambda>p'. (p', [])) (recorder_update cmds found clk0 lines))"

text \<open>The counters of a run: what each request found adds.\<close>

fun counted :: "(int \<rightharpoonup> int) \<Rightarrow> request option list \<Rightarrow> (int \<rightharpoonup> int)" where
  "counted m [] = m"
| "counted m (None # fs) = counted m fs"
| "counted m (Some r # fs) = counted (count_command m (rq_command r)) fs"

end
