(* ===== verification/Generic_HBM3.thy ===== *)
theory Generic_HBM3
  imports Generic_Log Monitors Spare_HBM3
begin

text \<open>
  The generic controller on the HBM3 device: the device as controllers call it, the interpretation of
  \<open>ctl_dram\<close> and \<open>ctl_parts\<close> with the FRFCFS scheduler, the open-row policy and the monitor plugins, also for
  the device that records its commands, and the theorems about its histories.
\<close>

section \<open>The device\<close>

definition hbm3_gdram :: "hbm3 gdram" where
  "hbm3_gdram = \<lparr>gd_preq = hbm3_get_preq_command, gd_ready = hbm3_check_ready, gd_issue = hbm3_issue_command,
     gd_rowhit = hbm3_check_rowbuffer_hit, gd_rowopen = hbm3_check_node_open, gd_translate = (\<lambda>h. hbm3_translate),
     gd_meta = (\<lambda>h cmd. Option.bind hbm3_command_meta (\<lambda>lut. vec_at lut cmd)),
     gd_scope = (\<lambda>h cmd. vec_at (ds_scopes (hb_spec h)) cmd), gd_read_latency = hb_read_latency, gd_tick = hbm3_tick\<rparr>"

lemma hbm3_gdram_simps [simp]:
  "gd_preq hbm3_gdram = hbm3_get_preq_command" "gd_ready hbm3_gdram = hbm3_check_ready"
  "gd_issue hbm3_gdram = hbm3_issue_command" "gd_rowhit hbm3_gdram = hbm3_check_rowbuffer_hit"
  "gd_rowopen hbm3_gdram = hbm3_check_node_open" "gd_translate hbm3_gdram h = hbm3_translate"
  "gd_meta hbm3_gdram h cmd = Option.bind hbm3_command_meta (\<lambda>lut. vec_at lut cmd)"
  "gd_tick hbm3_gdram = hbm3_tick" "gd_read_latency hbm3_gdram = hb_read_latency"
  by (simp_all add: hbm3_gdram_def)

text \<open>The device in a run of legal commands, and the accesses the controller serves.\<close>

definition ctl_on :: "hbm3 \<Rightarrow> hbm3 \<Rightarrow> bool" where
  "ctl_on h0 d \<longleftrightarrow> (\<exists>cf log. hbm3_init cf = Inr h0 \<and> hbm3_run h0 log d \<and> legal_log h0 log)"

definition access_valid :: "hbm3 \<Rightarrow> int \<Rightarrow> addr_vec \<Rightarrow> bool" where
  "access_valid d f av \<longleftrightarrow> (f = cmd_RD \<or> f = cmd_WR) \<and> closed_addr d av"

lemma ctl_onE:
  assumes "ctl_on h0 d" "access_valid d f av"
  obtains cf log where "hbm3_init cf = Inr h0" "hbm3_run h0 log d" "legal_log h0 log" "closed_addr h0 av" "f = cmd_RD \<or> f = cmd_WR"
    "on_device h0 av"
  using assms on_device_run by (auto simp: ctl_on_def access_valid_def closed_addr_def)

lemma hbm3_meta:
  "gd_meta hbm3_gdram d cmd_ACT = Some (cmeta True False False False)"
  "gd_meta hbm3_gdram d cmd_PRE = Some (cmeta False True False False)"
  "gd_meta hbm3_gdram d cmd_RD = Some (cmeta False False True False)"
  "gd_meta hbm3_gdram d cmd_WR = Some (cmeta False False True False)"
  by (simp_all only: hbm3_gdram_simps) code_simp+

lemma access_preq:
  assumes "ctl_on h0 d" "access_valid d f av" "hbm3_get_preq_command d f av = Some p"
  shows "p \<in> {cmd_ACT, cmd_PRE, cmd_RD, cmd_WR}"
proof -
  from ctl_onE [OF assms(1,2)] obtain cf log where
    "hbm3_init cf = Inr h0" "hbm3_run h0 log d" "closed_addr h0 av" "f = cmd_RD \<or> f = cmd_WR" by metis
  from this show ?thesis
  proof (rule hbm3_walk)
    fix s rows
    assume "hbm3_get_preq_command d f av = Some (if s = Closed then cmd_ACT else if rows (av ! 4) = None then cmd_PRE else f)"
    then show ?thesis using assms(3) \<open>f = cmd_RD \<or> f = cmd_WR\<close> by (auto split: if_splits)
  qed
qed

text \<open>What a command does to the bank of a full address.\<close>

lemma access_bank:
  assumes "ctl_on h0 d" "access_valid d f' av'" "hbm3_get_preq_command d f' av' = Some p" "hbm3_issue_command d p av' = Some d'"
    and "length js = 3"
  shows "hbm3_bank d' ch js = map_option (if ch = av' ! 0 \<and> js = [av' ! 1, av' ! 2, av' ! 3] then bank_step p (av' ! 4) else id)
    (hbm3_bank d ch js)"
proof -
  from ctl_onE [OF assms(1,2)] obtain cf log where
    on: "hbm3_init cf = Inr h0" "hbm3_run h0 log d" "closed_addr h0 av'" by metis
  have p: "p \<in> {cmd_ACT, cmd_PRE, cmd_RD, cmd_WR}" using access_preq [OF assms(1-3)] .
  obtain a b c where js: "js = [a, b, c]" using assms(5) by (auto simp: length_Suc_conv numeral_3_eq_3)
  have "reaches_bank p av' js \<longleftrightarrow> js = [av' ! 1, av' ! 2, av' ! 3]"
    using p on(3) by (auto simp: reaches_bank_def js addr_match_def closed_addr_def)
  moreover have "0 \<le> p" "p < 16" using p by auto
  ultimately show ?thesis using hbm3_issue_banks [OF on(1,2) assms(4,5), of ch] by simp
qed

lemma hit_of_bank:
  assumes "hbm3_init cf = Inr h0" "hbm3_run h0 log d" "closed_addr h0 av" "f = cmd_RD \<or> f = cmd_WR"
  shows "\<exists>s rows. hbm3_bank d (av ! 0) [av ! 1, av ! 2, av ! 3] = Some (s, rows) \<and>
    hbm3_check_rowbuffer_hit d f av = Some (s = Opened \<and> rows (av ! 4) \<noteq> None)"
  using hbm3_walk [OF assms] by metis

lemma access_hit:
  assumes "ctl_on h0 d" "access_valid d f av"
  shows "\<exists>s rows. hbm3_bank d (av ! 0) [av ! 1, av ! 2, av ! 3] = Some (s, rows) \<and>
    hbm3_check_rowbuffer_hit d f av = Some (s = Opened \<and> rows (av ! 4) \<noteq> None)"
proof -
  from ctl_onE [OF assms] obtain cf log where
    "hbm3_init cf = Inr h0" "hbm3_run h0 log d" "closed_addr h0 av" "f = cmd_RD \<or> f = cmd_WR" by metis
  from hit_of_bank [OF this] show ?thesis .
qed

lemma access_hit_after:
  assumes "ctl_on h0 d" "access_valid d f av" "hbm3_issue_command d p av' = Some d'"
  shows "\<exists>s rows. hbm3_bank d' (av ! 0) [av ! 1, av ! 2, av ! 3] = Some (s, rows) \<and>
    hbm3_check_rowbuffer_hit d' f av = Some (s = Opened \<and> rows (av ! 4) \<noteq> None)"
proof -
  from ctl_onE [OF assms(1,2)] obtain cf log where
    on: "hbm3_init cf = Inr h0" "hbm3_run h0 log d" "closed_addr h0 av" "f = cmd_RD \<or> f = cmd_WR" by metis
  from hit_of_bank [OF on(1) hbm3_run.issue [OF on(2) assms(3)] on(3,4)] show ?thesis .
qed

interpretation ghbm: ctl_dram hbm3_gdram "frfcfs_best hbm3_gdram" "ctl_on h0" access_valid 3 for h0
proof (unfold_locales, simp_all only: hbm3_gdram_simps)
  fix d f av p d' f' av' m
  show "nat 3 < length av" if "access_valid d f av"
    using that by (auto simp: access_valid_def closed_addr_def on_device_def addr_fits_def)
  show "\<exists>p b m. hbm3_get_preq_command d f av = Some p \<and> hbm3_check_ready d p av = Some b \<and>
      Option.bind hbm3_command_meta (\<lambda>lut. vec_at lut p) = Some m" if a: "ctl_on h0 d" "access_valid d f av"
  proof -
    from ctl_onE [OF a] obtain cf log where
      on: "hbm3_init cf = Inr h0" "hbm3_run h0 log d" "closed_addr h0 av" "f = cmd_RD \<or> f = cmd_WR" "on_device h0 av" by metis
    from hbm3_walk [OF on(1-4)] obtain p where p: "hbm3_get_preq_command d f av = Some p" by metis
    note pin = access_preq [OF a p]
    then have "0 \<le> p" "p < 16" by auto
    from hbm3_check_ready_total [OF on(1,2,5) this] p show ?thesis
      using pin hbm3_meta [of d, unfolded hbm3_gdram_simps] by auto
  qed
  show "\<exists>h b. hbm3_check_rowbuffer_hit d f av = Some h \<and> hbm3_check_node_open d f av = Some b"
    if a: "ctl_on h0 d" "access_valid d f av"
  proof -
    from ctl_onE [OF a] obtain cf log where
      on: "hbm3_init cf = Inr h0" "hbm3_run h0 log d" "closed_addr h0 av" "f = cmd_RD \<or> f = cmd_WR" by metis
    from hbm3_walk [OF on] show ?thesis by metis
  qed
  show "\<exists>d'. hbm3_issue_command d p av = Some d'"
    if a: "ctl_on h0 d" "access_valid d f av" "hbm3_get_preq_command d f av = Some p"
  proof -
    from ctl_onE [OF a(1,2)] obtain cf log where
      on: "hbm3_init cf = Inr h0" "hbm3_run h0 log d" "on_device h0 av" by metis
    have "0 \<le> p" "p < 16" using access_preq [OF a] by auto
    from hbm3_issue_total [OF on this] show ?thesis .
  qed
  show "ctl_on h0 d'" if "ctl_on h0 d" "hbm3_check_ready d p av = Some True" "hbm3_issue_command d p av = Some d'"
    using that legal_issue unfolding ctl_on_def by metis
  show "access_valid d' = access_valid d \<and> hbm3_translate = hbm3_translate \<and> gd_meta hbm3_gdram d' = gd_meta hbm3_gdram d"
    if "hbm3_issue_command d p av = Some d'"
    using that on_device_count [of d' d]
    by (auto simp: hbm3_issue_command_def bind_eq_Some_conv access_valid_def closed_addr_def on_device_def fun_eq_iff)
  show "ctl_on h0 (hbm3_tick d)" if "ctl_on h0 d"
    using that hbm3_run.tick unfolding ctl_on_def by metis
  show "access_valid (hbm3_tick d) = access_valid d \<and> hbm3_translate = hbm3_translate \<and>
      gd_meta hbm3_gdram (hbm3_tick d) = gd_meta hbm3_gdram d"
    by (auto simp: hbm3_tick_def access_valid_def closed_addr_def on_device_def fun_eq_iff)
  show "hbm3_check_rowbuffer_hit (hbm3_tick d) f av = hbm3_check_rowbuffer_hit d f av"
    by (simp add: hbm3_tick_def hbm3_check_rowbuffer_hit_def hbm3_channel_def)
  show "hbm3_check_rowbuffer_hit d' f av = Some True"
    if a: "ctl_on h0 d" "access_valid d f av" "hbm3_get_preq_command d f av = Some p"
      "Option.bind hbm3_command_meta (\<lambda>lut. vec_at lut p) = Some m" "is_opening m" "hbm3_issue_command d p av = Some d'"
  proof -
    have p: "p = cmd_ACT" using access_preq [OF a(1-3)] a(4,5) hbm3_meta [of d, unfolded hbm3_gdram_simps] by (auto simp: cmeta_def)
    from access_hit [OF a(1,2)] obtain s rows where "hbm3_bank d (av ! 0) [av ! 1, av ! 2, av ! 3] = Some (s, rows)" by blast
    with access_bank [OF a(1-3,6), of "[av ! 1, av ! 2, av ! 3]" "av ! 0"] p
    have "hbm3_bank d' (av ! 0) [av ! 1, av ! 2, av ! 3] = Some (Opened, rows(av ! 4 \<mapsto> Opened))" by (simp add: bank_step_def)
    with access_hit_after [OF a(1,2,6)] show ?thesis by auto
  qed
  show "hbm3_check_rowbuffer_hit d' f av = Some True"
    if a: "ctl_on h0 d" "access_valid d f av" "hbm3_check_rowbuffer_hit d f av = Some True" "access_valid d f' av'"
      "hbm3_get_preq_command d f' av' = Some p" "Option.bind hbm3_command_meta (\<lambda>lut. vec_at lut p) = Some m"
      "\<not> (is_closing m \<and> same_bank 3 av av')" "hbm3_issue_command d p av' = Some d'"
  proof -
    let ?js = "[av ! 1, av ! 2, av ! 3]"
    from access_hit [OF a(1,2)] a(3) obtain rows where b: "hbm3_bank d (av ! 0) ?js = Some (Opened, rows)" "rows (av ! 4) \<noteq> None" by auto
    have keep: "p \<noteq> cmd_PRE" if "av ! 0 = av' ! 0" "?js = [av' ! 1, av' ! 2, av' ! 3]"
    proof
      assume "p = cmd_PRE"
      then have "is_closing m" using a(6) hbm3_meta(2) [of d, unfolded hbm3_gdram_simps] by (auto simp: cmeta_def)
      moreover have "{0..3 :: int} = {0, 1, 2, 3}" by auto
      then have "same_bank 3 av av'" using that by (simp add: same_bank_def)
      ultimately show False using a(7) by blast
    qed
    have "hbm3_bank d' (av ! 0) ?js = map_option (if av ! 0 = av' ! 0 \<and> ?js = [av' ! 1, av' ! 2, av' ! 3] then bank_step p (av' ! 4) else id)
        (Some (Opened, rows))"
      using access_bank [OF a(1,4,5,8), of ?js "av ! 0"] b(1) by simp
    moreover have "p \<in> {cmd_ACT, cmd_PRE, cmd_RD, cmd_WR}" using access_preq [OF a(1,4,5)] .
    ultimately have "\<exists>rows'. hbm3_bank d' (av ! 0) ?js = Some (Opened, rows') \<and> rows' (av ! 4) \<noteq> None"
      using b(2) keep by (auto simp: bank_step_def split: if_splits)
    with access_hit_after [OF a(1,2,8)] show ?thesis by auto
  qed
qed

text \<open>The controller with the open-row policy, and plugins that watch.\<close>

lemma access_name:
  assumes "ctl_on h0 d" "ghbm.served d (Some r)"
  shows "\<exists>name. specdef_name hbm3_commands (rq_command r) = Some name"
proof -
  have "access_valid d (rq_final r) (rq_addr_vec r)" "hbm3_get_preq_command d (rq_final r) (rq_addr_vec r) = Some (rq_command r)"
    using assms(2) by (auto simp: ghbm.served_def [of h0 for h0])
  from access_preq [OF assms(1) this] have "0 \<le> rq_command r \<and> rq_command r < 16" by auto
  then show ?thesis by (auto simp: specdef_name_def vec_at_def hbm3_commands_def)
qed

interpretation gparts: ctl_parts hbm3_gdram "frfcfs_best hbm3_gdram" "ctl_on h0" access_valid 3
  "\<lambda>d. monitor_update hbm3_commands" "\<lambda>d pol. pol = OpenRow" "\<lambda>d p. True" for h0
proof unfold_locales
  fix d pol found p
  show "\<exists>pol' rs. row_policy_update hbm3_gdram d found pol = Some (pol', rs) \<and> pol' = OpenRow \<and>
      (\<forall>r \<in> set rs. ghbm.maintenance d r)" if "pol = OpenRow"
    using that by (simp add: row_policy_update_def)
  show "\<exists>p' rs. monitor_update hbm3_commands found p = Some (p', rs) \<and> True \<and> (\<forall>r \<in> set rs. ghbm.maintenance d r)"
    if "ctl_on h0 d" "ghbm.served d found"
    using access_name [OF that(1)] that(2)
    by (cases p; cases found) (auto simp: monitor_update_def recorder_update_def)
qed simp

section \<open>The recorded device\<close>

abbreviation recorded_gdram :: "(hbm3 \<times> cmd_rec list) gdram" where
  "recorded_gdram \<equiv> recording_gd hbm3_record hbm3_gdram"

abbreviation recorded_generic_run ::
  "gctl_cfg \<Rightarrow> gev list \<Rightarrow> (gctl \<times> monitor list) \<times> hbm3 \<times> cmd_rec list \<Rightarrow>
   ctl_error + ((gctl \<times> monitor list) \<times> hbm3 \<times> cmd_rec list) \<times> request list \<times> (nat \<times> request) list" where
  "recorded_generic_run \<equiv> gctl_events recorded_gdram (frfcfs_best recorded_gdram) (\<lambda>x. monitor_update hbm3_commands)"

interpretation rgparts: ctl_parts recorded_gdram "\<lambda>x. frfcfs_best hbm3_gdram (fst x)"
  "\<lambda>x. ctl_on h0 (fst x) \<and> hbm3_logged h0 (fst x) (snd x)" "\<lambda>x. access_valid (fst x)" 3
  "\<lambda>x. monitor_update hbm3_commands" "\<lambda>x pol. pol = OpenRow" "\<lambda>x p. True" for h0
  by (rule gparts.recording_ctl_parts) (simp_all add: logged_tick logged_issue)

lemma recorded_requests:
  "rgparts.req_ok cores x = ghbm.req_ok cores (fst x)" "rgparts.sendable cores x = ghbm.sendable cores (fst x)"
  "rgparts.refreshes_ok c cores x = ghbm.refreshes_ok c cores (fst x)" "rgparts.gev_ok cores x = gparts.gev_ok cores (fst x)"
proof -
  show req: "rgparts.req_ok cores x = ghbm.req_ok cores (fst x)"
    by (intro ext) (simp add: rgparts.req_ok_def ghbm.req_ok_def)
  show send: "rgparts.sendable cores x = ghbm.sendable cores (fst x)"
    by (intro ext) (simp add: rgparts.sendable_def ghbm.sendable_def req)
  show "rgparts.refreshes_ok c cores x = ghbm.refreshes_ok c cores (fst x)"
    by (intro ext) (simp add: rgparts.refreshes_ok_def ghbm.refreshes_ok_def send)
  show "rgparts.gev_ok cores x = gparts.gev_ok cores (fst x)"
    by (intro ext) (simp add: rgparts.gev_ok_def gparts.gev_ok_def send split: gev.split)
qed

lemma recorded_parts_inv:
  "rgparts.parts_inv h0 c cores ((g, ps), d, log) \<longleftrightarrow> gparts.parts_inv h0 c cores ((g, ps), d) \<and> hbm3_logged h0 d log"
  by (auto simp: rgparts.parts_inv_def gparts.parts_inv_def rgparts.ctl_inv_def ghbm.ctl_inv_def recorded_requests)

section \<open>Histories\<close>

text \<open>A controller for a channel of a configured device, with statistics for a number of cores.\<close>

definition generic_system :: "dram_config \<Rightarrow> int \<Rightarrow> nat \<Rightarrow> hbm3 \<Rightarrow> gctl_cfg \<Rightarrow> gctl \<Rightarrow> bool" where
  "generic_system cf ch cores h0 c g \<longleftrightarrow> hbm3_init cf = Inr h0 \<and> gctl_setup (hbm3_tables h0) ch = Some c \<and>
     (\<exists>a. refresh_setup (hbm3_tables h0) (hbm3_get_timing h0) = Some a \<and> g = gctl_boot cores a OpenRow)"

text \<open>Reads and writes at full addresses of the device.\<close>

definition accesses_ok :: "hbm3 \<Rightarrow> nat \<Rightarrow> gev list \<Rightarrow> bool" where
  "accesses_ok h0 cores es \<longleftrightarrow> (\<forall>e \<in> set es. case e of GTick \<Rightarrow> True
     | GSend r \<Rightarrow> (rq_type r = type_Read \<or> rq_type r = type_Write) \<and> closed_addr h0 (rq_addr_vec r) \<and>
         (rq_source r = -1 \<or> 0 \<le> rq_source r \<and> rq_source r < int cores)
     | GPriority r \<Rightarrow> (rq_type r = type_Read \<or> rq_type r = type_Write) \<and> closed_addr h0 (rq_addr_vec r) \<and>
         (rq_source r = -1 \<or> 0 \<le> rq_source r \<and> rq_source r < int cores))"

abbreviation generic_run ::
  "gctl_cfg \<Rightarrow> gev list \<Rightarrow> (gctl \<times> monitor list) \<times> hbm3 \<Rightarrow>
   ctl_error + ((gctl \<times> monitor list) \<times> hbm3) \<times> request list \<times> (nat \<times> request) list" where
  "generic_run \<equiv> gctl_events hbm3_gdram (frfcfs_best hbm3_gdram) (\<lambda>d. monitor_update hbm3_commands)"

lemma hbm3_translate_rw: "hbm3_translate type_Read = Some cmd_RD" "hbm3_translate type_Write = Some cmd_WR"
  by code_simp+

lemma access_sendable:
  assumes "rq_type r = type_Read \<or> rq_type r = type_Write" "closed_addr h0 (rq_addr_vec r)"
    "rq_source r = -1 \<or> 0 \<le> rq_source r \<and> rq_source r < int cores"
  shows "ghbm.sendable cores h0 r"
  unfolding ghbm.sendable_def ghbm.req_ok_def
  using assms hbm3_translate_rw by (auto simp: access_valid_def)

lemma accesses_gev_ok: "accesses_ok h0 cores es \<Longrightarrow> \<forall>e \<in> set es. gparts.gev_ok cores h0 e"
  unfolding accesses_ok_def gparts.gev_ok_def using access_sendable by (fastforce split: gev.splits)

lemma hbm3_no_rank: "dt_level_size (hbm3_tables h0) ''rank'' = Some (-1)"
proof -
  have "specdef_id hbm3_levels ''rank'' = None" by code_simp
  then show ?thesis by (simp add: dt_level_size_def hbm3_tables_def)
qed

lemma hbm3_bank_level: "gctl_setup (hbm3_tables h0) ch = Some c \<Longrightarrow> gc_bank_idx c = 3"
  using hbm3_ids(4) by (auto simp: gctl_setup_def hbm3_tables_def)

lemma generic_start:
  assumes "generic_system cf ch cores h0 c g"
  shows "gparts.parts_inv h0 c cores ((g, ps), h0)" "in_flight g = {#}" "ar_num_ranks (gc_refresh g) = -1"
proof -
  from assms obtain a where a: "hbm3_init cf = Inr h0" "gctl_setup (hbm3_tables h0) ch = Some c"
    "refresh_setup (hbm3_tables h0) (hbm3_get_timing h0) = Some a" "g = gctl_boot cores a OpenRow"
    by (auto simp: generic_system_def)
  then have r: "ar_num_ranks a = -1" using hbm3_no_rank by (auto simp: refresh_setup_def bind_eq_Some_conv)
  have on: "ctl_on h0 h0" using a(1) hbm3_run.start unfolding ctl_on_def by (metis legal_log.simps(1))
  show "gparts.parts_inv h0 c cores ((g, ps), h0)"
    using on hbm3_bank_level [OF a(2)] r a(4)
    by (auto simp: gparts.parts_inv_def ghbm.ctl_inv_def gctl_boot_def all_buf_ids empty_buffer_def
        ghbm.stats_ok_def gstats_init_def ghbm.refreshes_ok_def)
  show "in_flight g = {#}" "ar_num_ranks (gc_refresh g) = -1"
    using r a(4) by (simp_all add: in_flight_alt gctl_boot_def empty_buffer_def)
qed

lemma generic_run_ok:
  assumes "generic_system cf ch cores h0 c g" "accesses_ok h0 cores es"
  shows "\<exists>g' ps' d acc cbs. generic_run c es ((g, ps), h0) = Inr (((g', ps'), d), acc, cbs) \<and>
    gparts.parts_inv h0 c cores ((g', ps'), d) \<and> tracked_origins acc = in_flight g' + mset (map (\<lambda>x. rq_origin (snd x)) cbs)"
proof -
  note start = generic_start [OF assms(1)]
  from gparts.events_ok [OF start(1) accesses_gev_ok [OF assms(2)], of ps] start(3) obtain g' ps' d acc cbs where
    "generic_run c es ((g, ps), h0) = Inr (((g', ps'), d), acc, cbs)" "gparts.parts_inv h0 c cores ((g', ps'), d)"
    "gparts.accounted g acc g' cbs" by fastforce
  then show ?thesis using start(2) by (auto simp: gparts.accounted_def)
qed

text \<open>C7: the generic controller never fails on the HBM3 device and never breaks its timing. With the
  FRFCFS scheduler, the open-row policy and any monitor plugins, every history of clock ticks and of
  reads and writes at full addresses (with priority or not) runs without an index out of range or an
  exception. Run on the device that records what it is sent, the controller does exactly the same, and the
  recorded list, one entry for each command issued, is the log of the device, and every command in it was
  timing-legal in the cycle it was issued.\<close>

theorem generic_system_safe:
  assumes "generic_system cf ch cores h0 c g" "accesses_ok h0 cores es"
  shows "\<exists>s d log acc cbs. recorded_generic_run c es ((g, ps), (h0, [])) = Inr ((s, (d, log)), acc, cbs) \<and>
    generic_run c es ((g, ps), h0) = Inr ((s, d), acc, cbs) \<and> hbm3_run h0 log d \<and> legal_log h0 log"
proof -
  note start = generic_start [OF assms(1)]
  have best: "frfcfs_best recorded_gdram = (\<lambda>x. frfcfs_best hbm3_gdram (fst x))" by (intro ext) (simp add: forget_frfcfs)
  have "hbm3_init cf = Inr h0" using assms(1) by (simp add: generic_system_def)
  then have "rgparts.parts_inv h0 c cores ((g, ps), h0, [])"
    unfolding recorded_parts_inv using start(1) logged_start by blast
  moreover have "\<forall>e \<in> set es. rgparts.gev_ok cores (h0, []) e"
    unfolding recorded_requests using accesses_gev_ok [OF assms(2)] by simp
  ultimately obtain s x acc cbs where
    run: "recorded_generic_run c es ((g, ps), h0, []) = Inr ((s, x), acc, cbs)" "rgparts.parts_inv h0 c cores (s, x)"
    unfolding best using rgparts.events_ok [of h0 c cores g ps "(h0, [])" es] start(3) by fastforce
  obtain d log g' ps' where x: "x = (d, log)" "s = (g', ps')" by (cases x; cases s)
  have "generic_run c es ((g, ps), h0) = Inr ((s, d), acc, cbs)"
    using forget_gctl_events [of hbm3_gdram "frfcfs_best hbm3_gdram" "\<lambda>d. monitor_update hbm3_commands" c es "(g, ps)" "(h0, [])" hbm3_record]
      run(1) x(1) unfolding best by simp
  moreover have "hbm3_logged h0 d log" using run(2) unfolding x recorded_parts_inv by blast
  ultimately show ?thesis using run(1) x(1) by (auto simp: hbm3_logged_def)
qed

text \<open>C8: an activation is never wasted. After any history, every request in the active buffer (the ones
  whose activation has been issued) finds its row still open: no precharge the controller issued since
  then has closed it, so the next command of the request is its column access.\<close>

theorem activated_rows_survive:
  assumes "generic_system cf ch cores h0 c g" "accesses_ok h0 cores es"
  shows "\<exists>g' ps' d acc cbs. generic_run c es ((g, ps), h0) = Inr (((g', ps'), d), acc, cbs) \<and>
    (\<forall>r \<in> set (rb_buffer (gc_active g')). hbm3_check_rowbuffer_hit d (rq_final r) (rq_addr_vec r) = Some True \<and>
       hbm3_get_preq_command d (rq_final r) (rq_addr_vec r) = Some (rq_final r))"
proof -
  from generic_run_ok [OF assms] obtain g' ps' d acc cbs where
    r: "generic_run c es ((g, ps), h0) = Inr (((g', ps'), d), acc, cbs)" "gparts.parts_inv h0 c cores ((g', ps'), d)" by blast
  then have inv: "ghbm.ctl_inv h0 c cores g' d" by (simp add: gparts.parts_inv_def)
  have "hbm3_check_rowbuffer_hit d (rq_final r) (rq_addr_vec r) = Some True \<and>
      hbm3_get_preq_command d (rq_final r) (rq_addr_vec r) = Some (rq_final r)"
    if mem: "r \<in> set (rb_buffer (gc_active g'))" for r
  proof -
    have hit: "hbm3_check_rowbuffer_hit d (rq_final r) (rq_addr_vec r) = Some True"
      using inv mem by (simp add: ghbm.ctl_inv_def)
    have "r \<in> set (rb_buffer (get_buf ActiveB g'))" using mem by simp
    then have "ctl_on h0 d" "access_valid d (rq_final r) (rq_addr_vec r)"
      using inv unfolding ghbm.ctl_inv_def ghbm.req_ok_def by blast+
    from ctl_onE [OF this] obtain cf' log where
      "hbm3_init cf' = Inr h0" "hbm3_run h0 log d" "closed_addr h0 (rq_addr_vec r)" "rq_final r = cmd_RD \<or> rq_final r = cmd_WR" by metis
    from hbm3_preq_exact [OF this] hit show ?thesis by auto
  qed
  with r(1) show ?thesis by blast
qed

text \<open>C9: reads complete exactly once. In every history, the accepted reads with a callback are, as a
  multiset and up to the fields the controller writes, the reads whose callback has been called
  together with the reads still in a queue; none is lost, duplicated or called back twice.\<close>

theorem generic_reads_once:
  assumes "generic_system cf ch cores h0 c g" "accesses_ok h0 cores es"
  shows "\<exists>g' ps' d acc cbs. generic_run c es ((g, ps), h0) = Inr (((g', ps'), d), acc, cbs) \<and>
    mset (map rq_origin (filter tracked acc)) =
      mset (map (\<lambda>x. rq_origin (snd x)) cbs) + mset (map rq_origin (filter tracked (all_requests g')))"
proof -
  from generic_run_ok [OF assms] obtain g' ps' d acc cbs where
    r: "generic_run c es ((g, ps), h0) = Inr (((g', ps'), d), acc, cbs)"
      "tracked_origins acc = in_flight g' + mset (map (\<lambda>x. rq_origin (snd x)) cbs)" by blast
  then show ?thesis
    by (intro exI [of _ g'] exI [of _ ps'] exI [of _ d] exI [of _ acc] exI [of _ cbs])
      (simp add: tracked_origins_def in_flight_def add.commute)
qed

section \<open>On the example device\<close>

definition ex_gctl :: gctl where
  "ex_gctl = gctl_boot 1 (the (refresh_setup (hbm3_tables ex_dev) (hbm3_get_timing ex_dev))) OpenRow"

definition ex_gcfg :: gctl_cfg where
  "ex_gcfg = \<lparr>gc_channel_id = 0, gc_bank_idx = 3, gc_wr_low = 0x3e4ccccd, gc_wr_high = 0x3f4ccccd\<rparr>"

definition ex_read :: "int \<Rightarrow> request" where
  "ex_read row = (request_src row type_Read 0 (Some (nat row)))\<lparr>rq_addr_vec := [0, 0, 0, 0, row, 0]\<rparr>"

definition ex_accesses :: "gev list" where
  "ex_accesses = [GSend (ex_read 5), GTick, GSend (ex_read 7), GTick, GTick]"

lemma ex_generic_system: "generic_system ex_config 0 1 ex_dev ex_gcfg ex_gctl"
proof -
  have "gctl_setup (hbm3_tables ex_dev) 0 = Some ex_gcfg"
    using hbm3_ids(4) by (simp add: gctl_setup_def hbm3_tables_def ex_gcfg_def)
  moreover have "\<exists>n. hbm3_get_timing ex_dev ''nREFI'' = Some n"
    using hbm3_latency [of ex_dev "''nREFI''"] set_timing_vals_length [OF hbm3_init_Inr(2) [OF ex_init]]
    by (simp add: hbm3_timings_def)
  moreover have "specdef_id hbm3_requests ''all-bank-refresh'' = Some 2" by code_simp
  ultimately have "\<exists>a. refresh_setup (hbm3_tables ex_dev) (hbm3_get_timing ex_dev) = Some a"
    using hbm3_no_rank by (auto simp: refresh_setup_def hbm3_tables_def)
  then show ?thesis
    using ex_init \<open>gctl_setup (hbm3_tables ex_dev) 0 = Some ex_gcfg\<close> by (auto simp: generic_system_def ex_gctl_def)
qed

lemma ex_accesses_ok: "accesses_ok ex_dev 1 ex_accesses"
  by (simp add: accesses_ok_def ex_accesses_def ex_read_def request_src_def closed_addr_def on_device_def addr_fits_def ex_count)

lemma generic_system_safe_witness:
  "\<exists>s d log acc cbs. recorded_generic_run ex_gcfg ex_accesses ((ex_gctl, [CommandCounter Map.empty]), (ex_dev, [])) =
       Inr ((s, (d, log)), acc, cbs) \<and>
     generic_run ex_gcfg ex_accesses ((ex_gctl, [CommandCounter Map.empty]), ex_dev) = Inr ((s, d), acc, cbs) \<and>
     hbm3_run ex_dev log d \<and> legal_log ex_dev log"
  using generic_system_safe [OF ex_generic_system ex_accesses_ok] .

lemma activated_rows_survive_witness:
  "\<exists>g' ps' d acc cbs. generic_run ex_gcfg ex_accesses ((ex_gctl, []), ex_dev) = Inr (((g', ps'), d), acc, cbs) \<and>
     (\<forall>r \<in> set (rb_buffer (gc_active g')). hbm3_check_rowbuffer_hit d (rq_final r) (rq_addr_vec r) = Some True)"
  using activated_rows_survive [OF ex_generic_system ex_accesses_ok, of "[]"] by fastforce

lemma generic_reads_once_witness:
  "\<exists>g' ps' d acc cbs. generic_run ex_gcfg ex_accesses ((ex_gctl, []), ex_dev) = Inr (((g', ps'), d), acc, cbs) \<and>
     mset (map rq_origin (filter tracked acc)) =
       mset (map (\<lambda>x. rq_origin (snd x)) cbs) + mset (map rq_origin (filter tracked (all_requests g')))"
  using generic_reads_once [OF ex_generic_system ex_accesses_ok, of "[]"] .

lemma frfcfs_picks_oldest_ready_witness:
  "\<exists>i buf'. frfcfs_best hbm3_gdram ex_dev [(ex_read 5)\<lparr>rq_final := 3\<rparr>, (ex_read 7)\<lparr>rq_final := 3\<rparr>] = Some (Some i, buf') \<and>
     i < length buf' \<and> length buf' = 2 \<and> (\<forall>j < length buf'. rq_ready hbm3_gdram ex_dev (buf' ! j) = Some True \<longrightarrow>
       rq_ready hbm3_gdram ex_dev (buf' ! i) = Some True)"
proof -
  let ?b = "[(ex_read 5)\<lparr>rq_final := 3\<rparr>, (ex_read 7)\<lparr>rq_final := 3\<rparr>]"
  have on: "ctl_on ex_dev ex_dev" using ex_init hbm3_run.start unfolding ctl_on_def by (metis legal_log.simps(1))
  have "\<forall>r \<in> set ?b. ghbm.req_ok 1 ex_dev r"
    by (simp add: ghbm.req_ok_def access_valid_def ex_read_def request_src_def closed_addr_def on_device_def addr_fits_def ex_count)
  then obtain res buf' where best: "frfcfs_best hbm3_gdram ex_dev ?b = Some (res, buf')"
    using frfcfs_best_total [of ?b hbm3_gdram ex_dev] ghbm.req_ready_total [OF on] by (metis surj_pair)
  from frfcfs_picks_oldest_ready [OF best] show ?thesis
    using best list_all2_lengthD by (cases res) fastforce+
qed

end
