(* ===== verification/Standard_Timing.thy ===== *)
theory Standard_Timing
  imports Dram_Access
begin

text \<open>
  What the tables of a standard must satisfy (\<open>standard_ok\<close>, the locale \<open>dram_standard\<close>), and what follows
  for every device configured from them: \<open>check_ready\<close> is exactly the timing rules applied to the log of
  the commands, every row of the constraint table is enforced, and \<open>check_ready\<close> and \<open>issue_command\<close> are
  defined for addresses that fit the organization.
\<close>

section \<open>The contract of a standard\<close>

definition standard_ok :: "standard \<Rightarrow> bool" where
  "standard_ok st \<longleftrightarrow>
     (case impl_id (st_levels st) ''row'' of None \<Rightarrow> False | Some r \<Rightarrow> 1 \<le> r) \<and>
     (case st_scopes st of None \<Rightarrow> False | Some ss \<Rightarrow> length ss = length (st_commands st) \<and> (\<forall>s \<in> set ss. 0 \<le> s)) \<and>
     st_init_states st \<noteq> None \<and> st_commands st \<noteq> [] \<and>
     actions_ok (length (st_levels st)) (length (st_commands st)) (st_levels st) (st_actions st) \<and>
     (\<forall>(n, org) \<in> set (st_org_presets st). length (org_count org) = length (st_levels st)) \<and>
     (\<forall>(n, vs) \<in> set (st_timing_presets st). length vs = length (st_timings st)) \<and>
     (\<forall>(c, latency, e) \<in> set (st_future st). impl_id (st_commands st) e \<noteq> None)"

locale dram_standard =
  fixes st :: standard
  assumes ok: "standard_ok st"
    and constraints_ok: "ti \<in> set (st_constraints st V) \<Longrightarrow> init_names_ok (st_levels st) (st_commands st) ti \<and> 1 \<le> ti_window ti"
begin

abbreviation nl :: nat where "nl \<equiv> length (st_levels st)"
abbreviation nc :: nat where "nc \<equiv> length (st_commands st)"
abbreviation depth :: nat where "depth \<equiv> node_depth (st_levels st)"

lemma row_level: "impl_id (st_levels st) ''row'' = Some (int depth + 1)"
  using ok by (auto simp: standard_ok_def node_depth_def split: option.splits)

lemma depth_less: "Suc depth < nl"
  using impl_id_range [OF row_level] by simp

lemma nc_pos: "0 < nc"
  using ok by (simp add: standard_ok_def)

section \<open>A configured device\<close>

lemma dev_spec_of_Some:
  assumes "dev_spec_of st org vs = Some sp"
  shows "st_scopes st = Some (ds_scopes sp)" "ds_commands sp = st_commands st" "ds_levels sp = st_levels st"
    "st_init_states st = Some (ds_init_states sp)" "ds_count sp = org_count org" "ds_actions sp = st_actions st"
    "ds_preqs sp = st_preqs st" "ds_rowhits sp = st_rowhits st" "ds_rowopens sp = st_rowopens st"
    "populate_timingcons (st_levels st) (st_commands st) (st_constraints st (timing_val (st_timings st) vs)) = Some (ds_timing_cons sp)"
  using assms unfolding dev_spec_of_def by (auto simp: bind_eq_Some_conv)

lemma dev_init_Inr:
  assumes "dev_init st cf = Inr d"
  shows "dev_set_organization st cf = Inr (dv_org d)" "dev_set_timing_vals st cf (dv_org d) = Inr (dv_timing_vals d)"
    "dev_spec_of st (dv_org d) (dv_timing_vals d) = Some (dv_spec d)"
    "dv_channels d = dev_create_nodes st (dv_spec d)" "dv_clk d = 0" "dv_future d = []"
    "dv_read_latency d = sum_list (map (timing_val (st_timings st) (dv_timing_vals d)) (st_read_latency st))"
  using assms unfolding dev_init_def by (auto simp: sbind_Inr split: option.splits)

definition dev_wf :: "device \<Rightarrow> bool" where
  "dev_wf d \<longleftrightarrow> dv_clk d = 0 \<and> dv_channels d = dev_create_nodes st (dv_spec d) \<and> dv_future d = [] \<and>
     dev_spec_of st (dv_org d) (dv_timing_vals d) = Some (dv_spec d)"

lemma dev_wf_init: "dev_init st cf = Inr d \<Longrightarrow> dev_wf d"
  using dev_init_Inr unfolding dev_wf_def by blast

lemma dev_wf_spec:
  assumes "dev_wf d"
  shows "st_scopes st = Some (ds_scopes (dv_spec d))" "length (ds_scopes (dv_spec d)) = nc"
    "\<forall>s \<in> set (ds_scopes (dv_spec d)). 0 \<le> s"
    "ds_commands (dv_spec d) = st_commands st" "ds_levels (dv_spec d) = st_levels st"
    "ds_actions (dv_spec d) = st_actions st" "ds_preqs (dv_spec d) = st_preqs st"
    "ds_rowhits (dv_spec d) = st_rowhits st" "ds_rowopens (dv_spec d) = st_rowopens st"
    "cons_ok nl nc (ds_timing_cons (dv_spec d)) (ds_timing_cons (dv_spec d))"
proof -
  note f = dev_spec_of_Some [of "dv_org d" "dv_timing_vals d" "dv_spec d"]
  have sp: "dev_spec_of st (dv_org d) (dv_timing_vals d) = Some (dv_spec d)" using assms by (simp add: dev_wf_def)
  show "st_scopes st = Some (ds_scopes (dv_spec d))"
    "ds_commands (dv_spec d) = st_commands st" "ds_levels (dv_spec d) = st_levels st"
    "ds_actions (dv_spec d) = st_actions st" "ds_preqs (dv_spec d) = st_preqs st"
    "ds_rowhits (dv_spec d) = st_rowhits st" "ds_rowopens (dv_spec d) = st_rowopens st"
    using f sp by simp_all
  show "length (ds_scopes (dv_spec d)) = nc" "\<forall>s \<in> set (ds_scopes (dv_spec d)). 0 \<le> s"
    using f(1) sp ok by (simp_all add: standard_ok_def)
  show "cons_ok nl nc (ds_timing_cons (dv_spec d)) (ds_timing_cons (dv_spec d))"
    using f(10) sp constraints_ok nc_pos depth_less by (intro populate_cons_ok) auto
qed

lemma length_dev_create_nodes [simp]: "length (dev_create_nodes st sp) = nat (ds_count sp ! 0)"
  by (simp add: dev_create_nodes_def)

section \<open>The run invariant\<close>

definition dev_channel_inv :: "device \<Rightarrow> cmd_rec list \<Rightarrow> nat \<Rightarrow> dnode \<Rightarrow> bool" where
  "dev_channel_inv d0 log i n \<longleftrightarrow> tree_ok (ds_count (dv_spec d0)) depth 0 (int i) n \<and>
     (\<forall>js. timing_at n js = map_option (foldr node_ev (node_log log (int i # js)))
        (timing_at (dv_channels d0 ! i) js))"

definition dev_run_inv :: "device \<Rightarrow> cmd_rec list \<Rightarrow> device \<Rightarrow> bool" where
  "dev_run_inv d0 log d \<longleftrightarrow> 0 \<le> dv_clk d \<and> length (dv_channels d) = length (dv_channels d0) \<and>
     dv_spec d = dv_spec d0 \<and> dv_timing_vals d = dv_timing_vals d0 \<and> dv_read_latency d = dv_read_latency d0 \<and> dv_org d = dv_org d0 \<and>
     (\<forall>c \<in> set log. rec_ok nl nc (ds_timing_cons (dv_spec d0)) c \<and> cr_cons c = ds_timing_cons (dv_spec d0) \<and> cr_clk c \<le> dv_clk d) \<and>
     (\<forall>i < length (dv_channels d). dev_channel_inv d0 log i (dv_channels d ! i))"

lemma dev_run_inv_start:
  assumes "dev_wf d0"
  shows "dev_run_inv d0 [] d0"
proof -
  have "dev_channel_inv d0 [] i (dv_channels d0 ! i)" if "i < length (dv_channels d0)" for i
    using assms that tree_ok_build_node
    by (simp add: dev_channel_inv_def dev_wf_def dev_create_nodes_def node_log_def
        List.map_filter_simps option.map_id)
  then show ?thesis using assms by (simp add: dev_run_inv_def dev_wf_def)
qed

lemma dev_run_inv_tick:
  assumes "dev_run_inv d0 log d" "dev_tick st d = Some d'"
  shows "dev_run_inv d0 log d'"
proof -
  note f = dev_tick_fields [OF assms(2)]
  have len: "length (dv_channels d') = length (dv_channels d)" using f(3) map_eq_imp_length_eq by blast
  have "dev_channel_inv d0 log i (dv_channels d' ! i)" if "i < length (dv_channels d')" for i
    using assms(1) that len timing_at_view [OF f(3) that] tree_ok_view [OF f(3) that]
    by (simp add: dev_run_inv_def dev_channel_inv_def)
  then show ?thesis using assms(1) f len by (auto simp: dev_run_inv_def)
qed

lemma dev_issue_Some:
  "dev_issue_command st d cmd av = Some d' \<longleftrightarrow> (\<exists>ch n n1 n2. vec_at av 0 = Some ch \<and> vec_at (dv_channels d) ch = Some n \<and>
     update_timing (ds_timing_cons (dv_spec d)) cmd av (dv_clk d) n = Some n1 \<and> update_states (dv_spec d) cmd av n1 = Some n2 \<and>
     d' = dev_check_future st cmd av (d\<lparr>dv_channels := (dv_channels d)[nat ch := n2]\<rparr>))"
  by (auto simp: dev_issue_command_def dev_states_def bind_eq_Some_conv vec_at_update vec_simps)

lemma dev_check_future_fields [simp]:
  "dv_channels (dev_check_future st cmd av d) = dv_channels d" "dv_clk (dev_check_future st cmd av d) = dv_clk d"
  "dv_spec (dev_check_future st cmd av d) = dv_spec d" "dv_timing_vals (dev_check_future st cmd av d) = dv_timing_vals d"
  "dv_read_latency (dev_check_future st cmd av d) = dv_read_latency d" "dv_org (dev_check_future st cmd av d) = dv_org d"
  by (simp_all add: dev_check_future_def split: option.split prod.split)

lemma dev_issue_fields:
  assumes "dev_issue_command st d cmd av = Some d'"
  shows "dv_clk d' = dv_clk d" "dv_spec d' = dv_spec d" "dv_timing_vals d' = dv_timing_vals d"
    "dv_read_latency d' = dv_read_latency d" "dv_org d' = dv_org d" "length (dv_channels d') = length (dv_channels d)"
  using assms by (auto simp: dev_issue_Some)

lemma dev_run_inv_issue:
  assumes inv: "dev_run_inv d0 log d" and wf: "dev_wf d0" and iss: "dev_issue_command st d cmd av = Some d'"
  shows "dev_run_inv d0 (\<lparr>cr_cons = ds_timing_cons (dv_spec d), cr_cmd = cmd, cr_addr = av, cr_clk = dv_clk d\<rparr> # log) d'"
proof -
  let ?c = "\<lparr>cr_cons = ds_timing_cons (dv_spec d), cr_cmd = cmd, cr_addr = av, cr_clk = dv_clk d\<rparr>"
  from iss obtain ch n n1 n2 where
    ch: "vec_at av 0 = Some ch" "vec_at (dv_channels d) ch = Some n" and
    n1: "update_timing (ds_timing_cons (dv_spec d)) cmd av (dv_clk d) n = Some n1" and
    n2: "update_states (dv_spec d) cmd av n1 = Some n2" and
    d': "d' = dev_check_future st cmd av (d\<lparr>dv_channels := (dv_channels d)[nat ch := n2]\<rparr>)"
    by (auto simp: dev_issue_Some)
  from ch have ch': "0 \<le> ch" "nat ch < length (dv_channels d)" "n = dv_channels d ! nat ch" "av ! 0 = ch"
    by (auto simp: vec_simps)
  have cinv: "dev_channel_inv d0 log (nat ch) n" using inv ch' by (simp add: dev_run_inv_def)
  then have tn: "tree_ok (ds_count (dv_spec d0)) depth 0 ch n" using ch' by (simp add: dev_channel_inv_def)
  have sp: "dv_spec d = dv_spec d0" using inv by (simp add: dev_run_inv_def)
  have n1': "update_timing (cr_cons ?c) (cr_cmd ?c) (cr_addr ?c) (cr_clk ?c) n = Some n1"
    using n1 by simp
  have cons: "cons_ok nl nc (ds_timing_cons (dv_spec d0)) (ds_timing_cons (dv_spec d0))" using dev_wf_spec(10) [OF wf] .
  have cmd: "0 \<le> cmd \<and> cmd < int nc"
  proof -
    obtain x cs where "n = Node x cs" by (cases n)
    with n1 obtain ts where ts: "mat_at (ds_timing_cons (dv_spec d)) (nd_level x) cmd = Some ts"
      by (auto simp: update_timing.simps bind_eq_Some_conv)
    have "tcons_dims nl nc (ds_timing_cons (dv_spec d))" using cons sp by (simp add: cons_ok_def)
    with ts show ?thesis
      by (auto simp: mat_at_def bind_eq_Some_conv tcons_dims_def dest!: vec_at_in_set
          simp: vec_simps)
  qed
  have new: "dev_channel_inv d0 (?c # log) (nat ch) n2"
  proof -
    have "timing_at n2 js = map_option (foldr node_ev (node_log (?c # log) (ch # js)))
        (timing_at (dv_channels d0 ! nat ch) js)" for js
    proof -
      have "timing_at n2 js = map_option (apply_ev (proj ?c 0 (ch # js))) (timing_at n js)"
        using timing_at_update_states [OF n2] timing_at_update_timing [OF tn n1'] by simp
      moreover have "timing_at n js = map_option (foldr node_ev (node_log log (ch # js)))
          (timing_at (dv_channels d0 ! nat ch) js)"
        using cinv ch' by (simp add: dev_channel_inv_def)
      ultimately show ?thesis
        using ch' by (cases "proj ?c 0 (ch # js)")
          (simp_all add: node_log_Cons apply_ev_def option.map_comp o_def)
    qed
    moreover have "tree_ok (ds_count (dv_spec d0)) depth 0 ch n2"
      using tree_ok_update_states [OF update_timing_tree_ok [OF tn n1] n2] .
    ultimately show ?thesis using ch' by (simp add: dev_channel_inv_def)
  qed
  have old: "dev_channel_inv d0 (?c # log) i (dv_channels d ! i)"
    if "i < length (dv_channels d)" "i \<noteq> nat ch" for i
  proof -
    have "dev_channel_inv d0 log i (dv_channels d ! i)" using inv that by (simp add: dev_run_inv_def)
    moreover have "node_log (?c # log) (int i # js) = node_log log (int i # js)" for js
      using that ch' by (auto simp: node_log_Cons)
    ultimately show ?thesis by (simp add: dev_channel_inv_def)
  qed
  show ?thesis
    using inv new old cmd ch' cons
    by (auto simp: dev_run_inv_def d' rec_ok_def nth_list_update)
qed

lemma dev_run_inv_run: "dev_run st d0 log d \<Longrightarrow> dev_wf d0 \<Longrightarrow> dev_run_inv d0 log d"
  by (induction rule: dev_run.induct)
    (auto intro: dev_run_inv_start dev_run_inv_tick dev_run_inv_issue)

section \<open>Readiness is timing legality\<close>

lemma dev_timing_at0:
  assumes "dev_wf d0" "i < length (dv_channels d0)" "timing_at (dv_channels d0 ! i) js = Some x"
  shows "length js \<le> depth \<and> fresh_timing nc (\<lambda>c. nat (max_window (ds_timing_cons (dv_spec d0) ! length js ! c))) x"
proof -
  from assms obtain x0 where x0: "node_at (build_node (dv_spec d0) depth 0 (int i)) js = Some x0"
    "x = erase_state x0"
    by (auto simp: timing_at_def dev_wf_def dev_create_nodes_def)
  from node_at_build_node [OF x0(1)] fresh_init_node [of "dv_spec d0" "int (length js)"]
  show ?thesis
    using dev_wf_spec(4) [OF assms(1)] x0(2) by (auto simp: fresh_timing_def)
qed

lemma dev_node_from_log:
  assumes "dev_wf d0" "dev_run_inv d0 log d" "i < length (dv_channels d)"
    and "node_at (dv_channels d ! i) js = Some x"
  obtains x0 where "length js \<le> depth" "fresh_timing nc
      (\<lambda>c. nat (max_window (ds_timing_cons (dv_spec d0) ! length js ! c))) x0"
    "nd_ready x = nd_ready (foldr node_ev (node_log log (int i # js)) x0)" "length (nd_ready x) = nc"
proof -
  have ci: "dev_channel_inv d0 log i (dv_channels d ! i)" and i: "i < length (dv_channels d0)"
    using assms(2,3) by (auto simp: dev_run_inv_def)
  from ci have "map_option erase_state (node_at (dv_channels d ! i) js) =
      map_option (foldr node_ev (node_log log (int i # js))) (timing_at (dv_channels d0 ! i) js)"
    by (simp add: dev_channel_inv_def timing_at_def)
  with assms(4) obtain x0 where x0: "timing_at (dv_channels d0 ! i) js = Some x0"
    "erase_state x = foldr node_ev (node_log log (int i # js)) x0"
    by (cases "timing_at (dv_channels d0 ! i) js") auto
  note fr = dev_timing_at0 [OF assms(1) i x0(1)]
  have r: "nd_ready x = nd_ready (foldr node_ev (node_log log (int i # js)) x0)"
    using arg_cong [OF x0(2), of nd_ready] by simp
  with fr have "length (nd_ready x) = nc" by (simp add: fresh_timing_def)
  with fr r that show ?thesis by blast
qed

lemma dev_node_ready_iff_due:
  assumes "dev_wf d0" "dev_run_inv d0 log d" "i < length (dv_channels d)"
    and "node_at (dv_channels d ! i) js = Some x" "0 \<le> cmd" "cmd < int nc" "-1 \<le> now"
  shows "node_ready cmd now x \<longleftrightarrow> (\<forall>y \<in> set (due (node_log log (int i # js)) cmd). y \<le> now)"
proof -
  let ?log = "node_log log (int i # js)"
  have lok: "\<forall>c \<in> set log. rec_ok nl nc (ds_timing_cons (dv_spec d0)) c"
    using assms(2) by (simp add: dev_run_inv_def)
  from dev_node_from_log [OF assms(1-4)] obtain x0 where js: "length js \<le> depth"
    and fr: "fresh_timing nc (\<lambda>c. nat (max_window (ds_timing_cons (dv_spec d0) ! length js ! c))) x0"
    and eq: "nd_ready x = nd_ready (foldr node_ev ?log x0)" by blast
  have jl: "length js < nl" using js depth_less by simp
  have "nat cmd < nc" using assms(5,6) by simp
  note r = ready_of_log [OF fr node_log_ok [OF lok jl, of "int i"] this]
  have "node_ready cmd now x \<longleftrightarrow> nd_ready x ! nat cmd \<le> now"
    using assms(7) by (auto simp: node_ready_def)
  with r [of now] eq show ?thesis using assms(5,7) by simp
qed

lemma dev_check_ready_exact:
  assumes "dev_init st cf = Inr d0" "dev_run st d0 log d" "dev_check_ready d cmd av = Some b"
  shows "b \<longleftrightarrow> dev_timing_legal d0 log cmd av (dv_clk d)"
proof -
  have wf: "dev_wf d0" using dev_wf_init assms(1) .
  have inv: "dev_run_inv d0 log d" using dev_run_inv_run [OF assms(2) wf] .
  from assms(3) obtain ch n where ch: "vec_at av 0 = Some ch" "vec_at (dv_channels d) ch = Some n"
    and b: "check_ready (dv_spec d) cmd av (dv_clk d) n = Some b"
    by (auto simp: dev_check_ready_def dev_channel_def bind_eq_Some_conv)
  from ch have ch': "0 \<le> ch" "nat ch < length (dv_channels d)" "n = dv_channels d ! nat ch" "av ! 0 = ch"
    by (auto simp: vec_simps)
  then have cinv: "dev_channel_inv d0 log (nat ch) n" using inv by (auto simp: dev_run_inv_def)
  then have tn: "tree_ok (ds_count (dv_spec d0)) depth 0 ch n" using ch' by (simp add: dev_channel_inv_def)
  have nodes: "node_at n js = None \<longleftrightarrow> node_at (dv_channels d0 ! nat ch) js = None" for js
  proof -
    have "map_option erase_state (node_at n js) = map_option (foldr node_ev (node_log log (ch # js)))
        (map_option erase_state (node_at (dv_channels d0 ! nat ch) js))"
      using cinv ch' by (simp add: dev_channel_inv_def timing_at_def)
    then show ?thesis
      by (cases "node_at n js"; cases "node_at (dv_channels d0 ! nat ch) js") auto
  qed
  have sp: "dv_spec d = dv_spec d0" using inv by (simp add: dev_run_inv_def)
  have cmd: "0 \<le> cmd \<and> cmd < int nc"
  proof -
    obtain x cs where n: "n = Node x cs" by (cases n)
    then have "node_at (dv_channels d ! nat ch) [] = Some x" using ch' by simp
    from dev_node_from_log [OF wf inv ch'(2) this] have "length (nd_ready x) = nc" by blast
    with b n show ?thesis by (auto simp: check_ready.simps bind_eq_Some_conv vec_simps)
  qed
  then have scope: "vec_at (ds_scopes (dv_spec d)) cmd = Some (ds_scopes (dv_spec d0) ! nat cmd)"
    using dev_wf_spec(2) [OF wf] by (simp add: sp vec_at_def)
  have nn: "0 \<le> ds_scopes (dv_spec d0) ! nat cmd"
    using cmd dev_wf_spec(2,3) [OF wf] by (simp add: nat_less_iff)
  have "b \<longleftrightarrow> (\<forall>js x. node_at n js = Some x \<and> int (length js) \<le> ds_scopes (dv_spec d0) ! nat cmd \<and>
      addressed av 1 js \<longrightarrow> node_ready cmd (dv_clk d) x)"
    using check_ready_iff [OF tn b scope nn] by simp
  also have "\<dots> \<longleftrightarrow> (\<forall>js. node_at n js \<noteq> None \<and> int (length js) \<le> ds_scopes (dv_spec d0) ! nat cmd \<and>
      addressed av 1 js \<longrightarrow> (\<forall>y \<in> set (due (node_log log (ch # js)) cmd). y \<le> dv_clk d))"
  proof -
    have "node_ready cmd (dv_clk d) x \<longleftrightarrow> (\<forall>y \<in> set (due (node_log log (ch # js)) cmd). y \<le> dv_clk d)"
      if "node_at n js = Some x" for js x
      using dev_node_ready_iff_due [OF wf inv ch'(2), of js x cmd "dv_clk d"] that cmd ch' inv
      by (simp add: dev_run_inv_def)
    then show ?thesis by (metis not_None_eq)
  qed
  finally show ?thesis unfolding dev_timing_legal_def ch'(4) by (simp only: nodes simp_thms)
qed

section \<open>Rows of the constraint table\<close>

lemma dev_cons_mem:
  assumes "dev_wf d0" "ti \<in> set (st_constraints st (timing_val (st_timings st) (dv_timing_vals d0)))"
    and "init_adds (st_levels st) (st_commands st) ti l p t" "0 \<le> l" "l < int nl" "0 \<le> p" "p < int nc"
  shows "t \<in> set (ds_timing_cons (dv_spec d0) ! nat l ! nat p)"
proof -
  have "dev_spec_of st (dv_org d0) (dv_timing_vals d0) = Some (dv_spec d0)" using assms(1) by (simp add: dev_wf_def)
  from populate_timingcons_mem [OF dev_spec_of_Some(10) [OF this], of l p t] assms show ?thesis by auto
qed

lemma node_log_cons:
  assumes "dev_run_inv d0 log d" "e \<in> set (node_log log path)" "path \<noteq> []"
  shows "ev_ts e = ds_timing_cons (dv_spec d0) ! (length path - 1) ! nat (ev_cmd e)" "0 \<le> ev_cmd e" "ev_cmd e < int nc"
    "ev_clk e \<le> dv_clk d"
proof -
  from assms(2) obtain c where c: "c \<in> set log" "proj c 0 path = Some e"
    by (auto simp: node_log_def map_filter_mem split: if_splits)
  have "nat (0 + int (length path) - 1) = length path - 1" using assms(3) by (cases path) auto
  with proj_fields [OF c(2)] assms(1) c(1)
  show "ev_ts e = ds_timing_cons (dv_spec d0) ! (length path - 1) ! nat (ev_cmd e)" "0 \<le> ev_cmd e" "ev_cmd e < int nc"
    "ev_clk e \<le> dv_clk d"
    by (auto simp: dev_run_inv_def rec_ok_def)
qed

text \<open>A row of the table demands a cycle of a following command at a node that has seen a preceding one.\<close>

lemma dev_row_due:
  assumes "dev_wf d0" "dev_run_inv d0 log d"
    and "ti \<in> set (st_constraints st (timing_val (st_timings st) (dv_timing_vals d0)))" "\<not> ti_sibling ti"
    and "impl_id (st_levels st) (ti_level ti) = Some l" "length path = nat l + 1"
    and "pn \<in> set (ti_preceding ti)" "impl_id (st_commands st) pn = Some p"
    and "fn \<in> set (ti_following ti)" "impl_id (st_commands st) fn = Some f"
    and "nat (ti_window ti) \<le> length (times (node_log log path) p)"
  shows "times (node_log log path) p ! nat (ti_window ti - 1) + ti_latency ti \<in> set (due (node_log log path) f)"
proof -
  have win: "1 \<le> ti_window ti" using constraints_ok assms(3) by blast
  have rng: "0 \<le> l" "l < int nl" "0 \<le> p" "p < int nc" using impl_id_range [OF assms(5)] impl_id_range [OF assms(8)] by auto
  have ne: "path \<noteq> []" "length path - 1 = nat l" using assms(6) by auto
  let ?log = "node_log log path"
  have "times ?log p \<noteq> []" using assms(11) win by auto
  from times_split [OF this] obtain es e log' where
    split: "?log = es @ e # log'" "ev_target e" "ev_cmd e = p" "times (e # log') p = times ?log p" by blast
  let ?t = "mk_tcons_entry f (ti_latency ti) (ti_window ti) (ti_sibling ti)"
  have "?t \<in> set (ds_timing_cons (dv_spec d0) ! nat l ! nat p)"
    using assms(5,7-10) rng by (intro dev_cons_mem [OF assms(1,3)]) (auto simp: init_adds_def)
  moreover have "ev_ts e = ds_timing_cons (dv_spec d0) ! nat l ! nat p"
    using node_log_cons(1) [OF assms(2) _ ne(1), of e] split ne(2) by simp
  ultimately have "?t \<in> set (ev_ts e)" by simp
  from due_intro [OF this _ _ split(2), of f log' es] split assms(4,11) win
  show ?thesis by (simp add: mk_tcons_entry_def)
qed

text \<open>An accepted command meets what is due at each addressed node down to its scope.\<close>

lemma dev_ready_due:
  assumes "dev_init st cf = Inr d0" "dev_run st d0 log d" "dev_check_ready d f av = Some True"
    and "node_at (dv_channels d0 ! nat (av ! 0)) js \<noteq> None" "addressed av 1 js"
    and "int (length js) \<le> ds_scopes (dv_spec d0) ! nat f" "y \<in> set (due (node_log log (av ! 0 # js)) f)"
  shows "y \<le> dv_clk d"
  using dev_check_ready_exact [OF assms(1-3)] assms(4-7) by (auto simp: dev_timing_legal_def)

lemma dev_row_enforced:
  assumes "dev_init st cf = Inr d0" "dev_run st d0 log d" "dev_check_ready d f av = Some True"
    and "ti \<in> set (st_constraints st (timing_val (st_timings st) (dv_timing_vals d0)))" "\<not> ti_sibling ti"
    and "impl_id (st_levels st) (ti_level ti) = Some (int (length js))"
    and "pn \<in> set (ti_preceding ti)" "impl_id (st_commands st) pn = Some p"
    and "fn \<in> set (ti_following ti)" "impl_id (st_commands st) fn = Some f"
    and "node_at (dv_channels d0 ! nat (av ! 0)) js \<noteq> None" "addressed av 1 js"
    and "int (length js) \<le> ds_scopes (dv_spec d0) ! nat f"
    and "nat (ti_window ti) \<le> length (times (node_log log (av ! 0 # js)) p)"
  shows "times (node_log log (av ! 0 # js)) p ! nat (ti_window ti - 1) + ti_latency ti \<le> dv_clk d"
proof (rule dev_ready_due [OF assms(1-3,11-13)])
  have wf: "dev_wf d0" using dev_wf_init assms(1) .
  show "times (node_log log (av ! 0 # js)) p ! nat (ti_window ti - 1) + ti_latency ti
      \<in> set (due (node_log log (av ! 0 # js)) f)"
    using assms by (intro dev_row_due [OF wf dev_run_inv_run [OF assms(2) wf] assms(4-6) _ assms(7-10)]) auto
qed

section \<open>Operations are defined\<close>

lemma dev_run_node:
  assumes "dev_wf d0" "dev_run_inv d0 log d" "dev_on st d0 av"
  shows "\<exists>n. vec_at av 0 = Some (av ! 0) \<and> vec_at (dv_channels d) (av ! 0) = Some n \<and>
    n = dv_channels d ! nat (av ! 0) \<and> nat (av ! 0) < length (dv_channels d) \<and>
    tree_ok (ds_count (dv_spec d0)) depth 0 (av ! 0) n"
proof -
  have len: "length (dv_channels d) = nat (ds_count (dv_spec d0) ! 0)"
    using assms(1,2) by (simp add: dev_run_inv_def dev_wf_def)
  have ch: "0 \<le> av ! 0" "nat (av ! 0) < length (dv_channels d)" "0 < length av"
    using assms(3) len by (auto simp: dev_on_def fits_def)
  then have "dev_channel_inv d0 log (nat (av ! 0)) (dv_channels d ! nat (av ! 0))"
    using assms(2) by (simp add: dev_run_inv_def)
  with ch show ?thesis by (auto simp: dev_channel_inv_def vec_at_def)
qed

lemma dev_check_ready_total:
  assumes "dev_init st cf = Inr d0" "dev_run st d0 log d" "dev_on st d0 av" "0 \<le> cmd" "cmd < int nc"
  shows "\<exists>b. dev_check_ready d cmd av = Some b"
proof -
  have wf: "dev_wf d0" using dev_wf_init assms(1) .
  have inv: "dev_run_inv d0 log d" using dev_run_inv_run [OF assms(2) wf] .
  from dev_run_node [OF wf inv assms(3)] obtain n where n: "vec_at av 0 = Some (av ! 0)"
    "vec_at (dv_channels d) (av ! 0) = Some n" "n = dv_channels d ! nat (av ! 0)" "nat (av ! 0) < length (dv_channels d)"
    "tree_ok (ds_count (dv_spec d0)) depth 0 (av ! 0) n" by blast
  have "\<exists>b. check_ready (dv_spec d) cmd av (dv_clk d) n = Some b"
  proof (rule check_ready_total [OF n(5), where depth = depth])
    show "\<forall>js x. node_at n js = Some x \<longrightarrow> length (nd_ready x) = nc"
      using dev_node_from_log [OF wf inv n(4)] n(3) by metis
    show "length (ds_scopes (dv_spec d)) = nc"
      using dev_wf_spec(2) [OF wf] inv by (simp add: dev_run_inv_def)
  qed (use assms(3-5) in \<open>auto simp: dev_on_def\<close>)
  then show ?thesis using n by (simp add: dev_check_ready_def dev_channel_def)
qed

lemma dev_states_total:
  assumes "dev_wf d0" "dev_run_inv d0 log d" "dev_on st d0 av" "0 \<le> cmd" "cmd < int nc"
    and "same_timing d d1"
  shows "\<exists>d'. dev_states cmd av d1 = Some d'"
proof -
  note eq = same_timing_fields [OF assms(6)]
  from dev_run_node [OF assms(1-3)] obtain n where n: "vec_at av 0 = Some (av ! 0)"
    "nat (av ! 0) < length (dv_channels d)" "0 \<le> av ! 0" "tree_ok (ds_count (dv_spec d0)) depth 0 (av ! 0) (dv_channels d ! nat (av ! 0))"
    using assms(3) by (auto simp: dev_on_def)
  have views: "map timing_view (dv_channels d1) = map timing_view (dv_channels d)" using assms(6) by (simp add: same_timing_def)
  have n1: "vec_at (dv_channels d1) (av ! 0) = Some (dv_channels d1 ! nat (av ! 0))" using n(2,3) eq(7) by (simp add: vec_at_def)
  have t1: "tree_ok (ds_count (dv_spec d0)) depth 0 (av ! 0) (dv_channels d1 ! nat (av ! 0))"
    using tree_ok_view [OF views] n eq(7) by simp
  have sp: "dv_spec d1 = dv_spec d0" using eq(1) assms(2) by (simp add: dev_run_inv_def)
  have "\<exists>n'. update_states (dv_spec d1) cmd av (dv_channels d1 ! nat (av ! 0)) = Some n'"
    using update_states_total [OF t1, of depth av nl nc "dv_spec d1" cmd] assms(3-5) dev_wf_spec [OF assms(1)] sp ok depth_less
    by (simp add: dev_on_def standard_ok_def)
  then show ?thesis using n(1) n1 by (auto simp: dev_states_def)
qed

lemma dev_issue_total:
  assumes "dev_init st cf = Inr d0" "dev_run st d0 log d" "dev_on st d0 av" "0 \<le> cmd" "cmd < int nc"
  shows "\<exists>d'. dev_issue_command st d cmd av = Some d'"
proof -
  have wf: "dev_wf d0" using dev_wf_init assms(1) .
  have inv: "dev_run_inv d0 log d" using dev_run_inv_run [OF assms(2) wf] .
  from dev_run_node [OF wf inv assms(3)] obtain n where n: "vec_at av 0 = Some (av ! 0)"
    "vec_at (dv_channels d) (av ! 0) = Some n" "tree_ok (ds_count (dv_spec d0)) depth 0 (av ! 0) n" by blast
  have sp: "dv_spec d = dv_spec d0" using inv by (simp add: dev_run_inv_def)
  have dims: "tcons_dims nl nc (ds_timing_cons (dv_spec d))"
    using dev_wf_spec(10) [OF wf] sp by (simp add: cons_ok_def)
  have av: "fits depth (ds_count (dv_spec d0)) av" using assms(3) by (simp add: dev_on_def)
  have "\<exists>n1. update_timing (ds_timing_cons (dv_spec d)) cmd av (dv_clk d) n = Some n1"
    by (rule update_timing_total [OF n(3) _ _ _ _ dims, of depth])
      (use assms(4,5) av depth_less in \<open>auto simp: fits_def\<close>)
  then obtain n1 where n1: "update_timing (ds_timing_cons (dv_spec d)) cmd av (dv_clk d) n = Some n1" ..
  have t1: "tree_ok (ds_count (dv_spec d0)) depth 0 (av ! 0) n1" using update_timing_tree_ok [OF n(3) n1] .
  have "\<exists>n2. update_states (dv_spec d) cmd av n1 = Some n2"
    by (rule update_states_total [OF t1, of depth av nl nc "dv_spec d" cmd])
      (use av assms(4,5) dev_wf_spec [OF wf] sp ok depth_less in \<open>auto simp: standard_ok_def\<close>)
  then obtain n2 where "update_states (dv_spec d) cmd av n1 = Some n2" ..
  with n n1 show ?thesis by (auto simp: dev_issue_Some)
qed

lemma future_of_log:
  "dev_run st d0 log d \<Longrightarrow> dev_wf d0 \<Longrightarrow> \<forall>fa \<in> set (dv_future d). \<exists>c \<in> set log. cr_addr c = fa_addr fa"
proof (induction rule: dev_run.induct)
  case start
  then show ?case by (simp add: dev_wf_def)
next
  case (tick log d d')
  then show ?case by (auto simp: dev_tick_fields(7))
next
  case (issue log d cmd av d')
  from issue.hyps(2) obtain n2 where "d' = dev_check_future st cmd av (d\<lparr>dv_channels := n2\<rparr>)"
    by (auto simp: dev_issue_Some)
  with issue.IH [OF issue.prems] show ?case
    by (auto simp: dev_check_future_def split: option.splits prod.splits)
qed

lemma future_end: "future_of st cmd = Some (c, latency, e) \<Longrightarrow> \<exists>i. impl_id (st_commands st) e = Some i \<and> 0 \<le> i \<and> i < int nc"
proof -
  assume "future_of st cmd = Some (c, latency, e)"
  then have "(c, latency, e) \<in> set (st_future st)" by (auto simp: future_of_def find_Some_iff in_set_conv_nth)
  then have "impl_id (st_commands st) e \<noteq> None" using ok unfolding standard_ok_def by blast
  then show ?thesis using impl_id_range by auto
qed

lemma dev_handle_total:
  assumes "dev_wf d0" "dev_run_inv d0 log d" "dev_on st d0 (fa_addr fa)" "same_timing d d1"
  shows "\<exists>d'. dev_handle_future st fa d1 = Some d'"
proof (cases "future_of st (fa_cmd fa)")
  case (Some t)
  obtain c latency e where t: "t = (c, latency, e)" by (cases t)
  with Some future_end obtain i where "impl_id (st_commands st) e = Some i" "0 \<le> i" "i < int nc" by blast
  with dev_states_total [OF assms(1-3) _ _ assms(4)] show ?thesis by (simp add: dev_handle_future_def Some t)
qed (simp add: dev_handle_future_def)

lemma same_timing_clk: "dev_run_inv d0 log d \<Longrightarrow> dev_run_inv d0 log (d\<lparr>dv_clk := dv_clk d + 1\<rparr>)"
  by (auto simp: dev_run_inv_def)

lemma dev_tick_total:
  assumes "dev_init st cf = Inr d0" "dev_run st d0 log d" "\<forall>c \<in> set log. dev_on st d0 (cr_addr c)"
  shows "\<exists>d'. dev_tick st d = Some d'"
proof -
  have wf: "dev_wf d0" using dev_wf_init assms(1) .
  let ?d = "d\<lparr>dv_clk := dv_clk d + 1\<rparr>"
  have inv: "dev_run_inv d0 log ?d" using same_timing_clk dev_run_inv_run [OF assms(2) wf] .
  have "\<forall>fa \<in> set (rev (dv_future d)). dev_on st d0 (fa_addr fa)"
    using future_of_log [OF assms(2) wf] assms(3) by fastforce
  then have "same_timing ?d d1 \<Longrightarrow>
      \<exists>d'. foldlM (\<lambda>d fa. if fa_clk fa = dv_clk d then dev_handle_future st fa d else Some d) d1 fas = Some d'"
    if "set fas \<subseteq> set (rev (dv_future d))" for fas d1
    using that
  proof (induction fas arbitrary: d1)
    case (Cons fa fas)
    have "dev_on st d0 (fa_addr fa)" using Cons.prems(2,3) by auto
    from dev_handle_total [OF wf inv this Cons.prems(1)] obtain d2 where
      d2: "dev_handle_future st fa d1 = Some d2" by blast
    with same_timing_handle same_timing_trans Cons.prems(1) have "same_timing ?d d2" by blast
    with Cons d2 show ?case by simp
  qed simp
  from this [of "rev (dv_future d)" ?d] show ?thesis
    unfolding dev_tick_def Let_def by (auto simp: bind_eq_Some_conv)
qed

end

end
