(* ===== verification/Standard_Rows.thy ===== *)
theory Standard_Rows
  imports Standard_Timing
begin

text \<open>
  The constraint table of a standard as a specification: when a row of the table forbids a command
  (\<open>row_blocks\<close>), read off the log of the commands, and the proof that \<open>check_ready\<close> answers no exactly
  when some row does.
\<close>

section \<open>When a row forbids a command\<close>

text \<open>
  A row is pending at a node for a preceding command \<open>p\<close>: for an ordinary row, less than its latency has
  passed since the window-th latest \<open>p\<close> to this node; for a sibling row, since some \<open>p\<close> to a sibling.
\<close>

definition row_pending :: "cmd_rec list \<Rightarrow> int list \<Rightarrow> int \<Rightarrow> tcons_init \<Rightarrow> clk \<Rightarrow> bool" where
  "row_pending log path p ti now \<longleftrightarrow>
     (if ti_sibling ti
      then \<exists>e \<in> set (node_log log path). \<not> ev_target e \<and> ev_cmd e = p \<and> now < ev_clk e + ti_latency ti
      else let ts = times (node_log log path) p; w = nat (ti_window ti)
           in w \<le> length ts \<and> now < ts ! (w - 1) + ti_latency ti)"

text \<open>
  The row concerns the command at a node of its level that the address names, no deeper than the scope of
  the command.
\<close>

definition row_blocks :: "standard \<Rightarrow> device \<Rightarrow> cmd_rec list \<Rightarrow> int \<Rightarrow> addr_vec \<Rightarrow> clk \<Rightarrow> tcons_init \<Rightarrow> bool" where
  "row_blocks st d0 log f av now ti \<longleftrightarrow>
     (\<exists>fn \<in> set (ti_following ti). impl_id (st_commands st) fn = Some f) \<and>
     (\<exists>js. node_at (dv_channels d0 ! nat (av ! 0)) js \<noteq> None \<and> addressed av 1 js \<and>
        int (length js) \<le> ds_scopes (dv_spec d0) ! nat f \<and>
        impl_id (st_levels st) (ti_level ti) = Some (int (length js)) \<and>
        (\<exists>pn \<in> set (ti_preceding ti). \<exists>p. impl_id (st_commands st) pn = Some p \<and>
           row_pending log (av ! 0 # js) p ti now))"

section \<open>Demanded cycles, one event at a time\<close>

lemma due_mem:
  "y \<in> set (due log f) \<longleftrightarrow> (\<exists>es e log' t. log = es @ e # log' \<and> t \<in> set (ev_ts e) \<and> tc_cmd t = f \<and> entry_due e log' t = Some y)"
proof (induction log)
  case Nil
  then show ?case by simp
next
  case (Cons e log)
  have "y \<in> set (due (e # log) f) \<longleftrightarrow> (\<exists>t \<in> set (ev_ts e). tc_cmd t = f \<and> entry_due e log t = Some y) \<or> y \<in> set (due log f)"
    by (simp add: due_Cons_mem del: due.simps)
  also have "\<dots> \<longleftrightarrow> (\<exists>es e' log' t. e # log = es @ e' # log' \<and> t \<in> set (ev_ts e') \<and> tc_cmd t = f \<and> entry_due e' log' t = Some y)"
    unfolding Cons.IH by (auto simp: Cons_eq_append_conv)
  finally show ?case .
qed

text \<open>The clocks of a log run backwards.\<close>

definition falling :: "nev list \<Rightarrow> bool" where
  "falling log \<longleftrightarrow> sorted_wrt (\<lambda>a b. ev_clk b \<le> ev_clk a) log"

lemma falling_times:
  assumes "falling (es @ log)" "k < length (times log c)"
  shows "k < length (times (es @ log) c)" "times log c ! k \<le> times (es @ log) c ! k"
proof -
  have eq: "times (es @ log) c = times es c @ times log c" by (simp add: times_def)
  show len: "k < length (times (es @ log) c)" using assms(2) by (simp add: eq)
  let ?ts = "times (es @ log) c"
  have desc: "sorted_wrt (\<lambda>a b. b \<le> a) ?ts"
    using assms(1) sorted_wrt_filter unfolding falling_def times_def sorted_wrt_map by blast
  have "times log c ! k = ?ts ! (length (times es c) + k)" by (simp add: eq nth_append)
  also have "\<dots> \<le> ?ts ! k"
  proof (cases "times es c")
    case (Cons t ts)
    then have "k < length (times es c) + k" "length (times es c) + k < length ?ts" using assms(2) by (auto simp: eq)
    with desc show ?thesis by (auto simp: sorted_wrt_iff_nth_less)
  qed simp
  finally show "times log c ! k \<le> ?ts ! k" .
qed

section \<open>Rows and demanded cycles\<close>

context dram_standard
begin

lemma run_falling: "dev_run st d0 log d \<Longrightarrow> dev_wf d0 \<Longrightarrow> sorted_wrt (\<lambda>a b. cr_clk b \<le> cr_clk a) log"
proof (induction rule: dev_run.induct)
  case (issue log d cmd av d')
  from dev_run_inv_run [OF issue.hyps(1) issue.prems] have "\<forall>c \<in> set log. cr_clk c \<le> dv_clk d"
    by (simp add: dev_run_inv_def)
  with issue show ?case by simp
qed simp_all

lemma node_log_falling: "sorted_wrt (\<lambda>a b. cr_clk b \<le> cr_clk a) log \<Longrightarrow> falling (node_log log path)"
proof (induction log)
  case Nil
  then show ?case by (simp add: node_log_def falling_def List.map_filter_simps)
next
  case (Cons c log)
  have "ev_clk e \<le> cr_clk c" if "e \<in> set (node_log log path)" for e
    using that Cons.prems by (auto simp: node_log_def map_filter_mem split: if_splits dest!: proj_fields)
  with Cons show ?case
    by (auto simp: node_log_Cons falling_def split: option.splits dest!: proj_fields)
qed

text \<open>The rows behind the entries of a node's events, and the other way round.\<close>

lemma due_pending:
  assumes "dev_wf d0" "dev_run st d0 log d" "length js < nl" "0 \<le> f" "f < int nc"
  shows "(\<exists>y \<in> set (due (node_log log (i # js)) f). now < y) \<longleftrightarrow>
    (\<exists>ti \<in> set (st_constraints st (timing_val (st_timings st) (dv_timing_vals d0))).
       (\<exists>fn \<in> set (ti_following ti). impl_id (st_commands st) fn = Some f) \<and>
       impl_id (st_levels st) (ti_level ti) = Some (int (length js)) \<and>
       (\<exists>pn \<in> set (ti_preceding ti). \<exists>p. impl_id (st_commands st) pn = Some p \<and> row_pending log (i # js) p ti now))"
    (is "?L \<longleftrightarrow> (\<exists>ti \<in> ?rows. ?R ti)")
proof
  let ?log = "node_log log (i # js)"
  have inv: "dev_run_inv d0 log d" using dev_run_inv_run [OF assms(2,1)] .
  have fall: "falling ?log" using node_log_falling run_falling assms(1,2) by blast
  assume ?L
  then obtain y where "y \<in> set (due ?log f)" and late: "now < y" by blast
  then obtain es e log' t where y: "now < y" "?log = es @ e # log'" "t \<in> set (ev_ts e)" "tc_cmd t = f"
    "entry_due e log' t = Some y" unfolding due_mem by metis
  have mem: "e \<in> set ?log" using y(2) by simp
  note ev = node_log_cons [OF inv mem]
  have t: "t \<in> set (ds_timing_cons (dv_spec d0) ! nat (int (length js)) ! nat (ev_cmd e))" using ev(1) y(3) by simp
  have "dev_spec_of st (dv_org d0) (dv_timing_vals d0) = Some (dv_spec d0)" using assms(1) by (simp add: dev_wf_def)
  from populate_timingcons_mem [OF dev_spec_of_Some(10) [OF this], of "int (length js)" "ev_cmd e"] t ev(2,3) assms(3)
  obtain ti where ti: "ti \<in> ?rows" "init_adds (st_levels st) (st_commands st) ti (int (length js)) (ev_cmd e) t" by auto
  then have win: "1 \<le> ti_window ti" using constraints_ok by blast
  from ti(2) y(4) win have tf: "tc_val t = ti_latency ti" "tc_window t = ti_window ti" "tc_sibling t = ti_sibling ti"
    by (auto simp: init_adds_def mk_tcons_entry_def)
  have "row_pending log (i # js) (ev_cmd e) ti now"
  proof (cases "ti_sibling ti")
    case True
    with y(1,5) tf mem show ?thesis by (auto simp: row_pending_def entry_due_def split: if_splits)
  next
    case False
    let ?k = "nat (ti_window ti - 1)"
    from False y(5) tf have k: "?k < length (times (e # log') (ev_cmd e))" "y = times (e # log') (ev_cmd e) ! ?k + ti_latency ti"
      by (auto simp: entry_due_def Let_def split: if_splits)
    from falling_times [OF _ k(1), of es] fall y(1,2) k(2)
    have "?k < length (times ?log (ev_cmd e))" "now < times ?log (ev_cmd e) ! ?k + ti_latency ti" by auto
    moreover have "?k = nat (ti_window ti) - 1" using win by simp
    ultimately show ?thesis using False win by (auto simp: row_pending_def Let_def)
  qed
  with ti y(4) show "\<exists>ti \<in> ?rows. ?R ti" by (fastforce simp: init_adds_def mk_tcons_entry_def)
next
  let ?log = "node_log log (i # js)"
  have inv: "dev_run_inv d0 log d" using dev_run_inv_run [OF assms(2,1)] .
  assume "\<exists>ti \<in> ?rows. ?R ti"
  then obtain ti fn pn p where ti: "ti \<in> ?rows" "fn \<in> set (ti_following ti)" "impl_id (st_commands st) fn = Some f"
    "impl_id (st_levels st) (ti_level ti) = Some (int (length js))" "pn \<in> set (ti_preceding ti)"
    "impl_id (st_commands st) pn = Some p" and pend: "row_pending log (i # js) p ti now" by blast
  show ?L
  proof (cases "ti_sibling ti")
    case False
    from pend False have w: "nat (ti_window ti) \<le> length (times ?log p)"
      "now < times ?log p ! (nat (ti_window ti) - 1) + ti_latency ti" by (auto simp: row_pending_def Let_def)
    have "nat (ti_window ti - 1) = nat (ti_window ti) - 1" by simp
    with dev_row_due [OF assms(1) inv ti(1) False ti(4) _ ti(5,6,2,3) w(1)] w(2) show ?thesis by force
  next
    case True
    then obtain e where e: "e \<in> set ?log" "\<not> ev_target e" "ev_cmd e = p" "now < ev_clk e + ti_latency ti"
      using pend by (auto simp: row_pending_def)
    let ?t = "mk_tcons_entry f (ti_latency ti) (ti_window ti) (ti_sibling ti)"
    have "?t \<in> set (ds_timing_cons (dv_spec d0) ! nat (int (length js)) ! nat p)"
      using ti assms(3) impl_id_range [OF ti(6)] by (intro dev_cons_mem [OF assms(1) ti(1)]) (auto simp: init_adds_def)
    then have t: "?t \<in> set (ev_ts e)" using node_log_cons(1) [OF inv e(1)] e(3) by simp
    obtain es log' where "?log = es @ e # log'" using e(1) split_list by fastforce
    with t e True have "ev_clk e + ti_latency ti \<in> set (due ?log f)"
      unfolding due_mem by (intro exI [of _ es] exI [of _ e] exI [of _ log'] exI [of _ ?t])
        (simp add: entry_due_def mk_tcons_entry_def)
    with e(4) show ?thesis by blast
  qed
qed

text \<open>\<open>check_ready\<close> refuses a command exactly when a row of the table blocks it.\<close>

lemma dev_check_ready_rows:
  assumes "dev_init st cf = Inr d0" "dev_run st d0 log d" "dev_check_ready d f av = Some b" "0 \<le> f" "f < int nc"
  shows "b \<longleftrightarrow> (\<forall>ti \<in> set (st_constraints st (timing_val (st_timings st) (dv_timing_vals d0))).
    \<not> row_blocks st d0 log f av (dv_clk d) ti)"
proof -
  have wf: "dev_wf d0" using dev_wf_init assms(1) .
  have len: "length js < nl" if "node_at (dv_channels d0 ! nat (av ! 0)) js \<noteq> None" "nat (av ! 0) < length (dv_channels d0)" for js
    using dev_timing_at0 [OF wf that(2), of js] that(1) depth_less by (fastforce simp: timing_at_def)
  have ch: "nat (av ! 0) < length (dv_channels d0)"
    using assms(3) dev_run_inv_run [OF assms(2) wf]
    by (auto simp: dev_check_ready_def dev_channel_def bind_eq_Some_conv vec_simps dev_run_inv_def)
  let ?rows = "set (st_constraints st (timing_val (st_timings st) (dv_timing_vals d0)))"
  let ?named = "\<lambda>js. node_at (dv_channels d0 ! nat (av ! 0)) js \<noteq> None \<and> addressed av 1 js \<and>
      int (length js) \<le> ds_scopes (dv_spec d0) ! nat f"
  have "\<not> b \<longleftrightarrow> (\<exists>js. ?named js \<and> (\<exists>y \<in> set (due (node_log log (av ! 0 # js)) f). dv_clk d < y))"
    unfolding dev_check_ready_exact [OF assms(1-3)] dev_timing_legal_def by (auto simp: not_le)
  also have "\<dots> \<longleftrightarrow> (\<exists>js. ?named js \<and> (\<exists>ti \<in> ?rows.
       (\<exists>fn \<in> set (ti_following ti). impl_id (st_commands st) fn = Some f) \<and>
       impl_id (st_levels st) (ti_level ti) = Some (int (length js)) \<and>
       (\<exists>pn \<in> set (ti_preceding ti). \<exists>p. impl_id (st_commands st) pn = Some p \<and>
          row_pending log (av ! 0 # js) p ti (dv_clk d))))"
    using due_pending [OF wf assms(2) len [OF _ ch] assms(4,5)] by (intro ex_cong1 conj_cong refl) blast
  also have "\<dots> \<longleftrightarrow> (\<exists>ti \<in> ?rows. row_blocks st d0 log f av (dv_clk d) ti)"
    unfolding row_blocks_def by blast
  finally show ?thesis by blast
qed

end

end
