(* ===== verification/DDR3_Device.thy ===== *)
theory DDR3_Device
  imports Dram_Standard
begin

text \<open>
  The DDR3 device of \<open>src/dram/impl/DDR3.cpp\<close> as a value of \<open>standard\<close>: the presets, name tables and look-up
  tables, the function matrices, the timing constraints, and the timings computed from the organization.
\<close>

section \<open>Presets\<close>

definition ddr3_org_presets :: "(string \<times> organization) list" where
  "ddr3_org_presets = 
    [(''DDR3_1Gb_x4'', \<lparr>org_density = 2 ^ 10, org_dq = 4, org_count = [1, 1, 8, 2 ^ 14, 2 ^ 11]\<rparr>),
     (''DDR3_1Gb_x8'', \<lparr>org_density = 2 ^ 10, org_dq = 8, org_count = [1, 1, 8, 2 ^ 14, 2 ^ 10]\<rparr>),
     (''DDR3_1Gb_x16'', \<lparr>org_density = 2 ^ 10, org_dq = 16, org_count = [1, 1, 8, 2 ^ 13, 2 ^ 10]\<rparr>),
     (''DDR3_2Gb_x4'', \<lparr>org_density = 2 * 2 ^ 10, org_dq = 4, org_count = [1, 1, 8, 2 ^ 15, 2 ^ 11]\<rparr>),
     (''DDR3_2Gb_x8'', \<lparr>org_density = 2 * 2 ^ 10, org_dq = 8, org_count = [1, 1, 8, 2 ^ 15, 2 ^ 10]\<rparr>),
     (''DDR3_2Gb_x16'', \<lparr>org_density = 2 * 2 ^ 10, org_dq = 16, org_count = [1, 1, 8, 2 ^ 14, 2 ^ 10]\<rparr>),
     (''DDR3_4Gb_x4'', \<lparr>org_density = 4 * 2 ^ 10, org_dq = 4, org_count = [1, 1, 8, 2 ^ 16, 2 ^ 11]\<rparr>),
     (''DDR3_4Gb_x8'', \<lparr>org_density = 4 * 2 ^ 10, org_dq = 8, org_count = [1, 1, 8, 2 ^ 16, 2 ^ 10]\<rparr>),
     (''DDR3_4Gb_x16'', \<lparr>org_density = 4 * 2 ^ 10, org_dq = 16, org_count = [1, 1, 8, 2 ^ 15, 2 ^ 10]\<rparr>),
     (''DDR3_8Gb_x4'', \<lparr>org_density = 8 * 2 ^ 10, org_dq = 4, org_count = [1, 1, 8, 2 ^ 17, 2 ^ 11]\<rparr>),
     (''DDR3_8Gb_x8'', \<lparr>org_density = 8 * 2 ^ 10, org_dq = 8, org_count = [1, 1, 8, 2 ^ 17, 2 ^ 10]\<rparr>),
     (''DDR3_8Gb_x16'', \<lparr>org_density = 8 * 2 ^ 10, org_dq = 16, org_count = [1, 1, 8, 2 ^ 16, 2 ^ 10]\<rparr>)]"

definition ddr3_timing_presets :: "(string \<times> int list) list" where
  "ddr3_timing_presets = 
    [(''DDR3_800D'', [800, 4, 5, 5, 5, 15, 20, 6, 4, 9, 4, -1, 4, -1, -1, -1, 2, 2500]),
     (''DDR3_800E'', [800, 4, 5, 5, 5, 15, 20, 6, 4, 9, 4, -1, 4, -1, -1, -1, 2, 2500]),
     (''DDR3_1066E'', [1066, 4, 6, 6, 6, 20, 26, 8, 4, 9, 4, -1, 4, -1, -1, -1, 2, 1875]),
     (''DDR3_1066F'', [1066, 4, 7, 7, 7, 20, 27, 8, 4, 9, 4, -1, 4, -1, -1, -1, 2, 1875]),
     (''DDR3_1066G'', [1066, 4, 8, 8, 8, 20, 28, 8, 4, 9, 4, -1, 4, -1, -1, -1, 2, 1875]),
     (''DDR3_1333G'', [1333, 4, 8, 8, 8, 24, 32, 10, 5, 9, 4, -1, 5, -1, -1, -1, 2, 1500]),
     (''DDR3_1333H'', [1333, 4, 9, 9, 9, 24, 33, 10, 5, 9, 4, -1, 5, -1, -1, -1, 2, 1500]),
     (''DDR3_1600H'', [1600, 4, 9, 9, 9, 28, 37, 12, 6, 9, 4, -1, 6, -1, -1, -1, 2, 1250]),
     (''DDR3_1600J'', [1600, 4, 10, 10, 10, 28, 38, 12, 6, 9, 4, -1, 6, -1, -1, -1, 2, 1250]),
     (''DDR3_1600K'', [1600, 4, 11, 11, 11, 28, 39, 12, 6, 9, 4, -1, 6, -1, -1, -1, 2, 1250]),
     (''DDR3_1866K'', [1866, 4, 11, 11, 11, 32, 43, 14, 7, 9, 4, -1, 7, -1, -1, -1, 2, 1071]),
     (''DDR3_1866L'', [1866, 4, 12, 12, 12, 32, 44, 14, 7, 9, 4, -1, 7, -1, -1, -1, 2, 1071]),
     (''DDR3_2133L'', [2133, 4, 12, 12, 12, 36, 48, 16, 8, 9, 4, -1, 8, -1, -1, -1, 2, 937]),
     (''DDR3_2133M'', [2133, 4, 13, 13, 13, 36, 49, 16, 8, 9, 4, -1, 8, -1, -1, -1, 2, 937])]"

section \<open>Organization, commands, requests\<close>

definition ddr3_levels :: "name_table" where
  "ddr3_levels = 
    [''channel'', ''rank'', ''bank'', ''row'', ''column'']"

definition ddr3_commands :: "name_table" where
  "ddr3_commands = 
    [''ACT'', ''PRE'', ''PREA'', ''RD'', ''WR'', ''RDA'', ''WRA'', ''REFab'']"

definition ddr3_scopes :: "int list option" where
  "ddr3_scopes = lut_ids ddr3_commands ddr3_levels
    [(''ACT'', ''row''), (''PRE'', ''bank''), (''PREA'', ''rank''), (''RD'', ''column''),
     (''WR'', ''column''), (''RDA'', ''column''), (''WRA'', ''column''), (''REFab'', ''rank'')]"

definition ddr3_meta :: "command_meta list option" where
  "ddr3_meta = lut_vals ddr3_commands
    [(''ACT'', cmeta True False False False), (''PRE'', cmeta False True False False),
     (''PREA'', cmeta False True False False), (''RD'', cmeta False False True False),
     (''WR'', cmeta False False True False), (''RDA'', cmeta False True True False),
     (''WRA'', cmeta False True True False), (''REFab'', cmeta False False False True)]"

definition ddr3_requests :: "name_table" where
  "ddr3_requests = 
    [''read'', ''write'', ''all-bank-refresh'']"

definition ddr3_translations :: "int list option" where
  "ddr3_translations = lut_ids ddr3_requests ddr3_commands
    [(''read'', ''RD''), (''write'', ''WR''), (''all-bank-refresh'', ''REFab'')]"

definition ddr3_timings :: "name_table" where
  "ddr3_timings = 
    [''rate'', ''nBL'', ''nCL'', ''nRCD'', ''nRP'', ''nRAS'', ''nRC'', ''nWR'', ''nRTP'', ''nCWL'',
     ''nCCD'', ''nRRD'', ''nWTR'', ''nFAW'', ''nRFC'', ''nREFI'', ''nCS'', ''tCK_ps'']"

definition ddr3_states :: "name_table" where
  "ddr3_states = 
    [''Opened'', ''Closed'', ''PowerUp'', ''N/A'', ''Refreshing'']"

definition ddr3_init_states :: "node_state list option" where
  "ddr3_init_states = lut_states ddr3_levels ddr3_states
    [(''channel'', ''N/A''), (''rank'', ''PowerUp''), (''bank'', ''Closed''), (''row'', ''Closed''),
     (''column'', ''N/A'')]"

section \<open>Function matrices\<close>

definition ddr3_actions :: "action_fn option list list" where
  "ddr3_actions = fn_matrix ddr3_levels ddr3_commands
    [((''rank'', ''PREA''), Rank_PREab), ((''bank'', ''ACT''), Bank_ACT),
     ((''bank'', ''PRE''), Bank_PRE), ((''bank'', ''RDA''), Bank_PRE), ((''bank'', ''WRA''), Bank_PRE)]"

definition ddr3_preqs :: "preq_fn option list list" where
  "ddr3_preqs = fn_matrix ddr3_levels ddr3_commands
    [((''rank'', ''REFab''), Rank_RequireAllBanksClosed), ((''bank'', ''RD''), Bank_RequireRowOpen),
     ((''bank'', ''WR''), Bank_RequireRowOpen)]"

definition ddr3_rowhits :: "rowhit_fn option list list" where
  "ddr3_rowhits = fn_matrix ddr3_levels ddr3_commands
    [((''bank'', ''RD''), RowHit_RDWR), ((''bank'', ''WR''), RowHit_RDWR)]"

definition ddr3_rowopens :: "rowopen_fn option list list" where
  "ddr3_rowopens = fn_matrix ddr3_levels ddr3_commands
    [((''bank'', ''RD''), RowOpen_RDWR), ((''bank'', ''WR''), RowOpen_RDWR)]"

section \<open>Timing constraints\<close>

definition ddr3_constraints :: "(string \<Rightarrow> int) \<Rightarrow> tcons_init list" where
  "ddr3_constraints V =
    [tinit ''channel'' [''RD'', ''RDA''] [''RD'', ''RDA''] (V ''nBL''),
     tinit ''channel'' [''WR'', ''WRA''] [''WR'', ''WRA''] (V ''nBL''),
     tinit ''rank'' [''RD'', ''RDA''] [''RD'', ''RDA''] (V ''nCCD''),
     tinit ''rank'' [''WR'', ''WRA''] [''WR'', ''WRA''] (V ''nCCD''),
     tinit ''rank'' [''RD'', ''RDA''] [''WR'', ''WRA''] (V ''nCL'' + V ''nBL'' + 2 - V ''nCWL''),
     tinit ''rank'' [''WR'', ''WRA''] [''RD'', ''RDA''] (V ''nCWL'' + V ''nBL'' + V ''nWTR''),
     tinit_sibling ''rank'' [''RD'', ''RDA''] [''RD'', ''RDA'', ''WR'', ''WRA''] (V ''nBL'' + V ''nCS''),
     tinit_sibling ''rank'' [''WR'', ''WRA''] [''RD'', ''RDA''] (V ''nCL'' + V ''nBL'' + V ''nCS'' - V ''nCWL''),
     tinit ''rank'' [''RD''] [''PREA''] (V ''nRTP''),
     tinit ''rank'' [''WR''] [''PREA''] (V ''nCWL'' + V ''nBL'' + V ''nWR''),
     tinit ''rank'' [''ACT''] [''ACT''] (V ''nRRD''),
     tinit_window ''rank'' [''ACT''] [''ACT''] (V ''nFAW'') 4,
     tinit ''rank'' [''ACT''] [''PREA''] (V ''nRAS''),
     tinit ''rank'' [''PREA''] [''ACT''] (V ''nRP''),
     tinit ''rank'' [''ACT''] [''REFab''] (V ''nRC''),
     tinit ''rank'' [''PRE'', ''PREA''] [''REFab''] (V ''nRP''),
     tinit ''rank'' [''RDA''] [''REFab''] (V ''nRP'' + V ''nRTP''),
     tinit ''rank'' [''WRA''] [''REFab''] (V ''nCWL'' + V ''nBL'' + V ''nWR'' + V ''nRP''),
     tinit ''rank'' [''REFab''] [''ACT''] (V ''nRFC''),
     tinit ''bank'' [''ACT''] [''ACT''] (V ''nRC''),
     tinit ''bank'' [''ACT''] [''RD'', ''RDA'', ''WR'', ''WRA''] (V ''nRCD''),
     tinit ''bank'' [''ACT''] [''PRE''] (V ''nRAS''),
     tinit ''bank'' [''PRE''] [''ACT''] (V ''nRP''),
     tinit ''bank'' [''RD''] [''PRE''] (V ''nRTP''),
     tinit ''bank'' [''WR''] [''PRE''] (V ''nCWL'' + V ''nBL'' + V ''nWR''),
     tinit ''bank'' [''RDA''] [''ACT''] (V ''nRTP'' + V ''nRP''),
     tinit ''bank'' [''WRA''] [''ACT''] (V ''nCWL'' + V ''nBL'' + V ''nWR'' + V ''nRP'')]"

section \<open>Configuration\<close>

definition ddr3_density :: "string list" where
  "ddr3_density = [''bank'', ''row'', ''column'']"

definition ddr3_nRRD_TABLE :: "int list list" where
  "ddr3_nRRD_TABLE = [[4, 4, 4, 5, 5, 6], [4, 4, 4, 5, 5, 6], [4, 6, 5, 6, 6, 7]]"

definition ddr3_nFAW_TABLE :: "int list list" where
  "ddr3_nFAW_TABLE = [[16, 20, 20, 24, 26, 27], [16, 20, 20, 24, 26, 27], [20, 27, 30, 32, 33, 34]]"

definition ddr3_tRFC_TABLE :: "int list" where
  "ddr3_tRFC_TABLE = [110, 160, 260, 350]"

definition ddr3_secondary :: "organization \<Rightarrow> int \<Rightarrow> int list \<Rightarrow> config_error + int list" where
  "ddr3_secondary org tck vs =
     (let ts = ddr3_timings; rate = timing_val ts vs ''rate'';
          vs1 = (case (case_id [4, 8, 16] (org_dq org), case_id [800, 1066, 1333, 1600, 1866, 2133] rate) of
              (Some q, Some r) \<Rightarrow> set_timings ts
                [(''nRRD'', ddr3_nRRD_TABLE ! q ! r), (''nFAW'', ddr3_nFAW_TABLE ! q ! r)] vs
            | _ \<Rightarrow> vs)
      in case case_id [1024, 2048, 4096, 8192] (org_density org) of
           None \<Rightarrow> Inl Undefined_behaviour
         | Some k \<Rightarrow> Inr (set_timings ts
             [(''nRFC'', i32 (JEDEC_rounding (ddr3_tRFC_TABLE ! k * 1000) tck)),
              (''nREFI'', i32 (JEDEC_rounding 7800000 tck))] vs1))"

section \<open>The standard\<close>

definition ddr3 :: "standard" where
  "ddr3 =
    \<lparr>st_channel_width = 64,
     st_org_presets = ddr3_org_presets, st_timing_presets = ddr3_timing_presets,
     st_levels = ddr3_levels, st_commands = ddr3_commands, st_scopes = ddr3_scopes, st_meta = ddr3_meta,
     st_requests = ddr3_requests, st_translations = ddr3_translations, st_timings = ddr3_timings,
     st_init_states = ddr3_init_states, st_density = ddr3_density, st_secondary = ddr3_secondary,
     st_rounding = JEDEC_rounding, st_read_latency = [''nCL'', ''nBL''], st_constraints = ddr3_constraints,
     st_finish = Inr, st_actions = ddr3_actions, st_preqs = ddr3_preqs, st_rowhits = ddr3_rowhits, st_rowopens = ddr3_rowopens,
     st_future = []\<rparr>"

end
