(* ===== verification/DDR4VRR_Device.thy ===== *)
theory DDR4VRR_Device
  imports Dram_Standard
begin

text \<open>
  The DDR4-VRR device of \<open>src/dram/impl/DDR4-VRR.cpp\<close> as a value of \<open>standard\<close>: the presets, name tables and look-up
  tables, the function matrices, the timing constraints, and the timings computed from the organization.
\<close>

section \<open>Presets\<close>

definition ddr4vrr_org_presets :: "(string \<times> organization) list" where
  "ddr4vrr_org_presets = 
    [(''DDR4_2Gb_x4'', \<lparr>org_density = 2 * 2 ^ 10, org_dq = 4, org_count = [1, 1, 4, 4, 2 ^ 15, 2 ^ 10]\<rparr>),
     (''DDR4_2Gb_x8'', \<lparr>org_density = 2 * 2 ^ 10, org_dq = 8, org_count = [1, 1, 4, 4, 2 ^ 14, 2 ^ 10]\<rparr>),
     (''DDR4_2Gb_x16'', \<lparr>org_density = 2 * 2 ^ 10, org_dq = 16, org_count = [1, 1, 2, 4, 2 ^ 14, 2 ^ 10]\<rparr>),
     (''DDR4_4Gb_x4'', \<lparr>org_density = 4 * 2 ^ 10, org_dq = 4, org_count = [1, 1, 4, 4, 2 ^ 16, 2 ^ 10]\<rparr>),
     (''DDR4_4Gb_x8'', \<lparr>org_density = 4 * 2 ^ 10, org_dq = 8, org_count = [1, 1, 4, 4, 2 ^ 15, 2 ^ 10]\<rparr>),
     (''DDR4_4Gb_x16'', \<lparr>org_density = 4 * 2 ^ 10, org_dq = 16, org_count = [1, 1, 2, 4, 2 ^ 15, 2 ^ 10]\<rparr>),
     (''DDR4_8Gb_x4'', \<lparr>org_density = 8 * 2 ^ 10, org_dq = 4, org_count = [1, 1, 4, 4, 2 ^ 17, 2 ^ 10]\<rparr>),
     (''DDR4_8Gb_x8'', \<lparr>org_density = 8 * 2 ^ 10, org_dq = 8, org_count = [1, 1, 4, 4, 2 ^ 16, 2 ^ 10]\<rparr>),
     (''DDR4_8Gb_x16'', \<lparr>org_density = 8 * 2 ^ 10, org_dq = 16, org_count = [1, 1, 2, 4, 2 ^ 16, 2 ^ 10]\<rparr>),
     (''DDR4_16Gb_x4'', \<lparr>org_density = 16 * 2 ^ 10, org_dq = 4, org_count = [1, 1, 4, 4, 2 ^ 18, 2 ^ 10]\<rparr>),
     (''DDR4_16Gb_x8'', \<lparr>org_density = 16 * 2 ^ 10, org_dq = 8, org_count = [1, 1, 4, 4, 2 ^ 17, 2 ^ 10]\<rparr>),
     (''DDR4_16Gb_x16'', \<lparr>org_density = 16 * 2 ^ 10, org_dq = 16, org_count = [1, 1, 2, 4, 2 ^ 17, 2 ^ 10]\<rparr>)]"

definition ddr4vrr_timing_presets :: "(string \<times> int list) list" where
  "ddr4vrr_timing_presets = 
    [(''DDR4_1600J'', [1600, 4, 10, 10, 10, 28, 38, 12, 6, 9, 4, 5, -1, -1, 2, 6, -1, -1, -1, -1, 2, 1250]),
     (''DDR4_1600K'', [1600, 4, 11, 11, 11, 28, 39, 12, 6, 9, 4, 5, -1, -1, 2, 6, -1, -1, -1, -1, 2, 1250]),
     (''DDR4_1600L'', [1600, 4, 12, 12, 12, 28, 40, 12, 6, 9, 4, 5, -1, -1, 2, 6, -1, -1, -1, -1, 2, 1250]),
     (''DDR4_1866L'', [1866, 4, 12, 12, 12, 32, 44, 14, 7, 10, 4, 5, -1, -1, 3, 7, -1, -1, -1, -1, 2, 1071]),
     (''DDR4_1866M'', [1866, 4, 13, 13, 13, 32, 45, 14, 7, 10, 4, 5, -1, -1, 3, 7, -1, -1, -1, -1, 2, 1071]),
     (''DDR4_1866N'', [1866, 4, 14, 14, 14, 32, 46, 14, 7, 10, 4, 5, -1, -1, 3, 7, -1, -1, -1, -1, 2, 1071]),
     (''DDR4_2133N'', [2133, 4, 14, 14, 14, 36, 50, 16, 8, 11, 4, 6, -1, -1, 3, 8, -1, -1, -1, -1, 2, 937]),
     (''DDR4_2133P'', [2133, 4, 15, 15, 15, 36, 51, 16, 8, 11, 4, 6, -1, -1, 3, 8, -1, -1, -1, -1, 2, 937]),
     (''DDR4_2133R'', [2133, 4, 16, 16, 16, 36, 52, 16, 8, 11, 4, 6, -1, -1, 3, 8, -1, -1, -1, -1, 2, 937]),
     (''DDR4_2400P'', [2400, 4, 15, 15, 15, 39, 54, 18, 9, 12, 4, 6, -1, -1, 3, 9, -1, -1, -1, -1, 2, 833]),
     (''DDR4_2400R'', [2400, 4, 16, 16, 16, 39, 55, 18, 9, 12, 4, 6, -1, -1, 3, 9, -1, -1, -1, -1, 2, 833]),
     (''DDR4_2400U'', [2400, 4, 17, 17, 17, 39, 56, 18, 9, 12, 4, 6, -1, -1, 3, 9, -1, -1, -1, -1, 2, 833]),
     (''DDR4_2400T'', [2400, 4, 18, 18, 18, 39, 57, 18, 9, 12, 4, 6, -1, -1, 3, 9, -1, -1, -1, -1, 2, 833]),
     (''DDR4_2666T'', [2666, 4, 17, 17, 17, 43, 60, 20, 10, 14, 4, 7, -1, -1, 4, 10, -1, -1, -1, -1, 2, 750]),
     (''DDR4_2666U'', [2666, 4, 18, 18, 18, 43, 61, 20, 10, 14, 4, 7, -1, -1, 4, 10, -1, -1, -1, -1, 2, 750]),
     (''DDR4_2666V'', [2666, 4, 19, 19, 19, 43, 62, 20, 10, 14, 4, 7, -1, -1, 4, 10, -1, -1, -1, -1, 2, 750]),
     (''DDR4_2666W'', [2666, 4, 20, 20, 20, 43, 63, 20, 10, 14, 4, 7, -1, -1, 4, 10, -1, -1, -1, -1, 2, 750]),
     (''DDR4_2933V'', [2933, 4, 19, 19, 19, 47, 66, 22, 11, 16, 4, 8, -1, -1, 4, 11, -1, -1, -1, -1, 2, 682]),
     (''DDR4_2933W'', [2933, 4, 20, 20, 20, 47, 67, 22, 11, 16, 4, 8, -1, -1, 4, 11, -1, -1, -1, -1, 2, 682]),
     (''DDR4_2933Y'', [2933, 4, 21, 21, 21, 47, 68, 22, 11, 16, 4, 8, -1, -1, 4, 11, -1, -1, -1, -1, 2, 682]),
     (''DDR4_2933AA'', [2933, 4, 22, 22, 22, 47, 69, 22, 11, 16, 4, 8, -1, -1, 4, 11, -1, -1, -1, -1, 2, 682]),
     (''DDR4_3200W'', [3200, 4, 20, 20, 20, 52, 72, 24, 12, 16, 4, 8, -1, -1, 4, 12, -1, -1, -1, -1, 2, 625]),
     (''DDR4_3200AA'', [3200, 4, 22, 22, 22, 52, 74, 24, 12, 16, 4, 8, -1, -1, 4, 12, -1, -1, -1, -1, 2, 625]),
     (''DDR4_3200AC'', [3200, 4, 24, 24, 24, 52, 76, 24, 12, 16, 4, 8, -1, -1, 4, 12, -1, -1, -1, -1, 2, 625])]"

section \<open>Organization, commands, requests\<close>

definition ddr4vrr_levels :: "name_table" where
  "ddr4vrr_levels = 
    [''channel'', ''rank'', ''bankgroup'', ''bank'', ''row'', ''column'']"

definition ddr4vrr_commands :: "name_table" where
  "ddr4vrr_commands = 
    [''ACT'', ''PRE'', ''PREA'', ''RD'', ''WR'', ''RDA'', ''WRA'', ''REFab'', ''REFab_end'', ''VRR'',
     ''VRR_end'']"

definition ddr4vrr_scopes :: "int list option" where
  "ddr4vrr_scopes = lut_ids ddr4vrr_commands ddr4vrr_levels
    [(''ACT'', ''row''), (''PRE'', ''bank''), (''PREA'', ''rank''), (''RD'', ''column''),
     (''WR'', ''column''), (''RDA'', ''column''), (''WRA'', ''column''), (''REFab'', ''rank''),
     (''REFab_end'', ''rank''), (''VRR'', ''bank''), (''VRR_end'', ''bank'')]"

definition ddr4vrr_meta :: "command_meta list option" where
  "ddr4vrr_meta = lut_vals ddr4vrr_commands
    [(''ACT'', cmeta True False False False), (''PRE'', cmeta False True False False),
     (''PREA'', cmeta False True False False), (''RD'', cmeta False False True False),
     (''WR'', cmeta False False True False), (''RDA'', cmeta False True True False),
     (''WRA'', cmeta False True True False), (''REFab'', cmeta False False False True),
     (''REFab_end'', cmeta False True False False),
     (''VRR'', cmeta False False False True),
     (''VRR_end'', cmeta False True False False)]"

definition ddr4vrr_requests :: "name_table" where
  "ddr4vrr_requests = 
    [''read'', ''write'', ''all-bank-refresh'', ''victim-row-refresh'', ''open-row'', ''close-row'']"

definition ddr4vrr_translations :: "int list option" where
  "ddr4vrr_translations = lut_ids ddr4vrr_requests ddr4vrr_commands
    [(''read'', ''RD''), (''write'', ''WR''), (''all-bank-refresh'', ''REFab''),
     (''victim-row-refresh'', ''VRR''), (''open-row'', ''ACT''), (''close-row'', ''PRE'')]"

definition ddr4vrr_timings :: "name_table" where
  "ddr4vrr_timings = 
    [''rate'', ''nBL'', ''nCL'', ''nRCD'', ''nRP'', ''nRAS'', ''nRC'', ''nWR'', ''nRTP'', ''nCWL'',
     ''nCCDS'', ''nCCDL'', ''nRRDS'', ''nRRDL'', ''nWTRS'', ''nWTRL'', ''nFAW'', ''nRFC'', ''nREFI'',
     ''nVRR'', ''nCS'', ''tCK_ps'']"

definition ddr4vrr_states :: "name_table" where
  "ddr4vrr_states = 
    [''Opened'', ''Closed'', ''PowerUp'', ''N/A'', ''Refreshing'']"

definition ddr4vrr_init_states :: "node_state list option" where
  "ddr4vrr_init_states = lut_states ddr4vrr_levels ddr4vrr_states
    [(''channel'', ''N/A''), (''rank'', ''PowerUp''), (''bankgroup'', ''N/A''), (''bank'', ''Closed''),
     (''row'', ''Closed''), (''column'', ''N/A'')]"

section \<open>Function matrices\<close>

definition ddr4vrr_actions :: "action_fn option list list" where
  "ddr4vrr_actions = fn_matrix ddr4vrr_levels ddr4vrr_commands
    [((''rank'', ''PREA''), Rank_PREab), ((''rank'', ''REFab''), Rank_REFab),
     ((''rank'', ''REFab_end''), Rank_REFab_end), ((''bank'', ''ACT''), Bank_ACT),
     ((''bank'', ''PRE''), Bank_PRE), ((''bank'', ''RDA''), Bank_PRE), ((''bank'', ''WRA''), Bank_PRE),
     ((''bank'', ''VRR''), Bank_VRR), ((''bank'', ''VRR_end''), Bank_VRR_end)]"

definition ddr4vrr_preqs :: "preq_fn option list list" where
  "ddr4vrr_preqs = fn_matrix ddr4vrr_levels ddr4vrr_commands
    [((''rank'', ''REFab''), Rank_RequireAllBanksClosed), ((''bank'', ''RD''), Bank_RequireRowOpen),
     ((''bank'', ''WR''), Bank_RequireRowOpen), ((''bank'', ''VRR''), Bank_RequireBankClosed),
     ((''bank'', ''ACT''), Bank_RequireRowOpen), ((''bank'', ''PRE''), Bank_RequireBankClosed)]"

definition ddr4vrr_rowhits :: "rowhit_fn option list list" where
  "ddr4vrr_rowhits = fn_matrix ddr4vrr_levels ddr4vrr_commands
    [((''bank'', ''RD''), RowHit_RDWR), ((''bank'', ''WR''), RowHit_RDWR)]"

definition ddr4vrr_rowopens :: "rowopen_fn option list list" where
  "ddr4vrr_rowopens = fn_matrix ddr4vrr_levels ddr4vrr_commands
    [((''bank'', ''RD''), RowOpen_RDWR), ((''bank'', ''WR''), RowOpen_RDWR)]"

section \<open>Timing constraints\<close>

definition ddr4vrr_constraints :: "(string \<Rightarrow> int) \<Rightarrow> tcons_init list" where
  "ddr4vrr_constraints V =
    [tinit ''channel'' [''RD'', ''RDA''] [''RD'', ''RDA''] (V ''nBL''),
     tinit ''channel'' [''WR'', ''WRA''] [''WR'', ''WRA''] (V ''nBL''),
     tinit ''rank'' [''RD'', ''RDA''] [''RD'', ''RDA''] (V ''nCCDS''),
     tinit ''rank'' [''WR'', ''WRA''] [''WR'', ''WRA''] (V ''nCCDS''),
     tinit ''rank'' [''RD'', ''RDA''] [''WR'', ''WRA''] (V ''nCL'' + V ''nBL'' + 2 - V ''nCWL''),
     tinit ''rank'' [''WR'', ''WRA''] [''RD'', ''RDA''] (V ''nCWL'' + V ''nBL'' + V ''nWTRS''),
     tinit_sibling ''rank'' [''RD'', ''RDA''] [''RD'', ''RDA'', ''WR'', ''WRA''] (V ''nBL'' + V ''nCS''),
     tinit_sibling ''rank'' [''WR'', ''WRA''] [''RD'', ''RDA''] (V ''nCL'' + V ''nBL'' + V ''nCS'' - V ''nCWL''),
     tinit ''rank'' [''RD''] [''PREA''] (V ''nRTP''),
     tinit ''rank'' [''WR''] [''PREA''] (V ''nCWL'' + V ''nBL'' + V ''nWR''),
     tinit ''rank'' [''ACT''] [''ACT''] (V ''nRRDS''),
     tinit_window ''rank'' [''ACT''] [''ACT''] (V ''nFAW'') 4,
     tinit ''rank'' [''ACT''] [''PREA''] (V ''nRAS''),
     tinit ''rank'' [''VRR''] [''PREA''] (V ''nVRR''),
     tinit ''rank'' [''PREA''] [''ACT'', ''VRR''] (V ''nRP''),
     tinit ''rank'' [''ACT''] [''REFab''] (V ''nRC''),
     tinit ''rank'' [''VRR''] [''REFab''] (V ''nVRR''),
     tinit ''rank'' [''PRE'', ''PREA''] [''REFab''] (V ''nRP''),
     tinit ''rank'' [''RDA''] [''REFab''] (V ''nRP'' + V ''nRTP''),
     tinit ''rank'' [''WRA''] [''REFab''] (V ''nCWL'' + V ''nBL'' + V ''nWR'' + V ''nRP''),
     tinit ''rank'' [''REFab''] [''ACT'', ''VRR''] (V ''nRFC''),
     tinit ''bankgroup'' [''RD'', ''RDA''] [''RD'', ''RDA''] (V ''nCCDL''),
     tinit ''bankgroup'' [''WR'', ''WRA''] [''WR'', ''WRA''] (V ''nCCDL''),
     tinit ''bankgroup'' [''WR'', ''WRA''] [''RD'', ''RDA''] (V ''nCWL'' + V ''nBL'' + V ''nWTRL''),
     tinit ''bankgroup'' [''ACT''] [''ACT''] (V ''nRRDL''),
     tinit ''bank'' [''ACT''] [''ACT'', ''VRR''] (V ''nRC''),
     tinit ''bank'' [''VRR''] [''ACT'', ''VRR''] (V ''nVRR''),
     tinit ''bank'' [''ACT''] [''RD'', ''RDA'', ''WR'', ''WRA''] (V ''nRCD''),
     tinit ''bank'' [''ACT''] [''PRE''] (V ''nRAS''),
     tinit ''bank'' [''PRE''] [''ACT'', ''VRR''] (V ''nRP''),
     tinit ''bank'' [''RD''] [''PRE''] (V ''nRTP''),
     tinit ''bank'' [''WR''] [''PRE''] (V ''nCWL'' + V ''nBL'' + V ''nWR''),
     tinit ''bank'' [''RDA''] [''ACT'', ''VRR''] (V ''nRTP'' + V ''nRP''),
     tinit ''bank'' [''WRA''] [''ACT'', ''VRR''] (V ''nCWL'' + V ''nBL'' + V ''nWR'' + V ''nRP'')]"

section \<open>Configuration\<close>

definition ddr4vrr_density :: "string list" where
  "ddr4vrr_density = [''bankgroup'', ''bank'', ''row'', ''column'']"

definition ddr4vrr_nRRDS_TABLE :: "int list list" where
  "ddr4vrr_nRRDS_TABLE = [[4, 4, 4, 4, 4, 4, 4], [4, 4, 4, 4, 4, 4, 4], [5, 5, 6, 7, 8, 8, 9]]"

definition ddr4vrr_nRRDL_TABLE :: "int list list" where
  "ddr4vrr_nRRDL_TABLE = [[5, 5, 6, 6, 7, 8, 8], [5, 5, 6, 6, 7, 8, 8], [6, 6, 7, 8, 9, 10, 11]]"

definition ddr4vrr_nFAW_TABLE :: "int list list" where
  "ddr4vrr_nFAW_TABLE = [[16, 16, 16, 16, 16, 16, 16], [20, 22, 23, 26, 28, 31, 34], [28, 28, 32, 36, 40, 44, 48]]"

definition ddr4vrr_tRFC_TABLE :: "int list list" where
  "ddr4vrr_tRFC_TABLE = [[160, 260, 360, 550], [110, 160, 260, 350], [90, 110, 160, 260]]"

text \<open>\<open>radius\<close> is the parameter \<open>RH_radius\<close>; a negative time has no conversion to an unsigned number.\<close>

definition ddr4vrr_secondary :: "int \<Rightarrow> organization \<Rightarrow> int \<Rightarrow> int list \<Rightarrow> config_error + int list" where
  "ddr4vrr_secondary radius org tck vs =
     (let ts = ddr4vrr_timings; rate = timing_val ts vs ''rate'';
          vs1 = (case (case_id [4, 8, 16] (org_dq org), case_id [1600, 1866, 2133, 2400, 2666, 2933, 3200] rate) of
              (Some q, Some r) \<Rightarrow> set_timings ts
                [(''nRRDS'', ddr4vrr_nRRDS_TABLE ! q ! r), (''nRRDL'', ddr4vrr_nRRDL_TABLE ! q ! r), (''nFAW'', ddr4vrr_nFAW_TABLE ! q ! r)] vs
            | _ \<Rightarrow> vs)
      in case case_id [2048, 4096, 8192, 16384] (org_density org) of
           None \<Rightarrow> Inl Undefined_behaviour
         | Some k \<Rightarrow>
             if radius < 0 then Inl Undefined_behaviour
             else Inr (set_timings ts
               [(''nRFC'', i32 (JEDEC_rounding (ddr4vrr_tRFC_TABLE ! 0 ! k * 1000) tck)),
                (''nREFI'', i32 (JEDEC_rounding 7800000 tck)),
                (''nVRR'', i32 (JEDEC_rounding (70 * radius * 2 * 1000) tck))] vs1))"

definition ddr4vrr_future :: "(string \<times> string \<times> string) list" where
  "ddr4vrr_future = 
    [(''REFab'', ''nRFC'', ''REFab_end''),
     (''VRR'', ''nVRR'', ''VRR_end'')]"

section \<open>The standard\<close>

definition ddr4vrr :: "int \<Rightarrow> standard" where
  "ddr4vrr radius =
    \<lparr>st_channel_width = 64,
     st_org_presets = ddr4vrr_org_presets, st_timing_presets = ddr4vrr_timing_presets,
     st_levels = ddr4vrr_levels, st_commands = ddr4vrr_commands, st_scopes = ddr4vrr_scopes, st_meta = ddr4vrr_meta,
     st_requests = ddr4vrr_requests, st_translations = ddr4vrr_translations, st_timings = ddr4vrr_timings,
     st_init_states = ddr4vrr_init_states, st_density = ddr4vrr_density, st_secondary = ddr4vrr_secondary radius,
     st_rounding = JEDEC_rounding, st_read_latency = [''nCL'', ''nBL''], st_constraints = ddr4vrr_constraints,
     st_finish = Inr, st_actions = ddr4vrr_actions, st_preqs = ddr4vrr_preqs, st_rowhits = ddr4vrr_rowhits, st_rowopens = ddr4vrr_rowopens,
     st_future = ddr4vrr_future\<rparr>"

end
