(* ===== verification/Float_Ops.thy ===== *)
theory Float_Ops
  imports Half_Float
begin

text \<open>
  The conversions between \<open>int\<close> and \<open>float\<close> and the division of the language, for the parts of the program that
  compute latencies, periods and thresholds in single precision.
\<close>

definition f32_of_int :: "int \<Rightarrow> f32" where
  "f32_of_int n = (if n = 0 then 0 else f32_round (n < 0) \<bar>n\<bar> 0)"

text \<open>The quotient of the significands to 50 more binary digits, the last one set when there is a remainder.\<close>

definition f32_div :: "f32 \<Rightarrow> f32 \<Rightarrow> f32" where
  "f32_div x y =
     (let s = (f32_neg x \<noteq> f32_neg y); zx = f32_mant x = 0; zy = f32_mant y = 0;
          n = f32_mant x * 2 ^ 50
      in if f32_is_nan x \<or> f32_is_nan y then f32_nan
         else if f32_is_inf x then (if f32_is_inf y then f32_nan else f32_inf s)
         else if f32_is_inf y then f32_sign_bit s
         else if zy then (if zx then f32_nan else f32_inf s)
         else if zx then f32_sign_bit s
         else f32_round s (2 * (n div f32_mant y) + (if n mod f32_mant y = 0 then 0 else 1))
           (f32_scale x - f32_scale y - 51))"

text \<open>Conversion to \<open>int\<close> drops the fraction; a value that does not fit is undefined behaviour.\<close>

definition f32_trunc :: "f32 \<Rightarrow> int" where
  "f32_trunc x = (if f32_neg x then -1 else 1) *
     (if 0 \<le> f32_scale x then f32_mant x * 2 ^ nat (f32_scale x) else f32_mant x div 2 ^ nat (- f32_scale x))"

definition i32_of_f32 :: "f32 \<Rightarrow> int option" where
  "i32_of_f32 x =
     (if f32_is_nan x \<or> f32_is_inf x then None
      else let n = f32_trunc x in if - (2 ^ 31) \<le> n \<and> n < 2 ^ 31 then Some n else None)"

text \<open>Reference values: \<open>1 / 3\<close>, \<open>-7 / 2\<close>, \<open>1250 / 1000\<close>, \<open>64000000 / 1.25\<close>, a subnormal quotient.\<close>

lemma f32_div_reference:
  "f32_div (f32_of_int 1) (f32_of_int 3) = 0x3eaaaaab"
  "f32_div (f32_of_int (-7)) (f32_of_int 2) = 0xc0600000"
  "f32_div (f32_of_int 1250) (f32_of_int 1000) = 0x3fa00000"
  "i32_of_f32 (f32_div (f32_of_int 64000000) 0x3fa00000) = Some 51200000"
  "f32_div 0x00800000 (f32_of_int 3) = 0x002aaaab"
  "i32_of_f32 (f32_div (f32_of_int (-7)) (f32_of_int 2)) = Some (-3)"
  "f32_of_int 16777217 = 0x4b800000"
  by code_simp+

end
