(* ===== verification/Reduced_Refresh.thy ===== *)
theory Reduced_Refresh
  imports Dram_Standard Float_Ops
begin

text \<open>
  What \<open>src/dram/impl/DDR4-RVRR.cpp\<close> and \<open>DDR5-RVRR.cpp\<close> share: a refresh whose activation part is scaled by a
  single-precision factor, and the factor applied to the rank refresh after the timings are checked.
\<close>

record rvrr_options =
  rv_RH_radius :: int
  rv_BRC :: int
  rv_latency_factor_vrr :: f32
  rv_latency_factor_rfc :: f32

text \<open>The part \<open>ras / (ras + rp)\<close> of \<open>n\<close> cycles scaled by the factor, the part \<open>rp / (ras + rp)\<close> as it is.\<close>

definition scaled_latency :: "f32 \<Rightarrow> int \<Rightarrow> int \<Rightarrow> int \<Rightarrow> int option" where
  "scaled_latency factor n ras rp =
     (let total = f32_of_int (ras + rp); part = (\<lambda>t. f32_div (f32_mul (f32_of_int n) (f32_of_int t)) total)
      in i32_of_f32 (f32_add (f32_mul factor (part ras)) (part rp)))"

definition scale_timing :: "name_table \<Rightarrow> string \<Rightarrow> string \<Rightarrow> f32 \<Rightarrow> int list \<Rightarrow> config_error + int list" where
  "scale_timing names from to factor vs =
     (case scaled_latency factor (timing_val names vs from) (timing_val names vs ''nRAS'') (timing_val names vs ''nRP'') of
        None \<Rightarrow> Inl Undefined_behaviour
      | Some v \<Rightarrow> Inr (set_timing names to v vs))"

definition scaled_refresh :: "name_table \<Rightarrow> string \<Rightarrow> f32 \<Rightarrow> int list \<Rightarrow> config_error + int list" where
  "scaled_refresh names rfc factor vs = (if factor \<noteq> 0x3f800000 then scale_timing names rfc rfc factor vs else Inr vs)"

end
