(* ===== verification/DDR5VRR_Device.thy ===== *)
theory DDR5VRR_Device
  imports Dram_Standard
begin

text \<open>
  The DDR5-VRR device of \<open>src/dram/impl/DDR5-VRR.cpp\<close> as a value of \<open>standard\<close>: the presets, name tables and look-up
  tables, the function matrices, the timing constraints, and the timings computed from the organization.
\<close>

section \<open>Presets\<close>

definition ddr5vrr_org_presets :: "(string \<times> organization) list" where
  "ddr5vrr_org_presets = 
    [(''DDR5_8Gb_x4'', \<lparr>org_density = 8 * 2 ^ 10, org_dq = 4, org_count = [1, 1, 8, 2, 2 ^ 16, 2 ^ 11]\<rparr>),
     (''DDR5_8Gb_x8'', \<lparr>org_density = 8 * 2 ^ 10, org_dq = 8, org_count = [1, 1, 8, 2, 2 ^ 16, 2 ^ 10]\<rparr>),
     (''DDR5_8Gb_x16'', \<lparr>org_density = 8 * 2 ^ 10, org_dq = 16, org_count = [1, 1, 4, 2, 2 ^ 16, 2 ^ 10]\<rparr>),
     (''DDR5_16Gb_x4'', \<lparr>org_density = 16 * 2 ^ 10, org_dq = 4, org_count = [1, 1, 8, 4, 2 ^ 16, 2 ^ 11]\<rparr>),
     (''DDR5_16Gb_x8'', \<lparr>org_density = 16 * 2 ^ 10, org_dq = 8, org_count = [1, 1, 8, 4, 2 ^ 16, 2 ^ 10]\<rparr>),
     (''DDR5_16Gb_x16'', \<lparr>org_density = 16 * 2 ^ 10, org_dq = 16, org_count = [1, 1, 4, 4, 2 ^ 16, 2 ^ 10]\<rparr>),
     (''DDR5_32Gb_x4'', \<lparr>org_density = 32 * 2 ^ 10, org_dq = 4, org_count = [1, 1, 8, 4, 2 ^ 17, 2 ^ 11]\<rparr>),
     (''DDR5_32Gb_x8'', \<lparr>org_density = 32 * 2 ^ 10, org_dq = 8, org_count = [1, 1, 8, 4, 2 ^ 17, 2 ^ 10]\<rparr>),
     (''DDR5_32Gb_x16'', \<lparr>org_density = 32 * 2 ^ 10, org_dq = 16, org_count = [1, 1, 4, 4, 2 ^ 17, 2 ^ 10]\<rparr>)]"

definition ddr5vrr_timing_presets :: "(string \<times> int list) list" where
  "ddr5vrr_timing_presets = 
    [(''DDR5_3200AN'', [3200, 8, 24, 24, 24, 52, 75, 48, 12, 22, 2, 8, 8, 22 + 8 + 4, 8, 16, 22 + 8 + 16, 8, -1, -1, -1, -1, -1, -1, 30, -1, -1, -1, -1, -1, -1, 2, 625]),
     (''DDR5_3200BN'', [3200, 8, 26, 26, 26, 52, 77, 48, 12, 24, 2, 8, 8, 24 + 8 + 4, 8, 16, 24 + 8 + 16, 8, -1, -1, -1, -1, -1, -1, 30, -1, -1, -1, -1, -1, -1, 2, 625]),
     (''DDR5_3200C'', [3200, 8, 28, 28, 28, 52, 79, 48, 12, 26, 2, 8, 8, 26 + 8 + 4, 8, 16, 26 + 8 + 16, 8, -1, -1, -1, -1, -1, -1, 30, -1, -1, -1, -1, -1, -1, 2, 625])]"

section \<open>Organization, commands, requests\<close>

definition ddr5vrr_levels :: "name_table" where
  "ddr5vrr_levels = 
    [''channel'', ''rank'', ''bankgroup'', ''bank'', ''row'', ''column'']"

definition ddr5vrr_commands :: "name_table" where
  "ddr5vrr_commands = 
    [''ACT'', ''PRE'', ''PREA'', ''PREsb'', ''RD'', ''WR'', ''RDA'', ''WRA'', ''REFab'', ''REFsb'',
     ''REFab_end'', ''REFsb_end'', ''RFMab'', ''RFMsb'', ''RFMab_end'', ''RFMsb_end'', ''DRFMab'',
     ''DRFMsb'', ''DRFMab_end'', ''DRFMsb_end'', ''VRR'', ''VRR_end'']"

definition ddr5vrr_scopes :: "int list option" where
  "ddr5vrr_scopes = lut_ids ddr5vrr_commands ddr5vrr_levels
    [(''ACT'', ''row''), (''PRE'', ''bank''), (''PREA'', ''rank''), (''PREsb'', ''bank''),
     (''RD'', ''column''), (''WR'', ''column''), (''RDA'', ''column''), (''WRA'', ''column''),
     (''REFab'', ''rank''), (''REFsb'', ''bank''), (''REFab_end'', ''rank''),
     (''REFsb_end'', ''bank''), (''RFMab'', ''rank''), (''RFMsb'', ''bank''),
     (''RFMab_end'', ''rank''), (''RFMsb_end'', ''bank''), (''DRFMab'', ''rank''),
     (''DRFMsb'', ''bank''), (''DRFMab_end'', ''rank''), (''DRFMsb_end'', ''bank''),
     (''VRR'', ''bank''), (''VRR_end'', ''bank'')]"

definition ddr5vrr_meta :: "command_meta list option" where
  "ddr5vrr_meta = lut_vals ddr5vrr_commands
    [(''ACT'', cmeta True False False False), (''PRE'', cmeta False True False False),
     (''PREA'', cmeta False True False False), (''PREsb'', cmeta False True False False),
     (''RD'', cmeta False False True False), (''WR'', cmeta False False True False),
     (''RDA'', cmeta False True True False), (''WRA'', cmeta False True True False),
     (''REFab'', cmeta False False False True),
     (''REFsb'', cmeta False False False True),
     (''REFab_end'', cmeta False True False False),
     (''REFsb_end'', cmeta False True False False),
     (''RFMab'', cmeta False False False True),
     (''RFMsb'', cmeta False False False True),
     (''RFMab_end'', cmeta False True False False),
     (''RFMsb_end'', cmeta False True False False),
     (''DRFMab'', cmeta False False False True),
     (''DRFMsb'', cmeta False False False True),
     (''DRFMab_end'', cmeta False True False False),
     (''DRFMsb_end'', cmeta False True False False),
     (''VRR'', cmeta False False False True),
     (''VRR_end'', cmeta False True False False)]"

definition ddr5vrr_requests :: "name_table" where
  "ddr5vrr_requests = 
    [''read'', ''write'', ''all-bank-refresh'', ''same-bank-refresh'', ''rfm'', ''same-bank-rfm'',
     ''directed-rfm'', ''same-bank-directed-rfm'', ''victim-row-refresh'', ''open-row'', ''close-row'',
     ''close-all-bank'']"

definition ddr5vrr_translations :: "int list option" where
  "ddr5vrr_translations = lut_ids ddr5vrr_requests ddr5vrr_commands
    [(''read'', ''RD''), (''write'', ''WR''), (''all-bank-refresh'', ''REFab''),
     (''same-bank-refresh'', ''REFsb''), (''rfm'', ''RFMab''), (''same-bank-rfm'', ''RFMsb''),
     (''directed-rfm'', ''DRFMab''), (''same-bank-directed-rfm'', ''DRFMsb''),
     (''victim-row-refresh'', ''VRR''), (''open-row'', ''ACT''), (''close-row'', ''PRE''),
     (''close-all-bank'', ''PREA'')]"

definition ddr5vrr_timings :: "name_table" where
  "ddr5vrr_timings = 
    [''rate'', ''nBL'', ''nCL'', ''nRCD'', ''nRP'', ''nRAS'', ''nRC'', ''nWR'', ''nRTP'', ''nCWL'',
     ''nPPD'', ''nCCDS'', ''nCCDS_WR'', ''nCCDS_WTR'', ''nCCDL'', ''nCCDL_WR'', ''nCCDL_WTR'',
     ''nRRDS'', ''nRRDL'', ''nFAW'', ''nRFC1'', ''nRFC2'', ''nRFCsb'', ''nREFI'', ''nREFSBRD'',
     ''nRFM1'', ''nRFM2'', ''nRFMsb'', ''nDRFMab'', ''nDRFMsb'', ''nVRR'', ''nCS'', ''tCK_ps'']"

definition ddr5vrr_states :: "name_table" where
  "ddr5vrr_states = 
    [''Opened'', ''Closed'', ''PowerUp'', ''N/A'', ''Refreshing'']"

definition ddr5vrr_init_states :: "node_state list option" where
  "ddr5vrr_init_states = lut_states ddr5vrr_levels ddr5vrr_states
    [(''channel'', ''N/A''), (''rank'', ''PowerUp''), (''bankgroup'', ''N/A''), (''bank'', ''Closed''),
     (''row'', ''Closed''), (''column'', ''N/A'')]"

section \<open>Function matrices\<close>

definition ddr5vrr_actions :: "action_fn option list list" where
  "ddr5vrr_actions = fn_matrix ddr5vrr_levels ddr5vrr_commands
    [((''rank'', ''PREA''), Rank_PREab), ((''rank'', ''REFab''), Rank_REFab),
     ((''rank'', ''REFab_end''), Rank_REFab_end), ((''rank'', ''RFMab''), Rank_REFab),
     ((''rank'', ''RFMab_end''), Rank_REFab_end), ((''rank'', ''DRFMab''), Rank_REFab),
     ((''rank'', ''DRFMab_end''), Rank_REFab_end), ((''bankgroup'', ''PREsb''), BankGroup_PREsb),
     ((''bankgroup'', ''REFsb''), BankGroup_REFsb),
     ((''bankgroup'', ''REFsb_end''), BankGroup_REFsb_end),
     ((''bankgroup'', ''RFMsb''), BankGroup_REFsb),
     ((''bankgroup'', ''RFMsb_end''), BankGroup_REFsb_end),
     ((''bankgroup'', ''DRFMsb''), BankGroup_REFsb),
     ((''bankgroup'', ''DRFMsb_end''), BankGroup_REFsb_end), ((''bank'', ''ACT''), Bank_ACT),
     ((''bank'', ''PRE''), Bank_PRE), ((''bank'', ''RDA''), Bank_PRE), ((''bank'', ''WRA''), Bank_PRE),
     ((''bank'', ''VRR''), Bank_VRR), ((''bank'', ''VRR_end''), Bank_VRR_end)]"

definition ddr5vrr_preqs :: "preq_fn option list list" where
  "ddr5vrr_preqs = fn_matrix ddr5vrr_levels ddr5vrr_commands
    [((''rank'', ''REFab''), Rank_RequireAllBanksClosed),
     ((''rank'', ''RFMab''), Rank_RequireAllBanksClosed),
     ((''rank'', ''DRFMab''), Rank_RequireAllBanksClosed),
     ((''rank'', ''PREA''), Rank_RequireAllBanksClosed),
     ((''rank'', ''REFsb''), Rank_RequireSameBanksClosed),
     ((''rank'', ''RFMsb''), Rank_RequireSameBanksClosed),
     ((''rank'', ''DRFMsb''), Rank_RequireSameBanksClosed), ((''bank'', ''RD''), Bank_RequireRowOpen),
     ((''bank'', ''WR''), Bank_RequireRowOpen), ((''bank'', ''VRR''), Bank_RequireBankClosed),
     ((''bank'', ''ACT''), Bank_RequireRowOpen), ((''bank'', ''PRE''), Bank_RequireBankClosed)]"

definition ddr5vrr_rowhits :: "rowhit_fn option list list" where
  "ddr5vrr_rowhits = fn_matrix ddr5vrr_levels ddr5vrr_commands
    [((''bank'', ''RD''), RowHit_RDWR), ((''bank'', ''WR''), RowHit_RDWR)]"

definition ddr5vrr_rowopens :: "rowopen_fn option list list" where
  "ddr5vrr_rowopens = fn_matrix ddr5vrr_levels ddr5vrr_commands
    [((''bank'', ''RD''), RowOpen_RDWR), ((''bank'', ''WR''), RowOpen_RDWR)]"

section \<open>Timing constraints\<close>

definition ddr5vrr_constraints :: "(string \<Rightarrow> int) \<Rightarrow> tcons_init list" where
  "ddr5vrr_constraints V =
    [tinit ''channel'' [''ACT'', ''RD'', ''RDA'', ''WR'', ''WRA''] ddr5vrr_commands 2,
     tinit ''channel'' [''RD'', ''RDA''] [''RD'', ''RDA''] (V ''nBL''),
     tinit ''channel'' [''WR'', ''WRA''] [''WR'', ''WRA''] (V ''nBL''),
     tinit ''rank'' [''RD'', ''RDA''] [''RD'', ''RDA''] (V ''nCCDS''),
     tinit ''rank'' [''WR'', ''WRA''] [''WR'', ''WRA''] (V ''nCCDS_WR''),
     tinit ''rank'' [''RD'', ''RDA''] [''WR'', ''WRA''] (V ''nCL'' + V ''nBL'' + 2 - V ''nCWL'' + 2),
     tinit ''rank'' [''WR'', ''WRA''] [''RD'', ''RDA''] (V ''nCCDS_WTR''),
     tinit_sibling ''rank'' [''RD'', ''RDA''] [''RD'', ''RDA'', ''WR'', ''WRA''] (V ''nBL'' + V ''nCS''),
     tinit_sibling ''rank'' [''WR'', ''WRA''] [''RD'', ''RDA''] (V ''nCL'' + V ''nBL'' + V ''nCS'' - V ''nCWL''),
     tinit ''rank'' [''RD''] [''PREA''] (V ''nRTP''),
     tinit ''rank'' [''WR''] [''PREA''] (V ''nCWL'' + V ''nBL'' + V ''nWR''),
     tinit ''rank'' [''ACT''] [''ACT''] (V ''nRRDS''),
     tinit_window ''rank'' [''ACT''] [''ACT''] (V ''nFAW'') 4,
     tinit ''rank'' [''ACT''] [''PREA''] (V ''nRAS''),
     tinit ''rank'' [''VRR''] [''PREA''] (V ''nVRR''),
     tinit ''rank'' [''PREA''] [''ACT'', ''VRR''] (V ''nRP''),
     tinit ''rank'' [''ACT''] [''REFab'', ''RFMab'', ''DRFMab''] (V ''nRC''),
     tinit ''rank'' [''VRR''] [''REFab'', ''RFMab'', ''DRFMab''] (V ''nVRR''),
     tinit ''rank'' [''PRE'', ''PREsb''] [''REFab'', ''RFMab'', ''DRFMab''] (V ''nRP''),
     tinit ''rank'' [''PREA''] [''REFab'', ''RFMab'', ''DRFMab'', ''REFsb'', ''RFMsb'', ''DRFMsb''] (V ''nRP''),
     tinit ''rank'' [''RDA''] [''REFab'', ''RFMab'', ''DRFMab''] (V ''nRP'' + V ''nRTP''),
     tinit ''rank'' [''WRA''] [''REFab'', ''RFMab'', ''DRFMab''] (V ''nCWL'' + V ''nBL'' + V ''nWR'' + V ''nRP''),
     tinit ''rank'' [''REFab''] [''ACT'', ''VRR'', ''PREA'', ''REFab'', ''RFMab'', ''DRFMab'', ''REFsb'', ''RFMsb'', ''DRFMsb''] (V ''nRFC1''),
     tinit ''rank'' [''RFMab''] [''ACT'', ''VRR'', ''PREA'', ''REFab'', ''RFMab'', ''DRFMab'', ''REFsb'', ''RFMsb'', ''DRFMsb''] (V ''nRFM1''),
     tinit ''rank'' [''DRFMab''] [''ACT'', ''VRR'', ''PREA'', ''REFab'', ''RFMab'', ''DRFMab'', ''REFsb'', ''RFMsb'', ''DRFMsb''] (V ''nDRFMab''),
     tinit ''rank'' [''REFsb''] [''PREA'', ''REFab'', ''RFMab'', ''DRFMab''] (V ''nRFCsb''),
     tinit ''rank'' [''RFMsb''] [''PREA'', ''REFab'', ''RFMab'', ''DRFMab''] (V ''nRFMsb''),
     tinit ''rank'' [''DRFMsb''] [''PREA'', ''REFab'', ''RFMab'', ''DRFMab''] (V ''nDRFMsb''),
     tinit ''bankgroup'' [''RD'', ''RDA''] [''RD'', ''RDA''] (V ''nCCDL''),
     tinit ''bankgroup'' [''WR'', ''WRA''] [''WR'', ''WRA''] (V ''nCCDL_WR''),
     tinit ''bankgroup'' [''WR'', ''WRA''] [''RD'', ''RDA''] (V ''nCCDL_WTR''),
     tinit ''bankgroup'' [''ACT''] [''ACT''] (V ''nRRDL''),
     tinit ''bank'' [''ACT''] [''ACT'', ''VRR'', ''REFsb'', ''RFMsb'', ''DRFMsb''] (V ''nRC''),
     tinit ''bank'' [''VRR''] [''ACT'', ''VRR'', ''REFsb'', ''RFMsb'', ''DRFMsb''] (V ''nVRR''),
     tinit ''bank'' [''ACT''] [''RD'', ''RDA'', ''WR'', ''WRA''] (V ''nRCD''),
     tinit ''bank'' [''ACT''] [''PRE'', ''PREsb''] (V ''nRAS''),
     tinit ''bank'' [''PRE'', ''PREsb''] [''ACT'', ''VRR'', ''REFsb'', ''RFMsb'', ''DRFMsb''] (V ''nRP''),
     tinit ''bank'' [''RD''] [''PRE'', ''PREsb''] (V ''nRTP''),
     tinit ''bank'' [''WR''] [''PRE'', ''PREsb''] (V ''nCWL'' + V ''nBL'' + V ''nWR''),
     tinit ''bank'' [''RDA''] [''ACT'', ''VRR'', ''REFsb'', ''RFMsb'', ''DRFMsb''] (V ''nRTP'' + V ''nRP''),
     tinit ''bank'' [''WRA''] [''ACT'', ''VRR'', ''REFsb'', ''RFMsb'', ''DRFMsb''] (V ''nCWL'' + V ''nBL'' + V ''nWR'' + V ''nRP''),
     tinit ''bank'' [''WR''] [''RDA''] (V ''nCWL'' + V ''nBL'' + V ''nWR'' - V ''nRTP''),
     tinit ''bank'' [''REFsb''] [''ACT'', ''VRR'', ''REFsb'', ''RFMsb'', ''DRFMsb''] (V ''nRFCsb''),
     tinit ''bank'' [''RFMsb''] [''ACT'', ''VRR'', ''REFsb'', ''RFMsb'', ''DRFMsb''] (V ''nRFMsb''),
     tinit ''bank'' [''DRFMsb''] [''ACT'', ''VRR'', ''REFsb'', ''RFMsb'', ''DRFMsb''] (V ''nDRFMsb'')]"

section \<open>Configuration\<close>

definition ddr5vrr_density :: "string list" where
  "ddr5vrr_density = [''bankgroup'', ''bank'', ''row'', ''column'']"

definition ddr5vrr_nRRDL_TABLE :: "int list list" where
  "ddr5vrr_nRRDL_TABLE = [[5], [5], [5]]"

definition ddr5vrr_nFAW_TABLE :: "int list list" where
  "ddr5vrr_nFAW_TABLE = [[40], [32], [32]]"

definition ddr5vrr_nCCD_L_WR2_TABLE :: "int list" where
  "ddr5vrr_nCCD_L_WR2_TABLE = [32]"

definition ddr5vrr_tRFC_TABLE :: "int list list" where
  "ddr5vrr_tRFC_TABLE = [[195, 295, 410], [130, 160, 220]]"

definition ddr5vrr_tRFCsb_TABLE :: "int list list" where
  "ddr5vrr_tRFCsb_TABLE = [[115, 130, 190]]"

definition ddr5vrr_tRRFsb_TABLE :: "int list list" where
  "ddr5vrr_tRRFsb_TABLE = [[70, 70, 70], [60, 60, 60]]"

text \<open>A negative radius makes the time of a victim row refresh negative, which has no conversion to an unsigned number.\<close>

definition ddr5vrr_secondary :: "ddr5_options \<Rightarrow> organization \<Rightarrow> int \<Rightarrow> int list \<Rightarrow> config_error + int list" where
  "ddr5vrr_secondary opts org tck vs =
     (let ts = ddr5vrr_timings; rate = timing_val ts vs ''rate'';
          vs0 = (if 0 < o5_tRAS opts
                 then let ras = i32 (JEDEC_rounding_DDR5 (o5_tRAS opts * 1000) tck)
                      in set_timings ts [(''nRAS'', ras), (''nRC'', ras + timing_val ts vs ''nRP'')] vs
                 else vs);
          dq = case_id [4, 8, 16] (org_dq org); rid = case_id [3200] rate;
          vs1 = (case (dq, rid) of
              (Some q, Some r) \<Rightarrow> set_timings ts
                [(''nRRDL'', ddr5vrr_nRRDL_TABLE ! q ! r), (''nFAW'', ddr5vrr_nFAW_TABLE ! q ! r)] vs0
            | _ \<Rightarrow> vs0)
      in case (if dq = Some 0 then map_option (\<lambda>r. set_timing ts ''nCCDL_WR'' (ddr5vrr_nCCD_L_WR2_TABLE ! r) vs1) rid
               else Some vs1) of
           None \<Rightarrow> Inl Undefined_behaviour
         | Some vs2 \<Rightarrow> (case case_id [8192, 16384, 32768] (org_density org) of
             None \<Rightarrow> Inl Undefined_behaviour
           | Some k \<Rightarrow>
               let rfc1 = i32 (JEDEC_rounding_DDR5 (ddr5vrr_tRFC_TABLE ! 0 ! k * 1000) tck);
                   rfc2 = i32 (JEDEC_rounding_DDR5 (ddr5vrr_tRFC_TABLE ! 1 ! k * 1000) tck);
                   rfcsb = i32 (JEDEC_rounding_DDR5 (ddr5vrr_tRFCsb_TABLE ! 0 ! k * 1000) tck);
                   vs3 = set_timings ts
                     [(''nRFC1'', rfc1), (''nRFC2'', rfc2), (''nRFCsb'', rfcsb),
                      (''nREFI'', i32 (JEDEC_rounding_DDR5 3900000 tck)),
                      (''nRFM1'', rfc1), (''nRFM2'', rfc2), (''nRFMsb'', rfcsb * o5_RH_radius opts),
                      (''nVRR'', i32 (JEDEC_rounding_DDR5 (60 * o5_RH_radius opts * 2 * 1000) tck))] vs2;
                   rrfab = JEDEC_rounding_DDR5 (ddr5vrr_tRRFsb_TABLE ! 0 ! k * 1000) tck;
                   rrfsb = JEDEC_rounding_DDR5 (ddr5vrr_tRRFsb_TABLE ! 1 ! k * 1000) tck;
                   brc = o5_BRC opts
               in if o5_RH_radius opts < 0 then Inl Undefined_behaviour
                  else if brc < 1 then Inl (Bad_BRC brc)
                  else let vs4 = set_timings ts
                         [(''nDRFMab'', i32 (2 * brc * rrfab)), (''nDRFMsb'', i32 (2 * brc * rrfsb))] vs3
                       in Inr (if \<not> o5_PRAC opts then vs4
                         else set_timings ts
                           [(''nRAS'', i32 (JEDEC_rounding_DDR5 16000 tck)),
                            (''nRP'', i32 (JEDEC_rounding_DDR5 36000 tck)),
                            (''nRC'', i32 (JEDEC_rounding_DDR5 52000 tck)),
                            (''nRTP'', i32 (JEDEC_rounding_DDR5 5000 tck)),
                            (''nWR'', i32 (JEDEC_rounding_DDR5 10000 tck)),
                            (''nRFM1'', i32 ((2 * brc + 1) * rrfab)),
                            (''nRFMsb'', i32 ((2 * brc + 1) * rrfsb))] vs4)))"

definition ddr5vrr_future :: "(string \<times> string \<times> string) list" where
  "ddr5vrr_future = 
    [(''REFab'', ''nRFC1'', ''REFab_end''),
     (''REFsb'', ''nRFCsb'', ''REFsb_end''),
     (''RFMab'', ''nRFM1'', ''RFMab_end''),
     (''RFMsb'', ''nRFMsb'', ''RFMsb_end''),
     (''DRFMab'', ''nDRFMab'', ''DRFMab_end''),
     (''DRFMsb'', ''nDRFMsb'', ''DRFMsb_end''),
     (''VRR'', ''nVRR'', ''VRR_end'')]"

section \<open>The standard\<close>

definition ddr5vrr :: "ddr5_options \<Rightarrow> standard" where
  "ddr5vrr opts =
    \<lparr>st_channel_width = 32,
     st_org_presets = ddr5vrr_org_presets, st_timing_presets = ddr5vrr_timing_presets,
     st_levels = ddr5vrr_levels, st_commands = ddr5vrr_commands, st_scopes = ddr5vrr_scopes, st_meta = ddr5vrr_meta,
     st_requests = ddr5vrr_requests, st_translations = ddr5vrr_translations, st_timings = ddr5vrr_timings,
     st_init_states = ddr5vrr_init_states, st_density = ddr5vrr_density, st_secondary = ddr5vrr_secondary opts,
     st_rounding = JEDEC_rounding_DDR5, st_read_latency = [''nCL'', ''nBL''], st_constraints = ddr5vrr_constraints,
     st_finish = Inr, st_actions = ddr5vrr_actions, st_preqs = ddr5vrr_preqs, st_rowhits = ddr5vrr_rowhits, st_rowopens = ddr5vrr_rowopens,
     st_future = ddr5vrr_future\<rparr>"

end
