(* ===== verification/GDDR6_Device.thy ===== *)
theory GDDR6_Device
  imports Dram_Standard
begin

text \<open>
  The GDDR6 device of \<open>src/dram/impl/GDDR6.cpp\<close> as a value of \<open>standard\<close>: the presets, name tables and look-up
  tables, the function matrices, the timing constraints, and the timings computed from the organization.
\<close>

section \<open>Presets\<close>

definition gddr6_org_presets :: "(string \<times> organization) list" where
  "gddr6_org_presets = 
    [(''GDDR6_8Gb_x8'', \<lparr>org_density = 8 * 2 ^ 10, org_dq = 8, org_count = [2, 4, 4, 2 ^ 14, 2 ^ 11]\<rparr>),
     (''GDDR6_8Gb_x16'', \<lparr>org_density = 8 * 2 ^ 10, org_dq = 16, org_count = [2, 4, 4, 2 ^ 14, 2 ^ 10]\<rparr>),
     (''GDDR6_16Gb_x8'', \<lparr>org_density = 16 * 2 ^ 10, org_dq = 8, org_count = [2, 4, 4, 2 ^ 15, 2 ^ 11]\<rparr>),
     (''GDDR6_16Gb_x16'', \<lparr>org_density = 16 * 2 ^ 10, org_dq = 16, org_count = [2, 4, 4, 2 ^ 14, 2 ^ 11]\<rparr>),
     (''GDDR6_32Gb_x8'', \<lparr>org_density = 32 * 2 ^ 10, org_dq = 8, org_count = [2, 4, 4, 2 ^ 16, 2 ^ 11]\<rparr>),
     (''GDDR6_32Gb_x16'', \<lparr>org_density = 32 * 2 ^ 10, org_dq = 16, org_count = [2, 4, 4, 2 ^ 15, 2 ^ 11]\<rparr>)]"

definition gddr6_timing_presets :: "(string \<times> int list) list" where
  "gddr6_timing_presets = 
    [(''GDDR6_2000_1350mV_double'', [2000, 8, 24, 26, 16, 26, 53, 79, 26, 4, 6, 4, 6, 7, 7, 9, 11, 28, 210, 105, 14, 3333, 570]),
     (''GDDR6_2000_1250mV_double'', [2000, 8, 24, 30, 19, 30, 60, 89, 30, 4, 6, 4, 6, 11, 11, 9, 11, 42, 210, 105, 21, 3333, 570]),
     (''GDDR6_2000_1350mV_quad'', [2000, 4, 24, 26, 16, 26, 53, 79, 26, 4, 6, 4, 6, 7, 7, 9, 11, 28, 210, 105, 14, 3333, 570]),
     (''GDDR6_2000_1250mV_quad'', [2000, 4, 24, 30, 19, 30, 60, 89, 30, 4, 6, 4, 6, 11, 11, 9, 11, 42, 210, 105, 21, 3333, 570])]"

section \<open>Organization, commands, requests\<close>

definition gddr6_levels :: "name_table" where
  "gddr6_levels = 
    [''channel'', ''bankgroup'', ''bank'', ''row'', ''column'']"

definition gddr6_commands :: "name_table" where
  "gddr6_commands = 
    [''ACT'', ''PREA'', ''PRE'', ''RD'', ''WR'', ''RDA'', ''WRA'', ''REFab'', ''REFpb'', ''REFp2b'']"

definition gddr6_scopes :: "int list option" where
  "gddr6_scopes = lut_ids gddr6_commands gddr6_levels
    [(''REFab'', ''channel''), (''REFp2b'', ''channel''), (''ACT'', ''row''), (''PREA'', ''bank''),
     (''PRE'', ''bank''), (''REFpb'', ''bank''), (''RD'', ''column''), (''WR'', ''column''),
     (''RDA'', ''column''), (''WRA'', ''column'')]"

definition gddr6_meta :: "command_meta list option" where
  "gddr6_meta = lut_vals gddr6_commands
    [(''ACT'', cmeta True False False False), (''PREA'', cmeta False True False False),
     (''PRE'', cmeta False True False False), (''RD'', cmeta False False True False),
     (''WR'', cmeta False False True False), (''RDA'', cmeta False True True False),
     (''WRA'', cmeta False True True False), (''REFab'', cmeta False False False True),
     (''REFpb'', cmeta False False False True),
     (''REFp2b'', cmeta False False False True)]"

definition gddr6_requests :: "name_table" where
  "gddr6_requests = 
    [''read'', ''write'', ''all-bank-refresh'', ''PREsb'']"

definition gddr6_translations :: "int list option" where
  "gddr6_translations = lut_ids gddr6_requests gddr6_commands
    [(''read'', ''RD''), (''write'', ''WR''), (''all-bank-refresh'', ''REFab''), (''PREsb'', ''PRE'')]"

definition gddr6_timings :: "name_table" where
  "gddr6_timings = 
    [''rate'', ''nBL'', ''nCL'', ''nRCDRD'', ''nRCDWD'', ''nRP'', ''nRAS'', ''nRC'', ''nWR'', ''nRTP'',
     ''nCWL'', ''nCCDS'', ''nCCDL'', ''nRRDS'', ''nRRDL'', ''nWTRS'', ''nWTRL'', ''nFAW'', ''nRFC'',
     ''nREFI'', ''nRREFD'', ''nRFCpb'', ''tCK_ps'']"

definition gddr6_states :: "name_table" where
  "gddr6_states = 
    [''Opened'', ''Closed'', ''PowerUp'', ''N/A'', ''Refreshing'']"

definition gddr6_init_states :: "node_state list option" where
  "gddr6_init_states = lut_states gddr6_levels gddr6_states
    [(''channel'', ''N/A''), (''bankgroup'', ''N/A''), (''bank'', ''Closed''), (''row'', ''Closed''),
     (''column'', ''N/A'')]"

section \<open>Function matrices\<close>

definition gddr6_actions :: "action_fn option list list" where
  "gddr6_actions = fn_matrix gddr6_levels gddr6_commands
    [((''channel'', ''PREA''), Channel_PREab), ((''bank'', ''ACT''), Bank_ACT),
     ((''bank'', ''PRE''), Bank_PRE), ((''bank'', ''RDA''), Bank_PRE), ((''bank'', ''WRA''), Bank_PRE)]"

definition gddr6_preqs :: "preq_fn option list list" where
  "gddr6_preqs = fn_matrix gddr6_levels gddr6_commands
    [((''channel'', ''REFab''), Channel_RequireAllBanksClosed),
     ((''bank'', ''RD''), Bank_RequireRowOpen), ((''bank'', ''WR''), Bank_RequireRowOpen)]"

definition gddr6_rowhits :: "rowhit_fn option list list" where
  "gddr6_rowhits = fn_matrix gddr6_levels gddr6_commands
    [((''bank'', ''RD''), RowHit_RDWR), ((''bank'', ''WR''), RowHit_RDWR)]"

definition gddr6_rowopens :: "rowopen_fn option list list" where
  "gddr6_rowopens = fn_matrix gddr6_levels gddr6_commands
    [((''bank'', ''RD''), RowOpen_RDWR), ((''bank'', ''WR''), RowOpen_RDWR)]"

section \<open>Timing constraints\<close>

definition gddr6_constraints :: "(string \<Rightarrow> int) \<Rightarrow> tcons_init list" where
  "gddr6_constraints V =
    [tinit ''channel'' [''RD'', ''RDA''] [''RD'', ''RDA''] (V ''nBL''),
     tinit ''channel'' [''WR'', ''WRA''] [''WR'', ''WRA''] (V ''nBL''),
     tinit ''channel'' [''RD'', ''RDA''] [''RD'', ''RDA''] (V ''nCCDS''),
     tinit ''channel'' [''WR'', ''WRA''] [''WR'', ''WRA''] (V ''nCCDS''),
     tinit ''channel'' [''RD'', ''RDA''] [''WR'', ''WRA''] (V ''nCL'' + V ''nBL'' + 3 - V ''nCWL'' + 1),
     tinit ''channel'' [''WR'', ''WRA''] [''RD'', ''RDA''] (V ''nCWL'' + V ''nBL'' + V ''nWTRS''),
     tinit ''channel'' [''RD''] [''PREA''] (V ''nRTP''),
     tinit ''channel'' [''WR''] [''PREA''] (V ''nCWL'' + V ''nBL'' + V ''nWR''),
     tinit ''channel'' [''ACT''] [''ACT''] (V ''nRRDS''),
     tinit_window ''channel'' [''ACT''] [''ACT''] (V ''nFAW'') 4,
     tinit ''channel'' [''ACT''] [''PRE''] (V ''nRAS''),
     tinit ''channel'' [''PRE''] [''ACT''] (V ''nRP''),
     tinit ''channel'' [''ACT''] [''REFab''] (V ''nRC''),
     tinit ''channel'' [''PRE''] [''REFab''] (V ''nRP''),
     tinit ''channel'' [''RDA''] [''REFab''] (V ''nRP'' + V ''nRTP''),
     tinit ''channel'' [''WRA''] [''REFab''] (V ''nCWL'' + V ''nBL'' + V ''nWR'' + V ''nRP''),
     tinit ''channel'' [''REFab''] [''ACT''] (V ''nRFC''),
     tinit ''channel'' [''ACT''] [''REFp2b''] (V ''nRRDL''),
     tinit ''channel'' [''PRE''] [''REFp2b''] (V ''nRP''),
     tinit ''channel'' [''RDA''] [''REFp2b''] (V ''nRP'' + V ''nRTP''),
     tinit ''channel'' [''WRA''] [''REFp2b''] (V ''nCWL'' + V ''nBL'' + V ''nWR'' + V ''nRP''),
     tinit ''channel'' [''REFp2b''] [''ACT''] (V ''nRREFD''),
     tinit ''channel'' [''ACT''] [''REFpb''] (V ''nRRDL''),
     tinit ''channel'' [''PRE''] [''REFpb''] (V ''nRP''),
     tinit ''channel'' [''RDA''] [''REFpb''] (V ''nRP'' + V ''nRTP''),
     tinit ''channel'' [''WRA''] [''REFpb''] (V ''nCWL'' + V ''nBL'' + V ''nWR'' + V ''nRP''),
     tinit ''channel'' [''REFpb''] [''ACT''] (V ''nRREFD''),
     tinit ''bankgroup'' [''RD'', ''RDA''] [''RD'', ''RDA''] (V ''nCCDL''),
     tinit ''bankgroup'' [''WR'', ''WRA''] [''WR'', ''WRA''] (V ''nCCDL''),
     tinit ''bankgroup'' [''WR'', ''WRA''] [''RD'', ''RDA''] (V ''nCWL'' + V ''nBL'' + V ''nWTRL''),
     tinit ''bankgroup'' [''ACT''] [''ACT''] (V ''nRRDL''),
     tinit ''bank'' [''ACT''] [''RD'', ''RDA''] (V ''nRCDRD''),
     tinit ''bank'' [''ACT''] [''WR'', ''WRA''] (V ''nRCDWD''),
     tinit ''bank'' [''ACT''] [''PRE''] (V ''nRAS''),
     tinit ''bank'' [''PRE''] [''ACT''] (V ''nRP''),
     tinit ''bank'' [''RD''] [''PRE''] (V ''nRTP''),
     tinit ''bank'' [''WR''] [''PRE''] (V ''nCWL'' + V ''nBL'' + V ''nWR''),
     tinit ''bank'' [''RDA''] [''ACT''] (V ''nRTP'' + V ''nRP''),
     tinit ''bank'' [''WRA''] [''ACT''] (V ''nCWL'' + V ''nBL'' + V ''nWR'' + V ''nRP''),
     tinit ''bank'' [''ACT''] [''REFpb''] (V ''nRC''),
     tinit ''bank'' [''PRE''] [''REFpb''] (V ''nRP''),
     tinit ''bank'' [''RDA''] [''REFpb''] (V ''nRP'' + V ''nRTP''),
     tinit ''bank'' [''WRA''] [''REFpb''] (V ''nCWL'' + V ''nBL'' + V ''nWR'' + V ''nRP''),
     tinit ''bank'' [''REFpb''] [''ACT''] (V ''nRFCpb'')]"

section \<open>Configuration\<close>

definition gddr6_density :: "string list" where
  "gddr6_density = [''channel'', ''bankgroup'', ''bank'', ''row'', ''column'']"

definition gddr6_nRRDS_TABLE :: "int list list" where
  "gddr6_nRRDS_TABLE = [[4], [5]]"

definition gddr6_nRRDL_TABLE :: "int list list" where
  "gddr6_nRRDL_TABLE = [[5], [6]]"

definition gddr6_nFAW_TABLE :: "int list list" where
  "gddr6_nFAW_TABLE = [[20], [28]]"

definition gddr6_tRFC_TABLE :: "int list list" where
  "gddr6_tRFC_TABLE = [[260, 360, 550], [160, 260, 350], [110, 160, 260]]"

definition gddr6_secondary :: "organization \<Rightarrow> int \<Rightarrow> int list \<Rightarrow> config_error + int list" where
  "gddr6_secondary org tck vs =
     (let ts = gddr6_timings; rate = timing_val ts vs ''rate'';
          vs1 = (case (case_id [8, 16] (org_dq org), case_id [2000] rate) of
              (Some q, Some r) \<Rightarrow> set_timings ts
                [(''nRRDS'', gddr6_nRRDS_TABLE ! q ! r), (''nRRDL'', gddr6_nRRDL_TABLE ! q ! r), (''nFAW'', gddr6_nFAW_TABLE ! q ! r)] vs
            | _ \<Rightarrow> vs)
      in case case_id [4096, 8192, 16384] (org_density org) of
           None \<Rightarrow> Inl Undefined_behaviour
         | Some k \<Rightarrow> Inr (set_timings ts
             [(''nRFC'', i32 (JEDEC_rounding (gddr6_tRFC_TABLE ! 0 ! k * 1000) tck)),
              (''nREFI'', i32 (JEDEC_rounding 7800000 tck))] vs1))"

section \<open>The standard\<close>

definition gddr6 :: "standard" where
  "gddr6 =
    \<lparr>st_channel_width = 64,
     st_org_presets = gddr6_org_presets, st_timing_presets = gddr6_timing_presets,
     st_levels = gddr6_levels, st_commands = gddr6_commands, st_scopes = gddr6_scopes, st_meta = gddr6_meta,
     st_requests = gddr6_requests, st_translations = gddr6_translations, st_timings = gddr6_timings,
     st_init_states = gddr6_init_states, st_density = gddr6_density, st_secondary = gddr6_secondary,
     st_rounding = JEDEC_rounding, st_read_latency = [''nCL'', ''nBL''], st_constraints = gddr6_constraints,
     st_finish = Inr, st_actions = gddr6_actions, st_preqs = gddr6_preqs, st_rowhits = gddr6_rowhits, st_rowopens = gddr6_rowopens,
     st_future = []\<rparr>"

end
