(* ===== verification/HBM_Device.thy ===== *)
theory HBM_Device
  imports Dram_Standard
begin

text \<open>
  The HBM device of \<open>src/dram/impl/HBM.cpp\<close> as a value of \<open>standard\<close>: the presets, name tables and look-up
  tables, the function matrices, the timing constraints, and the timings computed from the organization.
\<close>

section \<open>Presets\<close>

definition hbm_org_presets :: "(string \<times> organization) list" where
  "hbm_org_presets = 
    [(''HBM_1Gb'', \<lparr>org_density = 2 ^ 10, org_dq = 128, org_count = [1, 4, 2, 2 ^ 13, 2 ^ 7]\<rparr>),
     (''HBM_2Gb'', \<lparr>org_density = 2 * 2 ^ 10, org_dq = 128, org_count = [1, 4, 2, 2 ^ 14, 2 ^ 7]\<rparr>),
     (''HBM_4Gb'', \<lparr>org_density = 4 * 2 ^ 10, org_dq = 128, org_count = [1, 4, 4, 2 ^ 14, 2 ^ 7]\<rparr>)]"

definition hbm_timing_presets :: "(string \<times> int list) list" where
  "hbm_timing_presets = 
    [(''HBM_2Gbps'', [2000, 2, 7, 7, 7, 7, 17, 19, 8, 2, 3, 2, 1, 2, 2, 3, 3, 4, 3, 15, -1, 160, 3900, -1, 8, 1000])]"

section \<open>Organization, commands, requests\<close>

definition hbm_levels :: "name_table" where
  "hbm_levels = 
    [''channel'', ''bankgroup'', ''bank'', ''row'', ''column'']"

definition hbm_commands :: "name_table" where
  "hbm_commands = 
    [''ACT'', ''PRE'', ''PREA'', ''RD'', ''WR'', ''RDA'', ''WRA'', ''REFab'', ''REFsb'']"

definition hbm_scopes :: "int list option" where
  "hbm_scopes = lut_ids hbm_commands hbm_levels
    [(''ACT'', ''row''), (''PRE'', ''bank''), (''PREA'', ''channel''), (''RD'', ''column''),
     (''WR'', ''column''), (''RDA'', ''column''), (''WRA'', ''column''), (''REFab'', ''channel''),
     (''REFsb'', ''bank'')]"

definition hbm_meta :: "command_meta list option" where
  "hbm_meta = lut_vals hbm_commands
    [(''ACT'', cmeta True False False False), (''PRE'', cmeta False True False False),
     (''PREA'', cmeta False True False False), (''RD'', cmeta False False True False),
     (''WR'', cmeta False False True False), (''RDA'', cmeta False True True False),
     (''WRA'', cmeta False True True False), (''REFab'', cmeta False False False True),
     (''REFsb'', cmeta False False False True)]"

definition hbm_requests :: "name_table" where
  "hbm_requests = 
    [''read'', ''write'', ''all-bank-refresh'', ''per-bank-refresh'']"

definition hbm_translations :: "int list option" where
  "hbm_translations = lut_ids hbm_requests hbm_commands
    [(''read'', ''RD''), (''write'', ''WR''), (''all-bank-refresh'', ''REFab''),
     (''per-bank-refresh'', ''REFsb'')]"

definition hbm_timings :: "name_table" where
  "hbm_timings = 
    [''rate'', ''nBL'', ''nCL'', ''nRCDRD'', ''nRCDWR'', ''nRP'', ''nRAS'', ''nRC'', ''nWR'',
     ''nRTPS'', ''nRTPL'', ''nCWL'', ''nCCDS'', ''nCCDL'', ''nRRDS'', ''nRRDL'', ''nWTRS'', ''nWTRL'',
     ''nRTW'', ''nFAW'', ''nRFC'', ''nRFCSB'', ''nREFI'', ''nREFISB'', ''nRREFD'', ''tCK_ps'']"

definition hbm_states :: "name_table" where
  "hbm_states = 
    [''Opened'', ''Closed'', ''N/A'', ''Refreshing'']"

definition hbm_init_states :: "node_state list option" where
  "hbm_init_states = lut_states hbm_levels hbm_states
    [(''channel'', ''N/A''), (''bankgroup'', ''N/A''), (''bank'', ''Closed''), (''row'', ''Closed''),
     (''column'', ''N/A'')]"

section \<open>Function matrices\<close>

definition hbm_actions :: "action_fn option list list" where
  "hbm_actions = fn_matrix hbm_levels hbm_commands
    [((''channel'', ''PREA''), Channel_PREab), ((''bank'', ''ACT''), Bank_ACT),
     ((''bank'', ''PRE''), Bank_PRE), ((''bank'', ''RDA''), Bank_PRE), ((''bank'', ''WRA''), Bank_PRE)]"

definition hbm_preqs :: "preq_fn option list list" where
  "hbm_preqs = fn_matrix hbm_levels hbm_commands
    [((''channel'', ''REFab''), Channel_RequireAllBanksClosed),
     ((''bank'', ''REFsb''), Bank_RequireBankClosed), ((''bank'', ''RD''), Bank_RequireRowOpen),
     ((''bank'', ''WR''), Bank_RequireRowOpen)]"

definition hbm_rowhits :: "rowhit_fn option list list" where
  "hbm_rowhits = fn_matrix hbm_levels hbm_commands
    [((''bank'', ''RD''), RowHit_RDWR), ((''bank'', ''WR''), RowHit_RDWR)]"

definition hbm_rowopens :: "rowopen_fn option list list" where
  "hbm_rowopens = fn_matrix hbm_levels hbm_commands
    [((''bank'', ''RD''), RowOpen_RDWR), ((''bank'', ''WR''), RowOpen_RDWR)]"

section \<open>Timing constraints\<close>

definition hbm_constraints :: "(string \<Rightarrow> int) \<Rightarrow> tcons_init list" where
  "hbm_constraints V =
    [tinit ''channel'' [''ACT''] [''ACT'', ''PRE'', ''PREA'', ''REFab'', ''REFsb''] 2,
     tinit ''channel'' [''ACT''] [''ACT''] (V ''nRRDS''),
     tinit_window ''channel'' [''ACT''] [''ACT''] (V ''nFAW'') 4,
     tinit ''channel'' [''ACT''] [''REFsb''] (V ''nRRDS'' + 1),
     tinit ''channel'' [''REFsb''] [''REFsb''] (V ''nRREFD''),
     tinit ''channel'' [''REFsb''] [''ACT''] (V ''nRREFD'' - 1),
     tinit ''channel'' [''RD'', ''RDA''] [''RD'', ''RDA''] (V ''nBL''),
     tinit ''channel'' [''WR'', ''WRA''] [''WR'', ''WRA''] (V ''nBL''),
     tinit ''channel'' [''RD'', ''RDA''] [''RD'', ''RDA''] (V ''nCCDS''),
     tinit ''channel'' [''WR'', ''WRA''] [''WR'', ''WRA''] (V ''nCCDS''),
     tinit ''channel'' [''RD'', ''RDA''] [''WR'', ''WRA''] (V ''nCL'' + V ''nBL'' + 2 - V ''nCWL''),
     tinit ''channel'' [''WR'', ''WRA''] [''RD'', ''RDA''] (V ''nCWL'' + V ''nBL'' + V ''nWTRS''),
     tinit ''channel'' [''RD''] [''PREA''] (V ''nRTPS''),
     tinit ''channel'' [''WR''] [''PREA''] (V ''nCWL'' + V ''nBL'' + V ''nWR''),
     tinit ''channel'' [''ACT''] [''ACT''] (V ''nRRDS''),
     tinit_window ''channel'' [''ACT''] [''ACT''] (V ''nFAW'') 4,
     tinit ''channel'' [''ACT''] [''PREA''] (V ''nRAS''),
     tinit ''channel'' [''PREA''] [''ACT''] (V ''nRP''),
     tinit ''channel'' [''ACT''] [''REFab''] (V ''nRC''),
     tinit ''channel'' [''PRE'', ''PREA''] [''REFab''] (V ''nRP''),
     tinit ''channel'' [''RDA''] [''REFab''] (V ''nRP'' + V ''nRTPS''),
     tinit ''channel'' [''WRA''] [''REFab''] (V ''nCWL'' + V ''nBL'' + V ''nWR'' + V ''nRP''),
     tinit ''channel'' [''REFab''] [''ACT'', ''REFsb''] (V ''nRFC''),
     tinit ''bankgroup'' [''RD'', ''RDA''] [''RD'', ''RDA''] (V ''nCCDL''),
     tinit ''bankgroup'' [''WR'', ''WRA''] [''WR'', ''WRA''] (V ''nCCDL''),
     tinit ''bankgroup'' [''WR'', ''WRA''] [''RD'', ''RDA''] (V ''nCWL'' + V ''nBL'' + V ''nWTRL''),
     tinit ''bankgroup'' [''ACT''] [''ACT''] (V ''nRRDL''),
     tinit ''bankgroup'' [''ACT''] [''REFsb''] (V ''nRRDL'' + 1),
     tinit ''bankgroup'' [''REFsb''] [''ACT''] (V ''nRRDL'' - 1),
     tinit ''bank'' [''RD''] [''PRE''] (V ''nRTPS''),
     tinit ''bank'' [''ACT''] [''ACT''] (V ''nRC''),
     tinit ''bank'' [''ACT''] [''RD'', ''RDA''] (V ''nRCDRD''),
     tinit ''bank'' [''ACT''] [''WR'', ''WRA''] (V ''nRCDWR''),
     tinit ''bank'' [''ACT''] [''PRE''] (V ''nRAS''),
     tinit ''bank'' [''PRE''] [''ACT''] (V ''nRP''),
     tinit ''bank'' [''RD''] [''PRE''] (V ''nRTPL''),
     tinit ''bank'' [''WR''] [''PRE''] (V ''nCWL'' + V ''nBL'' + V ''nWR''),
     tinit ''bank'' [''RDA''] [''ACT'', ''REFsb''] (V ''nRTPL'' + V ''nRP''),
     tinit ''bank'' [''WRA''] [''ACT'', ''REFsb''] (V ''nCWL'' + V ''nBL'' + V ''nWR'' + V ''nRP'')]"

section \<open>Configuration\<close>

definition hbm_density :: "string list" where
  "hbm_density = [''bankgroup'', ''bank'', ''row'', ''column'']"

definition hbm_tRFC_TABLE :: "int list list" where
  "hbm_tRFC_TABLE = [[160, 260, 350, 450]]"

definition hbm_secondary :: "organization \<Rightarrow> int \<Rightarrow> int list \<Rightarrow> config_error + int list" where
  "hbm_secondary org tck vs =
     (let ts = hbm_timings
      in case case_id [2048, 4096, 8192, 16384] (org_density org) of
           None \<Rightarrow> Inl Undefined_behaviour
         | Some k \<Rightarrow> Inr (set_timings ts
             [(''nRFC'', i32 (JEDEC_rounding (hbm_tRFC_TABLE ! 0 ! k * 1000) tck)),
              (''nREFISB'', i32 (JEDEC_rounding (hbm_tRFC_TABLE ! 0 ! k * 1000) tck))] vs))"

section \<open>The standard\<close>

definition hbm :: "standard" where
  "hbm =
    \<lparr>st_channel_width = 128,
     st_org_presets = hbm_org_presets, st_timing_presets = hbm_timing_presets,
     st_levels = hbm_levels, st_commands = hbm_commands, st_scopes = hbm_scopes, st_meta = hbm_meta,
     st_requests = hbm_requests, st_translations = hbm_translations, st_timings = hbm_timings,
     st_init_states = hbm_init_states, st_density = hbm_density, st_secondary = hbm_secondary,
     st_rounding = JEDEC_rounding, st_read_latency = [''nCL'', ''nBL''], st_constraints = hbm_constraints,
     st_finish = Inr, st_actions = hbm_actions, st_preqs = hbm_preqs, st_rowhits = hbm_rowhits, st_rowopens = hbm_rowopens,
     st_future = []\<rparr>"

end
