(* ===== verification/HBM2_Device.thy ===== *)
theory HBM2_Device
  imports Dram_Standard
begin

text \<open>
  The HBM2 device of \<open>src/dram/impl/HBM2.cpp\<close> as a value of \<open>standard\<close>: the presets, name tables and look-up
  tables, the function matrices, the timing constraints, and the timings computed from the organization.
\<close>

section \<open>Presets\<close>

definition hbm2_org_presets :: "(string \<times> organization) list" where
  "hbm2_org_presets = 
    [(''HBM2_2Gb'', \<lparr>org_density = 2 * 2 ^ 10, org_dq = 128, org_count = [1, 2, 4, 2, 2 ^ 14, 2 ^ 6]\<rparr>),
     (''HBM2_4Gb'', \<lparr>org_density = 4 * 2 ^ 10, org_dq = 128, org_count = [1, 2, 4, 4, 2 ^ 14, 2 ^ 6]\<rparr>),
     (''HBM2_8Gb'', \<lparr>org_density = 8 * 2 ^ 10, org_dq = 128, org_count = [1, 2, 4, 4, 2 ^ 15, 2 ^ 6]\<rparr>)]"

definition hbm2_timing_presets :: "(string \<times> int list) list" where
  "hbm2_timing_presets = 
    [(''HBM2_2Gbps'', [2000, 4, 7, 7, 7, 7, 17, 19, 8, 2, 3, 2, 1, 2, 2, 3, 3, 4, 3, 15, -1, 160, 3900, -1, 8, 1000])]"

section \<open>Organization, commands, requests\<close>

definition hbm2_levels :: "name_table" where
  "hbm2_levels = 
    [''channel'', ''pseudochannel'', ''bankgroup'', ''bank'', ''row'', ''column'']"

definition hbm2_commands :: "name_table" where
  "hbm2_commands = 
    [''ACT'', ''PRE'', ''PREA'', ''RD'', ''WR'', ''RDA'', ''WRA'', ''REFab'', ''REFsb'']"

definition hbm2_scopes :: "int list option" where
  "hbm2_scopes = lut_ids hbm2_commands hbm2_levels
    [(''ACT'', ''row''), (''PRE'', ''bank''), (''PREA'', ''channel''), (''RD'', ''column''),
     (''WR'', ''column''), (''RDA'', ''column''), (''WRA'', ''column''), (''REFab'', ''channel''),
     (''REFsb'', ''bank'')]"

definition hbm2_meta :: "command_meta list option" where
  "hbm2_meta = lut_vals hbm2_commands
    [(''ACT'', cmeta True False False False), (''PRE'', cmeta False True False False),
     (''PREA'', cmeta False True False False), (''RD'', cmeta False False True False),
     (''WR'', cmeta False False True False), (''RDA'', cmeta False True True False),
     (''WRA'', cmeta False True True False), (''REFab'', cmeta False False False True),
     (''REFsb'', cmeta False False False True)]"

definition hbm2_requests :: "name_table" where
  "hbm2_requests = 
    [''read'', ''write'', ''all-bank-refresh'', ''per-bank-refresh'']"

definition hbm2_translations :: "int list option" where
  "hbm2_translations = lut_ids hbm2_requests hbm2_commands
    [(''read'', ''RD''), (''write'', ''WR''), (''all-bank-refresh'', ''REFab''),
     (''per-bank-refresh'', ''REFsb'')]"

definition hbm2_timings :: "name_table" where
  "hbm2_timings = 
    [''rate'', ''nBL'', ''nCL'', ''nRCDRD'', ''nRCDWR'', ''nRP'', ''nRAS'', ''nRC'', ''nWR'',
     ''nRTPS'', ''nRTPL'', ''nCWL'', ''nCCDS'', ''nCCDL'', ''nRRDS'', ''nRRDL'', ''nWTRS'', ''nWTRL'',
     ''nRTW'', ''nFAW'', ''nRFC'', ''nRFCSB'', ''nREFI'', ''nREFISB'', ''nRREFD'', ''tCK_ps'']"

definition hbm2_states :: "name_table" where
  "hbm2_states = 
    [''Opened'', ''Closed'', ''N/A'', ''Refreshing'']"

definition hbm2_init_states :: "node_state list option" where
  "hbm2_init_states = lut_states hbm2_levels hbm2_states
    [(''channel'', ''N/A''), (''pseudochannel'', ''N/A''), (''bankgroup'', ''N/A''),
     (''bank'', ''Closed''), (''row'', ''Closed''), (''column'', ''N/A'')]"

section \<open>Function matrices\<close>

definition hbm2_actions :: "action_fn option list list" where
  "hbm2_actions = fn_matrix hbm2_levels hbm2_commands
    [((''channel'', ''PREA''), Channel_PREab), ((''bank'', ''ACT''), Bank_ACT),
     ((''bank'', ''PRE''), Bank_PRE), ((''bank'', ''RDA''), Bank_PRE), ((''bank'', ''WRA''), Bank_PRE)]"

definition hbm2_preqs :: "preq_fn option list list" where
  "hbm2_preqs = fn_matrix hbm2_levels hbm2_commands
    [((''channel'', ''REFab''), Channel_RequireAllBanksClosed),
     ((''bank'', ''REFsb''), Bank_RequireBankClosed), ((''bank'', ''RD''), Bank_RequireRowOpen),
     ((''bank'', ''WR''), Bank_RequireRowOpen)]"

definition hbm2_rowhits :: "rowhit_fn option list list" where
  "hbm2_rowhits = fn_matrix hbm2_levels hbm2_commands
    [((''bank'', ''RD''), RowHit_RDWR), ((''bank'', ''WR''), RowHit_RDWR)]"

definition hbm2_rowopens :: "rowopen_fn option list list" where
  "hbm2_rowopens = fn_matrix hbm2_levels hbm2_commands
    [((''bank'', ''RD''), RowOpen_RDWR), ((''bank'', ''WR''), RowOpen_RDWR)]"

section \<open>Timing constraints\<close>

definition hbm2_constraints :: "(string \<Rightarrow> int) \<Rightarrow> tcons_init list" where
  "hbm2_constraints V =
    [tinit ''channel'' [''ACT''] [''ACT'', ''PRE'', ''PREA'', ''REFab'', ''REFsb''] 2,
     tinit ''pseudochannel'' [''ACT''] [''ACT''] (V ''nRRDS''),
     tinit_window ''pseudochannel'' [''ACT''] [''ACT''] (V ''nFAW'') 4,
     tinit ''pseudochannel'' [''ACT''] [''REFsb''] (V ''nRRDS'' + 1),
     tinit ''pseudochannel'' [''REFsb''] [''REFsb''] (V ''nRREFD''),
     tinit ''pseudochannel'' [''REFsb''] [''ACT''] (V ''nRREFD'' - 1),
     tinit ''pseudochannel'' [''RD'', ''RDA''] [''RD'', ''RDA''] (V ''nBL''),
     tinit ''pseudochannel'' [''WR'', ''WRA''] [''WR'', ''WRA''] (V ''nBL''),
     tinit ''pseudochannel'' [''RD'', ''RDA''] [''RD'', ''RDA''] (V ''nCCDS''),
     tinit ''pseudochannel'' [''WR'', ''WRA''] [''WR'', ''WRA''] (V ''nCCDS''),
     tinit ''pseudochannel'' [''RD'', ''RDA''] [''WR'', ''WRA''] (V ''nCL'' + V ''nBL'' + 2 - V ''nCWL''),
     tinit ''pseudochannel'' [''WR'', ''WRA''] [''RD'', ''RDA''] (V ''nCWL'' + V ''nBL'' + V ''nWTRS''),
     tinit ''pseudochannel'' [''RD''] [''PREA''] (V ''nRTPS''),
     tinit ''pseudochannel'' [''WR''] [''PREA''] (V ''nCWL'' + V ''nBL'' + V ''nWR''),
     tinit ''pseudochannel'' [''ACT''] [''ACT''] (V ''nRRDS''),
     tinit_window ''pseudochannel'' [''ACT''] [''ACT''] (V ''nFAW'') 4,
     tinit ''pseudochannel'' [''ACT''] [''PREA''] (V ''nRAS''),
     tinit ''pseudochannel'' [''PREA''] [''ACT''] (V ''nRP''),
     tinit ''pseudochannel'' [''ACT''] [''REFab''] (V ''nRC''),
     tinit ''pseudochannel'' [''PRE'', ''PREA''] [''REFab''] (V ''nRP''),
     tinit ''pseudochannel'' [''RDA''] [''REFab''] (V ''nRP'' + V ''nRTPS''),
     tinit ''pseudochannel'' [''WRA''] [''REFab''] (V ''nCWL'' + V ''nBL'' + V ''nWR'' + V ''nRP''),
     tinit ''pseudochannel'' [''REFab''] [''ACT'', ''REFsb''] (V ''nRFC''),
     tinit ''bankgroup'' [''RD'', ''RDA''] [''RD'', ''RDA''] (V ''nCCDL''),
     tinit ''bankgroup'' [''WR'', ''WRA''] [''WR'', ''WRA''] (V ''nCCDL''),
     tinit ''bankgroup'' [''WR'', ''WRA''] [''RD'', ''RDA''] (V ''nCWL'' + V ''nBL'' + V ''nWTRL''),
     tinit ''bankgroup'' [''ACT''] [''ACT''] (V ''nRRDL''),
     tinit ''bankgroup'' [''ACT''] [''REFsb''] (V ''nRRDL'' + 1),
     tinit ''bankgroup'' [''REFsb''] [''ACT''] (V ''nRRDL'' - 1),
     tinit ''bank'' [''RD''] [''PRE''] (V ''nRTPS''),
     tinit ''bank'' [''ACT''] [''ACT''] (V ''nRC''),
     tinit ''bank'' [''ACT''] [''RD'', ''RDA''] (V ''nRCDRD''),
     tinit ''bank'' [''ACT''] [''WR'', ''WRA''] (V ''nRCDWR''),
     tinit ''bank'' [''ACT''] [''PRE''] (V ''nRAS''),
     tinit ''bank'' [''PRE''] [''ACT''] (V ''nRP''),
     tinit ''bank'' [''RD''] [''PRE''] (V ''nRTPL''),
     tinit ''bank'' [''WR''] [''PRE''] (V ''nCWL'' + V ''nBL'' + V ''nWR''),
     tinit ''bank'' [''RDA''] [''ACT'', ''REFsb''] (V ''nRTPL'' + V ''nRP''),
     tinit ''bank'' [''WRA''] [''ACT'', ''REFsb''] (V ''nCWL'' + V ''nBL'' + V ''nWR'' + V ''nRP'')]"

section \<open>Configuration\<close>

definition hbm2_density :: "string list" where
  "hbm2_density = [''pseudochannel'', ''bankgroup'', ''bank'', ''row'', ''column'']"

definition hbm2_tRFC_TABLE :: "int list list" where
  "hbm2_tRFC_TABLE = [[160, 260, 350, 450]]"

definition hbm2_secondary :: "organization \<Rightarrow> int \<Rightarrow> int list \<Rightarrow> config_error + int list" where
  "hbm2_secondary org tck vs =
     (let ts = hbm2_timings
      in case case_id [2048, 4096, 8192, 16384] (org_density org) of
           None \<Rightarrow> Inl Undefined_behaviour
         | Some k \<Rightarrow> Inr (set_timings ts
             [(''nRFC'', i32 (JEDEC_rounding (hbm2_tRFC_TABLE ! 0 ! k * 1000) tck)),
              (''nREFISB'', i32 (JEDEC_rounding (hbm2_tRFC_TABLE ! 0 ! k * 1000) tck))] vs))"

section \<open>The standard\<close>

definition hbm2 :: "standard" where
  "hbm2 =
    \<lparr>st_channel_width = 64,
     st_org_presets = hbm2_org_presets, st_timing_presets = hbm2_timing_presets,
     st_levels = hbm2_levels, st_commands = hbm2_commands, st_scopes = hbm2_scopes, st_meta = hbm2_meta,
     st_requests = hbm2_requests, st_translations = hbm2_translations, st_timings = hbm2_timings,
     st_init_states = hbm2_init_states, st_density = hbm2_density, st_secondary = hbm2_secondary,
     st_rounding = JEDEC_rounding, st_read_latency = [''nCL'', ''nBL''], st_constraints = hbm2_constraints,
     st_finish = Inr, st_actions = hbm2_actions, st_preqs = hbm2_preqs, st_rowhits = hbm2_rowhits, st_rowopens = hbm2_rowopens,
     st_future = []\<rparr>"

end
