(* ===== verification/Standards.thy ===== *)
theory Standards
  imports Standard_Rows DDR3_Device DDR4_Device DDR4VRR_Device DDR4RVRR_Device
    DDR5_Device DDR5VRR_Device DDR5RVRR_Device
    GDDR6_Device HBM_Device HBM2_Device
begin

text \<open>
  The implementations of \<open>IDRAM\<close> whose operations are those of \<open>Dram_Standard\<close>, and what holds for all of
  them: each is an instance of \<open>dram_standard\<close>, so its \<open>check_ready\<close> is exactly its timing rules, every row of its
  constraint table is enforced and its operations never index out of range. Which presets can be configured.
\<close>

section \<open>The implementations\<close>

datatype dram_impl =
    DDR3 | DDR4 | DDR4_VRR int | DDR4_RVRR rvrr_options
  | DDR5 ddr5_options | DDR5_VRR ddr5_options | DDR5_RVRR rvrr_options
  | GDDR6 | HBM | HBM2

fun standard_of :: "dram_impl \<Rightarrow> standard" where
  "standard_of DDR3 = ddr3"
| "standard_of DDR4 = ddr4"
| "standard_of (DDR4_VRR radius) = ddr4vrr radius"
| "standard_of (DDR4_RVRR opts) = ddr4rvrr opts"
| "standard_of (DDR5 opts) = ddr5 opts"
| "standard_of (DDR5_VRR opts) = ddr5vrr opts"
| "standard_of (DDR5_RVRR opts) = ddr5rvrr opts"
| "standard_of GDDR6 = gddr6"
| "standard_of HBM = hbm"
| "standard_of HBM2 = hbm2"

section \<open>Each is a standard\<close>

text \<open>The tables of a standard do not depend on its options, so \<open>code_simp\<close> decides the conditions on them.\<close>

lemma ddr3_ok: "standard_ok ddr3"
  by code_simp

lemma ddr4_ok: "standard_ok ddr4"
  by code_simp

lemma ddr4vrr_ok: "standard_ok (ddr4vrr radius)"
  by code_simp

lemma ddr4rvrr_ok: "standard_ok (ddr4rvrr opts)"
  by code_simp

lemma ddr5_ok: "standard_ok (ddr5 opts)"
  by code_simp

lemma ddr5vrr_ok: "standard_ok (ddr5vrr opts)"
  by code_simp

lemma ddr5rvrr_ok: "standard_ok (ddr5rvrr opts)"
  by code_simp

lemma gddr6_ok: "standard_ok gddr6"
  by code_simp

lemma hbm_ok: "standard_ok hbm"
  by code_simp

lemma hbm2_ok: "standard_ok hbm2"
  by code_simp

lemma standard_ok_of: "standard_ok (standard_of k)"
  using ddr3_ok ddr4_ok ddr4vrr_ok ddr4rvrr_ok ddr5_ok ddr5vrr_ok ddr5rvrr_ok gddr6_ok hbm_ok hbm2_ok by (cases k) simp_all

lemma tinit_row_ok [simp]:
  "init_names_ok levels cmds (tinit lv ps fs lat) \<longleftrightarrow> lv \<in> set levels \<and> set ps \<subseteq> set cmds \<and> set fs \<subseteq> set cmds"
  "init_names_ok levels cmds (tinit_window lv ps fs lat w) \<longleftrightarrow> lv \<in> set levels \<and> set ps \<subseteq> set cmds \<and> set fs \<subseteq> set cmds"
  "init_names_ok levels cmds (tinit_sibling lv ps fs lat) \<longleftrightarrow> lv \<in> set levels \<and> set ps \<subseteq> set cmds \<and> set fs \<subseteq> set cmds"
  "ti_window (tinit lv ps fs lat) = 1" "ti_window (tinit_window lv ps fs lat w) = w" "ti_window (tinit_sibling lv ps fs lat) = 1"
  by (simp_all add: init_names_ok_def tinit_def tinit_window_def tinit_sibling_def)

lemma ddr3_rows: "\<forall>ti \<in> set (st_constraints ddr3 V). init_names_ok (st_levels ddr3) (st_commands ddr3) ti \<and> 1 \<le> ti_window ti"
  by (simp add: ddr3_def ddr3_constraints_def ddr3_levels_def ddr3_commands_def)

lemma ddr4_rows: "\<forall>ti \<in> set (st_constraints ddr4 V). init_names_ok (st_levels ddr4) (st_commands ddr4) ti \<and> 1 \<le> ti_window ti"
  by (simp add: ddr4_def ddr4_constraints_def ddr4_levels_def ddr4_commands_def)

lemma ddr4vrr_rows: "\<forall>ti \<in> set (st_constraints (ddr4vrr radius) V). init_names_ok (st_levels (ddr4vrr radius)) (st_commands (ddr4vrr radius)) ti \<and> 1 \<le> ti_window ti"
  by (simp add: ddr4vrr_def ddr4vrr_constraints_def ddr4vrr_levels_def ddr4vrr_commands_def)

lemma ddr4rvrr_rows: "\<forall>ti \<in> set (st_constraints (ddr4rvrr opts) V). init_names_ok (st_levels (ddr4rvrr opts)) (st_commands (ddr4rvrr opts)) ti \<and> 1 \<le> ti_window ti"
  by (simp add: ddr4rvrr_def ddr4rvrr_constraints_def ddr4rvrr_levels_def ddr4rvrr_commands_def)

lemma ddr5_rows: "\<forall>ti \<in> set (st_constraints (ddr5 opts) V). init_names_ok (st_levels (ddr5 opts)) (st_commands (ddr5 opts)) ti \<and> 1 \<le> ti_window ti"
  by (simp add: ddr5_def ddr5_constraints_def ddr5_levels_def ddr5_commands_def)

lemma ddr5vrr_rows: "\<forall>ti \<in> set (st_constraints (ddr5vrr opts) V). init_names_ok (st_levels (ddr5vrr opts)) (st_commands (ddr5vrr opts)) ti \<and> 1 \<le> ti_window ti"
  by (simp add: ddr5vrr_def ddr5vrr_constraints_def ddr5vrr_levels_def ddr5vrr_commands_def)

lemma ddr5rvrr_rows: "\<forall>ti \<in> set (st_constraints (ddr5rvrr opts) V). init_names_ok (st_levels (ddr5rvrr opts)) (st_commands (ddr5rvrr opts)) ti \<and> 1 \<le> ti_window ti"
  by (simp add: ddr5rvrr_def ddr5rvrr_constraints_def ddr5rvrr_levels_def ddr5rvrr_commands_def)

lemma gddr6_rows: "\<forall>ti \<in> set (st_constraints gddr6 V). init_names_ok (st_levels gddr6) (st_commands gddr6) ti \<and> 1 \<le> ti_window ti"
  by (simp add: gddr6_def gddr6_constraints_def gddr6_levels_def gddr6_commands_def)

lemma hbm_rows: "\<forall>ti \<in> set (st_constraints hbm V). init_names_ok (st_levels hbm) (st_commands hbm) ti \<and> 1 \<le> ti_window ti"
  by (simp add: hbm_def hbm_constraints_def hbm_levels_def hbm_commands_def)

lemma hbm2_rows: "\<forall>ti \<in> set (st_constraints hbm2 V). init_names_ok (st_levels hbm2) (st_commands hbm2) ti \<and> 1 \<le> ti_window ti"
  by (simp add: hbm2_def hbm2_constraints_def hbm2_levels_def hbm2_commands_def)

lemma constraints_ok_of:
  "ti \<in> set (st_constraints (standard_of k) V) \<Longrightarrow>
     init_names_ok (st_levels (standard_of k)) (st_commands (standard_of k)) ti \<and> 1 \<le> ti_window ti"
  using ddr3_rows ddr4_rows ddr4vrr_rows ddr4rvrr_rows ddr5_rows ddr5vrr_rows ddr5rvrr_rows gddr6_rows hbm_rows hbm2_rows by (cases k) simp_all

interpretation std: dram_standard "standard_of k" for k
  using standard_ok_of constraints_ok_of by unfold_locales blast+

section \<open>Timing\<close>

text \<open>C10: for every implementation whose operations are those of \<open>Dram_Standard\<close> (DDR3, DDR4, DDR4-VRR,
  DDR4-RVRR, DDR5, DDR5-VRR, DDR5-RVRR, GDDR6, HBM, HBM2), the constraint table is what \<open>check_ready\<close> decides: in every state a run of ticks
  and commands reaches, it accepts a command exactly when no row of the table forbids it, that is, when at
  no node the address names down to the scope of the command is less than the latency of a row gone since the
  window-th latest preceding command to that node or, for a sibling row, since one to a sibling.\<close>

theorem check_ready_is_the_table:
  assumes "dev_init (standard_of k) cf = Inr d0" "dev_run (standard_of k) d0 log d" "dev_check_ready d f av = Some b"
    and "0 \<le> f" "f < int (length (st_commands (standard_of k)))"
  shows "b \<longleftrightarrow> (\<forall>ti \<in> set (st_constraints (standard_of k)
      (timing_val (st_timings (standard_of k)) (dv_timing_vals d0))). \<not> row_blocks (standard_of k) d0 log f av (dv_clk d) ti)"
  using std.dev_check_ready_rows [OF assms] .

section \<open>Operations\<close>

text \<open>C22: the operations of each of these devices are defined: in every state a run reaches whose commands went to
  addresses that fit the organization, \<open>check_ready\<close> answers, \<open>issue_command\<close> succeeds and a tick, with the
  future actions that are due, succeeds; no level, table or function matrix is indexed out of range.\<close>

theorem standard_operations_total:
  assumes "dev_init (standard_of k) cf = Inr d0" "dev_run (standard_of k) d0 log d" "dev_on (standard_of k) d0 av"
    and "0 \<le> cmd" "cmd < int (length (st_commands (standard_of k)))"
    and "\<forall>c \<in> set log. dev_on (standard_of k) d0 (cr_addr c)"
  shows "\<exists>b d1 d2. dev_check_ready d cmd av = Some b \<and> dev_issue_command (standard_of k) d cmd av = Some d1 \<and>
    dev_tick (standard_of k) d = Some d2"
  using std.dev_check_ready_total [OF assms(1-5)] std.dev_issue_total [OF assms(1-5)]
    std.dev_tick_total [OF assms(1,2,6)] by blast

section \<open>Presets\<close>

definition preset_sound :: "standard \<Rightarrow> string \<times> organization \<Rightarrow> bool" where
  "preset_sound st p \<longleftrightarrow> map_of (st_org_presets st) (fst p) = Some (snd p) \<and>
     length (org_count (snd p)) = length (st_levels st) \<and>
     chip_density (st_levels st) (st_density st) (snd p) = Some (u64 (org_density (snd p)))"

text \<open>The three conditions on all presets of a file.\<close>

definition preset_table_sound :: "standard \<Rightarrow> bool" where
  "preset_table_sound st \<longleftrightarrow> distinct (map fst (st_org_presets st)) \<and>
     list_all (\<lambda>p. length (org_count (snd p)) = length (st_levels st)) (st_org_presets st) \<and>
     list_all (\<lambda>p. chip_density (st_levels st) (st_density st) (snd p) = Some (u64 (org_density (snd p)))) (st_org_presets st)"

lemma ddr3_presets: "preset_table_sound ddr3"
  by (simp add: preset_table_sound_def ddr3_def ddr3_levels_def ddr3_density_def ddr3_org_presets_def
    chip_density_def u64_def vec_at_def)

lemma ddr4_presets: "preset_table_sound ddr4"
  by (simp add: preset_table_sound_def ddr4_def ddr4_levels_def ddr4_density_def ddr4_org_presets_def
    chip_density_def u64_def vec_at_def)

lemma ddr4vrr_presets: "preset_table_sound (ddr4vrr radius)"
  by (simp add: preset_table_sound_def ddr4vrr_def ddr4vrr_levels_def ddr4vrr_density_def ddr4vrr_org_presets_def
    chip_density_def u64_def vec_at_def)

lemma ddr4rvrr_presets: "preset_table_sound (ddr4rvrr opts)"
  by (simp add: preset_table_sound_def ddr4rvrr_def ddr4rvrr_levels_def ddr4rvrr_density_def ddr4rvrr_org_presets_def
    chip_density_def u64_def vec_at_def)

lemma ddr5_presets: "preset_table_sound (ddr5 opts)"
  by (simp add: preset_table_sound_def ddr5_def ddr5_levels_def ddr5_density_def ddr5_org_presets_def
    chip_density_def u64_def vec_at_def)

lemma ddr5vrr_presets: "preset_table_sound (ddr5vrr opts)"
  by (simp add: preset_table_sound_def ddr5vrr_def ddr5vrr_levels_def ddr5vrr_density_def ddr5vrr_org_presets_def
    chip_density_def u64_def vec_at_def)

lemma ddr5rvrr_presets: "preset_table_sound (ddr5rvrr opts)"
  by (simp add: preset_table_sound_def ddr5rvrr_def ddr5rvrr_levels_def ddr5rvrr_density_def ddr5rvrr_org_presets_def
    chip_density_def u64_def vec_at_def)

lemma gddr6_presets: "preset_table_sound gddr6"
  by (simp add: preset_table_sound_def gddr6_def gddr6_levels_def gddr6_density_def gddr6_org_presets_def
    chip_density_def u64_def vec_at_def)

lemma hbm_presets: "preset_table_sound hbm"
  by (simp add: preset_table_sound_def hbm_def hbm_levels_def hbm_density_def hbm_org_presets_def
    chip_density_def u64_def vec_at_def)

lemma hbm2_presets: "preset_table_sound hbm2"
  by (simp add: preset_table_sound_def hbm2_def hbm2_levels_def hbm2_density_def hbm2_org_presets_def
    chip_density_def u64_def vec_at_def)

lemma preset_table_sound_of: "preset_table_sound (standard_of k)"
  using ddr3_presets ddr4_presets ddr4vrr_presets ddr4rvrr_presets ddr5_presets ddr5vrr_presets
    ddr5rvrr_presets gddr6_presets hbm_presets hbm2_presets
  by (cases k) simp_all

lemma presets_sound: "list_all (preset_sound (standard_of k)) (st_org_presets (standard_of k))"
  using preset_table_sound_of [of k]
  by (auto simp: preset_table_sound_def preset_sound_def list_all_iff intro: map_of_is_SomeI)

lemma preset_organization:
  assumes "(name, org) \<in> set (st_org_presets (standard_of k))"
    and "cf_org_preset cf = Some name" "cf_dq cf = None" "cf_count cf = Map.empty" "cf_density cf = None"
  shows "dev_set_organization (standard_of k) cf = Inr org"
proof -
  have "preset_sound (standard_of k) (name, org)" using presets_sound assms(1) by (auto simp: list_all_iff)
  moreover have "map (\<lambda>(n, v). v) (zip ns vs) = vs" if "length ns = length vs" for ns :: name_table and vs :: "int list"
    using that by (simp add: case_prod_unfold flip: snd_def)
  ultimately show ?thesis using assms(2-5) by (simp add: dev_set_organization_def preset_sound_def Let_def)
qed

lemma dev_init_secondary:
  "dev_init st cf = Inr d \<Longrightarrow> \<exists>tck vs vs'. st_secondary st (dv_org d) tck vs = Inr vs'"
  by (auto simp: dev_init_def sbind_Inr dev_set_timing_vals_def Let_def split: option.splits if_splits) blast+

definition preset_without_refresh :: "dram_impl \<Rightarrow> string \<Rightarrow> bool" where
  "preset_without_refresh k name \<longleftrightarrow> (k, name) \<in> {(HBM, ''HBM_1Gb''), (GDDR6, ''GDDR6_32Gb_x8''), (GDDR6, ''GDDR6_32Gb_x16'')}"

text \<open>The density of these presets is not among those for which the file has refresh timings; its \<open>switch\<close> gives -1, an
  index out of the table.\<close>

lemma secondary_undefined:
  assumes "preset_without_refresh k name" "(name, org) \<in> set (st_org_presets (standard_of k))"
  shows "st_secondary (standard_of k) org tck vs = Inl Undefined_behaviour"
proof -
  have "case_id [2048, 4096, 8192, 16384] 1024 = None" "case_id [4096, 8192, 16384] 32768 = None"
    by (simp_all add: case_id_def upt_rec)
  with assms show ?thesis
    by (auto simp: preset_without_refresh_def hbm_def hbm_org_presets_def hbm_secondary_def gddr6_def
        gddr6_org_presets_def gddr6_secondary_def Let_def)
qed

text \<open>Every timing preset of the two standards gives a clock period, so the timings do get that far.\<close>

lemma preset_clock:
  assumes "preset_without_refresh k name" "map_of (st_timing_presets (standard_of k)) tp = Some vs"
  shows "timing_val (st_timings (standard_of k)) vs ''rate'' = 2000"
  using assms by (auto simp: preset_without_refresh_def hbm_def hbm_timing_presets_def hbm_timings_def gddr6_def
      gddr6_timing_presets_def gddr6_timings_def timing_val_def timing_pos_def split: if_splits)

lemma preset_init_undefined:
  assumes "preset_without_refresh k name" "(name, org) \<in> set (st_org_presets (standard_of k))"
    and "dev_set_organization (standard_of k) cf = Inr org" "cf_timing_preset cf = Some tp" "cf_rate cf = None"
    and "map_of (st_timing_presets (standard_of k)) tp = Some vs"
  shows "dev_init (standard_of k) cf = Inl Undefined_behaviour"
proof -
  have sd: "(2000 :: int) sdiv 2 = 1000" "(1000000 :: int) sdiv 1000 = 1000"
    by (simp_all add: signed_divide_int_def)
  show ?thesis
    by (simp add: dev_init_def dev_set_timing_vals_def sbind_def assms(3-6) preset_clock [OF assms(1,6)]
      secondary_undefined [OF assms(1,2)] sd)
qed

text \<open>C23: the organization presets of each of these devices are consistent: a configuration that names one and
  overrides nothing is accepted with exactly the organization of the preset (the density computed from it is
  the one it states). Three of them, \<open>HBM_1Gb\<close>, \<open>GDDR6_32Gb_x8\<close> and \<open>GDDR6_32Gb_x16\<close>, can nevertheless not be
  used: whatever the timings, the step that reads the refresh timings of their density leaves its table; so no
  configuration with one of them gives a device, and with any timing preset of the standard (and no \<open>rate\<close>,
  which excludes a preset) initialization ends in that undefined behaviour.\<close>

theorem org_preset_accepted:
  assumes "(name, org) \<in> set (st_org_presets (standard_of k))"
    and "cf_org_preset cf = Some name" "cf_dq cf = None" "cf_count cf = Map.empty" "cf_density cf = None"
  shows "dev_set_organization (standard_of k) cf = Inr org \<and>
    (preset_without_refresh k name \<longrightarrow>
      (\<forall>tck vs. st_secondary (standard_of k) org tck vs = Inl Undefined_behaviour) \<and>
      (\<forall>d. dev_init (standard_of k) cf \<noteq> Inr d) \<and>
      (\<forall>tp vs. cf_timing_preset cf = Some tp \<and> cf_rate cf = None \<and> map_of (st_timing_presets (standard_of k)) tp = Some vs \<longrightarrow>
        dev_init (standard_of k) cf = Inl Undefined_behaviour))"
proof (intro conjI impI allI)
  show org: "dev_set_organization (standard_of k) cf = Inr org" using preset_organization [OF assms] .
  assume k: "preset_without_refresh k name"
  show "st_secondary (standard_of k) org tck vs = Inl Undefined_behaviour" for tck vs
    using secondary_undefined [OF k assms(1)] .
  show "dev_init (standard_of k) cf \<noteq> Inr d" for d
    using dev_init_secondary [of "standard_of k" cf] std.dev_init_Inr(1) [of k cf] org secondary_undefined [OF k assms(1)]
    by (metis Inr_inject sum.distinct(1))
  show "dev_init (standard_of k) cf = Inl Undefined_behaviour"
    if "cf_timing_preset cf = Some tp \<and> cf_rate cf = None \<and> map_of (st_timing_presets (standard_of k)) tp = Some vs" for tp vs
    using preset_init_undefined [OF k assms(1) org] that by blast
qed

end
