(* ===== verification/Standards_Example.thy ===== *)
theory Standards_Example
  imports Standards
begin

text \<open>
  The theorems about the DRAM standards applied to concrete devices: a DDR4 device of two ranks with one bank
  each, on which a read of one rank holds up a read of the other, and presets of the files.
\<close>

section \<open>A DDR4 device of two ranks\<close>

definition ddr4_config :: dram_config where
  "ddr4_config = \<lparr>cf_channel_width = None, cf_org_preset = Some ''DDR4_2Gb_x8'', cf_dq = None,
     cf_count = [''rank'' \<mapsto> 2, ''bankgroup'' \<mapsto> 1, ''bank'' \<mapsto> 1, ''row'' \<mapsto> 2 ^ 18],
     cf_density = None, cf_timing_preset = Some ''DDR4_1600J'', cf_rate = None,
     cf_cycles = Map.empty, cf_ps = Map.empty\<rparr>"

definition ddr4_dev :: device where
  "ddr4_dev = (case dev_init (standard_of DDR4) ddr4_config of Inr d \<Rightarrow> d | Inl e \<Rightarrow> undefined)"

lemma ddr4_init: "dev_init (standard_of DDR4) ddr4_config = Inr ddr4_dev"
proof -
  have "case dev_init (standard_of DDR4) ddr4_config of Inr d \<Rightarrow> True | Inl e \<Rightarrow> False" by code_simp
  then show ?thesis by (auto simp: ddr4_dev_def split: sum.splits)
qed

lemma ddr4_dev_count: "ds_count (dv_spec ddr4_dev) = [1, 2, 1, 1, 262144, 1024]"
  by code_simp

lemma ddr4_dev_rank: "node_at (dv_channels ddr4_dev ! 0) [1] \<noteq> None"
  by code_simp

lemma ddr4_dev_scope: "ds_scopes (dv_spec ddr4_dev) ! 3 = 5"
  by code_simp

lemma ddr4_dev_nBL: "timing_val (st_timings (standard_of DDR4)) (dv_timing_vals ddr4_dev) ''nBL'' = 4"
  by code_simp

lemma ddr4_dev_nCS: "timing_val (st_timings (standard_of DDR4)) (dv_timing_vals ddr4_dev) ''nCS'' = 2"
  by code_simp

lemma ddr4_dev_clk: "dv_clk ddr4_dev = 0"
  by code_simp

lemmas ddr4_dev_facts = ddr4_dev_count ddr4_dev_rank ddr4_dev_scope ddr4_dev_nBL ddr4_dev_nCS ddr4_dev_clk

lemma ddr4_on: "dev_on (standard_of DDR4) ddr4_dev [0, 0, 0, 0, 0, 0]" "dev_on (standard_of DDR4) ddr4_dev [0, 1, 0, 0, 0, 0]"
proof -
  have "node_depth (st_levels (standard_of DDR4)) = 3" by code_simp
  moreover have "{1..3} = {1, 2, 3 :: nat}" by auto
  ultimately show "dev_on (standard_of DDR4) ddr4_dev [0, 0, 0, 0, 0, 0]" "dev_on (standard_of DDR4) ddr4_dev [0, 1, 0, 0, 0, 0]"
    unfolding dev_on_def fits_def by (simp_all add: ddr4_dev_facts(1))
qed

lemma ddr4_names:
  "length (st_commands (standard_of DDR4)) = 9" "impl_id (st_commands (standard_of DDR4)) ''RD'' = Some 3"
  "impl_id (st_levels (standard_of DDR4)) ''rank'' = Some 1"
  by code_simp+

text \<open>The read of rank 0 and the log it leaves.\<close>

definition ddr4_read :: cmd_rec where
  "ddr4_read = \<lparr>cr_cons = ds_timing_cons (dv_spec ddr4_dev), cr_cmd = 3, cr_addr = [0, 0, 0, 0, 0, 0], cr_clk = 0\<rparr>"

lemma ddr4_run: "\<exists>d. dev_run (standard_of DDR4) ddr4_dev [ddr4_read] d \<and> dv_clk d = 0"
proof -
  from std.dev_issue_total [OF ddr4_init dev_run.start ddr4_on(1), of 3] ddr4_names(1) obtain d where
    d: "dev_issue_command (standard_of DDR4) ddr4_dev 3 [0, 0, 0, 0, 0, 0] = Some d" by auto
  from dev_run.issue [OF dev_run.start d] std.dev_issue_fields(1) [OF d] show ?thesis
    by (auto simp: ddr4_read_def ddr4_dev_facts(6))
qed

lemma ddr4_sibling_row:
  "row_blocks (standard_of DDR4) ddr4_dev [ddr4_read] 3 [0, 1, 0, 0, 0, 0] 0
     (tinit_sibling ''rank'' [''RD'', ''RDA''] [''RD'', ''RDA'', ''WR'', ''WRA''] 6)"
proof -
  have "node_log [ddr4_read] [0, 1] = [\<lparr>ev_ts = cr_cons ddr4_read ! 1 ! 3, ev_cmd = 3, ev_clk = 0, ev_target = False\<rparr>]"
    by (simp add: node_log_Cons ddr4_read_def addr_match_def) (simp add: node_log_def List.map_filter_simps)
  then have "row_pending [ddr4_read] [0, 1] 3 (tinit_sibling ''rank'' [''RD'', ''RDA''] [''RD'', ''RDA'', ''WR'', ''WRA''] 6) 0"
    by (simp add: row_pending_def tinit_sibling_def tinit_def)
  then show ?thesis unfolding row_blocks_def using ddr4_names(2,3) ddr4_dev_facts(2,3)
    by (intro conjI exI [of _ "[1]"]) (simp_all add: tinit_sibling_def tinit_def addr_match_def)
qed

text \<open>A read of rank 1 in the same cycle is refused: the data bus has to change ranks.\<close>

lemma check_ready_is_the_table_witness:
  "\<exists>d. dev_run (standard_of DDR4) ddr4_dev [ddr4_read] d \<and> dev_check_ready d 3 [0, 1, 0, 0, 0, 0] = Some False"
proof -
  obtain d where d: "dev_run (standard_of DDR4) ddr4_dev [ddr4_read] d" "dv_clk d = 0" using ddr4_run by blast
  from std.dev_check_ready_total [OF ddr4_init d(1) ddr4_on(2), of 3] ddr4_names(1) obtain b where
    b: "dev_check_ready d 3 [0, 1, 0, 0, 0, 0] = Some b" by auto
  have "tinit_sibling ''rank'' [''RD'', ''RDA''] [''RD'', ''RDA'', ''WR'', ''WRA''] 6
      \<in> set (st_constraints (standard_of DDR4) (timing_val (st_timings (standard_of DDR4)) (dv_timing_vals ddr4_dev)))"
    using ddr4_dev_facts(4,5) by (simp add: ddr4_def ddr4_constraints_def)
  with check_ready_is_the_table [OF ddr4_init d(1) b] ddr4_sibling_row d(2) ddr4_names(1) have "b = False" by auto
  with b d(1) show ?thesis by blast
qed

lemma standard_operations_total_witness:
  "\<exists>d b d1 d2. dev_run (standard_of DDR4) ddr4_dev [ddr4_read] d \<and> dev_check_ready d 3 [0, 1, 0, 0, 0, 0] = Some b \<and>
     dev_issue_command (standard_of DDR4) d 3 [0, 1, 0, 0, 0, 0] = Some d1 \<and> dev_tick (standard_of DDR4) d = Some d2"
proof -
  obtain d where d: "dev_run (standard_of DDR4) ddr4_dev [ddr4_read] d" using ddr4_run by blast
  with standard_operations_total [OF ddr4_init d ddr4_on(2), of 3] ddr4_on(1) ddr4_names(1) show ?thesis
    by (fastforce simp: ddr4_read_def)
qed

section \<open>Presets\<close>

lemma org_preset_accepted_witness:
  "dev_init (standard_of HBM) \<lparr>cf_channel_width = None, cf_org_preset = Some ''HBM_1Gb'', cf_dq = None,
     cf_count = Map.empty, cf_density = None, cf_timing_preset = Some ''HBM_2Gbps'', cf_rate = None,
     cf_cycles = Map.empty, cf_ps = Map.empty\<rparr> = Inl Undefined_behaviour"
proof -
  have "(''HBM_1Gb'', \<lparr>org_density = 1 * 2 ^ 10, org_dq = 128, org_count = [1, 4, 2, 2 ^ 13, 2 ^ 7]\<rparr>)
      \<in> set (st_org_presets (standard_of HBM))"
    by (simp add: hbm_def hbm_org_presets_def)
  from org_preset_accepted [OF this] show ?thesis
    by (simp add: preset_without_refresh_def hbm_def hbm_timing_presets_def)
qed

text \<open>
  The timing presets of GDDR6 list \<open>nRFCpb\<close> and \<open>nREFI\<close> in the other order than \<open>m_timings\<close>: the time of a
  per-bank refresh becomes 3333 cycles instead of 105. (\<open>nREFI\<close> is computed anew.)
\<close>

lemma gddr6_preset_swaps:
  "map_of gddr6_timing_presets ''GDDR6_2000_1350mV_double'' = Some vs \<Longrightarrow>
     timing_val gddr6_timings vs ''nRFCpb'' = 3333 \<and> timing_val gddr6_timings vs ''nREFI'' = 105"
  by (auto simp: gddr6_timing_presets_def gddr6_timings_def timing_val_def timing_pos_def)

end
