(* ===== verification/Rowhammer.thy ===== *)
theory Rowhammer
  imports Generic_Controller Dram_Standard Float_Ops
begin

text \<open>
  The RowHammer defences among the controller plugins (\<open>src/dram_controller/impl/plugin/oracle_rh.cpp\<close>,
  \<open>graphene.cpp\<close>, \<open>twice.cpp\<close>, \<open>para.cpp\<close>): what they read of the device, and their reaction to the
  request found in a cycle. A defence asks for a victim-row refresh (VRR) of the neighbours of a row by a
  request with the address of the row; the controller ignores whether \<open>priority_send\<close> accepts it.
\<close>

section \<open>What a defence reads of the device\<close>

record rh_env =
  re_meta :: "command_meta list"
  re_scopes :: "int list"
  re_count :: "int list"
  re_rank :: int
  re_bank :: int
  re_row :: int
  re_vrr :: int
  re_num_ranks :: int
  re_banks_per_rank :: int
  re_num_rows :: int

datatype rh_error = No_VRR | Setup_undefined | Bad_probability

definition level_size :: "standard \<Rightarrow> device \<Rightarrow> string \<Rightarrow> int option" where
  "level_size st d n =
     (case specdef_id (st_levels st) n of None \<Rightarrow> Some (-1) | Some i \<Rightarrow> vec_at (org_count (dv_org d)) i)"

text \<open>\<open>None\<close>: a name the device does not have, or a negative number of banks to make tables for.\<close>

definition rh_env_of :: "standard \<Rightarrow> device \<Rightarrow> rh_env option" where
  "rh_env_of st d = do {
     metas \<leftarrow> st_meta st;
     scopes \<leftarrow> st_scopes st;
     vrr \<leftarrow> specdef_id (st_requests st) ''victim-row-refresh'';
     rank \<leftarrow> specdef_id (st_levels st) ''rank'';
     bank \<leftarrow> specdef_id (st_levels st) ''bank'';
     row \<leftarrow> specdef_id (st_levels st) ''row'';
     ranks \<leftarrow> level_size st d ''rank'';
     groups \<leftarrow> level_size st d ''bankgroup'';
     banks \<leftarrow> level_size st d ''bank'';
     rows \<leftarrow> level_size st d ''row'';
     let per_rank = (if groups = -1 then banks else groups * banks);
     if per_rank * ranks < 0 then None
     else Some \<lparr>re_meta = metas, re_scopes = scopes, re_count = org_count (dv_org d), re_rank = rank,
            re_bank = bank, re_row = row, re_vrr = vrr, re_num_ranks = ranks, re_banks_per_rank = per_rank,
            re_num_rows = rows\<rparr> }"

definition rh_setup :: "standard \<Rightarrow> device \<Rightarrow> rh_error + rh_env" where
  "rh_setup st d =
     (if \<not> specdef_contains (st_commands st) ''VRR'' then Inl No_VRR
      else case rh_env_of st d of None \<Rightarrow> Inl Setup_undefined | Some e \<Rightarrow> Inr e)"

definition re_num_banks :: "rh_env \<Rightarrow> int" where
  "re_num_banks e = re_banks_per_rank e * re_num_ranks e"

text \<open>The index of a bank: its position in the order of the ranks, and below of the levels down to the bank.\<close>

definition flat_bank_id :: "rh_env \<Rightarrow> addr_vec \<Rightarrow> int option" where
  "flat_bank_id e av = do {
     b \<leftarrow> vec_at av (re_bank e);
     (flat, acc) \<leftarrow> foldlM (\<lambda>(flat, acc) i. do {
         c \<leftarrow> vec_at (re_count e) (i + 1);
         a \<leftarrow> vec_at av i;
         Some (flat + a * (acc * c), acc * c) }) (b, 1) (rev [re_rank e..re_bank e - 1]);
     Some flat }"

definition rh_activates :: "rh_env \<Rightarrow> int \<Rightarrow> bool option" where
  "rh_activates e cmd = do {
     m \<leftarrow> vec_at (re_meta e) cmd;
     s \<leftarrow> vec_at (re_scopes e) cmd;
     Some (is_opening m \<and> s = re_row e) }"

definition rh_refreshes_rank :: "rh_env \<Rightarrow> int \<Rightarrow> bool option" where
  "rh_refreshes_rank e cmd = do {
     m \<leftarrow> vec_at (re_meta e) cmd;
     s \<leftarrow> vec_at (re_scopes e) cmd;
     Some (is_refreshing m \<and> s = re_rank e) }"

text \<open>The bank and the row a request activates.\<close>

definition rh_target :: "rh_env \<Rightarrow> addr_vec \<Rightarrow> (int \<times> int) option" where
  "rh_target e av = do {
     b \<leftarrow> flat_bank_id e av;
     row \<leftarrow> vec_at av (re_row e);
     Some (b, row) }"

section \<open>The oracle\<close>

type_synonym oracle_rh = "(int \<rightharpoonup> int) list"

definition oracle_rh_init :: "rh_env \<Rightarrow> oracle_rh" where
  "oracle_rh_init e = replicate (nat (re_num_banks e)) Map.empty"

definition oracle_count :: "int \<Rightarrow> int \<Rightarrow> (int \<rightharpoonup> int) \<Rightarrow> (int \<rightharpoonup> int) \<times> bool" where
  "oracle_count tRH row t = (case t row of
     Some n \<Rightarrow> if n + 1 \<ge> tRH then (t(row \<mapsto> 0), True) else (t(row \<mapsto> n + 1), False)
   | None \<Rightarrow> (t(row \<mapsto> 1), False))"

definition clear_rank :: "rh_env \<Rightarrow> int \<Rightarrow> oracle_rh \<Rightarrow> oracle_rh option" where
  "clear_rank e rank ts = foldlM (\<lambda>ts i. vec_set ts i Map.empty) ts
     [rank * re_banks_per_rank e..(rank + 1) * re_banks_per_rank e - 1]"

definition oracle_rh_update :: "rh_env \<Rightarrow> int \<Rightarrow> oracle_rh plugin" where
  "oracle_rh_update e tRH found ts = (case found of
     None \<Rightarrow> Some (ts, [])
   | Some r \<Rightarrow> do {
       act \<leftarrow> rh_activates e (rq_command r);
       if act then do {
         (b, row) \<leftarrow> rh_target e (rq_addr_vec r);
         t \<leftarrow> vec_at ts b;
         let (t', fires) = oracle_count tRH row t;
         ts' \<leftarrow> vec_set ts b t';
         Some (ts', if fires then [request_vec (rq_addr_vec r) (re_vrr e)] else []) }
       else do {
         refr \<leftarrow> rh_refreshes_rank e (rq_command r);
         if refr then do {
           rank \<leftarrow> vec_at (rq_addr_vec r) (re_rank e);
           ts' \<leftarrow> clear_rank e rank ts;
           Some (ts', []) }
         else Some (ts, []) } })"

section \<open>Graphene\<close>

record graphene_cfg =
  gr_entries :: int
  gr_threshold :: int
  gr_period :: int

record graphene =
  gr_clk :: int
  gr_tables :: "(int \<times> int) list list"
  gr_spill :: "int list"

text \<open>\<open>None\<close>: the period does not fit an \<open>int\<close>.\<close>

definition graphene_period :: "int \<Rightarrow> int \<Rightarrow> int option" where
  "graphene_period ns tck = i32_of_f32 (f32_div (f32_of_int ns) (f32_div (f32_of_int tck) (f32_of_int 1000)))"

definition graphene_init :: "rh_env \<Rightarrow> graphene_cfg \<Rightarrow> graphene" where
  "graphene_init e c =
     (let table = map (\<lambda>j. (j, 0)) [- re_num_rows e..- re_num_rows e + gr_entries c - 1]
      in \<lparr>gr_clk = -1, gr_tables = replicate (nat (re_num_banks e)) table,
          gr_spill = replicate (nat (re_num_banks e)) 0\<rparr>)"

text \<open>A division by a period of zero is undefined behaviour.\<close>

definition graphene_window :: "graphene_cfg \<Rightarrow> graphene \<Rightarrow> graphene option" where
  "graphene_window c g0 =
     (let g = g0\<lparr>gr_clk := gr_clk g0 + 1\<rparr> in
      if gr_period c = 0 then None
      else if gr_clk g smod gr_period c = 0
      then Some (g\<lparr>gr_tables := map (map (\<lambda>(row, n). (row, 0))) (gr_tables g),
                  gr_spill := map (\<lambda>_. 0) (gr_spill g)\<rparr>)
      else Some g)"

text \<open>
  An activation in one bank: the new table and spillover counter, and whether the row is to be refreshed.
  The table is the list of the entries of the hash map; \<open>visit\<close> is the order of its traversal, which
  the implementation of the library chooses anew in every cycle.
\<close>

definition set_entry :: "int \<Rightarrow> int \<Rightarrow> (int \<times> int) list \<Rightarrow> (int \<times> int) list" where
  "set_entry row v t = map (\<lambda>(k, n). (k, if k = row then v else n)) t"

definition graphene_count ::
  "((int \<times> int) list \<Rightarrow> (int \<times> int) list) \<Rightarrow> int \<Rightarrow> int \<Rightarrow> (int \<times> int) list \<Rightarrow> int \<Rightarrow> (int \<times> int) list \<times> int \<times> bool" where
  "graphene_count visit T row t spill = (case map_of t row of
     None \<Rightarrow> (case find (\<lambda>(k, n). n = spill) (visit t) of
         Some (old, n) \<Rightarrow> ((row, n + 1) # filter (\<lambda>(k, _). k \<noteq> old) t, spill, False)
       | None \<Rightarrow> (t, spill + 1, False))
   | Some n \<Rightarrow> if n + 1 \<ge> T then (set_entry row spill t, spill, True)
               else (set_entry row (n + 1) t, spill, False))"

definition graphene_update ::
  "(int \<Rightarrow> (int \<times> int) list \<Rightarrow> (int \<times> int) list) \<Rightarrow> rh_env \<Rightarrow> graphene_cfg \<Rightarrow> graphene plugin" where
  "graphene_update visit e c found g0 = do {
     g \<leftarrow> graphene_window c g0;
     case found of
       None \<Rightarrow> Some (g, [])
     | Some r \<Rightarrow> do {
         act \<leftarrow> rh_activates e (rq_command r);
         if act then do {
           (b, row) \<leftarrow> rh_target e (rq_addr_vec r);
           t \<leftarrow> vec_at (gr_tables g) b;
           spill \<leftarrow> vec_at (gr_spill g) b;
           let (t', spill', fires) = graphene_count (visit (gr_clk g)) (gr_threshold c) row t spill;
           ts \<leftarrow> vec_set (gr_tables g) b t';
           spills \<leftarrow> vec_set (gr_spill g) b spill';
           Some (g\<lparr>gr_tables := ts, gr_spill := spills\<rparr>,
                 if fires then [request_vec (rq_addr_vec r) (re_vrr e)] else []) }
         else Some (g, []) } }"

section \<open>TWiCe\<close>

record twice_cfg =
  tw_threshold :: int
  tw_pruning :: f32

record twice =
  tw_clk :: clk
  tw_tables :: "(int \<rightharpoonup> int \<times> int) list"

definition twice_init :: "rh_env \<Rightarrow> twice" where
  "twice_init e = \<lparr>tw_clk = 0, tw_tables = replicate (nat (re_num_ranks e * re_banks_per_rank e)) Map.empty\<rparr>"

text \<open>A refresh: every entry counted too seldom for its life is dropped, the others grow older.\<close>

definition twice_prune :: "f32 \<Rightarrow> (int \<rightharpoonup> int \<times> int) \<Rightarrow> (int \<rightharpoonup> int \<times> int)" where
  "twice_prune p t row = (case t row of None \<Rightarrow> None
     | Some (acts, life) \<Rightarrow> if f32_less (f32_of_int acts) (f32_mul (f32_of_int life) p) then None else Some (acts, life + 1))"

definition twice_count :: "int \<Rightarrow> int \<Rightarrow> (int \<rightharpoonup> int \<times> int) \<Rightarrow> (int \<rightharpoonup> int \<times> int) \<times> bool" where
  "twice_count T row t = (case t row of
     None \<Rightarrow> (t(row \<mapsto> (1, 0)), False)
   | Some (acts, life) \<Rightarrow> if acts + 1 \<ge> T then (t(row := None), True) else (t(row \<mapsto> (acts + 1, life)), False))"

definition twice_update :: "rh_env \<Rightarrow> twice_cfg \<Rightarrow> twice plugin" where
  "twice_update e c found w0 = (let w = w0\<lparr>tw_clk := tw_clk w0 + 1\<rparr> in case found of
     None \<Rightarrow> Some (w, [])
   | Some r \<Rightarrow> do {
       refr \<leftarrow> rh_refreshes_rank e (rq_command r);
       act \<leftarrow> rh_activates e (rq_command r);
       if refr then Some (w\<lparr>tw_tables := map (twice_prune (tw_pruning c)) (tw_tables w)\<rparr>, [])
       else if act then do {
         (b, row) \<leftarrow> rh_target e (rq_addr_vec r);
         t \<leftarrow> vec_at (tw_tables w) b;
         let (t', fires) = twice_count (tw_threshold c) row t;
         ts \<leftarrow> vec_set (tw_tables w) b t';
         Some (w\<lparr>tw_tables := ts\<rparr>, if fires then [request_vec (rq_addr_vec r) (re_vrr e)] else []) }
       else Some (w, []) })"

section \<open>PARA\<close>

text \<open>Its state is the random generator: the draws still to come, of which it takes one at each activation.\<close>

definition para_init :: "f32 \<Rightarrow> rh_error + f32" where
  "para_init p = (if \<not> f32_less 0 p \<and> \<not> f32_is_nan p \<or> \<not> f32_less p 0x3f800000 \<and> \<not> f32_is_nan p
     then Inl Bad_probability else Inr p)"

definition para_update :: "rh_env \<Rightarrow> f32 \<Rightarrow> (nat \<Rightarrow> f32) plugin" where
  "para_update e p found draws = (case found of
     None \<Rightarrow> Some (draws, [])
   | Some r \<Rightarrow> do {
       act \<leftarrow> rh_activates e (rq_command r);
       Some (if act then (\<lambda>n. draws (Suc n),
                if f32_less (draws 0) p then [request_vec (rq_addr_vec r) (re_vrr e)] else [])
             else (draws, [])) })"

end
