(* ===== verification/Rowhammer_Facts.thy ===== *)
theory Rowhammer_Facts
  imports Rowhammer
begin

text \<open>
  What a RowHammer defence is for: between two refreshes of its neighbours no row is activated as often as
  the threshold. The contract is the locale \<open>rowhammer_defense\<close>; the oracle and Graphene are instances.
\<close>

section \<open>The pressure on a row\<close>

text \<open>What a defence was told and what it asked for, newest first.\<close>

type_synonym rh_history = "(request option \<times> request list) list"

definition activated :: "rh_env \<Rightarrow> request option \<Rightarrow> (int \<times> int) option" where
  "activated e found = (case found of
     None \<Rightarrow> None
   | Some r \<Rightarrow> if rh_activates e (rq_command r) = Some True then rh_target e (rq_addr_vec r) else None)"

definition asks_refresh :: "rh_env \<Rightarrow> request list \<Rightarrow> int \<Rightarrow> int \<Rightarrow> bool" where
  "asks_refresh e sent b row \<longleftrightarrow>
     (\<exists>q \<in> set sent. rq_type q = re_vrr e \<and> rh_target e (rq_addr_vec q) = Some (b, row))"

text \<open>
  The activations of a row since the last refresh of its neighbours: one the defence asked for or one
  that comes from elsewhere (\<open>forgets\<close>, given the number of the cycle, the request found and the bank).
\<close>

fun pressure :: "rh_env \<Rightarrow> (nat \<Rightarrow> request option \<Rightarrow> int \<Rightarrow> bool) \<Rightarrow> int \<Rightarrow> int \<Rightarrow> rh_history \<Rightarrow> int" where
  "pressure e forgets b row [] = 0"
| "pressure e forgets b row ((found, sent) # h) =
     (if asks_refresh e sent b row then 0
      else (if forgets (length h) found b then 0 else pressure e forgets b row h) +
           (if activated e found = Some (b, row) then 1 else 0))"

lemma pressure_nonneg: "0 \<le> pressure e forgets b row h"
  by (induction h) auto

fun rh_run :: "'s plugin \<Rightarrow> rh_history \<Rightarrow> 's \<Rightarrow> request option list \<Rightarrow> (rh_history \<times> 's) option" where
  "rh_run upd h s [] = Some (h, s)"
| "rh_run upd h s (found # fs) = Option.bind (upd found s) (\<lambda>(s', sent). rh_run upd ((found, sent) # h) s' fs)"

text \<open>A stream each of whose requests is admitted after the ones before it.\<close>

fun admitted :: "(request option list \<Rightarrow> request option \<Rightarrow> bool) \<Rightarrow> request option list \<Rightarrow> request option list \<Rightarrow> bool" where
  "admitted A past [] \<longleftrightarrow> True"
| "admitted A past (f # fs) \<longleftrightarrow> A past f \<and> admitted A (f # past) fs"

section \<open>The contract\<close>

locale rowhammer_defense =
  fixes e :: rh_env
    and upd :: "'s plugin"
    and start :: 's
    and forgets :: "nat \<Rightarrow> request option \<Rightarrow> int \<Rightarrow> bool"
    and admits :: "request option list \<Rightarrow> request option \<Rightarrow> bool"
    and inv :: "rh_history \<Rightarrow> 's \<Rightarrow> bool"
    and T :: int
  assumes inv_start: "inv [] start"
    and inv_step: "inv h s \<Longrightarrow> admits (map fst h) found \<Longrightarrow>
      \<exists>s' sent. upd found s = Some (s', sent) \<and> inv ((found, sent) # h) s'"
    and inv_bound: "inv h s \<Longrightarrow> 0 < T \<Longrightarrow> pressure e forgets b row h < T"
begin

lemma defended_run:
  "inv h s \<Longrightarrow> admitted admits (map fst h) fs \<Longrightarrow>
   \<exists>h' s'. rh_run upd h s fs = Some (h', s') \<and> inv h' s' \<and> map fst h' = rev fs @ map fst h"
proof (induction fs arbitrary: h s)
  case Nil
  then show ?case by simp
next
  case (Cons f fs)
  then obtain s' sent where s': "upd f s = Some (s', sent)" "inv ((f, sent) # h) s'"
    using inv_step [of h s f] by auto
  from Cons.IH [OF s'(2)] Cons.prems(2) s'(1) show ?case by auto
qed

lemma defended_bounded:
  assumes "admitted admits [] fs" "0 < T"
  shows "\<exists>h s. rh_run upd [] start fs = Some (h, s) \<and> inv h s \<and> map fst h = rev fs \<and>
    (\<forall>b row. pressure e forgets b row h < T)"
  using defended_run [OF inv_start] assms inv_bound by fastforce

end

section \<open>Requests on the device\<close>

text \<open>The request names a command; a row it activates or a rank it refreshes is on the device.\<close>

definition rh_fits :: "rh_env \<Rightarrow> request option \<Rightarrow> bool" where
  "rh_fits e found \<longleftrightarrow> (case found of
     None \<Rightarrow> True
   | Some r \<Rightarrow> (\<exists>act refr. rh_activates e (rq_command r) = Some act \<and> rh_refreshes_rank e (rq_command r) = Some refr \<and>
       (act \<longrightarrow> (\<exists>b row. rh_target e (rq_addr_vec r) = Some (b, row) \<and> 0 \<le> b \<and> b < re_num_banks e)) \<and>
       (refr \<longrightarrow> (\<exists>rank. vec_at (rq_addr_vec r) (re_rank e) = Some rank \<and> 0 \<le> rank \<and> rank < re_num_ranks e))))"

text \<open>The request a defence makes for the row just activated.\<close>

lemma asks_refresh_vrr [simp]:
  "asks_refresh e [request_vec av (re_vrr e)] b row \<longleftrightarrow> rh_target e av = Some (b, row)"
  by (simp add: asks_refresh_def request_vec_def blank_request_def)

lemma asks_refresh_Nil [simp]: "\<not> asks_refresh e [] b row"
  by (simp add: asks_refresh_def)

section \<open>The oracle\<close>

text \<open>A refresh of the rank the bank is in.\<close>

definition rank_refreshed :: "rh_env \<Rightarrow> nat \<Rightarrow> request option \<Rightarrow> int \<Rightarrow> bool" where
  "rank_refreshed e n found b \<longleftrightarrow> (\<exists>r rank. found = Some r \<and> rh_activates e (rq_command r) = Some False \<and>
     rh_refreshes_rank e (rq_command r) = Some True \<and> vec_at (rq_addr_vec r) (re_rank e) = Some rank \<and>
     rank * re_banks_per_rank e \<le> b \<and> b < (rank + 1) * re_banks_per_rank e)"

text \<open>What an oracle asks for: a refresh exactly when the pressure on the activated row reaches the threshold.\<close>

definition refresh_due :: "rh_env \<Rightarrow> int \<Rightarrow> rh_history \<Rightarrow> request option \<Rightarrow> request list" where
  "refresh_due e T h found = (case (activated e found, found) of
     (Some (b, row), Some r) \<Rightarrow>
       if T \<le> pressure e (rank_refreshed e) b row h + 1 then [request_vec (rq_addr_vec r) (re_vrr e)] else []
   | _ \<Rightarrow> [])"

fun oracle_history :: "rh_env \<Rightarrow> int \<Rightarrow> rh_history \<Rightarrow> bool" where
  "oracle_history e T [] \<longleftrightarrow> True"
| "oracle_history e T ((found, sent) # h) \<longleftrightarrow> sent = refresh_due e T h found \<and> oracle_history e T h"

definition table_count :: "(int \<rightharpoonup> int) \<Rightarrow> int \<Rightarrow> int" where
  "table_count t row = (case t row of None \<Rightarrow> 0 | Some n \<Rightarrow> n)"

definition oracle_inv :: "rh_env \<Rightarrow> int \<Rightarrow> rh_history \<Rightarrow> oracle_rh \<Rightarrow> bool" where
  "oracle_inv e T h ts \<longleftrightarrow> length ts = nat (re_num_banks e) \<and> oracle_history e T h \<and>
     (0 < T \<longrightarrow> (\<forall>b row. pressure e (rank_refreshed e) b row h < T)) \<and>
     (\<forall>b row. 0 \<le> b \<longrightarrow> b < re_num_banks e \<longrightarrow> table_count (ts ! nat b) row = pressure e (rank_refreshed e) b row h)"

lemma foldlM_vec_set:
  assumes "\<forall>i \<in> set is. 0 \<le> i \<and> i < int (length ts)"
  shows "\<exists>ts'. foldlM (\<lambda>ts i. vec_set ts i x) ts is = Some ts' \<and> length ts' = length ts \<and>
    (\<forall>j < length ts. ts' ! j = (if int j \<in> set is then x else ts ! j))"
  using assms
proof (induction "is" arbitrary: ts)
  case Nil
  then show ?case by simp
next
  case (Cons i "is")
  let ?ts = "ts[nat i := x]"
  from Cons.IH [of ?ts] Cons.prems obtain ts' where
    "foldlM (\<lambda>ts i. vec_set ts i x) ?ts is = Some ts'" "length ts' = length ts"
    "\<forall>j < length ts. ts' ! j = (if int j \<in> set is then x else ?ts ! j)"
    by auto
  moreover have "vec_set ts i x = Some ?ts" using Cons.prems by (simp add: vec_simps)
  ultimately show ?case using Cons.prems by (auto simp: nth_list_update)
qed

lemma clear_rank_spec:
  assumes "length ts = nat (re_num_banks e)" "0 \<le> rank" "rank < re_num_ranks e"
  shows "\<exists>ts'. clear_rank e rank ts = Some ts' \<and> length ts' = length ts \<and>
    (\<forall>j < length ts. ts' ! j = (if rank * re_banks_per_rank e \<le> int j \<and> int j < (rank + 1) * re_banks_per_rank e
       then Map.empty else ts ! j))"
proof -
  have "0 \<le> i \<and> i < int (length ts)"
    if "rank * re_banks_per_rank e \<le> i" "i < (rank + 1) * re_banks_per_rank e" for i
  proof -
    from that have per: "0 < re_banks_per_rank e" by (simp add: distrib_right)
    then have "(rank + 1) * re_banks_per_rank e \<le> re_num_banks e"
      unfolding re_num_banks_def using mult_right_mono [of "rank + 1" "re_num_ranks e" "re_banks_per_rank e"] assms(3)
      by (simp add: mult.commute)
    moreover have "0 \<le> rank * re_banks_per_rank e" using assms(2) per by simp
    ultimately show ?thesis using assms(1) that by auto
  qed
  then have "\<forall>i \<in> set [rank * re_banks_per_rank e..(rank + 1) * re_banks_per_rank e - 1].
      0 \<le> i \<and> i < int (length ts)" by auto
  from foldlM_vec_set [OF this, of Map.empty] show ?thesis by (auto simp: clear_rank_def)
qed

text \<open>A cycle that activates no row.\<close>

lemma oracle_inv_quiet:
  assumes "oracle_inv e T h ts" "1 \<le> T" "activated e found = None" "length ts' = length ts"
    and "\<And>b row. 0 \<le> b \<Longrightarrow> b < re_num_banks e \<Longrightarrow> table_count (ts' ! nat b) row =
      (if rank_refreshed e (length h) found b then 0 else table_count (ts ! nat b) row)"
  shows "oracle_inv e T ((found, []) # h) ts'"
  using assms by (auto simp: oracle_inv_def refresh_due_def)

lemma oracle_inv_activation:
  assumes inv: "oracle_inv e T h ts" and T: "2 \<le> T" and act: "rh_activates e (rq_command r) = Some True"
    and target: "rh_target e (rq_addr_vec r) = Some (b, row)" "0 \<le> b" "b < re_num_banks e"
  shows "\<exists>ts' sent. oracle_rh_update e T (Some r) ts = Some (ts', sent) \<and> oracle_inv e T ((Some r, sent) # h) ts'"
proof -
  let ?P = "\<lambda>b row. pressure e (rank_refreshed e) b row h"
  obtain t' fires where c: "oracle_count T row (ts ! nat b) = (t', fires)" by (cases "oracle_count T row (ts ! nat b)")
  have len: "nat b < length ts" using inv target by (simp add: oracle_inv_def)
  have count: "table_count (ts ! nat b) row' = ?P b row'" for row'
    using inv target by (simp add: oracle_inv_def)
  have fires: "fires \<longleftrightarrow> T \<le> ?P b row + 1"
    using c count [of row] T by (auto simp: oracle_count_def table_count_def split: option.splits if_splits)
  have t': "table_count t' row' = (if row' = row then if fires then 0 else ?P b row + 1 else ?P b row')" for row'
    using c count [of row] count [of row'] by (auto simp: oracle_count_def table_count_def split: option.splits if_splits)
  let ?sent = "if fires then [request_vec (rq_addr_vec r) (re_vrr e)] else []"
  let ?ts = "ts[nat b := t']"
  have "oracle_rh_update e T (Some r) ts = Some (?ts, ?sent)"
    using act target c len by (simp add: oracle_rh_update_def vec_at_def vec_set_def)
  moreover have no: "\<not> rank_refreshed e (length h) (Some r) b'" for b' using act by (simp add: rank_refreshed_def)
  have activated: "activated e (Some r) = Some (b, row)" using act target by (simp add: activated_def)
  have press: "pressure e (rank_refreshed e) b' row' ((Some r, ?sent) # h) =
      (if b' = b \<and> row' = row then if fires then 0 else ?P b row + 1 else ?P b' row')" for b' row'
    using activated no target(1) by auto
  have "?sent = refresh_due e T h (Some r)" using activated fires by (simp add: refresh_due_def)
  with press inv fires t' count target len T have "oracle_inv e T ((Some r, ?sent) # h) ?ts"
    unfolding oracle_inv_def by (auto simp: nth_list_update nat_eq_iff simp del: pressure.simps)
  ultimately show ?thesis by blast
qed

lemma oracle_inv_step:
  assumes inv: "oracle_inv e T h ts" and T: "2 \<le> T" and fits: "rh_fits e found"
  shows "\<exists>ts' sent. oracle_rh_update e T found ts = Some (ts', sent) \<and> oracle_inv e T ((found, sent) # h) ts'"
proof (cases found)
  case None
  then have "oracle_inv e T ((found, []) # h) ts"
    using T by (intro oracle_inv_quiet [OF inv]) (auto simp: activated_def rank_refreshed_def)
  with None show ?thesis by (auto simp: oracle_rh_update_def)
next
  case (Some r)
  with fits obtain act refr where a: "rh_activates e (rq_command r) = Some act" "rh_refreshes_rank e (rq_command r) = Some refr"
    by (auto simp: rh_fits_def)
  show ?thesis
  proof (cases act)
    case True
    with fits a Some oracle_inv_activation [OF inv T, of r] show ?thesis by (auto simp: rh_fits_def)
  next
    case False
    with a Some have none: "activated e found = None" by (simp add: activated_def)
    show ?thesis
    proof (cases refr)
      case True
      with fits a Some obtain rank where rank: "vec_at (rq_addr_vec r) (re_rank e) = Some rank" "0 \<le> rank" "rank < re_num_ranks e"
        by (auto simp: rh_fits_def)
      have len: "length ts = nat (re_num_banks e)" using inv by (simp add: oracle_inv_def)
      from clear_rank_spec [OF len rank(2,3)] obtain ts' where
        ts': "clear_rank e rank ts = Some ts'" "length ts' = length ts"
          "\<forall>j < length ts. ts' ! j = (if rank * re_banks_per_rank e \<le> int j \<and> int j < (rank + 1) * re_banks_per_rank e
             then Map.empty else ts ! j)" by blast
      have rr: "rank_refreshed e (length h) found b \<longleftrightarrow>
          rank * re_banks_per_rank e \<le> b \<and> b < (rank + 1) * re_banks_per_rank e" for b
        using Some a False True rank(1) by (auto simp: rank_refreshed_def)
      have "oracle_inv e T ((found, []) # h) ts'"
        using T len ts'(2,3) by (intro oracle_inv_quiet [OF inv _ none]) (auto simp: rr table_count_def)
      with Some a False True rank(1) ts'(1) show ?thesis by (auto simp: oracle_rh_update_def)
    next
      case 2: False
      have "oracle_inv e T ((found, []) # h) ts"
        using T Some a 2 by (intro oracle_inv_quiet [OF inv _ none]) (auto simp: rank_refreshed_def)
      with Some a False 2 show ?thesis by (auto simp: oracle_rh_update_def)
    qed
  qed
qed

interpretation orh: rowhammer_defense e "oracle_rh_update e T" "oracle_rh_init e" "rank_refreshed e"
    "\<lambda>past found. 2 \<le> T \<and> rh_fits e found" "oracle_inv e T" T for e T
proof unfold_locales
  show "oracle_inv e T [] (oracle_rh_init e)"
    by (auto simp: oracle_inv_def oracle_rh_init_def table_count_def)
  show "pressure e (rank_refreshed e) b row h < T" if "oracle_inv e T h ts" "0 < T" for h ts b row
    using that by (simp add: oracle_inv_def)
qed (use oracle_inv_step in blast)

section \<open>Graphene: one activation in one bank\<close>

text \<open>What the table and the spillover counter say of a row: an upper bound of its activations.\<close>

definition estimate :: "(int \<times> int) list \<Rightarrow> int \<Rightarrow> int \<Rightarrow> int" where
  "estimate t spill row = (case map_of t row of None \<Rightarrow> spill | Some n \<Rightarrow> n)"

definition counts :: "(int \<times> int) list \<Rightarrow> int set" where
  "counts t = snd ` set t"

text \<open>Distinct rows, no count below the spillover counter.\<close>

definition summary_ok :: "(int \<times> int) list \<Rightarrow> int \<Rightarrow> bool" where
  "summary_ok t spill \<longleftrightarrow> distinct (map fst t) \<and> (\<forall>n \<in> counts t. spill \<le> n)"

definition summary_sum :: "(int \<times> int) list \<Rightarrow> int \<Rightarrow> int" where
  "summary_sum t spill = sum_list (map snd t) + spill"

lemma set_entry_split:
  assumes "distinct (map fst t)" "map_of t row = Some n"
  obtains xs ys where "t = xs @ (row, n) # ys" "set_entry row v t = xs @ (row, v) # ys"
proof -
  from map_of_SomeD [OF assms(2)] obtain xs ys where t: "t = xs @ (row, n) # ys" by (auto dest: split_list)
  have "set_entry row v zs = zs" if "row \<notin> fst ` set zs" for zs
    using that by (induction zs) (auto simp: set_entry_def)
  with assms(1) t have "set_entry row v t = xs @ (row, v) # ys" by (simp add: set_entry_def)
  with t that show ?thesis by blast
qed

lemma map_of_set_entry:
  "map_of (set_entry row v t) k = (if k = row then map_option (\<lambda>_. v) (map_of t row) else map_of t k)"
  by (induction t) (auto simp: set_entry_def)

lemma set_entry_summary:
  assumes "summary_ok t spill" "map_of t row = Some n" "spill \<le> v"
  shows "summary_ok (set_entry row v t) spill" "length (set_entry row v t) = length t"
    "summary_sum (set_entry row v t) spill = summary_sum t spill - n + v"
    "counts (set_entry row v t) \<subseteq> insert v (counts t)"
proof -
  from assms(1) have "distinct (map fst t)" by (simp add: summary_ok_def)
  from set_entry_split [OF this assms(2), of v] obtain xs ys where
    t: "t = xs @ (row, n) # ys" "set_entry row v t = xs @ (row, v) # ys" .
  show "summary_ok (set_entry row v t) spill" "length (set_entry row v t) = length t"
    "summary_sum (set_entry row v t) spill = summary_sum t spill - n + v"
    "counts (set_entry row v t) \<subseteq> insert v (counts t)"
    using assms(1,3) unfolding t(2) unfolding t(1) by (auto simp: summary_ok_def summary_sum_def counts_def)
qed

text \<open>An entry that makes way for another row.\<close>

lemma filter_entry_split:
  fixes t :: "(int \<times> int) list"
  assumes "distinct (map fst t)" "(old, n) \<in> set t"
  obtains xs ys where "t = xs @ (old, n) # ys" "filter (\<lambda>(k, _). k \<noteq> old) t = xs @ ys"
proof -
  from assms(2) obtain xs ys where t: "t = xs @ (old, n) # ys" by (auto dest: split_list)
  have "filter (\<lambda>(k, _). k \<noteq> old) zs = zs" if "old \<notin> fst ` set zs" for zs :: "(int \<times> int) list"
    using that by (induction zs) auto
  with assms(1) t have "filter (\<lambda>(k, _). k \<noteq> old) t = xs @ ys" by simp
  with t that show ?thesis by blast
qed

lemma map_of_filter_entry: "map_of (filter (\<lambda>(k, _). k \<noteq> old) t) k = (if k = old then None else map_of t k)"
  by (induction t) auto

lemma replace_entry_summary:
  assumes "summary_ok t spill" "(old, spill) \<in> set t" "map_of t row = None"
  defines "t' \<equiv> (row, spill + 1) # filter (\<lambda>(k, _). k \<noteq> old) t"
  shows "summary_ok t' spill" "length t' = length t" "summary_sum t' spill = summary_sum t spill + 1"
    "counts t' \<subseteq> insert (spill + 1) (counts t)"
proof -
  from assms(1) have "distinct (map fst t)" by (simp add: summary_ok_def)
  from filter_entry_split [OF this assms(2)] obtain xs ys where
    t: "t = xs @ (old, spill) # ys" "filter (\<lambda>(k, _). k \<noteq> old) t = xs @ ys" .
  have "row \<notin> fst ` set t" using assms(3) by (simp add: map_of_eq_None_iff)
  then show "summary_ok t' spill" "length t' = length t" "summary_sum t' spill = summary_sum t spill + 1"
    "counts t' \<subseteq> insert (spill + 1) (counts t)"
    using assms(1) unfolding t'_def t(2) unfolding t(1) by (auto simp: summary_ok_def summary_sum_def counts_def)
qed

lemma graphene_count_step:
  assumes ok: "summary_ok t spill" and visit: "set (visit t) = set t" and spill: "0 \<le> spill"
    and step: "graphene_count visit T row t spill = (t', spill', fires)"
  shows "summary_ok t' spill'" "length t' = length t" "0 \<le> spill'" "summary_sum t' spill' \<le> summary_sum t spill + 1"
    "spill' < T - 1 \<Longrightarrow> \<forall>n \<in> counts t. n < T \<Longrightarrow> \<forall>n \<in> counts t'. n < T"
    "row' \<noteq> row \<Longrightarrow> estimate t spill row' \<le> estimate t' spill' row'"
    "\<not> fires \<Longrightarrow> estimate t spill row + 1 \<le> estimate t' spill' row"
    "0 \<le> estimate t' spill' row"
proof -
  have goals: "summary_ok t' spill' \<and> length t' = length t \<and> 0 \<le> spill' \<and> summary_sum t' spill' \<le> summary_sum t spill + 1 \<and>
    (spill' < T - 1 \<longrightarrow> (\<forall>n \<in> counts t. n < T) \<longrightarrow> (\<forall>n \<in> counts t'. n < T)) \<and>
    (row' \<noteq> row \<longrightarrow> estimate t spill row' \<le> estimate t' spill' row') \<and>
    (\<not> fires \<longrightarrow> estimate t spill row + 1 \<le> estimate t' spill' row) \<and> 0 \<le> estimate t' spill' row"
  proof (cases "map_of t row")
    case (Some n)
    then have n: "spill \<le> n" using ok by (force simp: summary_ok_def counts_def dest: map_of_SomeD)
    show ?thesis
    proof (cases "n + 1 \<ge> T")
      case True
      with step Some have "t' = set_entry row spill t" "spill' = spill" "fires" by (auto simp: graphene_count_def)
      with set_entry_summary [OF ok Some order.refl] n spill Some True show ?thesis
        by (auto simp: estimate_def map_of_set_entry)
    next
      case False
      with step Some have "t' = set_entry row (n + 1) t" "spill' = spill" "\<not> fires" by (auto simp: graphene_count_def)
      with set_entry_summary [OF ok Some, of "n + 1"] n spill Some False show ?thesis
        by (auto simp: estimate_def map_of_set_entry)
    qed
  next
    case None
    show ?thesis
    proof (cases "find (\<lambda>(k, n). n = spill) (visit t)")
      case (Some old)
      then have old: "(fst old, spill) \<in> set t" "snd old = spill" using visit by (auto simp: find_Some_iff in_set_conv_nth)
      with step None Some have t': "t' = (row, spill + 1) # filter (\<lambda>(k, _). k \<noteq> fst old) t" "spill' = spill" "\<not> fires"
        by (auto simp: graphene_count_def split: prod.splits)
      have "map_of t (fst old) = Some spill" using ok old(1) by (simp add: summary_ok_def)
      with replace_entry_summary [OF ok old(1) None] t' None spill show ?thesis
        by (auto simp: estimate_def map_of_filter_entry)
    next
      case 2: None
      with visit have "\<forall>n \<in> counts t. n \<noteq> spill" by (auto simp: find_None_iff counts_def)
      moreover from 2 step None have "t' = t" "spill' = spill + 1" "\<not> fires" by (auto simp: graphene_count_def)
      ultimately show ?thesis using ok spill None
        by (force simp: summary_ok_def summary_sum_def estimate_def counts_def dest: map_of_SomeD split: option.splits)
    qed
  qed
  then show "summary_ok t' spill'" "length t' = length t" "0 \<le> spill'" "summary_sum t' spill' \<le> summary_sum t spill + 1"
    "spill' < T - 1 \<Longrightarrow> \<forall>n \<in> counts t. n < T \<Longrightarrow> \<forall>n \<in> counts t'. n < T"
    "row' \<noteq> row \<Longrightarrow> estimate t spill row' \<le> estimate t' spill' row'"
    "\<not> fires \<Longrightarrow> estimate t spill row + 1 \<le> estimate t' spill' row"
    "0 \<le> estimate t' spill' row" by blast+
qed

section \<open>Graphene: a bank\<close>

text \<open>
  A bank with \<open>k\<close> entries after \<open>W\<close> activations in the window, \<open>p\<close> of each row since its last refresh: the
  table accounts for the activations, and none of its numbers has reached the threshold.
\<close>

definition bank_ok :: "nat \<Rightarrow> int \<Rightarrow> int \<Rightarrow> (int \<Rightarrow> int) \<Rightarrow> (int \<times> int) list \<Rightarrow> int \<Rightarrow> bool" where
  "bank_ok k T W p t spill \<longleftrightarrow> summary_ok t spill \<and> 0 \<le> spill \<and> length t = k \<and> summary_sum t spill \<le> W \<and>
     (0 < T \<longrightarrow> spill < T \<and> (\<forall>n \<in> counts t. n < T)) \<and> (\<forall>row. p row \<le> estimate t spill row)"

lemma bank_ok_bound:
  assumes "bank_ok k T W p t spill" "0 < T"
  shows "p row < T"
proof -
  have "estimate t spill row < T"
    using assms by (force simp: bank_ok_def estimate_def counts_def dest: map_of_SomeD split: option.splits)
  then show ?thesis using assms(1) by (auto simp: bank_ok_def intro: le_less_trans)
qed

lemma bank_ok_reset:
  assumes "bank_ok k T W p t spill" "0 \<le> W'"
  shows "bank_ok k T W' (\<lambda>row. 0) (map (\<lambda>(row, n). (row, 0)) t) 0"
proof -
  have "map_of (map (\<lambda>(row, n). (row, 0)) t) row = map_option (\<lambda>_. 0 :: int) (map_of t row)" for row
    by (induction t) auto
  moreover have "sum_list (map snd (map (\<lambda>(row, n). (row, 0 :: int)) t)) = 0"
    by (induction t) auto
  moreover have "map fst (map (\<lambda>(row, n). (row, 0 :: int)) t) = map fst t" by auto
  ultimately show ?thesis using assms
    by (auto simp: bank_ok_def summary_ok_def summary_sum_def estimate_def counts_def split: option.splits simp del: map_map)
qed

lemma summary_sum_lower: "summary_ok t spill \<Longrightarrow> (int (length t) + 1) * spill \<le> summary_sum t spill"
proof (induction t)
  case Nil
  then show ?case by (simp add: summary_sum_def)
next
  case (Cons a t)
  then show ?case by (cases a) (auto simp: summary_ok_def summary_sum_def counts_def algebra_simps)
qed

text \<open>A table of \<open>k\<close> entries suffices for fewer than \<open>(k + 1) * (T - 1)\<close> activations.\<close>

lemma bank_ok_count:
  assumes bank: "bank_ok k T W p t spill" and visit: "set (visit t) = set t" and T: "2 \<le> T"
    and step: "graphene_count visit T row t spill = (t', spill', fires)"
    and calm: "W + 1 < (int k + 1) * (T - 1)"
  shows "bank_ok k T (W + 1) (p(row := if fires then 0 else p row + 1)) t' spill'"
proof -
  have ok: "summary_ok t spill" "0 \<le> spill" using bank by (auto simp: bank_ok_def)
  note s = graphene_count_step [OF ok(1) visit ok(2) step]
  have sum: "summary_sum t' spill' \<le> W + 1" using s(4) bank by (simp add: bank_ok_def)
  have "(int k + 1) * spill' \<le> summary_sum t' spill'"
    using summary_sum_lower [OF s(1)] s(2) bank by (simp add: bank_ok_def)
  with sum calm have "(int k + 1) * spill' < (int k + 1) * (T - 1)" by linarith
  then have spill': "spill' < T - 1" by (simp add: mult_less_cancel_left_pos)
  have p: "p r \<le> estimate t spill r" for r using bank by (simp add: bank_ok_def)
  have "(p(row := if fires then 0 else p row + 1)) row' \<le> estimate t' spill' row'" for row'
    using s(6) [of row'] s(7,8) p [of row] p [of row'] by auto
  with s(1-3) s(5) [OF spill'] sum spill' bank T show ?thesis by (simp add: bank_ok_def)
qed

section \<open>Graphene\<close>

text \<open>The activations of a bank since the tables were last cleared, the requests found newest first.\<close>

fun window_acts :: "rh_env \<Rightarrow> int \<Rightarrow> int \<Rightarrow> request option list \<Rightarrow> int" where
  "window_acts e P b [] = 0"
| "window_acts e P b (f # fs) =
     (if int (length fs) smod P = 0 then 0 else window_acts e P b fs) +
     (if \<exists>row. activated e f = Some (b, row) then 1 else 0)"

lemma window_acts_nonneg: "0 \<le> window_acts e P b fs"
  by (induction fs) auto

definition window_reset :: "int \<Rightarrow> nat \<Rightarrow> request option \<Rightarrow> int \<Rightarrow> bool" where
  "window_reset P n found b \<longleftrightarrow> int n smod P = 0"

text \<open>The requests under which Graphene keeps its promise, and the traversals a hash map can have.\<close>

definition graphene_admits ::
  "(int \<Rightarrow> (int \<times> int) list \<Rightarrow> (int \<times> int) list) \<Rightarrow> rh_env \<Rightarrow> graphene_cfg \<Rightarrow> request option list \<Rightarrow> request option \<Rightarrow> bool" where
  "graphene_admits visit e c past found \<longleftrightarrow> 2 \<le> gr_threshold c \<and> gr_period c \<noteq> 0 \<and>
     (\<forall>n t. set (visit n t) = set t) \<and> rh_fits e found \<and>
     (\<forall>b. window_acts e (gr_period c) b (found # past) < (int (nat (gr_entries c)) + 1) * (gr_threshold c - 1))"

definition graphene_banks ::
  "rh_env \<Rightarrow> graphene_cfg \<Rightarrow> (int \<Rightarrow> int) \<Rightarrow> (int \<Rightarrow> int \<Rightarrow> int) \<Rightarrow> graphene \<Rightarrow> bool" where
  "graphene_banks e c W p g \<longleftrightarrow> length (gr_tables g) = nat (re_num_banks e) \<and> length (gr_spill g) = nat (re_num_banks e) \<and>
     (\<forall>b. 0 \<le> b \<longrightarrow> b < re_num_banks e \<longrightarrow>
        bank_ok (nat (gr_entries c)) (gr_threshold c) (W b) (p b) (gr_tables g ! nat b) (gr_spill g ! nat b)) \<and>
     (\<forall>b row. \<not> (0 \<le> b \<and> b < re_num_banks e) \<longrightarrow> p b row = 0)"

definition graphene_inv :: "rh_env \<Rightarrow> graphene_cfg \<Rightarrow> rh_history \<Rightarrow> graphene \<Rightarrow> bool" where
  "graphene_inv e c h g \<longleftrightarrow> gr_clk g = int (length h) - 1 \<and>
     graphene_banks e c (\<lambda>b. window_acts e (gr_period c) b (map fst h))
       (\<lambda>b row. pressure e (window_reset (gr_period c)) b row h) g"

lemma graphene_inv_init: "graphene_inv e c [] (graphene_init e c)"
proof -
  let ?t = "map (\<lambda>j. (j, 0 :: int)) [- re_num_rows e..- re_num_rows e + gr_entries c - 1]"
  have "0 \<le> estimate ?t 0 row" for row
    by (auto simp: estimate_def split: option.splits dest!: map_of_SomeD)
  moreover have "sum_list (map snd ?t) = 0" by (simp add: o_def)
  ultimately have "bank_ok (nat (gr_entries c)) (gr_threshold c) 0 (\<lambda>row. 0) ?t 0"
    by (auto simp: bank_ok_def summary_ok_def summary_sum_def counts_def o_def)
  then show ?thesis by (auto simp: graphene_inv_def graphene_banks_def graphene_init_def Let_def)
qed

text \<open>The window: the tables are cleared together with the counts of the specification.\<close>

lemma graphene_window_step:
  assumes inv: "graphene_inv e c h g" and P: "gr_period c \<noteq> 0"
  defines "reset \<equiv> int (length h) smod gr_period c = 0"
  shows "\<exists>g'. graphene_window c g = Some g' \<and> gr_clk g' = int (length h) \<and>
    graphene_banks e c (\<lambda>b. if reset then 0 else window_acts e (gr_period c) b (map fst h))
      (\<lambda>b row. if reset then 0 else pressure e (window_reset (gr_period c)) b row h) g'"
proof (cases reset)
  case True
  with inv P show ?thesis
    by (auto simp: graphene_window_def graphene_inv_def graphene_banks_def reset_def intro!: bank_ok_reset)
next
  case False
  with inv P show ?thesis by (auto simp: graphene_window_def graphene_inv_def graphene_banks_def reset_def)
qed

lemma graphene_banks_update:
  assumes banks: "graphene_banks e c W p g" and b: "0 \<le> b" "b < re_num_banks e"
    and bank: "bank_ok (nat (gr_entries c)) (gr_threshold c) (W b + 1) (p' b) t' spill'"
    and others: "\<And>b'. b' \<noteq> b \<Longrightarrow> p' b' = p b'"
  shows "graphene_banks e c (\<lambda>b'. W b' + (if b' = b then 1 else 0)) p'
    (g\<lparr>gr_tables := (gr_tables g)[nat b := t'], gr_spill := (gr_spill g)[nat b := spill']\<rparr>)"
  using banks b bank others by (auto simp: graphene_banks_def nth_list_update nat_eq_iff)

lemma graphene_inv_quiet:
  assumes "gr_clk g' = int (length h)" "activated e found = None"
    and "graphene_banks e c (\<lambda>b. if int (length h) smod gr_period c = 0 then 0 else window_acts e (gr_period c) b (map fst h))
      (\<lambda>b row. if int (length h) smod gr_period c = 0 then 0 else pressure e (window_reset (gr_period c)) b row h) g'"
  shows "graphene_inv e c ((found, []) # h) g'"
  using assms by (simp add: graphene_inv_def window_reset_def)

lemma graphene_inv_step:
  assumes inv: "graphene_inv e c h g" and adm: "graphene_admits visit e c (map fst h) found"
  shows "\<exists>g' sent. graphene_update visit e c found g = Some (g', sent) \<and> graphene_inv e c ((found, sent) # h) g'"
proof -
  let ?P = "gr_period c" and ?reset = "int (length h) smod gr_period c = 0"
  let ?W = "\<lambda>b. if ?reset then 0 else window_acts e ?P b (map fst h)"
  let ?p = "\<lambda>b row. if ?reset then 0 else pressure e (window_reset ?P) b row h"
  from adm have "?P \<noteq> 0" by (simp add: graphene_admits_def)
  from graphene_window_step [OF inv this] obtain g1 where
    g1: "graphene_window c g = Some g1" "gr_clk g1 = int (length h)" and banks: "graphene_banks e c ?W ?p g1"
    by auto
  show ?thesis
  proof (cases "activated e found")
    case None
    with g1 adm have "graphene_update visit e c found g = Some (g1, [])"
      by (auto simp: graphene_update_def graphene_admits_def rh_fits_def activated_def split: option.splits if_splits)
    with graphene_inv_quiet [OF g1(2) None banks] show ?thesis by blast
  next
    case (Some br)
    obtain b row where br: "br = (b, row)" by (cases br)
    with Some obtain r where r: "found = Some r" "rh_activates e (rq_command r) = Some True"
      "rh_target e (rq_addr_vec r) = Some (b, row)"
      by (auto simp: activated_def split: option.splits if_splits)
    with adm have b: "0 \<le> b" "b < re_num_banks e" by (auto simp: graphene_admits_def rh_fits_def)
    let ?t = "gr_tables g1 ! nat b" and ?s = "gr_spill g1 ! nat b"
    obtain t' spill' fires where c: "graphene_count (visit (gr_clk g1)) (gr_threshold c) row ?t ?s = (t', spill', fires)"
      by (cases "graphene_count (visit (gr_clk g1)) (gr_threshold c) row ?t ?s")
    let ?sent = "if fires then [request_vec (rq_addr_vec r) (re_vrr e)] else []"
    let ?g = "g1\<lparr>gr_tables := (gr_tables g1)[nat b := t'], gr_spill := (gr_spill g1)[nat b := spill']\<rparr>"
    have "graphene_update visit e c found g = Some (?g, ?sent)"
      using g1 r b banks c by (simp add: graphene_update_def graphene_banks_def vec_at_def vec_set_def)
    moreover have "?W b + 1 < (int (nat (gr_entries c)) + 1) * (gr_threshold c - 1)"
      using adm Some br by (auto simp: graphene_admits_def dest: spec [of _ b])
    then have "bank_ok (nat (gr_entries c)) (gr_threshold c) (?W b + 1)
        ((?p b)(row := if fires then 0 else ?p b row + 1)) t' spill'"
      using adm banks b by (intro bank_ok_count [OF _ _ _ c]) (auto simp: graphene_admits_def graphene_banks_def)
    moreover have "pressure e (window_reset ?P) b' row' ((found, ?sent) # h) =
        (if b' = b \<and> row' = row then if fires then 0 else ?p b row + 1 else ?p b' row')" for b' row'
      using Some br r by (auto simp: window_reset_def)
    then have "(\<lambda>b' row'. pressure e (window_reset ?P) b' row' ((found, ?sent) # h)) =
        ?p(b := (?p b)(row := if fires then 0 else ?p b row + 1))" by (auto simp: fun_eq_iff)
    moreover have "(\<lambda>b'. window_acts e ?P b' (map fst ((found, ?sent) # h))) = (\<lambda>b'. ?W b' + (if b' = b then 1 else 0))"
      using Some br by auto
    ultimately have "graphene_inv e c ((found, ?sent) # h) ?g"
      using graphene_banks_update [OF banks b, of "?p(b := (?p b)(row := if fires then 0 else ?p b row + 1))" t' spill'] g1(2)
      unfolding graphene_inv_def by (simp del: pressure.simps window_acts.simps)
    with \<open>graphene_update visit e c found g = Some (?g, ?sent)\<close> show ?thesis by blast
  qed
qed

lemma graphene_inv_bound:
  assumes "graphene_inv e c h g" "0 < gr_threshold c"
  shows "pressure e (window_reset (gr_period c)) b row h < gr_threshold c"
proof (cases "0 \<le> b \<and> b < re_num_banks e")
  case True
  with assms bank_ok_bound show ?thesis by (fastforce simp: graphene_inv_def graphene_banks_def)
next
  case False
  with assms show ?thesis by (auto simp: graphene_inv_def graphene_banks_def)
qed

interpretation graphene: rowhammer_defense e "graphene_update visit e c" "graphene_init e c"
    "window_reset (gr_period c)" "graphene_admits visit e c" "graphene_inv e c" "gr_threshold c" for e visit c
  by unfold_locales (fact graphene_inv_init, fact graphene_inv_step, fact graphene_inv_bound)

section \<open>TWiCe\<close>

text \<open>The counts of TWiCe stay below its threshold: an entry that reaches it is refreshed and dropped.\<close>

definition entries_below :: "int \<Rightarrow> (int \<rightharpoonup> int \<times> int) \<Rightarrow> bool" where
  "entries_below T t \<longleftrightarrow> (\<forall>row acts life. t row = Some (acts, life) \<longrightarrow> 0 < acts \<and> acts < T)"

lemma entries_below_prune: "entries_below T t \<Longrightarrow> entries_below T (twice_prune p t)"
  by (auto simp: entries_below_def twice_prune_def split: option.splits if_splits)

lemma entries_below_count:
  assumes "entries_below T t" "2 \<le> T" "twice_count T row t = (t', fires)"
  shows "entries_below T t'"
  using assms by (fastforce simp: entries_below_def twice_count_def split: option.splits if_splits)

lemma entries_below_update:
  "\<forall>t \<in> set ts. entries_below T t \<Longrightarrow> entries_below T t' \<Longrightarrow> \<forall>t \<in> set (ts[i := t']). entries_below T t"
  by (auto dest: set_update_subset_insert [THEN subsetD])

lemma twice_below_step:
  assumes below: "\<forall>t \<in> set (tw_tables w). entries_below (tw_threshold c) t" and T: "2 \<le> tw_threshold c"
    and step: "twice_update e c found w = Some (w', sent)"
  shows "\<forall>t \<in> set (tw_tables w'). entries_below (tw_threshold c) t"
proof -
  consider "tw_tables w' = tw_tables w" | "tw_tables w' = map (twice_prune (tw_pruning c)) (tw_tables w)"
    | i row where "i < length (tw_tables w)"
        "tw_tables w' = (tw_tables w)[i := fst (twice_count (tw_threshold c) row (tw_tables w ! i))]"
    using step by (auto simp: twice_update_def Let_def bind_eq_Some_conv vec_simps case_prod_unfold split: option.splits if_splits)
      (metis nat_less_iff)+
  then show ?thesis
  proof cases
    case 3
    then have "entries_below (tw_threshold c) (fst (twice_count (tw_threshold c) row (tw_tables w ! i)))"
      using entries_below_count [OF _ T prod.collapse [symmetric]] below nth_mem by blast
    with 3(2) entries_below_update [OF below] show ?thesis by simp
  qed (use below entries_below_prune in auto)
qed

end
