(* ===== verification/Rowhammer_Devices.thy ===== *)
theory Rowhammer_Devices
  imports Standards Rowhammer_Facts
begin

text \<open>
  The RowHammer defences on the devices of \<open>Standards\<close>: their setup accepts exactly the devices with a
  victim-row refresh, and there the requests of a memory controller keep them within their tables, so the
  promise of \<open>rowhammer_defense\<close> holds.
\<close>

section \<open>Setup\<close>

lemma vrr_commands:
  "\<not> specdef_contains ddr3_commands ''VRR''" "\<not> specdef_contains ddr4_commands ''VRR''"
  "\<not> specdef_contains ddr5_commands ''VRR''" "\<not> specdef_contains gddr6_commands ''VRR''"
  "\<not> specdef_contains hbm_commands ''VRR''" "\<not> specdef_contains hbm2_commands ''VRR''"
  by (simp_all add: specdef_contains_def ddr3_commands_def ddr4_commands_def ddr5_commands_def
    gddr6_commands_def hbm_commands_def hbm2_commands_def)

lemma vrr_levels:
  "specdef_id ddr4vrr_levels ''rank'' = Some 1" "specdef_id ddr4vrr_levels ''bankgroup'' = Some 2"
  "specdef_id ddr4vrr_levels ''bank'' = Some 3" "specdef_id ddr4vrr_levels ''row'' = Some 4"
  "ddr5vrr_levels = ddr4vrr_levels" "ddr4rvrr_levels = ddr4vrr_levels" "ddr5rvrr_levels = ddr4vrr_levels"
  by (simp_all add: specdef_id_def ddr4vrr_levels_def ddr5vrr_levels_def ddr4rvrr_levels_def ddr5rvrr_levels_def)

lemma lut_lengths:
  "lut_ids keys vals entries = Some xs \<Longrightarrow> length xs = length keys"
  "lut_vals keys es = Some ys \<Longrightarrow> length ys = length keys"
  by (auto simp: lut_ids_def lut_vals_def those_map_Some list_all2_lengthD split: if_splits dest: list_all2_lengthD)

lemma rh_setup_vrr:
  assumes "rh_setup (standard_of k) d = Inr e"
  shows "rh_env_of (standard_of k) d = Some e" "st_levels (standard_of k) = ddr4vrr_levels"
    "st_meta (standard_of k) = Some ms \<Longrightarrow> length ms = length (st_commands (standard_of k))"
    "st_scopes (standard_of k) = Some ss \<Longrightarrow> length ss = length (st_commands (standard_of k))"
proof -
  have c: "specdef_contains (st_commands (standard_of k)) ''VRR''" and e: "rh_env_of (standard_of k) d = Some e"
    using assms by (auto simp: rh_setup_def split: if_splits option.splits)
  show "rh_env_of (standard_of k) d = Some e" by (fact e)
  show "st_levels (standard_of k) = ddr4vrr_levels"
    "st_meta (standard_of k) = Some ms \<Longrightarrow> length ms = length (st_commands (standard_of k))"
    "st_scopes (standard_of k) = Some ss \<Longrightarrow> length ss = length (st_commands (standard_of k))"
    using c vrr_commands by (cases k; auto simp: ddr3_def ddr4_def ddr5_def gddr6_def hbm_def hbm2_def ddr4vrr_def ddr5vrr_def
      ddr4rvrr_def ddr5rvrr_def vrr_levels(5-7) ddr4vrr_meta_def ddr5vrr_meta_def ddr4vrr_scopes_def ddr5vrr_scopes_def
      ddr4rvrr_meta_def ddr5rvrr_meta_def ddr4rvrr_scopes_def ddr5rvrr_scopes_def dest: lut_lengths)+
qed

lemma rh_setup_env:
  assumes "rh_setup (standard_of k) d = Inr e"
  shows "re_rank e = 1" "re_bank e = 3" "re_row e = 4" "5 \<le> length (re_count e)"
    "re_num_ranks e = re_count e ! 1"
    "re_banks_per_rank e = (if re_count e ! 2 = -1 then re_count e ! 3 else re_count e ! 2 * re_count e ! 3)"
    "length (re_meta e) = length (st_commands (standard_of k))" "length (re_scopes e) = length (st_commands (standard_of k))"
proof -
  note v = rh_setup_vrr [OF assms]
  from v(1) obtain metas scopes where m: "st_meta (standard_of k) = Some metas" "st_scopes (standard_of k) = Some scopes"
    and e: "re_meta e = metas" "re_scopes e = scopes"
    by (auto simp: rh_env_of_def bind_eq_Some_conv Let_def split: if_splits)
  show "length (re_meta e) = length (st_commands (standard_of k))" "length (re_scopes e) = length (st_commands (standard_of k))"
    using m e v(3,4) by auto
  show "re_rank e = 1" "re_bank e = 3" "re_row e = 4" "5 \<le> length (re_count e)" "re_num_ranks e = re_count e ! 1"
    "re_banks_per_rank e = (if re_count e ! 2 = -1 then re_count e ! 3 else re_count e ! 2 * re_count e ! 3)"
    using v(1) by (auto simp: rh_env_of_def level_size_def v(2) vrr_levels vec_simps bind_eq_Some_conv Let_def split: if_splits)
qed

section \<open>Requests\<close>

text \<open>A command, and an address that names a part of the device at each level from the rank to the bank, or
  down to the scope of the command.\<close>

definition rh_addressed :: "rh_env \<Rightarrow> request \<Rightarrow> bool" where
  "rh_addressed e r \<longleftrightarrow> 0 \<le> rq_command r \<and> rq_command r < int (length (re_scopes e)) \<and>
     length (rq_addr_vec r) = length (re_count e) \<and>
     (\<forall>l. re_rank e \<le> l \<longrightarrow> l \<le> re_bank e \<longrightarrow> l \<le> re_scopes e ! nat (rq_command r) \<longrightarrow>
        0 \<le> rq_addr_vec r ! nat l \<and> rq_addr_vec r ! nat l < re_count e ! nat l)"

lemma mixed_radix_bound:
  fixes a :: int
  assumes "0 \<le> a" "a < A" "0 \<le> b" "b < B"
  shows "0 \<le> a + b * A" "a + b * A < A * B"
proof -
  show "0 \<le> a + b * A" using assms by simp
  have "b * A + A = (b + 1) * A" by (simp add: algebra_simps)
  also have "\<dots> \<le> B * A" using assms by (intro mult_right_mono) auto
  finally show "a + b * A < A * B" using assms(2) by (simp add: mult.commute)
qed

lemma addressed_fits:
  assumes s: "rh_setup (standard_of k) d = Inr e" and r: "rh_addressed e r"
  shows "rh_fits e (Some r)"
proof -
  note env = rh_setup_env [OF s]
  let ?av = "rq_addr_vec r" and ?c = "re_count e"
  have cmd: "0 \<le> rq_command r" "rq_command r < int (length (re_scopes e))" "rq_command r < int (length (re_meta e))"
    using r env(7,8) by (auto simp: rh_addressed_def)
  have len: "5 \<le> length ?av" using r env(4) by (simp add: rh_addressed_def)
  have level: "0 \<le> ?av ! nat l \<and> ?av ! nat l < ?c ! nat l"
    if "1 \<le> l" "l \<le> 3" "l \<le> re_scopes e ! nat (rq_command r)" for l
    using r that env(1,2) by (simp add: rh_addressed_def)
  have "\<exists>b row. rh_target e ?av = Some (b, row) \<and> 0 \<le> b \<and> b < re_num_banks e"
    if "re_scopes e ! nat (rq_command r) = 4"
  proof -
    from level [of 1] level [of 2] level [of 3] that have
      l: "0 \<le> ?av ! 1" "?av ! 1 < ?c ! 1" "0 \<le> ?av ! 2" "?av ! 2 < ?c ! 2" "0 \<le> ?av ! 3" "?av ! 3 < ?c ! 3" by auto
    have "[1..2 :: int] = [1, 2]" by (simp add: upto.simps)
    then have "rh_target e ?av = Some (?av ! 3 + ?av ! 2 * ?c ! 3 + ?av ! 1 * (?c ! 3 * ?c ! 2), ?av ! 4)"
      using len env(1-4) by (simp add: rh_target_def flat_bank_id_def vec_at_def)
    moreover have "re_num_banks e = ?c ! 3 * ?c ! 2 * ?c ! 1"
      using env(5,6) l by (auto simp: re_num_banks_def)
    ultimately show ?thesis
      using mixed_radix_bound [OF mixed_radix_bound [OF l(5,6,3,4)] l(1,2)] by simp
  qed
  moreover have "\<exists>rank. vec_at ?av 1 = Some rank \<and> 0 \<le> rank \<and> rank < re_num_ranks e"
    if "re_scopes e ! nat (rq_command r) = 1"
    using level [of 1] that len env(5) by (simp add: vec_at_def)
  ultimately show ?thesis
    using cmd env(1,3) by (auto simp: rh_fits_def rh_activates_def rh_refreshes_rank_def vec_at_def)
qed

lemma addressed_fits_option:
  assumes "rh_setup (standard_of k) d = Inr e" "\<And>r. found = Some r \<Longrightarrow> rh_addressed e r"
  shows "rh_fits e found"
proof (cases found)
  case None
  then show ?thesis by (simp add: rh_fits_def)
next
  case (Some r)
  with addressed_fits [OF assms(1) assms(2)] show ?thesis by simp
qed

lemma admitted_take:
  "admitted A past fs \<longleftrightarrow> (\<forall>i < length fs. A (rev (take i fs) @ past) (fs ! i))"
proof (induction fs arbitrary: past)
  case Nil
  then show ?case by simp
next
  case (Cons f fs)
  show ?case by (auto simp: Cons.IH less_Suc_eq_0_disj)
qed

section \<open>The promises\<close>

text \<open>C12: the oracle defence keeps its promise on every device with a victim-row refresh. For a threshold of at
  least two and whatever commands it is told of, it never indexes out of its tables, it asks for a
  refresh of the neighbours of a row exactly at the activation that makes the threshold since the
  last such refresh or the last refresh of the rank, and so at no moment has a row been activated
  threshold times since.\<close>

theorem oracle_keeps_promise:
  assumes "rh_setup (standard_of k) d = Inr e" "2 \<le> tRH" "\<And>r. Some r \<in> set fs \<Longrightarrow> rh_addressed e r"
  shows "\<exists>h ts. rh_run (oracle_rh_update e tRH) [] (oracle_rh_init e) fs = Some (h, ts) \<and> map fst h = rev fs \<and>
    oracle_history e tRH h \<and> (\<forall>b row. pressure e (rank_refreshed e) b row h < tRH)"
proof -
  have "rh_fits e f" if "f \<in> set fs" for f
    using that assms(3) by (intro addressed_fits_option [OF assms(1)]) simp
  then have "admitted (\<lambda>past found. 2 \<le> tRH \<and> rh_fits e found) [] fs" using assms(2) by (simp add: admitted_take)
  from orh.defended_bounded [OF this] assms(2) show ?thesis by (auto simp: oracle_inv_def)
qed

text \<open>C11: Graphene keeps its promise on every device with a victim-row refresh. With \<open>k\<close> table entries and
  the threshold \<open>T\<close> it never indexes out of its tables, and as long as no bank sees \<open>(k + 1) * (T - 1)\<close>
  activations between two resets, at no moment has a row been activated \<open>T\<close> times since the last reset or
  the last refresh of its neighbours it asked for, in whatever order the hash map is traversed.\<close>

theorem graphene_keeps_promise:
  assumes "rh_setup (standard_of k) d = Inr e" "2 \<le> gr_threshold c" "gr_period c \<noteq> 0"
    and "\<And>r. Some r \<in> set fs \<Longrightarrow> rh_addressed e r" "\<And>n t. set (visit n t) = set t"
    and "\<And>n b. n \<le> length fs \<Longrightarrow>
      window_acts e (gr_period c) b (rev (take n fs)) < (int (nat (gr_entries c)) + 1) * (gr_threshold c - 1)"
  shows "\<exists>h g. rh_run (graphene_update visit e c) [] (graphene_init e c) fs = Some (h, g) \<and> map fst h = rev fs \<and>
    (\<forall>b row. pressure e (window_reset (gr_period c)) b row h < gr_threshold c)"
proof -
  have "graphene_admits visit e c (rev (take i fs)) (fs ! i)" if "i < length fs" for i
  proof -
    have "rh_fits e (fs ! i)"
      using nth_mem [OF that] assms(4) by (intro addressed_fits_option [OF assms(1)]) simp
    moreover have "fs ! i # rev (take i fs) = rev (take (Suc i) fs)" using that by (simp add: take_Suc_conv_app_nth)
    ultimately show ?thesis using assms(2,3,5) assms(6) [of "Suc i"] that by (simp add: graphene_admits_def)
  qed
  then have "admitted (graphene_admits visit e c) [] fs" by (simp add: admitted_take)
  from graphene.defended_bounded [OF this] assms(2) show ?thesis by auto
qed

section \<open>A device and a hammered row\<close>

definition vrr_config :: dram_config where
  "vrr_config = \<lparr>cf_channel_width = None, cf_org_preset = Some ''DDR4_2Gb_x8'', cf_dq = None,
     cf_count = Map.empty, cf_density = None, cf_timing_preset = Some ''DDR4_1600J'', cf_rate = None,
     cf_cycles = Map.empty, cf_ps = Map.empty\<rparr>"

definition vrr_dev :: device where
  "vrr_dev = (case dev_init (standard_of (DDR4_VRR 2)) vrr_config of Inr d \<Rightarrow> d | Inl _ \<Rightarrow> undefined)"

definition vrr_env :: rh_env where
  "vrr_env = \<lparr>re_meta = the ddr4vrr_meta, re_scopes = the ddr4vrr_scopes, re_count = [1, 1, 4, 4, 16384, 1024],
     re_rank = 1, re_bank = 3, re_row = 4, re_vrr = 3, re_num_ranks = 1, re_banks_per_rank = 16, re_num_rows = 16384\<rparr>"

lemma vrr_setup: "rh_setup (standard_of (DDR4_VRR 2)) vrr_dev = Inr vrr_env"
  by code_simp

definition vrr_act :: "request option" where
  "vrr_act = Some ((request_vec [0, 0, 2, 1, 77, 0] 4)\<lparr>rq_command := 0\<rparr>)"

lemma vrr_addressed: "Some r \<in> set (replicate n vrr_act) \<Longrightarrow> rh_addressed vrr_env r"
proof -
  assume "Some r \<in> set (replicate n vrr_act)"
  then have r: "r = (request_vec [0, 0, 2, 1, 77, 0] 4)\<lparr>rq_command := 0\<rparr>" by (simp add: vrr_act_def split: if_splits)
  have len: "length (re_scopes vrr_env) = 11" by code_simp
  have "0 \<le> rq_addr_vec r ! nat l \<and> rq_addr_vec r ! nat l < re_count vrr_env ! nat l" if "1 \<le> l" "l \<le> 3" for l
  proof -
    from that have "l = 1 \<or> l = 2 \<or> l = 3" by auto
    then show ?thesis by (auto simp: r vrr_env_def request_vec_def blank_request_def)
  qed
  with len show ?thesis unfolding rh_addressed_def by (simp add: r vrr_env_def request_vec_def blank_request_def)
qed

lemma oracle_keeps_promise_witness:
  "\<exists>h ts. rh_run (oracle_rh_update vrr_env 3) [] (oracle_rh_init vrr_env) (replicate 7 vrr_act) = Some (h, ts) \<and>
     (\<forall>b row. pressure vrr_env (rank_refreshed vrr_env) b row h < 3)"
  using oracle_keeps_promise [OF vrr_setup, of 3 "replicate 7 vrr_act"] vrr_addressed by auto

definition vrr_graphene :: graphene_cfg where
  "vrr_graphene = \<lparr>gr_entries = 3, gr_threshold = 4, gr_period = 1000\<rparr>"

lemma vrr_window: "n \<le> 7 \<Longrightarrow> window_acts vrr_env 1000 b (rev (take n (replicate 7 vrr_act))) < 12"
proof -
  have "window_acts e P b fs \<le> int (length fs)" for e P fs
    using window_acts_nonneg by (induction fs) auto
  from this [of vrr_env 1000 "rev (take n (replicate 7 vrr_act))"] show ?thesis by simp
qed

lemma graphene_keeps_promise_witness:
  "\<exists>h g. rh_run (graphene_update (\<lambda>n t. rev t) vrr_env vrr_graphene) [] (graphene_init vrr_env vrr_graphene)
       (replicate 7 vrr_act) = Some (h, g) \<and>
     (\<forall>b row. pressure vrr_env (window_reset 1000) b row h < 4)"
  using graphene_keeps_promise [OF vrr_setup, of vrr_graphene "replicate 7 vrr_act" "\<lambda>n t. rev t"] vrr_addressed vrr_window
  by (auto simp: vrr_graphene_def)

text \<open>The refreshes the oracle asks for under seven activations of one row: at every third.\<close>

lemma oracle_refreshes:
  "map_option (\<lambda>(h, ts). map (\<lambda>(found, sent). length sent) (rev h))
     (rh_run (oracle_rh_update vrr_env 3) [] (oracle_rh_init vrr_env) (replicate 7 vrr_act)) = Some [0, 0, 1, 0, 0, 1, 0]"
  by code_simp

end
