(* ===== verification/O3_Cache.thy ===== *)
theory O3_Cache
  imports Request_Buffer Base_Utils
begin

unbundle bit_operations_syntax

text \<open>
  The last-level cache of the processor frontend (\<open>src/frontend/impl/processor/simpleO3/llc.cpp\<close>, \<open>llc.h\<close>) and
  the part of \<open>SimpleO3::receive\<close> (\<open>simpleO3.cpp\<close>) that works on it. A set is a list of lines in LRU order. An
  iterator to a line outlives changes of its list, so lines carry the identity of their list node (\<open>ln_id\<close>, drawn
  from a counter) and an MSHR entry holds the set and the identity of its line. The memory system is a
  parameter: its answer to \<open>send\<close>, with its state.
\<close>

section \<open>State\<close>

record line =
  ln_id :: nat
  ln_addr :: addr_t
  ln_tag :: int
  ln_dirty :: bool
  ln_ready :: bool

record llc_cfg =
  lc_latency :: int
  lc_linesize :: int
  lc_assoc :: int
  lc_num_mshrs :: int
  lc_index_mask :: int
  lc_index_offset :: nat
  lc_tag_offset :: nat

record llc_stats =
  ls_read_access :: int
  ls_write_access :: int
  ls_read_misses :: int
  ls_write_misses :: int
  ls_eviction :: int
  ls_mshr_unavailable :: int

type_synonym mshr_entry = "addr_t \<times> int \<times> nat"

record llc =
  ll_clk :: clk
  ll_sets :: "int \<rightharpoonup> line list"
  ll_mshrs :: "mshr_entry list"
  ll_receive :: "addr_t \<rightharpoonup> request list"
  ll_miss :: "(clk \<times> request) list"
  ll_hit :: "(clk \<times> request) list"
  ll_next :: nat
  ll_stats :: llc_stats

text \<open>The failed assertion of \<open>need_eviction\<close>, an iterator to an erased line, the exception of \<open>send\<close>.\<close>

datatype llc_fault = Assertion_failed | Dangling_iterator | Allocation_failed

text \<open>The constructor; \<open>None\<close> for a division by zero, a logarithm that does not end or a shift by 64 bits.\<close>

definition llc_setup :: "int \<Rightarrow> int \<Rightarrow> int \<Rightarrow> int \<Rightarrow> int \<Rightarrow> llc_cfg option" where
  "llc_setup latency size_bytes linesize assoc mshrs =
     (let ls = u64 linesize; way = u64 (ls * assoc) in
      if way = 0 then None
      else let set_size = i32 (u64 size_bytes div way); ix = calc_log2 (nat ls) in
        if set_size < 0 then None
        else let tg = calc_log2 (nat set_size) + ix in
          if 64 \<le> tg then None
          else Some \<lparr>lc_latency = latency, lc_linesize = ls, lc_assoc = assoc, lc_num_mshrs = mshrs,
                 lc_index_mask = set_size - 1, lc_index_offset = ix, lc_tag_offset = tg\<rparr>)"

definition llc_new :: llc where
  "llc_new = \<lparr>ll_clk = 0, ll_sets = Map.empty, ll_mshrs = [], ll_receive = Map.empty, ll_miss = [], ll_hit = [],
     ll_next = 0, ll_stats = \<lparr>ls_read_access = 0, ls_write_access = 0, ls_read_misses = 0, ls_write_misses = 0,
       ls_eviction = 0, ls_mshr_unavailable = 0\<rparr>\<rparr>"

section \<open>Addresses and look-ups\<close>

definition get_index :: "llc_cfg \<Rightarrow> addr_t \<Rightarrow> int" where
  "get_index c a = i32 (drop_bit (lc_index_offset c) a AND lc_index_mask c)"

definition get_tag :: "llc_cfg \<Rightarrow> addr_t \<Rightarrow> int" where
  "get_tag c a = drop_bit (lc_tag_offset c) a"

definition align :: "llc_cfg \<Rightarrow> addr_t \<Rightarrow> addr_t" where
  "align c a = a AND NOT (lc_linesize c - 1)"

definition get_set :: "llc_cfg \<Rightarrow> addr_t \<Rightarrow> llc \<Rightarrow> line list" where
  "get_set c a L = (case ll_sets L (get_index c a) of None \<Rightarrow> [] | Some s \<Rightarrow> s)"

definition put_set :: "llc_cfg \<Rightarrow> addr_t \<Rightarrow> line list \<Rightarrow> llc \<Rightarrow> llc" where
  "put_set c a s L = L\<lparr>ll_sets := (ll_sets L)(get_index c a \<mapsto> s)\<rparr>"

text \<open>
  Without a line of that tag the code reads \<open>ready\<close> through \<open>end()\<close>; whatever it reads, the iterator it
  returns is \<open>end()\<close>, so the answer is the same.
\<close>

definition check_set_hit :: "llc_cfg \<Rightarrow> line list \<Rightarrow> addr_t \<Rightarrow> line option" where
  "check_set_hit c s a = (case find (\<lambda>l. ln_tag l = get_tag c a) s of
     None \<Rightarrow> None | Some l \<Rightarrow> if \<not> ln_ready l then None else Some l)"

definition check_mshr_hit :: "llc_cfg \<Rightarrow> mshr_entry list \<Rightarrow> addr_t \<Rightarrow> mshr_entry option" where
  "check_mshr_hit c ms a = find (\<lambda>(b, _). align c b = align c a) ms"

text \<open>Writing through an iterator.\<close>

definition set_line :: "nat \<Rightarrow> (line \<Rightarrow> line) \<Rightarrow> line list \<Rightarrow> line list" where
  "set_line n f s = map (\<lambda>l. if ln_id l = n then f l else l) s"

definition write_line :: "int \<times> nat \<Rightarrow> (line \<Rightarrow> line) \<Rightarrow> llc \<Rightarrow> llc_fault + llc" where
  "write_line it f L = (case ll_sets L (fst it) of
     None \<Rightarrow> Inl Dangling_iterator
   | Some s \<Rightarrow> if \<exists>l \<in> set s. ln_id l = snd it
               then Inr (L\<lparr>ll_sets := (ll_sets L)(fst it \<mapsto> set_line (snd it) f s)\<rparr>)
               else Inl Dangling_iterator)"

definition erase_line :: "nat \<Rightarrow> line list \<Rightarrow> line list" where
  "erase_line n s = filter (\<lambda>l. ln_id l \<noteq> n) s"

section \<open>Allocation\<close>

definition need_eviction :: "llc_cfg \<Rightarrow> line list \<Rightarrow> addr_t \<Rightarrow> llc_fault + bool" where
  "need_eviction c s a =
     (if \<exists>l \<in> set s. get_tag c a = ln_tag l then Inl Assertion_failed
      else Inr (\<not> int (length s) < u64 (lc_assoc c)))"

definition evict_line :: "llc_cfg \<Rightarrow> line list \<Rightarrow> line \<Rightarrow> llc \<Rightarrow> line list \<times> llc" where
  "evict_line c s victim L =
     (erase_line (ln_id victim) s,
      L\<lparr>ll_stats := (ll_stats L)\<lparr>ls_eviction := ls_eviction (ll_stats L) + 1\<rparr>,
        ll_miss := ll_miss L @
          (if ln_dirty victim then [(ll_clk L + lc_latency c, request_addr (ln_addr victim) type_Write)] else [])\<rparr>)"

text \<open>The new line, or \<open>None\<close> when no line can be evicted.\<close>

definition allocate_line :: "llc_cfg \<Rightarrow> line list \<Rightarrow> addr_t \<Rightarrow> llc \<Rightarrow> llc_fault + ((line list \<times> llc) option)" where
  "allocate_line c s a L =
     sbind (need_eviction c s a) (\<lambda>evict.
       sbind (if \<not> evict then Inr (Some (s, L))
              else case find ln_ready s of None \<Rightarrow> Inr None | Some victim \<Rightarrow> Inr (Some (evict_line c s victim L)))
         (\<lambda>res. Inr (map_option (\<lambda>(s1, L1).
            (s1 @ [\<lparr>ln_id = ll_next L1, ln_addr = a, ln_tag = get_tag c a, ln_dirty = False, ln_ready = False\<rparr>],
             L1\<lparr>ll_next := Suc (ll_next L1)\<rparr>)) res)))"

section \<open>send\<close>

definition count_access :: "int \<Rightarrow> llc_stats \<Rightarrow> llc_stats" where
  "count_access ty st =
     (if ty = type_Read then st\<lparr>ls_read_access := ls_read_access st + 1\<rparr>
      else if ty = type_Write then st\<lparr>ls_write_access := ls_write_access st + 1\<rparr> else st)"

definition count_miss :: "int \<Rightarrow> llc_stats \<Rightarrow> llc_stats" where
  "count_miss ty st =
     (if ty = type_Read then st\<lparr>ls_read_misses := ls_read_misses st + 1\<rparr>
      else if ty = type_Write then st\<lparr>ls_write_misses := ls_write_misses st + 1\<rparr> else st)"

definition hit_line :: "llc_cfg \<Rightarrow> line list \<Rightarrow> request \<Rightarrow> line \<Rightarrow> llc \<Rightarrow> llc" where
  "hit_line c s r l L =
     (let new = \<lparr>ln_id = ll_next L, ln_addr = rq_addr r, ln_tag = get_tag c (rq_addr r),
            ln_dirty = ln_dirty l \<or> rq_type r = type_Write, ln_ready = True\<rparr>
      in (put_set c (rq_addr r) (erase_line (ln_id l) (s @ [new])) L)\<lparr>ll_next := Suc (ll_next L),
           ll_hit := ll_hit L @ [(ll_clk L + lc_latency c, r)]\<rparr>)"

definition join_mshr :: "request \<Rightarrow> bool \<Rightarrow> mshr_entry \<Rightarrow> llc \<Rightarrow> llc_fault + llc" where
  "join_mshr r dirty e L =
     write_line (snd e) (\<lambda>l. l\<lparr>ln_dirty := dirty \<or> ln_dirty l\<rparr>)
       (L\<lparr>ll_receive := (ll_receive L)(fst e \<mapsto> (case ll_receive L (fst e) of None \<Rightarrow> [] | Some rs \<Rightarrow> rs) @ [r])\<rparr>)"

definition new_miss :: "llc_cfg \<Rightarrow> line list \<Rightarrow> request \<Rightarrow> bool \<Rightarrow> llc \<Rightarrow> llc_fault + (bool \<times> llc)" where
  "new_miss c s r dirty L =
     (if int (length (ll_mshrs L)) = u64 (lc_num_mshrs c)
      then Inr (False, L\<lparr>ll_stats := (ll_stats L)\<lparr>ls_mshr_unavailable := ls_mshr_unavailable (ll_stats L) + 1\<rparr>\<rparr>)
      else if \<not> (int (length s) < u64 (lc_assoc c) \<or> (\<exists>l \<in> set s. ln_ready l)) then Inr (False, L)
      else sbind (allocate_line c s (rq_addr r) L) (\<lambda>res. case res of
          None \<Rightarrow> Inl Allocation_failed
        | Some (s1, L1) \<Rightarrow>
            let n = ln_id (last s1); s2 = set_line n (\<lambda>l. l\<lparr>ln_dirty := dirty\<rparr>) s1 in
            Inr (True, (put_set c (rq_addr r) s2 L1)\<lparr>
              ll_mshrs := ll_mshrs L1 @ [(rq_addr r, get_index c (rq_addr r), n)],
              ll_receive := (ll_receive L1)(rq_addr r \<mapsto> [r]),
              ll_miss := ll_miss L1 @ [(ll_clk L1 + lc_latency c, r)]\<rparr>)))"

definition llc_send :: "llc_cfg \<Rightarrow> request \<Rightarrow> llc \<Rightarrow> llc_fault + (bool \<times> llc)" where
  "llc_send c r L0 =
     (let s = get_set c (rq_addr r) L0;
          L = (put_set c (rq_addr r) s L0)\<lparr>ll_stats := count_access (rq_type r) (ll_stats L0)\<rparr> in
      case check_set_hit c s (rq_addr r) of
        Some l \<Rightarrow> Inr (True, hit_line c s r l L)
      | None \<Rightarrow>
          let L1 = L\<lparr>ll_stats := count_miss (rq_type r) (ll_stats L)\<rparr>;
              dirty = (rq_type r = type_Write);
              r1 = (if rq_type r = type_Write then r\<lparr>rq_type := type_Read\<rparr> else r)
          in case check_mshr_hit c (ll_mshrs L1) (rq_addr r1) of
               Some e \<Rightarrow> sbind (join_mshr r1 dirty e L1) (\<lambda>L2. Inr (True, L2))
             | None \<Rightarrow> new_miss c s r1 dirty L1)"

section \<open>receive and tick\<close>

definition llc_receive :: "llc_cfg \<Rightarrow> request \<Rightarrow> llc \<Rightarrow> llc_fault + llc" where
  "llc_receive c r L = (case check_mshr_hit c (ll_mshrs L) (rq_addr r) of
     None \<Rightarrow> Inr L
   | Some e \<Rightarrow> sbind (write_line (snd e) (\<lambda>l. l\<lparr>ln_ready := True\<rparr>) L)
       (\<lambda>L1. Inr (L1\<lparr>ll_mshrs := remove1 e (ll_mshrs L1)\<rparr>)))"

text \<open>\<open>SimpleO3::receive\<close>: the requests that waited for this address go to their cores.\<close>

definition o3_answer :: "llc_cfg \<Rightarrow> request \<Rightarrow> llc \<Rightarrow> llc_fault + (request list \<times> llc)" where
  "o3_answer c r L = sbind (llc_receive c r L) (\<lambda>L1.
     Inr (map (\<lambda>w. w\<lparr>rq_arrive := rq_arrive r, rq_depart := rq_depart r\<rparr>)
            (case ll_receive L1 (rq_addr r) of None \<Rightarrow> [] | Some rs \<Rightarrow> rs),
          L1\<lparr>ll_receive := (ll_receive L1)(rq_addr r \<mapsto> [])\<rparr>))"

fun send_misses :: "('m \<Rightarrow> request \<Rightarrow> bool \<times> 'm) \<Rightarrow> clk \<Rightarrow> (clk \<times> request) list \<Rightarrow> 'm \<Rightarrow> (clk \<times> request) list \<times> 'm" where
  "send_misses snd_mem now [] m = ([], m)"
| "send_misses snd_mem now ((t, r) # ts) m =
     (if now \<ge> t
      then (case snd_mem m r of (is_sent, m1) \<Rightarrow> (case send_misses snd_mem now ts m1 of (rest, m2) \<Rightarrow>
             (if is_sent then rest else (t, r) # rest, m2)))
      else (case send_misses snd_mem now ts m of (rest, m2) \<Rightarrow> ((t, r) # rest, m2)))"

text \<open>The hits that are due are answered; what goes to the cores, in order, and the hits that remain.\<close>

fun answer_hits :: "llc_cfg \<Rightarrow> (clk \<times> request) list \<Rightarrow> llc \<Rightarrow> llc_fault + (request list \<times> (clk \<times> request) list \<times> llc)" where
  "answer_hits c [] L = Inr ([], [], L)"
| "answer_hits c ((t, r) # ts) L =
     (if ll_clk L \<ge> t
      then sbind (o3_answer c r (L\<lparr>ll_receive := (ll_receive L)(rq_addr r \<mapsto> [r])\<rparr>)) (\<lambda>(ds, L1).
             sbind (answer_hits c ts L1) (\<lambda>(ds', rest, L2). Inr (ds @ ds', rest, L2)))
      else sbind (answer_hits c ts L) (\<lambda>(ds, rest, L2). Inr (ds, (t, r) # rest, L2)))"

definition llc_tick :: "('m \<Rightarrow> request \<Rightarrow> bool \<times> 'm) \<Rightarrow> llc_cfg \<Rightarrow> 'm \<Rightarrow> llc \<Rightarrow> llc_fault + (request list \<times> 'm \<times> llc)" where
  "llc_tick snd_mem c m L0 =
     (let L = L0\<lparr>ll_clk := ll_clk L0 + 1\<rparr>; (misses, m') = send_misses snd_mem (ll_clk L) (ll_miss L) m in
      sbind (answer_hits c (ll_hit L) (L\<lparr>ll_miss := misses\<rparr>)) (\<lambda>(ds, rest, L1). Inr (ds, m', L1\<lparr>ll_hit := rest\<rparr>)))"

text \<open>The states the cache can be in: any requests, any answers, a memory that does anything in between.\<close>

inductive llc_reach :: "('m \<Rightarrow> request \<Rightarrow> bool \<times> 'm) \<Rightarrow> llc_cfg \<Rightarrow> llc \<Rightarrow> bool" for snd_mem c where
  start: "llc_reach snd_mem c llc_new"
| send: "llc_reach snd_mem c L \<Longrightarrow> llc_send c r L = Inr (b, L') \<Longrightarrow> llc_reach snd_mem c L'"
| answer: "llc_reach snd_mem c L \<Longrightarrow> o3_answer c r L = Inr (ds, L') \<Longrightarrow> llc_reach snd_mem c L'"
| tick: "llc_reach snd_mem c L \<Longrightarrow> llc_tick snd_mem c m L = Inr (ds, m', L') \<Longrightarrow> llc_reach snd_mem c L'"

end
