(* ===== verification/O3_Core.thy ===== *)
theory O3_Core
  imports O3_Cache
begin

text \<open>
  A core of the processor frontend (\<open>src/frontend/impl/processor/simpleO3/core.cpp\<close>, \<open>core.h\<close>): the instruction
  trace, the window of instructions in flight as a ring buffer, the tick of the core with its three stages and
  the answer it receives. The last-level cache is the one of \<open>O3_Cache\<close>; the address translation is a
  parameter, \<open>None\<close> when it does not return. A request of a core carries the one callback of the frontend.
\<close>

datatype o3_fault = Cache_fault llc_fault | Vector_range | Length_error | Division_by_zero | Translation_hangs
  | Invalid_format | Number_error parse_error

fun of_opt :: "'e \<Rightarrow> 'a option \<Rightarrow> 'e + 'a" where
  "of_opt e None = Inl e"
| "of_opt e (Some x) = Inr x"

fun of_sum :: "('e \<Rightarrow> 'f) \<Rightarrow> 'e + 'a \<Rightarrow> 'f + 'a" where
  "of_sum f (Inl e) = Inl (f e)"
| "of_sum f (Inr x) = Inr x"

section \<open>The trace\<close>

record inst =
  in_bubbles :: int
  in_load :: addr_t
  in_store :: addr_t

definition stoi :: "string \<Rightarrow> parse_error + int" where
  "stoi s = sbind (stoll 10 s) (\<lambda>v. if - (2 ^ 31) \<le> v \<and> v < 2 ^ 31 then Inr v else Inl Out_of_range)"

definition parse_inst :: "string \<Rightarrow> o3_fault + inst" where
  "parse_inst line = sbind (of_opt Vector_range (tokenize line '' '')) (\<lambda>ts.
     if length ts \<noteq> 2 \<and> length ts \<noteq> 3 then Inl Invalid_format
     else sbind (of_sum Number_error (stoi (ts ! 0))) (\<lambda>b.
       sbind (of_sum Number_error (stoll 10 (ts ! 1))) (\<lambda>l.
         if length ts = 2 then Inr \<lparr>in_bubbles = b, in_load = l, in_store = -1\<rparr>
         else sbind (of_sum Number_error (stoll 10 (ts ! 2))) (\<lambda>s. Inr \<lparr>in_bubbles = b, in_load = l, in_store = s\<rparr>))))"

definition trace_new :: "string list \<Rightarrow> o3_fault + inst list" where
  "trace_new ls = smap parse_inst ls"

section \<open>The instruction window\<close>

record window =
  iw_ipc :: int
  iw_depth :: int
  iw_load :: int
  iw_head :: int
  iw_tail :: int
  iw_ready :: "bool list"
  iw_addr :: "addr_t list"

definition window_new :: "int \<Rightarrow> int \<Rightarrow> o3_fault + window" where
  "window_new ipc depth =
     (if depth < 0 then Inl Length_error
      else Inr \<lparr>iw_ipc = ipc, iw_depth = depth, iw_load = 0, iw_head = 0, iw_tail = 0,
             iw_ready = replicate (nat depth) False, iw_addr = replicate (nat depth) (-1)\<rparr>)"

definition is_full :: "window \<Rightarrow> bool" where
  "is_full w \<longleftrightarrow> iw_load w = iw_depth w"

definition win_insert :: "bool \<Rightarrow> addr_t \<Rightarrow> window \<Rightarrow> o3_fault + window" where
  "win_insert ready a w =
     sbind (of_opt Vector_range (vec_set (iw_ready w) (iw_head w) ready)) (\<lambda>rs.
       sbind (of_opt Vector_range (vec_set (iw_addr w) (iw_head w) a)) (\<lambda>as.
         if iw_depth w = 0 then Inl Division_by_zero
         else Inr (w\<lparr>iw_ready := rs, iw_addr := as, iw_head := (iw_head w + 1) mod iw_depth w, iw_load := iw_load w + 1\<rparr>)))"

text \<open>The loop of \<open>retire\<close>, with the number of instructions that it may still retire.\<close>

fun retire_upto :: "nat \<Rightarrow> window \<Rightarrow> o3_fault + (int \<times> window)" where
  "retire_upto 0 w = Inr (0, w)"
| "retire_upto (Suc n) w =
     (if iw_load w > 0
      then sbind (of_opt Vector_range (vec_at (iw_ready w) (iw_tail w))) (\<lambda>r.
             if \<not> r then Inr (0, w)
             else if iw_depth w = 0 then Inl Division_by_zero
             else sbind (retire_upto n (w\<lparr>iw_tail := (iw_tail w + 1) mod iw_depth w, iw_load := iw_load w - 1\<rparr>))
                    (\<lambda>(k, w'). Inr (k + 1, w')))
      else Inr (0, w))"

definition win_retire :: "window \<Rightarrow> o3_fault + (int \<times> window)" where
  "win_retire w = (if iw_load w = 0 then Inr (0, w) else retire_upto (nat (iw_ipc w)) w)"

fun ready_from :: "nat \<Rightarrow> int \<Rightarrow> addr_t \<Rightarrow> window \<Rightarrow> o3_fault + window" where
  "ready_from 0 index a w = Inr w"
| "ready_from (Suc n) index a w =
     sbind (of_opt Vector_range (vec_at (iw_addr w) index)) (\<lambda>b.
       sbind (if b = a then sbind (of_opt Vector_range (vec_set (iw_ready w) index True)) (\<lambda>rs. Inr (w\<lparr>iw_ready := rs\<rparr>))
              else Inr w)
         (\<lambda>w'. ready_from n (if index + 1 = iw_depth w then 0 else index + 1) a w'))"

definition win_set_ready :: "addr_t \<Rightarrow> window \<Rightarrow> o3_fault + window" where
  "win_set_ready a w = (if iw_load w = 0 then Inr w else ready_from (nat (iw_load w)) (iw_tail w) a w)"

section \<open>The core\<close>

record core =
  co_clk :: clk
  co_id :: int
  co_trace :: "inst list"
  co_idx :: int
  co_window :: window
  co_bubbles :: int
  co_load_addr :: addr_t
  co_wb_addr :: addr_t
  co_expected :: int
  co_last_mem :: clk
  co_reached :: bool
  co_retired :: int
  co_cycles :: int
  co_mem_cycles :: clk

text \<open>\<open>get_next_inst\<close> and the three fields it is copied to.\<close>

definition fetch :: "core \<Rightarrow> o3_fault + core" where
  "fetch C = sbind (of_opt Vector_range (vec_at (co_trace C) (co_idx C))) (\<lambda>i.
     if co_trace C = [] then Inl Division_by_zero
     else Inr (C\<lparr>co_idx := (co_idx C + 1) mod int (length (co_trace C)), co_bubbles := in_bubbles i,
            co_load_addr := in_load i, co_wb_addr := in_store i\<rparr>))"

definition core_new :: "int \<Rightarrow> int \<Rightarrow> int \<Rightarrow> int \<Rightarrow> inst list \<Rightarrow> o3_fault + core" where
  "core_new i ipc depth expected tr = sbind (window_new ipc depth) (\<lambda>w.
     fetch \<lparr>co_clk = 0, co_id = i, co_trace = tr, co_idx = 0, co_window = w, co_bubbles = 0, co_load_addr = -1,
       co_wb_addr = -1, co_expected = u64 expected, co_last_mem = 0, co_reached = False, co_retired = 0, co_cycles = 0,
       co_mem_cycles = 0\<rparr>)"

text \<open>The first lines of \<open>tick\<close>: retire, and notice the end.\<close>

definition core_retire :: "core \<Rightarrow> o3_fault + core" where
  "core_retire C = sbind (win_retire (co_window C)) (\<lambda>(k, w).
     let C1 = C\<lparr>co_window := w, co_retired := u64 (co_retired C + k)\<rparr> in
     Inr (if \<not> co_reached C1 \<and> co_retired C1 \<ge> co_expected C1
          then C1\<lparr>co_reached := True, co_cycles := u64 (co_clk C1)\<rparr> else C1))"

text \<open>The bubbles: whether the tick goes on, and how many instructions were inserted.\<close>

fun issue_bubbles :: "nat \<Rightarrow> int \<Rightarrow> core \<Rightarrow> o3_fault + (bool \<times> int \<times> core)" where
  "issue_bubbles 0 n C = Inr (True, n, C)"
| "issue_bubbles (Suc b) n C =
     (if n = iw_ipc (co_window C) then Inr (False, n, C)
      else if is_full (co_window C) then Inr (False, n, C)
      else sbind (win_insert True (-1) (co_window C)) (\<lambda>w.
             issue_bubbles b (n + 1) (C\<lparr>co_window := w, co_bubbles := co_bubbles C - 1\<rparr>)))"

definition issue_writeback :: "('t \<Rightarrow> request \<Rightarrow> (bool \<times> request \<times> 't) option) \<Rightarrow> llc_cfg \<Rightarrow> core \<Rightarrow> 't \<Rightarrow> llc
    \<Rightarrow> o3_fault + (core \<times> 't \<times> llc)" where
  "issue_writeback translate c C t L =
     (if co_wb_addr C \<noteq> -1
      then sbind (of_opt Translation_hangs (translate t (request_src (co_wb_addr C) type_Write (co_id C) (Some 0))))
        (\<lambda>(ok, r, t1). if \<not> ok then Inr (C, t1, L)
          else sbind (of_sum Cache_fault (llc_send c r L)) (\<lambda>(sent, L1).
            if \<not> sent then Inr (C, t1, L1) else sbind (fetch C) (\<lambda>C1. Inr (C1, t1, L1))))
      else sbind (fetch C) (\<lambda>C1. Inr (C1, t, L)))"

definition issue_memory :: "('t \<Rightarrow> request \<Rightarrow> (bool \<times> request \<times> 't) option) \<Rightarrow> llc_cfg \<Rightarrow> int \<Rightarrow> core \<Rightarrow> 't \<Rightarrow> llc
    \<Rightarrow> o3_fault + (core \<times> 't \<times> llc)" where
  "issue_memory translate c n C t L =
     (if co_load_addr C \<noteq> -1
      then if n = iw_ipc (co_window C) then Inr (C, t, L)
           else if is_full (co_window C) then Inr (C, t, L)
           else sbind (of_opt Translation_hangs (translate t (request_src (co_load_addr C) type_Read (co_id C) (Some 0))))
             (\<lambda>(ok, r, t1). if \<not> ok then Inr (C, t1, L)
               else sbind (of_sum Cache_fault (llc_send c r L)) (\<lambda>(sent, L1).
                 if sent
                 then sbind (win_insert False (rq_addr r) (co_window C)) (\<lambda>w.
                   let C1 = C\<lparr>co_window := w, co_load_addr := -1\<rparr> in
                   if co_wb_addr C1 \<noteq> -1 then Inr (C1, t1, L1) else issue_writeback translate c C1 t1 L1)
                 else Inr (C, t1, L1)))
      else issue_writeback translate c C t L)"

definition core_tick :: "('t \<Rightarrow> request \<Rightarrow> (bool \<times> request \<times> 't) option) \<Rightarrow> llc_cfg \<Rightarrow> core \<Rightarrow> 't \<Rightarrow> llc
    \<Rightarrow> o3_fault + (core \<times> 't \<times> llc)" where
  "core_tick translate c C0 t L =
     sbind (core_retire (C0\<lparr>co_clk := co_clk C0 + 1\<rparr>)) (\<lambda>C1.
       sbind (issue_bubbles (nat (co_bubbles C1)) 0 C1) (\<lambda>(go, n, C2).
         if \<not> go then Inr (C2, t, L) else issue_memory translate c n C2 t L))"

definition core_receive :: "request \<Rightarrow> core \<Rightarrow> o3_fault + core" where
  "core_receive r C = sbind (win_set_ready (rq_addr r) (co_window C)) (\<lambda>w.
     let C1 = C\<lparr>co_window := w\<rparr> in
     Inr (if rq_arrive r \<noteq> -1 \<and> rq_depart r > co_last_mem C1 \<and> \<not> co_reached C1
          then C1\<lparr>co_mem_cycles := co_mem_cycles C1 + (rq_depart r - max (co_last_mem C1) (rq_arrive r)),
                 co_last_mem := rq_depart r\<rparr>
          else C1))"

end
