(* ===== verification/Translation.thy ===== *)
theory Translation
  imports Request_Buffer Base_Utils "HOL-Library.Word" "HOL-Library.Signed_Division"
begin

unbundle bit_operations_syntax

text \<open>
  The address translations of the processor frontends (\<open>src/translation/impl\<close>): \<open>NoTranslation\<close>, and
  \<open>RandomTranslation\<close> with the generator it draws pages from, \<open>std::mt19937_64\<close>. A translation answers with
  whether it was done, the request and its new state; \<open>None\<close> is an index out of its vectors or a loop that
  never ends.
\<close>

section \<open>The generator\<close>

record mt =
  mt_x :: "64 word list"
  mt_p :: nat

fun mt_fill :: "nat \<Rightarrow> nat \<Rightarrow> 64 word \<Rightarrow> 64 word list" where
  "mt_fill 0 i x = []"
| "mt_fill (Suc n) i x =
     (let y = 6364136223846793005 * (x XOR drop_bit 62 x) + of_nat i in y # mt_fill n (Suc i) y)"

definition mt_seed :: "int \<Rightarrow> mt" where
  "mt_seed s = (let x = word_of_int s in \<lparr>mt_x = x # mt_fill 311 1 x, mt_p = 312\<rparr>)"

definition mt_twist :: "64 word list \<Rightarrow> nat \<Rightarrow> 64 word list" where
  "mt_twist x k =
     (let y = (x ! k AND NOT (mask 31)) OR (x ! ((k + 1) mod 312) AND mask 31)
      in x[k := x ! ((k + 156) mod 312) XOR drop_bit 1 y XOR (if bit y 0 then 0xB5026F5AA96619E9 else 0)])"

definition mt_temper :: "64 word \<Rightarrow> 64 word" where
  "mt_temper z0 =
     (let z1 = z0 XOR (drop_bit 29 z0 AND 0x5555555555555555);
          z2 = z1 XOR (push_bit 17 z1 AND 0x71D67FFFEDA60000);
          z3 = z2 XOR (push_bit 37 z2 AND 0xFFF7EEE000000000)
      in z3 XOR drop_bit 43 z3)"

definition mt_next :: "mt \<Rightarrow> int \<times> mt" where
  "mt_next g =
     (let g1 = (if mt_p g \<ge> 312 then \<lparr>mt_x = fold (\<lambda>k x. mt_twist x k) [0..<312] (mt_x g), mt_p = 0\<rparr> else g)
      in (uint (mt_temper (mt_x g1 ! mt_p g1)), g1\<lparr>mt_p := Suc (mt_p g1)\<rparr>))"

section \<open>NoTranslation\<close>

text \<open>Its only member is the maximum address, which nothing reads.\<close>

definition no_translate :: "int \<Rightarrow> request \<Rightarrow> (bool \<times> request \<times> int) option" where
  "no_translate max_paddr r = (let new_addr = rq_addr r in Some (True, r\<lparr>rq_addr := new_addr\<rparr>, max_paddr))"

section \<open>RandomTranslation\<close>

record rtrans =
  rt_rng :: mt
  rt_max_paddr :: addr_t
  rt_pagesize :: int
  rt_offsetbits :: nat
  rt_num_pages :: int
  rt_free :: "bool list"
  rt_num_free :: int
  rt_maps :: "(addr_t \<rightharpoonup> addr_t) list"
  rt_reserved :: "addr_t set"

text \<open>
  \<open>init\<close>, for the number of cores of the frontend. \<open>None\<close>: a page size that is not positive (its logarithm does not
  end, or the division is by zero), one of 2 GB or more (the mask of \<open>translate\<close> would shift an \<open>int\<close> out of its range,
  counted as a failure here already), more pages than a vector holds.
\<close>

definition rt_init :: "int \<Rightarrow> addr_t \<Rightarrow> int \<Rightarrow> nat \<Rightarrow> rtrans option" where
  "rt_init seed max_addr pagesize_KB cores =
     (let pagesize = signed_take_bit 63 (push_bit 10 pagesize_KB) in
      if pagesize \<le> 0 \<or> 31 \<le> calc_log2 (nat pagesize) then None
      else let pages = u64 (max_addr sdiv pagesize) in
        if 2 ^ 63 \<le> pages then None
        else Some \<lparr>rt_rng = mt_seed seed, rt_max_paddr = max_addr, rt_pagesize = pagesize,
               rt_offsetbits = calc_log2 (nat pagesize), rt_num_pages = pages, rt_free = replicate (nat pages) True,
               rt_num_free = pages, rt_maps = replicate cores Map.empty, rt_reserved = {}\<rparr>)"

text \<open>Drawing pages until one is not blocked; the loop may never end.\<close>

partial_function (option) rt_draw :: "(int \<Rightarrow> bool) \<Rightarrow> int \<Rightarrow> mt \<Rightarrow> (int \<times> mt) option" where
  "rt_draw blocked n g =
     (case mt_next g of (v, g1) \<Rightarrow> if blocked (v mod n) then rt_draw blocked n g1 else Some (v mod n, g1))"

definition rt_assign :: "rtrans \<Rightarrow> (addr_t \<times> rtrans) option" where
  "rt_assign s =
     (if rt_num_pages s = 0 then None
      else if rt_num_free s = 0
      then map_option (\<lambda>(p, g). (p, s\<lparr>rt_rng := g\<rparr>)) (rt_draw (\<lambda>p. p \<in> rt_reserved s) (rt_num_pages s) (rt_rng s))
      else map_option (\<lambda>(p, g). (p, s\<lparr>rt_rng := g, rt_num_free := u64 (rt_num_free s - 1)\<rparr>))
             (rt_draw (\<lambda>p. p \<in> rt_reserved s \<or> \<not> rt_free s ! nat p) (rt_num_pages s) (rt_rng s)))"

definition rt_physical :: "rtrans \<Rightarrow> addr_t \<Rightarrow> addr_t \<Rightarrow> addr_t" where
  "rt_physical s ppn a = push_bit (rt_offsetbits s) ppn OR (a AND (push_bit (rt_offsetbits s) 1 - 1))"

definition rt_translate :: "rtrans \<Rightarrow> request \<Rightarrow> (bool \<times> request \<times> rtrans) option" where
  "rt_translate s r =
     (let vpn = drop_bit (rt_offsetbits s) (rq_addr r); src = rq_source r in
      case vec_at (rt_maps s) src of
        None \<Rightarrow> None
      | Some core \<Rightarrow>
          (case core vpn of
             Some ppn \<Rightarrow> Some (True, r\<lparr>rq_addr := rt_physical s ppn (rq_addr r)\<rparr>, s)
           | None \<Rightarrow> (case rt_assign s of
               None \<Rightarrow> None
             | Some (ppn, s1) \<Rightarrow> Some (True, r\<lparr>rq_addr := rt_physical s ppn (rq_addr r)\<rparr>,
                 s1\<lparr>rt_maps := (rt_maps s1)[nat src := core(vpn \<mapsto> ppn)]\<rparr>))))"

definition rt_reserve :: "rtrans \<Rightarrow> addr_t \<Rightarrow> bool \<times> rtrans" where
  "rt_reserve s a = (True, s\<lparr>rt_reserved := insert (drop_bit (rt_offsetbits s) a) (rt_reserved s)\<rparr>)"

definition rt_get_max_addr :: "rtrans \<Rightarrow> addr_t" where
  "rt_get_max_addr s = rt_max_paddr s"

end
