(* ===== verification/O3_Frontend.thy ===== *)
theory O3_Frontend
  imports O3_Core Translation
begin

text \<open>
  The processor frontend (\<open>src/frontend/impl/processor/simpleO3/simpleO3.cpp\<close>): the cores, the cache they share
  and the translation, a parameter here. The cache calls back for its hits inside its \<open>tick\<close>; the callback does not
  touch the cache beyond what \<open>o3_answer\<close> does, so the cores are told in the same order right after it.
\<close>

record 't o3 =
  of_clk :: clk
  of_cores :: "core list"
  of_llc :: llc
  of_tr :: 't

record o3_params =
  op_ipc :: int
  op_depth :: int
  op_latency :: int
  op_linesize :: int
  op_assoc :: int
  op_capacity :: string
  op_mshrs :: int
  op_expected :: int
  op_traces :: "string list list"

definition o3_defaults :: "int \<Rightarrow> string list list \<Rightarrow> o3_params" where
  "o3_defaults expected traces = \<lparr>op_ipc = 4, op_depth = 128, op_latency = 47, op_linesize = 64, op_assoc = 8,
     op_capacity = ''2MB'', op_mshrs = 16, op_expected = expected, op_traces = traces\<rparr>"

text \<open>\<open>init\<close>; the translation is made for the number of cores.\<close>

fun make_cores :: "o3_params \<Rightarrow> int \<Rightarrow> string list list \<Rightarrow> o3_fault + core list" where
  "make_cores p i [] = Inr []"
| "make_cores p i (ls # traces) =
     sbind (trace_new ls) (\<lambda>tr. sbind (core_new i (op_ipc p) (op_depth p) (op_expected p) tr) (\<lambda>C.
       sbind (make_cores p (i + 1) traces) (\<lambda>Cs. Inr (C # Cs))))"

definition o3_init :: "o3_params \<Rightarrow> (nat \<Rightarrow> 't option) \<Rightarrow> o3_fault + (llc_cfg \<times> 't o3)" where
  "o3_init p tr_init =
     (let n = length (op_traces p) in
      sbind (of_sum Number_error (parse_capacity_str (op_capacity p))) (\<lambda>cap.
      sbind (of_opt Translation_hangs (tr_init n)) (\<lambda>t.
      sbind (of_opt Division_by_zero
          (llc_setup (op_latency p) (i32 (i32 cap * int n)) (op_linesize p) (op_assoc p) (i32 (op_mshrs p * int n)))) (\<lambda>c.
      sbind (make_cores p 0 (op_traces p)) (\<lambda>Cs.
        Inr (c, \<lparr>of_clk = 0, of_cores = Cs, of_llc = llc_new, of_tr = t\<rparr>))))))"

text \<open>The loop of \<open>receive\<close> over the requests that waited.\<close>

fun deliver :: "request list \<Rightarrow> core list \<Rightarrow> o3_fault + core list" where
  "deliver [] Cs = Inr Cs"
| "deliver (r # rs) Cs =
     sbind (of_opt Vector_range (vec_at Cs (rq_source r))) (\<lambda>C.
       sbind (core_receive r C) (\<lambda>C1. deliver rs (Cs[nat (rq_source r) := C1])))"

definition o3_receive :: "llc_cfg \<Rightarrow> request \<Rightarrow> 't o3 \<Rightarrow> o3_fault + 't o3" where
  "o3_receive c r S = sbind (of_sum Cache_fault (o3_answer c r (of_llc S))) (\<lambda>(ds, L).
     sbind (deliver ds (of_cores S)) (\<lambda>Cs. Inr (S\<lparr>of_llc := L, of_cores := Cs\<rparr>)))"

fun tick_cores :: "('t \<Rightarrow> request \<Rightarrow> (bool \<times> request \<times> 't) option) \<Rightarrow> llc_cfg \<Rightarrow> core list \<Rightarrow> 't \<Rightarrow> llc
    \<Rightarrow> o3_fault + (core list \<times> 't \<times> llc)" where
  "tick_cores translate c [] t L = Inr ([], t, L)"
| "tick_cores translate c (C # Cs) t L =
     sbind (core_tick translate c C t L) (\<lambda>(C1, t1, L1).
       sbind (tick_cores translate c Cs t1 L1) (\<lambda>(Cs1, t2, L2). Inr (C1 # Cs1, t2, L2)))"

definition o3_tick :: "('m \<Rightarrow> request \<Rightarrow> bool \<times> 'm) \<Rightarrow> ('t \<Rightarrow> request \<Rightarrow> (bool \<times> request \<times> 't) option) \<Rightarrow> llc_cfg \<Rightarrow> 'm
    \<Rightarrow> 't o3 \<Rightarrow> o3_fault + ('m \<times> 't o3)" where
  "o3_tick snd_mem translate c m S =
     sbind (of_sum Cache_fault (llc_tick snd_mem c m (of_llc S))) (\<lambda>(ds, m1, L).
       sbind (deliver ds (of_cores S)) (\<lambda>Cs.
         sbind (tick_cores translate c Cs (of_tr S) L) (\<lambda>(Cs1, t1, L1).
           Inr (m1, S\<lparr>of_clk := of_clk S + 1, of_cores := Cs1, of_llc := L1, of_tr := t1\<rparr>))))"

definition o3_is_finished :: "'t o3 \<Rightarrow> bool" where
  "o3_is_finished S \<longleftrightarrow> (\<forall>C \<in> set (of_cores S). co_reached C)"

definition o3_get_num_cores :: "'t o3 \<Rightarrow> int" where
  "o3_get_num_cores S = int (length (of_cores S))"

text \<open>The states of a run: ticks, and answers of the memory at any time, with any request.\<close>

inductive o3_reach :: "('m \<Rightarrow> request \<Rightarrow> bool \<times> 'm) \<Rightarrow> ('t \<Rightarrow> request \<Rightarrow> (bool \<times> request \<times> 't) option) \<Rightarrow> llc_cfg
    \<Rightarrow> 't o3 \<Rightarrow> 't o3 \<Rightarrow> bool" for snd_mem translate c S0 where
  start: "o3_reach snd_mem translate c S0 S0"
| tick: "o3_reach snd_mem translate c S0 S \<Longrightarrow> o3_tick snd_mem translate c m S = Inr (m', S') \<Longrightarrow>
    o3_reach snd_mem translate c S0 S'"
| answer: "o3_reach snd_mem translate c S0 S \<Longrightarrow> o3_receive c r S = Inr S' \<Longrightarrow> o3_reach snd_mem translate c S0 S'"

end
