(* ===== verification/O3_Core_Facts.thy ===== *)
theory O3_Core_Facts
  imports O3_Core
begin

text \<open>
  The instruction window is a bounded queue: the ring buffer of \<open>core.cpp\<close> refines a list, oldest instruction
  first, and never leaves its vectors.
\<close>

section \<open>The queue\<close>

definition slot :: "window \<Rightarrow> nat \<Rightarrow> nat" where
  "slot w i = nat ((iw_tail w + int i) mod iw_depth w)"

definition win_abs :: "window \<Rightarrow> (bool \<times> addr_t) list" where
  "win_abs w = map (\<lambda>i. (iw_ready w ! slot w i, iw_addr w ! slot w i)) [0..<nat (iw_load w)]"

definition window_ok :: "window \<Rightarrow> bool" where
  "window_ok w \<longleftrightarrow> 0 < iw_depth w \<and> 0 \<le> iw_load w \<and> iw_load w \<le> iw_depth w \<and> 0 \<le> iw_tail w \<and> iw_tail w < iw_depth w \<and>
     iw_head w = (iw_tail w + iw_load w) mod iw_depth w \<and>
     length (iw_ready w) = nat (iw_depth w) \<and> length (iw_addr w) = nat (iw_depth w)"

lemma window_okD:
  assumes "window_ok w"
  shows "0 < iw_depth w" "0 \<le> iw_load w" "iw_load w \<le> iw_depth w" "0 \<le> iw_tail w" "iw_tail w < iw_depth w"
    "iw_head w = (iw_tail w + iw_load w) mod iw_depth w"
    "length (iw_ready w) = nat (iw_depth w)" "length (iw_addr w) = nat (iw_depth w)"
  using assms by (simp_all add: window_ok_def)

lemma slot_less: "window_ok w \<Longrightarrow> slot w i < nat (iw_depth w)"
  using window_okD(1) [of w] by (simp add: slot_def nat_less_iff)

lemma mod_add_inj: "(t + i) mod d = (t + j) mod d \<Longrightarrow> 0 \<le> i \<Longrightarrow> i < d \<Longrightarrow> 0 \<le> j \<Longrightarrow> j < d \<Longrightarrow> i = (j::int)"
  by (metis mod_add_left_eq mod_diff_left_eq add_diff_cancel_left' mod_pos_pos_trivial)

lemma slot_inj:
  assumes "window_ok w" "slot w i = slot w j" "int i < iw_depth w" "int j < iw_depth w"
  shows "i = j"
proof -
  from assms(1) have "0 < iw_depth w" by (rule window_okD)
  with assms(2) have "(iw_tail w + int i) mod iw_depth w = (iw_tail w + int j) mod iw_depth w"
    by (simp add: slot_def eq_nat_nat_iff)
  from mod_add_inj [OF this] assms(3,4) show ?thesis by simp
qed

lemma length_win_abs [simp]: "length (win_abs w) = nat (iw_load w)"
  by (simp add: win_abs_def)

lemma win_abs_nth: "i < nat (iw_load w) \<Longrightarrow> win_abs w ! i = (iw_ready w ! slot w i, iw_addr w ! slot w i)"
  by (simp add: win_abs_def)

lemma window_new_ok:
  "0 < depth \<Longrightarrow> \<exists>w. window_new ipc depth = Inr w \<and> window_ok w \<and> win_abs w = [] \<and> iw_ipc w = ipc \<and> iw_depth w = depth"
  by (simp add: window_new_def window_ok_def win_abs_def)

lemma is_full_abs: "window_ok w \<Longrightarrow> is_full w \<longleftrightarrow> int (length (win_abs w)) = iw_depth w"
  by (auto simp: is_full_def dest: window_okD)

section \<open>The operations\<close>

lemma win_insert_abs:
  assumes ok: "window_ok w" and full: "\<not> is_full w"
  shows "\<exists>w'. win_insert b a w = Inr w' \<and> window_ok w' \<and> win_abs w' = win_abs w @ [(b, a)] \<and>
    iw_ipc w' = iw_ipc w \<and> iw_depth w' = iw_depth w"
proof -
  note o = window_okD [OF ok]
  let ?h = "nat (iw_head w)"
  let ?w = "w\<lparr>iw_ready := (iw_ready w)[?h := b], iw_addr := (iw_addr w)[?h := a],
    iw_head := (iw_head w + 1) mod iw_depth w, iw_load := iw_load w + 1\<rparr>"
  have h: "0 \<le> iw_head w" "iw_head w < iw_depth w" using o(1,6) by simp_all
  have load: "iw_load w < iw_depth w" using full o(3) by (simp add: is_full_def)
  have run: "win_insert b a w = Inr ?w" using o h by (simp add: win_insert_def vec_set_def)
  have "iw_head ?w = (iw_tail w + (iw_load w + 1)) mod iw_depth w" using o(6) by (simp add: mod_add_left_eq add.assoc)
  then have ok': "window_ok ?w" using o load by (simp add: window_ok_def)
  have slot: "slot ?w i = slot w i" for i by (simp add: slot_def)
  have hs: "slot w (nat (iw_load w)) = ?h" using o(2,6) by (simp add: slot_def)
  have old: "slot w i \<noteq> ?h" if "i < nat (iw_load w)" for i
    using slot_inj [OF ok, of i "nat (iw_load w)"] that load o(2) hs by fastforce
  have "win_abs ?w = win_abs w @ [(b, a)]"
  proof (rule nth_equalityI)
    show "length (win_abs ?w) = length (win_abs w @ [(b, a)])" using o(2) by simp
    fix i assume "i < length (win_abs ?w)"
    then have i: "i < nat (iw_load w) \<or> i = nat (iw_load w)" using o(2) by auto
    then show "win_abs ?w ! i = (win_abs w @ [(b, a)]) ! i"
    proof
      assume "i < nat (iw_load w)"
      with old [OF this] o(2) show ?thesis by (simp add: win_abs_nth slot nth_append del: nat_less_iff)
    next
      assume e: "i = nat (iw_load w)"
      have "win_abs ?w ! i = (b, a)" using e o(2,7,8) hs h by (simp add: win_abs_nth slot)
      then show ?thesis using e by (simp add: nth_append)
    qed
  qed
  with run ok' show ?thesis by simp
qed

lemma win_pop:
  assumes ok: "window_ok w" and load: "0 < iw_load w"
  defines "w' \<equiv> w\<lparr>iw_tail := (iw_tail w + 1) mod iw_depth w, iw_load := iw_load w - 1\<rparr>"
  shows "window_ok w'" "win_abs w = (iw_ready w ! nat (iw_tail w), iw_addr w ! nat (iw_tail w)) # win_abs w'"
proof -
  note o = window_okD [OF ok]
  have "iw_head w = ((iw_tail w + 1) mod iw_depth w + (iw_load w - 1)) mod iw_depth w" using o(6) by (simp add: mod_simps)
  with o load show ok': "window_ok w'" by (simp add: window_ok_def w'_def)
  have s0: "slot w 0 = nat (iw_tail w)" using o(4,5) by (simp add: slot_def)
  have sS: "slot w' i = slot w (Suc i)" for i
    by (simp add: slot_def w'_def mod_simps add.assoc)
  have split: "nat (iw_load w) = Suc (nat (iw_load w'))" using load by (simp add: w'_def)
  have "win_abs w = (iw_ready w ! slot w 0, iw_addr w ! slot w 0) #
      map (\<lambda>i. (iw_ready w ! slot w (Suc i), iw_addr w ! slot w (Suc i))) [0..<nat (iw_load w')]"
    unfolding win_abs_def split by (simp add: upt_conv_Cons map_Suc_upt [symmetric] del: upt_Suc)
  then show "win_abs w = (iw_ready w ! nat (iw_tail w), iw_addr w ! nat (iw_tail w)) # win_abs w'"
    unfolding s0 sS [symmetric] by (simp add: win_abs_def w'_def)
qed

lemma retire_upto_abs:
  "window_ok w \<Longrightarrow> \<exists>w'. retire_upto n w = Inr (int (min n (length (takeWhile fst (win_abs w)))), w') \<and> window_ok w' \<and>
     win_abs w' = drop (min n (length (takeWhile fst (win_abs w)))) (win_abs w) \<and> iw_ipc w' = iw_ipc w \<and> iw_depth w' = iw_depth w"
proof (induction n arbitrary: w)
  case (Suc n)
  show ?case
  proof (cases "0 < iw_load w")
    case False
    then have "win_abs w = []" by (simp add: win_abs_def)
    with False Suc.prems show ?thesis by simp
  next
    case True
    note o = window_okD [OF Suc.prems] and pop = win_pop [OF Suc.prems True]
    from Suc.IH [OF pop(1)] Suc.prems True o pop(2) show ?thesis by (auto simp: vec_at_def)
  qed
qed simp

lemma win_retire_abs:
  assumes "window_ok w"
  shows "\<exists>w'. win_retire w = Inr (int (min (nat (iw_ipc w)) (length (takeWhile fst (win_abs w)))), w') \<and> window_ok w' \<and>
     win_abs w' = drop (min (nat (iw_ipc w)) (length (takeWhile fst (win_abs w)))) (win_abs w) \<and>
     iw_ipc w' = iw_ipc w \<and> iw_depth w' = iw_depth w"
proof (cases "iw_load w = 0")
  case True
  then have "win_abs w = []" by (simp add: win_abs_def)
  with True assms show ?thesis by (simp add: win_retire_def)
next
  case False
  with retire_upto_abs [OF assms] show ?thesis by (simp add: win_retire_def)
qed

lemma ready_from_abs:
  assumes "window_ok w" "int k + int n = iw_load w"
  shows "\<exists>R. ready_from n ((iw_tail w + int k) mod iw_depth w) a w = Inr (w\<lparr>iw_ready := R\<rparr>) \<and>
    length R = length (iw_ready w) \<and>
    (\<forall>i < nat (iw_load w). R ! slot w i \<longleftrightarrow> iw_ready w ! slot w i \<or> k \<le> i \<and> iw_addr w ! slot w i = a)"
  using assms
proof (induction n arbitrary: k w)
  case 0
  then show ?case by (intro exI [of _ "iw_ready w"]) auto
next
  case (Suc n)
  note o = window_okD [OF Suc.prems(1)]
  let ?ix = "(iw_tail w + int k) mod iw_depth w"
  have ix: "0 \<le> ?ix" "?ix < iw_depth w" "nat ?ix = slot w k" using o(1) by (simp_all add: slot_def)
  have nx: "(if ?ix + 1 = iw_depth w then 0 else ?ix + 1) = (iw_tail w + int (Suc k)) mod iw_depth w"
  proof -
    have "(iw_tail w + int (Suc k)) mod iw_depth w = (?ix + 1) mod iw_depth w" by (simp add: mod_simps add.assoc add.commute [of 1])
    with ix(1,2) show ?thesis by (auto simp: mod_pos_pos_trivial)
  qed
  define R1 where "R1 = (if iw_addr w ! slot w k = a then (iw_ready w)[slot w k := True] else iw_ready w)"
  define w1 where "w1 = w\<lparr>iw_ready := R1\<rparr>"
  have step: "ready_from (Suc n) ?ix a w = ready_from n ((iw_tail w1 + int (Suc k)) mod iw_depth w1) a w1"
    using ix o(7,8) by (simp add: nx w1_def R1_def vec_at_def vec_set_def)
  have "window_ok w1" using Suc.prems(1) by (simp add: w1_def R1_def window_ok_def)
  moreover have "int (Suc k) + int n = iw_load w1" using Suc.prems(2) by (simp add: w1_def)
  ultimately obtain R where R: "ready_from n ((iw_tail w1 + int (Suc k)) mod iw_depth w1) a w1 = Inr (w1\<lparr>iw_ready := R\<rparr>)"
    "length R = length R1" "\<forall>i < nat (iw_load w). R ! slot w i \<longleftrightarrow> R1 ! slot w i \<or> Suc k \<le> i \<and> iw_addr w ! slot w i = a"
    using Suc.IH [of w1 "Suc k"] by (auto simp: w1_def slot_def)
  have "R1 ! slot w i \<longleftrightarrow> iw_ready w ! slot w i \<or> i = k \<and> iw_addr w ! slot w i = a" if "i < nat (iw_load w)" for i
  proof (cases "i = k")
    case True
    with slot_less [OF Suc.prems(1), of k] o(7) show ?thesis by (simp add: R1_def)
  next
    case False
    have "int i < iw_depth w" "int k < iw_depth w" using that Suc.prems(2) o(3) by linarith+
    with False slot_inj [OF Suc.prems(1), of i k] have "slot w i \<noteq> slot w k" by blast
    with False show ?thesis by (simp add: R1_def)
  qed
  with R(3) have "\<forall>i < nat (iw_load w). R ! slot w i \<longleftrightarrow> iw_ready w ! slot w i \<or> k \<le> i \<and> iw_addr w ! slot w i = a"
    by (auto simp: Suc_le_eq le_less)
  moreover have "length R = length (iw_ready w)" using R(2) by (simp add: R1_def)
  ultimately show ?case using step R(1) by (intro exI [of _ R]) (simp add: w1_def)
qed

lemma win_set_ready_abs:
  assumes ok: "window_ok w"
  shows "\<exists>w'. win_set_ready a w = Inr w' \<and> window_ok w' \<and> win_abs w' = map (\<lambda>(b, x). (b \<or> x = a, x)) (win_abs w) \<and>
    iw_ipc w' = iw_ipc w \<and> iw_depth w' = iw_depth w"
proof (cases "iw_load w = 0")
  case True
  then have "win_abs w = []" by (simp add: win_abs_def)
  with True ok show ?thesis by (simp add: win_set_ready_def)
next
  case False
  note o = window_okD [OF ok]
  have "(iw_tail w + int 0) mod iw_depth w = iw_tail w" using o(4,5) by simp
  with ready_from_abs [OF ok, of 0 "nat (iw_load w)" a] o(2) obtain R where
    R: "ready_from (nat (iw_load w)) (iw_tail w) a w = Inr (w\<lparr>iw_ready := R\<rparr>)" "length R = length (iw_ready w)"
    "\<forall>i < nat (iw_load w). R ! slot w i \<longleftrightarrow> iw_ready w ! slot w i \<or> iw_addr w ! slot w i = a" by auto
  have slot: "slot (w\<lparr>iw_ready := R\<rparr>) i = slot w i" for i by (simp add: slot_def)
  have "win_abs (w\<lparr>iw_ready := R\<rparr>) = map (\<lambda>(b, x). (b \<or> x = a, x)) (win_abs w)"
    by (rule nth_equalityI) (use R(3) in \<open>auto simp: win_abs_nth slot\<close>)
  moreover have "window_ok (w\<lparr>iw_ready := R\<rparr>)" using ok R(2) by (simp add: window_ok_def)
  ultimately show ?thesis using False R(1) by (simp add: win_set_ready_def)
qed

section \<open>Runs\<close>

datatype win_op = Op_insert bool addr_t | Op_retire | Op_ready addr_t

text \<open>The window the way the core uses it: it inserts only after asking \<open>is_full\<close>.\<close>

fun win_step :: "win_op \<Rightarrow> window \<Rightarrow> o3_fault + (int \<times> window)" where
  "win_step (Op_insert b a) w = (if is_full w then Inr (0, w) else sbind (win_insert b a w) (\<lambda>w'. Inr (1, w')))"
| "win_step Op_retire w = win_retire w"
| "win_step (Op_ready a) w = sbind (win_set_ready a w) (\<lambda>w'. Inr (0, w'))"

fun win_run :: "win_op list \<Rightarrow> window \<Rightarrow> o3_fault + (int list \<times> window)" where
  "win_run [] w = Inr ([], w)"
| "win_run (x # xs) w = sbind (win_step x w) (\<lambda>(n, w1). sbind (win_run xs w1) (\<lambda>(ns, w2). Inr (n # ns, w2)))"

fun queue_step :: "nat \<Rightarrow> nat \<Rightarrow> win_op \<Rightarrow> (bool \<times> addr_t) list \<Rightarrow> int \<times> (bool \<times> addr_t) list" where
  "queue_step ipc depth (Op_insert b a) q = (if length q = depth then (0, q) else (1, q @ [(b, a)]))"
| "queue_step ipc depth Op_retire q = (let n = min ipc (length (takeWhile fst q)) in (int n, drop n q))"
| "queue_step ipc depth (Op_ready a) q = (0, map (\<lambda>(b, x). (b \<or> x = a, x)) q)"

fun queue_run :: "nat \<Rightarrow> nat \<Rightarrow> win_op list \<Rightarrow> (bool \<times> addr_t) list \<Rightarrow> int list \<times> (bool \<times> addr_t) list" where
  "queue_run ipc depth [] q = ([], q)"
| "queue_run ipc depth (x # xs) q =
     (case queue_step ipc depth x q of (n, q1) \<Rightarrow> (case queue_run ipc depth xs q1 of (ns, q2) \<Rightarrow> (n # ns, q2)))"

lemma win_step_abs:
  assumes "window_ok w"
  shows "\<exists>w'. win_step x w = Inr (fst (queue_step (nat (iw_ipc w)) (nat (iw_depth w)) x (win_abs w)), w') \<and> window_ok w' \<and>
    win_abs w' = snd (queue_step (nat (iw_ipc w)) (nat (iw_depth w)) x (win_abs w)) \<and> iw_ipc w' = iw_ipc w \<and> iw_depth w' = iw_depth w"
proof (cases x)
  case (Op_insert b a)
  show ?thesis
  proof (cases "is_full w")
    case True
    with assms Op_insert show ?thesis by (simp add: is_full_def)
  next
    case False
    then have "nat (iw_load w) \<noteq> nat (iw_depth w)" using window_okD(2,3) [OF assms] by (simp add: is_full_def)
    with win_insert_abs [OF assms False, of b a] False Op_insert show ?thesis by auto
  qed
next
  case Op_retire
  with win_retire_abs [OF assms] show ?thesis by (simp add: Let_def)
next
  case (Op_ready a)
  with win_set_ready_abs [OF assms, of a] show ?thesis by auto
qed

lemma win_run_abs:
  "window_ok w \<Longrightarrow> \<exists>w'. win_run xs w = Inr (fst (queue_run (nat (iw_ipc w)) (nat (iw_depth w)) xs (win_abs w)), w') \<and>
     window_ok w' \<and> win_abs w' = snd (queue_run (nat (iw_ipc w)) (nat (iw_depth w)) xs (win_abs w)) \<and> iw_depth w' = iw_depth w"
proof (induction xs arbitrary: w)
  case (Cons x xs)
  from win_step_abs [OF Cons.prems, of x] obtain w1 where
    w1: "win_step x w = Inr (fst (queue_step (nat (iw_ipc w)) (nat (iw_depth w)) x (win_abs w)), w1)" "window_ok w1"
    "win_abs w1 = snd (queue_step (nat (iw_ipc w)) (nat (iw_depth w)) x (win_abs w))" "iw_ipc w1 = iw_ipc w" "iw_depth w1 = iw_depth w"
    by blast
  from Cons.IH [OF w1(2)] w1 show ?case by (auto simp: split_beta)
qed simp

text \<open>
  The instruction window is a bounded queue. A window of positive depth, used in any order by insertions that
  ask \<open>is_full\<close> first, \<open>retire\<close> and \<open>set_ready\<close>, never leaves its vectors; every insertion is accepted exactly when
  the queue is not full, every \<open>retire\<close> takes the ready instructions at the front, in order and at most \<open>ipc\<close> of
  them, \<open>set_ready\<close> marks exactly the instructions of the address, and at the end the window holds the queue.
\<close>

theorem window_is_a_queue:
  assumes "0 < depth" "window_new ipc depth = Inr w0"
  shows "\<exists>w. win_run xs w0 = Inr (fst (queue_run (nat ipc) (nat depth) xs []), w) \<and>
    win_abs w = snd (queue_run (nat ipc) (nat depth) xs []) \<and> length (win_abs w) \<le> nat depth"
proof -
  from window_new_ok [OF assms(1), of ipc] assms(2) have
    w0: "window_ok w0" "win_abs w0 = []" "iw_ipc w0 = ipc" "iw_depth w0 = depth" by auto
  from win_run_abs [OF w0(1), of xs] w0 obtain w where
    w: "win_run xs w0 = Inr (fst (queue_run (nat ipc) (nat depth) xs []), w)" "window_ok w"
    "win_abs w = snd (queue_run (nat ipc) (nat depth) xs [])" "iw_depth w = depth" by auto
  moreover from w(2,4) have "length (win_abs w) \<le> nat depth" using window_okD(3) [OF w(2)] by simp
  ultimately show ?thesis by blast
qed

theorem window_is_a_queue_witness:
  "\<exists>w0 w. window_new 4 2 = Inr w0 \<and>
     win_run [Op_insert False 64, Op_insert True (-1), Op_insert True 3, Op_retire, Op_ready 64, Op_retire] w0
       = Inr ([1, 1, 0, 0, 0, 2], w) \<and> win_abs w = []"
proof -
  obtain w0 where w0: "window_new 4 2 = Inr w0" using window_new_ok [of 2 4] by auto
  from window_is_a_queue [OF _ w0, of "[Op_insert False 64, Op_insert True (-1), Op_insert True 3, Op_retire, Op_ready 64, Op_retire]"]
  show ?thesis using w0 by (auto simp: Let_def)
qed

end
