(* ===== verification/O3_Cache_Facts.thy ===== *)
theory O3_Cache_Facts
  imports O3_Cache
begin

unbundle bit_operations_syntax

text \<open>
  The cache never touches an erased line and never fails: every line in flight is known to exactly one
  MSHR entry, no set holds more lines than the associativity or two lines of one tag.
\<close>

section \<open>The invariant\<close>

definition lines :: "llc \<Rightarrow> int \<Rightarrow> line list" where
  "lines L i = (case ll_sets L i of None \<Rightarrow> [] | Some s \<Rightarrow> s)"

definition set_ok :: "llc_cfg \<Rightarrow> nat \<Rightarrow> int \<Rightarrow> line list \<Rightarrow> bool" where
  "set_ok c next i s \<longleftrightarrow> int (length s) \<le> lc_assoc c \<and> distinct (map ln_tag s) \<and> distinct (map ln_id s) \<and>
     (\<forall>l \<in> set s. ln_id l < next \<and> get_index c (ln_addr l) = i \<and> ln_tag l = get_tag c (ln_addr l))"

definition cache_ok :: "llc_cfg \<Rightarrow> (int \<Rightarrow> line list) \<Rightarrow> mshr_entry list \<Rightarrow> nat \<Rightarrow> bool" where
  "cache_ok c f ms next \<longleftrightarrow> (\<forall>i. set_ok c next i (f i)) \<and>
     distinct (map (\<lambda>(a, _). align c a) ms) \<and> int (length ms) \<le> lc_num_mshrs c \<and>
     (\<forall>(a, i, n) \<in> set ms. i = get_index c a \<and> (\<exists>l \<in> set (f i). ln_id l = n \<and> ln_addr l = a \<and> \<not> ln_ready l)) \<and>
     (\<forall>i. \<forall>l \<in> set (f i). \<not> ln_ready l \<longrightarrow> (ln_addr l, i, ln_id l) \<in> set ms)"

definition llc_ok :: "llc_cfg \<Rightarrow> llc \<Rightarrow> bool" where
  "llc_ok c L \<longleftrightarrow> cache_ok c (lines L) (ll_mshrs L) (ll_next L)"

text \<open>What the constructor gives for powers of two: sizes that fit, and index and tag that tell lines apart.\<close>

definition cfg_ok :: "llc_cfg \<Rightarrow> bool" where
  "cfg_ok c \<longleftrightarrow> 0 < lc_assoc c \<and> lc_assoc c < 2 ^ 63 \<and> 0 \<le> lc_num_mshrs c \<and> lc_num_mshrs c < 2 ^ 63 \<and>
     (\<forall>a b. get_index c a = get_index c b \<longrightarrow> get_tag c a = get_tag c b \<longrightarrow> align c a = align c b)"

section \<open>Lists of lines\<close>

lemma map_set_line:
  assumes "\<And>l. g (f l) = g l"
  shows "map g (set_line n f s) = map g s"
  using assms by (simp add: set_line_def)

lemma set_line_mem: "l \<in> set (set_line n f s) \<longleftrightarrow> (\<exists>k \<in> set s. l = (if ln_id k = n then f k else k))"
  unfolding set_line_def set_map image_iff by (rule refl)

lemma set_okD:
  assumes "set_ok c next i s"
  shows "int (length s) \<le> lc_assoc c" "l \<in> set s \<Longrightarrow> ln_id l < next" "l \<in> set s \<Longrightarrow> get_index c (ln_addr l) = i"
    "l \<in> set s \<Longrightarrow> ln_tag l = get_tag c (ln_addr l)"
    "l \<in> set s \<Longrightarrow> k \<in> set s \<Longrightarrow> ln_tag l = ln_tag k \<Longrightarrow> l = k"
    "l \<in> set s \<Longrightarrow> k \<in> set s \<Longrightarrow> ln_id l = ln_id k \<Longrightarrow> l = k"
proof -
  from assms have "inj_on ln_tag (set s)" "inj_on ln_id (set s)" by (simp_all add: set_ok_def distinct_map)
  then show "l \<in> set s \<Longrightarrow> k \<in> set s \<Longrightarrow> ln_tag l = ln_tag k \<Longrightarrow> l = k"
    "l \<in> set s \<Longrightarrow> k \<in> set s \<Longrightarrow> ln_id l = ln_id k \<Longrightarrow> l = k" by (blast dest: inj_onD)+
qed (use assms in \<open>simp_all add: set_ok_def\<close>)

lemma set_ok_set_line:
  assumes s: "set_ok c next i s" and f: "\<And>l. ln_id (f l) = ln_id l" "\<And>l. ln_tag (f l) = ln_tag l" "\<And>l. ln_addr (f l) = ln_addr l"
  shows "set_ok c next i (set_line n f s)"
proof -
  have "length (set_line n f s) = length s" by (simp add: set_line_def)
  moreover have "ln_id l < next \<and> get_index c (ln_addr l) = i \<and> ln_tag l = get_tag c (ln_addr l)"
    if "l \<in> set (set_line n f s)" for l
    using that set_okD(2-4) [OF s] f by (auto simp: set_line_mem)
  ultimately show ?thesis using s f by (simp add: set_ok_def map_set_line)
qed

lemma set_ok_snoc:
  assumes s: "set_ok c next i s" and len: "int (length (filter P s)) < lc_assoc c"
    and x: "get_index c (ln_addr x) = i" "ln_tag x = get_tag c (ln_addr x)" "ln_id x = next"
    and tag: "\<And>k. k \<in> set s \<Longrightarrow> P k \<Longrightarrow> ln_tag k \<noteq> ln_tag x"
  shows "set_ok c (Suc next) i (filter P s @ [x])"
proof -
  have "ln_tag x \<notin> ln_tag ` set (filter P s)" using tag by fastforce
  with s have "distinct (map ln_tag (filter P s @ [x]))" by (simp add: set_ok_def distinct_map_filter)
  moreover have "ln_id k \<noteq> ln_id x" if "k \<in> set s" for k using set_okD(2) [OF s that] x(3) by simp
  then have "ln_id x \<notin> ln_id ` set (filter P s)" by fastforce
  with s have "distinct (map ln_id (filter P s @ [x]))" by (simp add: set_ok_def distinct_map_filter)
  moreover have "ln_id k < Suc next \<and> get_index c (ln_addr k) = i \<and> ln_tag k = get_tag c (ln_addr k)"
    if "k \<in> set (filter P s @ [x])" for k
    using that set_okD(2-4) [OF s, of k] x by auto
  ultimately show ?thesis using len unfolding set_ok_def by (simp del: filter_append)
qed

lemma set_ok_mono: "set_ok c next i s \<Longrightarrow> next \<le> next' \<Longrightarrow> set_ok c next' i s"
  unfolding set_ok_def by (meson less_le_trans)

section \<open>Steps of the invariant\<close>

lemma cache_okD:
  assumes "cache_ok c f ms next"
  shows "set_ok c next i (f i)" "distinct (map (\<lambda>(a, _). align c a) ms)" "int (length ms) \<le> lc_num_mshrs c"
    "(a, j, n) \<in> set ms \<Longrightarrow> j = get_index c a"
    "(a, j, n) \<in> set ms \<Longrightarrow> \<exists>l \<in> set (f j). ln_id l = n \<and> ln_addr l = a \<and> \<not> ln_ready l"
    "l \<in> set (f i) \<Longrightarrow> \<not> ln_ready l \<Longrightarrow> (ln_addr l, i, ln_id l) \<in> set ms"
  using assms unfolding cache_ok_def by (blast, blast, blast, fastforce, fastforce, blast)

text \<open>One set and the MSHRs of its lines change.\<close>

lemma cache_ok_update:
  assumes ok: "cache_ok c f ms next" and grow: "next \<le> next'" and s: "set_ok c next' i s"
    and ms: "distinct (map (\<lambda>(a, _). align c a) ms')" "int (length ms') \<le> lc_num_mshrs c"
    and others: "\<And>a j n. j \<noteq> i \<Longrightarrow> (a, j, n) \<in> set ms' \<longleftrightarrow> (a, j, n) \<in> set ms"
    and index: "\<And>a n. (a, i, n) \<in> set ms' \<Longrightarrow> i = get_index c a"
    and known: "\<And>a n. (a, i, n) \<in> set ms' \<Longrightarrow> \<exists>l \<in> set s. ln_id l = n \<and> ln_addr l = a \<and> \<not> ln_ready l"
    and flight: "\<And>l. l \<in> set s \<Longrightarrow> \<not> ln_ready l \<Longrightarrow> (ln_addr l, i, ln_id l) \<in> set ms'"
  shows "cache_ok c (f(i := s)) ms' next'"
  unfolding cache_ok_def
proof (intro conjI allI ballI impI)
  show "set_ok c next' j ((f(i := s)) j)" for j
    using s set_ok_mono [OF cache_okD(1) [OF ok] grow] by simp
  show "case e of (a, j, n) \<Rightarrow> j = get_index c a \<and> (\<exists>l \<in> set ((f(i := s)) j). ln_id l = n \<and> ln_addr l = a \<and> \<not> ln_ready l)"
    if e: "e \<in> set ms'" for e
  proof -
    obtain a j n where ajn: "e = (a, j, n)" by (cases e)
    show ?thesis
    proof (cases "j = i")
      case True
      with e ajn index known show ?thesis by auto
    next
      case False
      with e ajn others have "(a, j, n) \<in> set ms" by simp
      with ajn False cache_okD(4,5) [OF ok this] show ?thesis by simp
    qed
  qed
  show "(ln_addr l, j, ln_id l) \<in> set ms'" if "l \<in> set ((f(i := s)) j)" "\<not> ln_ready l" for j l
    using that flight others cache_okD(6) [OF ok, of l j] by (cases "j = i") auto
qed (use ms in auto)

text \<open>A hit: the line makes way for a new one of the same tag, at the end.\<close>

lemma cache_ok_hit:
  assumes ok: "cache_ok c f ms next" and l: "l \<in> set (f i)" "ln_ready l"
    and x: "get_index c (ln_addr x) = i" "ln_tag x = get_tag c (ln_addr x)" "ln_id x = next" "ln_ready x" "ln_tag x = ln_tag l"
  shows "cache_ok c (f(i := erase_line (ln_id l) (f i @ [x]))) ms (Suc next)"
proof -
  note s = cache_okD(1) [OF ok, of i]
  let ?P = "\<lambda>k. ln_id k \<noteq> ln_id l"
  have e: "erase_line (ln_id l) (f i @ [x]) = filter ?P (f i) @ [x]"
    using x(3) set_okD(2) [OF s l(1)] by (simp add: erase_line_def)
  have "length (filter ?P (f i)) < length (f i)" using l(1) by (intro length_filter_less [of l]) auto
  then have len: "int (length (filter ?P (f i))) < lc_assoc c" using set_okD(1) [OF s] by simp
  have tag: "ln_tag k \<noteq> ln_tag x" if "k \<in> set (f i)" "?P k" for k
    using set_okD(5) [OF s that(1) l(1)] that(2) x(5) by metis
  show ?thesis unfolding e
  proof (rule cache_ok_update [OF ok])
    show "set_ok c (Suc next) i (filter ?P (f i) @ [x])" using tag by (intro set_ok_snoc [OF s len x(1-3)])
    show "\<exists>k \<in> set (filter ?P (f i) @ [x]). ln_id k = n \<and> ln_addr k = a \<and> \<not> ln_ready k" if "(a, i, n) \<in> set ms" for a n
      using cache_okD(5) [OF ok that] l set_okD(6) [OF s _ l(1)] by fastforce
    show "(ln_addr k, i, ln_id k) \<in> set ms" if "k \<in> set (filter ?P (f i) @ [x])" "\<not> ln_ready k" for k
      using that x(4) cache_okD(6) [OF ok, of k i] by auto
  qed (use cache_okD(2-4) [OF ok] in auto)
qed

text \<open>Writing the dirty bit of a line.\<close>

lemma cache_ok_dirty:
  assumes ok: "cache_ok c f ms next"
  shows "cache_ok c (f(i := set_line n (\<lambda>l. l\<lparr>ln_dirty := d l\<rparr>) (f i))) ms next"
proof (rule cache_ok_update [OF ok order.refl])
  show "set_ok c next i (set_line n (\<lambda>l. l\<lparr>ln_dirty := d l\<rparr>) (f i))"
    using cache_okD(1) [OF ok] by (intro set_ok_set_line) auto
  show "\<exists>k \<in> set (set_line n (\<lambda>l. l\<lparr>ln_dirty := d l\<rparr>) (f i)). ln_id k = m \<and> ln_addr k = a \<and> \<not> ln_ready k"
    if "(a, i, m) \<in> set ms" for a m
  proof -
    from cache_okD(5) [OF ok that] obtain k where k: "k \<in> set (f i)" "ln_id k = m" "ln_addr k = a" "\<not> ln_ready k" by blast
    have "(if ln_id k = n then k\<lparr>ln_dirty := d k\<rparr> else k) \<in> set (set_line n (\<lambda>l. l\<lparr>ln_dirty := d l\<rparr>) (f i))"
      using k(1) by (auto simp: set_line_mem)
    then show ?thesis by (rule rev_bexI) (use k(2-4) in simp)
  qed
  show "(ln_addr l, i, ln_id l) \<in> set ms"
    if "l \<in> set (set_line n (\<lambda>l. l\<lparr>ln_dirty := d l\<rparr>) (f i))" "\<not> ln_ready l" for l
    using that cache_okD(6) [OF ok] by (auto simp: set_line_mem split: if_splits)
qed (use cache_okD(2-4) [OF ok] in auto)

text \<open>An answer: the line is ready and its MSHR entry is gone.\<close>

lemma cache_ok_answer:
  assumes ok: "cache_ok c f ms next" and e: "(a, i, n) \<in> set ms"
  shows "cache_ok c (f(i := set_line n (\<lambda>l. l\<lparr>ln_ready := True\<rparr>) (f i))) (remove1 (a, i, n) ms) next"
proof -
  note s = cache_okD(1) [OF ok, of i]
  have inj: "inj_on (\<lambda>(a, _). align c a) (set ms)" and dms: "distinct ms"
    using cache_okD(2) [OF ok] by (simp_all add: distinct_map)
  from cache_okD(5) [OF ok e] obtain l where l: "l \<in> set (f i)" "ln_id l = n" "ln_addr l = a" by blast
  have same: "b = a" if "k \<in> set (f i)" "ln_id k = n" "ln_addr k = b" for k b
    using set_okD(6) [OF s that(1) l(1)] that l by simp
  show ?thesis
  proof (rule cache_ok_update [OF ok order.refl])
    show "set_ok c next i (set_line n (\<lambda>l. l\<lparr>ln_ready := True\<rparr>) (f i))" using s by (intro set_ok_set_line) auto
    show "distinct (map (\<lambda>(a, _). align c a) (remove1 (a, i, n) ms))"
      using dms inj by (simp add: distinct_map) (meson Diff_subset inj_on_subset)
    show "int (length (remove1 (a, i, n) ms)) \<le> lc_num_mshrs c"
      using cache_okD(3) [OF ok] by (auto simp: length_remove1)
    show "\<exists>k \<in> set (set_line n (\<lambda>l. l\<lparr>ln_ready := True\<rparr>) (f i)). ln_id k = m \<and> ln_addr k = b \<and> \<not> ln_ready k"
      if "(b, i, m) \<in> set (remove1 (a, i, n) ms)" for b m
    proof -
      from that dms have mem: "(b, i, m) \<in> set ms" "(b, m) \<noteq> (a, n)" by auto
      from cache_okD(5) [OF ok mem(1)] obtain k where
        k: "k \<in> set (f i)" "ln_id k = m" "ln_addr k = b" "\<not> ln_ready k" by blast
      have "m \<noteq> n" using same [OF k(1) _ k(3)] k(2) mem(2) by blast
      with k have "k \<in> set (set_line n (\<lambda>l. l\<lparr>ln_ready := True\<rparr>) (f i))" by (auto simp: set_line_mem)
      with k show ?thesis by blast
    qed
    show "(ln_addr k, i, ln_id k) \<in> set (remove1 (a, i, n) ms)"
      if "k \<in> set (set_line n (\<lambda>l. l\<lparr>ln_ready := True\<rparr>) (f i))" "\<not> ln_ready k" for k
    proof -
      from that(1) obtain k' where k': "k' \<in> set (f i)" "k = (if ln_id k' = n then k'\<lparr>ln_ready := True\<rparr> else k')"
        unfolding set_line_mem by blast
      with that(2) have "k \<in> set (f i)" "ln_id k \<noteq> n" by (cases "ln_id k' = n"; simp)+
      with cache_okD(6) [OF ok this(1) that(2)] dms show ?thesis by simp
    qed
  qed (use cache_okD(4) [OF ok] dms in auto)
qed

text \<open>A miss: a line in flight at the end of a set from which at most a ready line was evicted.\<close>

lemma cache_ok_alloc:
  assumes ok: "cache_ok c f ms next" and keep: "\<And>k. k \<in> set (f i) \<Longrightarrow> \<not> ln_ready k \<Longrightarrow> P k"
    and len: "int (length (filter P (f i))) < lc_assoc c" "int (length ms) < lc_num_mshrs c"
    and x: "get_index c (ln_addr x) = i" "ln_tag x = get_tag c (ln_addr x)" "ln_id x = next" "\<not> ln_ready x"
    and tag: "\<And>k. k \<in> set (f i) \<Longrightarrow> ln_tag k \<noteq> ln_tag x"
    and miss: "\<And>b j m. (b, j, m) \<in> set ms \<Longrightarrow> align c b \<noteq> align c (ln_addr x)"
  shows "cache_ok c (f(i := filter P (f i) @ [x])) (ms @ [(ln_addr x, i, ln_id x)]) (Suc next)"
proof (rule cache_ok_update [OF ok])
  show "set_ok c (Suc next) i (filter P (f i) @ [x])"
    using tag by (intro set_ok_snoc [OF cache_okD(1) [OF ok] len(1) x(1-3)])
  show "distinct (map (\<lambda>(a, _). align c a) (ms @ [(ln_addr x, i, ln_id x)]))"
    using cache_okD(2) [OF ok] miss by fastforce
  show "\<exists>k \<in> set (filter P (f i) @ [x]). ln_id k = m \<and> ln_addr k = b \<and> \<not> ln_ready k"
    if "(b, i, m) \<in> set (ms @ [(ln_addr x, i, ln_id x)])" for b m
    using that cache_okD(5) [OF ok, of b i m] keep x(4) by auto
  show "(ln_addr k, i, ln_id k) \<in> set (ms @ [(ln_addr x, i, ln_id x)])"
    if "k \<in> set (filter P (f i) @ [x])" "\<not> ln_ready k" for k
    using that cache_okD(6) [OF ok, of k i] by auto
qed (use cache_okD(4) [OF ok] len(2) x(1) in auto)

section \<open>The operations keep it\<close>

lemma lines_put_set [simp]: "lines (put_set c a s L) = (lines L)(get_index c a := s)"
  by (auto simp: lines_def put_set_def)

lemma lines_frame [simp]:
  "lines (ll_clk_update f1 L) = lines L" "lines (ll_mshrs_update f2 L) = lines L" "lines (ll_receive_update f3 L) = lines L"
  "lines (ll_miss_update f4 L) = lines L" "lines (ll_hit_update f5 L) = lines L" "lines (ll_next_update f6 L) = lines L"
  "lines (ll_stats_update f7 L) = lines L"
  by (simp_all add: lines_def fun_eq_iff)

lemma put_set_frame [simp]:
  "ll_mshrs (put_set c a s L) = ll_mshrs L" "ll_next (put_set c a s L) = ll_next L"
  by (simp_all add: put_set_def)

lemma llc_receive_frame:
  "ll_mshrs (L\<lparr>ll_receive := g\<rparr>) = ll_mshrs L" "ll_next (L\<lparr>ll_receive := g\<rparr>) = ll_next L" by simp_all

lemma get_set_lines: "get_set c a L = lines L (get_index c a)"
  by (simp add: get_set_def lines_def)

text \<open>Two states with the same sets, MSHRs and counter.\<close>

lemma llc_ok_cong: "llc_ok c L \<Longrightarrow> lines L' = lines L \<Longrightarrow> ll_mshrs L' = ll_mshrs L \<Longrightarrow> ll_next L' = ll_next L \<Longrightarrow> llc_ok c L'"
  by (simp add: llc_ok_def)

lemma write_line_ok:
  assumes "l \<in> set (lines L i)" "ln_id l = n"
  obtains L' where "write_line (i, n) f L = Inr L'" "lines L' = (lines L)(i := set_line n f (lines L i))"
    "ll_mshrs L' = ll_mshrs L" "ll_next L' = ll_next L" "ll_clk L' = ll_clk L"
proof -
  from assms obtain s where s: "ll_sets L i = Some s" "lines L i = s" by (cases "ll_sets L i") (auto simp: lines_def)
  with assms have "write_line (i, n) f L = Inr (L\<lparr>ll_sets := (ll_sets L)(i \<mapsto> set_line n f s)\<rparr>)"
    by (auto simp: write_line_def)
  then show thesis by (rule that) (use s in \<open>auto simp: lines_def fun_eq_iff\<close>)
qed

lemma check_mshr_hitD: "check_mshr_hit c ms a = Some (b, i, n) \<Longrightarrow> (b, i, n) \<in> set ms \<and> align c b = align c a"
  unfolding check_mshr_hit_def find_Some_iff by (force simp: in_set_conv_nth)

lemma check_mshr_missD: "check_mshr_hit c ms a = None \<Longrightarrow> (b, i, n) \<in> set ms \<Longrightarrow> align c b \<noteq> align c a"
  by (auto simp: check_mshr_hit_def find_None_iff)

lemma check_set_hitD:
  "check_set_hit c s a = Some l \<Longrightarrow> l \<in> set s \<and> ln_ready l \<and> ln_tag l = get_tag c a"
  by (auto simp: check_set_hit_def find_Some_iff split: option.splits if_splits)

lemma hit_line_ok:
  assumes ok: "llc_ok c L" and l: "check_set_hit c (lines L (get_index c (rq_addr r))) (rq_addr r) = Some l"
  shows "llc_ok c (hit_line c (lines L (get_index c (rq_addr r))) r l L)"
proof -
  from check_set_hitD [OF l] ok show ?thesis
    unfolding llc_ok_def hit_line_def Let_def by (simp add: cache_ok_hit)
qed

lemma join_mshr_ok:
  assumes ok: "llc_ok c L" and e: "check_mshr_hit c (ll_mshrs L) (rq_addr r) = Some e"
  shows "\<exists>L'. join_mshr r d e L = Inr L' \<and> llc_ok c L'"
proof -
  obtain a i n where ajn: "e = (a, i, n)" by (cases e)
  with check_mshr_hitD e have "(a, i, n) \<in> set (ll_mshrs L)" by blast
  with ok obtain l where l: "l \<in> set (lines L i)" "ln_id l = n" unfolding llc_ok_def by (blast dest: cache_okD(5))
  define L1 where "L1 = L\<lparr>ll_receive := (ll_receive L)(a \<mapsto> (case ll_receive L a of None \<Rightarrow> [] | Some rs \<Rightarrow> rs) @ [r])\<rparr>"
  have L1: "lines L1 = lines L" "ll_mshrs L1 = ll_mshrs L" "ll_next L1 = ll_next L" by (simp_all add: L1_def)
  have "join_mshr r d e L = write_line (i, n) (\<lambda>l. l\<lparr>ln_dirty := d \<or> ln_dirty l\<rparr>) L1"
    by (simp add: join_mshr_def ajn L1_def)
  moreover have "l \<in> set (lines L1 i)" using l(1) by (simp add: L1)
  then obtain L' where "write_line (i, n) (\<lambda>l. l\<lparr>ln_dirty := d \<or> ln_dirty l\<rparr>) L1 = Inr L'"
    "lines L' = (lines L1)(i := set_line n (\<lambda>l. l\<lparr>ln_dirty := d \<or> ln_dirty l\<rparr>) (lines L1 i))"
    "ll_mshrs L' = ll_mshrs L1" "ll_next L' = ll_next L1" "ll_clk L' = ll_clk L1"
    using l(2) by (rule write_line_ok)
  ultimately show ?thesis using ok by (simp add: llc_ok_def L1 cache_ok_dirty [where d = "\<lambda>l. d \<or> ln_dirty l"])
qed

text \<open>After a miss in the set and in the MSHRs no line of the set has the tag of the address.\<close>

lemma miss_no_tag:
  assumes cfg: "cfg_ok c" and ok: "llc_ok c L" and s: "s = lines L (get_index c a)"
    and set: "check_set_hit c s a = None" and mshr: "check_mshr_hit c (ll_mshrs L) a = None" and l: "l \<in> set s"
  shows "ln_tag l \<noteq> get_tag c a"
proof
  assume tag: "ln_tag l = get_tag c a"
  note inv = ok [unfolded llc_ok_def]
  have sok: "set_ok c (ll_next L) (get_index c a) s" unfolding s by (rule cache_okD(1) [OF inv])
  have "find (\<lambda>l. ln_tag l = get_tag c a) s \<noteq> None" using l tag by (auto simp: find_None_iff)
  then obtain k where "find (\<lambda>l. ln_tag l = get_tag c a) s = Some k" by blast
  with set have k: "k \<in> set s" "ln_tag k = get_tag c a" "\<not> ln_ready k"
    by (auto simp: check_set_hit_def find_Some_iff split: if_splits)
  then have "(ln_addr k, get_index c a, ln_id k) \<in> set (ll_mshrs L)" using cache_okD(6) [OF inv] s by blast
  with check_mshr_missD [OF mshr] have "align c (ln_addr k) \<noteq> align c a" by blast
  moreover have "get_index c (ln_addr k) = get_index c a" by (rule set_okD(3) [OF sok k(1)])
  moreover have "get_tag c (ln_addr k) = get_tag c a" using set_okD(4) [OF sok k(1)] k(2) by (rule subst)
  ultimately show False using cfg unfolding cfg_ok_def by blast
qed

text \<open>An allocation that has room appends a line and drops at most a ready one.\<close>

lemma allocate_line_ok:
  assumes assoc: "0 < lc_assoc c" "lc_assoc c < 2 ^ 63" and len: "int (length s) \<le> lc_assoc c"
    and tag: "\<And>l. l \<in> set s \<Longrightarrow> ln_tag l \<noteq> get_tag c a"
    and ids: "\<And>k l. k \<in> set s \<Longrightarrow> l \<in> set s \<Longrightarrow> ln_id k = ln_id l \<Longrightarrow> k = l"
    and room: "int (length s) < lc_assoc c \<or> (\<exists>l \<in> set s. ln_ready l)"
  obtains P L' where "allocate_line c s a L = Inr (Some (filter P s @
      [\<lparr>ln_id = ll_next L, ln_addr = a, ln_tag = get_tag c a, ln_dirty = False, ln_ready = False\<rparr>], L'))"
    "lines L' = lines L" "ll_mshrs L' = ll_mshrs L" "ll_next L' = Suc (ll_next L)"
    "int (length (filter P s)) < lc_assoc c" "\<And>k. k \<in> set s \<Longrightarrow> \<not> ln_ready k \<Longrightarrow> P k"
proof -
  have u: "u64 (lc_assoc c) = lc_assoc c" using assoc by (simp add: u64_small)
  have tag': "\<not> (\<exists>l \<in> set s. get_tag c a = ln_tag l)" using tag by metis
  show thesis
  proof (cases "int (length s) < lc_assoc c")
    case True
    with tag' u show thesis
      by (intro that [of "\<lambda>_. True" "L\<lparr>ll_next := Suc (ll_next L)\<rparr>"]) (simp_all add: allocate_line_def need_eviction_def sbind_def)
  next
    case False
    with room have "find ln_ready s \<noteq> None" by (auto simp: find_None_iff)
    then obtain v where v: "find ln_ready s = Some v" by blast
    then have mem: "v \<in> set s" "ln_ready v" by (auto simp: find_Some_iff)
    have "length (filter (\<lambda>l. ln_id l \<noteq> ln_id v) s) < length s" using mem(1) by (intro length_filter_less [of v]) auto
    moreover have "ln_id k \<noteq> ln_id v" if "k \<in> set s" "\<not> ln_ready k" for k using ids [OF that(1) mem(1)] that(2) mem(2) by blast
    ultimately show thesis using False tag' u v len
      by (intro that [of "\<lambda>l. ln_id l \<noteq> ln_id v" "(snd (evict_line c s v L))\<lparr>ll_next := Suc (ll_next L)\<rparr>"])
        (simp_all add: allocate_line_def need_eviction_def sbind_def evict_line_def erase_line_def)
  qed
qed

lemma new_miss_ok:
  assumes cfg: "cfg_ok c" and ok: "llc_ok c L" and s: "s = lines L (get_index c (rq_addr r))"
    and set: "check_set_hit c s (rq_addr r) = None" and mshr: "check_mshr_hit c (ll_mshrs L) (rq_addr r) = None"
  shows "\<exists>b L'. new_miss c s r d L = Inr (b, L') \<and> llc_ok c L'"
proof -
  let ?a = "rq_addr r" and ?i = "get_index c (rq_addr r)"
  let ?x = "\<lparr>ln_id = ll_next L, ln_addr = ?a, ln_tag = get_tag c ?a, ln_dirty = False, ln_ready = False\<rparr>"
  note inv = ok [unfolded llc_ok_def]
  have sok: "set_ok c (ll_next L) ?i s" unfolding s by (rule cache_okD(1) [OF inv])
  have u: "u64 (lc_assoc c) = lc_assoc c" "u64 (lc_num_mshrs c) = lc_num_mshrs c"
    using cfg by (simp_all add: cfg_ok_def u64_small)
  show ?thesis
  proof (cases "int (length (ll_mshrs L)) = lc_num_mshrs c \<or> \<not> (int (length s) < lc_assoc c \<or> (\<exists>l \<in> set s. ln_ready l))")
    case True
    then show ?thesis using ok u by (auto simp: new_miss_def llc_ok_def)
  next
    case False
    note tag = miss_no_tag [OF cfg ok s set mshr]
    have "0 < lc_assoc c" "lc_assoc c < 2 ^ 63" using cfg by (simp_all add: cfg_ok_def)
    moreover have "int (length s) < lc_assoc c \<or> (\<exists>l \<in> set s. ln_ready l)" using False by blast
    ultimately obtain P L1 where al: "allocate_line c s ?a L = Inr (Some (filter P s @ [?x], L1))"
      and L1: "lines L1 = lines L" "ll_mshrs L1 = ll_mshrs L" "ll_next L1 = Suc (ll_next L)"
      and len: "int (length (filter P s)) < lc_assoc c" and keep: "\<And>k. k \<in> set s \<Longrightarrow> \<not> ln_ready k \<Longrightarrow> P k"
      using allocate_line_ok [of c s ?a L, OF _ _ set_okD(1) [OF sok] tag set_okD(6) [OF sok]] by blast
    have "cache_ok c ((lines L)(?i := filter P (lines L ?i) @ [?x])) (ll_mshrs L @ [(ln_addr ?x, ?i, ln_id ?x)]) (Suc (ll_next L))"
      using False cache_okD(3) [OF inv] len keep tag check_mshr_missD [OF mshr]
      by (intro cache_ok_alloc [OF inv]) (auto simp: s)
    then have "cache_ok c ((lines L)(?i := set_line (ll_next L) (\<lambda>l. l\<lparr>ln_dirty := d\<rparr>) (filter P s @ [?x])))
        (ll_mshrs L @ [(?a, ?i, ll_next L)]) (Suc (ll_next L))"
      by (drule_tac cache_ok_dirty [where i = ?i and n = "ll_next L" and d = "\<lambda>_. d"]) (simp add: s)
    with al u False L1 show ?thesis by (auto simp: new_miss_def llc_ok_def Let_def)
  qed
qed

lemma lines_touch: "lines (put_set c a (get_set c a L) L) = lines L"
  by (auto simp: get_set_lines)

theorem llc_send_ok:
  assumes cfg: "cfg_ok c" and ok: "llc_ok c L"
  shows "\<exists>b L'. llc_send c r L = Inr (b, L') \<and> llc_ok c L'"
proof -
  define L1 where "L1 = (put_set c (rq_addr r) (get_set c (rq_addr r) L) L)\<lparr>ll_stats := count_access (rq_type r) (ll_stats L)\<rparr>"
  define L2 where "L2 = L1\<lparr>ll_stats := count_miss (rq_type r) (ll_stats L1)\<rparr>"
  define q where "q = (if rq_type r = type_Write then r\<lparr>rq_type := type_Read\<rparr> else r)"
  define s where "s = lines L (get_index c (rq_addr r))"
  have q: "rq_addr q = rq_addr r" by (simp add: q_def)
  have ok1: "llc_ok c L1" and s1: "lines L1 = lines L" and m1: "ll_mshrs L1 = ll_mshrs L"
    using ok lines_touch by (simp_all add: L1_def llc_ok_def)
  then have ok2: "llc_ok c L2" and s2: "lines L2 = lines L" and m2: "ll_mshrs L2 = ll_mshrs L"
    by (simp_all add: L2_def llc_ok_def)
  have send: "llc_send c r L = (case check_set_hit c s (rq_addr r) of Some l \<Rightarrow> Inr (True, hit_line c s r l L1)
      | None \<Rightarrow> (case check_mshr_hit c (ll_mshrs L2) (rq_addr q) of
          Some e \<Rightarrow> sbind (join_mshr q (rq_type r = type_Write) e L2) (\<lambda>L'. Inr (True, L'))
        | None \<Rightarrow> new_miss c s q (rq_type r = type_Write) L2))"
    unfolding llc_send_def Let_def L2_def L1_def q_def s_def get_set_lines by simp
  show ?thesis
  proof (cases "check_set_hit c s (rq_addr r)")
    case (Some l)
    with hit_line_ok [OF ok1, of r l] show ?thesis by (auto simp: send s_def s1)
  next
    case None
    show ?thesis
    proof (cases "check_mshr_hit c (ll_mshrs L2) (rq_addr q)")
      case (Some e)
      with join_mshr_ok [OF ok2 Some, of "rq_type r = type_Write"] None show ?thesis by (auto simp: send)
    next
      case miss: None
      with new_miss_ok [OF cfg ok2, of s q] None s2 q show ?thesis by (simp add: send s_def)
    qed
  qed
qed

text \<open>An answer, in three steps of the invariant.\<close>

theorem o3_answer_ok:
  assumes ok: "llc_ok c L"
  shows "\<exists>ds L'. o3_answer c r L = Inr (ds, L') \<and> llc_ok c L' \<and> ll_clk L' = ll_clk L"
proof (cases "check_mshr_hit c (ll_mshrs L) (rq_addr r)")
  case None
  with ok show ?thesis by (simp add: o3_answer_def llc_receive_def llc_ok_def)
next
  case (Some e)
  obtain a i n where ajn: "e = (a, i, n)" by (cases e)
  with Some have mem: "(a, i, n) \<in> set (ll_mshrs L)" using check_mshr_hitD by blast
  note inv = ok [unfolded llc_ok_def]
  from cache_okD(5) [OF inv mem] obtain l where "l \<in> set (lines L i)" "ln_id l = n" by blast
  then obtain L' where w: "write_line (i, n) (\<lambda>l. l\<lparr>ln_ready := True\<rparr>) L = Inr L'"
    and L': "lines L' = (lines L)(i := set_line n (\<lambda>l. l\<lparr>ln_ready := True\<rparr>) (lines L i))"
      "ll_mshrs L' = ll_mshrs L" "ll_next L' = ll_next L" "ll_clk L' = ll_clk L"
    by (rule write_line_ok)
  with cache_ok_answer [OF inv mem] Some show ?thesis
    by (simp add: o3_answer_def llc_receive_def ajn llc_ok_def)
qed

lemma answer_hits_ok: "llc_ok c L \<Longrightarrow> \<exists>ds rest L'. answer_hits c ts L = Inr (ds, rest, L') \<and> llc_ok c L'"
proof (induction ts arbitrary: L)
  case (Cons e ts)
  obtain t r where e: "e = (t, r)" by (cases e)
  show ?case
  proof (cases "ll_clk L \<ge> t")
    case True
    let ?L = "L\<lparr>ll_receive := (ll_receive L)(rq_addr r \<mapsto> [r])\<rparr>"
    have "llc_ok c ?L" using Cons.prems by (simp add: llc_ok_def)
    from o3_answer_ok [OF this, of r] obtain ds L1 where a: "o3_answer c r ?L = Inr (ds, L1)" "llc_ok c L1" by blast
    from Cons.IH [OF a(2)] a True show ?thesis by (auto simp: e)
  next
    case False
    with Cons.IH [OF Cons.prems] show ?thesis by (auto simp: e)
  qed
qed simp

theorem llc_tick_ok:
  assumes ok: "llc_ok c L"
  shows "\<exists>ds m' L'. llc_tick snd_mem c m L = Inr (ds, m', L') \<and> llc_ok c L'"
proof -
  obtain misses m' where s: "send_misses snd_mem (ll_clk L + 1) (ll_miss L) m = (misses, m')" by fastforce
  have "llc_ok c (L\<lparr>ll_clk := ll_clk L + 1, ll_miss := misses\<rparr>)" using ok by (simp add: llc_ok_def)
  from answer_hits_ok [OF this, of "ll_hit L"] s show ?thesis by (auto simp: llc_tick_def llc_ok_def)
qed

end
