(* ===== verification/O3_Cache_Safe.thy ===== *)
theory O3_Cache_Safe
  imports O3_Cache_Facts
begin

unbundle bit_operations_syntax

text \<open>
  The cache of a power-of-two geometry, over every run: it never fails, whatever the cores ask and the memory
  answers. And what a run can lose: a request that waits for a line whose earlier hit is answered late.
\<close>

section \<open>Geometry\<close>

lemma and_mask_mod: "(a::int) AND (2 ^ m - 1) = a mod 2 ^ m"
  by (simp add: mask_eq_exp_minus_1 [symmetric] take_bit_eq_mask [symmetric] take_bit_eq_mod)

lemma align_pow:
  assumes "lc_linesize c = 2 ^ k"
  shows "align c a = push_bit k (drop_bit k a)"
proof -
  have "align c a = a AND NOT (mask k)" using assms by (simp add: align_def mask_eq_exp_minus_1)
  moreover have "push_bit k (drop_bit k a) = a AND NOT (mask k)"
    by (rule bit_eqI) (auto simp: bit_push_bit_iff bit_drop_bit_eq bit_and_iff bit_not_iff bit_mask_iff)
  ultimately show ?thesis by simp
qed

lemma i32_nonneg: "0 \<le> x \<Longrightarrow> x < 2 ^ 31 \<Longrightarrow> i32 x = x"
  unfolding i32_def by (rule signed_take_bit_int_eq_self) (rule order.trans [of _ 0], simp_all)

lemma llc_setup_pow:
  assumes assoc: "0 < assoc" "assoc < 2 ^ 31" and k: "k \<le> 31" and m: "m \<le> 30" and mshrs: "0 \<le> mshrs" "mshrs < 2 ^ 31"
    and size: "2 ^ k * assoc * 2 ^ m < (2::int) ^ 64"
  shows "\<exists>c. llc_setup latency (2 ^ k * assoc * 2 ^ m) (2 ^ k) assoc mshrs = Some c \<and> cfg_ok c \<and>
    lc_assoc c = assoc \<and> lc_num_mshrs c = mshrs"
proof -
  let ?c = "\<lparr>lc_latency = latency, lc_linesize = 2 ^ k, lc_assoc = assoc, lc_num_mshrs = mshrs,
    lc_index_mask = 2 ^ m - 1, lc_index_offset = k, lc_tag_offset = m + k\<rparr>"
  have "(2::int) ^ k \<le> 2 ^ 31" "(2::int) ^ m \<le> 2 ^ 30" using power_increasing [of k 31 "2::int"] power_increasing [of m 30 "2::int"] k m by simp_all
  then have pk: "(2::int) ^ k < 2 ^ 64" and pm: "(2::int) ^ m < 2 ^ 31" by (simp_all add: order.strict_trans1)
  have "2 ^ k * assoc * 1 \<le> 2 ^ k * assoc * 2 ^ m" using assoc by (intro mult_left_mono) auto
  then have "2 ^ k * assoc * 1 < 2 ^ 64" using size by (rule le_less_trans)
  then have way: "u64 (2 ^ k * assoc) = 2 ^ k * assoc" using assoc by (intro u64_small) auto
  have i: "i32 (2 ^ m) = 2 ^ m" using pm by (intro i32_nonneg) simp_all
  have "llc_setup latency (2 ^ k * assoc * 2 ^ m) (2 ^ k) assoc mshrs = Some ?c"
    using assoc k m size way pk i
    by (simp add: llc_setup_def u64_small nat_power_eq Let_def)
  moreover have "align ?c a = align ?c b" if "get_index ?c a = get_index ?c b" "get_tag ?c a = get_tag ?c b" for a b
  proof -
    have i: "get_index ?c x = drop_bit k x mod 2 ^ m" for x
    proof -
      have "drop_bit k x mod 2 ^ m < 2 ^ 31" using pm by (rule order.strict_trans [rotated]) simp
      then show ?thesis by (simp add: get_index_def and_mask_mod i32_nonneg)
    qed
    have "get_tag ?c x = drop_bit k x div 2 ^ m" for x
      by (simp add: get_tag_def drop_bit_eq_div power_add mult.commute [of "2 ^ m"] zdiv_zmult2_eq)
    with that i have "drop_bit k a = drop_bit k b" by (metis mult_div_mod_eq)
    then show ?thesis by (simp add: align_pow)
  qed
  then have "cfg_ok ?c"
    unfolding cfg_ok_def using assoc mshrs by (intro conjI allI impI) (assumption | simp)+
  ultimately show ?thesis by (intro exI [of _ ?c] conjI) simp_all
qed

section \<open>Every run\<close>

lemma llc_new_ok:
  assumes "cfg_ok c"
  shows "llc_ok c llc_new"
proof -
  from assms have "0 < lc_assoc c" "0 \<le> lc_num_mshrs c" unfolding cfg_ok_def by blast+
  then show ?thesis by (simp add: llc_ok_def llc_new_def lines_def cache_ok_def set_ok_def)
qed

lemma llc_reach_ok:
  assumes "llc_reach snd_mem c L" "cfg_ok c"
  shows "llc_ok c L"
  using assms
proof induction
  case start
  then show ?case by (rule llc_new_ok)
next
  case (send L r b L')
  with llc_send_ok [of c L r] show ?case by auto
next
  case (answer L r ds L')
  with o3_answer_ok [of c L r] show ?case by auto
next
  case (tick L m ds m' L')
  with llc_tick_ok [of c L snd_mem m] show ?case by auto
qed

lemma in_flight_mshrs:
  assumes "cache_ok c f ms next"
  shows "{(ln_addr l, i, ln_id l) |l. l \<in> set (f i) \<and> \<not> ln_ready l} = {e \<in> set ms. fst (snd e) = i}" (is "?A = ?B")
proof
  show "?A \<subseteq> ?B" using cache_okD(6) [OF assms] by auto
  show "?B \<subseteq> ?A"
  proof
    fix e assume "e \<in> ?B"
    then obtain a n where e: "e = (a, i, n)" "(a, i, n) \<in> set ms" by (cases e) auto
    from cache_okD(5) [OF assms e(2)] e(1) show "e \<in> ?A" by blast
  qed
qed

text \<open>
  The cache of a power-of-two geometry runs without fault: in every state it can be in, whatever is sent to
  it, whatever the memory answers and when, \<open>send\<close>, \<open>receive\<close> and \<open>tick\<close> do not fail their assertion, do not write
  through an iterator to an erased line and do not raise; no set holds more lines than the associativity or two lines
  of one tag, the MSHRs are never overrun and hold no line twice, and a line is in flight exactly when an MSHR knows it.
\<close>

theorem llc_runs_safely:
  assumes "0 < assoc" "assoc < 2 ^ 31" "k \<le> 31" "m \<le> 30" "0 \<le> mshrs" "mshrs < 2 ^ 31" "2 ^ k * assoc * 2 ^ m < (2::int) ^ 64"
    and c: "llc_setup latency (2 ^ k * assoc * 2 ^ m) (2 ^ k) assoc mshrs = Some c" and L: "llc_reach snd_mem c L"
  shows "(\<exists>b L'. llc_send c r L = Inr (b, L')) \<and> (\<exists>ds L'. o3_answer c r L = Inr (ds, L')) \<and>
    (\<exists>ds mem' L'. llc_tick snd_mem c mem L = Inr (ds, mem', L')) \<and>
    int (length (get_set c a L)) \<le> assoc \<and> distinct (map ln_tag (get_set c a L)) \<and>
    int (length (ll_mshrs L)) \<le> mshrs \<and> distinct (map (\<lambda>(b, _). align c b) (ll_mshrs L)) \<and>
    {(ln_addr l, get_index c a, ln_id l) |l. l \<in> set (get_set c a L) \<and> \<not> ln_ready l}
      = {e \<in> set (ll_mshrs L). fst (snd e) = get_index c a}"
proof -
  from llc_setup_pow [OF assms(1-7), of latency] c have cfg: "cfg_ok c" "lc_assoc c = assoc" "lc_num_mshrs c = mshrs" by auto
  note ok = llc_reach_ok [OF L cfg(1)]
  note inv = ok [unfolded llc_ok_def]
  note s = cache_okD(1) [OF inv, of "get_index c a", unfolded set_ok_def cfg]
  have "{(ln_addr l, get_index c a, ln_id l) |l. l \<in> set (lines L (get_index c a)) \<and> \<not> ln_ready l}
      = {e \<in> set (ll_mshrs L). fst (snd e) = get_index c a}"
    by (rule in_flight_mshrs [OF inv])
  moreover have "\<exists>b L'. llc_send c r L = Inr (b, L')" using llc_send_ok [OF cfg(1) ok, of r] by blast
  moreover have "\<exists>ds L'. o3_answer c r L = Inr (ds, L')" using o3_answer_ok [OF ok, of r] by blast
  moreover have "\<exists>ds mem' L'. llc_tick snd_mem c mem L = Inr (ds, mem', L')" using llc_tick_ok [OF ok, of snd_mem mem] by blast
  moreover have "int (length (ll_mshrs L)) \<le> mshrs" using cache_okD(3) [OF inv] cfg(3) by simp
  ultimately show ?thesis using s cache_okD(2) [OF inv] unfolding get_set_lines by (intro conjI) simp_all
qed

theorem llc_runs_safely_witness:
  "\<exists>c. llc_setup 47 4194304 64 8 16 = Some c \<and>
     (\<exists>b L'. llc_send c (request_addr 4096 type_Write) llc_new = Inr (b, L'))"
proof -
  from llc_setup_pow [of 8 6 13 16 47] obtain c where c: "llc_setup 47 (2 ^ 6 * 8 * 2 ^ 13) (2 ^ 6) 8 16 = Some c" by auto
  have "llc_reach (\<lambda>m r. (True, m :: unit)) c llc_new" by (rule llc_reach.start)
  then have "\<exists>b L'. llc_send c (request_addr 4096 type_Write) llc_new = Inr (b, L')"
    by (intro conjunct1 [OF llc_runs_safely [OF _ _ _ _ _ _ _ c]]) simp_all
  with c show ?thesis by simp
qed

section \<open>A lost request\<close>

text \<open>
  One set of one line, a latency of two cycles. A read of address 0 hits; the line is evicted for address 64 before
  the hit is answered, and a third read of address 0 opens an MSHR. The late hit then overwrites the list of waiting
  requests, completes the MSHR and clears the list; when the memory answers, nobody is left to be told.
\<close>

definition lost_run :: "(bool \<times> request list \<times> request list \<times> request list option \<times> (clk \<times> request) list \<times> mshr_entry list) option" where
  "lost_run = (case llc_setup 2 64 64 1 4 of None \<Rightarrow> None | Some c \<Rightarrow>
     let rd = (\<lambda>a src. request_src a type_Read src None); mem = (\<lambda>m r. (True, m)) in
     case sbind (llc_send c (rd 0 1) llc_new) (\<lambda>(_, L1).
       sbind (o3_answer c (rd 0 0) L1) (\<lambda>(_, L2).
       sbind (llc_send c (rd 0 2) L2) (\<lambda>(_, L3).
       sbind (llc_send c (rd 64 3) L3) (\<lambda>(_, L4).
       sbind (o3_answer c (rd 64 0) L4) (\<lambda>(_, L5).
       sbind (llc_send c (rd 0 4) L5) (\<lambda>(accepted, L6).
       sbind (llc_tick mem c () L6) (\<lambda>(_, _, L7).
       sbind (llc_tick mem c () L7) (\<lambda>(ds, _, L8).
       sbind (o3_answer c (rd 0 0) L8) (\<lambda>(ds', L9).
         Inr (accepted, ds, ds', ll_receive L9 0, ll_hit L9, ll_mshrs L9)))))))))) of
       Inl _ \<Rightarrow> None | Inr res \<Rightarrow> Some res)"

lemma lost_request: "lost_run = Some (True, [request_src 0 type_Read 2 None], [], Some [], [], [])"
  by code_simp

end
