(* ===== verification/Translation_Facts.thy ===== *)
theory Translation_Facts
  imports Translation
begin

unbundle bit_operations_syntax

text \<open>
  What the frontends rely on, as a locale, and that both translations provide it: a translation of a core's
  request returns, keeps the offset within the page and puts one page of the memory above it.
\<close>

section \<open>The interface\<close>

text \<open>
  What a frontend with \<open>n\<close> cores relies on: in the states \<open>t_ok n\<close>, a request of one of its cores is translated, keeps
  everything but its address, and leaves such a state.
\<close>

locale translation =
  fixes translate :: "'t \<Rightarrow> request \<Rightarrow> (bool \<times> request \<times> 't) option" and t_ok :: "nat \<Rightarrow> 't \<Rightarrow> bool"
  assumes translates: "t_ok n t \<Longrightarrow> 0 \<le> rq_source r \<Longrightarrow> rq_source r < int n \<Longrightarrow>
    \<exists>b a t'. translate t r = Some (b, r\<lparr>rq_addr := a\<rparr>, t') \<and> t_ok n t'"

interpretation ntr: translation no_translate "\<lambda>n t. True"
proof unfold_locales
  fix t and r :: request
  show "\<exists>b a t'. no_translate t r = Some (b, r\<lparr>rq_addr := a\<rparr>, t') \<and> True"
    by (intro exI [of _ True] exI [of _ "rq_addr r"] exI [of _ t]) (simp add: no_translate_def)
qed

text \<open>Nothing is reserved, and as the code never marks a page as used, all pages stay free.\<close>

definition rt_ok :: "nat \<Rightarrow> rtrans \<Rightarrow> bool" where
  "rt_ok n s \<longleftrightarrow> length (rt_maps s) = n \<and> 0 < rt_num_pages s \<and> rt_free s = replicate (nat (rt_num_pages s)) True \<and>
     rt_reserved s = {} \<and> (\<forall>m \<in> set (rt_maps s). \<forall>p \<in> ran m. 0 \<le> p \<and> p < rt_num_pages s)"

lemma rt_draw_free:
  assumes "0 < n" "\<And>p. 0 \<le> p \<Longrightarrow> p < n \<Longrightarrow> \<not> blocked p"
  shows "\<exists>p g'. rt_draw blocked n g = Some (p, g') \<and> 0 \<le> p \<and> p < n"
proof -
  have "\<not> blocked (v mod n)" for v using assms by simp
  then show ?thesis using assms(1) by (subst rt_draw.simps) (simp add: split_beta)
qed

lemma rt_assign_ok:
  assumes "rt_ok n s"
  shows "\<exists>p g k. rt_assign s = Some (p, s\<lparr>rt_rng := g, rt_num_free := k\<rparr>) \<and> 0 \<le> p \<and> p < rt_num_pages s"
proof -
  from assms have pos: "0 < rt_num_pages s" and free: "rt_free s = replicate (nat (rt_num_pages s)) True"
    and reserved: "rt_reserved s = {}" by (simp_all add: rt_ok_def)
  have "\<exists>p g'. rt_draw (\<lambda>p. p \<in> rt_reserved s) (rt_num_pages s) (rt_rng s) = Some (p, g') \<and> 0 \<le> p \<and> p < rt_num_pages s"
    using pos by (rule rt_draw_free) (simp add: reserved)
  moreover have "\<exists>p g'. rt_draw (\<lambda>p. p \<in> rt_reserved s \<or> \<not> rt_free s ! nat p) (rt_num_pages s) (rt_rng s) = Some (p, g') \<and>
      0 \<le> p \<and> p < rt_num_pages s"
    using pos by (rule rt_draw_free) (simp add: reserved free nat_less_iff)
  ultimately obtain p g p' g' where
    d: "rt_draw (\<lambda>p. p \<in> rt_reserved s) (rt_num_pages s) (rt_rng s) = Some (p, g)" "0 \<le> p" "p < rt_num_pages s"
      "rt_draw (\<lambda>p. p \<in> rt_reserved s \<or> \<not> rt_free s ! nat p) (rt_num_pages s) (rt_rng s) = Some (p', g')"
      "0 \<le> p'" "p' < rt_num_pages s" by blast
  show ?thesis
  proof (cases "rt_num_free s = 0")
    case True
    then have "rt_assign s = Some (p, s\<lparr>rt_rng := g, rt_num_free := rt_num_free s\<rparr>)" using pos d(1) by (simp add: rt_assign_def)
    with d(2,3) show ?thesis by blast
  next
    case False
    then have "rt_assign s = Some (p', s\<lparr>rt_rng := g', rt_num_free := u64 (rt_num_free s - 1)\<rparr>)"
      using pos d(4) by (simp add: rt_assign_def)
    with d(5,6) show ?thesis by blast
  qed
qed

lemma rt_translate_ok:
  assumes ok: "rt_ok n s" and src: "0 \<le> rq_source r" "rq_source r < int n"
  shows "\<exists>p s'. rt_translate s r = Some (True, r\<lparr>rq_addr := rt_physical s p (rq_addr r)\<rparr>, s') \<and> rt_ok n s' \<and>
    0 \<le> p \<and> p < rt_num_pages s \<and> rt_maps s' ! nat (rq_source r) = (rt_maps s ! nat (rq_source r))(drop_bit (rt_offsetbits s) (rq_addr r) \<mapsto> p) \<and>
    rt_offsetbits s' = rt_offsetbits s \<and> rt_free s' = rt_free s"
proof -
  let ?i = "nat (rq_source r)" and ?vpn = "drop_bit (rt_offsetbits s) (rq_addr r)"
  have len: "length (rt_maps s) = n" using ok by (simp add: rt_ok_def)
  have at: "vec_at (rt_maps s) (rq_source r) = Some (rt_maps s ! ?i)" "?i < length (rt_maps s)" using src len by (auto simp: vec_at_def)
  have ran: "0 \<le> p \<and> p < rt_num_pages s" if "(rt_maps s ! ?i) v = Some p" for v p
    using ok that nth_mem [OF at(2)] by (auto simp: rt_ok_def intro: ranI)
  show ?thesis
  proof (cases "(rt_maps s ! ?i) ?vpn")
    case (Some p)
    with ran [OF Some] ok at show ?thesis by (auto simp: rt_translate_def fun_upd_idem)
  next
    case None
    from rt_assign_ok [OF ok] obtain p g k where
      p: "rt_assign s = Some (p, s\<lparr>rt_rng := g, rt_num_free := k\<rparr>)" "0 \<le> p" "p < rt_num_pages s" by blast
    let ?m = "(rt_maps s ! ?i)(?vpn \<mapsto> p)"
    have "\<forall>m \<in> set ((rt_maps s)[?i := ?m]). \<forall>p \<in> ran m. 0 \<le> p \<and> p < rt_num_pages s"
    proof
      fix m assume "m \<in> set ((rt_maps s)[?i := ?m])"
      then have "m \<in> set (rt_maps s) \<or> m = ?m" using set_update_subset_insert by fast
      then show "\<forall>p \<in> ran m. 0 \<le> p \<and> p < rt_num_pages s"
      proof
        assume "m \<in> set (rt_maps s)"
        with ok show ?thesis unfolding rt_ok_def by blast
      next
        assume "m = ?m"
        with ran p(2,3) show ?thesis by (auto simp: ran_def split: if_splits)
      qed
    qed
    with ok len have "rt_ok n (s\<lparr>rt_rng := g, rt_num_free := k, rt_maps := (rt_maps s)[?i := ?m]\<rparr>)"
      by (simp add: rt_ok_def)
    moreover have "rt_translate s r = Some (True, r\<lparr>rq_addr := rt_physical s p (rq_addr r)\<rparr>,
        s\<lparr>rt_rng := g, rt_num_free := k, rt_maps := (rt_maps s)[?i := ?m]\<rparr>)"
      using None at p(1) by (simp add: rt_translate_def Let_def)
    ultimately show ?thesis using p(2,3) at(2)
      by (intro exI [of _ p] exI [of _ "s\<lparr>rt_rng := g, rt_num_free := k, rt_maps := (rt_maps s)[?i := ?m]\<rparr>"]) simp
  qed
qed

interpretation rtr: translation rt_translate rt_ok
proof unfold_locales
  fix n t and r :: request assume "rt_ok n t" "0 \<le> rq_source r" "rq_source r < int n"
  from rt_translate_ok [OF this] show "\<exists>b a t'. rt_translate t r = Some (b, r\<lparr>rq_addr := a\<rparr>, t') \<and> rt_ok n t'" by blast
qed

lemma rt_init_ok:
  assumes "rt_init seed max_addr kb n = Some s" "rt_num_pages s \<noteq> 0"
  shows "rt_ok n s"
proof -
  from assms(1) obtain m where s: "rt_num_pages s = u64 m" "rt_free s = replicate (nat (u64 m)) True"
    "rt_maps s = replicate n Map.empty" "rt_reserved s = {}"
    unfolding rt_init_def Let_def by (auto split: if_splits)
  have "0 \<le> u64 m" by (simp add: u64_def)
  with s assms(2) show ?thesis by (auto simp: rt_ok_def)
qed

text \<open>The bits below the page size are kept, and the page number above them is the one assigned.\<close>

lemma rt_physical_split:
  "take_bit (rt_offsetbits s) (rt_physical s p a) = take_bit (rt_offsetbits s) a"
  "drop_bit (rt_offsetbits s) (rt_physical s p a) = p"
proof -
  have m: "push_bit (rt_offsetbits s) 1 - 1 = (mask (rt_offsetbits s) :: int)" by (simp add: mask_eq_exp_minus_1)
  show "take_bit (rt_offsetbits s) (rt_physical s p a) = take_bit (rt_offsetbits s) a"
    unfolding rt_physical_def m by (rule bit_eqI) (auto simp: bit_simps)
  show "drop_bit (rt_offsetbits s) (rt_physical s p a) = p"
    unfolding rt_physical_def m by (rule bit_eqI) (auto simp: bit_simps)
qed

end
