(* ===== verification/O3_Frontend_Facts.thy ===== *)
theory O3_Frontend_Facts
  imports O3_Frontend O3_Core_Facts O3_Cache_Safe Translation_Facts
begin

text \<open>
  The processor frontend does not fail: the cores never leave their windows and traces, every request that waits in the
  cache belongs to a core, and the cache keeps its own invariant, whatever the memory does. The lemmas are proved once
  for any translation that keeps the contract of \<open>translation\<close>.
\<close>

section \<open>Requests that wait in the cache\<close>

definition of_core :: "nat \<Rightarrow> request \<Rightarrow> bool" where
  "of_core n r \<longleftrightarrow> 0 \<le> rq_source r \<and> rq_source r < int n"

definition waiting_ok :: "nat \<Rightarrow> llc \<Rightarrow> bool" where
  "waiting_ok n L \<longleftrightarrow> (\<forall>a rs. ll_receive L a = Some rs \<longrightarrow> (\<forall>r \<in> set rs. of_core n r)) \<and> (\<forall>e \<in> set (ll_hit L). of_core n (snd e))"

lemma waiting_cong: "waiting_ok n L \<Longrightarrow> ll_receive L' = ll_receive L \<Longrightarrow> ll_hit L' = ll_hit L \<Longrightarrow> waiting_ok n L'"
  by (simp add: waiting_ok_def)

lemma waiting_receive: "waiting_ok n L \<Longrightarrow> \<forall>r \<in> set rs. of_core n r \<Longrightarrow> waiting_ok n (L\<lparr>ll_receive := (ll_receive L)(a \<mapsto> rs)\<rparr>)"
  by (simp add: waiting_ok_def)

lemma waitingD: "waiting_ok n L \<Longrightarrow> ll_receive L a = Some rs \<Longrightarrow> r \<in> set rs \<Longrightarrow> of_core n r"
  by (auto simp: waiting_ok_def)

lemma write_line_waiting: "write_line it f L = Inr L' \<Longrightarrow> ll_receive L' = ll_receive L \<and> ll_hit L' = ll_hit L"
  by (auto simp: write_line_def split: option.splits if_splits)

lemma allocate_line_waiting:
  "allocate_line c s a L = Inr (Some (s1, L1)) \<Longrightarrow> ll_receive L1 = ll_receive L \<and> ll_hit L1 = ll_hit L"
  by (auto simp: allocate_line_def evict_line_def sbind_Inr split: option.splits if_splits)

lemma hit_line_waiting: "waiting_ok n L \<Longrightarrow> of_core n r \<Longrightarrow> waiting_ok n (hit_line c s r l L)"
  by (simp add: waiting_ok_def hit_line_def put_set_def Let_def)

lemma join_mshr_waiting:
  assumes "waiting_ok n L" "of_core n r" "join_mshr r d e L = Inr L'"
  shows "waiting_ok n L'"
proof -
  have "waiting_ok n (L\<lparr>ll_receive := (ll_receive L)(fst e \<mapsto> (case ll_receive L (fst e) of None \<Rightarrow> [] | Some rs \<Rightarrow> rs) @ [r])\<rparr>)"
    using assms(1,2) by (intro waiting_receive; cases "ll_receive L (fst e)") (auto dest: waitingD)
  from waiting_cong [OF this] write_line_waiting [OF assms(3) [unfolded join_mshr_def]] show ?thesis by simp
qed

lemma new_miss_waiting:
  assumes "waiting_ok n L" "of_core n r" "new_miss c s r d L = Inr (b, L')"
  shows "waiting_ok n L'"
proof -
  have "ll_hit L' = ll_hit L \<and> (ll_receive L' = ll_receive L \<or> ll_receive L' = (ll_receive L)(rq_addr r \<mapsto> [r]))"
    using assms(3) allocate_line_waiting [of c s "rq_addr r" L]
    by (auto simp: new_miss_def sbind_Inr put_set_def Let_def split: if_splits option.splits)
  with assms(1,2) show ?thesis by (auto simp: waiting_ok_def split: if_splits)
qed

lemma llc_send_waiting:
  assumes w: "waiting_ok n L" and r: "of_core n r" and s: "llc_send c r L = Inr (b, L')"
  shows "waiting_ok n L'"
proof -
  define L1 where "L1 = (put_set c (rq_addr r) (get_set c (rq_addr r) L) L)\<lparr>ll_stats := count_access (rq_type r) (ll_stats L)\<rparr>"
  define L2 where "L2 = L1\<lparr>ll_stats := count_miss (rq_type r) (ll_stats L1)\<rparr>"
  define q where "q = (if rq_type r = type_Write then r\<lparr>rq_type := type_Read\<rparr> else r)"
  have w': "waiting_ok n L1" "waiting_ok n L2" and q: "of_core n q"
    using w r by (simp_all add: L2_def L1_def q_def put_set_def waiting_ok_def of_core_def)
  from s show ?thesis
    unfolding llc_send_def Let_def L1_def [symmetric] L2_def [symmetric] q_def [symmetric]
    using hit_line_waiting [OF w'(1) r] join_mshr_waiting [OF w'(2) q] new_miss_waiting [OF w'(2) q]
    by (auto simp: sbind_Inr split: option.splits)
qed

lemma o3_answer_waiting:
  assumes w: "waiting_ok n L" and a: "o3_answer c r L = Inr (ds, L')"
  shows "waiting_ok n L'" "\<forall>d \<in> set ds. of_core n d" "ll_hit L' = ll_hit L"
proof -
  from a obtain L1 where L1: "llc_receive c r L = Inr L1" "L' = L1\<lparr>ll_receive := (ll_receive L1)(rq_addr r \<mapsto> [])\<rparr>"
    and ds: "ds = map (\<lambda>w. w\<lparr>rq_arrive := rq_arrive r, rq_depart := rq_depart r\<rparr>)
            (case ll_receive L1 (rq_addr r) of None \<Rightarrow> [] | Some rs \<Rightarrow> rs)"
    by (auto simp: o3_answer_def sbind_Inr)
  from L1(1) have same: "ll_receive L1 = ll_receive L \<and> ll_hit L1 = ll_hit L"
    by (auto simp: llc_receive_def sbind_Inr split: option.splits dest: write_line_waiting)
  with w have w1: "waiting_ok n L1" by (rule_tac waiting_cong) auto
  then show "waiting_ok n L'" unfolding L1(2) by (intro waiting_receive) simp_all
  show "ll_hit L' = ll_hit L" using same L1(2) by simp
  show "\<forall>d \<in> set ds. of_core n d"
    using waitingD [OF w1, of "rq_addr r"] unfolding ds by (cases "ll_receive L1 (rq_addr r)") (auto simp: of_core_def)
qed

lemma answer_hits_waiting:
  "waiting_ok n L \<Longrightarrow> \<forall>e \<in> set ts. of_core n (snd e) \<Longrightarrow> answer_hits c ts L = Inr (ds, rest, L') \<Longrightarrow>
     waiting_ok n L' \<and> (\<forall>d \<in> set ds. of_core n d) \<and> (\<forall>e \<in> set rest. of_core n (snd e))"
proof (induction ts arbitrary: L ds rest)
  case (Cons e ts)
  obtain t r where e: "e = (t, r)" by (cases e)
  with Cons.prems(2) have r: "of_core n r" by simp
  show ?case
  proof (cases "ll_clk L \<ge> t")
    case True
    with Cons.prems(3) e obtain d1 L1 d2 where
      a: "o3_answer c r (L\<lparr>ll_receive := (ll_receive L)(rq_addr r \<mapsto> [r])\<rparr>) = Inr (d1, L1)"
      "answer_hits c ts L1 = Inr (d2, rest, L')" "ds = d1 @ d2"
      by (auto simp: sbind_Inr)
    have "waiting_ok n (L\<lparr>ll_receive := (ll_receive L)(rq_addr r \<mapsto> [r])\<rparr>)"
      using Cons.prems(1) r by (intro waiting_receive) simp_all
    note o = o3_answer_waiting [OF this a(1)]
    from Cons.IH [OF o(1) _ a(2)] Cons.prems(2) o(2) a(3) show ?thesis by auto
  next
    case False
    with Cons.prems(3) e obtain rest' where a: "answer_hits c ts L = Inr (ds, rest', L')" "rest = (t, r) # rest'"
      by (auto simp: sbind_Inr)
    from Cons.IH [OF Cons.prems(1) _ a(1)] Cons.prems(2) r a(2) show ?thesis by auto
  qed
qed simp

lemma llc_tick_waiting:
  assumes w: "waiting_ok n L" and t: "llc_tick snd_mem c m L = Inr (ds, m', L')"
  shows "waiting_ok n L' \<and> (\<forall>d \<in> set ds. of_core n d)"
proof -
  obtain misses m1 where s: "send_misses snd_mem (ll_clk L + 1) (ll_miss L) m = (misses, m1)" by fastforce
  with t obtain rest L1 where a: "answer_hits c (ll_hit L) (L\<lparr>ll_clk := ll_clk L + 1, ll_miss := misses\<rparr>) = Inr (ds, rest, L1)"
    "L' = L1\<lparr>ll_hit := rest\<rparr>"
    by (auto simp: llc_tick_def Let_def sbind_Inr)
  have "waiting_ok n (L\<lparr>ll_clk := ll_clk L + 1, ll_miss := misses\<rparr>)" "\<forall>e \<in> set (ll_hit L). of_core n (snd e)"
    using w by (auto simp: waiting_ok_def)
  from answer_hits_waiting [OF this a(1)] a(2) show ?thesis by (auto simp: waiting_ok_def)
qed

section \<open>A core\<close>

definition core_ok :: "nat \<Rightarrow> core \<Rightarrow> bool" where
  "core_ok n C \<longleftrightarrow> window_ok (co_window C) \<and> 0 \<le> co_idx C \<and> co_idx C < int (length (co_trace C)) \<and> 0 \<le> co_id C \<and> co_id C < int n"

lemma fetch_ok:
  assumes "core_ok n C"
  shows "\<exists>C'. fetch C = Inr C' \<and> core_ok n C'"
proof -
  from assms have "vec_at (co_trace C) (co_idx C) \<noteq> None" by (simp add: core_ok_def vec_at_def)
  moreover have "co_trace C \<noteq> []" using assms by (cases "co_trace C") (auto simp: core_ok_def)
  ultimately show ?thesis using assms by (auto simp: fetch_def core_ok_def)
qed

lemma core_retire_ok:
  assumes "core_ok n C"
  shows "\<exists>C'. core_retire C = Inr C' \<and> core_ok n C'"
  using assms win_retire_abs [of "co_window C"] by (auto simp: core_retire_def core_ok_def Let_def)

lemma issue_bubbles_ok: "core_ok n C \<Longrightarrow> \<exists>go k C'. issue_bubbles b j C = Inr (go, k, C') \<and> core_ok n C'"
proof (induction b arbitrary: j C)
  case (Suc b)
  show ?case
  proof (cases "j = iw_ipc (co_window C) \<or> is_full (co_window C)")
    case True
    with Suc.prems show ?thesis by auto
  next
    case False
    with Suc.prems obtain w where w: "win_insert True (-1) (co_window C) = Inr w" "window_ok w"
      using win_insert_abs by (metis core_ok_def)
    with Suc.prems have "core_ok n (C\<lparr>co_window := w, co_bubbles := co_bubbles C - 1\<rparr>)" by (simp add: core_ok_def)
    from Suc.IH [OF this, of "j + 1"] w False show ?thesis by auto
  qed
qed auto

lemma core_receive_ok:
  assumes "core_ok n C"
  shows "\<exists>C'. core_receive r C = Inr C' \<and> core_ok n C'"
  using assms win_set_ready_abs [of "co_window C" "rq_addr r"] by (auto simp: core_receive_def core_ok_def Let_def)

section \<open>The frontend, for any translation\<close>

definition cache_good :: "nat \<Rightarrow> llc_cfg \<Rightarrow> llc \<Rightarrow> bool" where
  "cache_good n c L \<longleftrightarrow> cfg_ok c \<and> llc_ok c L \<and> waiting_ok n L"

lemma llc_send_good:
  assumes "cache_good n c L" "of_core n r"
  shows "\<exists>b L'. llc_send c r L = Inr (b, L') \<and> cache_good n c L'"
  using assms llc_send_ok [of c L r] llc_send_waiting [of n L r c] unfolding cache_good_def by blast

definition good3 :: "('t \<Rightarrow> bool) \<Rightarrow> nat \<Rightarrow> llc_cfg \<Rightarrow> o3_fault + (core \<times> 't \<times> llc) \<Rightarrow> bool" where
  "good3 P n c res \<longleftrightarrow> (\<exists>C t L. res = Inr (C, t, L) \<and> core_ok n C \<and> P t \<and> cache_good n c L)"

lemma good3I [intro]: "core_ok n C \<Longrightarrow> P t \<Longrightarrow> cache_good n c L \<Longrightarrow> good3 P n c (Inr (C, t, L))"
  by (simp add: good3_def)

lemma of_opt_Inr: "of_opt e x = Inr y \<longleftrightarrow> x = Some y"
  by (cases x) auto

lemma of_sum_Inr: "of_sum f x = Inr y \<longleftrightarrow> x = Inr y"
  by (cases x) auto

lemma deliver_ok:
  "length Cs = n \<Longrightarrow> \<forall>C \<in> set Cs. core_ok n C \<Longrightarrow> \<forall>d \<in> set ds. of_core n d \<Longrightarrow>
     \<exists>Cs'. deliver ds Cs = Inr Cs' \<and> length Cs' = n \<and> (\<forall>C \<in> set Cs'. core_ok n C)"
proof (induction ds arbitrary: Cs)
  case (Cons d ds)
  let ?i = "nat (rq_source d)"
  from Cons.prems have i: "?i < length Cs" "vec_at Cs (rq_source d) = Some (Cs ! ?i)" by (auto simp: of_core_def vec_at_def)
  from core_receive_ok [of n "Cs ! ?i" d] Cons.prems(2) i(1) obtain C where
    C: "core_receive d (Cs ! ?i) = Inr C" "core_ok n C" by auto
  have "\<forall>C' \<in> set (Cs[?i := C]). core_ok n C'" using Cons.prems(2) C(2) set_update_subset_insert by fast
  from Cons.IH [OF _ this] Cons.prems i C(1) show ?case by simp
qed simp

context translation
begin

lemma send_translated:
  assumes "t_ok n t" "cache_good n c L" "0 \<le> i" "i < int n"
  obtains b r t' sent L' where "translate t (request_src a ty i (Some 0)) = Some (b, r, t')" "t_ok n t'"
    "llc_send c r L = Inr (sent, L')" "cache_good n c L'"
proof -
  have "rq_source (request_src a ty i (Some 0)) = i" by (simp add: request_src_def)
  with translates [OF assms(1), of "request_src a ty i (Some 0)"] assms(3,4) obtain b a' t' where
    t: "translate t (request_src a ty i (Some 0)) = Some (b, (request_src a ty i (Some 0))\<lparr>rq_addr := a'\<rparr>, t')" "t_ok n t'" by auto
  have "of_core n ((request_src a ty i (Some 0))\<lparr>rq_addr := a'\<rparr>)" using assms(3,4) by (simp add: of_core_def request_src_def)
  from llc_send_good [OF assms(2) this] t show thesis using that by blast
qed

lemma issue_writeback_ok:
  assumes C: "core_ok n C" and t: "t_ok n t" and L: "cache_good n c L"
  shows "good3 (t_ok n) n c (issue_writeback translate c C t L)"
proof -
  from fetch_ok [OF C] obtain C' where f: "fetch C = Inr C'" "core_ok n C'" by blast
  from C have "0 \<le> co_id C" "co_id C < int n" by (simp_all add: core_ok_def)
  from send_translated [OF t L this] obtain b r t' sent L' where
    "translate t (request_src (co_wb_addr C) type_Write (co_id C) (Some 0)) = Some (b, r, t')" "t_ok n t'"
    "llc_send c r L = Inr (sent, L')" "cache_good n c L'" by metis
  with f C t L show ?thesis by (auto simp: issue_writeback_def)
qed

lemma issue_memory_ok:
  assumes C: "core_ok n C" and t: "t_ok n t" and L: "cache_good n c L"
  shows "good3 (t_ok n) n c (issue_memory translate c j C t L)"
proof (cases "co_load_addr C \<noteq> -1 \<and> j \<noteq> iw_ipc (co_window C) \<and> \<not> is_full (co_window C)")
  case False
  with issue_writeback_ok [OF C t L] C t L show ?thesis by (auto simp: issue_memory_def)
next
  case True
  from C have "0 \<le> co_id C" "co_id C < int n" by (simp_all add: core_ok_def)
  from send_translated [OF t L this] obtain b r t' sent L' where
    s: "translate t (request_src (co_load_addr C) type_Read (co_id C) (Some 0)) = Some (b, r, t')" "t_ok n t'"
    "llc_send c r L = Inr (sent, L')" "cache_good n c L'" by metis
  from win_insert_abs [of "co_window C" False "rq_addr r"] C True obtain w where
    w: "win_insert False (rq_addr r) (co_window C) = Inr w" "window_ok w" by (auto simp: core_ok_def)
  with C have C': "core_ok n (C\<lparr>co_window := w, co_load_addr := -1\<rparr>)" by (simp add: core_ok_def)
  show ?thesis using True s w C C' t L issue_writeback_ok [OF C' s(2,4)] by (auto simp: issue_memory_def Let_def)
qed

lemma core_tick_ok:
  assumes C: "core_ok n C" and t: "t_ok n t" and L: "cache_good n c L"
  shows "good3 (t_ok n) n c (core_tick translate c C t L)"
proof -
  have "core_ok n (C\<lparr>co_clk := co_clk C + 1\<rparr>)" using C by (simp add: core_ok_def)
  from core_retire_ok [OF this] obtain C1 where C1: "core_retire (C\<lparr>co_clk := co_clk C + 1\<rparr>) = Inr C1" "core_ok n C1" by blast
  from issue_bubbles_ok [OF C1(2)] obtain go k C2 where
    C2: "issue_bubbles (nat (co_bubbles C1)) 0 C1 = Inr (go, k, C2)" "core_ok n C2" by metis
  from C1 C2 t L issue_memory_ok [OF C2(2) t L] show ?thesis by (auto simp: core_tick_def)
qed

lemma tick_cores_ok:
  "\<forall>C \<in> set Cs. core_ok n C \<Longrightarrow> t_ok n t \<Longrightarrow> cache_good n c L \<Longrightarrow>
     \<exists>Cs' t' L'. tick_cores translate c Cs t L = Inr (Cs', t', L') \<and> length Cs' = length Cs \<and> (\<forall>C \<in> set Cs'. core_ok n C) \<and>
       t_ok n t' \<and> cache_good n c L'"
proof (induction Cs arbitrary: t L)
  case (Cons C Cs)
  then have "core_ok n C" by simp
  from core_tick_ok [OF this Cons.prems(2,3)] obtain C1 t1 L1 where
    C1: "core_tick translate c C t L = Inr (C1, t1, L1)" "core_ok n C1" "t_ok n t1" "cache_good n c L1"
    by (auto simp: good3_def)
  from Cons.IH [OF _ C1(3,4)] Cons.prems(1) C1(1,2) show ?case by fastforce
qed simp

definition o3_good :: "nat \<Rightarrow> llc_cfg \<Rightarrow> 't o3 \<Rightarrow> bool" where
  "o3_good n c S \<longleftrightarrow> length (of_cores S) = n \<and> (\<forall>C \<in> set (of_cores S). core_ok n C) \<and> t_ok n (of_tr S) \<and> cache_good n c (of_llc S)"

lemma o3_receive_good:
  assumes "o3_good n c S"
  shows "\<exists>S'. o3_receive c r S = Inr S' \<and> o3_good n c S'"
proof -
  from assms have g: "length (of_cores S) = n" "\<forall>C \<in> set (of_cores S). core_ok n C" "t_ok n (of_tr S)" "cfg_ok c"
    "llc_ok c (of_llc S)" "waiting_ok n (of_llc S)" by (simp_all add: o3_good_def cache_good_def)
  from o3_answer_ok [OF g(5), of r] obtain ds L where a: "o3_answer c r (of_llc S) = Inr (ds, L)" "llc_ok c L" by blast
  note w = o3_answer_waiting [OF g(6) a(1)]
  from deliver_ok [OF g(1,2) w(2)] a w g show ?thesis by (auto simp: o3_receive_def o3_good_def cache_good_def)
qed

lemma o3_tick_good:
  assumes "o3_good n c S"
  shows "\<exists>m' S'. o3_tick snd_mem translate c m S = Inr (m', S') \<and> o3_good n c S'"
proof -
  from assms have g: "length (of_cores S) = n" "\<forall>C \<in> set (of_cores S). core_ok n C" "t_ok n (of_tr S)" "cfg_ok c"
    "llc_ok c (of_llc S)" "waiting_ok n (of_llc S)" by (simp_all add: o3_good_def cache_good_def)
  from llc_tick_ok [OF g(5), of snd_mem m] obtain ds m' L where
    t: "llc_tick snd_mem c m (of_llc S) = Inr (ds, m', L)" "llc_ok c L" by blast
  note w = llc_tick_waiting [OF g(6) t(1)]
  from deliver_ok [OF g(1,2)] w obtain Cs where
    d: "deliver ds (of_cores S) = Inr Cs" "length Cs = n" "\<forall>C \<in> set Cs. core_ok n C" by blast
  have "cache_good n c L" using g(4) t(2) w by (simp add: cache_good_def)
  from tick_cores_ok [OF d(3) g(3) this] d t(1) show ?thesis by (fastforce simp: o3_tick_def o3_good_def)
qed

lemma o3_reach_good:
  assumes "o3_reach snd_mem translate c S0 S" "o3_good n c S0"
  shows "o3_good n c S"
  using assms
proof induction
  case (tick S m m' S')
  with o3_tick_good [of n c S snd_mem m] show ?case by auto
next
  case (answer S r S')
  with o3_receive_good [of n c S r] show ?case by auto
qed

end

section \<open>The set up\<close>

lemma core_new_ok:
  assumes "core_new i ipc depth expected tr = Inr C" "0 < depth" "0 \<le> i" "i < int n"
  shows "core_ok n C"
proof -
  from window_new_ok [OF assms(2), of ipc] obtain w where w: "window_new ipc depth = Inr w" "window_ok w" by blast
  with assms show ?thesis
    by (auto simp: core_new_def fetch_def vec_at_def core_ok_def sbind_Inr of_opt_Inr split: if_splits)
qed

lemma make_cores_ok:
  "make_cores p i traces = Inr Cs \<Longrightarrow> 0 < op_depth p \<Longrightarrow> 0 \<le> i \<Longrightarrow> i + int (length traces) \<le> int n \<Longrightarrow>
     length Cs = length traces \<and> (\<forall>C \<in> set Cs. core_ok n C)"
proof (induction traces arbitrary: i Cs)
  case (Cons ls traces)
  from Cons.prems(1) obtain tr C Cs' where
    c: "core_new i (op_ipc p) (op_depth p) (op_expected p) tr = Inr C" "make_cores p (i + 1) traces = Inr Cs'" "Cs = C # Cs'"
    by (auto simp: sbind_Inr)
  from core_new_ok [OF c(1), of n] Cons.IH [OF c(2)] Cons.prems(2-4) c(3) show ?case by auto
qed simp

text \<open>A geometry of powers of two, and what \<open>init\<close> makes of it.\<close>

definition o3_geometry :: "o3_params \<Rightarrow> nat \<Rightarrow> nat \<Rightarrow> bool" where
  "o3_geometry p k m \<longleftrightarrow> 0 < op_depth p \<and> 0 < op_assoc p \<and> op_assoc p < 2 ^ 31 \<and> k \<le> 31 \<and> m \<le> 30 \<and> op_linesize p = 2 ^ k \<and>
     0 \<le> op_mshrs p \<and> op_mshrs p * int (length (op_traces p)) < 2 ^ 31 \<and>
     (\<exists>cap. parse_capacity_str (op_capacity p) = Inr cap \<and> cap * int (length (op_traces p)) = 2 ^ k * op_assoc p * 2 ^ m \<and>
        0 \<le> cap \<and> cap < 2 ^ 31 \<and> cap * int (length (op_traces p)) < 2 ^ 31)"

lemma o3_init_good:
  assumes p: "o3_geometry p k m" and i: "o3_init p tr_init = Inr (c, S)"
    and t: "\<And>t. tr_init (length (op_traces p)) = Some t \<Longrightarrow> P t"
  shows "length (of_cores S) = length (op_traces p) \<and> (\<forall>C \<in> set (of_cores S). core_ok (length (op_traces p)) C) \<and>
    P (of_tr S) \<and> cache_good (length (op_traces p)) c (of_llc S)"
proof -
  let ?n = "length (op_traces p)"
  from p obtain cap where cap: "parse_capacity_str (op_capacity p) = Inr cap" "cap * int ?n = 2 ^ k * op_assoc p * 2 ^ m"
    "0 \<le> cap" "cap < 2 ^ 31" "cap * int ?n < 2 ^ 31" and
    g: "0 < op_assoc p" "op_assoc p < 2 ^ 31" "k \<le> 31" "m \<le> 30" "op_linesize p = 2 ^ k" "0 \<le> op_mshrs p" "op_mshrs p * int ?n < 2 ^ 31"
    and depth: "0 < op_depth p"
    unfolding o3_geometry_def by blast
  from i cap(1) obtain tr Cs where tr: "tr_init ?n = Some tr"
    and c: "llc_setup (op_latency p) (i32 (i32 cap * int ?n)) (op_linesize p) (op_assoc p) (i32 (op_mshrs p * int ?n)) = Some c"
    and Cs: "make_cores p 0 (op_traces p) = Inr Cs" and S: "S = \<lparr>of_clk = 0, of_cores = Cs, of_llc = llc_new, of_tr = tr\<rparr>"
    by (auto simp: o3_init_def Let_def sbind_Inr of_opt_Inr of_sum_Inr)
  have size: "i32 (i32 cap * int ?n) = 2 ^ k * op_assoc p * 2 ^ m" proof -
    have "i32 (cap * int ?n) = cap * int ?n" using cap(3,5) by (intro i32_nonneg) simp_all
    moreover have "i32 cap = cap" using cap(3,4) by (intro i32_nonneg)
    ultimately show ?thesis using cap(2) by simp
  qed
  have mshrs: "i32 (op_mshrs p * int ?n) = op_mshrs p * int ?n" "0 \<le> op_mshrs p * int ?n" using g(6,7) by (simp_all add: i32_nonneg)
  have "2 ^ k * op_assoc p * 2 ^ m < 2 ^ 64" using cap(2,5) by simp
  from llc_setup_pow [OF g(1-4) mshrs(2) g(7) this, of "op_latency p"] c have "cfg_ok c"
    unfolding size mshrs(1) g(5) by auto
  then have "cache_good ?n c llc_new" using llc_new_ok by (simp add: cache_good_def waiting_ok_def llc_new_def)
  with make_cores_ok [OF Cs depth, of ?n] t [OF tr] S show ?thesis by simp
qed

section \<open>The frontend\<close>

text \<open>
  The processor frontend runs without fault. For cores with a window of positive depth, a cache whose line size and
  number of sets are powers of two, and \<open>RandomTranslation\<close> over at least one page: if \<open>init\<close> returns, then in every
  state of a run, with any memory that accepts or refuses requests and answers anything at any time, \<open>tick\<close> and
  \<open>receive\<close> return (no core leaves its window or its trace, no translation loops, no request is answered to a core that
  does not exist, the cache keeps its iterators), and no window holds more instructions than its depth.
\<close>

theorem o3_runs_safely:
  assumes p: "o3_geometry p k m" and i: "o3_init p (rt_init seed max_addr page_KB) = Inr (c, S0)"
    and pages: "rt_num_pages (of_tr S0) \<noteq> 0" and S: "o3_reach snd_mem rt_translate c S0 S"
  shows "(\<exists>mem' S'. o3_tick snd_mem rt_translate c mem S = Inr (mem', S')) \<and> (\<exists>S'. o3_receive c r S = Inr S') \<and>
    length (of_cores S) = length (op_traces p) \<and>
    (\<forall>C \<in> set (of_cores S). int (length (win_abs (co_window C))) \<le> iw_depth (co_window C))"
proof -
  let ?n = "length (op_traces p)"
  have "rt_num_pages t \<noteq> 0 \<longrightarrow> rt_ok ?n t" if "rt_init seed max_addr page_KB ?n = Some t" for t
    using rt_init_ok [OF that] by blast
  from o3_init_good [OF p i, where P = "\<lambda>t. rt_num_pages t \<noteq> 0 \<longrightarrow> rt_ok ?n t"] this pages have "rtr.o3_good ?n c S0" by (simp add: rtr.o3_good_def)
  from rtr.o3_reach_good [OF S this] have good: "rtr.o3_good ?n c S" .
  then have "\<forall>C \<in> set (of_cores S). int (length (win_abs (co_window C))) \<le> iw_depth (co_window C)"
    by (auto simp: rtr.o3_good_def core_ok_def window_ok_def)
  with rtr.o3_tick_good [OF good, of snd_mem mem] rtr.o3_receive_good [OF good, of r] good show ?thesis
    by (auto simp: rtr.o3_good_def)
qed

lemma default_o3:
  "\<exists>c S0. o3_init (o3_defaults 100 [[''3 4096 8192'', ''0 64'']]) (rt_init 123 4294967296 4) = Inr (c, S0) \<and>
     rt_num_pages (of_tr S0) \<noteq> 0"
proof -
  have "parse_capacity_str ''2MB'' = Inr 2097152" by code_simp
  moreover have "llc_setup 47 2097152 64 8 16 \<noteq> None"
    by (simp add: llc_setup_def u64_def i32_def Let_def calc_log2.simps)
  moreover have "trace_new [''3 4096 8192'', ''0 64''] = Inr [\<lparr>in_bubbles = 3, in_load = 4096, in_store = 8192\<rparr>,
      \<lparr>in_bubbles = 0, in_load = 64, in_store = -1\<rparr>]" by code_simp
  moreover have "\<exists>t. rt_init 123 4294967296 4 1 = Some t \<and> rt_num_pages t = 1048576"
    by (simp add: rt_init_def u64_def Let_def calc_log2.simps signed_take_bit_int_eq_self signed_divide_int_def)
  ultimately show ?thesis
    by (auto simp: o3_init_def o3_defaults_def core_new_def window_new_def fetch_def vec_at_def i32_nonneg)
qed

theorem o3_runs_safely_witness:
  "\<exists>c S0. o3_init (o3_defaults 100 [[''3 4096 8192'', ''0 64'']]) (rt_init 123 4294967296 4) = Inr (c, S0) \<and>
     (\<exists>mem' S'. o3_tick (\<lambda>(m :: nat) r. (True, m + 1)) rt_translate c 0 S0 = Inr (mem', S'))"
proof -
  have "parse_capacity_str ''2MB'' = Inr 2097152" by code_simp
  then have g: "o3_geometry (o3_defaults 100 [[''3 4096 8192'', ''0 64'']]) 6 12"
    by (simp add: o3_geometry_def o3_defaults_def)
  from default_o3 obtain c S0 where i: "o3_init (o3_defaults 100 [[''3 4096 8192'', ''0 64'']]) (rt_init 123 4294967296 4) = Inr (c, S0)"
    and p: "rt_num_pages (of_tr S0) \<noteq> 0" by blast
  have "o3_reach (\<lambda>(m :: nat) r. (True, m + 1)) rt_translate c S0 S0" by (rule o3_reach.start)
  from o3_runs_safely [OF g i p this, of 0] i show ?thesis by blast
qed

end
