(* ===== verification/Spec2Isabelle.thy ===== *)
theory Spec2Isabelle
  imports Simulation_HBM3 Generic_HBM3 Standards_Example Rowhammer_Devices O3_Frontend_Facts
begin

text \<open>
  SPARE-PIM is a cycle-accurate simulator of DRAM with processing in memory, built on Ramulator 2. This
  library models it as functions on explicit states and proves what its parts promise. It follows the
  sources file by file; the name of a definition is the name of the C++ function it models, with a prefix
  where several files use the same one.

  \<^bold>\<open>The program.\<close> A frontend produces requests, a memory system maps their addresses to
  (channel, ..., bank, row, column) and hands each to the controller of its channel, a controller turns
  requests into DRAM commands and issues them to the device when the device says that their timing allows it.
  The main loop ticks frontend and memory system at a fixed clock ratio until the frontend has finished. The
  project's own parts are the trace frontend that reads attention tokens, the HBM3 device with the commands
  MAC, ACC, EMUL, MOV and SPM, the SPARE-PIM controller that expands a token into a stream of per-bank
  commands and can execute it on simulated bank contents, and the golden model its results are compared with.

  \<^bold>\<open>Which theory models what\<close> (paths under \<open>src/src/\<close>).
  \<^item> \<open>Prelude\<close>: vectors with checked indices, sequencing of computations that fail, C++ division.
    \<open>Base_Utils\<close>: \<open>base/utils\<close>. \<open>Request_Buffer\<close>: \<open>base/request\<close>. \<open>Half_Float\<close>, \<open>Float_Ops\<close>: \<open>golden/fp16.h\<close> and
    the single-precision arithmetic of the language on bit patterns.
  \<^item> The device. \<open>Dram_Spec\<close>: \<open>dram/spec.h\<close> (name tables, look-up tables, the constraint matrix). \<open>Dram_Node\<close>:
    \<open>dram/node.h\<close> and \<open>dram/lambdas\<close> (the tree of nodes with its state, timing and row bookkeeping). \<open>HBM3_Device\<close>:
    \<open>dram/impl/HBM3.cpp\<close>. \<open>Dram_Standard\<close>: the code every other file of \<open>dram/impl\<close> repeats, over a record of its
    tables; \<open>DDR3_Device\<close>, \<open>DDR4_Device\<close>, \<open>DDR4VRR_Device\<close>, \<open>DDR4RVRR_Device\<close>, \<open>DDR5_Device\<close>, \<open>DDR5VRR_Device\<close>,
    \<open>DDR5RVRR_Device\<close>, \<open>GDDR6_Device\<close>, \<open>HBM_Device\<close>, \<open>HBM2_Device\<close> hold the tables and the configuration of each.
  \<^item> The SPARE-PIM channel. \<open>Spare_Config\<close>, \<open>Spare_Functional\<close> and \<open>Spare_Controller\<close>:
    \<open>dram_controller/impl/sparepim_controller.cpp\<close> (parameters and addresses; the functional data path; queues, expansion
    and \<open>tick\<close>). \<open>Bank_Store\<close>: \<open>bank_storage.h\<close>. \<open>Golden_Model\<close>: \<open>golden/\<close>. \<open>Spare_Trace\<close>:
    \<open>frontend/impl/sparepim/sparepim_trace.cpp\<close>.
  \<^item> The generic channel. \<open>Frfcfs\<close>: \<open>scheduler/generic_scheduler.cpp\<close>. \<open>Generic_Controller\<close>:
    \<open>generic_dram_controller.cpp\<close> with its refresh manager and row policies. \<open>Monitors\<close> and \<open>Rowhammer\<close>: the plugins
    \<open>cmd_counter\<close>, \<open>trace_recorder\<close>, and \<open>oracle_rh\<close>, \<open>graphene\<close>, \<open>twice\<close>, \<open>para\<close>.
  \<^item> The system. \<open>Addr_Mapper\<close>: \<open>addr_mapper/impl/linear_mappers.cpp\<close>. \<open>Memory_System\<close>:
    \<open>memory_system/impl/generic_DRAM_system.cpp\<close>. \<open>Simulation\<close>: the loop of \<open>main.cpp\<close>.
  \<^item> The processor frontend that Ramulator 2 brings, \<open>frontend/impl/processor/simpleO3\<close>. \<open>O3_Cache\<close>: \<open>llc.cpp\<close>.
    \<open>O3_Core\<close>: \<open>core.cpp\<close>. \<open>O3_Frontend\<close>: \<open>simpleO3.cpp\<close>. \<open>Translation\<close>: \<open>translation/impl\<close>.

  \<^bold>\<open>How state and errors correspond.\<close> A class is a record of its members, a method a function from
  the record to the record it leaves; an iterator is a position. Where the C++ would index out of range, shift
  too far or otherwise leave its defined behaviour, the model returns \<open>None\<close>; exceptions are values of a sum
  type. So a theorem that an operation returns \<open>Some\<close> says that the code stays within its tables. Components
  that hold one another by pointer are passed as records of the operations called (\<open>dram_ops\<close>, \<open>gdram\<close>,
  \<open>ctrl_ops\<close>), and their contracts are locales, each interpreted on the model of the code that provides it.
  Numbers from the outside (random draws, the order in which a hash map is traversed, the lines of a
  file) are parameters.

  \<^bold>\<open>What is proved.\<close>
  \<^item> \<open>Dram_Timing\<close>, \<open>Dram_Tree\<close>, \<open>Dram_Device\<close>, \<open>Standard_Timing\<close>, \<open>Standard_Rows\<close> (locale \<open>dram_standard\<close>): the
    incremental bookkeeping of earliest issue times and short histories answers exactly the question that the constraint
    table asks of the log of all commands. \<open>HBM3_Timing\<close>, \<open>HBM3_Rules\<close> and \<open>Standards\<close> apply this to the
    devices; \<open>Dram_Access\<close> and \<open>HBM3_Access\<close> show which operations are defined and that a wait is bounded.
    \<open>HBM3_Banks\<close>: the state of the banks refines a small state machine, and prerequisites follow it and end.
  \<^item> \<open>Spare_Stream\<close>, \<open>Spare_System\<close>, \<open>Spare_HBM3\<close> (locale \<open>pim_dram\<close>): the commands of a token and the row
    discipline of every bank, timing-legal traffic without an index out of range, completion in order, progress.
    \<open>Pim_Log\<close> and \<open>Generic_Log\<close> put a recorder between a controller and its device: a list of the commands issued,
    which nothing reads (the \<open>forget\<close> lemmas), so that what is said of the traffic is said of exactly these commands.
    \<open>Spare_Dataflow\<close>, \<open>Spare_Layout\<close>: the functional data path computes the golden model bit by bit when the
    placement keeps the tensors apart, and the default placement, which does not.
    \<open>Spare_Trace_Facts\<close>, \<open>Simulation\<close>, \<open>Simulation_HBM3\<close>: traces are read back, and the simulation ends with every
    token completed. \<open>Addr_Mapper\<close>: the mappings can be inverted within the bits that the levels have.
  \<^item> \<open>Generic_Safety\<close>, \<open>Generic_System\<close>, \<open>Generic_HBM3\<close> (locales \<open>ctl_dram\<close>, \<open>ctl_parts\<close>): the generic controller
    with any scheduler, row policy and plugins that keep their contracts.
    \<open>Rowhammer_Facts\<close>, \<open>Rowhammer_Devices\<close> (locale \<open>rowhammer_defense\<close>): the oracle refreshes exactly when it must;
    the summary of Graphene never underestimates, so that within its budget no row reaches the threshold.
  \<^item> \<open>O3_Cache_Facts\<close>, \<open>O3_Cache_Safe\<close>, \<open>O3_Core_Facts\<close>, \<open>Translation_Facts\<close>, \<open>O3_Frontend_Facts\<close> (locale \<open>translation\<close>,
    interpreted on both translations): the cache never writes through an iterator to an erased line or fails its
    assertion, the window of a core refines a bounded queue, and the frontend runs without fault with any memory; a run
    in which the cache loses a request.

  \<^bold>\<open>Bounds and fuel.\<close> \<open>sim_loop\<close> iterates the main loop with fuel; \<open>simulation_completes\<close> gives the number of
  iterations that suffices for the trace at hand. All other loops are structural or come with a termination proof. Where the
  code narrows a value (32-bit timings, unsigned sizes, packed addresses, floating point) the model has the width
  of the code. Other numbers are unbounded integers: cycle counters, addresses and statistics, whose overflow needs
  more than \<open>2 ^ 63\<close> cycles or is undefined, and some \<open>int\<close>s of the code whose overflow is undefined behaviour that these
  theorems do not exclude: the sums of VOC values in \<open>read_bgmu_vocs_and_find_max\<close>, the SPM latency
  \<open>m_spm_fixed_cycles + max_voc * m_spm_cycles_per_voc\<close>, the clock and the activation counts of the row-hammer plugins.

  \<^bold>\<open>Not modelled.\<close> The power model (\<open>dram/lambdas/power.h\<close>, \<open>set_powers\<close> and \<open>process_rank_energy\<close> of the DDR4 and
  DDR5 files): counters for energies printed at the end in double precision, which nothing reads. \<open>LPDDR5.cpp\<close>: its nodes
  have a state of their own (pre-opened banks, synchronization of the write clock). The plugins \<open>hydra\<close>, \<open>rrs\<close>, \<open>aqua\<close>,
  \<open>rfm_manager\<close>, \<open>trr\<close> (not compiled), \<open>blockhammer\<close>, \<open>bliss\<close>, \<open>prac\<close>, the controllers and schedulers of the BlockHammer
  and PRAC studies, and the row-indirection mapper. The processor frontend \<open>bhO3\<close>, the load/store traces and the
  gem5 wrapper. YAML configuration, parameters, factory, statistics, logging, examples, and the
  command line: they construct the components and print.
\<close>

end
